(* ===== verification/Prelude.thy ===== *)
theory Prelude
  imports Complex_Main "HOL-Library.Char_ord" "HOL-Library.List_Lexorder"
begin

text \<open>
  The shared base of the development: the error values of \<^verbatim>\<open>domain/errors/errors.go\<close>,
  the result types the components use for Go's \<^verbatim>\<open>(T, error)\<close> returns, the early-return
  loop over a list, decimal digits and integer formatting, and the collections of
  simplification rules that the component theories extend.

  A Go \<^verbatim>\<open>error\<close> result is a \<open>goerr option\<close> (\<open>None\<close> is \<^verbatim>\<open>nil\<close>); a \<^verbatim>\<open>(T, error)\<close>
  result is a \<open>goerr + 'a\<close>. The message of an error is the format string of the source
  with its verbs left in place; the structured details of a domain error are not modelled.
\<close>

named_theorems flexi_simps \<open>characterisations of checks and operations of the model\<close>
named_theorems flexi_wf \<open>well-formedness facts that operations establish or keep\<close>

section \<open>Domain errors (domain/errors/errors.go)\<close>

datatype code =
    CodeValidation
  | CodeNotFound
  | CodeConflict
  | CodeArchived
  | CodeDependency
  | CodeForbidden

datatype goerr = DomainErr code string | PlainErr string

type_synonym 'a result = "goerr + 'a"

abbreviation NewValidation :: "string \<Rightarrow> goerr" where
  "NewValidation m \<equiv> DomainErr CodeValidation m"

abbreviation NewNotFound :: "string \<Rightarrow> goerr" where
  "NewNotFound entity \<equiv> DomainErr CodeNotFound entity"

abbreviation NewForbidden :: "string \<Rightarrow> goerr" where
  "NewForbidden m \<equiv> DomainErr CodeForbidden m"

abbreviation NewConflict :: "string \<Rightarrow> goerr" where
  "NewConflict m \<equiv> DomainErr CodeConflict m"

abbreviation NewArchived :: "string \<Rightarrow> goerr" where
  "NewArchived entity \<equiv> DomainErr CodeArchived entity"

abbreviation NewDependencyViolation :: "string \<Rightarrow> goerr" where
  "NewDependencyViolation m \<equiv> DomainErr CodeDependency m"

fun err_msg :: "goerr \<Rightarrow> string" where
  "err_msg (DomainErr _ m) = m"
| "err_msg (PlainErr m) = m"

fun CodeOf :: "goerr \<Rightarrow> code option" where
  "CodeOf (DomainErr c _) = Some c"
| "CodeOf (PlainErr _) = None"

section \<open>Results and early-return loops\<close>

definition is_ok :: "'a result \<Rightarrow> bool" where
  "is_ok r \<longleftrightarrow> (case r of Inl _ \<Rightarrow> False | Inr _ \<Rightarrow> True)"

lemma is_ok_simps [simp]: "is_ok (Inr x)" "\<not> is_ok (Inl e)"
  by (simp_all add: is_ok_def)

lemma is_okE: "is_ok r \<Longrightarrow> (\<And>x. r = Inr x \<Longrightarrow> P) \<Longrightarrow> P"
  by (cases r) (auto simp: is_ok_def)

text \<open>\<^verbatim>\<open>for _, x := range xs { if err := f(x); err != nil { return err } }; return nil\<close>\<close>

fun first_err :: "('a \<Rightarrow> goerr option) \<Rightarrow> 'a list \<Rightarrow> goerr option" where
  "first_err f [] = None"
| "first_err f (x # xs) = (case f x of Some e \<Rightarrow> Some e | None \<Rightarrow> first_err f xs)"

lemma first_err_None [simp]: "first_err f xs = None \<longleftrightarrow> (\<forall>x\<in>set xs. f x = None)"
  by (induction xs) (auto split: option.splits)

lemma first_err_append:
  "first_err f (xs @ ys) = (case first_err f xs of Some e \<Rightarrow> Some e | None \<Rightarrow> first_err f ys)"
  by (induction xs) (simp_all split: option.split del: first_err_None)

lemma first_err_Some:
  "first_err f xs = Some e \<Longrightarrow> \<exists>x\<in>set xs. f x = Some e"
  by (induction xs) (auto split: option.splits)

lemma first_err_cong [fundef_cong]:
  "xs = ys \<Longrightarrow> (\<And>x. x \<in> set ys \<Longrightarrow> f x = g x) \<Longrightarrow> first_err f xs = first_err g ys"
  by (induction xs arbitrary: ys) (auto split: option.splits)

text \<open>A loop that decodes or encodes every element and stops at the first error.\<close>

fun map_result :: "('a \<Rightarrow> 'b result) \<Rightarrow> 'a list \<Rightarrow> 'b list result" where
  "map_result f [] = Inr []"
| "map_result f (x # xs) =
     (case f x of Inl e \<Rightarrow> Inl e
      | Inr y \<Rightarrow> (case map_result f xs of Inl e \<Rightarrow> Inl e | Inr ys \<Rightarrow> Inr (y # ys)))"

lemma map_result_Inr:
  "map_result f xs = Inr ys \<longleftrightarrow> list_all2 (\<lambda>x y. f x = Inr y) xs ys"
proof (induction xs arbitrary: ys)
  case Nil
  then show ?case by auto
next
  case (Cons x xs)
  have "map_result f (x # xs) = Inr ys \<longleftrightarrow>
      (\<exists>y zs. f x = Inr y \<and> map_result f xs = Inr zs \<and> ys = y # zs)"
    by (auto split: sum.splits)
  then show ?case by (simp only: Cons.IH list_all2_Cons1) blast
qed

lemma map_result_map: "(\<And>x. x \<in> set xs \<Longrightarrow> f x = Inr (g x)) \<Longrightarrow> map_result f xs = Inr (map g xs)"
  by (induction xs) auto

lemma map_sum_Inr: "map_sum f g r = Inr y \<longleftrightarrow> (\<exists>x. r = Inr x \<and> y = g x)"
  by (cases r) auto

text \<open>\<^verbatim>\<open>x, err := r; if err != nil { return err }; ...\<close> and \<^verbatim>\<open>if err := e; err != nil { return err }; ...\<close>\<close>

definition rbind :: "'e + 'a \<Rightarrow> ('a \<Rightarrow> 'e + 'b) \<Rightarrow> 'e + 'b" where
  "rbind r f = (case r of Inl e \<Rightarrow> Inl e | Inr x \<Rightarrow> f x)"

definition rguard :: "goerr option \<Rightarrow> 'b result \<Rightarrow> 'b result" where
  "rguard e r = (case e of Some x \<Rightarrow> Inl x | None \<Rightarrow> r)"

lemma rbind_simps [simp]: "rbind (Inl e) f = Inl e" "rbind (Inr x) f = f x"
  by (simp_all add: rbind_def)

lemma rguard_simps [simp]: "rguard None r = r" "rguard (Some e) r = Inl e"
  by (simp_all add: rguard_def)

lemma rbind_Inr: "rbind r f = Inr y \<longleftrightarrow> (\<exists>x. r = Inr x \<and> f x = Inr y)"
  by (cases r) auto

lemma rguard_Inr: "rguard e r = Inr y \<longleftrightarrow> e = None \<and> r = Inr y"
  by (cases e) auto

lemma rbind_cong [fundef_cong]: "r = r' \<Longrightarrow> (\<And>x. r' = Inr x \<Longrightarrow> f x = g x) \<Longrightarrow> rbind r f = rbind r' g"
  by (cases r') auto

text \<open>An identifier or literal that does not parse is reported as a validation error.\<close>

definition as_validation :: "'a result \<Rightarrow> 'a result" where
  "as_validation r = map_sum (\<lambda>e. NewValidation (err_msg e)) id r"

lemma as_validation_simps [simp]: "as_validation (Inl e) = Inl (NewValidation (err_msg e))" "as_validation (Inr x) = Inr x"
  by (simp_all add: as_validation_def)

lemma as_validation_Inr: "as_validation r = Inr x \<longleftrightarrow> r = Inr x"
  by (cases r) auto

section \<open>Decimal digits and integers\<close>

definition is_digit :: "char \<Rightarrow> bool" where
  "is_digit c \<longleftrightarrow> 48 \<le> (of_char c :: nat) \<and> (of_char c :: nat) \<le> 57"

definition digit_val :: "char \<Rightarrow> nat" where
  "digit_val c = of_char c - 48"

definition digit_char :: "nat \<Rightarrow> char" where
  "digit_char d = char_of (48 + d)"

lemma of_char_digit_char: "d < 10 \<Longrightarrow> (of_char (digit_char d) :: nat) = 48 + d"
  by (simp add: digit_char_def)

lemma digit_char_simps [simp]:
  "d < 10 \<Longrightarrow> is_digit (digit_char d)"
  "d < 10 \<Longrightarrow> digit_val (digit_char d) = d"
  by (simp_all add: is_digit_def digit_val_def of_char_digit_char)

fun digits_val :: "nat \<Rightarrow> string \<Rightarrow> nat" where
  "digits_val acc [] = acc"
| "digits_val acc (c # cs) = digits_val (10 * acc + digit_val c) cs"

lemma digits_val_append: "digits_val a (xs @ ys) = digits_val (digits_val a xs) ys"
  by (induction xs arbitrary: a) auto

text \<open>\<^verbatim>\<open>strconv.FormatInt(i, 10)\<close>\<close>

fun nat_str :: "nat \<Rightarrow> string" where
  "nat_str n = (if n < 10 then [digit_char n] else nat_str (n div 10) @ [digit_char (n mod 10)])"

declare nat_str.simps [simp del]

definition itoa :: "int \<Rightarrow> string" where
  "itoa i = (if i < 0 then CHR ''-'' # nat_str (nat (- i)) else nat_str (nat i))"

lemma nat_str_digits: "list_all is_digit (nat_str n)"
proof (induction n rule: nat_str.induct)
  case (1 n)
  then show ?case by (subst nat_str.simps) auto
qed

lemma nat_str_not_Nil [simp]: "nat_str n \<noteq> []"
  by (subst nat_str.simps) auto

lemma digits_val_nat_str [simp]: "digits_val 0 (nat_str n) = n"
proof (induction n rule: nat_str.induct)
  case (1 n)
  then show ?case by (subst nat_str.simps) (auto simp: digits_val_append)
qed

lemma nat_str_inj: "nat_str m = nat_str n \<longleftrightarrow> m = n"
  by (metis digits_val_nat_str)

lemma not_digit_minus [simp]: "\<not> is_digit (CHR ''-'')" "\<not> is_digit (CHR ''+'')"
    "\<not> is_digit (CHR ''/'')" "\<not> is_digit (CHR ''.'')"
  by (simp_all add: is_digit_def)

lemma nat_str_hd: "nat_str n = c # cs \<Longrightarrow> is_digit c"
  using nat_str_digits [of n] by simp

lemma itoa_inj: "itoa i = itoa j \<longleftrightarrow> i = j"
proof
  assume eq: "itoa i = itoa j"
  have neg: "CHR ''-'' # nat_str k \<noteq> nat_str l" for k l
    using nat_str_hd [of l "CHR ''-''" "nat_str k"] by (metis not_digit_minus(1))
  from eq show "i = j"
    by (auto simp: itoa_def nat_str_inj neg dest: neg [symmetric, THEN notE] split: if_splits)
qed simp

text \<open>\<^verbatim>\<open>strconv.ParseInt(s, 10, 64)\<close> on a JSON number literal: an optional minus sign and
  decimal digits, within the range of int64.\<close>

definition min_int64 :: int where "min_int64 = - (2 ^ 63)"
definition max_int64 :: int where "max_int64 = 2 ^ 63 - 1"

definition in_int64 :: "int \<Rightarrow> bool" where
  "in_int64 i \<longleftrightarrow> min_int64 \<le> i \<and> i \<le> max_int64"

definition parse_int64 :: "string \<Rightarrow> int option" where
  "parse_int64 s =
     (let neg = (case s of c # _ \<Rightarrow> c = CHR ''-'' | [] \<Rightarrow> False);
          ds = (if neg then tl s else s)
      in if ds = [] \<or> \<not> list_all is_digit ds then None
         else let i = (if neg then - int (digits_val 0 ds) else int (digits_val 0 ds))
              in if in_int64 i then Some i else None)"

lemma parse_int64_itoa [simp]: "in_int64 i \<Longrightarrow> parse_int64 (itoa i) = Some i"
proof -
  assume r: "in_int64 i"
  have hd: "(case nat_str n of c # _ \<Rightarrow> c = CHR ''-'' | [] \<Rightarrow> False) = False" for n
    using nat_str_hd [of n] by (auto split: list.splits)
  show ?thesis
    using r by (auto simp: parse_int64_def itoa_def Let_def hd nat_str_digits)
qed

lemma parse_int64_range: "parse_int64 s = Some i \<Longrightarrow> in_int64 i"
  by (auto simp: parse_int64_def Let_def split: if_splits)

section \<open>Lists\<close>

lemma filter_ex_swap:
  "set (filter P (filter Q xs)) = set (filter Q (filter P xs))"
  by auto

lemma list_all2_refl_on: "(\<And>x. x \<in> set xs \<Longrightarrow> R x x) \<Longrightarrow> list_all2 R xs xs"
  by (induction xs) auto

end
