(* ===== verification/Go_Runtime.thy ===== *)
theory Go_Runtime
  imports Prelude "HOL-Library.Word" "HOL-Library.Product_Lexorder"
begin

text \<open>
  What the program uses of the Go language and its standard library.

  \<^item> \<^verbatim>\<open>float64\<close>: a datatype with the IEEE special values and the finite values as exact
    rationals, with Go's comparison operators.
  \<^item> \<^verbatim>\<open>time.Time\<close>: an instant in nanoseconds since the Unix epoch with the location's
    offset function; \<^verbatim>\<open>time.Duration\<close>: int64 nanoseconds with wrap-around.
  \<^item> \<^verbatim>\<open>json.RawMessage\<close>: nil, bytes that are not JSON, or a document tree. Byte-level lexing of JSON is the only thing abstracted away.
  \<^item> \<^verbatim>\<open>big.Rat\<close>: \<^typ>\<open>rat\<close>; decimal literals are read digit by digit.
  \<^item> \<^verbatim>\<open>utf8.RuneCountInString\<close>: the decoder's table on the bytes of the string.
  \<^item> Engines of the standard library whose internals no property depends on (the RE2
    engine, \<^verbatim>\<open>net/url\<close>, \<^verbatim>\<open>net/mail\<close>, the layouts of \<^verbatim>\<open>time.Parse\<close>/\<^verbatim>\<open>Format\<close>, the
    text forms of floats) are the fields of the record \<open>golib\<close>, an argument of every
    definition that calls them.
\<close>

section \<open>float64\<close>

datatype float64 = FNaN | FInf bool | FNegZero | FFin rat

fun f_rank :: "float64 \<Rightarrow> int \<times> rat" where
  "f_rank FNaN = (0, 0)"
| "f_rank (FInf neg) = (if neg then (-1, 0) else (1, 0))"
| "f_rank FNegZero = (0, 0)"
| "f_rank (FFin r) = (0, r)"

definition f_lt :: "float64 \<Rightarrow> float64 \<Rightarrow> bool" where
  "f_lt a b \<longleftrightarrow> a \<noteq> FNaN \<and> b \<noteq> FNaN \<and>
     (fst (f_rank a) < fst (f_rank b) \<or>
      fst (f_rank a) = fst (f_rank b) \<and> snd (f_rank a) < snd (f_rank b))"

definition f_eq :: "float64 \<Rightarrow> float64 \<Rightarrow> bool" where
  "f_eq a b \<longleftrightarrow> a \<noteq> FNaN \<and> b \<noteq> FNaN \<and> f_rank a = f_rank b"

definition f_finite :: "float64 \<Rightarrow> bool" where
  "f_finite a \<longleftrightarrow> (case a of FNegZero \<Rightarrow> True | FFin _ \<Rightarrow> True | _ \<Rightarrow> False)"

lemma f_lt_rank: "a \<noteq> FNaN \<Longrightarrow> b \<noteq> FNaN \<Longrightarrow> f_lt a b \<longleftrightarrow> f_rank a < f_rank b"
  by (auto simp: f_lt_def less_prod_def)

lemma f_eq_iff: "a \<noteq> FNaN \<Longrightarrow> b \<noteq> FNaN \<Longrightarrow> f_eq a b \<longleftrightarrow> \<not> f_lt a b \<and> \<not> f_lt b a"
  by (auto simp: f_eq_def f_lt_def prod_eq_iff)

lemma f_lt_trans: "f_lt a b \<Longrightarrow> f_lt b c \<Longrightarrow> f_lt a c"
  by (auto simp: f_lt_def)

lemma f_lt_irrefl [simp]: "\<not> f_lt a a"
  by (auto simp: f_lt_def)

lemma f_lt_asym: "f_lt a b \<Longrightarrow> \<not> f_lt b a"
  by (auto simp: f_lt_def)

lemma f_lt_eq_trans: "f_lt a b \<Longrightarrow> f_eq b c \<Longrightarrow> f_lt a c" "f_eq a b \<Longrightarrow> f_lt b c \<Longrightarrow> f_lt a c"
  by (auto simp: f_lt_def f_eq_def)

lemma f_eq_refl: "a \<noteq> FNaN \<Longrightarrow> f_eq a a"
  by (simp add: f_eq_def)

lemma f_finite_not_NaN: "f_finite a \<Longrightarrow> a \<noteq> FNaN"
  by (auto simp: f_finite_def)

section \<open>Time and durations\<close>

record gotime =
  ns :: int                    \<comment> \<open>the instant, nanoseconds since the Unix epoch\<close>
  loc :: "int \<Rightarrow> int"          \<comment> \<open>the location's offset from UTC at an instant\<close>

definition day_ns :: int where "day_ns = 86400000000000"

text \<open>The start of the civil day of \<open>t\<close> in its own location, as a UTC instant:
  \<^verbatim>\<open>time.Date(y, m, d, 0, 0, 0, 0, time.UTC)\<close> for \<^verbatim>\<open>y, m, d := t.Date()\<close>.\<close>

definition civil_midnight :: "gotime \<Rightarrow> int" where
  "civil_midnight t = ((ns t + loc t (ns t)) div day_ns) * day_ns"

text \<open>\<^verbatim>\<open>time.Date(0, 1, 1, t.Hour(), t.Minute(), t.Second(), 0, time.UTC)\<close>: year 0 begins
  62167219200 seconds before the epoch.\<close>

definition year_zero_ns :: int where "year_zero_ns = - 62167219200000000000"

definition clock_of :: "gotime \<Rightarrow> int" where
  "clock_of t = year_zero_ns +
     (((ns t + loc t (ns t)) mod day_ns) div 1000000000) * 1000000000"

definition utc :: "int \<Rightarrow> int" where "utc = (\<lambda>_. 0)"

definition wrap64 :: "int \<Rightarrow> int" where
  "wrap64 i = sint (word_of_int i :: 64 word)"

lemma wrap64_eq: "wrap64 i = signed_take_bit 63 i"
  by (simp add: wrap64_def signed_of_int)

lemma wrap64_id [simp]: "in_int64 i \<Longrightarrow> wrap64 i = i"
  by (simp add: wrap64_eq in_int64_def min_int64_def max_int64_def signed_take_bit_int_eq_self)

lemma wrap64_range: "in_int64 (wrap64 i)"
  using signed_take_bit_int_greater_eq_minus_exp [of 63 i] signed_take_bit_int_less_exp [of 63 i]
  by (simp add: wrap64_eq in_int64_def min_int64_def max_int64_def)

text \<open>\<^verbatim>\<open>t.Add(d)\<close>\<close>

definition time_add :: "gotime \<Rightarrow> int \<Rightarrow> gotime" where
  "time_add t d = t\<lparr>ns := ns t + d\<rparr>"

section \<open>JSON documents\<close>

definition strip_sign :: "string \<Rightarrow> string" where
  "strip_sign s = (case s of c # cs \<Rightarrow> (if c = CHR ''+'' \<or> c = CHR ''-'' then cs else s) | [] \<Rightarrow> [])"

datatype json =
    JNull
  | JBool bool
  | JNum string
  | JStr string
  | JArr "json list"
  | JObj "(string \<times> json) list"

datatype rawmsg = RawNil | RawInvalid | Raw json

text \<open>The grammar of JSON number literals, and documents whose numbers follow it.\<close>

definition json_int :: "string \<Rightarrow> bool" where
  "json_int s \<longleftrightarrow> s \<noteq> [] \<and> list_all is_digit s \<and> (hd s = CHR ''0'' \<longrightarrow> length s = 1)"

definition json_exp :: "string \<Rightarrow> bool" where
  "json_exp s \<longleftrightarrow>
     (case s of [] \<Rightarrow> True
      | c # cs \<Rightarrow> (c = CHR ''e'' \<or> c = CHR ''E'') \<and> strip_sign cs \<noteq> [] \<and> list_all is_digit (strip_sign cs))"

definition json_number :: "string \<Rightarrow> bool" where
  "json_number s =
     (let body = (case s of c # cs \<Rightarrow> (if c = CHR ''-'' then cs else s) | [] \<Rightarrow> []);
          ip = takeWhile is_digit body; rest = dropWhile is_digit body
      in json_int ip \<and>
         (case rest of c # cs \<Rightarrow>
            (if c = CHR ''.'' then takeWhile is_digit cs \<noteq> [] \<and> json_exp (dropWhile is_digit cs)
             else json_exp rest)
          | [] \<Rightarrow> True))"

primrec wf_json :: "json \<Rightarrow> bool" where
  "wf_json JNull = True"
| "wf_json (JBool b) = True"
| "wf_json (JNum t) = json_number t"
| "wf_json (JStr s) = True"
| "wf_json (JArr xs) = list_all id (map wf_json xs)"
| "wf_json (JObj kvs) = list_all (\<lambda>p. snd p) (map (map_prod id wf_json) kvs)"

definition wf_raw :: "rawmsg \<Rightarrow> bool" where
  "wf_raw r = (case r of Raw j \<Rightarrow> wf_json j | _ \<Rightarrow> True)"

section \<open>The standard library's engines\<close>

datatype layout = DateFormat | TimeFormat | RFC3339Nano

record golib =
  re_compile :: "string \<Rightarrow> (string \<Rightarrow> bool) option"   \<comment> \<open>regexp.Compile and MatchString\<close>
  url_parse :: "string \<Rightarrow> (string \<times> string) option"   \<comment> \<open>url.Parse: Scheme and Host\<close>
  mail_parse :: "string \<Rightarrow> string option"              \<comment> \<open>mail.ParseAddress: Address\<close>
  time_parse :: "layout \<Rightarrow> string \<Rightarrow> int option"        \<comment> \<open>time.Parse, as an instant\<close>
  time_format :: "layout \<Rightarrow> int \<Rightarrow> string"              \<comment> \<open>UTC instant, Format\<close>
  float_parse :: "string \<Rightarrow> float64 option"            \<comment> \<open>strconv.ParseFloat\<close>
  float_json :: "float64 \<Rightarrow> string"                    \<comment> \<open>the number json.Marshal writes\<close>
  float_g :: "float64 \<Rightarrow> string"                       \<comment> \<open>strconv.FormatFloat(f, 'g', -1, 64)\<close>
  float_x :: "float64 \<Rightarrow> string"                       \<comment> \<open>strconv.FormatFloat(f, 'x', -1, 64)\<close>
  json_bytes :: "rawmsg \<Rightarrow> string"                     \<comment> \<open>the bytes of a raw message\<close>
  rat_other :: "string \<Rightarrow> rat option"                  \<comment> \<open>big.Rat.SetString outside decimal literals\<close>

section \<open>Decimal literals and big.Rat\<close>

text \<open>The expression \<^verbatim>\<open>^[+-]?\d+(\.\d+)?$\<close> of \<^verbatim>\<open>decimalPattern\<close>.\<close>

definition decimal_pattern :: "string \<Rightarrow> bool" where
  "decimal_pattern s =
     (let body = strip_sign s; ip = takeWhile is_digit body; rest = dropWhile is_digit body
      in ip \<noteq> [] \<and>
         (case rest of [] \<Rightarrow> True
          | c # fp \<Rightarrow> c = CHR ''.'' \<and> fp \<noteq> [] \<and> list_all is_digit fp))"

definition rat_of_decimal :: "string \<Rightarrow> rat" where
  "rat_of_decimal s =
     (let body = strip_sign s; ip = takeWhile is_digit body; fp = drop 1 (dropWhile is_digit body);
          m = of_nat (digits_val 0 (ip @ fp)) / 10 ^ length fp
      in if s \<noteq> [] \<and> hd s = CHR ''-'' then - m else m)"

definition rat_set_string :: "golib \<Rightarrow> string \<Rightarrow> rat option" where
  "rat_set_string lib s = (if decimal_pattern s then Some (rat_of_decimal s) else rat_other lib s)"

text \<open>\<^verbatim>\<open>(*big.Rat).RatString\<close>\<close>

definition rat_string :: "rat \<Rightarrow> string" where
  "rat_string r = (let (n, d) = quotient_of r in if d = 1 then itoa n else itoa n @ ''/'' @ itoa d)"

lemma slash_not_in_itoa: "CHR ''/'' \<notin> set (itoa i)"
proof -
  have "CHR ''/'' \<notin> set (nat_str n)" for n
    using nat_str_digits [of n] not_digit_minus(3) by (auto simp: list_all_iff)
  then show ?thesis by (auto simp: itoa_def)
qed

lemma append_sep_inj:
  "c \<notin> set xs \<Longrightarrow> c \<notin> set us \<Longrightarrow> xs @ c # ys = us @ c # vs \<longleftrightarrow> xs = us \<and> ys = vs"
proof (induction xs arbitrary: us)
  case Nil
  then show ?case by (cases us) auto
next
  case (Cons x xs)
  then show ?case by (cases us) auto
qed

lemma rat_string_inj: "rat_string p = rat_string q \<longleftrightarrow> p = q"
proof
  assume eq: "rat_string p = rat_string q"
  obtain n d where p: "quotient_of p = (n, d)" by fastforce
  obtain n' d' where q: "quotient_of q = (n', d')" by fastforce
  have no: "itoa i \<noteq> itoa j @ CHR ''/'' # ys" for i j ys
    using slash_not_in_itoa [of i] by auto
  from eq p q have "n = n' \<and> d = d'"
    using no [of n n' "itoa d'"] no [of n' n "itoa d"]
    by (auto simp: rat_string_def itoa_inj append_sep_inj slash_not_in_itoa split: if_splits)
  with p q show "p = q" by (metis quotient_of_inject)
qed simp

section \<open>Runes\<close>

text \<open>\<^verbatim>\<open>utf8.RuneCountInString\<close>: a byte that does not begin a valid encoding counts as one
  rune of width one.\<close>

definition cont_byte :: "nat \<Rightarrow> nat \<Rightarrow> nat \<Rightarrow> bool" where
  "cont_byte lo hi b \<longleftrightarrow> lo \<le> b \<and> b \<le> hi"

fun rune_size :: "nat list \<Rightarrow> nat" where
  "rune_size (b0 # b1 # bs) =
     (if 0xC2 \<le> b0 \<and> b0 \<le> 0xDF then (if cont_byte 0x80 0xBF b1 then 2 else 1)
      else if 0xE0 \<le> b0 \<and> b0 \<le> 0xEF then
        (if cont_byte (if b0 = 0xE0 then 0xA0 else 0x80) (if b0 = 0xED then 0x9F else 0xBF) b1
            \<and> (case bs of b2 # _ \<Rightarrow> cont_byte 0x80 0xBF b2 | [] \<Rightarrow> False)
         then 3 else 1)
      else if 0xF0 \<le> b0 \<and> b0 \<le> 0xF4 then
        (if cont_byte (if b0 = 0xF0 then 0x90 else 0x80) (if b0 = 0xF4 then 0x8F else 0xBF) b1
            \<and> (case bs of b2 # b3 # _ \<Rightarrow> cont_byte 0x80 0xBF b2 \<and> cont_byte 0x80 0xBF b3 | _ \<Rightarrow> False)
         then 4 else 1)
      else 1)"
| "rune_size _ = 1"

lemma rune_size_pos: "0 < rune_size bs"
  by (cases bs rule: rune_size.cases) auto

function rune_count_bytes :: "nat list \<Rightarrow> nat" where
  "rune_count_bytes [] = 0"
| "rune_count_bytes (b # bs) = Suc (rune_count_bytes (drop (rune_size (b # bs)) (b # bs)))"
  by pat_completeness auto
termination
  by (relation "measure length") (use rune_size_pos in auto)

definition rune_count :: "string \<Rightarrow> nat" where
  "rune_count s = rune_count_bytes (map of_char s)"

lemma rune_count_bytes_le: "rune_count_bytes bs \<le> length bs"
proof (induction bs rule: rune_count_bytes.induct)
  case (2 b bs)
  then show ?case using rune_size_pos [of "b # bs"] by simp
qed simp

lemma rune_count_le_length: "rune_count s \<le> length s"
  using rune_count_bytes_le [of "map of_char s"] by (simp add: rune_count_def)

lemma rune_size_ascii: "b < 128 \<Longrightarrow> rune_size (b # bs) = 1"
  by (cases bs) auto

lemma rune_count_ascii: "list_all (\<lambda>c. (of_char c :: nat) < 128) s \<Longrightarrow> rune_count s = length s"
  unfolding rune_count_def by (induction s) (auto simp: rune_size_ascii)

end
