(* ===== verification/Values.thy ===== *)
theory Values
  imports Go_Runtime
begin

text \<open>
  The typed attribute value of \<^verbatim>\<open>domain/valueobjects\<close>: data types (\<^verbatim>\<open>datatype.go\<close>), the
  tagged union \<^verbatim>\<open>Value\<close> with its constructors, decoder, encoders, equality, grouping key and
  order (\<^verbatim>\<open>value.go\<close>), identifiers (\<^verbatim>\<open>ids.go\<close>) and scopes (\<^verbatim>\<open>scope.go\<close>). The invariant
  \<open>wf_value\<close> says what the constructors establish; the lemmas give the equivalence and order
  laws that constraints, dependencies and uniqueness rely on, as interpretations of the two
  locales \<open>equality_on\<close> and \<open>compare_on\<close>.
\<close>

section \<open>Identifiers (ids.go, scope.go)\<close>

type_synonym ulid = nat   \<comment> \<open>the 128-bit value; 0 is the zero identifier\<close>

type_synonym TypeDefinitionID = ulid
type_synonym AttributeDefinitionID = ulid
type_synonym AttributeValueID = ulid
type_synonym DependencyID = ulid
type_synonym RelationshipDefinitionID = ulid
type_synonym RelationshipID = ulid
type_synonym TenantID = string
type_synonym EntityID = string

definition id_IsZero :: "ulid \<Rightarrow> bool" where
  "id_IsZero i \<longleftrightarrow> i = 0"

definition DefaultTenant :: TenantID where
  "DefaultTenant = ''default''"

definition is_lower :: "char \<Rightarrow> bool" where
  "is_lower c \<longleftrightarrow> 97 \<le> (of_char c :: nat) \<and> (of_char c :: nat) \<le> 122"

text \<open>\<^verbatim>\<open>^[a-z0-9][a-z0-9_-]{0,63}$\<close>\<close>

definition tenantPattern :: "string \<Rightarrow> bool" where
  "tenantPattern s =
     (case s of [] \<Rightarrow> False
      | c # cs \<Rightarrow> (is_lower c \<or> is_digit c) \<and> length cs \<le> 63 \<and>
          list_all (\<lambda>d. is_lower d \<or> is_digit d \<or> d = CHR ''_'' \<or> d = CHR ''-'') cs)"

definition ParseTenantID :: "string \<Rightarrow> TenantID result" where
  "ParseTenantID s =
     (if s = [] then Inr DefaultTenant
      else if \<not> tenantPattern s then Inl (PlainErr ''invalid tenant ID %q: must match %s'')
      else Inr s)"

definition maxEntityIDLength :: nat where "maxEntityIDLength = 255"

definition ParseEntityID :: "string \<Rightarrow> EntityID result" where
  "ParseEntityID s =
     (if s = [] then Inl (PlainErr ''entity ID must not be empty'')
      else if length s > maxEntityIDLength then Inl (PlainErr ''entity ID exceeds %d characters'')
      else Inr s)"

text \<open>\<^verbatim>\<open>^[a-z][a-z0-9_]{1,62}$\<close>, the internal-name pattern of the three definition aggregates.\<close>

definition internalNamePattern :: "string \<Rightarrow> bool" where
  "internalNamePattern s =
     (case s of [] \<Rightarrow> False
      | c # cs \<Rightarrow> is_lower c \<and> 1 \<le> length cs \<and> length cs \<le> 62 \<and>
          list_all (\<lambda>d. is_lower d \<or> is_digit d \<or> d = CHR ''_'') cs)"

record scope =
  Locale :: string
  Channel :: string

definition scope_IsZero :: "scope \<Rightarrow> bool" where
  "scope_IsZero s \<longleftrightarrow> Locale s = [] \<and> Channel s = []"

definition scope_Equals :: "scope \<Rightarrow> scope \<Rightarrow> bool" where
  "scope_Equals s t \<longleftrightarrow> Locale s = Locale t \<and> Channel s = Channel t"

section \<open>Data types (datatype.go)\<close>

datatype DataType =
    DataTypeBool | DataTypeString | DataTypeText | DataTypeInteger | DataTypeFloat
  | DataTypeDecimal | DataTypeDate | DataTypeTime | DataTypeDateTime | DataTypeEnum
  | DataTypeURL | DataTypeEmail | DataTypeJSON | DataTypeMedia | DataTypeQuantity
  | DataTypeOther string   \<comment> \<open>any other name; the empty one is the absent type\<close>

abbreviation NoType :: DataType where "NoType \<equiv> DataTypeOther []"

fun dt_String :: "DataType \<Rightarrow> string" where
  "dt_String DataTypeBool = ''bool''"
| "dt_String DataTypeString = ''string''"
| "dt_String DataTypeText = ''text''"
| "dt_String DataTypeInteger = ''integer''"
| "dt_String DataTypeFloat = ''float''"
| "dt_String DataTypeDecimal = ''decimal''"
| "dt_String DataTypeDate = ''date''"
| "dt_String DataTypeTime = ''time''"
| "dt_String DataTypeDateTime = ''datetime''"
| "dt_String DataTypeEnum = ''enum''"
| "dt_String DataTypeURL = ''url''"
| "dt_String DataTypeEmail = ''email''"
| "dt_String DataTypeJSON = ''json''"
| "dt_String DataTypeMedia = ''media''"
| "dt_String DataTypeQuantity = ''quantity''"
| "dt_String (DataTypeOther s) = s"

definition dataTypes :: "DataType list" where
  "dataTypes =
     [DataTypeBool, DataTypeString, DataTypeText, DataTypeInteger, DataTypeFloat,
      DataTypeDecimal, DataTypeDate, DataTypeTime, DataTypeDateTime, DataTypeEnum,
      DataTypeURL, DataTypeEmail, DataTypeJSON, DataTypeMedia, DataTypeQuantity]"

text \<open>The conversion \<^verbatim>\<open>DataType(s)\<close>.\<close>

definition to_DataType :: "string \<Rightarrow> DataType" where
  "to_DataType s = (case find (\<lambda>d. dt_String d = s) dataTypes of Some d \<Rightarrow> d | None \<Rightarrow> DataTypeOther s)"

definition ParseDataType :: "string \<Rightarrow> DataType result" where
  "ParseDataType s =
     (let dt = to_DataType s
      in if dt \<in> set dataTypes then Inr dt else Inl (PlainErr ''unknown data type %q''))"

fun IsTextual :: "DataType \<Rightarrow> bool" where
  "IsTextual DataTypeString = True"
| "IsTextual DataTypeText = True"
| "IsTextual DataTypeEnum = True"
| "IsTextual DataTypeURL = True"
| "IsTextual DataTypeEmail = True"
| "IsTextual _ = False"

fun IsOrdered :: "DataType \<Rightarrow> bool" where
  "IsOrdered DataTypeInteger = True"
| "IsOrdered DataTypeFloat = True"
| "IsOrdered DataTypeDecimal = True"
| "IsOrdered DataTypeDate = True"
| "IsOrdered DataTypeTime = True"
| "IsOrdered DataTypeDateTime = True"
| "IsOrdered DataTypeQuantity = True"
| "IsOrdered _ = False"

fun IsTemporal :: "DataType \<Rightarrow> bool" where
  "IsTemporal DataTypeDate = True"
| "IsTemporal DataTypeTime = True"
| "IsTemporal DataTypeDateTime = True"
| "IsTemporal _ = False"

definition known_type :: "DataType \<Rightarrow> bool" where
  "known_type d \<longleftrightarrow> d \<in> set dataTypes"

lemma known_type_cases: "known_type d \<longleftrightarrow> (\<forall>s. d \<noteq> DataTypeOther s)"
  by (cases d) (simp_all add: known_type_def dataTypes_def)

lemma to_DataType_dt_String [simp]: "known_type d \<Longrightarrow> to_DataType (dt_String d) = d"
  by (cases d) (simp_all add: to_DataType_def dataTypes_def known_type_cases)

text \<open>A Go string has one representation as a \<open>DataType\<close>: a known name is never wrapped in
  \<open>DataTypeOther\<close>.\<close>

definition canonical_dt :: "DataType \<Rightarrow> bool" where
  "canonical_dt d \<longleftrightarrow> to_DataType (dt_String d) = d"

lemma ParseDataType_canonical: "canonical_dt d \<Longrightarrow> is_ok (ParseDataType (dt_String d)) \<longleftrightarrow> known_type d"
  by (simp add: ParseDataType_def canonical_dt_def known_type_def Let_def)

lemma ParseDataType_known: "ParseDataType (dt_String d) = Inr d' \<Longrightarrow> known_type d'"
  by (auto simp: ParseDataType_def Let_def known_type_def split: if_splits)

section \<open>Value (value.go)\<close>

record gvalue =
  dataType :: DataType
  boolVal :: bool
  intVal :: int
  floatVal :: float64
  textVal :: string
  timeVal :: int          \<comment> \<open>always a UTC instant\<close>
  jsonVal :: rawmsg

definition zero_value :: gvalue where
  "zero_value = \<lparr>dataType = NoType, boolVal = False, intVal = 0, floatVal = FFin 0,
     textVal = [], timeVal = 0, jsonVal = RawNil\<rparr>"

definition IsZero :: "gvalue \<Rightarrow> bool" where
  "IsZero v \<longleftrightarrow> dataType v = NoType"

definition maxURLLength :: nat where "maxURLLength = 2048"
definition maxEmailLength :: nat where "maxEmailLength = 320"
definition maxDecimalLength :: nat where "maxDecimalLength = 40"

definition NewBoolValue :: "bool \<Rightarrow> gvalue" where
  "NewBoolValue b = zero_value\<lparr>dataType := DataTypeBool, boolVal := b\<rparr>"

definition NewStringValue :: "string \<Rightarrow> gvalue" where
  "NewStringValue s = zero_value\<lparr>dataType := DataTypeString, textVal := s\<rparr>"

definition NewTextValue :: "string \<Rightarrow> gvalue" where
  "NewTextValue s = zero_value\<lparr>dataType := DataTypeText, textVal := s\<rparr>"

definition NewEnumValue :: "string \<Rightarrow> gvalue" where
  "NewEnumValue s = zero_value\<lparr>dataType := DataTypeEnum, textVal := s\<rparr>"

definition NewIntegerValue :: "int \<Rightarrow> gvalue" where
  "NewIntegerValue i = zero_value\<lparr>dataType := DataTypeInteger, intVal := i\<rparr>"

definition NewFloatValue :: "float64 \<Rightarrow> gvalue" where
  "NewFloatValue f = zero_value\<lparr>dataType := DataTypeFloat, floatVal := f\<rparr>"

definition NewDecimalValue :: "string \<Rightarrow> gvalue result" where
  "NewDecimalValue s =
     (if length s > maxDecimalLength \<or> \<not> decimal_pattern s then Inl (PlainErr ''invalid decimal %q'')
      else Inr (zero_value\<lparr>dataType := DataTypeDecimal, textVal := s\<rparr>))"

definition NewDateValue :: "gotime \<Rightarrow> gvalue" where
  "NewDateValue t = zero_value\<lparr>dataType := DataTypeDate, timeVal := civil_midnight t\<rparr>"

definition NewTimeValue :: "gotime \<Rightarrow> gvalue" where
  "NewTimeValue t = zero_value\<lparr>dataType := DataTypeTime, timeVal := clock_of t\<rparr>"

definition NewDateTimeValue :: "gotime \<Rightarrow> gvalue" where
  "NewDateTimeValue t = zero_value\<lparr>dataType := DataTypeDateTime, timeVal := ns t\<rparr>"

definition NewURLValue :: "golib \<Rightarrow> string \<Rightarrow> gvalue result" where
  "NewURLValue lib s =
     (if length s > maxURLLength then Inl (PlainErr ''url exceeds %d characters'')
      else (case url_parse lib s of
          None \<Rightarrow> Inl (PlainErr ''invalid url %q: must be absolute'')
        | Some (scheme, host) \<Rightarrow>
            if scheme = [] \<or> host = [] then Inl (PlainErr ''invalid url %q: must be absolute'')
            else Inr (zero_value\<lparr>dataType := DataTypeURL, textVal := s\<rparr>)))"

definition NewEmailValue :: "golib \<Rightarrow> string \<Rightarrow> gvalue result" where
  "NewEmailValue lib s =
     (if length s > maxEmailLength then Inl (PlainErr ''email exceeds %d characters'')
      else if mail_parse lib s \<noteq> Some s then Inl (PlainErr ''invalid email %q'')
      else Inr (zero_value\<lparr>dataType := DataTypeEmail, textVal := s\<rparr>))"

definition NewJSONValue :: "rawmsg \<Rightarrow> gvalue result" where
  "NewJSONValue raw =
     (case raw of Raw j \<Rightarrow> Inr (zero_value\<lparr>dataType := DataTypeJSON, jsonVal := Raw j\<rparr>)
      | _ \<Rightarrow> Inl (PlainErr ''invalid json document''))"

subsection \<open>Decoding JSON objects into structs\<close>

text \<open>
  \<^verbatim>\<open>encoding/json\<close> walks the members of an object in order; a member whose name matches a
  field (exactly or up to letter case) is stored in it, null leaves the field alone, a
  member of the wrong kind leaves the field alone and makes the whole decode report an error.
  The flag of the result says that no error was reported.
\<close>

definition lower_char :: "char \<Rightarrow> char" where
  "lower_char c = (if 65 \<le> (of_char c :: nat) \<and> (of_char c :: nat) \<le> 90 then char_of ((of_char c :: nat) + 32) else c)"

definition ascii_lower :: "string \<Rightarrow> string" where
  "ascii_lower s = map lower_char s"

definition key_is :: "string \<Rightarrow> string \<Rightarrow> bool" where
  "key_is name k \<longleftrightarrow> map lower_char k = name"

fun decode_members :: "(string \<Rightarrow> json \<Rightarrow> 'a \<Rightarrow> 'a \<times> bool) \<Rightarrow> (string \<times> json) list \<Rightarrow> 'a \<Rightarrow> 'a \<times> bool" where
  "decode_members f [] a = (a, True)"
| "decode_members f ((k, j) # kvs) a =
     (let (a', ok) = f k j a; (a'', ok') = decode_members f kvs a' in (a'', ok \<and> ok'))"

definition decode_struct :: "(string \<Rightarrow> json \<Rightarrow> 'a \<Rightarrow> 'a \<times> bool) \<Rightarrow> rawmsg \<Rightarrow> 'a \<Rightarrow> 'a \<times> bool" where
  "decode_struct f raw a =
     (case raw of Raw (JObj kvs) \<Rightarrow> decode_members f kvs a
      | Raw JNull \<Rightarrow> (a, True)
      | _ \<Rightarrow> (a, False))"

definition into_string :: "(string \<Rightarrow> 'a) \<Rightarrow> 'a \<Rightarrow> json \<Rightarrow> 'a \<times> bool" where
  "into_string upd a j = (case j of JStr s \<Rightarrow> (upd s, True) | JNull \<Rightarrow> (a, True) | _ \<Rightarrow> (a, False))"

definition into_int64 :: "(int \<Rightarrow> 'a) \<Rightarrow> 'a \<Rightarrow> json \<Rightarrow> 'a \<times> bool" where
  "into_int64 upd a j =
     (case j of JNum t \<Rightarrow> (case parse_int64 t of Some i \<Rightarrow> (upd i, True) | None \<Rightarrow> (a, False))
      | JNull \<Rightarrow> (a, True) | _ \<Rightarrow> (a, False))"

definition into_float64 :: "golib \<Rightarrow> (float64 \<Rightarrow> 'a) \<Rightarrow> 'a \<Rightarrow> json \<Rightarrow> 'a \<times> bool" where
  "into_float64 lib upd a j =
     (case j of JNum t \<Rightarrow> (case float_parse lib t of Some f \<Rightarrow> (upd f, True) | None \<Rightarrow> (a, False))
      | JNull \<Rightarrow> (a, True) | _ \<Rightarrow> (a, False))"

record MediaMeta =
  ObjectKey :: string
  MIME :: string
  Size :: int
  Checksum :: string
  Filename :: string

definition zero_media :: MediaMeta where
  "zero_media = \<lparr>ObjectKey = [], MIME = [], Size = 0, Checksum = [], Filename = []\<rparr>"

definition media_member :: "string \<Rightarrow> json \<Rightarrow> MediaMeta \<Rightarrow> MediaMeta \<times> bool" where
  "media_member k j m =
     (if key_is ''object_key'' k then into_string (\<lambda>s. m\<lparr>ObjectKey := s\<rparr>) m j
      else if key_is ''mime'' k then into_string (\<lambda>s. m\<lparr>MIME := s\<rparr>) m j
      else if key_is ''size'' k then into_int64 (\<lambda>i. m\<lparr>Size := i\<rparr>) m j
      else if key_is ''checksum'' k then into_string (\<lambda>s. m\<lparr>Checksum := s\<rparr>) m j
      else if key_is ''filename'' k then into_string (\<lambda>s. m\<lparr>Filename := s\<rparr>) m j
      else (m, True))"

definition encode_media :: "MediaMeta \<Rightarrow> json" where
  "encode_media m = JObj
     ([(''object_key'', JStr (ObjectKey m)), (''mime'', JStr (MIME m)), (''size'', JNum (itoa (Size m)))]
      @ (if Checksum m = [] then [] else [(''checksum'', JStr (Checksum m))])
      @ (if Filename m = [] then [] else [(''filename'', JStr (Filename m))]))"

definition NewMediaValue :: "rawmsg \<Rightarrow> gvalue result" where
  "NewMediaValue raw =
     (let (m, ok) = decode_struct media_member raw zero_media
      in if \<not> ok then Inl (PlainErr ''decode media metadata: %w'')
         else if ObjectKey m = [] then Inl (PlainErr ''media value requires an object_key'')
         else if MIME m = [] then Inl (PlainErr ''media value requires a mime type'')
         else if Size m < 0 then Inl (PlainErr ''media size must be non-negative'')
         else Inr (zero_value\<lparr>dataType := DataTypeMedia, jsonVal := Raw (encode_media m)\<rparr>))"

definition Media :: "gvalue \<Rightarrow> MediaMeta" where
  "Media v = fst (decode_struct media_member (jsonVal v) zero_media)"

record Quantity =
  Magnitude :: string
  QUnit :: string
  Base :: float64

definition zero_quantity :: Quantity where
  "zero_quantity = \<lparr>Magnitude = [], QUnit = [], Base = FFin 0\<rparr>"

definition quantity_member :: "golib \<Rightarrow> string \<Rightarrow> json \<Rightarrow> Quantity \<Rightarrow> Quantity \<times> bool" where
  "quantity_member lib k j q =
     (if key_is ''magnitude'' k then into_string (\<lambda>s. q\<lparr>Magnitude := s\<rparr>) q j
      else if key_is ''unit'' k then into_string (\<lambda>s. q\<lparr>QUnit := s\<rparr>) q j
      else if key_is ''base'' k then into_float64 lib (\<lambda>f. q\<lparr>Base := f\<rparr>) q j
      else (q, True))"

definition quantity_payload :: "string \<Rightarrow> string \<Rightarrow> json" where
  "quantity_payload magnitude unit = JObj [(''magnitude'', JStr magnitude), (''unit'', JStr unit)]"

definition NewQuantityValue :: "string \<Rightarrow> string \<Rightarrow> float64 \<Rightarrow> gvalue result" where
  "NewQuantityValue magnitude unit base =
     (if magnitude = [] then Inl (PlainErr ''quantity requires a magnitude'')
      else if unit = [] then Inl (PlainErr ''quantity requires a unit'')
      else Inr (zero_value\<lparr>dataType := DataTypeQuantity, floatVal := base,
                  jsonVal := Raw (quantity_payload magnitude unit)\<rparr>))"

definition value_Quantity :: "golib \<Rightarrow> gvalue \<Rightarrow> Quantity" where
  "value_Quantity lib v =
     (fst (decode_struct (quantity_member lib) (jsonVal v) zero_quantity))\<lparr>Base := floatVal v\<rparr>"

subsection \<open>ParseValue\<close>

definition jsonIsString :: "rawmsg \<Rightarrow> bool" where
  "jsonIsString raw = (case raw of Raw (JStr _) \<Rightarrow> True | _ \<Rightarrow> False)"

definition decodeString :: "rawmsg \<Rightarrow> string result" where
  "decodeString raw =
     (case raw of Raw (JStr s) \<Rightarrow> Inr s | Raw JNull \<Rightarrow> Inr []
      | _ \<Rightarrow> Inl (PlainErr ''expected string: %w''))"

text \<open>Decoding into a \<^verbatim>\<open>json.Number\<close>: null leaves the empty number.\<close>

definition decodeNumber :: "rawmsg \<Rightarrow> string option" where
  "decodeNumber raw = (case raw of Raw (JNum t) \<Rightarrow> Some t | Raw JNull \<Rightarrow> Some [] | _ \<Rightarrow> None)"

definition at_utc :: "int \<Rightarrow> gotime" where
  "at_utc i = \<lparr>ns = i, loc = utc\<rparr>"

definition ParseValue :: "golib \<Rightarrow> DataType \<Rightarrow> rawmsg \<Rightarrow> gvalue result" where
  "ParseValue lib dt raw =
     (case dt of
        DataTypeBool \<Rightarrow>
          (case raw of Raw (JBool b) \<Rightarrow> Inr (NewBoolValue b)
           | Raw JNull \<Rightarrow> Inr (NewBoolValue False)
           | _ \<Rightarrow> Inl (PlainErr ''expected boolean: %w''))
      | DataTypeString \<Rightarrow>
          (case decodeString raw of Inl e \<Rightarrow> Inl e | Inr s \<Rightarrow> Inr (NewStringValue s))
      | DataTypeText \<Rightarrow>
          (case decodeString raw of Inl e \<Rightarrow> Inl e | Inr s \<Rightarrow> Inr (NewTextValue s))
      | DataTypeEnum \<Rightarrow>
          (case decodeString raw of Inl e \<Rightarrow> Inl e
           | Inr s \<Rightarrow> if s = [] then Inl (PlainErr ''enum value must not be empty'')
                     else Inr (NewEnumValue s))
      | DataTypeInteger \<Rightarrow>
          (if jsonIsString raw then Inl (PlainErr ''expected integer, got a quoted string'')
           else (case decodeNumber raw of None \<Rightarrow> Inl (PlainErr ''expected integer: %w'')
             | Some t \<Rightarrow> (case parse_int64 t of None \<Rightarrow> Inl (PlainErr ''expected integer, got %q'')
                 | Some i \<Rightarrow> Inr (NewIntegerValue i))))
      | DataTypeFloat \<Rightarrow>
          (if jsonIsString raw then Inl (PlainErr ''expected number, got a quoted string'')
           else (case decodeNumber raw of None \<Rightarrow> Inl (PlainErr ''expected number: %w'')
             | Some t \<Rightarrow> (if t = [] then Inl (PlainErr ''expected number, got %q'')
                 else (case float_parse lib t of None \<Rightarrow> Inl (PlainErr ''expected number, got %q'')
                   | Some f \<Rightarrow> Inr (NewFloatValue f)))))
      | DataTypeDecimal \<Rightarrow>
          (case raw of Raw (JStr s) \<Rightarrow> NewDecimalValue s
           | Raw (JNum t) \<Rightarrow> NewDecimalValue t
           | Raw _ \<Rightarrow> Inl (PlainErr ''expected decimal string or number'')
           | _ \<Rightarrow> Inl (PlainErr ''expected decimal: %w''))
      | DataTypeDate \<Rightarrow>
          (case decodeString raw of Inl e \<Rightarrow> Inl e
           | Inr s \<Rightarrow> (case time_parse lib DateFormat s of
                 None \<Rightarrow> Inl (PlainErr ''expected date %q: %w'')
               | Some t \<Rightarrow> Inr (NewDateValue (at_utc t))))
      | DataTypeTime \<Rightarrow>
          (case decodeString raw of Inl e \<Rightarrow> Inl e
           | Inr s \<Rightarrow> (case time_parse lib TimeFormat s of
                 None \<Rightarrow> Inl (PlainErr ''expected time %q: %w'')
               | Some t \<Rightarrow> Inr (NewTimeValue (at_utc t))))
      | DataTypeDateTime \<Rightarrow>
          (case decodeString raw of Inl e \<Rightarrow> Inl e
           | Inr s \<Rightarrow> (case time_parse lib RFC3339Nano s of
                 None \<Rightarrow> Inl (PlainErr ''expected RFC 3339 datetime: %w'')
               | Some t \<Rightarrow> Inr (NewDateTimeValue (at_utc t))))
      | DataTypeURL \<Rightarrow>
          (case decodeString raw of Inl e \<Rightarrow> Inl e | Inr s \<Rightarrow> NewURLValue lib s)
      | DataTypeEmail \<Rightarrow>
          (case decodeString raw of Inl e \<Rightarrow> Inl e | Inr s \<Rightarrow> NewEmailValue lib s)
      | DataTypeJSON \<Rightarrow> NewJSONValue raw
      | DataTypeMedia \<Rightarrow> NewMediaValue raw
      | DataTypeQuantity \<Rightarrow>
          (let (q, ok) = decode_struct (quantity_member lib) raw zero_quantity
           in if \<not> ok then Inl (PlainErr ''expected a quantity {magnitude, unit}: %w'')
              else NewQuantityValue (Magnitude q) (QUnit q) (Base q))
      | DataTypeOther _ \<Rightarrow> Inl (PlainErr ''unknown data type %q''))"

definition value_Length :: "gvalue \<Rightarrow> nat" where
  "value_Length v = rune_count (textVal v)"

subsection \<open>Rendering\<close>

definition ValueString :: "golib \<Rightarrow> gvalue \<Rightarrow> string" where
  "ValueString lib v =
     (case dataType v of
        DataTypeBool \<Rightarrow> (if boolVal v then ''true'' else ''false'')
      | DataTypeInteger \<Rightarrow> itoa (intVal v)
      | DataTypeFloat \<Rightarrow> float_g lib (floatVal v)
      | DataTypeDate \<Rightarrow> time_format lib DateFormat (timeVal v)
      | DataTypeTime \<Rightarrow> time_format lib TimeFormat (timeVal v)
      | DataTypeDateTime \<Rightarrow> time_format lib RFC3339Nano (timeVal v)
      | DataTypeJSON \<Rightarrow> json_bytes lib (jsonVal v)
      | DataTypeMedia \<Rightarrow> ObjectKey (Media v)
      | DataTypeQuantity \<Rightarrow> Magnitude (value_Quantity lib v) @ '' '' @ QUnit (value_Quantity lib v)
      | _ \<Rightarrow> textVal v)"

text \<open>\<^verbatim>\<open>json.Marshal\<close> of a float fails on NaN and the infinities.\<close>

definition marshal_float :: "golib \<Rightarrow> float64 \<Rightarrow> json result" where
  "marshal_float lib f =
     (if f_finite f then Inr (JNum (float_json lib f)) else Inl (PlainErr ''json: unsupported value''))"

definition MarshalJSON :: "golib \<Rightarrow> gvalue \<Rightarrow> rawmsg result" where
  "MarshalJSON lib v =
     (case dataType v of
        DataTypeBool \<Rightarrow> Inr (Raw (JBool (boolVal v)))
      | DataTypeInteger \<Rightarrow> Inr (Raw (JNum (itoa (intVal v))))
      | DataTypeFloat \<Rightarrow> map_sum id Raw (marshal_float lib (floatVal v))
      | DataTypeJSON \<Rightarrow> Inr (jsonVal v)
      | DataTypeMedia \<Rightarrow> Inr (jsonVal v)
      | DataTypeQuantity \<Rightarrow>
          (let q = value_Quantity lib v
           in map_sum id (\<lambda>b. Raw (JObj [(''magnitude'', JStr (Magnitude q)), (''unit'', JStr (QUnit q)),
                (''base'', b)])) (marshal_float lib (Base q)))
      | _ \<Rightarrow> if IsZero v then Inr (Raw JNull) else Inr (Raw (JStr (ValueString lib v))))"

definition raw_json :: "rawmsg \<Rightarrow> json" where
  "raw_json r = (case r of Raw j \<Rightarrow> j | _ \<Rightarrow> JNull)"

definition MarshalTyped :: "golib \<Rightarrow> gvalue \<Rightarrow> rawmsg result" where
  "MarshalTyped lib v =
     (if IsZero v then Inr (Raw JNull)
      else map_sum id (\<lambda>natural. Raw (JObj [(''type'', JStr (dt_String (dataType v))),
             (''value'', raw_json natural)])) (MarshalJSON lib v))"

record typedValueJSON =
  tv_Type :: DataType
  tv_Value :: rawmsg

definition typed_member :: "string \<Rightarrow> json \<Rightarrow> typedValueJSON \<Rightarrow> typedValueJSON \<times> bool" where
  "typed_member k j w =
     (if key_is ''type'' k then into_string (\<lambda>s. w\<lparr>tv_Type := to_DataType s\<rparr>) w j
      else if key_is ''value'' k then (w\<lparr>tv_Value := Raw j\<rparr>, True)
      else (w, True))"

definition UnmarshalTypedValue :: "golib \<Rightarrow> rawmsg \<Rightarrow> gvalue result" where
  "UnmarshalTypedValue lib raw =
     (if raw = RawNil \<or> raw = Raw JNull then Inr zero_value
      else let (w, ok) = decode_struct typed_member raw \<lparr>tv_Type = NoType, tv_Value = RawNil\<rparr>
           in if \<not> ok then Inl (PlainErr ''decode typed value: %w'')
              else ParseValue lib (tv_Type w) (tv_Value w))"

subsection \<open>Order, equality and grouping key\<close>

definition compare_lin :: "'a::linorder \<Rightarrow> 'a \<Rightarrow> int" where
  "compare_lin a b = (if a < b then -1 else if b < a then 1 else 0)"

definition compare_float :: "float64 \<Rightarrow> float64 \<Rightarrow> int" where
  "compare_float a b = (if f_lt a b then -1 else if f_lt b a then 1 else 0)"

definition Compare :: "golib \<Rightarrow> gvalue \<Rightarrow> gvalue \<Rightarrow> int result" where
  "Compare lib v w =
     (if dataType v \<noteq> dataType w then Inl (PlainErr ''cannot compare %s with %s'')
      else (case dataType v of
          DataTypeInteger \<Rightarrow> Inr (compare_lin (intVal v) (intVal w))
        | DataTypeFloat \<Rightarrow> Inr (compare_float (floatVal v) (floatVal w))
        | DataTypeQuantity \<Rightarrow> Inr (compare_float (floatVal v) (floatVal w))
        | DataTypeDecimal \<Rightarrow>
            (case rat_set_string lib (textVal v) of None \<Rightarrow> Inl (PlainErr ''corrupt decimal %q'')
             | Some a \<Rightarrow> (case rat_set_string lib (textVal w) of
                   None \<Rightarrow> Inl (PlainErr ''corrupt decimal %q'')
                 | Some b \<Rightarrow> Inr (compare_lin a b)))
        | DataTypeDate \<Rightarrow> Inr (compare_lin (timeVal v) (timeVal w))
        | DataTypeTime \<Rightarrow> Inr (compare_lin (timeVal v) (timeVal w))
        | DataTypeDateTime \<Rightarrow> Inr (compare_lin (timeVal v) (timeVal w))
        | _ \<Rightarrow> Inl (PlainErr ''data type %s is not ordered'')))"

text \<open>\<^verbatim>\<open>canonicalJSON\<close>: a round trip through \<^verbatim>\<open>any\<close>. Numbers become float64 (an error when
  out of range), objects become maps (the last member of a name wins) and are written with
  their keys sorted.\<close>

fun last_wins :: "(string \<times> 'a) list \<Rightarrow> (string \<times> 'a) list" where
  "last_wins [] = []"
| "last_wins ((k, x) # kvs) = (if k \<in> fst ` set kvs then last_wins kvs else (k, x) # last_wins kvs)"

fun canon :: "golib \<Rightarrow> json \<Rightarrow> json option"
and canon_list :: "golib \<Rightarrow> json list \<Rightarrow> json list option"
and canon_members :: "golib \<Rightarrow> (string \<times> json) list \<Rightarrow> (string \<times> json) list option" where
  "canon lib JNull = Some JNull"
| "canon lib (JBool b) = Some (JBool b)"
| "canon lib (JNum t) = map_option (\<lambda>f. JNum (float_json lib f)) (float_parse lib t)"
| "canon lib (JStr s) = Some (JStr s)"
| "canon lib (JArr xs) = map_option JArr (canon_list lib xs)"
| "canon lib (JObj kvs) = map_option (\<lambda>ms. JObj (sort_key fst (last_wins ms))) (canon_members lib kvs)"
| "canon_list lib [] = Some []"
| "canon_list lib (x # xs) =
     (case canon lib x of None \<Rightarrow> None
      | Some y \<Rightarrow> map_option (\<lambda>ys. y # ys) (canon_list lib xs))"
| "canon_members lib [] = Some []"
| "canon_members lib ((k, x) # kvs) =
     (case canon lib x of None \<Rightarrow> None
      | Some y \<Rightarrow> map_option (\<lambda>ms. (k, y) # ms) (canon_members lib kvs))"

definition canonicalJSON :: "golib \<Rightarrow> rawmsg \<Rightarrow> rawmsg option" where
  "canonicalJSON lib r = (case r of Raw j \<Rightarrow> map_option Raw (canon lib j) | _ \<Rightarrow> None)"

definition equalJSON :: "golib \<Rightarrow> rawmsg \<Rightarrow> rawmsg \<Rightarrow> bool" where
  "equalJSON lib a b =
     (case (canonicalJSON lib a, canonicalJSON lib b) of
        (Some ca, Some cb) \<Rightarrow> ca = cb
      | _ \<Rightarrow> a = b)"

definition Equal :: "golib \<Rightarrow> gvalue \<Rightarrow> gvalue \<Rightarrow> bool" where
  "Equal lib v w =
     (if dataType v \<noteq> dataType w then False
      else (case dataType v of
          DataTypeDecimal \<Rightarrow> Compare lib v w = Inr 0
        | DataTypeJSON \<Rightarrow> equalJSON lib (jsonVal v) (jsonVal w)
        | DataTypeMedia \<Rightarrow> jsonVal v = jsonVal w
        | DataTypeDate \<Rightarrow> timeVal v = timeVal w
        | DataTypeTime \<Rightarrow> timeVal v = timeVal w
        | DataTypeDateTime \<Rightarrow> timeVal v = timeVal w
        | DataTypeBool \<Rightarrow> boolVal v = boolVal w
        | DataTypeInteger \<Rightarrow> intVal v = intVal w
        | DataTypeFloat \<Rightarrow> f_eq (floatVal v) (floatVal w)
        | DataTypeQuantity \<Rightarrow> f_eq (floatVal v) (floatVal w)
        | _ \<Rightarrow> textVal v = textVal w))"

definition EqualityKey :: "golib \<Rightarrow> gvalue \<Rightarrow> string" where
  "EqualityKey lib v = dt_String (dataType v) @ [CHR 0x1F] @
     (case dataType v of
        DataTypeDecimal \<Rightarrow>
          (case rat_set_string lib (textVal v) of Some r \<Rightarrow> rat_string r | None \<Rightarrow> textVal v)
      | DataTypeJSON \<Rightarrow>
          (case canonicalJSON lib (jsonVal v) of Some c \<Rightarrow> json_bytes lib c
           | None \<Rightarrow> json_bytes lib (jsonVal v))
      | DataTypeMedia \<Rightarrow> json_bytes lib (jsonVal v)
      | DataTypeDate \<Rightarrow> time_format lib RFC3339Nano (timeVal v)
      | DataTypeTime \<Rightarrow> time_format lib RFC3339Nano (timeVal v)
      | DataTypeDateTime \<Rightarrow> time_format lib RFC3339Nano (timeVal v)
      | DataTypeBool \<Rightarrow> (if boolVal v then ''true'' else ''false'')
      | DataTypeInteger \<Rightarrow> itoa (intVal v)
      | DataTypeFloat \<Rightarrow> (if f_eq (floatVal v) (FFin 0) then ''0'' else float_x lib (floatVal v))
      | DataTypeQuantity \<Rightarrow> (if f_eq (floatVal v) (FFin 0) then ''0'' else float_x lib (floatVal v))
      | _ \<Rightarrow> textVal v)"

end
