(* ===== verification/Value_Laws.thy ===== *)
theory Value_Laws
  imports Values
begin

text \<open>
  Well-formed values and the laws of \<^verbatim>\<open>Value\<close>: what \<^verbatim>\<open>ParseValue\<close> establishes, the round
  trip through the self-describing form, and the equality and order contracts, stated once as
  the locales \<open>equality_on\<close> and \<open>compare_on\<close> and interpreted on \<open>Equal\<close> and \<open>Compare\<close>.
\<close>

section \<open>Documented behaviour of the standard library\<close>

text \<open>\<^verbatim>\<open>strconv.ParseFloat\<close> returns a finite number, or an error, on a JSON number literal.\<close>

definition float_parse_finite :: "golib \<Rightarrow> bool" where
  "float_parse_finite lib \<longleftrightarrow>
     (\<forall>t f. json_number t \<longrightarrow> float_parse lib t = Some f \<longrightarrow> f_finite f)"

text \<open>The shortest form \<^verbatim>\<open>json.Marshal\<close> writes for a finite float reads back as that float.\<close>

definition float_json_round :: "golib \<Rightarrow> bool" where
  "float_json_round lib \<longleftrightarrow>
     (\<forall>f. f_finite f \<longrightarrow> float_json lib f \<noteq> [] \<and> float_parse lib (float_json lib f) = Some f)"

text \<open>The hexadecimal form is exact, and is never the one-character text \<^verbatim>\<open>0\<close>.\<close>

definition float_x_exact :: "golib \<Rightarrow> bool" where
  "float_x_exact lib \<longleftrightarrow>
     (\<forall>f g. float_x lib f = float_x lib g \<longrightarrow> f = g) \<and> (\<forall>f. float_x lib f \<noteq> ''0'')"

text \<open>One layout applied to two different UTC instants gives two different texts (at the
  layout's resolution, which is nanoseconds for RFC 3339), and raw messages are their bytes.\<close>

definition rfc3339_exact :: "golib \<Rightarrow> bool" where
  "rfc3339_exact lib \<longleftrightarrow> (\<forall>s t. time_format lib RFC3339Nano s = time_format lib RFC3339Nano t \<longrightarrow> s = t)"

definition json_bytes_exact :: "golib \<Rightarrow> bool" where
  "json_bytes_exact lib \<longleftrightarrow> (\<forall>a b. json_bytes lib a = json_bytes lib b \<longrightarrow> a = b)"

text \<open>\<^verbatim>\<open>time.Parse\<close> inverts \<^verbatim>\<open>Format\<close> on what the layout can express: years 0 to 9999, whole
  days for a date, whole seconds of the year-zero day for a time.\<close>

definition year_10000_ns :: int where "year_10000_ns = 253402300800000000000"

definition expressible :: "layout \<Rightarrow> int \<Rightarrow> bool" where
  "expressible l t =
     (case l of
        DateFormat \<Rightarrow> year_zero_ns \<le> t \<and> t < year_10000_ns \<and> t mod day_ns = 0
      | TimeFormat \<Rightarrow> year_zero_ns \<le> t \<and> t < year_zero_ns + day_ns \<and> t mod 1000000000 = 0
      | RFC3339Nano \<Rightarrow> year_zero_ns \<le> t \<and> t < year_10000_ns)"

definition time_round :: "golib \<Rightarrow> bool" where
  "time_round lib \<longleftrightarrow> (\<forall>l t. expressible l t \<longrightarrow> time_parse lib l (time_format lib l t) = Some t)"

section \<open>Well-formed values\<close>

text \<open>A value is well formed when it is what the constructor of its type makes of its payload.\<close>

definition wf_value :: "golib \<Rightarrow> gvalue \<Rightarrow> bool" where
  "wf_value lib v =
     (case dataType v of
        DataTypeBool \<Rightarrow> v = NewBoolValue (boolVal v)
      | DataTypeString \<Rightarrow> v = NewStringValue (textVal v)
      | DataTypeText \<Rightarrow> v = NewTextValue (textVal v)
      | DataTypeEnum \<Rightarrow> textVal v \<noteq> [] \<and> v = NewEnumValue (textVal v)
      | DataTypeInteger \<Rightarrow> in_int64 (intVal v) \<and> v = NewIntegerValue (intVal v)
      | DataTypeFloat \<Rightarrow> f_finite (floatVal v) \<and> v = NewFloatValue (floatVal v)
      | DataTypeDecimal \<Rightarrow> NewDecimalValue (textVal v) = Inr v
      | DataTypeDate \<Rightarrow> v = NewDateValue (at_utc (timeVal v))
      | DataTypeTime \<Rightarrow> v = NewTimeValue (at_utc (timeVal v))
      | DataTypeDateTime \<Rightarrow> v = NewDateTimeValue (at_utc (timeVal v))
      | DataTypeURL \<Rightarrow> NewURLValue lib (textVal v) = Inr v
      | DataTypeEmail \<Rightarrow> NewEmailValue lib (textVal v) = Inr v
      | DataTypeJSON \<Rightarrow> NewJSONValue (jsonVal v) = Inr v
      | DataTypeMedia \<Rightarrow> NewMediaValue (jsonVal v) = Inr v
      | DataTypeQuantity \<Rightarrow> f_finite (floatVal v) \<and>
          NewQuantityValue (Magnitude (value_Quantity lib v)) (QUnit (value_Quantity lib v)) (floatVal v) = Inr v
      | DataTypeOther _ \<Rightarrow> False)"

lemmas value_constructors =
  NewBoolValue_def NewStringValue_def NewTextValue_def NewEnumValue_def NewIntegerValue_def
  NewFloatValue_def NewDecimalValue_def NewDateValue_def NewTimeValue_def NewDateTimeValue_def
  NewURLValue_def NewEmailValue_def NewJSONValue_def NewMediaValue_def NewQuantityValue_def

lemma zero_value_simps [simp]:
  "dataType zero_value = NoType" "textVal zero_value = []" "boolVal zero_value = False"
  "intVal zero_value = 0" "floatVal zero_value = FFin 0" "timeVal zero_value = 0"
  "jsonVal zero_value = RawNil" "IsZero zero_value"
  by (simp_all add: zero_value_def IsZero_def)

lemma civil_midnight_utc [simp]: "civil_midnight (at_utc (civil_midnight t)) = civil_midnight t"
  by (simp add: civil_midnight_def at_utc_def utc_def day_ns_def)

lemma clock_of_utc [simp]: "clock_of (at_utc (clock_of t)) = clock_of t"
proof -
  define x where "x = ((ns t + loc t (ns t)) mod day_ns) div 1000000000"
  have x: "0 \<le> x" "x < 86400"
    using pos_mod_bound [of day_ns "ns t + loc t (ns t)"]
    by (simp_all add: x_def day_ns_def)
  have "(year_zero_ns + x * 1000000000) mod day_ns = x * 1000000000"
  proof -
    have "year_zero_ns + x * 1000000000 = x * 1000000000 + day_ns * (-719528)"
      by (simp add: year_zero_ns_def day_ns_def)
    moreover have "(x * 1000000000 + day_ns * (-719528)) mod day_ns = (x * 1000000000) mod day_ns"
      by (rule mod_mult_self2)
    ultimately show ?thesis using x by (simp add: day_ns_def add.commute)
  qed
  then show ?thesis by (simp add: clock_of_def at_utc_def utc_def x_def)
qed

subsection \<open>Decoding what was encoded\<close>

lemma lower_char_simps [simp]:
  "lower_char c = c" if "c \<in> set ''abcdefghijklmnopqrstuvwxyz_''"
  using that by (auto simp: lower_char_def)

lemma key_is_self: "list_all (\<lambda>c. lower_char c = c) k \<Longrightarrow> key_is n k \<longleftrightarrow> k = n"
  by (simp add: key_is_def list_all_iff map_idI)

lemma media_round [simp]:
  "in_int64 (Size m) \<Longrightarrow> decode_struct media_member (Raw (encode_media m)) zero_media = (m, True)"
  by (simp add: decode_struct_def encode_media_def media_member_def key_is_self into_string_def
      into_int64_def zero_media_def)

lemma decode_members_inv:
  assumes "\<And>k j a. P a \<Longrightarrow> P (fst (f k j a))" and "P a"
  shows "P (fst (decode_members f kvs a))"
  using assms(2)
proof (induction kvs arbitrary: a)
  case (Cons kv kvs)
  then show ?case using assms(1) by (cases kv) (auto simp: Let_def split: prod.splits, metis fst_conv)
qed simp

lemma decode_members_inv_on:
  assumes "\<And>k j a. Q j \<Longrightarrow> P a \<Longrightarrow> P (fst (f k j a))" and "P a" and "\<forall>kv\<in>set kvs. Q (snd kv)"
  shows "P (fst (decode_members f kvs a))"
  using assms(2,3)
proof (induction kvs arbitrary: a)
  case (Cons kv kvs)
  then have "P (fst (f (fst kv) (snd kv) a))" using assms(1) by auto
  with Cons show ?case by (cases kv) (auto simp: Let_def split: prod.splits, metis fst_conv)
qed simp

lemma media_size_int64: "in_int64 (Size (fst (decode_struct media_member raw zero_media)))"
proof -
  have step: "in_int64 (Size m) \<Longrightarrow> in_int64 (Size (fst (media_member k j m)))" for k j m
    by (auto simp: media_member_def into_string_def into_int64_def parse_int64_range
        split: json.splits option.splits)
  have "in_int64 (Size zero_media)"
    by (simp add: zero_media_def in_int64_def min_int64_def max_int64_def)
  then show ?thesis
    by (auto simp: decode_struct_def intro!: decode_members_inv [where P = "\<lambda>m. in_int64 (Size m)"] step
        split: rawmsg.splits json.splits)
qed

lemma NewMediaValue_idem: "NewMediaValue raw = Inr v \<Longrightarrow> NewMediaValue (jsonVal v) = Inr v"
  using media_size_int64 [of raw]
  by (auto simp: NewMediaValue_def Let_def split: prod.splits if_splits)

lemma quantity_payload_round [simp]:
  "decode_struct (quantity_member lib) (Raw (quantity_payload m u)) zero_quantity
     = (\<lparr>Magnitude = m, QUnit = u, Base = FFin 0\<rparr>, True)"
  by (simp add: decode_struct_def quantity_payload_def quantity_member_def key_is_self
      into_string_def zero_quantity_def)

lemma wf_json_members: "wf_json (JObj kvs) \<longleftrightarrow> (\<forall>kv\<in>set kvs. wf_json (snd kv))"
  by (auto simp: list_all_iff)

lemma quantity_base_finite:
  assumes "float_parse_finite lib" "wf_raw raw"
  shows "f_finite (Base (fst (decode_struct (quantity_member lib) raw zero_quantity)))"
proof -
  have step: "wf_json j \<Longrightarrow> f_finite (Base q) \<Longrightarrow> f_finite (Base (fst (quantity_member lib k j q)))" for k j q
    using assms(1)
    by (auto simp: quantity_member_def into_string_def into_float64_def float_parse_finite_def
        split: json.splits option.splits)
  have z: "f_finite (Base zero_quantity)" by (simp add: zero_quantity_def f_finite_def)
  show ?thesis
    using assms(2) z
    by (auto simp: decode_struct_def wf_raw_def wf_json_members simp del: wf_json.simps(6)
        split: rawmsg.splits json.splits
        intro!: decode_members_inv_on [where P = "\<lambda>q. f_finite (Base q)" and Q = wf_json] step) fastforce
qed

subsection \<open>What ParseValue establishes\<close>

lemma decodeNumber_wf: "wf_raw raw \<Longrightarrow> decodeNumber raw = Some t \<Longrightarrow> t \<noteq> [] \<Longrightarrow> json_number t"
  by (auto simp: decodeNumber_def wf_raw_def split: rawmsg.splits json.splits)

lemma constructor_dataType:
  "NewDecimalValue s = Inr v \<Longrightarrow> dataType v = DataTypeDecimal \<and> textVal v = s"
  "NewURLValue lib s = Inr v \<Longrightarrow> dataType v = DataTypeURL \<and> textVal v = s"
  "NewEmailValue lib s = Inr v \<Longrightarrow> dataType v = DataTypeEmail \<and> textVal v = s"
  "NewJSONValue raw = Inr v \<Longrightarrow> dataType v = DataTypeJSON \<and> jsonVal v = raw"
  "NewMediaValue raw = Inr v \<Longrightarrow> dataType v = DataTypeMedia"
  "NewQuantityValue m u b = Inr v \<Longrightarrow> dataType v = DataTypeQuantity \<and> floatVal v = b \<and>
     value_Quantity lib v = \<lparr>Magnitude = m, QUnit = u, Base = b\<rparr>"
  by (auto simp: NewDecimalValue_def NewURLValue_def NewEmailValue_def NewJSONValue_def
      NewMediaValue_def NewQuantityValue_def value_Quantity_def Let_def
      split: if_splits option.splits rawmsg.splits prod.splits)

lemma parse_quantity_wf:
  assumes "float_parse_finite lib" "wf_raw raw" "ParseValue lib DataTypeQuantity raw = Inr v"
  shows "dataType v = DataTypeQuantity \<and> wf_value lib v"
proof -
  let ?q = "fst (decode_struct (quantity_member lib) raw zero_quantity)"
  from assms(3) have new: "NewQuantityValue (Magnitude ?q) (QUnit ?q) (Base ?q) = Inr v"
    by (auto simp: ParseValue_def Let_def split: prod.splits if_splits)
  from constructor_dataType(6) [OF this, of lib] quantity_base_finite [OF assms(1,2)] new
  show ?thesis by (simp add: wf_value_def)
qed

lemma new_scalar_wf [simp]:
  "wf_value lib (NewBoolValue b)" "wf_value lib (NewStringValue s)" "wf_value lib (NewTextValue s)"
  "wf_value lib (NewEnumValue s) \<longleftrightarrow> s \<noteq> []" "wf_value lib (NewIntegerValue i) \<longleftrightarrow> in_int64 i"
  "wf_value lib (NewFloatValue f) \<longleftrightarrow> f_finite f" "wf_value lib (NewDateValue t)"
  "wf_value lib (NewTimeValue t)" "wf_value lib (NewDateTimeValue t)"
  by (simp_all add: wf_value_def NewBoolValue_def NewStringValue_def NewTextValue_def NewEnumValue_def
      NewIntegerValue_def NewFloatValue_def NewDateValue_def NewTimeValue_def NewDateTimeValue_def)
     (simp add: at_utc_def)

lemma new_scalar_dataType [simp]:
  "dataType (NewBoolValue b) = DataTypeBool" "dataType (NewStringValue s) = DataTypeString"
  "dataType (NewTextValue s) = DataTypeText" "dataType (NewEnumValue s) = DataTypeEnum"
  "dataType (NewIntegerValue i) = DataTypeInteger" "dataType (NewFloatValue f) = DataTypeFloat"
  "dataType (NewDateValue t) = DataTypeDate" "dataType (NewTimeValue t) = DataTypeTime"
  "dataType (NewDateTimeValue t) = DataTypeDateTime"
  by (simp_all add: NewBoolValue_def NewStringValue_def NewTextValue_def NewEnumValue_def
      NewIntegerValue_def NewFloatValue_def NewDateValue_def NewTimeValue_def NewDateTimeValue_def)

lemma parse_scalar_wf:
  "ParseValue lib dt raw = Inr v \<Longrightarrow>
     dt \<in> {DataTypeBool, DataTypeString, DataTypeText, DataTypeEnum, DataTypeInteger} \<Longrightarrow>
     dataType v = dt \<and> wf_value lib v"
  by (elim insertE emptyE; hypsubst)
     (auto simp: ParseValue_def dest: parse_int64_range
      split: rawmsg.splits json.splits sum.splits if_splits option.splits)

lemma constructor_wf:
  "NewDecimalValue s = Inr v \<Longrightarrow> wf_value lib v"
  "NewURLValue lib s = Inr v \<Longrightarrow> wf_value lib v"
  "NewEmailValue lib s = Inr v \<Longrightarrow> wf_value lib v"
  "NewJSONValue raw = Inr v \<Longrightarrow> wf_value lib v"
  "NewMediaValue raw = Inr v \<Longrightarrow> wf_value lib v"
  by (frule constructor_dataType, simp add: wf_value_def NewMediaValue_idem)+

lemma parse_checked_wf:
  "ParseValue lib dt raw = Inr v \<Longrightarrow>
     dt \<in> {DataTypeDecimal, DataTypeURL, DataTypeEmail, DataTypeJSON, DataTypeMedia} \<Longrightarrow>
     dataType v = dt \<and> wf_value lib v"
  by (elim insertE emptyE; hypsubst)
     (auto simp: ParseValue_def dest: constructor_dataType constructor_wf
      split: rawmsg.splits json.splits sum.splits)

lemma parse_time_wf:
  "ParseValue lib dt raw = Inr v \<Longrightarrow> IsTemporal dt \<Longrightarrow> dataType v = dt \<and> wf_value lib v"
  by (auto simp: ParseValue_def split: DataType.splits sum.splits option.splits)

lemma parse_float_wf:
  assumes "float_parse_finite lib" "wf_raw raw" "ParseValue lib DataTypeFloat raw = Inr v"
  shows "dataType v = DataTypeFloat \<and> wf_value lib v"
  using assms(3) decodeNumber_wf [OF assms(2)] assms(1)
  by (auto simp: ParseValue_def float_parse_finite_def split: if_splits option.splits)

lemma ParseValue_wf [flexi_wf]:
  assumes "float_parse_finite lib" "wf_raw raw" "ParseValue lib dt raw = Inr v"
  shows "dataType v = dt \<and> wf_value lib v"
proof (cases dt)
  case (DataTypeOther s)
  with assms(3) show ?thesis by (simp add: ParseValue_def)
qed (use assms parse_scalar_wf [OF assms(3)] parse_checked_wf [OF assms(3)] parse_time_wf [OF assms(3)] parse_float_wf [OF assms(1,2)]
      parse_quantity_wf [OF assms(1,2)] in simp_all)

subsection \<open>The self-describing form\<close>

definition in_years :: "gvalue \<Rightarrow> bool" where
  "in_years v \<longleftrightarrow> (IsTemporal (dataType v) \<longrightarrow> year_zero_ns \<le> timeVal v \<and> timeVal v < year_10000_ns)"

lemma wf_known: "wf_value lib v \<Longrightarrow> known_type (dataType v)"
  by (auto simp: wf_value_def known_type_cases)

lemma wf_not_zero: "wf_value lib v \<Longrightarrow> \<not> IsZero v"
  by (auto simp: wf_value_def IsZero_def)

lemma wf_date_expressible:
  "wf_value lib v \<Longrightarrow> dataType v = DataTypeDate \<Longrightarrow> in_years v \<Longrightarrow> expressible DateFormat (timeVal v)"
proof -
  assume "wf_value lib v" "dataType v = DataTypeDate" "in_years v"
  then have "timeVal v = timeVal (NewDateValue (at_utc (timeVal v)))"
      and "year_zero_ns \<le> timeVal v" "timeVal v < year_10000_ns"
    by (simp_all add: wf_value_def in_years_def)
  then have "timeVal v = timeVal v div day_ns * day_ns"
    by (simp add: NewDateValue_def civil_midnight_def at_utc_def utc_def)
  then have "timeVal v mod day_ns = 0" by (metis mod_mult_self2_is_0)
  with \<open>year_zero_ns \<le> timeVal v\<close> \<open>timeVal v < year_10000_ns\<close>
  show ?thesis by (simp add: expressible_def)
qed

lemma wf_time_expressible:
  "wf_value lib v \<Longrightarrow> dataType v = DataTypeTime \<Longrightarrow> expressible TimeFormat (timeVal v)"
proof -
  assume "wf_value lib v" "dataType v = DataTypeTime"
  then have "timeVal v = timeVal (NewTimeValue (at_utc (timeVal v)))"
    by (simp add: wf_value_def)
  then have t: "timeVal v = year_zero_ns + ((timeVal v mod day_ns) div 1000000000) * 1000000000"
    by (simp add: NewTimeValue_def clock_of_def at_utc_def utc_def)
  define x where "x = (timeVal v mod day_ns) div 1000000000"
  have x: "0 \<le> x" "x < 86400"
    using pos_mod_bound [of day_ns "timeVal v"] by (simp_all add: x_def day_ns_def)
  from t have t': "timeVal v = (x - 62167219200) * 1000000000"
    by (simp add: x_def year_zero_ns_def)
  with x show ?thesis by (simp add: expressible_def year_zero_ns_def day_ns_def)
qed

lemma marshal_parse:
  assumes "float_json_round lib" "time_round lib" "wf_value lib v" "in_years v"
  shows "\<exists>j. MarshalJSON lib v = Inr (Raw j) \<and> ParseValue lib (dataType v) (Raw j) = Inr v"
proof (cases "dataType v")
  case DataTypeDate
  with assms wf_date_expressible [OF assms(3) DataTypeDate assms(4)]
  show ?thesis
    by (auto simp: MarshalJSON_def ParseValue_def wf_value_def decodeString_def ValueString_def
        IsZero_def time_round_def)
next
  case DataTypeTime
  with assms wf_time_expressible [OF assms(3) DataTypeTime]
  show ?thesis
    by (auto simp: MarshalJSON_def ParseValue_def wf_value_def decodeString_def ValueString_def
        IsZero_def time_round_def)
next
  case DataTypeDateTime
  with assms show ?thesis
    by (auto simp: MarshalJSON_def ParseValue_def wf_value_def decodeString_def ValueString_def
        IsZero_def time_round_def in_years_def expressible_def)
next
  case DataTypeMedia
  with assms have m: "NewMediaValue (jsonVal v) = Inr v" by (simp add: wf_value_def)
  then obtain j where "jsonVal v = Raw j"
    by (auto simp: NewMediaValue_def decode_struct_def Let_def split: rawmsg.splits prod.splits if_splits)
  with m DataTypeMedia show ?thesis by (simp add: MarshalJSON_def ParseValue_def)
next
  case DataTypeJSON
  with assms show ?thesis
    by (auto simp: MarshalJSON_def ParseValue_def wf_value_def NewJSONValue_def split: rawmsg.splits)
next
  case DataTypeQuantity
  let ?q = "value_Quantity lib v"
  from DataTypeQuantity assms(3) have fin: "f_finite (floatVal v)"
    and new: "NewQuantityValue (Magnitude ?q) (QUnit ?q) (floatVal v) = Inr v"
    by (simp_all add: wf_value_def)
  have "Base ?q = floatVal v" by (simp add: value_Quantity_def)
  with DataTypeQuantity fin new assms(1) show ?thesis
    by (simp add: MarshalJSON_def ParseValue_def Let_def marshal_float_def decode_struct_def
        quantity_member_def key_is_self into_string_def into_float64_def zero_quantity_def
        float_json_round_def)
next
  case DataTypeFloat
  with assms show ?thesis
    by (auto simp: MarshalJSON_def ParseValue_def wf_value_def marshal_float_def jsonIsString_def
        decodeNumber_def float_json_round_def)
next
  case DataTypeInteger
  with assms show ?thesis
    by (auto simp: MarshalJSON_def ParseValue_def wf_value_def jsonIsString_def decodeNumber_def)
next
  case (DataTypeOther s)
  with assms show ?thesis by (simp add: wf_value_def)
qed (use assms in \<open>auto simp: MarshalJSON_def ParseValue_def wf_value_def decodeString_def
       ValueString_def IsZero_def\<close>)

lemma typed_round:
  assumes "float_json_round lib" "time_round lib" "wf_value lib v" "in_years v"
  shows "\<exists>raw. MarshalTyped lib v = Inr raw \<and> UnmarshalTypedValue lib raw = Inr v"
proof -
  from marshal_parse [OF assms] obtain j
    where j: "MarshalJSON lib v = Inr (Raw j)" "ParseValue lib (dataType v) (Raw j) = Inr v" by blast
  have nz: "\<not> IsZero v" by (rule wf_not_zero [OF assms(3)])
  have kt: "to_DataType (dt_String (dataType v)) = dataType v"
    using wf_known [OF assms(3)] by simp
  show ?thesis
    by (simp add: MarshalTyped_def UnmarshalTypedValue_def nz j kt raw_json_def decode_struct_def
        typed_member_def key_is_self into_string_def)
qed

section \<open>Order\<close>

locale compare_on =
  fixes cmp :: "'a \<Rightarrow> 'a \<Rightarrow> int result" and dom :: "'a \<Rightarrow> bool"
  assumes cmp_total: "dom x \<Longrightarrow> dom y \<Longrightarrow> \<exists>c\<in>{-1, 0, 1}. cmp x y = Inr c"
    and cmp_flip: "dom x \<Longrightarrow> dom y \<Longrightarrow> cmp x y = Inr c \<Longrightarrow> cmp y x = Inr (- c)"
    and cmp_trans: "dom x \<Longrightarrow> dom y \<Longrightarrow> dom z \<Longrightarrow> cmp x y = Inr c \<Longrightarrow> cmp y z = Inr d \<Longrightarrow>
      c \<le> 0 \<Longrightarrow> d \<le> 0 \<Longrightarrow> \<exists>e. cmp x z = Inr e \<and> e \<le> 0 \<and> (e = 0 \<longrightarrow> c = 0 \<and> d = 0)"
begin

lemma cmp_refl: "dom x \<Longrightarrow> cmp x x = Inr 0"
  using cmp_total [of x x] cmp_flip [of x x] by fastforce

lemma cmp_no_error: "dom x \<Longrightarrow> dom y \<Longrightarrow> is_ok (cmp x y)"
  using cmp_total [of x y] by fastforce

lemma cmp_antisym: "dom x \<Longrightarrow> dom y \<Longrightarrow> cmp x y = Inr c \<Longrightarrow> cmp y x = Inr d \<Longrightarrow> c \<le> 0 \<Longrightarrow> d \<le> 0 \<Longrightarrow> c = 0"
  using cmp_flip [of x y c] by simp

text \<open>Raising a lower bound or lowering an upper bound only shrinks what a range accepts.\<close>

lemma lower_bound_mono:
  "dom x \<Longrightarrow> dom lo \<Longrightarrow> dom lo' \<Longrightarrow> cmp lo lo' = Inr b \<Longrightarrow> b \<le> 0 \<Longrightarrow> cmp x lo' = Inr c \<Longrightarrow> 0 \<le> c \<Longrightarrow>
     \<exists>d. cmp x lo = Inr d \<and> 0 \<le> d"
proof -
  assume d: "dom x" "dom lo" "dom lo'" and b: "cmp lo lo' = Inr b" "b \<le> 0"
    and c: "cmp x lo' = Inr c" "0 \<le> c"
  from cmp_flip [OF d(1,3) c(1)] have "cmp lo' x = Inr (- c)" .
  from cmp_trans [OF d(2,3,1) b(1) this b(2)] c(2)
  obtain e where "cmp lo x = Inr e" "e \<le> 0" by auto
  with cmp_flip [OF d(2,1)] show ?thesis by fastforce
qed

end

definition ordered_dom :: "golib \<Rightarrow> DataType \<Rightarrow> gvalue \<Rightarrow> bool" where
  "ordered_dom lib dt v \<longleftrightarrow> wf_value lib v \<and> dataType v = dt \<and> IsOrdered dt"

lemma wf_decimal: "wf_value lib v \<Longrightarrow> dataType v = DataTypeDecimal \<Longrightarrow>
    rat_set_string lib (textVal v) = Some (rat_of_decimal (textVal v))"
  by (auto simp: wf_value_def NewDecimalValue_def rat_set_string_def split: if_splits)

lemma wf_float: "wf_value lib v \<Longrightarrow> dataType v = DataTypeFloat \<or> dataType v = DataTypeQuantity \<Longrightarrow>
    floatVal v \<noteq> FNaN"
  by (auto simp: wf_value_def dest: f_finite_not_NaN)

lemma compare_lin_laws:
  "compare_lin x y \<in> {-1, 0, 1}" "compare_lin y x = - compare_lin x y"
  "compare_lin x y \<le> 0 \<Longrightarrow> compare_lin y z \<le> 0 \<Longrightarrow> compare_lin x z \<le> 0 \<and>
     (compare_lin x z = 0 \<longrightarrow> compare_lin x y = 0 \<and> compare_lin y z = 0)"
  by (auto simp: compare_lin_def split: if_splits)

lemma compare_float_rank:
  "x \<noteq> FNaN \<Longrightarrow> y \<noteq> FNaN \<Longrightarrow> compare_float x y = compare_lin (f_rank x) (f_rank y)"
  by (simp add: compare_float_def compare_lin_def f_lt_rank)

lemma Compare_ordered:
  assumes "ordered_dom lib dt v" "ordered_dom lib dt w"
  shows "Compare lib v w =
    Inr (if dt = DataTypeInteger then compare_lin (intVal v) (intVal w)
         else if dt = DataTypeDecimal then compare_lin (rat_of_decimal (textVal v)) (rat_of_decimal (textVal w))
         else if dt = DataTypeFloat \<or> dt = DataTypeQuantity then compare_lin (f_rank (floatVal v)) (f_rank (floatVal w))
         else compare_lin (timeVal v) (timeVal w))"
  using assms wf_float [of lib v] wf_float [of lib w]
  by (cases dt) (simp_all add: ordered_dom_def Compare_def wf_decimal compare_float_rank)

text \<open>The order of the values themselves, by data type.\<close>

definition value_less :: "DataType \<Rightarrow> gvalue \<Rightarrow> gvalue \<Rightarrow> bool" where
  "value_less dt v w \<longleftrightarrow>
     (if dt = DataTypeInteger then intVal v < intVal w
      else if dt = DataTypeFloat \<or> dt = DataTypeQuantity then f_lt (floatVal v) (floatVal w)
      else if dt = DataTypeDecimal then rat_of_decimal (textVal v) < rat_of_decimal (textVal w)
      else timeVal v < timeVal w)"

lemma Compare_negative_iff:
  "ordered_dom lib dt v \<Longrightarrow> ordered_dom lib dt w \<Longrightarrow> Compare lib v w = Inr c \<Longrightarrow>
     c < 0 \<longleftrightarrow> value_less dt v w"
  by (cases dt) (auto simp: ordered_dom_def Compare_def wf_decimal value_less_def compare_lin_def
      compare_float_def split: if_splits)

interpretation vo: compare_on "Compare lib" "ordered_dom lib dt" for lib dt
proof
  fix x y :: gvalue
  assume d: "ordered_dom lib dt x" "ordered_dom lib dt y"
  show "\<exists>c\<in>{-1, 0, 1}. Compare lib x y = Inr c"
    using compare_lin_laws(1) [of "intVal x"] compare_lin_laws(1) [of "timeVal x"]
      compare_lin_laws(1) [of "rat_of_decimal (textVal x)"] compare_lin_laws(1) [of "f_rank (floatVal x)"]
    by (simp add: Compare_ordered [OF d])
  fix c
  assume "Compare lib x y = Inr c"
  then show "Compare lib y x = Inr (- c)"
    using compare_lin_laws(2) [of "intVal y"] compare_lin_laws(2) [of "timeVal y"]
      compare_lin_laws(2) [of "rat_of_decimal (textVal y)"] compare_lin_laws(2) [of "f_rank (floatVal y)"]
    by (auto simp: Compare_ordered [OF d] Compare_ordered [OF d(2,1)])
next
  fix x y z :: gvalue and c e :: int
  assume d: "ordered_dom lib dt x" "ordered_dom lib dt y" "ordered_dom lib dt z"
    and c: "Compare lib x y = Inr c" "Compare lib y z = Inr e" "c \<le> 0" "e \<le> 0"
  show "\<exists>k. Compare lib x z = Inr k \<and> k \<le> 0 \<and> (k = 0 \<longrightarrow> c = 0 \<and> e = 0)"
    using c compare_lin_laws(3) [of "intVal x" "intVal y" "intVal z"]
      compare_lin_laws(3) [of "timeVal x" "timeVal y" "timeVal z"]
      compare_lin_laws(3) [of "rat_of_decimal (textVal x)" "rat_of_decimal (textVal y)" "rat_of_decimal (textVal z)"]
      compare_lin_laws(3) [of "f_rank (floatVal x)" "f_rank (floatVal y)" "f_rank (floatVal z)"]
    by (auto simp: Compare_ordered [OF d(1,2)] Compare_ordered [OF d(2,3)] Compare_ordered [OF d(1,3)]
        split: if_splits)
qed

section \<open>Equality\<close>

locale equality_on =
  fixes eq :: "'a \<Rightarrow> 'a \<Rightarrow> bool" and dom :: "'a \<Rightarrow> bool"
  assumes eq_refl: "dom x \<Longrightarrow> eq x x"
    and eq_sym: "dom x \<Longrightarrow> dom y \<Longrightarrow> eq x y \<Longrightarrow> eq y x"
    and eq_trans: "dom x \<Longrightarrow> dom y \<Longrightarrow> dom z \<Longrightarrow> eq x y \<Longrightarrow> eq y z \<Longrightarrow> eq x z"
begin

lemma member_cong:
  "dom x \<Longrightarrow> dom y \<Longrightarrow> list_all dom zs \<Longrightarrow> eq x y \<Longrightarrow> list_ex (eq x) zs = list_ex (eq y) zs"
  unfolding list_ex_iff list_all_iff using eq_sym eq_trans by metis

text \<open>Keeping the members of one list that occur in another is intersection up to \<open>eq\<close>.\<close>

lemma member_intersect:
  assumes "dom x" "list_all dom xs" "list_all dom ys"
  shows "list_ex (eq x) (filter (\<lambda>a. list_ex (eq a) ys) xs) \<longleftrightarrow> list_ex (eq x) xs \<and> list_ex (eq x) ys"
proof -
  have "list_ex (eq a) ys \<longleftrightarrow> list_ex (eq x) ys" if "a \<in> set xs" "eq x a" for a
    using member_cong [OF assms(1) _ assms(3) that(2)] that(1) assms(2) by (simp add: list_all_iff)
  then show ?thesis by (auto simp: list_ex_iff)
qed

end

lemma equalJSON_equiv:
  "equalJSON lib a a" "equalJSON lib a b \<Longrightarrow> equalJSON lib b a"
  "equalJSON lib a b \<Longrightarrow> equalJSON lib b c \<Longrightarrow> equalJSON lib a c"
  by (auto simp: equalJSON_def split: option.splits)

lemma Equal_decimal:
  "wf_value lib v \<Longrightarrow> wf_value lib w \<Longrightarrow> dataType v = DataTypeDecimal \<Longrightarrow> dataType w = DataTypeDecimal \<Longrightarrow>
     Equal lib v w \<longleftrightarrow> rat_of_decimal (textVal v) = rat_of_decimal (textVal w)"
  by (auto simp: Equal_def Compare_def wf_decimal compare_lin_def)

interpretation ve: equality_on "Equal lib" "wf_value lib" for lib
proof
  fix x y z :: gvalue
  assume x: "wf_value lib x"
  show "Equal lib x x"
    using x wf_float [OF x] by (auto simp: Equal_def equalJSON_equiv Compare_def wf_decimal
        compare_lin_def f_eq_refl split: DataType.split)
  assume y: "wf_value lib y"
  assume "Equal lib x y"
  then show "Equal lib y x"
    using x y by (cases "dataType y")
      (auto simp: Equal_def equalJSON_equiv(2) Compare_def wf_decimal compare_lin_def f_eq_def split: if_splits)
next
  fix x y z :: gvalue
  assume "wf_value lib x" "wf_value lib y" "wf_value lib z" "Equal lib x y" "Equal lib y z"
  then show "Equal lib x z"
    by (cases "dataType z")
      (auto simp: Equal_def Compare_def wf_decimal compare_lin_def f_eq_def
        split: if_splits intro: equalJSON_equiv(3))
qed

lemma Equal_dataType: "Equal lib v w \<Longrightarrow> dataType v = dataType w"
  by (auto simp: Equal_def split: if_splits)

lemma Equal_iff_Compare:
  "ordered_dom lib dt v \<Longrightarrow> ordered_dom lib dt w \<Longrightarrow> Equal lib v w \<longleftrightarrow> Compare lib v w = Inr 0"
  using f_eq_iff [of "floatVal v" "floatVal w"] wf_float [of lib v] wf_float [of lib w]
  by (cases dt) (auto simp: ordered_dom_def Equal_def Compare_def compare_lin_def compare_float_def
      wf_decimal f_lt_asym split: if_splits)

section \<open>The grouping key\<close>

lemma last_wins_subset: "set (last_wins kvs) \<subseteq> set kvs"
  by (induction kvs rule: last_wins.induct) auto

text \<open>A canonical document is read back without error.\<close>

definition float_parse_total :: "golib \<Rightarrow> bool" where
  "float_parse_total lib \<longleftrightarrow>
     (\<forall>t f. float_parse lib t = Some f \<longrightarrow> (\<exists>g. float_parse lib (float_json lib f) = Some g))"

lemma canon_members_Some:
  "canon_members lib kvs \<noteq> None \<longleftrightarrow> (\<forall>kv\<in>set kvs. canon lib (snd kv) \<noteq> None)"
  by (induction kvs) (auto split: option.splits)

lemma canon_again:
  "float_parse_total lib \<Longrightarrow> canon lib j = Some j' \<Longrightarrow> canon lib j' \<noteq> None"
  "float_parse_total lib \<Longrightarrow> canon_list lib js = Some js' \<Longrightarrow> canon_list lib js' \<noteq> None"
  "float_parse_total lib \<Longrightarrow> canon_members lib kvs = Some kvs' \<Longrightarrow>
     \<forall>kv\<in>set kvs'. canon lib (snd kv) \<noteq> None"
proof (induction lib j and lib js and lib kvs arbitrary: j' and js' and kvs'
    rule: canon_canon_list_canon_members.induct)
  case (3 lib t)
  then show ?case by (auto simp: float_parse_total_def)
next
  case (6 lib kvs)
  then obtain ms where ms: "canon_members lib kvs = Some ms" "j' = JObj (sort_key fst (last_wins ms))"
    by auto
  with 6 last_wins_subset [of ms] have "canon_members lib (sort_key fst (last_wins ms)) \<noteq> None"
    by (subst canon_members_Some) auto
  with ms show ?case by auto
qed (auto split: option.splits, fastforce)

lemma canonicalJSON_key:
  assumes "json_bytes_exact lib" "float_parse_total lib"
  shows "(case canonicalJSON lib a of Some c \<Rightarrow> json_bytes lib c | None \<Rightarrow> json_bytes lib a) =
         (case canonicalJSON lib b of Some c \<Rightarrow> json_bytes lib c | None \<Rightarrow> json_bytes lib b)
     \<longleftrightarrow> equalJSON lib a b"
proof -
  have inj: "json_bytes lib p = json_bytes lib q \<longleftrightarrow> p = q" for p q
    using assms(1) by (auto simp: json_bytes_exact_def)
  have again: "canonicalJSON lib c \<noteq> None" if "canonicalJSON lib a = Some c" for a c
    using that canon_again(1) [OF assms(2)]
    by (auto simp: canonicalJSON_def split: rawmsg.splits)
  show ?thesis
    using again [of a] again [of b] by (auto simp: equalJSON_def inj split: option.splits)
qed

lemma float_key:
  assumes "float_x_exact lib" "x \<noteq> FNaN" "y \<noteq> FNaN"
  shows "(if f_eq x (FFin 0) then ''0'' else float_x lib x) = (if f_eq y (FFin 0) then ''0'' else float_x lib y)
     \<longleftrightarrow> f_eq x y"
proof -
  have inj: "float_x lib p = float_x lib q \<longleftrightarrow> p = q" and nz: "float_x lib p \<noteq> ''0''" for p q
    using assms(1) by (auto simp: float_x_exact_def)
  have same: "f_eq p q \<longleftrightarrow> p = q" if "p \<noteq> FNaN" "q \<noteq> FNaN" "\<not> f_eq p (FFin 0)" "\<not> f_eq q (FFin 0)" for p q
    using that by (cases p; cases q) (auto simp: f_eq_def)
  show ?thesis
    using same [OF assms(2,3)] inj [of x y] nz [of x] nz [of y] assms(2,3)
    by (auto simp: f_eq_def split: if_splits)
qed

lemma EqualityKey_iff:
  assumes "json_bytes_exact lib" "float_parse_total lib" "float_x_exact lib" "rfc3339_exact lib"
    and wf: "wf_value lib v" "wf_value lib w" and dt: "dataType v = dataType w"
  shows "EqualityKey lib v = EqualityKey lib w \<longleftrightarrow> Equal lib v w"
proof -
  have time: "time_format lib RFC3339Nano s = time_format lib RFC3339Nano t \<longleftrightarrow> s = t" for s t
    using assms(4) by (auto simp: rfc3339_exact_def)
  have bytes: "json_bytes lib p = json_bytes lib q \<longleftrightarrow> p = q" for p q
    using assms(1) by (auto simp: json_bytes_exact_def)
  show ?thesis
  proof (cases "dataType w")
    case DataTypeDecimal
    with dt wf show ?thesis
      by (simp add: EqualityKey_def Equal_decimal wf_decimal rat_string_inj)
  next
    case DataTypeFloat
    with dt wf_float [OF wf(1)] wf_float [OF wf(2)] show ?thesis
      by (simp add: EqualityKey_def Equal_def float_key [OF assms(3)])
  next
    case DataTypeQuantity
    with dt wf_float [OF wf(1)] wf_float [OF wf(2)] show ?thesis
      by (simp add: EqualityKey_def Equal_def float_key [OF assms(3)])
  next
    case DataTypeJSON
    with dt show ?thesis
      by (simp add: EqualityKey_def Equal_def canonicalJSON_key [OF assms(1,2)])
  qed (use dt in \<open>auto simp: EqualityKey_def Equal_def time bytes itoa_inj\<close>)
qed

end
