(* ===== verification/Constraints.thy ===== *)
theory Constraints
  imports Value_Laws
begin

text \<open>
  The validation rules of attributes (\<^verbatim>\<open>domain/attribute/constraint.go\<close>): the seven kinds,
  their shape check against the data type, their check of a value, and the self-describing
  JSON form. The lemmas show that on rules that passed \<^verbatim>\<open>Validate\<close> the check decides exactly
  the documented meaning \<open>admits\<close>, never fails to compare, cannot tell equal values apart,
  and that storing and loading keeps every rule.
\<close>

datatype ConstraintKind =
    KindMinLength | KindMaxLength | KindMinValue | KindMaxValue | KindPattern | KindOneOf | KindMedia
  | ConstraintKindOther string

fun ckind_String :: "ConstraintKind \<Rightarrow> string" where
  "ckind_String KindMinLength = ''min_length''"
| "ckind_String KindMaxLength = ''max_length''"
| "ckind_String KindMinValue = ''min_value''"
| "ckind_String KindMaxValue = ''max_value''"
| "ckind_String KindPattern = ''pattern''"
| "ckind_String KindOneOf = ''one_of''"
| "ckind_String KindMedia = ''media''"
| "ckind_String (ConstraintKindOther s) = s"

definition constraint_kinds :: "ConstraintKind list" where
  "constraint_kinds =
     [KindMinLength, KindMaxLength, KindMinValue, KindMaxValue, KindPattern, KindOneOf, KindMedia]"

definition to_ConstraintKind :: "string \<Rightarrow> ConstraintKind" where
  "to_ConstraintKind s =
     (case find (\<lambda>k. ckind_String k = s) constraint_kinds of Some k \<Rightarrow> k | None \<Rightarrow> ConstraintKindOther s)"

text \<open>The interface \<^verbatim>\<open>Constraint\<close> and its seven implementations. The third field of \<open>Pattern\<close>
  is the cached \<^verbatim>\<open>compiled\<close> expression, a nil pointer or its match function.\<close>

datatype Constraint =
    MinLength int
  | MaxLength int
  | MinValue gvalue
  | MaxValue gvalue
  | Pattern string bool "(string \<Rightarrow> bool) option"
  | OneOf "gvalue list"
  | MediaConstraint "string list" int

fun constraint_Kind :: "Constraint \<Rightarrow> ConstraintKind" where
  "constraint_Kind (MinLength _) = KindMinLength"
| "constraint_Kind (MaxLength _) = KindMaxLength"
| "constraint_Kind (MinValue _) = KindMinValue"
| "constraint_Kind (MaxValue _) = KindMaxValue"
| "constraint_Kind (Pattern _ _ _) = KindPattern"
| "constraint_Kind (OneOf _) = KindOneOf"
| "constraint_Kind (MediaConstraint _ _) = KindMedia"

definition anchored :: "string \<Rightarrow> string" where
  "anchored expr = [CHR 0x5C] @ ''A(?:'' @ expr @ '')'' @ [CHR 0x5C] @ ''z''"

definition pattern :: "string \<Rightarrow> bool \<Rightarrow> string" where
  "pattern expr substring = (if substring then expr else anchored expr)"

fun constraint_Validate :: "golib \<Rightarrow> Constraint \<Rightarrow> DataType \<Rightarrow> goerr option" where
  "constraint_Validate lib (MinLength n) dt =
     (if \<not> IsTextual dt then Some (NewValidation ''min_length requires a textual data type'')
      else if n < 0 then Some (NewValidation ''min_length must not be negative'')
      else None)"
| "constraint_Validate lib (MaxLength n) dt =
     (if \<not> IsTextual dt then Some (NewValidation ''max_length requires a textual data type'')
      else if n \<le> 0 then Some (NewValidation ''max_length must be positive'')
      else None)"
| "constraint_Validate lib (MinValue m) dt =
     (if \<not> IsOrdered dt then Some (NewValidation ''min_value requires an ordered data type'')
      else if dataType m \<noteq> dt then Some (NewValidation ''min_value operand type must match the attribute type'')
      else None)"
| "constraint_Validate lib (MaxValue m) dt =
     (if \<not> IsOrdered dt then Some (NewValidation ''max_value requires an ordered data type'')
      else if dataType m \<noteq> dt then Some (NewValidation ''max_value operand type must match the attribute type'')
      else None)"
| "constraint_Validate lib (Pattern expr substring compiled) dt =
     (if \<not> IsTextual dt then Some (NewValidation ''pattern requires a textual data type'')
      else if re_compile lib (pattern expr substring) = None then Some (NewValidation ''invalid pattern'')
      else None)"
| "constraint_Validate lib (OneOf values) dt =
     (if values = [] then Some (NewValidation ''one_of requires at least one allowed value'')
      else first_err (\<lambda>v. if dataType v \<noteq> dt
             then Some (NewValidation ''one_of member type must match the attribute type'') else None) values)"
| "constraint_Validate lib (MediaConstraint mime maxSize) dt =
     (if dt \<noteq> DataTypeMedia then Some (NewValidation ''media constraint requires a media attribute'')
      else if maxSize < 0 then Some (NewValidation ''media max_size must be non-negative'')
      else None)"

fun constraint_Check :: "golib \<Rightarrow> Constraint \<Rightarrow> gvalue \<Rightarrow> goerr option" where
  "constraint_Check lib (MinLength n) v =
     (if int (value_Length v) < n then Some (NewValidation ''value must be at least %d characters'') else None)"
| "constraint_Check lib (MaxLength n) v =
     (if int (value_Length v) > n then Some (NewValidation ''value must be at most %d characters'') else None)"
| "constraint_Check lib (MinValue m) v =
     (case Compare lib v m of
        Inl e \<Rightarrow> Some (NewValidation (err_msg e))
      | Inr c \<Rightarrow> if c < 0 then Some (NewValidation ''value must be at least %s'') else None)"
| "constraint_Check lib (MaxValue m) v =
     (case Compare lib v m of
        Inl e \<Rightarrow> Some (NewValidation (err_msg e))
      | Inr c \<Rightarrow> if c > 0 then Some (NewValidation ''value must be at most %s'') else None)"
| "constraint_Check lib (Pattern expr substring compiled) v =
     (case (case compiled of None \<Rightarrow> re_compile lib (pattern expr substring) | Some re \<Rightarrow> Some re) of
        None \<Rightarrow> Some (NewValidation ''invalid pattern'')
      | Some re \<Rightarrow> if \<not> re (textVal v) then Some (NewValidation ''value does not match pattern %s'') else None)"
| "constraint_Check lib (OneOf values) v =
     (if list_ex (Equal lib v) values then None else Some (NewValidation ''value is not in the allowed set''))"
| "constraint_Check lib (MediaConstraint mime maxSize) v =
     (if mime \<noteq> [] \<and> MIME (Media v) \<notin> set mime then Some (NewValidation ''media type is not allowed'')
      else if maxSize > 0 \<and> Size (Media v) > maxSize then Some (NewValidation ''media exceeds the maximum size'')
      else None)"

type_synonym Constraints = "Constraint list"

fun constraints_validate_from :: "golib \<Rightarrow> DataType \<Rightarrow> ConstraintKind set \<Rightarrow> Constraints \<Rightarrow> goerr option" where
  "constraints_validate_from lib dt seen [] = None"
| "constraints_validate_from lib dt seen (c # cs) =
     (if constraint_Kind c \<in> seen then Some (NewValidation ''duplicate constraint'')
      else (case constraint_Validate lib c dt of Some e \<Rightarrow> Some e
        | None \<Rightarrow> constraints_validate_from lib dt (insert (constraint_Kind c) seen) cs))"

definition Constraints_Validate :: "golib \<Rightarrow> Constraints \<Rightarrow> DataType \<Rightarrow> goerr option" where
  "Constraints_Validate lib cs dt = constraints_validate_from lib dt {} cs"

definition Constraints_Check :: "golib \<Rightarrow> Constraints \<Rightarrow> gvalue \<Rightarrow> goerr option" where
  "Constraints_Check lib cs v = first_err (\<lambda>c. constraint_Check lib c v) cs"

section \<open>The JSON form\<close>

record constraintJSON =
  cj_Kind :: ConstraintKind
  cj_N :: "int option"
  cj_Value :: rawmsg
  cj_Expr :: string
  cj_Substring :: bool
  cj_Values :: "rawmsg list"
  cj_MIME :: "string list"
  cj_MaxSize :: "int option"

definition zero_cj :: constraintJSON where
  "zero_cj = \<lparr>cj_Kind = ConstraintKindOther [], cj_N = None, cj_Value = RawNil, cj_Expr = [],
     cj_Substring = False, cj_Values = [], cj_MIME = [], cj_MaxSize = None\<rparr>"

fun constraint_to_cj :: "golib \<Rightarrow> Constraint \<Rightarrow> constraintJSON result" where
  "constraint_to_cj lib (MinLength n) = Inr (zero_cj\<lparr>cj_Kind := KindMinLength, cj_N := Some n\<rparr>)"
| "constraint_to_cj lib (MaxLength n) = Inr (zero_cj\<lparr>cj_Kind := KindMaxLength, cj_N := Some n\<rparr>)"
| "constraint_to_cj lib (MinValue m) =
     map_sum id (\<lambda>typed. zero_cj\<lparr>cj_Kind := KindMinValue, cj_Value := typed\<rparr>) (MarshalTyped lib m)"
| "constraint_to_cj lib (MaxValue m) =
     map_sum id (\<lambda>typed. zero_cj\<lparr>cj_Kind := KindMaxValue, cj_Value := typed\<rparr>) (MarshalTyped lib m)"
| "constraint_to_cj lib (Pattern expr substring compiled) =
     Inr (zero_cj\<lparr>cj_Kind := KindPattern, cj_Expr := expr, cj_Substring := substring\<rparr>)"
| "constraint_to_cj lib (OneOf values) =
     map_sum id (\<lambda>typed. zero_cj\<lparr>cj_Kind := KindOneOf, cj_Values := typed\<rparr>)
       (map_result (MarshalTyped lib) values)"
| "constraint_to_cj lib (MediaConstraint mime maxSize) =
     Inr (zero_cj\<lparr>cj_Kind := KindMedia, cj_MIME := mime,
            cj_MaxSize := (if maxSize > 0 then Some maxSize else None)\<rparr>)"

definition encode_cj :: "constraintJSON \<Rightarrow> json" where
  "encode_cj cj = JObj
     ([(''kind'', JStr (ckind_String (cj_Kind cj)))]
      @ (case cj_N cj of None \<Rightarrow> [] | Some n \<Rightarrow> [(''n'', JNum (itoa n))])
      @ (if cj_Value cj = RawNil then [] else [(''value'', raw_json (cj_Value cj))])
      @ (if cj_Expr cj = [] then [] else [(''expr'', JStr (cj_Expr cj))])
      @ (if cj_Substring cj then [(''substring'', JBool True)] else [])
      @ (if cj_Values cj = [] then [] else [(''values'', JArr (map raw_json (cj_Values cj)))])
      @ (if cj_MIME cj = [] then [] else [(''mime'', JArr (map JStr (cj_MIME cj)))])
      @ (case cj_MaxSize cj of None \<Rightarrow> [] | Some n \<Rightarrow> [(''max_size'', JNum (itoa n))]))"

definition Constraints_MarshalJSON :: "golib \<Rightarrow> Constraints \<Rightarrow> json result" where
  "Constraints_MarshalJSON lib cs = map_sum id (\<lambda>cjs. JArr (map encode_cj cjs)) (map_result (constraint_to_cj lib) cs)"

text \<open>Decoding the fields: a null clears a pointer or a slice and leaves a string or a bool.\<close>

definition into_int_ptr :: "(int option \<Rightarrow> 'a) \<Rightarrow> 'a \<Rightarrow> json \<Rightarrow> 'a \<times> bool" where
  "into_int_ptr upd a j =
     (case j of JNum t \<Rightarrow> (case parse_int64 t of Some i \<Rightarrow> (upd (Some i), True) | None \<Rightarrow> (upd (Some 0), False))
      | JNull \<Rightarrow> (upd None, True) | _ \<Rightarrow> (upd (Some 0), False))"

definition into_bool :: "(bool \<Rightarrow> 'a) \<Rightarrow> 'a \<Rightarrow> json \<Rightarrow> 'a \<times> bool" where
  "into_bool upd a j = (case j of JBool b \<Rightarrow> (upd b, True) | JNull \<Rightarrow> (a, True) | _ \<Rightarrow> (a, False))"

definition into_raws :: "(rawmsg list \<Rightarrow> 'a) \<Rightarrow> 'a \<Rightarrow> json \<Rightarrow> 'a \<times> bool" where
  "into_raws upd a j = (case j of JArr xs \<Rightarrow> (upd (map Raw xs), True) | JNull \<Rightarrow> (upd [], True) | _ \<Rightarrow> (a, False))"

definition into_strings :: "(string list \<Rightarrow> 'a) \<Rightarrow> 'a \<Rightarrow> json \<Rightarrow> 'a \<times> bool" where
  "into_strings upd a j =
     (case j of
        JArr xs \<Rightarrow> (upd (map (\<lambda>x. fst (into_string id [] x)) xs), list_all (\<lambda>x. snd (into_string id [] x)) xs)
      | JNull \<Rightarrow> (upd [], True) | _ \<Rightarrow> (a, False))"

definition cj_member :: "string \<Rightarrow> json \<Rightarrow> constraintJSON \<Rightarrow> constraintJSON \<times> bool" where
  "cj_member k j c =
     (if key_is ''kind'' k then into_string (\<lambda>s. c\<lparr>cj_Kind := to_ConstraintKind s\<rparr>) c j
      else if key_is ''n'' k then into_int_ptr (\<lambda>n. c\<lparr>cj_N := n\<rparr>) c j
      else if key_is ''value'' k then (c\<lparr>cj_Value := Raw j\<rparr>, True)
      else if key_is ''expr'' k then into_string (\<lambda>s. c\<lparr>cj_Expr := s\<rparr>) c j
      else if key_is ''substring'' k then into_bool (\<lambda>b. c\<lparr>cj_Substring := b\<rparr>) c j
      else if key_is ''values'' k then into_raws (\<lambda>vs. c\<lparr>cj_Values := vs\<rparr>) c j
      else if key_is ''mime'' k then into_strings (\<lambda>ms. c\<lparr>cj_MIME := ms\<rparr>) c j
      else if key_is ''max_size'' k then into_int_ptr (\<lambda>n. c\<lparr>cj_MaxSize := n\<rparr>) c j
      else (c, True))"

definition cj_to_constraint :: "golib \<Rightarrow> constraintJSON \<Rightarrow> Constraint result" where
  "cj_to_constraint lib cj =
     (case cj_Kind cj of
        KindMinLength \<Rightarrow> (case cj_N cj of None \<Rightarrow> Inl (PlainErr ''min_length missing n'') | Some n \<Rightarrow> Inr (MinLength n))
      | KindMaxLength \<Rightarrow> (case cj_N cj of None \<Rightarrow> Inl (PlainErr ''max_length missing n'') | Some n \<Rightarrow> Inr (MaxLength n))
      | KindMinValue \<Rightarrow> (case UnmarshalTypedValue lib (cj_Value cj) of
            Inl e \<Rightarrow> Inl (PlainErr ''min_value operand: %w'') | Inr v \<Rightarrow> Inr (MinValue v))
      | KindMaxValue \<Rightarrow> (case UnmarshalTypedValue lib (cj_Value cj) of
            Inl e \<Rightarrow> Inl (PlainErr ''max_value operand: %w'') | Inr v \<Rightarrow> Inr (MaxValue v))
      | KindPattern \<Rightarrow> (case re_compile lib (pattern (cj_Expr cj) (cj_Substring cj)) of
            None \<Rightarrow> Inl (PlainErr ''pattern %q: %w'')
          | Some re \<Rightarrow> Inr (Pattern (cj_Expr cj) (cj_Substring cj) (Some re)))
      | KindOneOf \<Rightarrow> (case map_result (UnmarshalTypedValue lib) (cj_Values cj) of
            Inl e \<Rightarrow> Inl (PlainErr ''one_of member: %w'') | Inr vs \<Rightarrow> Inr (OneOf vs))
      | KindMedia \<Rightarrow> Inr (MediaConstraint (cj_MIME cj) (case cj_MaxSize cj of None \<Rightarrow> 0 | Some n \<Rightarrow> n))
      | ConstraintKindOther _ \<Rightarrow> Inl (PlainErr ''unknown constraint kind %q''))"

definition Constraints_UnmarshalJSON :: "golib \<Rightarrow> rawmsg \<Rightarrow> Constraints result" where
  "Constraints_UnmarshalJSON lib raw =
     (case raw of
        Raw (JArr xs) \<Rightarrow>
          (let ds = map (\<lambda>x. decode_struct cj_member (Raw x) zero_cj) xs
           in if \<not> list_all snd ds then Inl (PlainErr ''json: cannot unmarshal'')
              else map_result (cj_to_constraint lib) (map fst ds))
      | Raw JNull \<Rightarrow> Inr []
      | _ \<Rightarrow> Inl (PlainErr ''json: cannot unmarshal''))"

section \<open>Validated rules decide their documented meaning\<close>

text \<open>The order of values of one data type: integers, exact decimals, floats, instants.\<close>

fun value_le :: "gvalue \<Rightarrow> gvalue \<Rightarrow> bool" where
  "value_le v w =
     (case dataType v of
        DataTypeInteger \<Rightarrow> intVal v \<le> intVal w
      | DataTypeDecimal \<Rightarrow> rat_of_decimal (textVal v) \<le> rat_of_decimal (textVal w)
      | DataTypeFloat \<Rightarrow> f_rank (floatVal v) \<le> f_rank (floatVal w)
      | DataTypeQuantity \<Rightarrow> f_rank (floatVal v) \<le> f_rank (floatVal w)
      | _ \<Rightarrow> timeVal v \<le> timeVal w)"

definition re_matches :: "golib \<Rightarrow> string \<Rightarrow> string \<Rightarrow> bool" where
  "re_matches lib expr s = (case re_compile lib expr of None \<Rightarrow> False | Some re \<Rightarrow> re s)"

fun admits :: "golib \<Rightarrow> Constraint \<Rightarrow> gvalue \<Rightarrow> bool" where
  "admits lib (MinLength n) v \<longleftrightarrow> n \<le> int (rune_count (textVal v))"
| "admits lib (MaxLength n) v \<longleftrightarrow> int (rune_count (textVal v)) \<le> n"
| "admits lib (MinValue m) v \<longleftrightarrow> value_le m v"
| "admits lib (MaxValue m) v \<longleftrightarrow> value_le v m"
| "admits lib (Pattern expr substring _) v \<longleftrightarrow> re_matches lib (if substring then expr else anchored expr) (textVal v)"
| "admits lib (OneOf values) v \<longleftrightarrow> (\<exists>w\<in>set values. Equal lib v w)"
| "admits lib (MediaConstraint mime maxSize) v \<longleftrightarrow>
     (mime = [] \<or> MIME (Media v) \<in> set mime) \<and> (maxSize = 0 \<or> Size (Media v) \<le> maxSize)"

text \<open>What the decoder establishes for a rule: its operands are well formed, its numbers are
  int64 values, and a cached expression is the compiled one.\<close>

fun wf_constraint :: "golib \<Rightarrow> Constraint \<Rightarrow> bool" where
  "wf_constraint lib (MinLength n) \<longleftrightarrow> in_int64 n"
| "wf_constraint lib (MaxLength n) \<longleftrightarrow> in_int64 n"
| "wf_constraint lib (MinValue m) \<longleftrightarrow> wf_value lib m"
| "wf_constraint lib (MaxValue m) \<longleftrightarrow> wf_value lib m"
| "wf_constraint lib (Pattern expr substring compiled) \<longleftrightarrow>
     (compiled = None \<or> compiled = re_compile lib (pattern expr substring))"
| "wf_constraint lib (OneOf values) \<longleftrightarrow> list_all (wf_value lib) values"
| "wf_constraint lib (MediaConstraint mime maxSize) \<longleftrightarrow> in_int64 maxSize"

lemma Compare_value_le:
  assumes "ordered_dom lib dt v" "ordered_dom lib dt w"
  shows "\<exists>c. Compare lib v w = Inr c \<and> (0 \<le> c \<longleftrightarrow> value_le w v) \<and> (c \<le> 0 \<longleftrightarrow> value_le v w)"
  using Compare_ordered [OF assms] assms
  by (auto simp: ordered_dom_def compare_lin_def not_less split: DataType.split)

lemma Pattern_compiled:
  "wf_constraint lib (Pattern e b c) \<Longrightarrow>
     (case c of None \<Rightarrow> re_compile lib (pattern e b) | Some re \<Rightarrow> Some re) = re_compile lib (pattern e b)"
  by (auto split: option.split)

lemma constraint_Check_admits [flexi_simps]:
  assumes "constraint_Validate lib c dt = None" "wf_constraint lib c" "wf_value lib v" "dataType v = dt"
  shows "constraint_Check lib c v = None \<longleftrightarrow> admits lib c v"
proof (cases c)
  case (MinValue m)
  with assms have "ordered_dom lib dt v" "ordered_dom lib dt m"
    by (auto simp: ordered_dom_def split: if_splits)
  from Compare_value_le [OF this] MinValue show ?thesis by auto
next
  case (MaxValue m)
  with assms have "ordered_dom lib dt v" "ordered_dom lib dt m"
    by (auto simp: ordered_dom_def split: if_splits)
  from Compare_value_le [OF this] MaxValue show ?thesis by auto
next
  case (Pattern e b re)
  then show ?thesis
    using Pattern_compiled [of lib e b re] assms
    by (simp add: pattern_def re_matches_def split: option.split)
next
  case (MediaConstraint mime maxSize)
  with assms show ?thesis by (auto split: if_splits)
qed (auto simp: value_Length_def list_ex_iff)

lemma constraints_validate_from_None:
  "constraints_validate_from lib dt seen cs = None \<longleftrightarrow>
     (\<forall>c\<in>set cs. constraint_Validate lib c dt = None) \<and>
     distinct (map constraint_Kind cs) \<and> constraint_Kind ` set cs \<inter> seen = {}"
  by (induction cs arbitrary: seen) (auto split: option.split)

lemma Constraints_Validate_None [flexi_simps]:
  "Constraints_Validate lib cs dt = None \<longleftrightarrow>
     (\<forall>c\<in>set cs. constraint_Validate lib c dt = None) \<and> distinct (map constraint_Kind cs)"
  by (simp add: Constraints_Validate_def constraints_validate_from_None)

lemma Constraints_Check_admits:
  assumes "Constraints_Validate lib cs dt = None" "list_all (wf_constraint lib) cs"
    "wf_value lib v" "dataType v = dt"
  shows "Constraints_Check lib cs v = None \<longleftrightarrow> (\<forall>c\<in>set cs. admits lib c v)"
  using assms constraint_Check_admits [of lib _ dt v]
  by (auto simp: Constraints_Check_def Constraints_Validate_None list_all_iff)

text \<open>Every failure of a check is a validation error, on any rule and any value.\<close>

lemma constraint_Check_code: "constraint_Check lib c v = Some e \<Longrightarrow> CodeOf e = Some CodeValidation"
  by (cases c) (auto split: if_splits sum.splits option.splits)

lemma constraint_Validate_code: "constraint_Validate lib c dt = Some e \<Longrightarrow> CodeOf e = Some CodeValidation"
  by (cases c) (auto split: if_splits dest!: first_err_Some)

section \<open>Equal values pass the same rules\<close>

lemma value_le_cong:
  assumes "ordered_dom lib dt v" "ordered_dom lib dt w" "ordered_dom lib dt m" "Equal lib v w"
  shows "value_le v m = value_le w m" "value_le m v = value_le m w"
  using assms Equal_iff_Compare [OF assms(1,2)] Compare_value_le [OF assms(1,2)]
    Compare_ordered [OF assms(1,2)]
  by (auto simp: ordered_dom_def compare_lin_def split: DataType.splits if_splits)

lemma Equal_text: "Equal lib v w \<Longrightarrow> IsTextual (dataType v) \<Longrightarrow> textVal v = textVal w"
  by (cases "dataType v") (auto simp: Equal_def split: if_splits)

lemma Equal_media: "Equal lib v w \<Longrightarrow> dataType v = DataTypeMedia \<Longrightarrow> Media v = Media w"
  by (auto simp: Equal_def Media_def split: if_splits)

lemma admits_cong:
  assumes "constraint_Validate lib c (dataType v) = None" "wf_constraint lib c"
    and wf: "wf_value lib v" "wf_value lib w" and eq: "Equal lib v w"
  shows "admits lib c v = admits lib c w"
proof (cases c)
  case (MinValue m)
  with assms Equal_dataType [OF eq] show ?thesis
    using value_le_cong(2) [of lib "dataType v" v w m] by (auto simp: ordered_dom_def split: if_splits)
next
  case (MaxValue m)
  with assms Equal_dataType [OF eq] show ?thesis
    using value_le_cong(1) [of lib "dataType v" v w m] by (auto simp: ordered_dom_def split: if_splits)
next
  case (OneOf vs)
  with assms(2) show ?thesis
    using ve.member_cong [OF wf _ eq, of vs] by (simp add: list_ex_iff)
next
  case (MediaConstraint mime maxSize)
  with assms Equal_media [OF eq] show ?thesis by (auto split: if_splits)
qed (use assms Equal_text [OF eq] in \<open>auto split: if_splits\<close>)

section \<open>Storing and loading rules\<close>

definition years_ok :: "Constraint \<Rightarrow> bool" where
  "years_ok c = (case c of MinValue m \<Rightarrow> in_years m | MaxValue m \<Rightarrow> in_years m
     | OneOf vs \<Rightarrow> list_all in_years vs | _ \<Rightarrow> True)"

text \<open>Loading compiles the expression of a pattern; nothing else changes.\<close>

fun precompile :: "golib \<Rightarrow> Constraint \<Rightarrow> Constraint" where
  "precompile lib (Pattern e b _) = Pattern e b (re_compile lib (pattern e b))"
| "precompile lib c = c"

lemma to_ConstraintKind_String [simp]:
  "k \<in> set constraint_kinds \<Longrightarrow> to_ConstraintKind (ckind_String k) = k"
  by (cases k) (simp_all add: to_ConstraintKind_def constraint_kinds_def)

lemma strings_round [simp]:
  "map (\<lambda>x. fst (into_string id [] x)) (map JStr ms) = ms"
  "list_all (\<lambda>x. snd (into_string id [] x)) (map JStr ms)"
  by (induction ms) (simp_all add: into_string_def)

text \<open>A wire record as the encoder fills it survives encoding and decoding.\<close>

definition cj_ok :: "constraintJSON \<Rightarrow> bool" where
  "cj_ok cj \<longleftrightarrow> cj_Kind cj \<in> set constraint_kinds
     \<and> (\<forall>n. cj_N cj = Some n \<longrightarrow> in_int64 n) \<and> (\<forall>n. cj_MaxSize cj = Some n \<longrightarrow> in_int64 n)
     \<and> (cj_Value cj = RawNil \<or> (\<exists>j. cj_Value cj = Raw j)) \<and> (\<exists>js. cj_Values cj = map Raw js)"

lemma raw_json_Raw [simp]: "raw_json (Raw j) = j" "map (Raw \<circ> raw_json \<circ> Raw) js = map Raw js"
  by (simp_all add: raw_json_def)

lemma decode_members_append:
  "decode_members f (xs @ ys) a =
     (case decode_members f xs a of (a', ok) \<Rightarrow> case decode_members f ys a' of (a'', ok') \<Rightarrow> (a'', ok \<and> ok'))"
  by (induction f xs a rule: decode_members.induct) (auto simp: Let_def split: prod.splits)

lemmas cj_decode =
  cj_member_def key_is_self into_string_def into_int_ptr_def into_bool_def into_raws_def into_strings_def

text \<open>One segment of the encoded record at a time.\<close>

lemma cj_segments:
  "k \<in> set constraint_kinds \<Longrightarrow>
     decode_members cj_member [(''kind'', JStr (ckind_String k))] c = (c\<lparr>cj_Kind := k\<rparr>, True)"
  "(\<forall>i. n = Some i \<longrightarrow> in_int64 i) \<Longrightarrow> cj_N c = None \<Longrightarrow>
     decode_members cj_member (case n of None \<Rightarrow> [] | Some n \<Rightarrow> [(''n'', JNum (itoa n))]) c = (c\<lparr>cj_N := n\<rparr>, True)"
  "r = RawNil \<or> (\<exists>j. r = Raw j) \<Longrightarrow> cj_Value c = RawNil \<Longrightarrow>
     decode_members cj_member (if r = RawNil then [] else [(''value'', raw_json r)]) c = (c\<lparr>cj_Value := r\<rparr>, True)"
  "cj_Expr c = [] \<Longrightarrow>
     decode_members cj_member (if e = [] then [] else [(''expr'', JStr e)]) c = (c\<lparr>cj_Expr := e\<rparr>, True)"
  "\<not> cj_Substring c \<Longrightarrow>
     decode_members cj_member (if b then [(''substring'', JBool True)] else []) c = (c\<lparr>cj_Substring := b\<rparr>, True)"
  "\<exists>js. vs = map Raw js \<Longrightarrow> cj_Values c = [] \<Longrightarrow>
     decode_members cj_member (if vs = [] then [] else [(''values'', JArr (map raw_json vs))]) c = (c\<lparr>cj_Values := vs\<rparr>, True)"
  "cj_MIME c = [] \<Longrightarrow>
     decode_members cj_member (if ms = [] then [] else [(''mime'', JArr (map JStr ms))]) c = (c\<lparr>cj_MIME := ms\<rparr>, True)"
  "(\<forall>i. n = Some i \<longrightarrow> in_int64 i) \<Longrightarrow> cj_MaxSize c = None \<Longrightarrow>
     decode_members cj_member (case n of None \<Rightarrow> [] | Some n \<Rightarrow> [(''max_size'', JNum (itoa n))]) c = (c\<lparr>cj_MaxSize := n\<rparr>, True)"
  using strings_round [of ms]
  by (auto simp: cj_decode comp_def split: option.split simp del: strings_round)

lemma cj_round:
  assumes "cj_ok cj"
  shows "decode_struct cj_member (Raw (encode_cj cj)) zero_cj = (cj, True)"
proof -
  from assms have ok: "cj_Kind cj \<in> set constraint_kinds" "\<forall>n. cj_N cj = Some n \<longrightarrow> in_int64 n"
      "cj_Value cj = RawNil \<or> (\<exists>j. cj_Value cj = Raw j)" "\<exists>js. cj_Values cj = map Raw js"
      "\<forall>n. cj_MaxSize cj = Some n \<longrightarrow> in_int64 n"
    by (simp_all add: cj_ok_def)
  have "decode_struct cj_member (Raw (encode_cj cj)) zero_cj =
      (\<lparr>cj_Kind = cj_Kind cj, cj_N = cj_N cj, cj_Value = cj_Value cj, cj_Expr = cj_Expr cj,
        cj_Substring = cj_Substring cj, cj_Values = cj_Values cj, cj_MIME = cj_MIME cj,
        cj_MaxSize = cj_MaxSize cj\<rparr>, True)"
    unfolding encode_cj_def decode_struct_def
    by (simp only: decode_members_append cj_segments(1) [OF ok(1)] cj_segments(2) [OF ok(2)]
        cj_segments(3) [OF ok(3)] cj_segments(4,5) cj_segments(6) [OF ok(4)] cj_segments(7)
        cj_segments(8) [OF ok(5)] zero_cj_def prod.case json.case rawmsg.case
        constraintJSON.simps simp_thms)
  then show ?thesis by simp
qed

lemma constraint_wire:
  assumes "float_json_round lib" "time_round lib" "wf_constraint lib c" "years_ok c"
    "constraint_Validate lib c dt = None"
  shows "\<exists>cj. constraint_to_cj lib c = Inr cj \<and> cj_ok cj \<and> cj_to_constraint lib cj = Inr (precompile lib c)"
proof -
  have one: "\<exists>j. MarshalTyped lib v = Inr (Raw j) \<and> UnmarshalTypedValue lib (Raw j) = Inr v"
    if "wf_value lib v" "in_years v" for v
    using typed_round [OF assms(1,2) that] wf_not_zero [OF that(1)]
    by (cases "MarshalJSON lib v") (auto simp: MarshalTyped_def)
  have many: "\<exists>js. map_result (MarshalTyped lib) vs = Inr (map Raw js) \<and>
      map_result (UnmarshalTypedValue lib) (map Raw js) = Inr vs"
    if "list_all (wf_value lib) vs" "list_all in_years vs" for vs
    using that
  proof (induction vs)
    case (Cons v vs)
    then obtain j js where "MarshalTyped lib v = Inr (Raw j)" "UnmarshalTypedValue lib (Raw j) = Inr v"
        "map_result (MarshalTyped lib) vs = Inr (map Raw js)"
        "map_result (UnmarshalTypedValue lib) (map Raw js) = Inr vs"
      using one [of v] by auto
    then show ?case by (intro exI [of _ "j # js"]) simp
  qed simp
  show ?thesis
  proof (cases c)
    case (MinValue m)
    with assms one [of m] show ?thesis
      by (auto simp: cj_ok_def cj_to_constraint_def constraint_kinds_def zero_cj_def years_ok_def)
  next
    case (MaxValue m)
    with assms one [of m] show ?thesis
      by (auto simp: cj_ok_def cj_to_constraint_def constraint_kinds_def zero_cj_def years_ok_def)
  next
    case (OneOf vs)
    with assms many [of vs] show ?thesis
      by (auto simp: cj_ok_def cj_to_constraint_def constraint_kinds_def zero_cj_def years_ok_def)
  qed (use assms(3,5) in \<open>auto simp: cj_ok_def cj_to_constraint_def constraint_kinds_def zero_cj_def
      split: if_splits option.split\<close>)
qed

lemma Constraints_round:
  assumes "float_json_round lib" "time_round lib" "list_all (wf_constraint lib) cs" "list_all years_ok cs"
    "Constraints_Validate lib cs dt = None"
  shows "\<exists>j. Constraints_MarshalJSON lib cs = Inr j \<and>
    Constraints_UnmarshalJSON lib (Raw j) = Inr (map (precompile lib) cs)"
proof -
  have "\<exists>cjs. map_result (constraint_to_cj lib) cs = Inr cjs \<and> list_all cj_ok cjs \<and>
      map_result (cj_to_constraint lib) cjs = Inr (map (precompile lib) cs)"
    using assms(3-5) unfolding Constraints_Validate_None
  proof (induction cs)
    case (Cons c cs)
    then obtain cjs where cjs: "map_result (constraint_to_cj lib) cs = Inr cjs" "list_all cj_ok cjs"
        "map_result (cj_to_constraint lib) cjs = Inr (map (precompile lib) cs)" by auto
    obtain cj where "constraint_to_cj lib c = Inr cj" "cj_ok cj" "cj_to_constraint lib cj = Inr (precompile lib c)"
      using constraint_wire [OF assms(1,2), of c dt] Cons.prems by auto
    with cjs show ?case by (intro exI [of _ "cj # cjs"]) simp
  qed simp
  then obtain cjs where cjs: "map_result (constraint_to_cj lib) cs = Inr cjs" "list_all cj_ok cjs"
      "map_result (cj_to_constraint lib) cjs = Inr (map (precompile lib) cs)" by blast
  have dec: "map (\<lambda>x. decode_struct cj_member (Raw x) zero_cj) (map encode_cj cjs) = map (\<lambda>cj. (cj, True)) cjs"
    using cjs(2) by (simp add: cj_round list_all_iff)
  show ?thesis
    unfolding Constraints_MarshalJSON_def Constraints_UnmarshalJSON_def
    using cjs by (simp add: dec [unfolded map_map comp_def] comp_def list_all_iff)
qed

end
