(* ===== verification/Dynamic.thy ===== *)
theory Dynamic
  imports Value_Laws
begin

text \<open>
  Runtime-computed values and attribute defaults (\<^verbatim>\<open>domain/valueobjects/dynamic.go\<close>). The
  offset of a relative value is a product of two int64 quantities and wraps around; the
  lemmas give the exact instant when it does not, and the shape and type of every result.
\<close>

datatype DynamicKind = DynamicNow | DynamicToday | DynamicRelative | DynamicKindOther string

datatype RelativePeriod =
  PeriodSeconds | PeriodMinutes | PeriodHours | PeriodDays | PeriodWeeks | PeriodOther string

fun periodDurations :: "RelativePeriod \<Rightarrow> int option" where
  "periodDurations PeriodSeconds = Some 1000000000"
| "periodDurations PeriodMinutes = Some (60 * 1000000000)"
| "periodDurations PeriodHours = Some (3600 * 1000000000)"
| "periodDurations PeriodDays = Some (24 * 3600 * 1000000000)"
| "periodDurations PeriodWeeks = Some (7 * 24 * 3600 * 1000000000)"
| "periodDurations (PeriodOther _) = None"

record DynamicValue =
  dyn_Kind :: DynamicKind
  dyn_Period :: RelativePeriod
  dyn_Amount :: int

definition dyn_Validate :: "DynamicValue \<Rightarrow> DataType \<Rightarrow> goerr option" where
  "dyn_Validate d dt =
     (if \<not> IsTemporal dt then Some (PlainErr ''dynamic values require a temporal data type, got %s'')
      else (case dyn_Kind d of
          DynamicRelative \<Rightarrow>
            (if periodDurations (dyn_Period d) = None then Some (PlainErr ''unknown relative period %q'') else None)
        | DynamicKindOther _ \<Rightarrow> Some (PlainErr ''unknown dynamic value kind %q'')
        | _ \<Rightarrow>
            (if dyn_Period d \<noteq> PeriodOther [] \<or> dyn_Amount d \<noteq> 0
             then Some (PlainErr ''%s does not accept period or amount'') else None)))"

definition dyn_Resolve :: "DynamicValue \<Rightarrow> DataType \<Rightarrow> gotime \<Rightarrow> gvalue result" where
  "dyn_Resolve d dt now =
     (case (case dyn_Kind d of
          DynamicRelative \<Rightarrow>
            (case periodDurations (dyn_Period d) of
               None \<Rightarrow> Inl (PlainErr ''unknown relative period %q'')
             | Some dur \<Rightarrow> Inr (time_add now (wrap64 (dyn_Amount d * dur))))
        | DynamicKindOther _ \<Rightarrow> Inl (PlainErr ''unknown dynamic value kind %q'')
        | _ \<Rightarrow> Inr now) of
        Inl e \<Rightarrow> Inl e
      | Inr t \<Rightarrow> (case dt of
            DataTypeDate \<Rightarrow> Inr (NewDateValue t)
          | DataTypeTime \<Rightarrow> Inr (NewTimeValue t)
          | DataTypeDateTime \<Rightarrow> Inr (NewDateTimeValue t)
          | _ \<Rightarrow> Inl (PlainErr ''dynamic values require a temporal data type, got %s'')))"

record Default =
  Static :: "gvalue option"
  def_Dynamic :: "DynamicValue option"

definition def_Validate :: "Default \<Rightarrow> DataType \<Rightarrow> goerr option" where
  "def_Validate d dt =
     (case (Static d, def_Dynamic d) of
        (Some _, Some _) \<Rightarrow> Some (PlainErr ''default must be static or dynamic, not both'')
      | (Some v, None) \<Rightarrow>
          (if dataType v \<noteq> dt then Some (PlainErr ''default value type %s does not match attribute type %s'')
           else None)
      | (None, Some dyn) \<Rightarrow> dyn_Validate dyn dt
      | (None, None) \<Rightarrow> Some (PlainErr ''default must set static or dynamic''))"

definition def_Resolve :: "Default \<Rightarrow> DataType \<Rightarrow> gotime \<Rightarrow> gvalue result" where
  "def_Resolve d dt now =
     (case Static d of Some v \<Rightarrow> Inr v
      | None \<Rightarrow> (case def_Dynamic d of Some dyn \<Rightarrow> dyn_Resolve dyn dt now
          | None \<Rightarrow> Inl (PlainErr ''empty default'')))"

section \<open>The persisted form of a default\<close>

fun kind_String :: "DynamicKind \<Rightarrow> string" where
  "kind_String DynamicNow = ''now''"
| "kind_String DynamicToday = ''today''"
| "kind_String DynamicRelative = ''relative_time''"
| "kind_String (DynamicKindOther s) = s"

definition to_DynamicKind :: "string \<Rightarrow> DynamicKind" where
  "to_DynamicKind s = (case find (\<lambda>k. kind_String k = s) [DynamicNow, DynamicToday, DynamicRelative] of
     Some k \<Rightarrow> k | None \<Rightarrow> DynamicKindOther s)"

fun period_String :: "RelativePeriod \<Rightarrow> string" where
  "period_String PeriodSeconds = ''seconds''"
| "period_String PeriodMinutes = ''minutes''"
| "period_String PeriodHours = ''hours''"
| "period_String PeriodDays = ''days''"
| "period_String PeriodWeeks = ''weeks''"
| "period_String (PeriodOther s) = s"

definition to_RelativePeriod :: "string \<Rightarrow> RelativePeriod" where
  "to_RelativePeriod s = (case find (\<lambda>k. period_String k = s)
     [PeriodSeconds, PeriodMinutes, PeriodHours, PeriodDays, PeriodWeeks] of
     Some k \<Rightarrow> k | None \<Rightarrow> PeriodOther s)"

definition zero_dynamic :: DynamicValue where
  "zero_dynamic = \<lparr>dyn_Kind = DynamicKindOther [], dyn_Period = PeriodOther [], dyn_Amount = 0\<rparr>"

definition encode_dynamic :: "DynamicValue \<Rightarrow> json" where
  "encode_dynamic d = JObj ([(''kind'', JStr (kind_String (dyn_Kind d)))]
     @ (if period_String (dyn_Period d) = [] then [] else [(''period'', JStr (period_String (dyn_Period d)))])
     @ (if dyn_Amount d = 0 then [] else [(''amount'', JNum (itoa (dyn_Amount d)))]))"

definition dynamic_member :: "string \<Rightarrow> json \<Rightarrow> DynamicValue \<Rightarrow> DynamicValue \<times> bool" where
  "dynamic_member k j d =
     (if key_is ''kind'' k then into_string (\<lambda>s. d\<lparr>dyn_Kind := to_DynamicKind s\<rparr>) d j
      else if key_is ''period'' k then into_string (\<lambda>s. d\<lparr>dyn_Period := to_RelativePeriod s\<rparr>) d j
      else if key_is ''amount'' k then into_int64 (\<lambda>i. d\<lparr>dyn_Amount := i\<rparr>) d j
      else (d, True))"

text \<open>A pointer field: null clears it, an object is decoded into the pointed-to struct.\<close>

definition into_dynamic :: "DynamicValue option \<Rightarrow> json \<Rightarrow> DynamicValue option \<times> bool" where
  "into_dynamic p j =
     (case j of JNull \<Rightarrow> (None, True)
      | JObj kvs \<Rightarrow> (let (d, ok) = decode_members dynamic_member kvs
            (case p of None \<Rightarrow> zero_dynamic | Some d0 \<Rightarrow> d0) in (Some d, ok))
      | _ \<Rightarrow> (p, False))"

definition Default_MarshalJSON :: "golib \<Rightarrow> Default \<Rightarrow> json result" where
  "Default_MarshalJSON lib d =
     (let dyn = (case def_Dynamic d of None \<Rightarrow> [] | Some x \<Rightarrow> [(''dynamic'', encode_dynamic x)])
      in (case Static d of
            None \<Rightarrow> Inr (JObj dyn)
          | Some v \<Rightarrow> (case MarshalTyped lib v of Inl e \<Rightarrow> Inl e
              | Inr typed \<Rightarrow> Inr (JObj ((''static'', raw_json typed) # dyn)))))"

definition default_member :: "string \<Rightarrow> json \<Rightarrow> rawmsg \<times> DynamicValue option \<Rightarrow>
    (rawmsg \<times> DynamicValue option) \<times> bool" where
  "default_member k j d =
     (if key_is ''static'' k then ((Raw j, snd d), True)
      else if key_is ''dynamic'' k then (let (p, ok) = into_dynamic (snd d) j in ((fst d, p), ok))
      else (d, True))"

definition Default_UnmarshalJSON :: "golib \<Rightarrow> rawmsg \<Rightarrow> Default result" where
  "Default_UnmarshalJSON lib raw =
     (let ((st, dyn), ok) = decode_struct default_member raw (RawNil, None)
      in if \<not> ok then Inl (PlainErr ''json'')
         else if st = RawNil \<or> st = Raw JNull then Inr \<lparr>Static = None, def_Dynamic = dyn\<rparr>
         else (case UnmarshalTypedValue lib st of Inl e \<Rightarrow> Inl e
           | Inr v \<Rightarrow> Inr \<lparr>Static = Some v, def_Dynamic = dyn\<rparr>))"

section \<open>Lemmas\<close>

lemma dyn_Validate_None:
  "dyn_Validate d dt = None \<longleftrightarrow> IsTemporal dt \<and>
     (dyn_Kind d = DynamicRelative \<and> periodDurations (dyn_Period d) \<noteq> None \<or>
      dyn_Kind d \<in> {DynamicNow, DynamicToday} \<and> dyn_Period d = PeriodOther [] \<and> dyn_Amount d = 0)"
  by (auto simp: dyn_Validate_def simp del: IsTemporal.simps split: DynamicKind.splits)

lemma dyn_Resolve_wf:
  "dyn_Resolve d dt now = Inr v \<Longrightarrow> dataType v = dt \<and> wf_value lib v"
  by (auto simp: dyn_Resolve_def split: sum.splits DataType.splits)

lemma dyn_Validate_Resolve:
  assumes "dyn_Validate d dt = None"
  shows "\<exists>v. dyn_Resolve d dt now = Inr v \<and> dataType v = dt \<and> wf_value lib v"
proof -
  from assms have "is_ok (dyn_Resolve d dt now)"
    by (auto simp: dyn_Validate_None dyn_Resolve_def split: DynamicKind.splits option.splits DataType.splits)
  then show ?thesis using dyn_Resolve_wf by (auto elim: is_okE)
qed

lemma dyn_relative_exact:
  assumes "dyn_Kind d = DynamicRelative" "periodDurations (dyn_Period d) = Some dur"
    "in_int64 (dyn_Amount d * dur)"
  shows "dyn_Resolve d DataTypeDateTime now = Inr (NewDateTimeValue (time_add now (dyn_Amount d * dur)))"
  using assms by (simp add: dyn_Resolve_def)

lemma def_Validate_Resolve:
  assumes "def_Validate d dt = None" and "\<And>v. Static d = Some v \<Longrightarrow> wf_value lib v"
  shows "\<exists>v. def_Resolve d dt now = Inr v \<and> dataType v = dt \<and> wf_value lib v"
proof (cases "Static d")
  case None
  with assms(1) obtain dyn where "def_Dynamic d = Some dyn" "dyn_Validate dyn dt = None"
    by (auto simp: def_Validate_def split: option.splits)
  with None dyn_Validate_Resolve [of dyn dt now lib] show ?thesis by (simp add: def_Resolve_def)
next
  case (Some v)
  with assms show ?thesis by (auto simp: def_Validate_def def_Resolve_def split: option.splits if_splits)
qed

lemma to_DynamicKind_String: "dyn_Validate d dt = None \<Longrightarrow> to_DynamicKind (kind_String (dyn_Kind d)) = dyn_Kind d"
  by (cases "dyn_Kind d") (simp_all add: dyn_Validate_None to_DynamicKind_def)

lemma to_RelativePeriod_String:
  "dyn_Validate d dt = None \<Longrightarrow> to_RelativePeriod (period_String (dyn_Period d)) = dyn_Period d"
  by (cases "dyn_Period d") (auto simp: dyn_Validate_None to_RelativePeriod_def)

lemma period_String_Nil: "dyn_Validate d dt = None \<Longrightarrow> period_String (dyn_Period d) = [] \<Longrightarrow> dyn_Period d = PeriodOther []"
  by (cases "dyn_Period d") auto

lemma dynamic_round:
  assumes "dyn_Validate d dt = None" "in_int64 (dyn_Amount d)"
  shows "into_dynamic None (encode_dynamic d) = (Some d, True)"
  using assms period_String_Nil [OF assms(1)]
  by (simp add: into_dynamic_def encode_dynamic_def dynamic_member_def key_is_self into_string_def
      into_int64_def zero_dynamic_def to_DynamicKind_String [OF assms(1)] to_RelativePeriod_String [OF assms(1)])

lemma default_round:
  assumes "float_json_round lib" "time_round lib" "def_Validate d dt = None"
    and static: "\<And>v. Static d = Some v \<Longrightarrow> wf_value lib v \<and> in_years v"
    and amount: "\<And>x. def_Dynamic d = Some x \<Longrightarrow> in_int64 (dyn_Amount x)"
  shows "\<exists>j. Default_MarshalJSON lib d = Inr j \<and> Default_UnmarshalJSON lib (Raw j) = Inr d"
proof (cases "Static d")
  case None
  with assms(3) obtain x where x: "def_Dynamic d = Some x" "dyn_Validate x dt = None"
    by (auto simp: def_Validate_def split: option.splits)
  from dynamic_round [OF x(2) amount [OF x(1)]] None x(1)
  show ?thesis
    by (cases d) (simp add: Default_MarshalJSON_def Default_UnmarshalJSON_def decode_struct_def default_member_def
        key_is_self Let_def)
next
  case (Some v)
  with assms(3) have nd: "def_Dynamic d = None" by (auto simp: def_Validate_def split: option.splits)
  from static [OF Some] have v: "wf_value lib v" "in_years v" by auto
  from typed_round [OF assms(1,2) v] obtain raw
    where raw: "MarshalTyped lib v = Inr raw" "UnmarshalTypedValue lib raw = Inr v" by blast
  from raw(2) wf_not_zero [OF v(1)] have nz: "raw \<noteq> RawNil" "raw \<noteq> Raw JNull"
    by (auto simp: UnmarshalTypedValue_def split: if_splits)
  from raw(1) wf_not_zero [OF v(1)] obtain j where "raw = Raw j"
    by (cases "MarshalJSON lib v") (auto simp: MarshalTyped_def)
  with raw nz nd Some show ?thesis
    by (cases d) (simp add: Default_MarshalJSON_def Default_UnmarshalJSON_def decode_struct_def default_member_def
        key_is_self Let_def raw_json_def)
qed

end
