(* ===== verification/Float_Arith.thy ===== *)
theory Float_Arith
  imports Go_Runtime "HOL-Library.Log_Nat"
begin

text \<open>
  IEEE 754 double arithmetic on \<^typ>\<open>float64\<close>: the exact rational result of an operation is
  rounded to 53 significant bits, ties to even, with gradual underflow at \<open>2 ^ -1074\<close> and
  overflow to infinity at \<open>2 ^ 1024\<close>; zeros carry a sign.
\<close>

definition pow2 :: "int \<Rightarrow> rat" where
  "pow2 e = (if 0 \<le> e then 2 ^ nat e else 1 / 2 ^ nat (- e))"

definition round_even :: "rat \<Rightarrow> int" where
  "round_even x =
     (let f = \<lfloor>x\<rfloor>; d = x - of_int f
      in if d < 1 / 2 then f else if 1 / 2 < d then f + 1 else if even f then f else f + 1)"

text \<open>The exponent of the last kept bit: \<open>2 ^ 52 \<le> \<bar>r\<bar> / 2 ^ e < 2 ^ 53\<close> for a normal number.\<close>

definition ulp_exp :: "rat \<Rightarrow> int" where
  "ulp_exp r =
     (let (n, d) = quotient_of \<bar>r\<bar>;
          e = int (floorlog 2 (nat n)) - int (floorlog 2 (nat d)) - 53;
          e' = (if \<bar>r\<bar> / pow2 e < 2 ^ 52 then e - 1 else if 2 ^ 53 \<le> \<bar>r\<bar> / pow2 e then e + 1 else e)
      in max e' (-1074))"

definition f_zero :: "bool \<Rightarrow> float64" where
  "f_zero neg = (if neg then FNegZero else FFin 0)"

definition f_round :: "bool \<Rightarrow> rat \<Rightarrow> float64" where
  "f_round neg0 r =
     (if r = 0 then f_zero neg0
      else let e = ulp_exp r; v = of_int (round_even (\<bar>r\<bar> / pow2 e)) * pow2 e
           in if v = 0 then f_zero (r < 0)
              else if 2 ^ 1024 \<le> v then FInf (r < 0)
              else FFin (if r < 0 then - v else v))"

fun f_neg :: "float64 \<Rightarrow> float64" where
  "f_neg FNaN = FNaN"
| "f_neg (FInf b) = FInf (\<not> b)"
| "f_neg FNegZero = FFin 0"
| "f_neg (FFin r) = (if r = 0 then FNegZero else FFin (- r))"

fun f_sign :: "float64 \<Rightarrow> bool" where
  "f_sign FNaN = False"
| "f_sign (FInf b) = b"
| "f_sign FNegZero = True"
| "f_sign (FFin r) = (r < 0)"

fun f_rat :: "float64 \<Rightarrow> rat" where
  "f_rat (FFin r) = r"
| "f_rat _ = 0"

fun f_add :: "float64 \<Rightarrow> float64 \<Rightarrow> float64" where
  "f_add FNaN _ = FNaN"
| "f_add _ FNaN = FNaN"
| "f_add (FInf a) (FInf b) = (if a = b then FInf a else FNaN)"
| "f_add (FInf a) _ = FInf a"
| "f_add _ (FInf b) = FInf b"
| "f_add a b = f_round (f_sign a \<and> f_sign b) (f_rat a + f_rat b)"

definition f_sub :: "float64 \<Rightarrow> float64 \<Rightarrow> float64" where
  "f_sub a b = f_add a (f_neg b)"

definition f_is_zero :: "float64 \<Rightarrow> bool" where
  "f_is_zero a \<longleftrightarrow> f_eq a (FFin 0)"

fun f_mul :: "float64 \<Rightarrow> float64 \<Rightarrow> float64" where
  "f_mul FNaN _ = FNaN"
| "f_mul _ FNaN = FNaN"
| "f_mul (FInf a) b = (if f_is_zero b then FNaN else FInf (a \<noteq> f_sign b))"
| "f_mul a (FInf b) = (if f_is_zero a then FNaN else FInf (f_sign a \<noteq> b))"
| "f_mul a b = f_round (f_sign a \<noteq> f_sign b) (f_rat a * f_rat b)"

fun f_div :: "float64 \<Rightarrow> float64 \<Rightarrow> float64" where
  "f_div FNaN _ = FNaN"
| "f_div _ FNaN = FNaN"
| "f_div (FInf a) (FInf b) = FNaN"
| "f_div (FInf a) b = FInf (a \<noteq> f_sign b)"
| "f_div a (FInf b) = f_zero (f_sign a \<noteq> b)"
| "f_div a b =
     (if f_is_zero b then (if f_is_zero a then FNaN else FInf (f_sign a \<noteq> f_sign b))
      else f_round (f_sign a \<noteq> f_sign b) (f_rat a / f_rat b))"

definition f_of_int :: "int \<Rightarrow> float64" where
  "f_of_int i = f_round False (of_int i)"

section \<open>Overflow\<close>

lemma pow2_powi: "pow2 e = 2 powi e"
  by (simp add: pow2_def power_int_def inverse_eq_divide power_divide)

lemma pow2_shift: "pow2 (a + b) = pow2 a * pow2 b" "0 < pow2 a" "pow2 a < pow2 b \<longleftrightarrow> a < b" "pow2 a \<le> pow2 b \<longleftrightarrow> a \<le> b"
proof -
  show lt: "pow2 a < pow2 b \<longleftrightarrow> a < b" for a b
  proof -
    have "x < y \<Longrightarrow> pow2 x < pow2 y" for x y unfolding pow2_powi by (rule power_int_strict_increasing) simp_all
    then show ?thesis by (metis less_asym linorder_neqE)
  qed
  show "pow2 a \<le> pow2 b \<longleftrightarrow> a \<le> b" using lt [of b a] by (simp add: not_less [symmetric])
qed (simp_all add: pow2_powi power_int_add)

lemma pow2_nat: "pow2 (int n) = 2 ^ n"
  by (simp add: pow2_def)

lemma quotient_bounds:
  assumes "0 < r" "quotient_of r = (n, d)" "e = int (floorlog 2 (nat n)) - int (floorlog 2 (nat d)) - 53"
  shows "pow2 (e + 52) \<le> r" "r < pow2 (e + 54)"
proof -
  from assms(2) have d: "0 < d" by (rule quotient_of_denom_pos)
  from assms(2) have r: "r = of_int n / of_int d" by (rule quotient_of_div)
  with d assms(1) have n: "0 < n" by (simp add: zero_less_divide_iff)
  define L M where "L = floorlog 2 (nat n)" and "M = floorlog 2 (nat d)"
  have L: "2 ^ (L - 1) \<le> nat n" "nat n < 2 ^ L" "0 < L" using floorlog_bounds [of "nat n" 2] n by (auto simp: L_def floorlog_eq_zero_iff zero_less_iff_neq_zero)
  have M: "2 ^ (M - 1) \<le> nat d" "nat d < 2 ^ M" "0 < M" using floorlog_bounds [of "nat d" 2] d by (auto simp: M_def floorlog_eq_zero_iff zero_less_iff_neq_zero)
  have q: "of_nat (nat n) = (of_int n :: rat)" "of_nat (nat d) = (of_int d :: rat)" using n d by simp_all
  have lo: "pow2 (int L - 1) \<le> of_int n" "of_int d < pow2 (int M)"
    using L(1,3) M(2) of_nat_le_iff [of "2 ^ (L - 1)" "nat n", where 'a = rat] of_nat_less_iff [of "nat d" "2 ^ M", where 'a = rat]
    by (simp_all add: q pow2_nat of_nat_diff [symmetric] pow2_def nat_diff_distrib)
  have hi: "of_int n < pow2 (int L)" "pow2 (int M - 1) \<le> of_int d"
    using L(2) M(1,3) of_nat_le_iff [of "2 ^ (M - 1)" "nat d", where 'a = rat] of_nat_less_iff [of "nat n" "2 ^ L", where 'a = rat]
    by (simp_all add: q pow2_nat of_nat_diff [symmetric] pow2_def nat_diff_distrib)
  have "pow2 (e + 52) * of_int d \<le> pow2 (e + 52) * pow2 (int M)"
    using lo(2) pow2_shift(2) by (intro mult_left_mono) (auto intro: less_imp_le)
  also have "\<dots> = pow2 (int L - 1)" by (simp add: pow2_shift(1) [symmetric] assms(3) L_def M_def)
  finally show "pow2 (e + 52) \<le> r" using lo(1) d by (simp add: r field_simps)
  have "of_int n < pow2 (e + 54) * pow2 (int M - 1)" using hi(1) by (simp add: pow2_shift(1) [symmetric] assms(3) L_def M_def)
  also have "\<dots> \<le> pow2 (e + 54) * of_int d" using hi(2) pow2_shift(2) by (intro mult_left_mono) (auto intro: less_imp_le)
  finally show "r < pow2 (e + 54)" using d by (simp add: r field_simps)
qed

lemma round_even_ge: "of_int m \<le> x \<Longrightarrow> m \<le> round_even x"
proof -
  assume "of_int m \<le> x"
  then have "m \<le> \<lfloor>x\<rfloor>" by (simp add: le_floor_iff)
  then show ?thesis by (simp add: round_even_def Let_def)
qed

lemma f_round_overflow:
  assumes "2 ^ 1024 \<le> r"
  shows "f_round neg0 r = FInf False"
proof -
  obtain n d where q: "quotient_of r = (n, d)" by (cases "quotient_of r")
  define e where "e = int (floorlog 2 (nat n)) - int (floorlog 2 (nat d)) - 53"
  have r: "0 < r" using assms by (rule less_le_trans [rotated]) simp
  note b = quotient_bounds [OF r q e_def]
  have p: "0 < pow2 e" by (rule pow2_shift(2))
  have "pow2 1024 < pow2 (e + 54)" using assms b(2) by (simp add: pow2_def)
  then have e: "970 < e" by (simp add: pow2_shift(3))
  have "2 ^ 52 \<le> r / pow2 e" using b(1) p by (simp add: pow2_shift(1) pow2_def [of 52] field_simps)
  then have u: "ulp_exp r = (if 2 ^ 53 \<le> r / pow2 e then e + 1 else e)"
    using e r by (simp add: ulp_exp_def q e_def [symmetric] Let_def not_less)
  have y: "2 ^ 52 \<le> r / pow2 (ulp_exp r)" "972 \<le> ulp_exp r"
  proof -
    show "2 ^ 52 \<le> r / pow2 (ulp_exp r)" using \<open>2 ^ 52 \<le> r / pow2 e\<close> p
      by (auto simp: u pow2_shift(1) pow2_def [of 1] field_simps)
    show "972 \<le> ulp_exp r"
    proof (rule ccontr)
      assume "\<not> 972 \<le> ulp_exp r"
      then have "e = 971" "\<not> 2 ^ 53 \<le> r / pow2 e" using e by (auto simp: u split: if_splits)
      then have "r < pow2 53 * pow2 971" using p by (simp add: pow2_def [of 53] field_simps)
      then show False using assms by (simp add: pow2_shift(1) [symmetric] pow2_def)
    qed
  qed
  have "of_int (2 ^ 52) \<le> r / pow2 (ulp_exp r)" using y(1) by simp
  from round_even_ge [OF this] have "2 ^ 52 \<le> round_even (r / pow2 (ulp_exp r))" .
  then have "(2 ^ 52 :: rat) \<le> of_int (round_even (r / pow2 (ulp_exp r)))" by (metis of_int_le_iff of_int_power of_int_numeral)
  moreover have "pow2 972 \<le> pow2 (ulp_exp r)" using y(2) by (simp add: pow2_shift(4))
  ultimately have "2 ^ 52 * pow2 972 \<le> of_int (round_even (r / pow2 (ulp_exp r))) * pow2 (ulp_exp r)"
    by (intro mult_mono) (auto intro: less_imp_le pow2_shift(2))
  then have v: "2 ^ 1024 \<le> of_int (round_even (r / pow2 (ulp_exp r))) * pow2 (ulp_exp r)" by (simp add: pow2_def [of 972])
  then have "of_int (round_even (r / pow2 (ulp_exp r))) * pow2 (ulp_exp r) \<noteq> 0" by (auto simp: not_le)
  with v r show ?thesis by (simp add: f_round_def Let_def)
qed

end
