(* ===== verification/Formula.thy ===== *)
theory Formula
  imports Float_Arith Values
begin

text \<open>
  The formula language of computed attributes (\<^verbatim>\<open>pkg/formula/formula.go\<close>): the lexer that
  holds one token, the recursive-descent parser that records the referenced names, and the
  two evaluators, in float64 and in exact rationals.

  The parser's recursion is bounded by a fuel argument; \<open>None\<close> is running out of it.
  \<open>formula_Parse\<close> supplies an amount that is proved to be enough for every source text.
\<close>

section \<open>Characters as the unicode package classifies a single byte\<close>

definition byte_of :: "char \<Rightarrow> nat" where "byte_of c = of_char c"

definition is_space :: "char \<Rightarrow> bool" where
  "is_space c \<longleftrightarrow> (9 \<le> byte_of c \<and> byte_of c \<le> 13) \<or> byte_of c = 32 \<or> byte_of c = 0x85 \<or> byte_of c = 0xA0"

definition is_letter :: "char \<Rightarrow> bool" where
  "is_letter c \<longleftrightarrow>
     (65 \<le> byte_of c \<and> byte_of c \<le> 90) \<or> (97 \<le> byte_of c \<and> byte_of c \<le> 122) \<or>
     byte_of c = 0xAA \<or> byte_of c = 0xB5 \<or> byte_of c = 0xBA \<or>
     (0xC0 \<le> byte_of c \<and> byte_of c \<noteq> 0xD7 \<and> byte_of c \<noteq> 0xF7)"

section \<open>Expressions\<close>

datatype Aggregate = AggSum | AggCount | AggAvg | AggMin | AggMax

definition aggregates :: "string \<Rightarrow> Aggregate option" where
  "aggregates = map_of [(''sum'', AggSum), (''count'', AggCount), (''avg'', AggAvg),
     (''min'', AggMin), (''max'', AggMax)]"

datatype fnode =
    NumNode float64 string
  | RefNode string
  | AggNode Aggregate string
  | BinNode char fnode fnode
  | NegNode fnode

record fexpr =
  root :: fnode
  refs :: "string list"
  scalarRefs :: "string list"
  numericRefs :: "string list"

type_synonym finputs = "string \<Rightarrow> float64 list option"
type_synonym ratinputs = "string \<Rightarrow> rat option list option"
type_synonym members = "(string \<Rightarrow> int option) option"   \<comment> \<open>\<open>None\<close> is the nil map\<close>

definition list_at :: "('k \<Rightarrow> 'a list option) \<Rightarrow> 'k \<Rightarrow> 'a list" where
  "list_at m k = (case m k of Some xs \<Rightarrow> xs | None \<Rightarrow> [])"

definition agg_count :: "string \<Rightarrow> nat \<Rightarrow> members \<Rightarrow> int" where
  "agg_count name numeric ms =
     (case ms of None \<Rightarrow> int numeric
      | Some m \<Rightarrow> (case m name of Some n \<Rightarrow> n | None \<Rightarrow> 0))"

definition agg_eval :: "Aggregate \<Rightarrow> string \<Rightarrow> finputs \<Rightarrow> members \<Rightarrow> float64 option" where
  "agg_eval fn name vars ms =
     (let vals = list_at vars name
      in if fn = AggCount then Some (f_of_int (agg_count name (length vals) ms))
         else if vals = [] then None
         else (case fn of
             AggSum \<Rightarrow> Some (foldl f_add (FFin 0) vals)
           | AggAvg \<Rightarrow> Some (f_div (foldl f_add (FFin 0) vals) (f_of_int (int (length vals))))
           | AggMin \<Rightarrow> Some (foldl (\<lambda>best v. if f_lt v best then v else best) (hd vals) (tl vals))
           | AggMax \<Rightarrow> Some (foldl (\<lambda>best v. if f_lt best v then v else best) (hd vals) (tl vals))
           | AggCount \<Rightarrow> None))"

fun feval :: "fnode \<Rightarrow> finputs \<Rightarrow> members \<Rightarrow> float64 option" where
  "feval (NumNode f _) vars ms = Some f"
| "feval (RefNode r) vars ms =
     (case vars r of Some [v] \<Rightarrow> Some v | _ \<Rightarrow> None)"
| "feval (AggNode fn name) vars ms = agg_eval fn name vars ms"
| "feval (BinNode op l r) vars ms =
     (case feval l vars ms of None \<Rightarrow> None
      | Some a \<Rightarrow> (case feval r vars ms of None \<Rightarrow> None
        | Some b \<Rightarrow>
            if op = CHR ''+'' then Some (f_add a b)
            else if op = CHR ''-'' then Some (f_sub a b)
            else if op = CHR ''*'' then Some (f_mul a b)
            else if op = CHR ''/'' then (if f_is_zero b then None else Some (f_div a b))
            else None))"
| "feval (NegNode n) vars ms = map_option f_neg (feval n vars ms)"

definition agg_evalRat :: "Aggregate \<Rightarrow> string \<Rightarrow> ratinputs \<Rightarrow> members \<Rightarrow> rat option" where
  "agg_evalRat fn name vars ms =
     (let vals = list_at vars name
      in if fn = AggCount then Some (of_int (agg_count name (length vals) ms))
         else if vals = [] then None
         else if None \<in> set vals then None
         else let rs = map the vals
              in (case fn of
                  AggSum \<Rightarrow> Some (foldl (+) 0 rs)
                | AggAvg \<Rightarrow> Some (foldl (+) 0 rs / of_nat (length rs))
                | AggMin \<Rightarrow> Some (foldl (\<lambda>best v. if v < best then v else best) (hd rs) (tl rs))
                | AggMax \<Rightarrow> Some (foldl (\<lambda>best v. if best < v then v else best) (hd rs) (tl rs))
                | AggCount \<Rightarrow> None))"

fun evalRat :: "golib \<Rightarrow> fnode \<Rightarrow> ratinputs \<Rightarrow> members \<Rightarrow> rat option" where
  "evalRat lib (NumNode _ text) vars ms = rat_set_string lib text"
| "evalRat lib (RefNode r) vars ms =
     (case vars r of Some [Some v] \<Rightarrow> Some v | _ \<Rightarrow> None)"
| "evalRat lib (AggNode fn name) vars ms = agg_evalRat fn name vars ms"
| "evalRat lib (BinNode op l r) vars ms =
     (case evalRat lib l vars ms of None \<Rightarrow> None
      | Some a \<Rightarrow> (case evalRat lib r vars ms of None \<Rightarrow> None
        | Some b \<Rightarrow>
            if op = CHR ''+'' then Some (a + b)
            else if op = CHR ''-'' then Some (a - b)
            else if op = CHR ''*'' then Some (a * b)
            else if op = CHR ''/'' then (if b = 0 then None else Some (a / b))
            else None))"
| "evalRat lib (NegNode n) vars ms = map_option uminus (evalRat lib n vars ms)"

definition Eval :: "fexpr \<Rightarrow> finputs \<Rightarrow> float64 option" where
  "Eval e vars = feval (root e) vars None"

definition EvalWithMembers :: "fexpr \<Rightarrow> finputs \<Rightarrow> members \<Rightarrow> float64 option" where
  "EvalWithMembers e vars ms = feval (root e) vars ms"

definition EvalRat :: "golib \<Rightarrow> fexpr \<Rightarrow> ratinputs \<Rightarrow> rat option" where
  "EvalRat lib e vars = evalRat lib (root e) vars None"

definition EvalRatWithMembers :: "golib \<Rightarrow> fexpr \<Rightarrow> ratinputs \<Rightarrow> members \<Rightarrow> rat option" where
  "EvalRatWithMembers lib e vars ms = evalRat lib (root e) vars ms"

section \<open>The lexer\<close>

datatype tokKind = tokEOF | tokNum | tokIdent | tokOp | tokLParen | tokRParen | tokInvalid

record ftoken =
  ft_kind :: tokKind
  ft_text :: string

text \<open>The parser's state: the text from \<^verbatim>\<open>pos\<close> on, the current token and the names recorded so
  far. The \<^verbatim>\<open>seen\<close> maps hold exactly the names of the three lists.\<close>

record fparser =
  fp_rest :: string
  fp_tok :: ftoken
  fp_refs :: "string list"
  fp_scalarRefs :: "string list"
  fp_numericRefs :: "string list"

definition ident_char :: "char \<Rightarrow> bool" where
  "ident_char c \<longleftrightarrow> is_letter c \<or> is_digit c \<or> c = CHR ''_''"

definition num_char :: "char \<Rightarrow> bool" where
  "num_char c \<longleftrightarrow> is_digit c \<or> c = CHR ''.''"

definition fp_next :: "fparser \<Rightarrow> fparser" where
  "fp_next p =
     (case dropWhile is_space (fp_rest p) of
        [] \<Rightarrow> p\<lparr>fp_rest := [], fp_tok := \<lparr>ft_kind = tokEOF, ft_text = []\<rparr>\<rparr>
      | c # cs \<Rightarrow>
          if c = CHR ''('' then p\<lparr>fp_rest := cs, fp_tok := \<lparr>ft_kind = tokLParen, ft_text = [c]\<rparr>\<rparr>
          else if c = CHR '')'' then p\<lparr>fp_rest := cs, fp_tok := \<lparr>ft_kind = tokRParen, ft_text = [c]\<rparr>\<rparr>
          else if c \<in> set ''+-*/'' then p\<lparr>fp_rest := cs, fp_tok := \<lparr>ft_kind = tokOp, ft_text = [c]\<rparr>\<rparr>
          else if num_char c then
            p\<lparr>fp_rest := dropWhile num_char (c # cs),
              fp_tok := \<lparr>ft_kind = tokNum, ft_text = takeWhile num_char (c # cs)\<rparr>\<rparr>
          else if is_letter c \<or> c = CHR ''_'' then
            p\<lparr>fp_rest := dropWhile ident_char (c # cs),
              fp_tok := \<lparr>ft_kind = tokIdent, ft_text = takeWhile ident_char (c # cs)\<rparr>\<rparr>
          else p\<lparr>fp_rest := cs, fp_tok := \<lparr>ft_kind = tokInvalid, ft_text = [c]\<rparr>\<rparr>)"

definition peekIsLParen :: "fparser \<Rightarrow> bool" where
  "peekIsLParen p = (case dropWhile is_space (fp_rest p) of c # _ \<Rightarrow> c = CHR ''('' | [] \<Rightarrow> False)"

section \<open>The parser\<close>

definition add_name :: "string \<Rightarrow> string list \<Rightarrow> string list" where
  "add_name n xs = (if n \<in> set xs then xs else xs @ [n])"

definition recordNumericRef :: "string \<Rightarrow> fparser \<Rightarrow> fparser" where
  "recordNumericRef name p = p\<lparr>fp_numericRefs := add_name name (fp_numericRefs p)\<rparr>"

definition recordRef :: "string \<Rightarrow> bool \<Rightarrow> fparser \<Rightarrow> fparser" where
  "recordRef name bare p =
     (let p = p\<lparr>fp_refs := add_name name (fp_refs p)\<rparr>
      in if \<not> bare then p else p\<lparr>fp_scalarRefs := add_name name (fp_scalarRefs p)\<rparr>)"

type_synonym fresult = "(fnode \<times> fparser) result"

definition parseCall :: "Aggregate \<Rightarrow> fparser \<Rightarrow> fresult" where
  "parseCall fn p0 =
     (let p = fp_next p0
      in if ft_kind (fp_tok p) \<noteq> tokLParen
         then Inl (PlainErr ''%s expects ( followed by an attribute name'')
         else let p = fp_next p
              in if ft_kind (fp_tok p) \<noteq> tokIdent then Inl (PlainErr ''%s expects a single attribute name'')
                 else let name = ft_text (fp_tok p)
                      in if aggregates name \<noteq> None \<and> peekIsLParen p
                         then Inl (PlainErr ''%s cannot aggregate another aggregate'')
                         else let p = recordRef name False p;
                                  p = (if fn \<noteq> AggCount then recordNumericRef name p else p);
                                  p = fp_next p
                              in if ft_kind (fp_tok p) \<noteq> tokRParen
                                 then Inl (PlainErr ''expected ) after %s(%s'')
                                 else Inr (AggNode fn name, fp_next p))"

definition op_in :: "string \<Rightarrow> fparser \<Rightarrow> char option" where
  "op_in ops p =
     (if ft_kind (fp_tok p) = tokOp then
        (case ft_text (fp_tok p) of [c] \<Rightarrow> if c \<in> set ops then Some c else None | _ \<Rightarrow> None)
      else None)"

fun parseExpr :: "golib \<Rightarrow> nat \<Rightarrow> fparser \<Rightarrow> fresult option"
and exprLoop :: "golib \<Rightarrow> nat \<Rightarrow> fnode \<Rightarrow> fparser \<Rightarrow> fresult option"
and parseTerm :: "golib \<Rightarrow> nat \<Rightarrow> fparser \<Rightarrow> fresult option"
and termLoop :: "golib \<Rightarrow> nat \<Rightarrow> fnode \<Rightarrow> fparser \<Rightarrow> fresult option"
and parseFactor :: "golib \<Rightarrow> nat \<Rightarrow> fparser \<Rightarrow> fresult option" where
  "parseExpr lib 0 p = None"
| "parseExpr lib (Suc n) p =
     (case parseTerm lib n p of None \<Rightarrow> None
      | Some (Inl e) \<Rightarrow> Some (Inl e)
      | Some (Inr (left, p')) \<Rightarrow> exprLoop lib n left p')"
| "exprLoop lib 0 left p = None"
| "exprLoop lib (Suc n) left p =
     (case op_in ''+-'' p of None \<Rightarrow> Some (Inr (left, p))
      | Some op \<Rightarrow>
          (case parseTerm lib n (fp_next p) of None \<Rightarrow> None
           | Some (Inl e) \<Rightarrow> Some (Inl e)
           | Some (Inr (right, p')) \<Rightarrow> exprLoop lib n (BinNode op left right) p'))"
| "parseTerm lib 0 p = None"
| "parseTerm lib (Suc n) p =
     (case parseFactor lib n p of None \<Rightarrow> None
      | Some (Inl e) \<Rightarrow> Some (Inl e)
      | Some (Inr (left, p')) \<Rightarrow> termLoop lib n left p')"
| "termLoop lib 0 left p = None"
| "termLoop lib (Suc n) left p =
     (case op_in ''*/'' p of None \<Rightarrow> Some (Inr (left, p))
      | Some op \<Rightarrow>
          (case parseFactor lib n (fp_next p) of None \<Rightarrow> None
           | Some (Inl e) \<Rightarrow> Some (Inl e)
           | Some (Inr (right, p')) \<Rightarrow> termLoop lib n (BinNode op left right) p'))"
| "parseFactor lib 0 p = None"
| "parseFactor lib (Suc n) p =
     (case ft_kind (fp_tok p) of
        tokOp \<Rightarrow>
          (if ft_text (fp_tok p) = ''-'' then
             (case parseFactor lib n (fp_next p) of None \<Rightarrow> None
              | Some (Inl e) \<Rightarrow> Some (Inl e)
              | Some (Inr (inner, p')) \<Rightarrow> Some (Inr (NegNode inner, p')))
           else Some (Inl (PlainErr ''unexpected operator %q'')))
      | tokNum \<Rightarrow>
          (case float_parse lib (ft_text (fp_tok p)) of
             None \<Rightarrow> Some (Inl (PlainErr ''invalid number %q''))
           | Some f \<Rightarrow> Some (Inr (NumNode f (ft_text (fp_tok p)), fp_next p)))
      | tokIdent \<Rightarrow>
          (let name = ft_text (fp_tok p)
           in (case (if peekIsLParen p then aggregates name else None) of
                 Some fn \<Rightarrow> Some (parseCall fn p)
               | None \<Rightarrow>
                   Some (Inr (RefNode name, fp_next (recordNumericRef name (recordRef name True p))))))
      | tokLParen \<Rightarrow>
          (case parseExpr lib n (fp_next p) of None \<Rightarrow> None
           | Some (Inl e) \<Rightarrow> Some (Inl e)
           | Some (Inr (inner, p')) \<Rightarrow>
               (if ft_kind (fp_tok p') \<noteq> tokRParen then Some (Inl (PlainErr ''expected )''))
                else Some (Inr (inner, fp_next p'))))
      | _ \<Rightarrow> Some (Inl (PlainErr ''unexpected %q in formula'')))"

definition start_parser :: "string \<Rightarrow> fparser" where
  "start_parser s = fp_next \<lparr>fp_rest = s, fp_tok = \<lparr>ft_kind = tokEOF, ft_text = []\<rparr>,
     fp_refs = [], fp_scalarRefs = [], fp_numericRefs = []\<rparr>"

definition parse_fuel :: "string \<Rightarrow> nat" where
  "parse_fuel s = 3 * length s + 4"

definition formula_Parse :: "golib \<Rightarrow> string \<Rightarrow> fexpr result option" where
  "formula_Parse lib s =
     (case parseExpr lib (parse_fuel s) (start_parser s) of None \<Rightarrow> None
      | Some (Inl e) \<Rightarrow> Some (Inl e)
      | Some (Inr (n, p)) \<Rightarrow>
          if ft_kind (fp_tok p) \<noteq> tokEOF then Some (Inl (PlainErr ''unexpected %q in formula''))
          else Some (Inr \<lparr>root = n, refs = fp_refs p, scalarRefs = fp_scalarRefs p,
                 numericRefs = fp_numericRefs p\<rparr>))"

section \<open>Termination: the fuel is enough\<close>

definition todo :: "fparser \<Rightarrow> nat" where
  "todo p = length (fp_rest p) + (if ft_kind (fp_tok p) = tokEOF then 0 else 1)"

lemma length_dropWhile_Cons: "P c \<Longrightarrow> length (dropWhile P (c # cs)) \<le> length cs"
  by (simp add: length_dropWhile_le)

lemma todo_next_rest: "todo (fp_next p) \<le> length (fp_rest p)"
proof (cases "dropWhile is_space (fp_rest p)")
  case Nil
  show ?thesis unfolding fp_next_def Nil by (simp add: todo_def)
next
  case (Cons c cs)
  have l: "length (c # cs) \<le> length (fp_rest p)"
    using length_dropWhile_le [of is_space "fp_rest p"] Cons by simp
  have id: "is_letter c \<or> c = CHR ''_'' \<Longrightarrow> ident_char c" by (auto simp: ident_char_def)
  show ?thesis
    unfolding fp_next_def Cons
    using l id length_dropWhile_Cons [of num_char c cs] length_dropWhile_Cons [of ident_char c cs]
    by (auto simp: todo_def simp del: dropWhile.simps)
qed

lemma todo_next: "ft_kind (fp_tok p) \<noteq> tokEOF \<Longrightarrow> todo (fp_next p) < todo p"
  using todo_next_rest [of p] by (simp add: todo_def)

lemma todo_next_le: "todo (fp_next p) \<le> todo p"
  using todo_next_rest [of p] by (simp add: todo_def)

lemma todo_record [simp]:
  "todo (recordRef n b p) = todo p" "todo (recordNumericRef n p) = todo p"
  by (simp_all add: todo_def recordRef_def recordNumericRef_def Let_def)

lemma tok_record [simp]:
  "fp_tok (recordRef n b p) = fp_tok p" "fp_tok (recordNumericRef n p) = fp_tok p"
  by (simp_all add: recordRef_def recordNumericRef_def Let_def)

lemma parseCall_todo:
  assumes "ft_kind (fp_tok p) \<noteq> tokEOF" "parseCall fn p = Inr (x, p')"
  shows "todo p' < todo p"
proof -
  let ?p1 = "fp_next p" and ?p2 = "fp_next (fp_next p)"
  let ?p3 = "\<lambda>q. fp_next (fp_next q)"
  have "todo ?p2 < todo p"
    using todo_next [OF assms(1)] todo_next_le [of ?p1] by simp
  moreover have "todo (?p3 q) \<le> todo q" for q
    using todo_next_le [of q] todo_next_le [of "fp_next q"] by simp
  ultimately show ?thesis
    using assms(2)
    by (auto simp: parseCall_def Let_def split: if_splits intro: le_less_trans [of _ "todo ?p2"])
       (metis le_less_trans todo_record)+
qed

lemma op_in_Some: "op_in ops p = Some c \<Longrightarrow> ft_kind (fp_tok p) = tokOp \<and> c \<in> set ops"
  by (auto simp: op_in_def split: if_splits list.splits)

definition ends :: "fresult option \<Rightarrow> (nat \<Rightarrow> bool) \<Rightarrow> bool" where
  "ends r Q \<longleftrightarrow> (case r of None \<Rightarrow> False | Some (Inl _) \<Rightarrow> True | Some (Inr (_, p)) \<Rightarrow> Q (todo p))"

lemma ends_simps [simp]:
  "\<not> ends None Q" "ends (Some (Inl e)) Q" "ends (Some (Inr (x, p))) Q \<longleftrightarrow> Q (todo p)"
  by (simp_all add: ends_def)

lemma ends_bind:
  assumes "ends r Q" and "\<And>x p. Q (todo p) \<Longrightarrow> ends (k x p) R"
  shows "ends (case r of None \<Rightarrow> None | Some (Inl e) \<Rightarrow> Some (Inl e) | Some (Inr (x, p)) \<Rightarrow> k x p) R"
proof (cases r)
  case (Some x)
  with assms show ?thesis by (cases x) (auto split: prod.split)
qed (use assms in simp)

lemma ends_mono: "ends r Q \<Longrightarrow> (\<And>m. Q m \<Longrightarrow> R m) \<Longrightarrow> ends r R"
  by (auto simp: ends_def split: option.splits sum.splits)

lemma parse_ends:
  "3 * todo p + 3 \<le> n \<Longrightarrow> ends (parseExpr lib n p) (\<lambda>m. m < todo p)"
  "3 * todo p + 1 \<le> n \<Longrightarrow> ends (exprLoop lib n left p) (\<lambda>m. m \<le> todo p)"
  "3 * todo p + 2 \<le> n \<Longrightarrow> ends (parseTerm lib n p) (\<lambda>m. m < todo p)"
  "3 * todo p + 1 \<le> n \<Longrightarrow> ends (termLoop lib n left p) (\<lambda>m. m \<le> todo p)"
  "3 * todo p + 1 \<le> n \<Longrightarrow> ends (parseFactor lib n p) (\<lambda>m. m < todo p)"
proof (induction n arbitrary: p left)
  case 0
  { case 1 then show ?case by simp next
    case 2 then show ?case by simp next
    case 3 then show ?case by simp next
    case 4 then show ?case by simp next
    case 5 then show ?case by simp }
next
  case (Suc n)
  have loop: "ends (exprLoop lib n l q) (\<lambda>m. m < k) \<and> ends (termLoop lib n l q) (\<lambda>m. m < k)"
    if "todo q < k" "3 * k \<le> n + 2" for l q k
    using Suc.IH(2) [of q l] Suc.IH(4) [of q l] that by (auto elim!: ends_mono)
  have step: "todo (fp_next q) < todo q" if "ft_kind (fp_tok q) \<noteq> tokEOF" for q
    using that by (rule todo_next)
  { case 1
    then show ?case
      using Suc.IH(3) [of p] loop [of _ "todo p"] by (auto intro!: ends_bind)
  next
    case 2
    show ?case
    proof (cases "op_in ''+-'' p")
      case (Some op)
      have less: "todo (fp_next p) < todo p" using op_in_Some [OF Some] by (intro step) simp
      have first: "ends (parseTerm lib n (fp_next p)) (\<lambda>m. m < todo p)"
        by (rule ends_mono [OF Suc.IH(3)]) (use "2" less in auto)
      have "ends (exprLoop lib n l q) (\<lambda>m. m \<le> todo p)" if "todo q < todo p" for l q
        using loop [OF that, of l] "2" by (auto elim!: ends_mono)
      with first Some show ?thesis
        by (auto intro!: ends_bind [where Q = "\<lambda>m. m < todo p"])
    qed simp
  next
    case 3
    then show ?case
      using Suc.IH(5) [of p] loop [of _ "todo p"] by (auto intro!: ends_bind)
  next
    case 4
    show ?case
    proof (cases "op_in ''*/'' p")
      case (Some op)
      have less: "todo (fp_next p) < todo p" using op_in_Some [OF Some] by (intro step) simp
      have first: "ends (parseFactor lib n (fp_next p)) (\<lambda>m. m < todo p)"
        by (rule ends_mono [OF Suc.IH(5)]) (use "4" less in auto)
      have "ends (termLoop lib n l q) (\<lambda>m. m \<le> todo p)" if "todo q < todo p" for l q
        using loop [OF that, of l] "4" by (auto elim!: ends_mono)
      with first Some show ?thesis
        by (auto intro!: ends_bind [where Q = "\<lambda>m. m < todo p"])
    qed simp
  next
    case 5
    then have fits: "3 * todo p \<le> n" by simp
    show ?case
    proof (cases "ft_kind (fp_tok p)")
      case tokOp
      then have "ends (parseFactor lib n (fp_next p)) (\<lambda>m. m < todo p)"
        using Suc.IH(5) [of "fp_next p"] step [of p] fits by (auto elim!: ends_mono)
      with tokOp show ?thesis by (auto intro!: ends_bind [where Q = "\<lambda>m. m < todo p"])
    next
      case tokIdent
      then have "ends (Some (parseCall fn p)) (\<lambda>m. m < todo p)" for fn
        using parseCall_todo [of p fn] by (auto simp: ends_def split: sum.split)
      moreover have "todo (fp_next (recordNumericRef a (recordRef a b p))) < todo p" for a b
        using tokIdent todo_next [of "recordNumericRef a (recordRef a b p)"] by simp
      ultimately show ?thesis using tokIdent by (simp add: Let_def split: option.split)
    next
      case tokLParen
      then have inner: "ends (parseExpr lib n (fp_next p)) (\<lambda>m. m < todo p)"
        using Suc.IH(1) [of "fp_next p"] step [of p] fits by (auto elim!: ends_mono)
      have "todo (fp_next q) < todo p" if "todo q < todo p" for q
        using todo_next_le [of q] that by simp
      with tokLParen inner show ?thesis
        by (auto intro!: ends_bind [where Q = "\<lambda>m. m < todo p"])
    qed (use step [of p] in \<open>auto split: option.split\<close>) }
qed

lemma parse_fuel_enough: "parseExpr lib (parse_fuel s) (start_parser s) \<noteq> None"
proof -
  have "todo (start_parser s) \<le> length s"
    using todo_next_rest [of "\<lparr>fp_rest = s, fp_tok = \<lparr>ft_kind = tokEOF, ft_text = []\<rparr>,
      fp_refs = [], fp_scalarRefs = [], fp_numericRefs = []\<rparr>"] by (simp add: start_parser_def)
  then have "ends (parseExpr lib (parse_fuel s) (start_parser s)) (\<lambda>m. m < todo (start_parser s))"
    by (intro parse_ends(1)) (simp add: parse_fuel_def)
  then show ?thesis by (cases "parseExpr lib (parse_fuel s) (start_parser s)") simp_all
qed

lemma formula_Parse_total: "\<exists>r. formula_Parse lib s = Some r"
  using parse_fuel_enough [of lib s]
  by (auto simp: formula_Parse_def split: option.split sum.split)

section \<open>What the parser records\<close>

fun node_refs :: "fnode \<Rightarrow> string set" where
  "node_refs (NumNode _ _) = {}"
| "node_refs (RefNode r) = {r}"
| "node_refs (AggNode _ r) = {r}"
| "node_refs (BinNode _ l r) = node_refs l \<union> node_refs r"
| "node_refs (NegNode n) = node_refs n"

fun node_scalars :: "fnode \<Rightarrow> string set" where
  "node_scalars (NumNode _ _) = {}"
| "node_scalars (RefNode r) = {r}"
| "node_scalars (AggNode _ r) = {}"
| "node_scalars (BinNode _ l r) = node_scalars l \<union> node_scalars r"
| "node_scalars (NegNode n) = node_scalars n"

fun node_numerics :: "fnode \<Rightarrow> string set" where
  "node_numerics (NumNode _ _) = {}"
| "node_numerics (RefNode r) = {r}"
| "node_numerics (AggNode fn r) = (if fn = AggCount then {} else {r})"
| "node_numerics (BinNode _ l r) = node_numerics l \<union> node_numerics r"
| "node_numerics (NegNode n) = node_numerics n"

text \<open>Every operator of a parsed tree is one the evaluators know, and every literal is one
  \<^verbatim>\<open>strconv.ParseFloat\<close> accepted.\<close>

fun node_ok :: "golib \<Rightarrow> fnode \<Rightarrow> bool" where
  "node_ok lib (NumNode f t) \<longleftrightarrow> float_parse lib t = Some f"
| "node_ok lib (BinNode op l r) \<longleftrightarrow> op \<in> set ''+-*/'' \<and> node_ok lib l \<and> node_ok lib r"
| "node_ok lib (NegNode n) \<longleftrightarrow> node_ok lib n"
| "node_ok lib _ \<longleftrightarrow> True"

definition names_are :: "string set \<Rightarrow> string set \<Rightarrow> string set \<Rightarrow> fparser \<Rightarrow> bool" where
  "names_are A B C p \<longleftrightarrow>
     set (fp_refs p) = A \<and> set (fp_scalarRefs p) = B \<and> set (fp_numericRefs p) = C
     \<and> distinct (fp_refs p) \<and> distinct (fp_scalarRefs p) \<and> distinct (fp_numericRefs p)"

definition carries :: "golib \<Rightarrow> string set \<Rightarrow> string set \<Rightarrow> string set \<Rightarrow> fnode \<Rightarrow> fparser \<Rightarrow> bool" where
  "carries lib A B C n p \<longleftrightarrow> node_ok lib n \<and>
     names_are (A \<union> node_refs n) (B \<union> node_scalars n) (C \<union> node_numerics n) p"

definition yields :: "fresult option \<Rightarrow> (fnode \<Rightarrow> fparser \<Rightarrow> bool) \<Rightarrow> bool" where
  "yields r Q \<longleftrightarrow> (\<forall>n p. r = Some (Inr (n, p)) \<longrightarrow> Q n p)"

lemma yields_simps [simp]:
  "yields None Q" "yields (Some (Inl e)) Q" "yields (Some (Inr (x, p))) Q \<longleftrightarrow> Q x p"
  by (simp_all add: yields_def)

lemma yields_bind:
  assumes "yields r Q" and "\<And>x p. Q x p \<Longrightarrow> yields (k x p) R"
  shows "yields (case r of None \<Rightarrow> None | Some (Inl e) \<Rightarrow> Some (Inl e) | Some (Inr (x, p)) \<Rightarrow> k x p) R"
  using assms by (auto split: option.split sum.split)

lemma names_next [simp]: "names_are A B C (fp_next p) = names_are A B C p"
  by (simp add: names_are_def fp_next_def split: list.split)

lemma set_add_name [simp]: "set (add_name n xs) = insert n (set xs)"
  by (auto simp: add_name_def)

lemma distinct_add_name [simp]: "distinct (add_name n xs) = distinct xs"
  by (simp add: add_name_def)

lemma names_record:
  "names_are A B C p \<Longrightarrow>
     names_are (insert n A) (if b then insert n B else B) C (recordRef n b p)"
  "names_are A B C p \<Longrightarrow> names_are A B (insert n C) (recordNumericRef n p)"
  by (auto simp: names_are_def recordRef_def recordNumericRef_def Let_def)

lemma carries_call:
  assumes "names_are A B C p" shows "yields (Some (parseCall fn p)) (carries lib A B C)"
  using assms names_record(1) [of A B C "fp_next (fp_next p)" _ False]
    names_record(2) [OF names_record(1) [of A B C "fp_next (fp_next p)" _ False]]
  by (auto simp: parseCall_def Let_def carries_def)

lemma carries_bin:
  "carries lib A B C l p \<Longrightarrow> op \<in> set ''+-*/'' \<Longrightarrow>
     carries lib (A \<union> node_refs l) (B \<union> node_scalars l) (C \<union> node_numerics l) r q \<Longrightarrow>
     carries lib A B C (BinNode op l r) q"
  by (simp add: carries_def Un_assoc)

lemma carries_names:
  "carries lib A B C l p \<Longrightarrow>
     names_are (A \<union> node_refs l) (B \<union> node_scalars l) (C \<union> node_numerics l) p"
  by (simp add: carries_def)

lemma parse_carries:
  "names_are A B C p \<Longrightarrow> yields (parseExpr lib n p) (carries lib A B C)"
  "carries lib A B C l p \<Longrightarrow> yields (exprLoop lib n l p) (carries lib A B C)"
  "names_are A B C p \<Longrightarrow> yields (parseTerm lib n p) (carries lib A B C)"
  "carries lib A B C l p \<Longrightarrow> yields (termLoop lib n l p) (carries lib A B C)"
  "names_are A B C p \<Longrightarrow> yields (parseFactor lib n p) (carries lib A B C)"
proof (induction n arbitrary: p l A B C)
  case 0
  { case 1 then show ?case by simp next
    case 2 then show ?case by simp next
    case 3 then show ?case by simp next
    case 4 then show ?case by simp next
    case 5 then show ?case by simp }
next
  case (Suc n)
  { case 1
    show ?case
      by (simp, rule yields_bind [OF Suc.IH(3) [OF "1"]]) (rule Suc.IH(2))
  next
    case 2
    show ?case
    proof (cases "op_in ''+-'' p")
      case (Some op)
      have op: "op \<in> set ''+-*/''" using op_in_Some [OF Some] by auto
      have first: "yields (parseTerm lib n (fp_next p))
          (carries lib (A \<union> node_refs l) (B \<union> node_scalars l) (C \<union> node_numerics l))"
        using carries_names [OF "2"] by (intro Suc.IH(3)) simp
      show ?thesis
        unfolding exprLoop.simps Some option.case
        by (rule yields_bind [OF first], rule Suc.IH(2), rule carries_bin [OF "2" op])
    qed (use "2" in simp)
  next
    case 3
    show ?case
      by (simp, rule yields_bind [OF Suc.IH(5) [OF "3"]]) (rule Suc.IH(4))
  next
    case 4
    show ?case
    proof (cases "op_in ''*/'' p")
      case (Some op)
      have op: "op \<in> set ''+-*/''" using op_in_Some [OF Some] by auto
      have first: "yields (parseFactor lib n (fp_next p))
          (carries lib (A \<union> node_refs l) (B \<union> node_scalars l) (C \<union> node_numerics l))"
        using carries_names [OF "4"] by (intro Suc.IH(5)) simp
      show ?thesis
        unfolding termLoop.simps Some option.case
        by (rule yields_bind [OF first], rule Suc.IH(4), rule carries_bin [OF "4" op])
    qed (use "4" in simp)
  next
    case 5
    have next_p: "names_are A B C (fp_next p)" using "5" by simp
    have bare: "names_are (insert a A) (insert a B) (insert a C) (recordNumericRef a (recordRef a True p))" for a
      using names_record(2) [OF names_record(1) [OF "5", of a True], of a] by simp
    show ?case
    proof (cases "ft_kind (fp_tok p)")
      case tokOp
      then show ?thesis
        by (auto intro!: yields_bind [OF Suc.IH(5) [OF next_p]] simp: carries_def)
    next
      case tokIdent
      have "carries lib A B C (RefNode a) (fp_next (recordNumericRef a (recordRef a True p)))" for a
        using bare by (simp add: carries_def)
      with tokIdent show ?thesis
        using carries_call [OF "5"] by (simp add: Let_def split: option.split)
    next
      case tokLParen
      then show ?thesis
        by (auto intro!: yields_bind [OF Suc.IH(1) [OF next_p]] simp: carries_def)
    qed (use "5" in \<open>auto simp: carries_def split: option.split\<close>) }
qed

lemma formula_Parse_carries:
  assumes "formula_Parse lib s = Some (Inr e)"
  shows "node_ok lib (root e)" "set (refs e) = node_refs (root e)"
    "set (scalarRefs e) = node_scalars (root e)" "set (numericRefs e) = node_numerics (root e)"
    "distinct (refs e)" "distinct (scalarRefs e)" "distinct (numericRefs e)"
proof -
  have "names_are {} {} {} (start_parser s)" by (simp add: start_parser_def) (simp add: names_are_def)
  from parse_carries(1) [OF this, of lib "parse_fuel s"] assms
  show "node_ok lib (root e)" "set (refs e) = node_refs (root e)"
    "set (scalarRefs e) = node_scalars (root e)" "set (numericRefs e) = node_numerics (root e)"
    "distinct (refs e)" "distinct (scalarRefs e)" "distinct (numericRefs e)"
    by (auto simp: formula_Parse_def carries_def names_are_def yields_def
        split: option.splits sum.splits if_splits)
qed

text \<open>Both evaluators read the inputs at the node's own names only.\<close>

lemma agg_eval_cong: "vars name = vars' name \<Longrightarrow> agg_eval fn name vars ms = agg_eval fn name vars' ms"
  by (simp add: agg_eval_def list_at_def)

lemma agg_evalRat_cong:
  "vars name = vars' name \<Longrightarrow> agg_evalRat fn name vars ms = agg_evalRat fn name vars' ms"
  by (simp add: agg_evalRat_def list_at_def)

lemma evalRat_cong:
  "\<forall>r\<in>node_refs n. vars r = vars' r \<Longrightarrow> evalRat lib n vars ms = evalRat lib n vars' ms"
proof (induction n)
  case (AggNode fn r)
  then show ?case by (simp add: agg_evalRat_cong [of vars r vars'])
qed (auto simp del: not_None_eq cong: option.case_cong)

lemma feval_cong:
  "\<forall>r\<in>node_refs n. vars r = vars' r \<Longrightarrow> feval n vars ms = feval n vars' ms"
proof (induction n)
  case (AggNode fn r)
  then show ?case by (simp add: agg_eval_cong [of vars r vars'])
qed (auto simp del: not_None_eq cong: option.case_cong)

end
