(* ===== verification/Lifecycle.thy ===== *)
theory Lifecycle
  imports Prelude
begin

text \<open>
  The contract that the aggregates of \<^verbatim>\<open>domain/\<close> share: a soft delete that is refused on an
  archived aggregate, its reversal, and a version counter that moves by one with every
  accepted change. Each aggregate theory interprets these locales on its own operations.
\<close>

locale soft_delete =
  fixes is_archived :: "'a \<Rightarrow> bool"
    and archive :: "'a \<Rightarrow> int \<Rightarrow> ('a \<times> 'e list) result"
    and core :: "'a \<Rightarrow> 'c"
  assumes archive_live: "\<not> is_archived x \<Longrightarrow>
      \<exists>y e. archive x now = Inr (y, [e]) \<and> is_archived y \<and> core y = core x"
    and archive_archived: "is_archived x \<Longrightarrow> \<exists>m. archive x now = Inl (NewArchived m)"
begin

lemma archive_ok_iff: "is_ok (archive x now) \<longleftrightarrow> \<not> is_archived x"
  using archive_live [of x now] archive_archived [of x now] by fastforce

lemma archive_result: "archive x now = Inr (y, es) \<Longrightarrow> is_archived y \<and> core y = core x \<and> length es = 1"
proof -
  assume ok: "archive x now = Inr (y, es)"
  then have "\<not> is_archived x" using archive_ok_iff [of x now] by simp
  from archive_live [OF this, of now] ok show ?thesis by auto
qed

text \<open>A second archive is refused: the operation is not idempotent, it reports.\<close>

lemma archive_twice: "archive x now = Inr (y, es) \<Longrightarrow> \<exists>m. archive y later = Inl (NewArchived m)"
  using archive_result archive_archived by blast

end

locale restorable = soft_delete is_archived archive core
  for is_archived :: "'a \<Rightarrow> bool" and archive :: "'a \<Rightarrow> int \<Rightarrow> ('a \<times> 'e list) result"
    and core :: "'a \<Rightarrow> 'c" +
  fixes restore :: "'a \<Rightarrow> int \<Rightarrow> ('a \<times> 'e list) result"
  assumes restore_archived: "is_archived x \<Longrightarrow>
      \<exists>y e. restore x now = Inr (y, [e]) \<and> \<not> is_archived y \<and> core y = core x"
    and restore_live: "\<not> is_archived x \<Longrightarrow> \<exists>m. restore x now = Inl (NewValidation m)"
begin

lemma restore_ok_iff: "is_ok (restore x now) \<longleftrightarrow> is_archived x"
  using restore_archived [of x now] restore_live [of x now] by fastforce

text \<open>Restoring an archived aggregate gives back everything but the time stamps.\<close>

lemma archive_restore:
  assumes "archive x now = Inr (y, es)"
  shows "\<exists>z es'. restore y later = Inr (z, es') \<and> \<not> is_archived z \<and> core z = core x"
proof -
  from archive_result [OF assms] have "is_archived y" "core y = core x" by auto
  with restore_archived [of y later] show ?thesis by auto
qed

end

locale versioned =
  fixes is_archived :: "'a \<Rightarrow> bool"
    and version_of :: "'a \<Rightarrow> int"
    and update :: "'a \<Rightarrow> 'i \<Rightarrow> int \<Rightarrow> ('a \<times> 'e list) result"
    and fixed :: "'a \<Rightarrow> 'f"
  assumes update_archived: "is_archived x \<Longrightarrow> \<exists>m. update x i now = Inl (NewArchived m)"
    and update_step: "update x i now = Inr (y, es) \<Longrightarrow>
      fixed y = fixed x \<and> \<not> is_archived y \<and>
      (es = [] \<and> y = x \<or> length es = 1 \<and> version_of y = version_of x + 1)"
begin

text \<open>A run of updates: the version counts the accepted changes, one event each, and the
  immutable part never moves.\<close>

inductive update_run :: "'a \<Rightarrow> nat \<Rightarrow> 'a \<Rightarrow> bool" where
  run_done: "update_run x 0 x"
| run_step: "update x i now = Inr (y, es) \<Longrightarrow> update_run y n z \<Longrightarrow> update_run x (length es + n) z"

lemma update_run_version: "update_run x n z \<Longrightarrow> version_of z = version_of x + int n \<and> fixed z = fixed x"
proof (induction rule: update_run.induct)
  case (run_step x i now y es n z)
  then show ?case using update_step [OF run_step.hyps(1)] by auto
qed simp

end

end
