(* ===== verification/Attribute.thy ===== *)
theory Attribute
  imports Constraints Dynamic Formula Lifecycle
begin

text \<open>
  The attribute-definition aggregate (\<^verbatim>\<open>domain/attribute/aggregate.go\<close>, \<^verbatim>\<open>computed.go\<close>,
  \<^verbatim>\<open>events.go\<close>): construction, update, archive and restore, the value gate \<^verbatim>\<open>ValidateValue\<close>
  and the default. The identifier a constructor draws and the current instant are arguments;
  instants are nanoseconds, and the version counter is an unbounded integer. The lemmas show
  the invariant \<open>wf_attribute\<close> of every reachable definition, what the gate admits, and that
  a declared default passes it.
\<close>

section \<open>Computed attributes (computed.go)\<close>

datatype ComputedKind = ComputedFormula | ComputedRollup | ComputedKindOther string

datatype RollupAggregate = RollupCount | RollupSum | RollupMin | RollupMax | RollupOther string

record Rollup =
  ro_Relationship :: string
  ro_Direction :: string
  ro_Aggregate :: RollupAggregate
  ro_Target :: string

record Computed =
  co_Kind :: ComputedKind
  co_Formula :: string
  co_Rollup :: "Rollup option"

text \<open>\<^verbatim>\<open>formula.Parse\<close>; the branch of exhausted fuel is not reachable (\<open>Parse_formula_eq\<close>).\<close>

definition Parse_formula :: "golib \<Rightarrow> string \<Rightarrow> fexpr result" where
  "Parse_formula lib s = (case formula_Parse lib s of Some r \<Rightarrow> r | None \<Rightarrow> Inl (PlainErr []))"

lemma Parse_formula_eq: "formula_Parse lib s = Some (Parse_formula lib s)"
  using formula_Parse_total [of lib s] by (auto simp: Parse_formula_def)

definition rollup_Validate :: "Rollup \<Rightarrow> string list result" where
  "rollup_Validate r =
     (if ro_Relationship r = [] then Inl (NewValidation ''rollup relationship is required'')
      else if ro_Direction r \<notin> {''child'', ''parent'', ''linked''}
        then Inl (NewValidation ''rollup direction must be child, parent or linked'')
      else (case ro_Aggregate r of
          RollupCount \<Rightarrow> Inr []
        | RollupOther _ \<Rightarrow> Inl (NewValidation ''unknown rollup aggregate'')
        | _ \<Rightarrow> if ro_Target r = [] then Inl (NewValidation ''rollup aggregate requires a target attribute'')
               else Inr []))"

definition Computed_Validate :: "golib \<Rightarrow> Computed \<Rightarrow> string list result" where
  "Computed_Validate lib c =
     (case co_Kind c of
        ComputedFormula \<Rightarrow>
          (if co_Formula c = [] then Inl (NewValidation ''computed formula is required'')
           else (case Parse_formula lib (co_Formula c) of
               Inl e \<Rightarrow> Inl (NewValidation (''invalid formula: '' @ err_msg e))
             | Inr expr \<Rightarrow> Inr (refs expr)))
      | ComputedRollup \<Rightarrow>
          (case co_Rollup c of None \<Rightarrow> Inl (NewValidation ''computed rollup spec is required'')
           | Some r \<Rightarrow> rollup_Validate r)
      | ComputedKindOther _ \<Rightarrow> Inl (NewValidation ''unknown computed kind''))"

section \<open>The aggregate (aggregate.go)\<close>

definition attr_AggregateType :: string where "attr_AggregateType = ''attribute_definition''"

record AttributeDefinition =
  ad_id :: AttributeDefinitionID
  ad_tenantID :: TenantID
  ad_typeDefinitionID :: TypeDefinitionID
  ad_internalName :: string
  ad_displayName :: string
  ad_description :: string
  ad_dataType :: DataType
  ad_required :: bool
  ad_multiValued :: bool
  ad_unique :: bool
  ad_localizable :: bool
  ad_scopable :: bool
  ad_unitFamilyID :: string
  ad_displayUnit :: string
  ad_computed :: "Computed option"
  ad_constraints :: Constraints
  ad_defaultValue :: "Default option"
  ad_group :: string
  ad_sortOrder :: int
  ad_helpText :: string
  ad_version :: int
  ad_createdAt :: int
  ad_updatedAt :: int
  ad_archivedAt :: "int option"

record AttrNewInput =
  an_TenantID :: TenantID
  an_TypeDefinitionID :: TypeDefinitionID
  an_InternalName :: string
  an_DisplayName :: string
  an_Description :: string
  an_DataType :: DataType
  an_Required :: bool
  an_MultiValued :: bool
  an_Unique :: bool
  an_Localizable :: bool
  an_Scopable :: bool
  an_UnitFamilyID :: string
  an_DisplayUnit :: string
  an_Computed :: "Computed option"
  an_Constraints :: Constraints
  an_DefaultValue :: "Default option"
  an_Group :: string
  an_SortOrder :: int
  an_HelpText :: string

record AttrUpdateInput =
  au_DisplayName :: string
  au_Description :: string
  au_Required :: bool
  au_MultiValued :: bool
  au_Unique :: bool
  au_Localizable :: bool
  au_Scopable :: bool
  au_UnitFamilyID :: string
  au_DisplayUnit :: string
  au_Computed :: "Computed option"
  au_Constraints :: Constraints
  au_DefaultValue :: "Default option"
  au_Group :: string
  au_SortOrder :: int
  au_HelpText :: string

datatype attr_event =
    AttrCreated AttributeDefinitionID TenantID TypeDefinitionID string string DataType bool int
  | AttrUpdated AttributeDefinitionID TenantID TypeDefinitionID string bool int int
  | AttrArchived AttributeDefinitionID TenantID TypeDefinitionID int
  | AttrRestored AttributeDefinitionID TenantID TypeDefinitionID int

definition hasOneOf :: "Constraints \<Rightarrow> bool" where
  "hasOneOf cs \<longleftrightarrow> list_ex (\<lambda>c. constraint_Kind c = KindOneOf) cs"

definition validateRules :: "golib \<Rightarrow> DataType \<Rightarrow> bool \<Rightarrow> bool \<Rightarrow> Constraints \<Rightarrow> Default option \<Rightarrow>
    Computed option \<Rightarrow> goerr option" where
  "validateRules lib dt multiValued unique cs def computed =
     (if multiValued \<and> unique then Some (NewValidation ''an attribute cannot be both multi-valued and unique'')
      else if multiValued \<and> computed \<noteq> None then Some (NewValidation ''a computed attribute cannot be multi-valued'')
      else if dt = DataTypeEnum \<and> \<not> hasOneOf cs then Some (NewValidation ''enum attributes require a one_of constraint'')
      else (case Constraints_Validate lib cs dt of Some e \<Rightarrow> Some e
        | None \<Rightarrow> (case def of None \<Rightarrow> None
            | Some d \<Rightarrow> (case def_Validate d dt of Some e \<Rightarrow> Some (NewValidation (err_msg e))
                | None \<Rightarrow> (case Static d of None \<Rightarrow> None
                    | Some v \<Rightarrow> (case Constraints_Check lib cs v of
                        Some e \<Rightarrow> Some (NewValidation ''default value violates constraints'')
                      | None \<Rightarrow> None))))))"

definition computed_err :: "golib \<Rightarrow> Computed option \<Rightarrow> goerr option" where
  "computed_err lib c =
     (case c of None \<Rightarrow> None
      | Some c \<Rightarrow> (case Computed_Validate lib c of Inl e \<Rightarrow> Some e | Inr _ \<Rightarrow> None))"

definition attr_New :: "golib \<Rightarrow> AttrNewInput \<Rightarrow> AttributeDefinitionID \<Rightarrow> int \<Rightarrow>
    (AttributeDefinition \<times> attr_event list) result" where
  "attr_New lib i newid now =
     (let tenant = (if an_TenantID i = [] then DefaultTenant else an_TenantID i)
      in if id_IsZero (an_TypeDefinitionID i) then Inl (NewValidation ''type definition ID is required'')
      else if \<not> internalNamePattern (an_InternalName i)
        then Inl (NewValidation ''internal name must be snake_case, start with a letter and be 2-63 characters'')
      else if an_DisplayName i = [] then Inl (NewValidation ''display name is required'')
      else (case ParseDataType (dt_String (an_DataType i)) of Inl e \<Rightarrow> Inl (NewValidation (err_msg e))
      | Inr _ \<Rightarrow> (case validateRules lib (an_DataType i) (an_MultiValued i) (an_Unique i) (an_Constraints i)
            (an_DefaultValue i) (an_Computed i) of Some e \<Rightarrow> Inl e
      | None \<Rightarrow> (case computed_err lib (an_Computed i) of Some e \<Rightarrow> Inl e
      | None \<Rightarrow>
          let a = \<lparr>ad_id = newid, ad_tenantID = tenant, ad_typeDefinitionID = an_TypeDefinitionID i,
      ad_internalName = an_InternalName i, ad_displayName = an_DisplayName i,
      ad_description = an_Description i, ad_dataType = an_DataType i, ad_required = an_Required i,
      ad_multiValued = an_MultiValued i, ad_unique = an_Unique i,
      ad_localizable = an_Localizable i, ad_scopable = an_Scopable i,
      ad_unitFamilyID = an_UnitFamilyID i, ad_displayUnit = an_DisplayUnit i,
      ad_computed = an_Computed i, ad_constraints = an_Constraints i,
      ad_defaultValue = an_DefaultValue i, ad_group = an_Group i, ad_sortOrder = an_SortOrder i,
      ad_helpText = an_HelpText i, ad_version = 1, ad_createdAt = now, ad_updatedAt = now,
      ad_archivedAt = None\<rparr>
          in Inr (a, [AttrCreated (ad_id a) (ad_tenantID a) (ad_typeDefinitionID a) (ad_internalName a)
               (ad_displayName a) (ad_dataType a) (ad_required a) now])))))"

definition attr_IsArchived :: "AttributeDefinition \<Rightarrow> bool" where
  "attr_IsArchived a \<longleftrightarrow> ad_archivedAt a \<noteq> None"

definition attr_Update :: "golib \<Rightarrow> AttributeDefinition \<Rightarrow> AttrUpdateInput \<Rightarrow> int \<Rightarrow>
    (AttributeDefinition \<times> attr_event list) result" where
  "attr_Update lib a i now =
     (if attr_IsArchived a then Inl (NewArchived attr_AggregateType)
      else if au_DisplayName i = [] then Inl (NewValidation ''display name is required'')
      else (case validateRules lib (ad_dataType a) (au_MultiValued i) (au_Unique i) (au_Constraints i)
            (au_DefaultValue i) (au_Computed i) of Some e \<Rightarrow> Inl e
      | None \<Rightarrow> (case computed_err lib (au_Computed i) of Some e \<Rightarrow> Inl e
      | None \<Rightarrow>
          let a = a\<lparr>ad_displayName := au_DisplayName i, ad_description := au_Description i,
      ad_required := au_Required i, ad_multiValued := au_MultiValued i, ad_unique := au_Unique i,
      ad_localizable := au_Localizable i, ad_scopable := au_Scopable i,
      ad_unitFamilyID := au_UnitFamilyID i, ad_displayUnit := au_DisplayUnit i,
      ad_computed := au_Computed i, ad_constraints := au_Constraints i,
      ad_defaultValue := au_DefaultValue i, ad_group := au_Group i, ad_sortOrder := au_SortOrder i,
      ad_helpText := au_HelpText i, ad_version := ad_version a + 1, ad_updatedAt := now\<rparr>
          in Inr (a, [AttrUpdated (ad_id a) (ad_tenantID a) (ad_typeDefinitionID a) (ad_displayName a)
               (ad_required a) (ad_version a) now]))))"

definition attr_Archive :: "AttributeDefinition \<Rightarrow> int \<Rightarrow> (AttributeDefinition \<times> attr_event list) result" where
  "attr_Archive a now =
     (if attr_IsArchived a then Inl (NewArchived attr_AggregateType)
      else Inr (a\<lparr>ad_archivedAt := Some now, ad_updatedAt := now\<rparr>,
             [AttrArchived (ad_id a) (ad_tenantID a) (ad_typeDefinitionID a) now]))"

definition attr_Restore :: "AttributeDefinition \<Rightarrow> int \<Rightarrow> (AttributeDefinition \<times> attr_event list) result" where
  "attr_Restore a now =
     (if \<not> attr_IsArchived a then Inl (NewValidation ''attribute definition is not archived'')
      else Inr (a\<lparr>ad_archivedAt := None, ad_updatedAt := now\<rparr>,
             [AttrRestored (ad_id a) (ad_tenantID a) (ad_typeDefinitionID a) now]))"

definition ValidateValue :: "golib \<Rightarrow> AttributeDefinition \<Rightarrow> gvalue \<Rightarrow> goerr option" where
  "ValidateValue lib a v =
     (if attr_IsArchived a then Some (NewArchived attr_AggregateType)
      else if IsZero v then (if ad_required a then Some (NewValidation ''value is required'') else None)
      else if dataType v \<noteq> ad_dataType a then Some (NewValidation ''value type does not match attribute type'')
      else Constraints_Check lib (ad_constraints a) v)"

definition DefaultFor :: "AttributeDefinition \<Rightarrow> gotime \<Rightarrow> gvalue result" where
  "DefaultFor a now =
     (case ad_defaultValue a of None \<Rightarrow> Inr zero_value
      | Some d \<Rightarrow> def_Resolve d (ad_dataType a) now)"

definition IsComputed :: "AttributeDefinition \<Rightarrow> bool" where
  "IsComputed a \<longleftrightarrow> ad_computed a \<noteq> None"

section \<open>Persistence projection\<close>

record AttrSnapshot =
  as_ID :: AttributeDefinitionID
  as_TenantID :: TenantID
  as_TypeDefinitionID :: TypeDefinitionID
  as_InternalName :: string
  as_DisplayName :: string
  as_Description :: string
  as_DataType :: DataType
  as_Required :: bool
  as_MultiValued :: bool
  as_Unique :: bool
  as_Localizable :: bool
  as_Scopable :: bool
  as_UnitFamilyID :: string
  as_DisplayUnit :: string
  as_Computed :: "Computed option"
  as_Constraints :: Constraints
  as_DefaultValue :: "Default option"
  as_Group :: string
  as_SortOrder :: int
  as_HelpText :: string
  as_Version :: int
  as_CreatedAt :: int
  as_UpdatedAt :: int
  as_ArchivedAt :: "int option"

definition attr_Snapshot :: "AttributeDefinition \<Rightarrow> AttrSnapshot" where
  "attr_Snapshot a =
     \<lparr>as_ID = ad_id a, as_TenantID = ad_tenantID a, as_TypeDefinitionID = ad_typeDefinitionID a,
     as_InternalName = ad_internalName a, as_DisplayName = ad_displayName a,
     as_Description = ad_description a, as_DataType = ad_dataType a, as_Required = ad_required a,
     as_MultiValued = ad_multiValued a, as_Unique = ad_unique a, as_Localizable = ad_localizable a,
     as_Scopable = ad_scopable a, as_UnitFamilyID = ad_unitFamilyID a,
     as_DisplayUnit = ad_displayUnit a, as_Computed = ad_computed a,
     as_Constraints = ad_constraints a, as_DefaultValue = ad_defaultValue a, as_Group = ad_group a,
     as_SortOrder = ad_sortOrder a, as_HelpText = ad_helpText a, as_Version = ad_version a,
     as_CreatedAt = ad_createdAt a, as_UpdatedAt = ad_updatedAt a, as_ArchivedAt = ad_archivedAt a\<rparr>"

definition attr_Rehydrate :: "AttrSnapshot \<Rightarrow> AttributeDefinition" where
  "attr_Rehydrate s =
     \<lparr>ad_id = as_ID s, ad_tenantID = as_TenantID s, ad_typeDefinitionID = as_TypeDefinitionID s,
     ad_internalName = as_InternalName s, ad_displayName = as_DisplayName s,
     ad_description = as_Description s, ad_dataType = as_DataType s, ad_required = as_Required s,
     ad_multiValued = as_MultiValued s, ad_unique = as_Unique s, ad_localizable = as_Localizable s,
     ad_scopable = as_Scopable s, ad_unitFamilyID = as_UnitFamilyID s,
     ad_displayUnit = as_DisplayUnit s, ad_computed = as_Computed s,
     ad_constraints = as_Constraints s, ad_defaultValue = as_DefaultValue s, ad_group = as_Group s,
     ad_sortOrder = as_SortOrder s, ad_helpText = as_HelpText s, ad_version = as_Version s,
     ad_createdAt = as_CreatedAt s, ad_updatedAt = as_UpdatedAt s, ad_archivedAt = as_ArchivedAt s\<rparr>"

lemma attr_snapshot_round: "attr_Rehydrate (attr_Snapshot a) = a" "attr_Snapshot (attr_Rehydrate s) = s"
  by (simp_all add: attr_Snapshot_def attr_Rehydrate_def)

section \<open>Lifecycle contracts\<close>

definition attr_core :: "AttributeDefinition \<Rightarrow> AttributeDefinition" where
  "attr_core a = a\<lparr>ad_archivedAt := None, ad_updatedAt := 0\<rparr>"

definition attr_fixed :: "AttributeDefinition \<Rightarrow>
    AttributeDefinitionID \<times> TenantID \<times> TypeDefinitionID \<times> string \<times> DataType \<times> int" where
  "attr_fixed a = (ad_id a, ad_tenantID a, ad_typeDefinitionID a, ad_internalName a, ad_dataType a, ad_createdAt a)"

lemma attr_Update_cases:
  assumes "attr_Update lib a i now = Inr (b, es)"
  shows "\<not> attr_IsArchived a" "attr_fixed b = attr_fixed a" "ad_archivedAt b = ad_archivedAt a"
    "ad_version b = ad_version a + 1" "ad_displayName b \<noteq> []" "length es = 1"
    "validateRules lib (ad_dataType b) (ad_multiValued b) (ad_unique b) (ad_constraints b)
       (ad_defaultValue b) (ad_computed b) = None"
    "computed_err lib (ad_computed b) = None"
  using assms by (auto simp: attr_Update_def attr_fixed_def Let_def split: if_splits option.splits)

interpretation attr_life: restorable attr_IsArchived attr_Archive attr_core attr_Restore
  by unfold_locales (auto simp: attr_Archive_def attr_Restore_def attr_IsArchived_def attr_core_def)

interpretation attr_ver: versioned attr_IsArchived ad_version "attr_Update lib" attr_fixed for lib
proof
  fix a i now b es
  show "attr_IsArchived a \<Longrightarrow> \<exists>m. attr_Update lib a i now = Inl (NewArchived m)"
    by (auto simp: attr_Update_def)
  assume "attr_Update lib a i now = Inr (b, es)"
  from attr_Update_cases [OF this]
  show "attr_fixed b = attr_fixed a \<and> \<not> attr_IsArchived b \<and>
      (es = [] \<and> b = a \<or> length es = 1 \<and> ad_version b = ad_version a + 1)"
    by (simp add: attr_IsArchived_def)
qed

section \<open>The invariant of every definition\<close>

definition default_ok :: "golib \<Rightarrow> DataType \<Rightarrow> Constraints \<Rightarrow> Default option \<Rightarrow> bool" where
  "default_ok lib dt cs def =
     (case def of None \<Rightarrow> True
      | Some d \<Rightarrow> (case (Static d, def_Dynamic d) of
            (Some v, None) \<Rightarrow> dataType v = dt \<and> (\<forall>c\<in>set cs. constraint_Check lib c v = None)
          | (None, Some dyn) \<Rightarrow> dyn_Validate dyn dt = None
          | _ \<Rightarrow> False))"

definition computed_ok :: "golib \<Rightarrow> Computed option \<Rightarrow> bool" where
  "computed_ok lib c \<longleftrightarrow> (\<forall>x. c = Some x \<longrightarrow> is_ok (Computed_Validate lib x))"

definition wf_attribute :: "golib \<Rightarrow> AttributeDefinition \<Rightarrow> bool" where
  "wf_attribute lib a \<longleftrightarrow>
     ad_tenantID a \<noteq> [] \<and> ad_typeDefinitionID a \<noteq> 0 \<and> internalNamePattern (ad_internalName a)
     \<and> ad_displayName a \<noteq> [] \<and> known_type (ad_dataType a) \<and> 1 \<le> ad_version a
     \<and> \<not> (ad_multiValued a \<and> (ad_unique a \<or> IsComputed a))
     \<and> (ad_dataType a = DataTypeEnum \<longrightarrow> (\<exists>vs. OneOf vs \<in> set (ad_constraints a)))
     \<and> (\<forall>c\<in>set (ad_constraints a). constraint_Validate lib c (ad_dataType a) = None)
     \<and> distinct (map constraint_Kind (ad_constraints a))
     \<and> default_ok lib (ad_dataType a) (ad_constraints a) (ad_defaultValue a)
     \<and> computed_ok lib (ad_computed a)"

lemma kind_OneOf: "constraint_Kind c = KindOneOf \<longleftrightarrow> (\<exists>vs. c = OneOf vs)"
  by (cases c) simp_all

lemma hasOneOf_iff: "hasOneOf cs \<longleftrightarrow> (\<exists>vs. OneOf vs \<in> set cs)"
  by (auto simp: hasOneOf_def list_ex_iff kind_OneOf)

lemma computed_err_None: "computed_err lib c = None \<longleftrightarrow> computed_ok lib c"
  by (auto simp: computed_err_def computed_ok_def is_ok_def split: option.splits sum.splits)

lemma default_ok_rules:
  "(case def of None \<Rightarrow> None
    | Some d \<Rightarrow> (case def_Validate d dt of Some e \<Rightarrow> Some (NewValidation (err_msg e))
        | None \<Rightarrow> (case Static d of None \<Rightarrow> None
            | Some v \<Rightarrow> (case Constraints_Check lib cs v of
                Some e \<Rightarrow> Some (NewValidation ''default value violates constraints'')
              | None \<Rightarrow> None)))) = None \<longleftrightarrow> default_ok lib dt cs def"
proof -
  have "(\<forall>c\<in>set cs. constraint_Check lib c v = None) \<longleftrightarrow> Constraints_Check lib cs v = None" for v
    by (simp add: Constraints_Check_def)
  then show ?thesis by (auto simp: default_ok_def def_Validate_def split: option.splits)
qed

lemma validateRules_None:
  "validateRules lib dt multi uniq cs def computed = None \<longleftrightarrow>
     \<not> (multi \<and> uniq) \<and> \<not> (multi \<and> computed \<noteq> None) \<and> (dt = DataTypeEnum \<longrightarrow> (\<exists>vs. OneOf vs \<in> set cs))
     \<and> Constraints_Validate lib cs dt = None \<and> default_ok lib dt cs def"
  unfolding validateRules_def hasOneOf_iff [symmetric] default_ok_rules [symmetric]
  by (auto split: option.split)

lemma attr_New_ok:
  assumes "attr_New lib i newid now = Inr (a, es)" "canonical_dt (an_DataType i)"
  shows "wf_attribute lib a" "ad_version a = 1" "\<not> attr_IsArchived a" "ad_id a = newid" "length es = 1"
proof -
  have "known_type (an_DataType i)" if "ParseDataType (dt_String (an_DataType i)) = Inr d" for d
    using ParseDataType_canonical [OF assms(2)] that by simp
  with assms(1) show "wf_attribute lib a" "ad_version a = 1" "\<not> attr_IsArchived a" "ad_id a = newid" "length es = 1"
    by (auto simp: attr_New_def wf_attribute_def attr_IsArchived_def IsComputed_def Let_def id_IsZero_def
        DefaultTenant_def validateRules_None computed_err_None Constraints_Validate_None
        split: if_splits sum.splits option.splits)
qed

lemma attr_Update_wf [flexi_wf]:
  assumes "wf_attribute lib a" "attr_Update lib a i now = Inr (b, es)" shows "wf_attribute lib b"
  using assms(1) attr_Update_cases [OF assms(2)]
  by (auto simp: wf_attribute_def attr_fixed_def IsComputed_def validateRules_None computed_err_None
      Constraints_Validate_None)

lemma attr_core_wf: "wf_attribute lib (attr_core a) = wf_attribute lib a"
  by (simp add: wf_attribute_def attr_core_def IsComputed_def)

text \<open>The states a definition goes through.\<close>

inductive attr_reachable :: "golib \<Rightarrow> AttributeDefinition \<Rightarrow> bool" for lib where
  attr_created: "attr_New lib i newid now = Inr (a, es) \<Longrightarrow> canonical_dt (an_DataType i) \<Longrightarrow> attr_reachable lib a"
| attr_updated: "attr_reachable lib a \<Longrightarrow> attr_Update lib a i now = Inr (b, es) \<Longrightarrow> attr_reachable lib b"
| attr_archived: "attr_reachable lib a \<Longrightarrow> attr_Archive a now = Inr (b, es) \<Longrightarrow> attr_reachable lib b"
| attr_restored: "attr_reachable lib a \<Longrightarrow> attr_Restore a now = Inr (b, es) \<Longrightarrow> attr_reachable lib b"

lemma attr_reachable_wf: "attr_reachable lib a \<Longrightarrow> wf_attribute lib a"
proof (induction rule: attr_reachable.induct)
  case (attr_archived a now b es)
  then show ?case using attr_life.archive_result [of a now b es] attr_core_wf by metis
next
  case (attr_restored a now b es)
  then show ?case
    using attr_life.restore_ok_iff [of a now] attr_life.restore_archived [of a now] attr_core_wf
    by (metis Inr_inject is_ok_simps(1) prod.inject)
qed (blast dest: attr_New_ok attr_Update_wf)+

section \<open>The value gate and the default\<close>

lemma ValidateValue_iff:
  assumes "wf_attribute lib a" "list_all (wf_constraint lib) (ad_constraints a)" "wf_value lib v"
  shows "ValidateValue lib a v = None \<longleftrightarrow>
    \<not> attr_IsArchived a \<and> dataType v = ad_dataType a \<and> (\<forall>c\<in>set (ad_constraints a). admits lib c v)"
  using assms wf_not_zero [OF assms(3)] Constraints_Check_admits [of lib "ad_constraints a" "ad_dataType a" v]
  by (auto simp: ValidateValue_def wf_attribute_def Constraints_Validate_None)

text \<open>An accepted enum value is one of the declared names.\<close>

lemma enum_value_declared:
  assumes "wf_attribute lib a" "ad_dataType a = DataTypeEnum" "\<not> IsZero v" "ValidateValue lib a v = None"
  shows "\<exists>vs. OneOf vs \<in> set (ad_constraints a) \<and> textVal v \<in> textVal ` set vs"
proof -
  from assms obtain vs where vs: "OneOf vs \<in> set (ad_constraints a)" by (auto simp: wf_attribute_def)
  from assms have "dataType v = DataTypeEnum" "Constraints_Check lib (ad_constraints a) v = None"
    by (auto simp: ValidateValue_def split: if_splits)
  with vs have "constraint_Check lib (OneOf vs) v = None" by (simp only: Constraints_Check_def first_err_None)
  then obtain w where "w \<in> set vs" "Equal lib v w" by (auto simp: list_ex_iff split: if_splits)
  with vs Equal_text [of lib v w] \<open>dataType v = DataTypeEnum\<close> show ?thesis by force
qed

lemma DefaultFor_ok:
  assumes "wf_attribute lib a" and static: "\<And>d v. ad_defaultValue a = Some d \<Longrightarrow> Static d = Some v \<Longrightarrow> wf_value lib v"
  shows "\<exists>v. DefaultFor a now = Inr v \<and>
    (if ad_defaultValue a = None then IsZero v else dataType v = ad_dataType a \<and> wf_value lib v)"
proof (cases "ad_defaultValue a")
  case (Some d)
  with assms(1) have "def_Validate d (ad_dataType a) = None"
    by (auto simp: wf_attribute_def default_ok_def def_Validate_def split: option.splits)
  from def_Validate_Resolve [OF this, of lib now] static Some show ?thesis by (simp add: DefaultFor_def)
qed (simp add: DefaultFor_def)

lemma static_default_admitted:
  assumes "wf_attribute lib a" "\<not> attr_IsArchived a" "ad_defaultValue a = Some d" "Static d = Some v"
  shows "DefaultFor a now = Inr v \<and> ValidateValue lib a v = None"
proof -
  from assms have v: "dataType v = ad_dataType a" "Constraints_Check lib (ad_constraints a) v = None"
    by (auto simp: wf_attribute_def default_ok_def Constraints_Check_def split: option.splits)
  moreover have "\<not> IsZero v" using assms(1) v(1) by (auto simp: wf_attribute_def IsZero_def known_type_cases)
  ultimately show ?thesis
    using assms by (auto simp: DefaultFor_def def_Resolve_def ValidateValue_def)
qed

end
