(* ===== verification/Access.thy ===== *)
theory Access
  imports Values
begin

text \<open>
  Field-level permissions and tenancy of the request context
  (\<^verbatim>\<open>application/uow/context.go\<close>): the policy \<^verbatim>\<open>Access\<close> with its deny-list and allow-list forms,
  its derivation from a resolved permission set, and the tenant guard. The lemmas give the
  extent of each policy; \<open>reads_everything_exact\<close> is the fact that surfaces which cannot
  filter single attributes rely on.
\<close>

datatype Perm = PermNone | PermRead | PermWrite | PermUnset | PermOther string

fun to_Perm :: "string \<Rightarrow> Perm" where
  "to_Perm s = (if s = ''none'' then PermNone else if s = ''read'' then PermRead
     else if s = ''write'' then PermWrite else if s = [] then PermUnset else PermOther s)"

text \<open>The map \<^verbatim>\<open>Attr\<close> as the list of its entries.\<close>

record Access =
  Admin :: bool
  Attr :: "(string \<times> Perm) list"
  DefaultPerm :: Perm

definition DenyAll :: Access where
  "DenyAll = \<lparr>Admin = False, Attr = [], DefaultPerm = PermNone\<rparr>"

definition AccessFromPermissions :: "bool \<Rightarrow> int \<Rightarrow> (string \<times> string) list \<Rightarrow> Access" where
  "AccessFromPermissions admin unresolvedRoles fieldPermissions =
     (if unresolvedRoles > 0 then DenyAll
      else if admin \<or> fieldPermissions = [] then \<lparr>Admin = True, Attr = [], DefaultPerm = PermUnset\<rparr>
      else \<lparr>Admin = False, Attr = map (\<lambda>(n, l). (n, to_Perm l)) fieldPermissions, DefaultPerm = PermUnset\<rparr>)"

definition SystemAccess :: Access where
  "SystemAccess = \<lparr>Admin = True, Attr = [], DefaultPerm = PermUnset\<rparr>"

definition access_level :: "Access \<Rightarrow> string \<Rightarrow> Perm" where
  "access_level a name =
     (case map_of (Attr a) name of Some p \<Rightarrow> p
      | None \<Rightarrow> if DefaultPerm a \<noteq> PermUnset then DefaultPerm a else PermWrite)"

definition ReadsEverything :: "Access \<Rightarrow> bool" where
  "ReadsEverything a =
     (if Admin a then True
      else if DefaultPerm a = PermNone then False
      else \<not> list_ex (\<lambda>(_, p). p = PermNone) (Attr a))"

definition CanRead :: "Access \<Rightarrow> string \<Rightarrow> bool" where
  "CanRead a name =
     (if Admin a then True else access_level a name = PermRead \<or> access_level a name = PermWrite)"

definition CanWrite :: "Access \<Rightarrow> string \<Rightarrow> bool" where
  "CanWrite a name = (if Admin a then True else access_level a name = PermWrite)"

text \<open>\<^verbatim>\<open>AccessFromContext\<close>: the stamped policy, or the process default.\<close>

definition AccessFromContext :: "bool \<Rightarrow> Access option \<Rightarrow> Access" where
  "AccessFromContext failClosed stamped =
     (case stamped of Some a \<Rightarrow> a | None \<Rightarrow> if failClosed then DenyAll else SystemAccess)"

definition TenantFromContext :: "TenantID option \<Rightarrow> TenantID" where
  "TenantFromContext stamped =
     (case stamped of Some t \<Rightarrow> if t \<noteq> [] then t else DefaultTenant | None \<Rightarrow> DefaultTenant)"

definition EnsureTenant :: "TenantID \<Rightarrow> TenantID \<Rightarrow> string \<Rightarrow> goerr option" where
  "EnsureTenant ctx owner entity = (if owner = ctx then None else Some (NewNotFound entity))"

section \<open>What a policy grants\<close>

definition known_levels :: "Access \<Rightarrow> bool" where
  "known_levels a \<longleftrightarrow> (\<forall>(_, p)\<in>set (Attr a). p \<in> {PermNone, PermRead, PermWrite})
     \<and> DefaultPerm a \<in> {PermNone, PermRead, PermWrite, PermUnset} \<and> distinct (map fst (Attr a))"

lemma write_implies_read: "CanWrite a name \<Longrightarrow> CanRead a name"
  by (auto simp: CanWrite_def CanRead_def split: if_splits)

lemma DenyAll_denies: "\<not> CanRead DenyAll name" "\<not> CanWrite DenyAll name"
  by (simp_all add: CanRead_def CanWrite_def DenyAll_def access_level_def)

lemma unlisted_name: "\<exists>name :: string. name \<notin> fst ` set kvs"
  using ex_new_if_finite [of "fst ` set kvs"] infinite_UNIV_listI by blast

lemma reads_everything_exact:
  assumes "known_levels a" shows "ReadsEverything a \<longleftrightarrow> (\<forall>name. CanRead a name)"
proof
  assume all: "\<forall>name. CanRead a name"
  show "ReadsEverything a"
  proof (rule ccontr)
    assume "\<not> ReadsEverything a"
    then have na: "\<not> Admin a" and c: "DefaultPerm a = PermNone \<or> (\<exists>n. (n, PermNone) \<in> set (Attr a))"
      by (auto simp: ReadsEverything_def list_ex_iff split: if_splits)
    obtain m where "m \<notin> fst ` set (Attr a)" using unlisted_name by blast
    then have m: "map_of (Attr a) m = None" by (simp add: map_of_eq_None_iff)
    from c show False
    proof
      assume "DefaultPerm a = PermNone"
      with m na all [rule_format, of m] show False by (simp add: CanRead_def access_level_def)
    next
      assume "\<exists>n. (n, PermNone) \<in> set (Attr a)"
      then obtain n where "(n, PermNone) \<in> set (Attr a)" ..
      then have "map_of (Attr a) n = Some PermNone" using assms by (simp add: known_levels_def)
      with na all [rule_format, of n] show False by (simp add: CanRead_def access_level_def)
    qed
  qed
next
  assume r: "ReadsEverything a"
  show "\<forall>name. CanRead a name"
  proof
    fix name
    show "CanRead a name"
    proof (cases "map_of (Attr a) name")
      case None
      with r assms show ?thesis
        by (auto simp: CanRead_def access_level_def ReadsEverything_def known_levels_def split: if_splits)
    next
      case (Some p)
      then have "(name, p) \<in> set (Attr a)" by (rule map_of_SomeD)
      with r assms Some show ?thesis
        by (auto simp: CanRead_def access_level_def ReadsEverything_def known_levels_def list_ex_iff
            split: if_splits)
    qed
  qed
qed

lemma unresolved_denies:
  "unresolvedRoles > 0 \<Longrightarrow> \<not> CanRead (AccessFromPermissions admin unresolvedRoles fps) name"
  by (simp add: AccessFromPermissions_def DenyAll_denies)

lemma permission_levels:
  assumes "distinct (map fst fps)" "(name, level) \<in> set fps" "level \<in> {''none'', ''read'', ''write''}"
  shows "CanRead (AccessFromPermissions False 0 fps) name \<longleftrightarrow> level \<noteq> ''none''"
    and "CanWrite (AccessFromPermissions False 0 fps) name \<longleftrightarrow> level = ''write''"
proof -
  have "map_of (map (\<lambda>(n, l). (n, to_Perm l)) fps) name = map_option to_Perm (map_of fps name)"
    by (induction fps) (auto simp del: to_Perm.simps)
  moreover have "map_of fps name = Some level" using assms(1,2) by simp
  ultimately have level: "access_level (AccessFromPermissions False 0 fps) name = to_Perm level"
    using assms(2) by (auto simp: AccessFromPermissions_def access_level_def simp del: to_Perm.simps)
  have "\<not> Admin (AccessFromPermissions False 0 fps)"
    using assms(2) by (auto simp: AccessFromPermissions_def simp del: to_Perm.simps)
  with assms(3) show "CanRead (AccessFromPermissions False 0 fps) name \<longleftrightarrow> level \<noteq> ''none''"
      and "CanWrite (AccessFromPermissions False 0 fps) name \<longleftrightarrow> level = ''write''"
    by (elim insertE emptyE; simp add: CanRead_def CanWrite_def level)+
qed

end
