(* ===== verification/Typedefs.thy ===== *)
theory Typedefs
  imports Attribute Access "HOL-Library.Product_Lexorder"
begin

text \<open>
  Type definitions: the aggregate (\<^verbatim>\<open>domain/typedef/aggregate.go\<close>), the hierarchy walks
  (\<^verbatim>\<open>application/typedef/hierarchy.go\<close>), the in-memory repository
  (\<^verbatim>\<open>infrastructure/memory/definitions.go\<close>) and the use cases that write it
  (\<^verbatim>\<open>application/typedef/interactor.go\<close>). A repository is the list of its stored snapshots, in
  the order in which a range over the Go map meets them. The walks take the repository's
  \<^verbatim>\<open>Get\<close> as an argument; the locale \<open>type_lookup\<close> states what they need of it and is interpreted
  on the stored snapshots.
\<close>

section \<open>The aggregate\<close>

datatype TypeKind = KindEntity | KindRelationshipAttributes | KindUnset | TypeKindOther string

record TypeDefinition =
  td_id :: TypeDefinitionID
  td_tenantID :: TenantID
  td_kind :: TypeKind
  td_internalName :: string
  td_displayName :: string
  td_description :: string
  td_extendsID :: "TypeDefinitionID option"
  td_version :: int
  td_createdAt :: int
  td_updatedAt :: int
  td_archivedAt :: "int option"

record TypeNewInput =
  tn_TenantID :: TenantID
  tn_InternalName :: string
  tn_DisplayName :: string
  tn_Description :: string
  tn_Extends :: "TypeDefinition option"

datatype type_event =
    TypeCreated TypeDefinitionID TenantID string string "TypeDefinitionID option" int
  | TypeUpdated TypeDefinitionID TenantID string string int int
  | TypeArchived TypeDefinitionID TenantID int
  | TypeRestored TypeDefinitionID TenantID int

definition type_AggregateType :: string where "type_AggregateType = ''type_definition''"

definition type_IsArchived :: "TypeDefinition \<Rightarrow> bool" where
  "type_IsArchived t \<longleftrightarrow> td_archivedAt t \<noteq> None"

definition extends_err :: "TypeDefinition option \<Rightarrow> TenantID \<Rightarrow> goerr option" where
  "extends_err extends tenant =
     (case extends of None \<Rightarrow> None
      | Some p \<Rightarrow>
          if td_kind p \<noteq> KindEntity then Some (NewValidation ''only entity types can be extended'')
          else if td_tenantID p \<noteq> tenant then Some (NewValidation ''a type can only extend a type in the same tenant'')
          else if type_IsArchived p then Some (NewValidation ''cannot extend an archived type'')
          else None)"

definition type_New :: "TypeNewInput \<Rightarrow> TypeDefinitionID \<Rightarrow> int \<Rightarrow> (TypeDefinition \<times> type_event list) result" where
  "type_New i newid now =
     (let tenant = (if tn_TenantID i = [] then DefaultTenant else tn_TenantID i)
      in if \<not> internalNamePattern (tn_InternalName i)
           then Inl (NewValidation ''internal name must be snake_case, start with a letter and be 2-63 characters'')
         else if tn_DisplayName i = [] then Inl (NewValidation ''display name is required'')
         else (case extends_err (tn_Extends i) tenant of Some e \<Rightarrow> Inl e
           | None \<Rightarrow>
               let t = \<lparr>td_id = newid, td_tenantID = tenant, td_kind = KindEntity,
                     td_internalName = tn_InternalName i, td_displayName = tn_DisplayName i,
                     td_description = tn_Description i, td_extendsID = map_option td_id (tn_Extends i),
                     td_version = 1, td_createdAt = now, td_updatedAt = now, td_archivedAt = None\<rparr>
               in Inr (t, [TypeCreated (td_id t) (td_tenantID t) (td_internalName t) (td_displayName t)
                    (td_extendsID t) now])))"

definition type_Update :: "TypeDefinition \<Rightarrow> string \<times> string \<Rightarrow> int \<Rightarrow> (TypeDefinition \<times> type_event list) result" where
  "type_Update t texts now =
     (let (displayName, description) = texts
      in if type_IsArchived t then Inl (NewArchived ''type_definition'')
         else if displayName = [] then Inl (NewValidation ''display name is required'')
         else if td_displayName t = displayName \<and> td_description t = description then Inr (t, [])
         else let t = t\<lparr>td_displayName := displayName, td_description := description,
                        td_version := td_version t + 1, td_updatedAt := now\<rparr>
              in Inr (t, [TypeUpdated (td_id t) (td_tenantID t) (td_displayName t) (td_description t)
                   (td_version t) now]))"

definition type_Archive :: "TypeDefinition \<Rightarrow> int \<Rightarrow> (TypeDefinition \<times> type_event list) result" where
  "type_Archive t now =
     (if type_IsArchived t then Inl (NewArchived ''type_definition'')
      else Inr (t\<lparr>td_archivedAt := Some now, td_updatedAt := now\<rparr>, [TypeArchived (td_id t) (td_tenantID t) now]))"

definition type_Restore :: "TypeDefinition \<Rightarrow> int \<Rightarrow> (TypeDefinition \<times> type_event list) result" where
  "type_Restore t now =
     (if \<not> type_IsArchived t then Inl (NewValidation ''type definition is not archived'')
      else Inr (t\<lparr>td_archivedAt := None, td_updatedAt := now\<rparr>, [TypeRestored (td_id t) (td_tenantID t) now]))"

definition NewAttributeSet :: "TenantID \<Rightarrow> string \<Rightarrow> string \<Rightarrow> TypeDefinitionID \<Rightarrow> int \<Rightarrow>
    (TypeDefinition \<times> type_event list) result" where
  "NewAttributeSet tenant internalName displayName newid now =
     (case type_New \<lparr>tn_TenantID = tenant, tn_InternalName = internalName, tn_DisplayName = displayName,
             tn_Description = [], tn_Extends = None\<rparr> newid now of
        Inl e \<Rightarrow> Inl e
      | Inr (t, evts) \<Rightarrow> Inr (t\<lparr>td_kind := KindRelationshipAttributes\<rparr>, evts))"

record TypeSnapshot =
  ts_ID :: TypeDefinitionID
  ts_TenantID :: TenantID
  ts_Kind :: TypeKind
  ts_InternalName :: string
  ts_DisplayName :: string
  ts_Description :: string
  ts_ExtendsID :: "TypeDefinitionID option"
  ts_Version :: int
  ts_CreatedAt :: int
  ts_UpdatedAt :: int
  ts_ArchivedAt :: "int option"

definition type_Snapshot :: "TypeDefinition \<Rightarrow> TypeSnapshot" where
  "type_Snapshot t =
     \<lparr>ts_ID = td_id t, ts_TenantID = td_tenantID t, ts_Kind = td_kind t, ts_InternalName = td_internalName t,
      ts_DisplayName = td_displayName t, ts_Description = td_description t, ts_ExtendsID = td_extendsID t,
      ts_Version = td_version t, ts_CreatedAt = td_createdAt t, ts_UpdatedAt = td_updatedAt t,
      ts_ArchivedAt = td_archivedAt t\<rparr>"

definition type_Rehydrate :: "TypeSnapshot \<Rightarrow> TypeDefinition" where
  "type_Rehydrate s =
     \<lparr>td_id = ts_ID s, td_tenantID = ts_TenantID s,
      td_kind = (if ts_Kind s = KindUnset then KindEntity else ts_Kind s), td_internalName = ts_InternalName s,
      td_displayName = ts_DisplayName s, td_description = ts_Description s, td_extendsID = ts_ExtendsID s,
      td_version = ts_Version s, td_createdAt = ts_CreatedAt s, td_updatedAt = ts_UpdatedAt s,
      td_archivedAt = ts_ArchivedAt s\<rparr>"

section \<open>Hierarchy walks (hierarchy.go)\<close>

definition maxHierarchyDepth :: nat where "maxHierarchyDepth = 10"

text \<open>The loop of \<^verbatim>\<open>Ancestors\<close>; the first argument counts the iterations that are left.\<close>

fun ancestors_from :: "(TypeDefinitionID \<Rightarrow> TypeDefinition result) \<Rightarrow> nat \<Rightarrow> TypeDefinitionID set \<Rightarrow>
    TypeDefinition \<Rightarrow> TypeDefinition list result" where
  "ancestors_from get 0 seen current = Inl (NewValidation ''type hierarchy exceeds the supported depth'')"
| "ancestors_from get (Suc n) seen current =
     (case td_extendsID current of
        None \<Rightarrow> Inr []
      | Some parentID \<Rightarrow>
          if parentID \<in> seen then Inl (NewValidation ''type hierarchy forms a cycle'')
          else (case get parentID of Inl e \<Rightarrow> Inl e
            | Inr parent \<Rightarrow> map_sum id (\<lambda>out. parent # out)
                (ancestors_from get n (insert parentID seen) parent)))"

definition Ancestors :: "(TypeDefinitionID \<Rightarrow> TypeDefinition result) \<Rightarrow> TypeDefinition \<Rightarrow> TypeDefinition list result" where
  "Ancestors get t = ancestors_from get maxHierarchyDepth {td_id t} t"

definition Chain :: "(TypeDefinitionID \<Rightarrow> TypeDefinition result) \<Rightarrow> TypeDefinition \<Rightarrow> TypeDefinition list result" where
  "Chain get t = map_sum id (\<lambda>ancestors. t # ancestors) (Ancestors get t)"

definition Root :: "(TypeDefinitionID \<Rightarrow> TypeDefinition result) \<Rightarrow> TypeDefinition \<Rightarrow> TypeDefinition result" where
  "Root get t =
     (case Ancestors get t of Inl e \<Rightarrow> Inl e
      | Inr ancestors \<Rightarrow> Inr (if ancestors = [] then t else last ancestors))"

definition IsAncestorOrSelf :: "(TypeDefinitionID \<Rightarrow> TypeDefinition result) \<Rightarrow> TypeDefinition \<Rightarrow>
    TypeDefinitionID \<Rightarrow> bool result" where
  "IsAncestorOrSelf get t candidate =
     (if td_id t = candidate then Inr True
      else map_sum id (list_ex (\<lambda>a. td_id a = candidate)) (Ancestors get t))"

text \<open>One breadth-first level: the accumulator is (seen, out, next).\<close>

fun visit_children :: "TypeDefinition list \<Rightarrow> TypeDefinitionID set \<times> TypeDefinition list \<times> TypeDefinitionID list \<Rightarrow>
    TypeDefinitionID set \<times> TypeDefinition list \<times> TypeDefinitionID list" where
  "visit_children [] acc = acc"
| "visit_children (child # children) (seen, out, nxt) =
     (if td_id child \<in> seen then visit_children children (seen, out, nxt)
      else visit_children children (insert (td_id child) seen, out @ [child], nxt @ [td_id child]))"

fun visit_frontier :: "(TypeDefinitionID \<Rightarrow> TypeDefinition list result) \<Rightarrow> TypeDefinitionID list \<Rightarrow>
    TypeDefinitionID set \<times> TypeDefinition list \<times> TypeDefinitionID list \<Rightarrow>
    (TypeDefinitionID set \<times> TypeDefinition list \<times> TypeDefinitionID list) result" where
  "visit_frontier children [] acc = Inr acc"
| "visit_frontier children (i # frontier) acc =
     (case children i of Inl e \<Rightarrow> Inl e
      | Inr cs \<Rightarrow> visit_frontier children frontier (visit_children cs acc))"

fun descendants_from :: "(TypeDefinitionID \<Rightarrow> TypeDefinition list result) \<Rightarrow> nat \<Rightarrow> TypeDefinitionID set \<Rightarrow>
    TypeDefinition list \<Rightarrow> TypeDefinitionID list \<Rightarrow> TypeDefinition list result" where
  "descendants_from children 0 seen out frontier = Inr out"
| "descendants_from children (Suc n) seen out frontier =
     (if frontier = [] then Inr out
      else (case visit_frontier children frontier (seen, out, []) of Inl e \<Rightarrow> Inl e
        | Inr (seen', out', nxt) \<Rightarrow> descendants_from children n seen' out' nxt))"

definition Descendants :: "(TypeDefinitionID \<Rightarrow> TypeDefinition list result) \<Rightarrow> TypeDefinition \<Rightarrow> TypeDefinition list result" where
  "Descendants children t = descendants_from children maxHierarchyDepth {td_id t} [] [td_id t]"

section \<open>The in-memory repository (memory/definitions.go)\<close>

type_synonym type_store = "TypeSnapshot list"

definition typeDefRepo_Get :: "type_store \<Rightarrow> TypeDefinitionID \<Rightarrow> TypeDefinition result" where
  "typeDefRepo_Get s i =
     (case find (\<lambda>x. ts_ID x = i) s of None \<Rightarrow> Inl (NewNotFound type_AggregateType)
      | Some x \<Rightarrow> Inr (type_Rehydrate x))"

definition typeDefRepo_GetByInternalName :: "type_store \<Rightarrow> TenantID \<Rightarrow> string \<Rightarrow> TypeDefinition result" where
  "typeDefRepo_GetByInternalName s tenant name =
     (case find (\<lambda>x. ts_TenantID x = tenant \<and> ts_InternalName x = name \<and> ts_ArchivedAt x = None) s of
        None \<Rightarrow> Inl (NewNotFound type_AggregateType)
      | Some x \<Rightarrow> Inr (type_Rehydrate x))"

definition typeDefRepo_ListChildren :: "type_store \<Rightarrow> TypeDefinitionID \<Rightarrow> TypeDefinition list result" where
  "typeDefRepo_ListChildren s parentID =
     Inr (sort_key td_internalName (map type_Rehydrate
       (filter (\<lambda>x. ts_ExtendsID x = Some parentID \<and> ts_ArchivedAt x = None) s)))"

fun put_snapshot :: "TypeSnapshot \<Rightarrow> type_store \<Rightarrow> type_store" where
  "put_snapshot x [] = [x]"
| "put_snapshot x (y # ys) = (if ts_ID y = ts_ID x then x # ys else y # put_snapshot x ys)"

definition typeDefRepo_Save :: "type_store \<Rightarrow> TypeDefinition \<Rightarrow> type_store result" where
  "typeDefRepo_Save s t =
     (let snap = type_Snapshot t
      in if ts_ArchivedAt snap = None \<and>
            list_ex (\<lambda>other. \<not> (ts_ID other = ts_ID snap \<or> ts_ArchivedAt other \<noteq> None) \<and>
                       ts_TenantID other = ts_TenantID snap \<and> ts_InternalName other = ts_InternalName snap) s
         then Inl (NewConflict ''a type with this internal name already exists'')
         else Inr (put_snapshot snap s))"

section \<open>Use cases (interactor.go)\<close>

text \<open>
  A use case runs in a unit of work: on an error nothing is written, so the result of a
  failed call is the error alone. A successful call gives the new repository, the snapshot
  it returns and the collected events. Wrapping an error with \<^verbatim>\<open>%w\<close> keeps its code; the prefix it
  adds to the message is left out. \<open>parseID\<close> is the identifier parser of the ULID package.
\<close>

type_synonym type_outcome = "(type_store \<times> TypeSnapshot \<times> type_event list) result"

record TypeCreateInput =
  tc_InternalName :: string
  tc_DisplayName :: string
  tc_Description :: string
  tc_ExtendsID :: string

definition load_extends :: "(string \<Rightarrow> ulid result) \<Rightarrow> type_store \<Rightarrow> string \<Rightarrow> TypeDefinition option result" where
  "load_extends parseID s raw =
     (if raw = [] then Inr None
      else (case parseID raw of Inl e \<Rightarrow> Inl (NewValidation (''extends: '' @ err_msg e))
        | Inr extendsID \<Rightarrow> (case typeDefRepo_Get s extendsID of Inl e \<Rightarrow> Inl e
            | Inr p \<Rightarrow> (case Ancestors (typeDefRepo_Get s) p of Inl e \<Rightarrow> Inl e | Inr _ \<Rightarrow> Inr (Some p)))))"

definition TypeCreate :: "(string \<Rightarrow> ulid result) \<Rightarrow> type_store \<Rightarrow> TenantID \<Rightarrow> TypeCreateInput \<Rightarrow>
    TypeDefinitionID \<Rightarrow> int \<Rightarrow> type_outcome" where
  "TypeCreate parseID s tenant i newid now =
     (case typeDefRepo_GetByInternalName s tenant (tc_InternalName i) of
        Inr _ \<Rightarrow> Inl (NewConflict ''internal name already in use'')
      | Inl e \<Rightarrow>
          if CodeOf e \<noteq> Some CodeNotFound then Inl e
          else (case load_extends parseID s (tc_ExtendsID i) of Inl e \<Rightarrow> Inl e
            | Inr extends \<Rightarrow>
                (case type_New \<lparr>tn_TenantID = tenant, tn_InternalName = tc_InternalName i,
                        tn_DisplayName = tc_DisplayName i, tn_Description = tc_Description i,
                        tn_Extends = extends\<rparr> newid now of
                   Inl e \<Rightarrow> Inl e
                 | Inr (td, evts) \<Rightarrow>
                     (case typeDefRepo_Save s td of Inl e \<Rightarrow> Inl e
                      | Inr s' \<Rightarrow> Inr (s', type_Snapshot td, evts)))))"

definition load_own :: "(string \<Rightarrow> ulid result) \<Rightarrow> type_store \<Rightarrow> TenantID \<Rightarrow> string \<Rightarrow> TypeDefinition result" where
  "load_own parseID s tenant raw =
     (case parseID raw of Inl e \<Rightarrow> Inl (NewValidation (err_msg e))
      | Inr i \<Rightarrow> (case typeDefRepo_Get s i of Inl e \<Rightarrow> Inl e
          | Inr td \<Rightarrow> (case EnsureTenant tenant (td_tenantID td) type_AggregateType of Some e \<Rightarrow> Inl e
              | None \<Rightarrow> Inr td)))"

record TypeUpdateInput =
  tu_ID :: string
  tu_DisplayName :: string
  tu_Description :: string
  tu_Version :: "int option"

definition TypeUpdate :: "(string \<Rightarrow> ulid result) \<Rightarrow> type_store \<Rightarrow> TenantID \<Rightarrow> TypeUpdateInput \<Rightarrow> int \<Rightarrow> type_outcome" where
  "TypeUpdate parseID s tenant i now =
     (case load_own parseID s tenant (tu_ID i) of Inl e \<Rightarrow> Inl e
      | Inr td \<Rightarrow>
          let before = type_Snapshot td
          in if tu_Version i \<noteq> None \<and> tu_Version i \<noteq> Some (ts_Version before)
             then Inl (NewConflict ''the type definition was modified by someone else; reload it and retry'')
             else (case type_Update td (tu_DisplayName i, tu_Description i) now of Inl e \<Rightarrow> Inl e
               | Inr (td', evts) \<Rightarrow>
                   if evts = [] then Inr (s, before, [])
                   else (case typeDefRepo_Save s td' of Inl e \<Rightarrow> Inl e
                     | Inr s' \<Rightarrow> Inr (s', type_Snapshot td', evts))))"

datatype transition_action = ActionArchived | ActionRestored

definition TypeTransition :: "(string \<Rightarrow> ulid result) \<Rightarrow> type_store \<Rightarrow> TenantID \<Rightarrow> string \<Rightarrow> transition_action \<Rightarrow>
    int \<Rightarrow> type_outcome" where
  "TypeTransition parseID s tenant raw action now =
     (case load_own parseID s tenant raw of Inl e \<Rightarrow> Inl e
      | Inr td \<Rightarrow> (case (case action of ActionArchived \<Rightarrow> type_Archive td now | ActionRestored \<Rightarrow> type_Restore td now) of
            Inl e \<Rightarrow> Inl e
          | Inr (td', evts) \<Rightarrow> (case typeDefRepo_Save s td' of Inl e \<Rightarrow> Inl e
              | Inr s' \<Rightarrow> Inr (s', type_Snapshot td', evts))))"

text \<open>\<^verbatim>\<open>ListAllForType\<close> on the page and total that \<^verbatim>\<open>ListByTypeDefinition\<close> returned.\<close>

definition MaxPerType :: nat where "MaxPerType = 1000"

definition ListAllForType :: "(TypeDefinitionID \<Rightarrow> nat \<Rightarrow> (AttributeDefinition list \<times> nat) result) \<Rightarrow>
    TypeDefinitionID \<Rightarrow> AttributeDefinition list result" where
  "ListAllForType listBy i =
     (case listBy i (MaxPerType + 1) of Inl e \<Rightarrow> Inl e
      | Inr (items, count) \<Rightarrow>
          if length items > MaxPerType \<or> (count > 0 \<and> count > length items)
          then Inl (NewValidation ''type declares more attributes than flexitype can resolve in one schema walk'')
          else Inr items)"

fun effective_from :: "(TypeDefinitionID \<Rightarrow> AttributeDefinition list result) \<Rightarrow> Access \<Rightarrow> TypeDefinition list \<Rightarrow>
    (AttrSnapshot \<times> TypeSnapshot) list result" where
  "effective_from attrs access [] = Inr []"
| "effective_from attrs access (link # chain) =
     (case attrs (td_id link) of Inl e \<Rightarrow> Inl e
      | Inr as \<Rightarrow> map_sum id (\<lambda>out. map (\<lambda>a. (attr_Snapshot a, type_Snapshot link))
            (filter (\<lambda>a. CanRead access (ad_internalName a)) as) @ out) (effective_from attrs access chain))"

definition EffectiveAttributes :: "(string \<Rightarrow> ulid result) \<Rightarrow> type_store \<Rightarrow>
    (TypeDefinitionID \<Rightarrow> AttributeDefinition list result) \<Rightarrow> TenantID \<Rightarrow> Access \<Rightarrow> string \<Rightarrow>
    (AttrSnapshot \<times> TypeSnapshot) list result" where
  "EffectiveAttributes parseID s attrs tenant access raw =
     (case load_own parseID s tenant raw of Inl e \<Rightarrow> Inl e
      | Inr t \<Rightarrow> (case Chain (typeDefRepo_Get s) t of Inl e \<Rightarrow> Inl e
          | Inr chain \<Rightarrow> map_sum id (sort_key (\<lambda>(a, _). (as_Group a, as_SortOrder a)))
              (effective_from attrs access chain)))"

section \<open>Lifecycle contracts\<close>

lemma type_snapshot_round:
  "td_kind t \<noteq> KindUnset \<Longrightarrow> type_Rehydrate (type_Snapshot t) = t"
  "ts_Kind x \<noteq> KindUnset \<Longrightarrow> type_Snapshot (type_Rehydrate x) = x"
  by (simp_all add: type_Rehydrate_def type_Snapshot_def)

definition type_core :: "TypeDefinition \<Rightarrow> TypeDefinition" where
  "type_core t = t\<lparr>td_archivedAt := None, td_updatedAt := 0\<rparr>"

definition type_fixed :: "TypeDefinition \<Rightarrow>
    TypeDefinitionID \<times> TenantID \<times> TypeKind \<times> string \<times> TypeDefinitionID option \<times> int" where
  "type_fixed t = (td_id t, td_tenantID t, td_kind t, td_internalName t, td_extendsID t, td_createdAt t)"

interpretation type_life: restorable type_IsArchived type_Archive type_core type_Restore
  by unfold_locales (auto simp: type_Archive_def type_Restore_def type_IsArchived_def type_core_def)

interpretation type_ver: versioned type_IsArchived td_version type_Update type_fixed
  by unfold_locales
     (auto simp: type_Update_def type_fixed_def type_IsArchived_def Let_def split: if_splits prod.splits)

section \<open>The walks on any repository\<close>

text \<open>\<open>linked get t as\<close>: \<open>as\<close> is the whole extends lineage of \<open>t\<close>, nearest parent first.\<close>

fun linked :: "(TypeDefinitionID \<Rightarrow> TypeDefinition result) \<Rightarrow> TypeDefinition \<Rightarrow> TypeDefinition list \<Rightarrow> bool" where
  "linked get t [] \<longleftrightarrow> td_extendsID t = None"
| "linked get t (p # ps) \<longleftrightarrow> (\<exists>i. td_extendsID t = Some i \<and> get i = Inr p) \<and> linked get p ps"

lemma linked_unique: "linked get t as \<Longrightarrow> linked get t bs \<Longrightarrow> as = bs"
proof (induction as arbitrary: t bs)
  case Nil
  then show ?case by (cases bs) auto
next
  case (Cons a as)
  then show ?case by (cases bs) auto
qed

lemma linked_suffix: "linked get t (xs @ a # ys) \<Longrightarrow> linked get a ys"
  by (induction xs arbitrary: t) auto

locale type_lookup =
  fixes get :: "TypeDefinitionID \<Rightarrow> TypeDefinition result"
  assumes get_id: "get i = Inr t \<Longrightarrow> td_id t = i"
begin

lemma ancestors_from_iff:
  "ancestors_from get n seen t = Inr as \<longleftrightarrow>
     linked get t as \<and> length as < n \<and> distinct (map td_id as) \<and> td_id ` set as \<inter> seen = {}"
proof (induction n arbitrary: seen t as)
  case (Suc n)
  show ?case
  proof (cases as)
    case Nil
    then show ?thesis by (auto simp: map_sum_Inr split: option.split sum.split)
  next
    case (Cons p ps)
    have "ancestors_from get (Suc n) seen t = Inr (p # ps) \<longleftrightarrow>
        (\<exists>i. td_extendsID t = Some i \<and> i \<notin> seen \<and> get i = Inr p \<and>
             ancestors_from get n (insert i seen) p = Inr ps)"
      by (auto simp: map_sum_Inr split: option.split sum.split)
    also have "\<dots> \<longleftrightarrow> (\<exists>i. td_extendsID t = Some i \<and> i \<notin> seen \<and> get i = Inr p \<and> td_id p = i \<and>
        linked get p ps \<and> length ps < n \<and> distinct (map td_id ps) \<and> td_id ` set ps \<inter> insert i seen = {})"
      unfolding Suc.IH using get_id by (intro ex_cong1) auto
    also have "\<dots> \<longleftrightarrow> linked get t (p # ps) \<and> length (p # ps) < Suc n \<and>
        distinct (map td_id (p # ps)) \<and> td_id ` set (p # ps) \<inter> seen = {}"
      using get_id by auto
    finally show ?thesis unfolding Cons .
  qed
qed simp

lemma Ancestors_iff:
  "Ancestors get t = Inr as \<longleftrightarrow> linked get t as \<and> length as < maxHierarchyDepth \<and> distinct (map td_id (t # as))"
  by (auto simp: Ancestors_def ancestors_from_iff)

lemma linked_member: "linked get t as \<Longrightarrow> a \<in> set as \<Longrightarrow> get (td_id a) = Inr a"
  by (induction as arbitrary: t) (auto dest: get_id)

text \<open>A finite lineage of a stored type has no repetition, so the walk succeeds on it
  whenever it is short enough.\<close>

lemma linked_distinct:
  assumes "linked get t as" "get (td_id t) = Inr t" shows "distinct (map td_id (t # as))"
  using assms
proof (induction as arbitrary: t)
  case (Cons p ps)
  then obtain i where i: "td_extendsID t = Some i" "get i = Inr p" "linked get p ps" by auto
  have p: "get (td_id p) = Inr p" using get_id [OF i(2)] i(2) by simp
  from Cons.IH [OF i(3) p] have d: "distinct (map td_id (p # ps))" .
  have "td_id t \<notin> td_id ` set (p # ps)"
  proof
    assume "td_id t \<in> td_id ` set (p # ps)"
    then obtain q where q: "q \<in> set (p # ps)" "td_id t = td_id q" by auto
    have "get (td_id q) = Inr q" by (rule linked_member [OF Cons.prems(1) q(1)])
    with Cons.prems(2) have "t = q" unfolding q(2) by simp
    with q(1) have "t \<in> set (p # ps)" by simp
    from split_list [OF this] obtain xs ys where split: "p # ps = xs @ t # ys" by blast
    from Cons.prems(1) have "linked get t ys" unfolding split by (rule linked_suffix)
    from linked_unique [OF Cons.prems(1) this] have "length ys = length (xs @ t # ys)"
      unfolding split by simp
    then show False by simp
  qed
  with d show ?case by simp
qed simp

lemma Ancestors_stored:
  "get (td_id t) = Inr t \<Longrightarrow> Ancestors get t = Inr as \<longleftrightarrow> linked get t as \<and> length as < maxHierarchyDepth"
  using linked_distinct [of t as] by (auto simp: Ancestors_iff)

text \<open>Every type of a lineage has the same root, which is the one that extends nothing.\<close>

lemma Ancestors_member:
  assumes "Ancestors get t = Inr (xs @ a # ys)" shows "Ancestors get a = Inr ys"
  using assms linked_suffix [of get t xs a ys] by (auto simp: Ancestors_iff)

lemma Root_lineage:
  assumes "Ancestors get t = Inr as" "a \<in> set (t # as)"
  shows "Root get a = Root get t"
proof (cases "a \<in> set as")
  case True
  then obtain xs ys where as: "as = xs @ a # ys" by (metis split_list)
  have "Ancestors get a = Inr ys" using assms(1) unfolding as by (rule Ancestors_member)
  with assms(1) show ?thesis unfolding as by (simp add: Root_def)
qed (use assms in auto)

lemma linked_last: "linked get t as \<Longrightarrow> td_extendsID (last (t # as)) = None"
  by (induction as arbitrary: t) auto

lemma Root_extends_nothing:
  assumes "Root get t = Inr r" shows "td_extendsID r = None \<and> Root get r = Inr r"
proof -
  from assms obtain as where as: "Ancestors get t = Inr as" "r = last (t # as)"
    by (auto simp: Root_def split: sum.splits if_splits)
  then have "linked get t as" by (simp add: Ancestors_iff)
  from linked_last [OF this] as(2) have "td_extendsID r = None" by simp
  then show ?thesis by (simp add: Root_def Ancestors_def maxHierarchyDepth_def eval_nat_numeral)
qed

lemma IsAncestorOrSelf_iff:
  assumes "Ancestors get t = Inr as"
  shows "IsAncestorOrSelf get t c = Inr (c \<in> td_id ` set (t # as))"
  using assms by (auto simp: IsAncestorOrSelf_def list_ex_iff)

end

interpretation mem_types: type_lookup "typeDefRepo_Get s" for s
  by unfold_locales (auto simp: typeDefRepo_Get_def find_Some_iff type_Rehydrate_def split: option.splits)

section \<open>The stored hierarchy\<close>

text \<open>\<open>lineage s i n\<close>: the type stored under \<open>i\<close> has exactly \<open>n\<close> ancestors.\<close>

inductive lineage :: "type_store \<Rightarrow> TypeDefinitionID \<Rightarrow> nat \<Rightarrow> bool" for s where
  lin_root: "x \<in> set s \<Longrightarrow> ts_ExtendsID x = None \<Longrightarrow> lineage s (ts_ID x) 0"
| lin_sub: "x \<in> set s \<Longrightarrow> ts_ExtendsID x = Some p \<Longrightarrow> lineage s p n \<Longrightarrow> lineage s (ts_ID x) (Suc n)"

definition live_unique :: "type_store \<Rightarrow> bool" where
  "live_unique s \<longleftrightarrow> (\<forall>x\<in>set s. \<forall>y\<in>set s. ts_ArchivedAt x = None \<longrightarrow> ts_ArchivedAt y = None \<longrightarrow>
     ts_TenantID x = ts_TenantID y \<longrightarrow> ts_InternalName x = ts_InternalName y \<longrightarrow> ts_ID x = ts_ID y)"

definition parents_ok :: "type_store \<Rightarrow> bool" where
  "parents_ok s \<longleftrightarrow> (\<forall>x\<in>set s. \<forall>p. ts_ExtendsID x = Some p \<longrightarrow>
     (\<exists>y\<in>set s. ts_ID y = p \<and> ts_TenantID y = ts_TenantID x \<and> ts_Kind y = KindEntity))"

definition wf_store :: "type_store \<Rightarrow> bool" where
  "wf_store s \<longleftrightarrow> distinct (map ts_ID s) \<and> live_unique s \<and> parents_ok s
     \<and> (\<forall>x\<in>set s. ts_Kind x \<noteq> KindUnset \<and> (\<exists>n\<le>maxHierarchyDepth. lineage s (ts_ID x) n))"

lemma put_snapshot_ids [simp]: "ts_ID ` set (put_snapshot x s) = insert (ts_ID x) (ts_ID ` set s)"
  by (induction s) auto

lemma put_snapshot_distinct: "distinct (map ts_ID s) \<Longrightarrow> distinct (map ts_ID (put_snapshot x s))"
proof (induction s)
  case (Cons y ys)
  have "ts_ID y \<in> ts_ID ` set (put_snapshot x ys) \<longleftrightarrow> ts_ID y = ts_ID x \<or> ts_ID y \<in> ts_ID ` set ys"
    by (simp only: put_snapshot_ids insert_iff)
  with Cons show ?case by auto
qed simp

lemma set_put_snapshot: "distinct (map ts_ID s) \<Longrightarrow>
    set (put_snapshot x s) = insert x {y \<in> set s. ts_ID y \<noteq> ts_ID x}"
proof (induction s)
  case (Cons a s)
  have "ts_ID y \<noteq> ts_ID a" if "y \<in> set s" for y using Cons.prems that by (force simp: image_iff)
  with Cons show ?case by auto
qed simp

lemma Get_iff:
  assumes "distinct (map ts_ID s)"
  shows "typeDefRepo_Get s i = Inr t \<longleftrightarrow> (\<exists>x\<in>set s. ts_ID x = i \<and> t = type_Rehydrate x)"
proof -
  have "find (\<lambda>x. ts_ID x = i) s = Some x \<longleftrightarrow> x \<in> set s \<and> ts_ID x = i" for x
    using assms by (induction s) (auto simp: image_iff)
  note found = this
  show ?thesis
  proof (cases "find (\<lambda>x. ts_ID x = i) s")
    case None
    with found show ?thesis unfolding typeDefRepo_Get_def None by auto
  next
    case (Some a)
    with found have "x = a" if "x \<in> set s" "ts_ID x = i" for x using that by (metis option.inject)
    moreover have "a \<in> set s" "ts_ID a = i" using found Some by auto
    ultimately show ?thesis unfolding typeDefRepo_Get_def Some option.case sum.inject by blast
  qed
qed

lemma lineage_mono:
  assumes "\<And>x. x \<in> set s \<Longrightarrow> \<exists>y\<in>set s'. ts_ID y = ts_ID x \<and> ts_ExtendsID y = ts_ExtendsID x"
    and "lineage s i n" shows "lineage s' i n"
  using assms(2)
proof (induction rule: lineage.induct)
  case (lin_root x)
  then obtain y where "y \<in> set s'" "ts_ID y = ts_ID x" "ts_ExtendsID y = None" using assms(1) by metis
  then show ?case using lineage.lin_root [of y s'] by simp
next
  case (lin_sub x p n)
  then obtain y where "y \<in> set s'" "ts_ID y = ts_ID x" "ts_ExtendsID y = Some p" using assms(1) by metis
  then show ?case using lineage.lin_sub [of y s' p n] lin_sub.IH by simp
qed

lemma Rehydrate_simps [simp]:
  "td_id (type_Rehydrate x) = ts_ID x" "td_extendsID (type_Rehydrate x) = ts_ExtendsID x"
  "td_tenantID (type_Rehydrate x) = ts_TenantID x" "td_archivedAt (type_Rehydrate x) = ts_ArchivedAt x"
  "td_internalName (type_Rehydrate x) = ts_InternalName x" "td_version (type_Rehydrate x) = ts_Version x"
  by (simp_all add: type_Rehydrate_def)

lemma Snapshot_simps [simp]:
  "ts_ID (type_Snapshot t) = td_id t" "ts_ExtendsID (type_Snapshot t) = td_extendsID t"
  "ts_TenantID (type_Snapshot t) = td_tenantID t" "ts_ArchivedAt (type_Snapshot t) = td_archivedAt t"
  "ts_InternalName (type_Snapshot t) = td_internalName t" "ts_Kind (type_Snapshot t) = td_kind t"
  "ts_Version (type_Snapshot t) = td_version t"
  by (simp_all add: type_Snapshot_def)

lemma linked_lineage:
  assumes d: "distinct (map ts_ID s)"
  shows "x \<in> set s \<Longrightarrow> linked (typeDefRepo_Get s) (type_Rehydrate x) as \<Longrightarrow> lineage s (ts_ID x) (length as)"
proof (induction as arbitrary: x)
  case (Cons p ps)
  then obtain i where i: "ts_ExtendsID x = Some i" "typeDefRepo_Get s i = Inr p"
      "linked (typeDefRepo_Get s) p ps" by auto
  then obtain y where y: "y \<in> set s" "ts_ID y = i" "p = type_Rehydrate y" by (auto simp: Get_iff [OF d])
  then have "lineage s i (length ps)" using Cons.IH [of y] i(3) by simp
  with Cons.prems(1) i(1) show ?case by (simp add: lin_sub)
qed (simp add: lin_root)

lemma lineage_linked:
  assumes d: "distinct (map ts_ID s)"
  shows "lineage s i n \<Longrightarrow> x \<in> set s \<Longrightarrow> ts_ID x = i \<Longrightarrow>
    \<exists>as. linked (typeDefRepo_Get s) (type_Rehydrate x) as \<and> length as = n"
proof (induction arbitrary: x rule: lineage.induct)
  case (lin_root y)
  then have "x = y" using d by (metis distinct_map inj_onD)
  with lin_root show ?case by (intro exI [of _ "[]"]) simp
next
  case (lin_sub y p n)
  then have [simp]: "x = y" using d by (metis distinct_map inj_onD)
  from lin_sub.hyps(3) obtain z where z: "z \<in> set s" "ts_ID z = p" by cases auto
  from lin_sub.IH [OF z] obtain as where as: "linked (typeDefRepo_Get s) (type_Rehydrate z) as" "length as = n"
    by blast
  have "typeDefRepo_Get s p = Inr (type_Rehydrate z)" using z by (auto simp: Get_iff [OF d])
  with as lin_sub.hyps(2) show ?case by (intro exI [of _ "type_Rehydrate z # as"]) simp
qed

lemma stored_Get: "distinct (map ts_ID s) \<Longrightarrow> x \<in> set s \<Longrightarrow>
    typeDefRepo_Get s (ts_ID x) = Inr (type_Rehydrate x)"
  by (auto simp: Get_iff)

text \<open>The walk of a stored type: its lineage when that has fewer than ten types, and the depth
  error when it has more. It never reports a cycle or a missing parent.\<close>

lemma depth_error:
  assumes "type_lookup get"
  shows "linked get t as \<Longrightarrow> distinct (map td_id as) \<Longrightarrow> td_id ` set as \<inter> seen = {} \<Longrightarrow> n \<le> length as \<Longrightarrow>
    ancestors_from get n seen t = Inl (NewValidation ''type hierarchy exceeds the supported depth'')"
proof (induction as arbitrary: n seen t)
  case (Cons p ps)
  then obtain i where i: "td_extendsID t = Some i" "get i = Inr p" "linked get p ps" by auto
  have "td_id p = i" using type_lookup.get_id [OF assms i(2)] .
  with Cons i show ?case by (cases n) auto
qed simp

lemma Ancestors_reachable:
  assumes "wf_store s" "x \<in> set s"
  obtains (walk) as where "linked (typeDefRepo_Get s) (type_Rehydrate x) as" "length as < maxHierarchyDepth"
      "Ancestors (typeDefRepo_Get s) (type_Rehydrate x) = Inr as"
    | (deep) "lineage s (ts_ID x) maxHierarchyDepth"
      "Ancestors (typeDefRepo_Get s) (type_Rehydrate x)
         = Inl (NewValidation ''type hierarchy exceeds the supported depth'')"
proof -
  from assms have d: "distinct (map ts_ID s)" by (simp add: wf_store_def)
  from assms obtain n where n: "n \<le> maxHierarchyDepth" "lineage s (ts_ID x) n" by (auto simp: wf_store_def)
  from lineage_linked [OF d n(2) assms(2)] obtain as
    where as: "linked (typeDefRepo_Get s) (type_Rehydrate x) as" "length as = n" by auto
  have get: "typeDefRepo_Get s (td_id (type_Rehydrate x)) = Inr (type_Rehydrate x)"
    using stored_Get [OF d assms(2)] by simp
  show thesis
  proof (cases "n < maxHierarchyDepth")
    case True
    with as get mem_types.Ancestors_stored [of s "type_Rehydrate x" as] show thesis by (intro walk) auto
  next
    case False
    with n have "n = maxHierarchyDepth" by simp
    moreover have "distinct (map td_id (type_Rehydrate x # as))"
      by (rule mem_types.linked_distinct [OF as(1) get])
    ultimately have "Ancestors (typeDefRepo_Get s) (type_Rehydrate x)
        = Inl (NewValidation ''type hierarchy exceeds the supported depth'')"
      unfolding Ancestors_def using as
      by (intro depth_error [OF mem_types.type_lookup_axioms as(1)]) auto
    with n \<open>n = maxHierarchyDepth\<close> show thesis by (intro deep) auto
  qed
qed

section \<open>Every use case keeps the repository well formed\<close>

lemma Save_cases:
  assumes "typeDefRepo_Save s t = Inr s'"
  shows "s' = put_snapshot (type_Snapshot t) s"
    and "td_archivedAt t = None \<Longrightarrow> x \<in> set s \<Longrightarrow> ts_ArchivedAt x = None \<Longrightarrow> ts_TenantID x = td_tenantID t \<Longrightarrow>
      ts_InternalName x = td_internalName t \<Longrightarrow> ts_ID x = td_id t"
  using assms by (auto simp: typeDefRepo_Save_def Let_def list_ex_iff split: if_splits)

lemma Save_live_unique:
  assumes "distinct (map ts_ID s)" "live_unique s" "typeDefRepo_Save s t = Inr s'" shows "live_unique s'"
proof -
  have set: "set s' = insert (type_Snapshot t) {y \<in> set s. ts_ID y \<noteq> td_id t}"
    using set_put_snapshot [OF assms(1), of "type_Snapshot t"] Save_cases(1) [OF assms(3)] by simp
  have old: "ts_ID x = ts_ID y"
    if "x \<in> set s" "y \<in> set s" "ts_ArchivedAt x = None" "ts_ArchivedAt y = None"
      "ts_TenantID x = ts_TenantID y" "ts_InternalName x = ts_InternalName y" for x y
    using assms(2) that unfolding live_unique_def by blast
  show ?thesis
    unfolding live_unique_def set
  proof (intro ballI impI, elim insertE CollectE conjE)
    fix x y
    assume "x = type_Snapshot t" "y \<in> set s" "ts_ArchivedAt x = None" "ts_ArchivedAt y = None"
      "ts_TenantID x = ts_TenantID y" "ts_InternalName x = ts_InternalName y"
    then show "ts_ID x = ts_ID y" using Save_cases(2) [OF assms(3), of y] by simp
  next
    fix x y
    assume "y = type_Snapshot t" "x \<in> set s" "ts_ArchivedAt x = None" "ts_ArchivedAt y = None"
      "ts_TenantID x = ts_TenantID y" "ts_InternalName x = ts_InternalName y"
    then show "ts_ID x = ts_ID y" using Save_cases(2) [OF assms(3), of x] by simp
  next
    fix x y
    assume "x \<in> set s" "y \<in> set s" "ts_ArchivedAt x = None" "ts_ArchivedAt y = None"
      "ts_TenantID x = ts_TenantID y" "ts_InternalName x = ts_InternalName y"
    then show "ts_ID x = ts_ID y" by (rule old)
  qed simp
qed

text \<open>A save of an updated type: identity, tenant, kind and parent as stored.\<close>

lemma Save_existing_wf:
  assumes wf: "wf_store s" and save: "typeDefRepo_Save s t = Inr s'" and x: "x \<in> set s"
    and same: "td_id t = ts_ID x" "td_extendsID t = ts_ExtendsID x" "td_tenantID t = ts_TenantID x"
      "td_kind t = ts_Kind x"
  shows "wf_store s'"
proof -
  from wf have d: "distinct (map ts_ID s)" by (simp add: wf_store_def)
  have set: "set s' = insert (type_Snapshot t) {y \<in> set s. ts_ID y \<noteq> ts_ID x}"
    using set_put_snapshot [OF d, of "type_Snapshot t"] Save_cases(1) [OF save] same by simp
  have only: "y = x" if "y \<in> set s" "ts_ID y = ts_ID x" for y using d that x by (metis distinct_map inj_onD)
  have keep: "\<exists>z\<in>set s'. ts_ID z = ts_ID y \<and> ts_ExtendsID z = ts_ExtendsID y \<and> ts_TenantID z = ts_TenantID y
      \<and> ts_Kind z = ts_Kind y" if "y \<in> set s" for y
  proof (cases "ts_ID y = ts_ID x")
    case True
    with only that same show ?thesis unfolding set by (intro bexI [of _ "type_Snapshot t"]) auto
  qed (use that set in auto)
  have orig: "\<exists>z\<in>set s. ts_ID z = ts_ID y \<and> ts_ExtendsID z = ts_ExtendsID y \<and> ts_TenantID z = ts_TenantID y
      \<and> ts_Kind z = ts_Kind y" if "y \<in> set s'" for y
    using that x same unfolding set by auto
  have "lineage s' i n" if "lineage s i n" for i n
    by (rule lineage_mono [OF _ that]) (use keep in blast)
  then have lin: "\<forall>y\<in>set s'. ts_Kind y \<noteq> KindUnset \<and> (\<exists>n\<le>maxHierarchyDepth. lineage s' (ts_ID y) n)"
    using orig wf unfolding wf_store_def by metis
  have "parents_ok s'"
    unfolding parents_ok_def
  proof (intro ballI allI impI)
    fix y p assume y: "y \<in> set s'" "ts_ExtendsID y = Some p"
    from orig [OF y(1)] y(2) obtain z where z: "z \<in> set s" "ts_ExtendsID z = Some p" "ts_TenantID z = ts_TenantID y"
      by auto
    then obtain q where "q \<in> set s" "ts_ID q = p" "ts_TenantID q = ts_TenantID y" "ts_Kind q = KindEntity"
      using wf unfolding wf_store_def parents_ok_def by metis
    with keep [of q] show "\<exists>q\<in>set s'. ts_ID q = p \<and> ts_TenantID q = ts_TenantID y \<and> ts_Kind q = KindEntity"
      by auto
  qed
  moreover have "distinct (map ts_ID s')"
    using put_snapshot_distinct [OF d] Save_cases(1) [OF save] by simp
  moreover have "live_unique s'" using Save_live_unique [OF d _ save] wf by (simp add: wf_store_def)
  ultimately show ?thesis using lin by (simp add: wf_store_def)
qed

text \<open>A save of a new type under a stored parent with a short enough lineage.\<close>

lemma Save_new_wf:
  assumes wf: "wf_store s" and save: "typeDefRepo_Save s t = Inr s'" and fresh: "td_id t \<notin> ts_ID ` set s"
    and kind: "td_kind t \<noteq> KindUnset"
    and parent: "\<And>p. td_extendsID t = Some p \<Longrightarrow> (\<exists>y\<in>set s. ts_ID y = p \<and> ts_TenantID y = td_tenantID t \<and> ts_Kind y = KindEntity)
      \<and> (\<exists>n<maxHierarchyDepth. lineage s p n)"
  shows "wf_store s'"
proof -
  from wf have d: "distinct (map ts_ID s)" by (simp add: wf_store_def)
  have "{y \<in> set s. ts_ID y \<noteq> td_id t} = set s" using fresh by (auto simp: image_iff)
  then have set: "set s' = insert (type_Snapshot t) (set s)"
    using set_put_snapshot [OF d, of "type_Snapshot t"] Save_cases(1) [OF save] by simp
  have mono: "lineage s' i n" if "lineage s i n" for i n
    by (rule lineage_mono [OF _ that]) (auto simp: set)
  have new: "\<exists>n\<le>maxHierarchyDepth. lineage s' (td_id t) n"
  proof (cases "td_extendsID t")
    case None
    then show ?thesis using lin_root [of "type_Snapshot t" s'] by (intro exI [of _ 0]) (simp add: set)
  next
    case (Some q)
    with parent mono obtain n where "n < maxHierarchyDepth" "lineage s' q n" by blast
    then show ?thesis using lin_sub [of "type_Snapshot t" s' q n] Some by (intro exI [of _ "Suc n"]) (simp add: set)
  qed
  have lin: "\<forall>y\<in>set s'. ts_Kind y \<noteq> KindUnset \<and> (\<exists>n\<le>maxHierarchyDepth. lineage s' (ts_ID y) n)"
    unfolding set
  proof (intro ballI, elim insertE)
    fix y assume "y \<in> set s"
    then show "ts_Kind y \<noteq> KindUnset \<and> (\<exists>n\<le>maxHierarchyDepth. lineage s' (ts_ID y) n)"
      using wf mono unfolding wf_store_def by metis
  qed (use new kind in simp)
  have "parents_ok s'"
    unfolding parents_ok_def set
  proof (intro ballI allI impI, elim insertE)
    fix y q assume "ts_ExtendsID y = Some q" "y = type_Snapshot t"
    then show "\<exists>z\<in>insert (type_Snapshot t) (set s). ts_ID z = q \<and> ts_TenantID z = ts_TenantID y \<and> ts_Kind z = KindEntity"
      using parent by auto
  next
    fix y q assume "ts_ExtendsID y = Some q" "y \<in> set s"
    then show "\<exists>z\<in>insert (type_Snapshot t) (set s). ts_ID z = q \<and> ts_TenantID z = ts_TenantID y \<and> ts_Kind z = KindEntity"
      using wf unfolding wf_store_def parents_ok_def by blast
  qed
  moreover have "distinct (map ts_ID s')"
    using put_snapshot_distinct [OF d] Save_cases(1) [OF save] by simp
  moreover have "live_unique s'" using Save_live_unique [OF d _ save] wf by (simp add: wf_store_def)
  ultimately show ?thesis using lin by (simp add: wf_store_def)
qed

text \<open>The use cases.\<close>

lemma load_own_ok:
  assumes "wf_store s" "load_own parseID s tenant raw = Inr td"
  shows "\<exists>x\<in>set s. td = type_Rehydrate x \<and> ts_TenantID x = tenant \<and> ts_Kind x \<noteq> KindUnset"
  using assms Get_iff [of s]
  by (auto simp: load_own_def wf_store_def EnsureTenant_def split: sum.splits option.splits if_splits)

lemma load_extends_ok:
  assumes wf: "wf_store s" and load: "load_extends parseID s raw = Inr (Some p)"
  shows "\<exists>x\<in>set s. p = type_Rehydrate x \<and> (\<exists>n<maxHierarchyDepth. lineage s (ts_ID x) n)"
proof -
  from wf have d: "distinct (map ts_ID s)" by (simp add: wf_store_def)
  from load obtain i as where i: "typeDefRepo_Get s i = Inr p" "Ancestors (typeDefRepo_Get s) p = Inr as"
    by (auto simp: load_extends_def split: if_splits sum.splits)
  then obtain x where x: "x \<in> set s" "p = type_Rehydrate x" by (auto simp: Get_iff [OF d])
  have "linked (typeDefRepo_Get s) p as" "length as < maxHierarchyDepth"
    using i(2) by (auto simp: mem_types.Ancestors_iff)
  with linked_lineage [OF d x(1), of as] x show ?thesis by blast
qed

lemma Rehydrate_kind: "ts_Kind x \<noteq> KindUnset \<Longrightarrow> td_kind (type_Rehydrate x) = ts_Kind x"
  by (simp add: type_Rehydrate_def)

lemma type_New_ok:
  assumes "type_New i newid now = Inr (t, evts)"
  shows "td_id t = newid" "td_kind t = KindEntity" "td_extendsID t = map_option td_id (tn_Extends i)"
    "tn_Extends i = Some p \<Longrightarrow> td_kind p = KindEntity \<and> td_tenantID p = td_tenantID t \<and> \<not> type_IsArchived p"
    "internalNamePattern (td_internalName t)" "td_displayName t \<noteq> []" "length evts = 1"
  using assms by (auto simp: type_New_def Let_def extends_err_def split: if_splits option.splits)

lemma TypeCreate_wf [flexi_wf]:
  assumes wf: "wf_store s" and fresh: "newid \<notin> ts_ID ` set s"
    and create: "TypeCreate parseID s tenant i newid now = Inr (s', snap, evts)"
  shows "wf_store s'"
proof -
  from create obtain extends td evs where
      load: "load_extends parseID s (tc_ExtendsID i) = Inr extends" and
      new: "type_New \<lparr>tn_TenantID = tenant, tn_InternalName = tc_InternalName i, tn_DisplayName = tc_DisplayName i,
        tn_Description = tc_Description i, tn_Extends = extends\<rparr> newid now = Inr (td, evs)" and
      save: "typeDefRepo_Save s td = Inr s'"
    by (auto simp: TypeCreate_def split: sum.splits if_splits prod.splits)
  note td = type_New_ok [OF new]
  show ?thesis
  proof (rule Save_new_wf [OF wf save])
    fix p assume "td_extendsID td = Some p"
    then obtain q where q: "extends = Some q" "p = td_id q" using td(3) by auto
    from load_extends_ok [OF wf load [unfolded q(1)]] obtain x n
      where x: "x \<in> set s" "q = type_Rehydrate x" "n < maxHierarchyDepth" "lineage s (ts_ID x) n" by blast
    have "td_kind q = ts_Kind x" using wf x Rehydrate_kind unfolding wf_store_def by blast
    moreover have "td_kind q = KindEntity" "td_tenantID q = td_tenantID td" using td(4) [of q] q(1) by auto
    ultimately show "(\<exists>y\<in>set s. ts_ID y = p \<and> ts_TenantID y = td_tenantID td \<and> ts_Kind y = KindEntity) \<and>
        (\<exists>n<maxHierarchyDepth. lineage s p n)"
      using x q(2) by auto
  qed (use td fresh in auto)
qed

lemma TypeUpdate_wf [flexi_wf]:
  assumes wf: "wf_store s" and upd: "TypeUpdate parseID s tenant i now = Inr (s', snap, evts)"
  shows "wf_store s'"
proof -
  from upd obtain td where own: "load_own parseID s tenant (tu_ID i) = Inr td"
    by (auto simp: TypeUpdate_def split: sum.splits)
  from load_own_ok [OF wf own] obtain x where x: "x \<in> set s" "td = type_Rehydrate x" "ts_Kind x \<noteq> KindUnset" by blast
  from upd own have "s' = s \<or> (\<exists>td' es. type_Update td (tu_DisplayName i, tu_Description i) now = Inr (td', es) \<and>
      typeDefRepo_Save s td' = Inr s')"
    by (auto simp: TypeUpdate_def Let_def split: sum.splits if_splits prod.splits)
  then show ?thesis
  proof
    assume "\<exists>td' es. type_Update td (tu_DisplayName i, tu_Description i) now = Inr (td', es) \<and>
      typeDefRepo_Save s td' = Inr s'"
    then obtain td' es where td': "type_Update td (tu_DisplayName i, tu_Description i) now = Inr (td', es)"
      "typeDefRepo_Save s td' = Inr s'" by blast
    from type_ver.update_step [OF td'(1)] have "type_fixed td' = type_fixed td" by blast
    with x show ?thesis
      by (intro Save_existing_wf [OF wf td'(2) x(1)]) (auto simp: type_fixed_def Rehydrate_kind)
  qed (use wf in simp)
qed

lemma TypeTransition_wf [flexi_wf]:
  assumes wf: "wf_store s" and tr: "TypeTransition parseID s tenant raw action now = Inr (s', snap, evts)"
  shows "wf_store s'"
proof -
  from tr obtain td where own: "load_own parseID s tenant raw = Inr td"
    by (auto simp: TypeTransition_def split: sum.splits)
  from load_own_ok [OF wf own] obtain x where x: "x \<in> set s" "td = type_Rehydrate x" "ts_Kind x \<noteq> KindUnset" by blast
  from tr own obtain td' es where td': "typeDefRepo_Save s td' = Inr s'"
      "type_Archive td now = Inr (td', es) \<or> type_Restore td now = Inr (td', es)"
    by (cases action) (fastforce simp: TypeTransition_def split: sum.splits)+
  from td'(2) have "type_fixed td' = type_fixed td"
    by (auto simp: type_Archive_def type_Restore_def type_fixed_def split: if_splits)
  with x show ?thesis
    by (intro Save_existing_wf [OF wf td'(1) x(1)]) (auto simp: type_fixed_def Rehydrate_kind)
qed

text \<open>The repositories that the use cases reach from the empty one; a constructor draws an
  identifier that is not in use.\<close>

inductive types_reachable :: "(string \<Rightarrow> ulid result) \<Rightarrow> type_store \<Rightarrow> bool" for parseID where
  types_empty: "types_reachable parseID []"
| types_create: "types_reachable parseID s \<Longrightarrow> newid \<notin> ts_ID ` set s \<Longrightarrow>
    TypeCreate parseID s tenant i newid now = Inr (s', snap, evts) \<Longrightarrow> types_reachable parseID s'"
| types_update: "types_reachable parseID s \<Longrightarrow>
    TypeUpdate parseID s tenant u now = Inr (s', snap, evts) \<Longrightarrow> types_reachable parseID s'"
| types_transition: "types_reachable parseID s \<Longrightarrow>
    TypeTransition parseID s tenant raw action now = Inr (s', snap, evts) \<Longrightarrow> types_reachable parseID s'"
| types_attribute_set: "types_reachable parseID s \<Longrightarrow> newid \<notin> ts_ID ` set s \<Longrightarrow>
    NewAttributeSet tenant iname dname newid now = Inr (t, evts) \<Longrightarrow> typeDefRepo_Save s t = Inr s' \<Longrightarrow>
    types_reachable parseID s'"

lemma types_reachable_wf: "types_reachable parseID s \<Longrightarrow> wf_store s"
proof (induction rule: types_reachable.induct)
  case types_empty
  then show ?case by (simp add: wf_store_def live_unique_def parents_ok_def)
next
  case (types_attribute_set s newid tenant iname dname now t evts s')
  from types_attribute_set.hyps(3) obtain u i where u: "t = u\<lparr>td_kind := KindRelationshipAttributes\<rparr>"
      "type_New i newid now = Inr (u, evts)" "tn_Extends i = None"
    by (auto simp: NewAttributeSet_def split: sum.splits)
  with type_New_ok [OF u(2)] have "td_id t = newid" "td_extendsID t = None" "td_kind t = KindRelationshipAttributes"
    by simp_all
  then show ?case
    by (intro Save_new_wf [OF types_attribute_set.IH types_attribute_set.hyps(4)])
       (use types_attribute_set.hyps(2) in auto)
qed (rule flexi_wf; assumption)+

section \<open>The effective schema\<close>

text \<open>The attributes a caller sees: those that the types of the chain declare and the policy lets it
  read, each with the type that declares it, ordered by group and sort order.\<close>

lemma effective_from_set:
  assumes "effective_from attrs access chain = Inr out"
  shows "set out = {(attr_Snapshot a, type_Snapshot link) | a link as. link \<in> set chain \<and> attrs (td_id link) = Inr as \<and>
      a \<in> set as \<and> CanRead access (ad_internalName a)} \<and>
    length out = (\<Sum>link\<leftarrow>chain. case attrs (td_id link) of Inr as \<Rightarrow>
      length (filter (\<lambda>a. CanRead access (ad_internalName a)) as) | Inl _ \<Rightarrow> 0)"
  using assms
proof (induction chain arbitrary: out)
  case (Cons link chain)
  then obtain as rest where as: "attrs (td_id link) = Inr as" "effective_from attrs access chain = Inr rest"
      "out = map (\<lambda>a. (attr_Snapshot a, type_Snapshot link)) (filter (\<lambda>a. CanRead access (ad_internalName a)) as) @ rest"
    by (auto simp: map_sum_Inr split: sum.splits)
  from Cons.IH [OF as(2)] as(1) show ?case unfolding as(3) by auto
qed simp

lemma EffectiveAttributes_exact:
  assumes "EffectiveAttributes parseID s attrs tenant access raw = Inr out"
  shows "\<exists>t chain. load_own parseID s tenant raw = Inr t \<and> Chain (typeDefRepo_Get s) t = Inr chain \<and>
    sorted (map (\<lambda>(a, _). (as_Group a, as_SortOrder a)) out) \<and>
    set out = {(attr_Snapshot a, type_Snapshot link) | a link as. link \<in> set chain \<and> attrs (td_id link) = Inr as \<and>
      a \<in> set as \<and> CanRead access (ad_internalName a)}"
proof -
  from assms obtain t chain out' where t: "load_own parseID s tenant raw = Inr t" "Chain (typeDefRepo_Get s) t = Inr chain"
      "effective_from attrs access chain = Inr out'" "out = sort_key (\<lambda>(a, _). (as_Group a, as_SortOrder a)) out'"
    by (auto simp: EffectiveAttributes_def map_sum_Inr split: sum.splits)
  from effective_from_set [OF t(3)] t show ?thesis by auto
qed

end
