(* ===== verification/Paging.thy ===== *)
theory Paging
  imports Typedefs
begin

text \<open>
  Keyset pages: \<^verbatim>\<open>pkg/db/pagination.go\<close>, the \<^verbatim>\<open>paginate\<close> function of the in-memory backend
  (\<^verbatim>\<open>infrastructure/memory/store.go\<close>) with Go's \<^verbatim>\<open>sort.Search\<close>, the type list on top of them, and
  the loop every full sweep of the program runs (export, reindex, completeness, deduplication).

  The text of a cursor is base64 over JSON and its values are checked with \<^verbatim>\<open>time.Parse\<close> and
  \<^verbatim>\<open>strconv.ParseFloat\<close>; these engines are the fields of \<open>keyset_lib\<close>. What the code relies on of the first
  two is \<open>cursor_exact\<close>.
\<close>

section \<open>Cursors and pages (pagination.go)\<close>

record keyset_lib =
  ks_encode :: "string list \<Rightarrow> string"                 \<comment> \<open>base64 of the JSON array\<close>
  ks_decode :: "string \<Rightarrow> string list option"           \<comment> \<open>and back; \<open>None\<close> is malformed\<close>
  ks_time :: "string \<Rightarrow> string \<Rightarrow> bool"                 \<comment> \<open>time.Parse of a layout and a value\<close>
  ks_float :: "string \<Rightarrow> bool"                          \<comment> \<open>strconv.ParseFloat of the trimmed text\<close>

definition defaultPageSize :: int where "defaultPageSize = 20"
definition maxPageSize :: int where "maxPageSize = 200"

record Page =
  pg_Limit :: int
  pg_Cursor :: string
  pg_WantTotal :: bool
  pg_Stable :: bool

record PageArgs =
  pa_Limit :: "int option"
  pa_Cursor :: "string option"
  pa_WantTotal :: bool

record PageInfo =
  HasNextPage :: bool
  HasPreviousPage :: bool
  NextCursor :: "string option"
  TotalCount :: "int option"

abbreviation ErrInvalidCursor :: goerr where
  "ErrInvalidCursor \<equiv> NewValidation ''invalid cursor''"

definition EncodeKeyset :: "keyset_lib \<Rightarrow> string list \<Rightarrow> string" where
  "EncodeKeyset lib values = ks_encode lib values"

definition DecodeKeyset :: "keyset_lib \<Rightarrow> string \<Rightarrow> string list result" where
  "DecodeKeyset lib cursor =
     (case ks_decode lib cursor of None \<Rightarrow> Inl ErrInvalidCursor | Some values \<Rightarrow> Inr values)"

definition page_Resolve :: "keyset_lib \<Rightarrow> PageArgs \<Rightarrow> Page result" where
  "page_Resolve lib a =
     (let limit = (case pa_Limit a of None \<Rightarrow> Inr defaultPageSize
            | Some l \<Rightarrow> if l < 1 then Inl (PlainErr ''limit must be a positive integer'')
                        else Inr (if l > maxPageSize then maxPageSize else l));
          cursor = (case pa_Cursor a of None \<Rightarrow> Inr []
            | Some c \<Rightarrow> if c = [] then Inr []
                        else (case DecodeKeyset lib c of Inl _ \<Rightarrow> Inl (PlainErr ''invalid cursor'') | Inr _ \<Rightarrow> Inr c))
      in (case limit of Inl e \<Rightarrow> Inl e
          | Inr l \<Rightarrow> (case cursor of Inl e \<Rightarrow> Inl e
              | Inr c \<Rightarrow> Inr \<lparr>pg_Limit = l, pg_Cursor = c, pg_WantTotal = pa_WantTotal a, pg_Stable = False\<rparr>)))"

definition FetchLimit :: "Page \<Rightarrow> int" where
  "FetchLimit p = pg_Limit p + 1"

definition KeysetPage :: "Page \<Rightarrow> 'a list \<Rightarrow> int option \<Rightarrow> ('a \<Rightarrow> string) \<Rightarrow> 'a list \<times> PageInfo" where
  "KeysetPage page items count cursorOf =
     (let hasNext = int (length items) > pg_Limit page;
          items = (if hasNext then take (nat (pg_Limit page)) items else items);
          info = \<lparr>HasNextPage = hasNext, HasPreviousPage = pg_Cursor page \<noteq> [], NextCursor = None, TotalCount = count\<rparr>
      in (items, if hasNext \<and> items \<noteq> [] then info\<lparr>NextCursor := Some (cursorOf (last items))\<rparr> else info))"

definition KeysetTotal :: "Page \<Rightarrow> int \<Rightarrow> int option" where
  "KeysetTotal page count = (if \<not> pg_WantTotal page then None else Some count)"

record KeysetColumn =
  kc_Expr :: string
  kc_Desc :: bool
  kc_Cast :: string

datatype castKind = castText | castTime | castNumber

text \<open>The casts of the program are ASCII text.\<close>

definition trim_space :: "string \<Rightarrow> string" where
  "trim_space s =
     (let sp = (\<lambda>c. c \<in> set [CHR '' '', CHR 0x09, CHR 0x0A, CHR 0x0B, CHR 0x0C, CHR 0x0D])
      in rev (dropWhile sp (rev (dropWhile sp s))))"

definition trim_prefix :: "string \<Rightarrow> string \<Rightarrow> string" where
  "trim_prefix p s = (if take (length p) s = p then drop (length p) s else s)"

definition column_kind :: "KeysetColumn \<Rightarrow> castKind" where
  "column_kind c =
     (let k = ascii_lower (trim_prefix ''::'' (trim_space (kc_Cast c)))
      in if k \<in> set [''timestamptz'', ''timestamp'', ''timestamp with time zone'', ''timestamp without time zone'', ''date'']
         then castTime
         else if k \<in> set [''int'', ''int2'', ''int4'', ''int8'', ''smallint'', ''integer'', ''bigint'', ''numeric'', ''decimal'',
                ''real'', ''float4'', ''float8'', ''double precision'']
         then castNumber else castText)"

definition keysetTimeFormats :: "string list" where
  "keysetTimeFormats = [''2006-01-02T15:04:05.000000000Z07:00'', ''2006-01-02T15:04:05.999999999Z07:00'',
     ''2006-01-02T15:04:05Z07:00'', ''2006-01-02'']"

definition parsesAsTime :: "keyset_lib \<Rightarrow> string \<Rightarrow> bool" where
  "parsesAsTime lib v = list_ex (\<lambda>layout. ks_time lib layout v) keysetTimeFormats"

definition column_accepts :: "keyset_lib \<Rightarrow> KeysetColumn \<Rightarrow> string \<Rightarrow> bool" where
  "column_accepts lib col v =
     (case column_kind col of
        castTime \<Rightarrow> parsesAsTime lib v
      | castNumber \<Rightarrow> ks_float lib v
      | castText \<Rightarrow> True)"

definition ValidateKeyset :: "keyset_lib \<Rightarrow> KeysetColumn list \<Rightarrow> string \<Rightarrow> string list result" where
  "ValidateKeyset lib cols cursor =
     (case DecodeKeyset lib cursor of Inl e \<Rightarrow> Inl e
      | Inr values \<Rightarrow>
          if length values \<noteq> length cols then Inl ErrInvalidCursor
          else if list_all (\<lambda>(col, v). column_accepts lib col v) (zip cols values) then Inr values
          else Inl ErrInvalidCursor)"

section \<open>The page of a sorted list (memory/store.go)\<close>

text \<open>\<^verbatim>\<open>sort.Search\<close>: the binary search over \<open>[i, j)\<close>.\<close>

function sort_Search :: "(nat \<Rightarrow> bool) \<Rightarrow> nat \<Rightarrow> nat \<Rightarrow> nat" where
  "sort_Search f i j =
     (if i < j then (let h = (i + j) div 2 in if \<not> f h then sort_Search f (h + 1) j else sort_Search f i h)
      else i)"
  by pat_completeness auto
termination
  by (relation "measure (\<lambda>(f, i, j). j - i)") auto

declare sort_Search.simps [simp del]

fun keyAfter :: "string list \<Rightarrow> string list \<Rightarrow> bool list \<Rightarrow> bool" where
  "keyAfter [] b desc = False"
| "keyAfter (x # a) [] desc = False"
| "keyAfter (x # a) (y # b) desc =
     (if x = y then keyAfter a b (tl desc)
      else if desc \<noteq> [] \<and> hd desc then x < y else y < x)"

definition paginate :: "keyset_lib \<Rightarrow> 'a list \<Rightarrow> Page \<Rightarrow> KeysetColumn list \<Rightarrow> ('a \<Rightarrow> string list) \<Rightarrow> ('a list \<times> int) result" where
  "paginate lib items page cols keyOf =
     (let n = length items;
          start = (if pg_Cursor page = [] then Inr 0
                   else (case ValidateKeyset lib cols (pg_Cursor page) of Inl e \<Rightarrow> Inl e
                     | Inr cur \<Rightarrow> Inr (sort_Search (\<lambda>i. keyAfter (keyOf (items ! i)) cur (map kc_Desc cols)) 0 n)))
      in (case start of Inl e \<Rightarrow> Inl e
          | Inr start \<Rightarrow>
              if start \<ge> n then Inr ([], int n)
              else let stop = int start + pg_Limit page + 1;
                       stop = (if pg_Limit page \<le> 0 \<or> stop > int n then n else nat stop)
                   in Inr (take (stop - start) (drop start items), int n)))"

definition column :: "string \<Rightarrow> bool \<Rightarrow> string \<Rightarrow> KeysetColumn" where
  "column e d c = \<lparr>kc_Expr = e, kc_Desc = d, kc_Cast = c\<rparr>"

definition idKeyset :: "KeysetColumn list" where
  "idKeyset = [column ''id'' False []]"

definition entityKeyset :: "KeysetColumn list" where
  "entityKeyset = [column ''last_updated_at'' True ''::timestamptz'', column ''entity_id'' False []]"

definition entityIDKeyset :: "KeysetColumn list" where
  "entityIDKeyset = [column ''entity_id'' False []]"

definition activityKeyset :: "KeysetColumn list" where
  "activityKeyset = [column ''occurred_at'' True ''::timestamptz'', column ''id'' True []]"

definition idKey :: "string \<Rightarrow> string list" where
  "idKey i = [i]"

definition sortByID :: "('a \<Rightarrow> string) \<Rightarrow> 'a list \<Rightarrow> 'a list" where
  "sortByID f items = sort_key f items"

definition matchNames :: "string list \<Rightarrow> string \<Rightarrow> bool" where
  "matchNames names name \<longleftrightarrow> names = [] \<or> list_ex (\<lambda>n. n = name) names"

section \<open>The type list (definitions.go, typedef/interactor.go)\<close>

record TypeFilter =
  tf_TenantID :: TenantID
  tf_InternalNames :: "string list"
  tf_IncludeArchived :: bool
  tf_IncludeAttributeSets :: bool

definition type_listed :: "TypeFilter \<Rightarrow> TypeSnapshot \<Rightarrow> bool" where
  "type_listed f snap \<longleftrightarrow>
     ts_TenantID snap = tf_TenantID f \<and> (tf_IncludeArchived f \<or> ts_ArchivedAt snap = None) \<and>
     (tf_IncludeAttributeSets f \<or> ts_Kind snap \<noteq> KindRelationshipAttributes) \<and>
     matchNames (tf_InternalNames f) (ts_InternalName snap)"

definition typeDefRepo_List :: "keyset_lib \<Rightarrow> (ulid \<Rightarrow> string) \<Rightarrow> type_store \<Rightarrow> TypeFilter \<Rightarrow> Page \<Rightarrow>
    (TypeDefinition list \<times> int) result" where
  "typeDefRepo_List lib idString s f page =
     map_sum id (map_prod (map type_Rehydrate) id)
       (paginate lib (sortByID (\<lambda>t. idString (ts_ID t)) (filter (type_listed f) s)) page idKeyset
          (\<lambda>t. idKey (idString (ts_ID t))))"

record TypeListInput =
  tl_InternalNames :: "string list"
  tl_IncludeArchived :: bool
  tl_Page :: PageArgs

definition TypeList :: "keyset_lib \<Rightarrow> (ulid \<Rightarrow> string) \<Rightarrow> type_store \<Rightarrow> TenantID \<Rightarrow> TypeListInput \<Rightarrow>
    (TypeSnapshot list \<times> PageInfo) result" where
  "TypeList lib idString s tenant inp =
     (case page_Resolve lib (tl_Page inp) of Inl e \<Rightarrow> Inl (NewValidation (err_msg e))
      | Inr page \<Rightarrow>
          (case typeDefRepo_List lib idString s \<lparr>tf_TenantID = tenant, tf_InternalNames = tl_InternalNames inp,
                 tf_IncludeArchived = tl_IncludeArchived inp, tf_IncludeAttributeSets = False\<rparr> page of
             Inl e \<Rightarrow> Inl e
           | Inr (items, count) \<Rightarrow>
               let (items, info) = KeysetPage page items (KeysetTotal page count)
                     (\<lambda>t. EncodeKeyset lib [idString (td_id t)])
               in Inr (map type_Snapshot items, info)))"

section \<open>Binary search and the order of keys\<close>

lemma sort_Search_least:
  assumes "i \<le> j" "\<And>m. i \<le> m \<Longrightarrow> m < j \<Longrightarrow> f m \<longleftrightarrow> k \<le> m" "i \<le> k" "k \<le> j"
  shows "sort_Search f i j = k"
  using assms
proof (induction f i j rule: sort_Search.induct)
  case (1 f i j)
  let ?h = "(i + j) div 2"
  show ?case
  proof (cases "i < j")
    case True
    then have h: "i \<le> ?h" "?h < j" by auto
    show ?thesis
    proof (cases "f ?h")
      case True
      with 1(4) h have "k \<le> ?h" by blast
      with 1(2) [OF \<open>i < j\<close> refl] True 1(3-6) h have "sort_Search f i ?h = k" by auto
      with True \<open>i < j\<close> show ?thesis by (subst sort_Search.simps) (simp add: Let_def)
    next
      case False
      with 1(4) h have "?h < k" by (metis not_le)
      with 1(1) [OF \<open>i < j\<close> refl] False 1(3-6) h have "sort_Search f (?h + 1) j = k" by auto
      with False \<open>i < j\<close> show ?thesis by (subst sort_Search.simps) (simp add: Let_def)
    qed
  next
    case False
    with 1 show ?thesis by (subst sort_Search.simps) simp
  qed
qed

lemma paginate_part: "paginate lib items page cols keyOf = Inr (part, count) \<Longrightarrow> set part \<subseteq> set items"
  by (auto simp: paginate_def Let_def split: if_splits sum.splits dest!: in_set_takeD in_set_dropD)

lemma keyAfter_irrefl: "\<not> keyAfter a a desc"
  by (induction a arbitrary: desc) auto

lemma keyAfter_trans: "keyAfter c b desc \<Longrightarrow> keyAfter b a desc \<Longrightarrow> keyAfter c a desc"
proof (induction c b desc arbitrary: a rule: keyAfter.induct)
  case (3 x c y b desc)
  then show ?case by (cases a) (auto split: if_splits)
qed auto

lemma keyAfter_asym: "keyAfter a b desc \<Longrightarrow> \<not> keyAfter b a desc"
  using keyAfter_trans keyAfter_irrefl by blast

lemma keyAfter_total:
  "length a = length b \<Longrightarrow> a \<noteq> b \<Longrightarrow> keyAfter a b desc \<or> keyAfter b a desc"
  by (induction a b desc rule: keyAfter.induct) auto

text \<open>A list in list order: every later item has a key strictly after the earlier ones.\<close>

definition in_order :: "KeysetColumn list \<Rightarrow> ('a \<Rightarrow> string list) \<Rightarrow> 'a list \<Rightarrow> bool" where
  "in_order cols keyOf items \<longleftrightarrow>
     sorted_wrt (\<lambda>x y. keyAfter (keyOf y) (keyOf x) (map kc_Desc cols)) items"

lemma in_order_filter: "in_order cols keyOf items \<Longrightarrow> in_order cols keyOf (filter P items)"
  by (simp add: in_order_def sorted_wrt_filter)

lemma in_order_distinct: "in_order cols keyOf items \<Longrightarrow> distinct items"
proof (induction items)
  case (Cons x items)
  then have "x \<notin> set items" using keyAfter_irrefl by (fastforce simp: in_order_def)
  with Cons show ?case by (simp add: in_order_def)
qed simp

lemma search_start:
  assumes "in_order cols keyOf items"
  shows "drop (sort_Search (\<lambda>i. keyAfter (keyOf (items ! i)) cur (map kc_Desc cols)) 0 (length items)) items =
      filter (\<lambda>x. keyAfter (keyOf x) cur (map kc_Desc cols)) items"
proof -
  let ?P = "\<lambda>x. keyAfter (keyOf x) cur (map kc_Desc cols)"
  define k where "k = length (takeWhile (\<lambda>x. \<not> ?P x) items)"
  have k: "k \<le> length items" unfolding k_def by (rule length_takeWhile_le)
  have mono: "?P (items ! m)" if "k \<le> m" "m < length items" for m
  proof -
    have first: "?P (items ! k)" using nth_length_takeWhile [of "\<lambda>x. \<not> ?P x" items] that by (simp add: k_def)
    show ?thesis
    proof (cases "k = m")
      case False
      then have "keyAfter (keyOf (items ! m)) (keyOf (items ! k)) (map kc_Desc cols)"
        using assms that by (auto simp: in_order_def sorted_wrt_iff_nth_less)
      then show ?thesis using first by (rule keyAfter_trans)
    qed (use first in simp)
  qed
  have below: "\<not> ?P (items ! m)" if "m < k" for m
    using that nth_mem [of m "takeWhile (\<lambda>x. \<not> ?P x) items"] by (auto simp: k_def takeWhile_nth dest: set_takeWhileD)
  have "sort_Search (\<lambda>i. ?P (items ! i)) 0 (length items) = k"
    using k by (intro sort_Search_least) (use mono below in \<open>auto, metis not_le\<close>)
  moreover have "filter ?P items = drop k items"
  proof -
    have "filter ?P (take k items) = []" using below k by (auto simp: filter_empty_conv in_set_conv_nth)
    moreover have "filter ?P (drop k items) = drop k items" using mono by (auto simp: filter_id_conv in_set_conv_nth)
    ultimately show ?thesis by (metis append_take_drop_id filter_append append_Nil)
  qed
  ultimately show ?thesis by simp
qed

text \<open>What a page holds, for a first page and for a valid cursor.\<close>

definition rest_of :: "KeysetColumn list \<Rightarrow> ('a \<Rightarrow> string list) \<Rightarrow> 'a list \<Rightarrow> string list option \<Rightarrow> 'a list" where
  "rest_of cols keyOf items cur =
     (case cur of None \<Rightarrow> items | Some k \<Rightarrow> filter (\<lambda>x. keyAfter (keyOf x) k (map kc_Desc cols)) items)"

lemma paginate_from:
  assumes "0 < pg_Limit page" "start \<le> length items"
  shows "(if start \<ge> length items then Inr ([], int (length items))
     else let stop = int start + pg_Limit page + 1;
              stop = (if pg_Limit page \<le> 0 \<or> stop > int (length items) then length items else nat stop)
          in Inr (take (stop - start) (drop start items), int (length items)))
     = (Inr (take (nat (FetchLimit page)) (drop start items), int (length items)) :: ('a list \<times> int) result)"
proof -
  have "nat (int start + pg_Limit page + 1) - start = nat (pg_Limit page + 1)" using assms by simp
  with assms show ?thesis by (auto simp: FetchLimit_def Let_def)
qed

lemma paginate_exact:
  assumes "in_order cols keyOf items" "0 < pg_Limit page"
    and "pg_Cursor page = [] \<and> cur = None \<or>
         pg_Cursor page \<noteq> [] \<and> (\<exists>k. cur = Some k \<and> ValidateKeyset lib cols (pg_Cursor page) = Inr k)"
  shows "paginate lib items page cols keyOf =
      Inr (take (nat (FetchLimit page)) (rest_of cols keyOf items cur), int (length items))"
  using assms(3)
proof
  assume "pg_Cursor page = [] \<and> cur = None"
  then show ?thesis
    using paginate_from [OF assms(2), of 0 items] by (simp add: paginate_def rest_of_def Let_def)
next
  assume "pg_Cursor page \<noteq> [] \<and> (\<exists>k. cur = Some k \<and> ValidateKeyset lib cols (pg_Cursor page) = Inr k)"
  then obtain k where k: "pg_Cursor page \<noteq> []" "cur = Some k" "ValidateKeyset lib cols (pg_Cursor page) = Inr k" by blast
  let ?start = "sort_Search (\<lambda>i. keyAfter (keyOf (items ! i)) k (map kc_Desc cols)) 0 (length items)"
  have drop: "drop ?start items = rest_of cols keyOf items cur"
    using search_start [OF assms(1), of k] k(2) by (simp add: rest_of_def)
  show ?thesis
  proof (cases "?start \<le> length items")
    case True
    show ?thesis using paginate_from [OF assms(2) True] drop k by (simp add: paginate_def Let_def)
  next
    case False
    with drop have "rest_of cols keyOf items cur = []" by simp
    with False k show ?thesis by (simp add: paginate_def Let_def)
  qed
qed

section \<open>Full sweeps\<close>

text \<open>
  The loop of \<^verbatim>\<open>exportEntityIDs\<close>, \<^verbatim>\<open>Reindex\<close>, the completeness sweep and the deduplication scan: it takes every row of a
  page, the over-fetched one too, and goes on after the last row taken until a page is short or
  \<open>cap\<close> rows are there. Other requests write while it runs: \<open>views i\<close> is the list as the request for
  page \<open>i\<close> finds it. \<open>None\<close> is running out of fuel.
\<close>

fun sweep :: "keyset_lib \<Rightarrow> KeysetColumn list \<Rightarrow> ('a \<Rightarrow> string list) \<Rightarrow> nat \<Rightarrow> nat \<Rightarrow> (nat \<Rightarrow> 'a list) \<Rightarrow> Page \<Rightarrow> 'a list \<Rightarrow>
    'a list result option" where
  "sweep lib cols keyOf cap 0 views page acc = None"
| "sweep lib cols keyOf cap (Suc n) views page acc =
     (case paginate lib (views 0) page cols keyOf of Inl e \<Rightarrow> Some (Inl e)
      | Inr (items, _) \<Rightarrow>
          let acc = acc @ items
          in if length acc \<ge> cap \<or> int (length items) \<le> pg_Limit page then Some (Inr acc)
             else sweep lib cols keyOf cap n (\<lambda>i. views (Suc i))
                    (page\<lparr>pg_Cursor := EncodeKeyset lib (keyOf (last items))\<rparr>) acc)"

text \<open>Every turn that goes on has taken a full page, so the cap bounds the number of turns whatever
  the others write.\<close>

lemma sweep_total:
  assumes "0 < pg_Limit page" "cap \<le> length acc + n * nat (pg_Limit page)" "0 < n"
  shows "sweep lib cols keyOf cap n views page acc \<noteq> None"
  using assms
proof (induction n arbitrary: views page acc)
  case (Suc n)
  show ?case
  proof (cases "paginate lib (views 0) page cols keyOf")
    case (Inr r)
    obtain items count where r: "r = (items, count)" by (cases r)
    show ?thesis
    proof (cases "length (acc @ items) \<ge> cap \<or> int (length items) \<le> pg_Limit page")
      case False
      let ?page = "page\<lparr>pg_Cursor := EncodeKeyset lib (keyOf (last items))\<rparr>"
      have many: "nat (pg_Limit page) < length items" using False Suc.prems(1) by linarith
      then have more: "cap \<le> length (acc @ items) + n * nat (pg_Limit ?page)" using Suc.prems(2) by simp
      then have "0 < n" using False by (cases n) auto
      with Suc.IH [of ?page "acc @ items" "\<lambda>i. views (Suc i)"] more Suc.prems(1) have
        "sweep lib cols keyOf cap n (\<lambda>i. views (Suc i)) ?page (acc @ items) \<noteq> None" by simp
      with False Inr r show ?thesis by (simp add: Let_def)
    qed (use Inr r in \<open>auto simp: Let_def\<close>)
  qed simp
qed simp

text \<open>The documented behaviour of the cursor codec, and keys the ordering accepts.\<close>

definition cursor_exact :: "keyset_lib \<Rightarrow> string list \<Rightarrow> bool" where
  "cursor_exact lib k \<longleftrightarrow> ks_encode lib k \<noteq> [] \<and> ks_decode lib (ks_encode lib k) = Some k"

definition key_fits :: "keyset_lib \<Rightarrow> KeysetColumn list \<Rightarrow> string list \<Rightarrow> bool" where
  "key_fits lib cols k \<longleftrightarrow> length k = length cols \<and> (\<forall>i<length cols. column_accepts lib (cols ! i) (k ! i))"

lemma Validate_encode:
  "cursor_exact lib k \<Longrightarrow> key_fits lib cols k \<Longrightarrow> ValidateKeyset lib cols (EncodeKeyset lib k) = Inr k"
  by (auto simp: ValidateKeyset_def DecodeKeyset_def EncodeKeyset_def cursor_exact_def key_fits_def
      list_all_iff set_zip)

definition cursor_at :: "keyset_lib \<Rightarrow> KeysetColumn list \<Rightarrow> Page \<Rightarrow> string list option \<Rightarrow> bool" where
  "cursor_at lib cols page cur \<longleftrightarrow>
     (case cur of None \<Rightarrow> pg_Cursor page = []
      | Some k \<Rightarrow> pg_Cursor page \<noteq> [] \<and> ValidateKeyset lib cols (pg_Cursor page) = Inr k)"

lemma paginate_cursor_at:
  assumes "in_order cols keyOf items" "0 < pg_Limit page" "cursor_at lib cols page cur"
  shows "paginate lib items page cols keyOf =
      Inr (take (nat (FetchLimit page)) (rest_of cols keyOf items cur), int (length items))"
  using assms by (intro paginate_exact) (auto simp: cursor_at_def split: option.splits)

lemma rest_of_order: "in_order cols keyOf items \<Longrightarrow> in_order cols keyOf (rest_of cols keyOf items cur)"
  by (simp add: rest_of_def in_order_filter split: option.split)

text \<open>Where the sweep stands: everything taken lies before the cursor, in order.\<close>

definition taken :: "KeysetColumn list \<Rightarrow> ('a \<Rightarrow> string list) \<Rightarrow> 'a list \<Rightarrow> string list option \<Rightarrow> bool" where
  "taken cols keyOf acc cur \<longleftrightarrow> in_order cols keyOf acc \<and>
     (case cur of None \<Rightarrow> acc = []
      | Some k \<Rightarrow> \<forall>x\<in>set acc. \<forall>y. keyAfter (keyOf y) k (map kc_Desc cols) \<longrightarrow> keyAfter (keyOf y) (keyOf x) (map kc_Desc cols))"

lemma taken_page:
  assumes "taken cols keyOf acc cur" "in_order cols keyOf view" "items = take m (rest_of cols keyOf view cur)"
  shows "in_order cols keyOf (acc @ items)"
    "items \<noteq> [] \<Longrightarrow> taken cols keyOf (acc @ items) (Some (keyOf (last items)))"
proof -
  have it: "in_order cols keyOf items"
    using rest_of_order [OF assms(2), of cur] assms(3) by (simp add: in_order_def sorted_wrt_take)
  have "\<forall>x\<in>set acc. \<forall>y\<in>set items. keyAfter (keyOf y) (keyOf x) (map kc_Desc cols)"
    using assms(1,3) by (auto simp: taken_def rest_of_def split: option.splits dest!: in_set_takeD)
  with it assms(1) show all: "in_order cols keyOf (acc @ items)"
    by (auto simp: in_order_def taken_def sorted_wrt_append)
  assume "items \<noteq> []"
  then have "acc @ items = (acc @ butlast items) @ [last items]" by simp
  with all have "keyAfter (keyOf (last items)) (keyOf x) (map kc_Desc cols)" if "x \<in> set (acc @ butlast items)" for x
    using that by (metis (no_types, lifting) in_order_def list.set_intros(1) sorted_wrt_append)
  moreover have "set (acc @ items) = insert (last items) (set (acc @ butlast items))"
    using \<open>items \<noteq> []\<close> by (metis append_butlast_last_id list.simps(15) set_append Un_insert_right append.right_neutral list.set(1) sup_bot.right_neutral)
  ultimately show "taken cols keyOf (acc @ items) (Some (keyOf (last items)))"
    using all by (auto simp: taken_def intro: keyAfter_trans)
qed

lemma prefix_covers:
  assumes "in_order cols keyOf ys" "y \<in> set ys" "take m ys \<noteq> []"
  shows "y \<in> set (take m ys) \<or> keyAfter (keyOf y) (keyOf (last (take m ys))) (map kc_Desc cols)"
proof -
  have "y \<in> set (take m ys) \<or> y \<in> set (drop m ys)"
    using assms(2) by (metis Un_iff append_take_drop_id set_append)
  moreover have "keyAfter (keyOf y) (keyOf (last (take m ys))) (map kc_Desc cols)" if "y \<in> set (drop m ys)"
    using assms(1,3) that last_in_set [of "take m ys"] append_take_drop_id [of m ys]
    by (metis in_order_def sorted_wrt_append)
  ultimately show ?thesis by blast
qed

text \<open>The keys that every page request finds in the list are all in the result.\<close>

lemma sweep_complete:
  assumes "sweep lib cols keyOf cap n views page acc = Some (Inr out)" "length out < cap"
    and "0 < pg_Limit page" "cursor_at lib cols page cur" "taken cols keyOf acc cur"
    and views: "\<And>i. in_order cols keyOf (views i)" "\<And>i x. x \<in> set (views i) \<Longrightarrow> cursor_exact lib (keyOf x) \<and> key_fits lib cols (keyOf x)"
    and k: "\<And>i. k \<in> keyOf ` set (views i)"
      "k \<in> keyOf ` set acc \<or> (case cur of None \<Rightarrow> True | Some c \<Rightarrow> keyAfter k c (map kc_Desc cols))"
  shows "in_order cols keyOf out \<and> k \<in> keyOf ` set out"
  using assms
proof (induction n arbitrary: views page acc cur)
  case (Suc n)
  let ?rest = "rest_of cols keyOf (views 0) cur" and ?m = "nat (FetchLimit page)"
  define items where "items = take ?m ?rest"
  have p: "paginate lib (views 0) page cols keyOf = Inr (items, int (length (views 0)))"
    unfolding items_def by (rule paginate_cursor_at [OF Suc.prems(6) Suc.prems(3,4)])
  note page = taken_page [OF Suc.prems(5) Suc.prems(6) items_def]
  have reach: "k \<in> keyOf ` set acc \<or> k \<in> keyOf ` set ?rest"
    using Suc.prems(8) [of 0] Suc.prems(9) by (auto simp: rest_of_def split: option.splits)
  show ?case
  proof (cases "length (acc @ items) \<ge> cap \<or> int (length items) \<le> pg_Limit page")
    case True
    then have out: "out = acc @ items" using Suc.prems(1) p by (simp add: Let_def)
    then have "int (length items) \<le> pg_Limit page" using True Suc.prems(2) by auto
    then have "items = ?rest" using Suc.prems(3) by (auto simp: items_def FetchLimit_def min_def split: if_splits)
    with out page(1) reach show ?thesis by auto
  next
    case False
    let ?page = "page\<lparr>pg_Cursor := EncodeKeyset lib (keyOf (last items))\<rparr>"
    have ne: "items \<noteq> []" using False Suc.prems(3) by auto
    then have "last items \<in> set (views 0)"
      using in_set_takeD [OF last_in_set [OF ne, unfolded items_def]]
      by (auto simp: items_def rest_of_def split: option.splits)
    from Suc.prems(7) [OF this] have cur: "cursor_at lib cols ?page (Some (keyOf (last items)))"
      by (simp add: cursor_at_def Validate_encode) (simp add: cursor_exact_def EncodeKeyset_def)
    have "k \<in> keyOf ` set (acc @ items) \<or> keyAfter k (keyOf (last items)) (map kc_Desc cols)"
      using reach prefix_covers [OF rest_of_order [OF Suc.prems(6)], of _ 0 cur ?m] ne unfolding items_def by auto
    moreover have "sweep lib cols keyOf cap n (\<lambda>i. views (Suc i)) ?page (acc @ items) = Some (Inr out)"
      using Suc.prems(1) p False by (simp add: Let_def)
    ultimately show ?thesis
      using Suc.IH [OF _ Suc.prems(2) _ cur page(2) [OF ne]] Suc.prems(3,6,7,8) by simp
  qed
qed simp

end
