(* ===== verification/Attr_Value.thy ===== *)
theory Attr_Value
  imports Attribute
begin

text \<open>
  The stored value of one attribute of one entity (\<^verbatim>\<open>domain/value/aggregate.go\<close>): creation and
  replacement through the definition's value gate, removal, and the persistence projection.
  The invariant \<open>conforms\<close> ties a stored value to the definition it was validated against: the
  pinned version, the type and the rules.
\<close>

definition value_AggregateType :: string where "value_AggregateType = ''attribute_value''"

record AttributeValue =
  av_id :: AttributeValueID
  av_tenantID :: TenantID
  av_typeDefinitionID :: TypeDefinitionID
  av_attributeDefID :: AttributeDefinitionID
  av_entityID :: EntityID
  av_scope :: scope
  av_value :: gvalue
  av_definitionVersion :: int
  av_createdAt :: int
  av_updatedAt :: int
  av_archivedAt :: "int option"

datatype value_event =
    ValueSet AttributeValueID TenantID TypeDefinitionID AttributeDefinitionID EntityID scope gvalue int int
  | ValueUpdated AttributeValueID TenantID TypeDefinitionID AttributeDefinitionID EntityID gvalue gvalue int int
  | ValueRemoved AttributeValueID TenantID TypeDefinitionID AttributeDefinitionID EntityID gvalue int

definition av_IsArchived :: "AttributeValue \<Rightarrow> bool" where
  "av_IsArchived av \<longleftrightarrow> av_archivedAt av \<noteq> None"

definition av_New :: "golib \<Rightarrow> AttributeDefinition \<Rightarrow> TypeDefinitionID \<Rightarrow> EntityID \<Rightarrow> scope \<Rightarrow> gvalue \<Rightarrow>
    AttributeValueID \<Rightarrow> int \<Rightarrow> (AttributeValue \<times> value_event list) result" where
  "av_New lib def entityType entityID scope v newid now =
     (if entityID = [] then Inl (NewValidation ''entity ID is required'')
      else if id_IsZero entityType then Inl (NewValidation ''entity type is required'')
      else if IsZero v then Inl (NewValidation ''value is required'')
      else (case ValidateValue lib def v of Some e \<Rightarrow> Inl e
        | None \<Rightarrow>
            let av = \<lparr>av_id = newid, av_tenantID = ad_tenantID def, av_typeDefinitionID = entityType,
                  av_attributeDefID = ad_id def, av_entityID = entityID, av_scope = scope, av_value = v,
                  av_definitionVersion = ad_version def, av_createdAt = now, av_updatedAt = now,
                  av_archivedAt = None\<rparr>
            in Inr (av, [ValueSet (av_id av) (av_tenantID av) (av_typeDefinitionID av) (av_attributeDefID av)
                 (av_entityID av) (av_scope av) (av_value av) (av_definitionVersion av) now])))"

definition av_UpdateValue :: "golib \<Rightarrow> AttributeValue \<Rightarrow> AttributeDefinition \<times> gvalue \<Rightarrow> int \<Rightarrow>
    (AttributeValue \<times> value_event list) result" where
  "av_UpdateValue lib av arg now =
     (let (def, v) = arg
      in if av_IsArchived av then Inl (NewArchived value_AggregateType)
      else if ad_id def \<noteq> av_attributeDefID av
        then Inl (NewValidation ''definition does not match the stored value's attribute'')
      else if IsZero v then Inl (NewValidation ''value is required'')
      else (case ValidateValue lib def v of Some e \<Rightarrow> Inl e
        | None \<Rightarrow>
            if Equal lib (av_value av) v \<and> av_definitionVersion av = ad_version def then Inr (av, [])
            else let old = av_value av;
                     av = av\<lparr>av_value := v, av_definitionVersion := ad_version def, av_updatedAt := now\<rparr>
                 in Inr (av, [ValueUpdated (av_id av) (av_tenantID av) (av_typeDefinitionID av)
                      (av_attributeDefID av) (av_entityID av) old (av_value av) (av_definitionVersion av) now])))"

definition av_Remove :: "AttributeValue \<Rightarrow> int \<Rightarrow> (AttributeValue \<times> value_event list) result" where
  "av_Remove av now =
     (if av_IsArchived av then Inl (NewArchived value_AggregateType)
      else Inr (av\<lparr>av_archivedAt := Some now, av_updatedAt := now\<rparr>,
             [ValueRemoved (av_id av) (av_tenantID av) (av_typeDefinitionID av) (av_attributeDefID av)
                (av_entityID av) (av_value av) now]))"

record ValueSnapshot =
  vs_ID :: AttributeValueID
  vs_TenantID :: TenantID
  vs_TypeDefinitionID :: TypeDefinitionID
  vs_AttributeDefinitionID :: AttributeDefinitionID
  vs_EntityID :: EntityID
  vs_Locale :: string
  vs_Channel :: string
  vs_Value :: gvalue
  vs_DefinitionVersion :: int
  vs_CreatedAt :: int
  vs_UpdatedAt :: int
  vs_ArchivedAt :: "int option"

definition av_Snapshot :: "AttributeValue \<Rightarrow> ValueSnapshot" where
  "av_Snapshot av =
     \<lparr>vs_ID = av_id av, vs_TenantID = av_tenantID av, vs_TypeDefinitionID = av_typeDefinitionID av,
      vs_AttributeDefinitionID = av_attributeDefID av, vs_EntityID = av_entityID av,
      vs_Locale = Locale (av_scope av), vs_Channel = Channel (av_scope av), vs_Value = av_value av,
      vs_DefinitionVersion = av_definitionVersion av, vs_CreatedAt = av_createdAt av,
      vs_UpdatedAt = av_updatedAt av, vs_ArchivedAt = av_archivedAt av\<rparr>"

definition av_Rehydrate :: "ValueSnapshot \<Rightarrow> AttributeValue" where
  "av_Rehydrate s =
     \<lparr>av_id = vs_ID s, av_tenantID = vs_TenantID s, av_typeDefinitionID = vs_TypeDefinitionID s,
      av_attributeDefID = vs_AttributeDefinitionID s, av_entityID = vs_EntityID s,
      av_scope = \<lparr>Locale = vs_Locale s, Channel = vs_Channel s\<rparr>, av_value = vs_Value s,
      av_definitionVersion = vs_DefinitionVersion s, av_createdAt = vs_CreatedAt s,
      av_updatedAt = vs_UpdatedAt s, av_archivedAt = vs_ArchivedAt s\<rparr>"

section \<open>Lemmas\<close>

lemma av_snapshot_round: "av_Rehydrate (av_Snapshot av) = av" "av_Snapshot (av_Rehydrate s) = s"
  by (simp_all add: av_Snapshot_def av_Rehydrate_def)

definition av_core :: "AttributeValue \<Rightarrow> AttributeValue" where
  "av_core av = av\<lparr>av_archivedAt := None, av_updatedAt := 0\<rparr>"

definition av_fixed :: "AttributeValue \<Rightarrow> AttributeValueID \<times> TenantID \<times> TypeDefinitionID \<times>
    AttributeDefinitionID \<times> EntityID \<times> scope \<times> int" where
  "av_fixed av = (av_id av, av_tenantID av, av_typeDefinitionID av, av_attributeDefID av, av_entityID av,
     av_scope av, av_createdAt av)"

interpretation value_life: soft_delete av_IsArchived av_Remove av_core
  by unfold_locales (auto simp: av_Remove_def av_IsArchived_def av_core_def)

text \<open>\<open>conforms lib def av\<close>: the stored value was admitted by \<open>def\<close> at the version it pins.\<close>

definition conforms :: "golib \<Rightarrow> AttributeDefinition \<Rightarrow> AttributeValue \<Rightarrow> bool" where
  "conforms lib def av \<longleftrightarrow>
     av_attributeDefID av = ad_id def \<and> av_definitionVersion av = ad_version def
     \<and> \<not> IsZero (av_value av) \<and> dataType (av_value av) = ad_dataType def
     \<and> (\<forall>c\<in>set (ad_constraints def). constraint_Check lib c (av_value av) = None)"

lemma ValidateValue_nonzero:
  "\<not> IsZero v \<Longrightarrow> ValidateValue lib def v = None \<longleftrightarrow>
     \<not> attr_IsArchived def \<and> dataType v = ad_dataType def \<and>
     (\<forall>c\<in>set (ad_constraints def). constraint_Check lib c v = None)"
  by (auto simp: ValidateValue_def Constraints_Check_def)

lemma av_New_conforms:
  assumes "av_New lib def ty ent sc v newid now = Inr (av, es)"
  shows "conforms lib def av" "av_tenantID av = ad_tenantID def" "av_entityID av = ent" "ent \<noteq> []"
    "av_value av = v" "\<not> attr_IsArchived def" "\<not> av_IsArchived av" "length es = 1"
  using assms ValidateValue_nonzero [of v lib def]
  by (auto simp: av_New_def conforms_def av_IsArchived_def Let_def split: if_splits option.splits)

text \<open>An accepted replacement conforms to the definition it was given, unless the new value
  equals the stored one and the version is the pinned one, in which case nothing changes.\<close>

lemma av_UpdateValue_cases:
  assumes "av_UpdateValue lib av (def, v) now = Inr (av', es)"
  shows "\<not> av_IsArchived av \<and> \<not> attr_IsArchived def \<and> ad_id def = av_attributeDefID av \<and> av_fixed av' = av_fixed av
    \<and> (es = [] \<and> av' = av \<and> Equal lib (av_value av) v \<and> av_definitionVersion av = ad_version def
       \<or> length es = 1 \<and> av_value av' = v \<and> conforms lib def av')"
  using assms ValidateValue_nonzero [of v lib def]
  by (auto simp: av_UpdateValue_def conforms_def av_fixed_def Let_def split: if_splits option.splits)

text \<open>Conformance is kept by every replacement against the same definition.\<close>

lemma av_UpdateValue_conforms:
  assumes "conforms lib def av" "av_UpdateValue lib av (def, v) now = Inr (av', es)"
  shows "conforms lib def av'"
  using av_UpdateValue_cases [OF assms(2)] assms(1) by auto

lemma av_UpdateValue_effect:
  assumes "av_UpdateValue lib av (def, v) now = Inr (av', es)" "wf_value lib v" "wf_value lib (av_value av)"
  shows "Equal lib (av_value av') v"
  using av_UpdateValue_cases [OF assms(1)] ve.eq_refl [OF assms(2)] by auto

text \<open>The life of one stored value under the definition that was current at its last accepted
  write. A version identifies the rules of a definition: every accepted update of the definition
  moves its version.\<close>

inductive value_reachable :: "golib \<Rightarrow> AttributeDefinition \<Rightarrow> AttributeValue \<Rightarrow> bool" for lib where
  value_created: "av_New lib def ty ent sc v newid now = Inr (av, es) \<Longrightarrow> value_reachable lib def av"
| value_updated: "value_reachable lib def av \<Longrightarrow>
    (ad_version def' = ad_version def \<Longrightarrow> ad_constraints def' = ad_constraints def \<and> ad_dataType def' = ad_dataType def) \<Longrightarrow>
    av_UpdateValue lib av (def', v) now = Inr (av', es) \<Longrightarrow> value_reachable lib def' av'"
| value_removed: "value_reachable lib def av \<Longrightarrow> av_Remove av now = Inr (av', es) \<Longrightarrow> value_reachable lib def av'"

lemma conforms_core: "av_core av' = av_core av \<Longrightarrow> conforms lib def av \<Longrightarrow> conforms lib def av'"
  by (cases av; cases av') (simp add: av_core_def conforms_def)

lemma value_reachable_conforms: "value_reachable lib def av \<Longrightarrow> conforms lib def av"
proof (induction rule: value_reachable.induct)
  case (value_created def ty ent sc v newid now av es)
  then show ?case by (rule av_New_conforms(1))
next
  case (value_updated def av def' v now av' es)
  from av_UpdateValue_cases [OF value_updated.hyps(3)] show ?case
    using value_updated.IH value_updated.hyps(2) by (auto simp: conforms_def)
next
  case (value_removed def av now av' es)
  then show ?case using value_life.archive_result [of av now av' es] conforms_core by blast
qed

end
