(* ===== verification/Dependency.thy ===== *)
theory Dependency
  imports Attribute
begin

text \<open>
  Attribute dependencies (\<^verbatim>\<open>domain/dependency\<close>): conditions over a source attribute's value or a
  caller-supplied fact (\<^verbatim>\<open>condition.go\<close>), effects on a target attribute, the aggregate with its
  rule check (\<^verbatim>\<open>aggregate.go\<close>) and the resolution of the effective schema (\<^verbatim>\<open>resolver.go\<close>).
  The lemmas give the meaning of a validated condition, the outcome of a resolution as a
  function of the set of matched rules, and with it its independence of the order in which
  the store returns them.
\<close>

section \<open>Conditions (condition.go)\<close>

datatype ConditionKind =
  CondEquals | CondIn | CondRange | CondPattern | CondDynamic | ConditionKindOther string

datatype DynamicOp = OpBefore | OpAfter | OpOnBefore | OpOnAfter | DynamicOpOther string

record Condition =
  cond_Kind :: ConditionKind
  cond_Value :: "gvalue option"
  cond_Values :: "gvalue list"
  cond_Min :: "gvalue option"
  cond_Max :: "gvalue option"
  cond_MinExclusive :: bool
  cond_MaxExclusive :: bool
  cond_Pattern :: string
  cond_PatternSubstring :: bool
  cond_Dynamic :: "DynamicValue option"
  cond_Op :: DynamicOp
  cond_ContextKey :: string
  cond_ContextType :: DataType

definition conditionPattern :: "Condition \<Rightarrow> string" where
  "conditionPattern c = (if cond_PatternSubstring c then cond_Pattern c else anchored (cond_Pattern c))"

text \<open>The subject type: the declared fact type of a context condition, else the source type.\<close>

definition cond_subject :: "Condition \<Rightarrow> DataType \<Rightarrow> DataType result" where
  "cond_subject c sourceType =
     (if cond_ContextKey c \<noteq> [] then
        (if cond_ContextType c = NoType
           then Inl (NewValidation ''a context condition requires context_type: the data type of the caller-supplied fact'')
         else (case ParseDataType (dt_String (cond_ContextType c)) of
             Inl _ \<Rightarrow> Inl (NewValidation ''unknown context_type'')
           | Inr _ \<Rightarrow> Inr (cond_ContextType c)))
      else if cond_ContextType c \<noteq> NoType then Inl (NewValidation ''context_type requires context_key'')
      else Inr sourceType)"

definition cond_Validate :: "golib \<Rightarrow> Condition \<Rightarrow> DataType \<Rightarrow> goerr option" where
  "cond_Validate lib c source =
     (case cond_subject c source of Inl e \<Rightarrow> Some e
      | Inr sourceType \<Rightarrow>
      if cond_Kind c \<noteq> CondRange \<and> (cond_MinExclusive c \<or> cond_MaxExclusive c)
        then Some (NewValidation ''min_exclusive and max_exclusive apply to a range condition only'')
      else (case cond_Kind c of
          CondEquals \<Rightarrow>
            (case cond_Value c of None \<Rightarrow> Some (NewValidation ''equals condition requires a value'')
             | Some v \<Rightarrow> if dataType v \<noteq> sourceType
                 then Some (NewValidation ''equals operand type must match the source attribute type'') else None)
        | CondIn \<Rightarrow>
            (if cond_Values c = [] then Some (NewValidation ''in condition requires at least one value'')
             else first_err (\<lambda>v. if dataType v \<noteq> sourceType
                 then Some (NewValidation ''in member type must match the source attribute type'') else None) (cond_Values c))
        | CondRange \<Rightarrow>
            (if cond_Min c = None \<and> cond_Max c = None then Some (NewValidation ''range condition requires min and/or max'')
             else if cond_MinExclusive c \<and> cond_Min c = None then Some (NewValidation ''min_exclusive requires a min bound'')
             else if cond_MaxExclusive c \<and> cond_Max c = None then Some (NewValidation ''max_exclusive requires a max bound'')
             else if \<not> IsOrdered sourceType then Some (NewValidation ''range condition requires an ordered source attribute'')
             else first_err (\<lambda>b. case b of None \<Rightarrow> None | Some v \<Rightarrow> if dataType v \<noteq> sourceType
                 then Some (NewValidation ''range bound type must match the source attribute type'') else None)
               [cond_Min c, cond_Max c])
        | CondPattern \<Rightarrow>
            (if \<not> IsTextual sourceType then Some (NewValidation ''pattern condition requires a textual source attribute'')
             else if re_compile lib (cond_Pattern c) = None then Some (NewValidation ''invalid pattern'')
             else None)
        | CondDynamic \<Rightarrow>
            (if \<not> IsTemporal sourceType then Some (NewValidation ''dynamic condition requires a temporal source attribute'')
             else (case cond_Dynamic c of None \<Rightarrow> Some (NewValidation ''dynamic condition requires a dynamic value'')
               | Some d \<Rightarrow> (case dyn_Validate d sourceType of Some e \<Rightarrow> Some (NewValidation (err_msg e))
                   | None \<Rightarrow> (case cond_Op c of DynamicOpOther _ \<Rightarrow> Some (NewValidation ''unknown dynamic operator'')
                       | _ \<Rightarrow> None))))
        | ConditionKindOther _ \<Rightarrow> Some (NewValidation ''unknown condition kind'')))"

text \<open>One bound of a range: \<open>Inr True\<close> when the source is on the accepted side of it.\<close>

definition bound_ok :: "golib \<Rightarrow> gvalue \<Rightarrow> gvalue option \<Rightarrow> (int \<Rightarrow> bool) \<Rightarrow> bool result" where
  "bound_ok lib source b rejected =
     (case b of None \<Rightarrow> Inr True | Some m \<Rightarrow> map_sum id (\<lambda>cmp. \<not> rejected cmp) (Compare lib source m))"

definition cond_Matches :: "golib \<Rightarrow> Condition \<Rightarrow> gvalue \<Rightarrow> gotime \<Rightarrow> bool result" where
  "cond_Matches lib c source now =
     (if IsZero source then Inr False
      else (case cond_Kind c of
          CondEquals \<Rightarrow> Inr (case cond_Value c of None \<Rightarrow> False | Some v \<Rightarrow> Equal lib source v)
        | CondIn \<Rightarrow> Inr (list_ex (Equal lib source) (cond_Values c))
        | CondRange \<Rightarrow>
            (case bound_ok lib source (cond_Min c) (\<lambda>cmp. cmp < 0 \<or> (cond_MinExclusive c \<and> cmp = 0)) of
               Inl e \<Rightarrow> Inl e
             | Inr False \<Rightarrow> Inr False
             | Inr True \<Rightarrow> bound_ok lib source (cond_Max c) (\<lambda>cmp. cmp > 0 \<or> (cond_MaxExclusive c \<and> cmp = 0)))
        | CondPattern \<Rightarrow>
            (case re_compile lib (conditionPattern c) of
               None \<Rightarrow> Inl (PlainErr ''error parsing regexp'')
             | Some re \<Rightarrow> Inr (re (textVal source)))
        | CondDynamic \<Rightarrow>
            (case cond_Dynamic c of None \<Rightarrow> Inr False
             | Some d \<Rightarrow> (case dyn_Resolve d (dataType source) now of Inl e \<Rightarrow> Inl e
                 | Inr r \<Rightarrow> (case Compare lib source r of Inl e \<Rightarrow> Inl e
                     | Inr cmp \<Rightarrow> (case cond_Op c of
                           OpBefore \<Rightarrow> Inr (cmp < 0)
                         | OpAfter \<Rightarrow> Inr (cmp > 0)
                         | OpOnBefore \<Rightarrow> Inr (cmp \<le> 0)
                         | OpOnAfter \<Rightarrow> Inr (cmp \<ge> 0)
                         | DynamicOpOther _ \<Rightarrow> Inl (PlainErr ''unknown dynamic operator %q'')))))
        | ConditionKindOther _ \<Rightarrow> Inl (PlainErr ''unknown condition kind %q'')))"

section \<open>Effects and the aggregate (aggregate.go)\<close>

datatype Enforcement = EnforceUnset | EnforceOnWrite | EnforceOnRead | EnforcementOther string

definition DefaultEnforcement :: Enforcement where "DefaultEnforcement = EnforceOnRead"

definition enforce_Valid :: "Enforcement \<Rightarrow> bool" where
  "enforce_Valid e \<longleftrightarrow> e = EnforceUnset \<or> e = EnforceOnWrite \<or> e = EnforceOnRead"

definition enforce_Or :: "Enforcement \<Rightarrow> Enforcement \<Rightarrow> Enforcement" where
  "enforce_Or e fallback = (if e = EnforceUnset then fallback else e)"

record Effect =
  eff_AllowedValues :: "gvalue list"
  eff_Constraints :: Constraints
  eff_Required :: "bool option"
  eff_Enforce :: Enforcement

definition effect_Enforcement :: "Effect \<Rightarrow> Enforcement" where
  "effect_Enforcement e = enforce_Or (eff_Enforce e) DefaultEnforcement"

definition DemandsValue :: "Effect \<Rightarrow> bool" where
  "DemandsValue e \<longleftrightarrow> eff_Required e = Some True"

definition effect_isEmpty :: "Effect \<Rightarrow> bool" where
  "effect_isEmpty e \<longleftrightarrow> eff_AllowedValues e = [] \<and> eff_Constraints e = [] \<and> eff_Required e = None"

definition dep_AggregateType :: string where "dep_AggregateType = ''attribute_value_dependency''"

record Dependency =
  dep_id :: DependencyID
  dep_tenantID :: TenantID
  dep_sourceID :: AttributeDefinitionID
  dep_targetID :: AttributeDefinitionID
  dep_conditions :: "Condition list"
  dep_effect :: Effect
  dep_description :: string
  dep_version :: int
  dep_createdAt :: int
  dep_updatedAt :: int
  dep_archivedAt :: "int option"

record DepNewInput =
  dn_TenantID :: TenantID
  dn_Source :: "AttributeDefinition option"
  dn_Target :: "AttributeDefinition option"
  dn_Conditions :: "Condition list"
  dn_Effect :: Effect
  dn_Description :: string

record DepUpdateInput =
  du_Conditions :: "Condition list"
  du_Effect :: Effect
  du_Description :: string

datatype dep_event =
    DepCreated DependencyID TenantID AttributeDefinitionID AttributeDefinitionID int
  | DepUpdated DependencyID TenantID AttributeDefinitionID AttributeDefinitionID int int
  | DepArchived DependencyID TenantID AttributeDefinitionID AttributeDefinitionID int

definition validateRule :: "golib \<Rightarrow> AttributeDefinition \<Rightarrow> AttributeDefinition \<Rightarrow> Condition list \<Rightarrow> Effect \<Rightarrow>
    goerr option" where
  "validateRule lib source target conditions effect =
     (if conditions = [] then Some (NewValidation ''at least one condition is required'')
      else (case first_err (\<lambda>c. cond_Validate lib c (ad_dataType source)) conditions of Some e \<Rightarrow> Some e
      | None \<Rightarrow>
      if \<not> enforce_Valid (eff_Enforce effect) then Some (NewValidation ''enforce must be on_write or on_read'')
      else if eff_Enforce effect \<noteq> EnforceUnset \<and> \<not> DemandsValue effect
        then Some (NewValidation ''enforce applies to an effect that requires a value, which this effect does not'')
      else if effect_Enforcement effect = EnforceOnWrite \<and> DemandsValue effect \<and> IsComputed target
        then Some (NewValidation ''a computed attribute cannot be required on write: its value is materialized after the write commits'')
      else if effect_isEmpty effect
        then Some (NewValidation ''effect must narrow values, add constraints or override required'')
      else (case first_err (\<lambda>v. if dataType v \<noteq> ad_dataType target
               then Some (NewValidation ''allowed value type must match the target attribute type'') else None)
             (eff_AllowedValues effect) of Some e \<Rightarrow> Some e
      | None \<Rightarrow> Constraints_Validate lib (eff_Constraints effect) (ad_dataType target))))"

definition dep_IsArchived :: "Dependency \<Rightarrow> bool" where
  "dep_IsArchived d \<longleftrightarrow> dep_archivedAt d \<noteq> None"

definition dep_New :: "golib \<Rightarrow> DepNewInput \<Rightarrow> DependencyID \<Rightarrow> int \<Rightarrow> (Dependency \<times> dep_event list) result" where
  "dep_New lib i newid now =
     (let tenant = (if dn_TenantID i = [] then DefaultTenant else dn_TenantID i)
      in (case (dn_Source i, dn_Target i) of
        (Some source, Some target) \<Rightarrow>
          if ad_id source = ad_id target then Inl (NewValidation ''source and target attributes must differ'')
          else (case validateRule lib source target (dn_Conditions i) (dn_Effect i) of Some e \<Rightarrow> Inl e
            | None \<Rightarrow>
                let d = \<lparr>dep_id = newid, dep_tenantID = tenant, dep_sourceID = ad_id source,
                      dep_targetID = ad_id target, dep_conditions = dn_Conditions i, dep_effect = dn_Effect i,
                      dep_description = dn_Description i, dep_version = 1, dep_createdAt = now,
                      dep_updatedAt = now, dep_archivedAt = None\<rparr>
                in Inr (d, [DepCreated (dep_id d) (dep_tenantID d) (dep_sourceID d) (dep_targetID d) now]))
      | _ \<Rightarrow> Inl (NewValidation ''source and target attributes are required'')))"

definition dep_Update :: "golib \<Rightarrow> Dependency \<Rightarrow>
    AttributeDefinition option \<times> AttributeDefinition option \<times> DepUpdateInput \<Rightarrow> int \<Rightarrow>
    (Dependency \<times> dep_event list) result" where
  "dep_Update lib d arg now =
     (let (src, tgt, i) = arg
      in if dep_IsArchived d then Inl (NewArchived dep_AggregateType)
         else (case (src, tgt) of
           (Some source, Some target) \<Rightarrow>
             if ad_id source \<noteq> dep_sourceID d \<or> ad_id target \<noteq> dep_targetID d
             then Inl (NewValidation ''source and target must match the dependency's attributes'')
             else (case validateRule lib source target (du_Conditions i) (du_Effect i) of Some e \<Rightarrow> Inl e
               | None \<Rightarrow>
                   let d = d\<lparr>dep_conditions := du_Conditions i, dep_effect := du_Effect i,
                         dep_description := du_Description i, dep_version := dep_version d + 1,
                         dep_updatedAt := now\<rparr>
                   in Inr (d, [DepUpdated (dep_id d) (dep_tenantID d) (dep_sourceID d) (dep_targetID d)
                        (dep_version d) now]))
         | _ \<Rightarrow> Inl (NewValidation ''source and target must match the dependency's attributes'')))"

definition dep_Archive :: "Dependency \<Rightarrow> int \<Rightarrow> (Dependency \<times> dep_event list) result" where
  "dep_Archive d now =
     (if dep_IsArchived d then Inl (NewArchived dep_AggregateType)
      else Inr (d\<lparr>dep_archivedAt := Some now, dep_updatedAt := now\<rparr>,
             [DepArchived (dep_id d) (dep_tenantID d) (dep_sourceID d) (dep_targetID d) now]))"

text \<open>Caller-supplied facts: the map of the request context.\<close>

type_synonym facts = "(string \<times> gvalue) list"

text \<open>One condition of \<^verbatim>\<open>matches\<close>: its subject is the fact it names or the source value.\<close>

definition cond_applies :: "golib \<Rightarrow> gvalue \<Rightarrow> facts \<Rightarrow> gotime \<Rightarrow> Condition \<Rightarrow> bool result" where
  "cond_applies lib source ctx now c =
     (if cond_ContextKey c \<noteq> [] then
        (case map_of ctx (cond_ContextKey c) of None \<Rightarrow> Inr False
         | Some v \<Rightarrow>
             if cond_ContextType c \<noteq> NoType \<and> dataType v \<noteq> cond_ContextType c then Inr False
             else (case cond_Matches lib c v now of Inl _ \<Rightarrow> Inr False | Inr ok \<Rightarrow> Inr ok))
      else cond_Matches lib c source now)"

fun matches_all :: "golib \<Rightarrow> Condition list \<Rightarrow> gvalue \<Rightarrow> facts \<Rightarrow> gotime \<Rightarrow> bool result" where
  "matches_all lib [] source ctx now = Inr True"
| "matches_all lib (c # cs) source ctx now =
     (case cond_applies lib source ctx now c of Inl e \<Rightarrow> Inl e
      | Inr False \<Rightarrow> Inr False
      | Inr True \<Rightarrow> matches_all lib cs source ctx now)"

definition dep_matches :: "golib \<Rightarrow> Dependency \<Rightarrow> gvalue \<Rightarrow> facts \<Rightarrow> gotime \<Rightarrow> bool result" where
  "dep_matches lib d source ctx now = matches_all lib (dep_conditions d) source ctx now"

fun matches_any_of :: "golib \<Rightarrow> Dependency \<Rightarrow> gvalue list \<Rightarrow> facts \<Rightarrow> gotime \<Rightarrow> bool result" where
  "matches_any_of lib d [] ctx now = Inr False"
| "matches_any_of lib d (v # vs) ctx now =
     (case dep_matches lib d v ctx now of Inl e \<Rightarrow> Inl e
      | Inr True \<Rightarrow> Inr True
      | Inr False \<Rightarrow> matches_any_of lib d vs ctx now)"

definition MatchesAnyWithContext :: "golib \<Rightarrow> Dependency \<Rightarrow> gvalue list \<Rightarrow> facts \<Rightarrow> gotime \<Rightarrow> bool result" where
  "MatchesAnyWithContext lib d sources ctx now =
     (if sources = [] then dep_matches lib d zero_value ctx now else matches_any_of lib d sources ctx now)"

section \<open>Resolution (resolver.go)\<close>

record EffectiveSchema =
  es_Required :: bool
  es_AllowedValues :: "gvalue list"
  es_Constraints :: Constraints
  es_Restricted :: bool
  es_RequiredByDependency :: bool
  es_RequiredEnforcement :: Enforcement

definition intersect :: "golib \<Rightarrow> gvalue list \<Rightarrow> gvalue list \<Rightarrow> gvalue list" where
  "intersect lib current next_vals = filter (\<lambda>v. list_ex (Equal lib v) next_vals) current"

text \<open>The loop state: the schema and the flags \<^verbatim>\<open>overridden\<close>, \<^verbatim>\<open>requiredByAny\<close>, \<^verbatim>\<open>enforceOnWrite\<close>.\<close>

record resolve_state =
  rs_schema :: EffectiveSchema
  rs_overridden :: bool
  rs_requiredByAny :: bool
  rs_enforceOnWrite :: bool

definition apply_effect :: "golib \<Rightarrow> Effect \<Rightarrow> resolve_state \<Rightarrow> resolve_state" where
  "apply_effect lib effect st =
     (let schema = rs_schema st;
          schema = (if eff_AllowedValues effect \<noteq> [] then
                      (if es_Restricted schema
                       then schema\<lparr>es_AllowedValues := intersect lib (es_AllowedValues schema) (eff_AllowedValues effect)\<rparr>
                       else schema\<lparr>es_AllowedValues := eff_AllowedValues effect, es_Restricted := True\<rparr>)
                    else schema);
          schema = schema\<lparr>es_Constraints := es_Constraints schema @ eff_Constraints effect\<rparr>;
          st = st\<lparr>rs_schema := schema\<rparr>
      in (case eff_Required effect of None \<Rightarrow> st
          | Some r \<Rightarrow> st\<lparr>rs_overridden := True, rs_requiredByAny := rs_requiredByAny st \<or> r,
               rs_enforceOnWrite := (if DemandsValue effect \<and> effect_Enforcement effect = EnforceOnWrite
                  then True else rs_enforceOnWrite st)\<rparr>))"

text \<open>The loop body for one dependency: skipped, an error, unmatched or matched.\<close>

definition dep_applies :: "golib \<Rightarrow> AttributeDefinition \<Rightarrow> (AttributeDefinitionID \<Rightarrow> gvalue list) \<Rightarrow> facts \<Rightarrow> gotime \<Rightarrow>
    Dependency \<Rightarrow> bool result" where
  "dep_applies lib target sourceValues ctx now d =
     (if dep_IsArchived d \<or> dep_targetID d \<noteq> ad_id target then Inr False
      else MatchesAnyWithContext lib d (sourceValues (dep_sourceID d)) ctx now)"

fun resolve_loop :: "golib \<Rightarrow> AttributeDefinition \<Rightarrow> (AttributeDefinitionID \<Rightarrow> gvalue list) \<Rightarrow> facts \<Rightarrow> gotime \<Rightarrow>
    Dependency list \<Rightarrow> resolve_state \<Rightarrow> resolve_state result" where
  "resolve_loop lib target sourceValues ctx now [] st = Inr st"
| "resolve_loop lib target sourceValues ctx now (d # ds) st =
     (case dep_applies lib target sourceValues ctx now d of Inl e \<Rightarrow> Inl e
      | Inr False \<Rightarrow> resolve_loop lib target sourceValues ctx now ds st
      | Inr True \<Rightarrow> resolve_loop lib target sourceValues ctx now ds (apply_effect lib (dep_effect d) st))"

definition start_state :: "AttributeDefinition \<Rightarrow> resolve_state" where
  "start_state target =
     \<lparr>rs_schema = \<lparr>es_Required = ad_required target, es_AllowedValues = [],
        es_Constraints = ad_constraints target, es_Restricted = False,
        es_RequiredByDependency = False, es_RequiredEnforcement = DefaultEnforcement\<rparr>,
      rs_overridden = False, rs_requiredByAny = False, rs_enforceOnWrite = False\<rparr>"

definition finish_state :: "resolve_state \<Rightarrow> EffectiveSchema" where
  "finish_state st =
     (if rs_overridden st then
        (rs_schema st)\<lparr>es_Required := rs_requiredByAny st, es_RequiredByDependency := rs_requiredByAny st,
           es_RequiredEnforcement := (if rs_requiredByAny st \<and> rs_enforceOnWrite st then EnforceOnWrite
              else es_RequiredEnforcement (rs_schema st))\<rparr>
      else rs_schema st)"

definition ResolveEffectiveWithContext :: "golib \<Rightarrow> AttributeDefinition \<Rightarrow> Dependency list \<Rightarrow>
    (AttributeDefinitionID \<Rightarrow> gvalue list) \<Rightarrow> facts \<Rightarrow> gotime \<Rightarrow> EffectiveSchema result" where
  "ResolveEffectiveWithContext lib target deps sourceValues ctx now =
     map_sum id finish_state (resolve_loop lib target sourceValues ctx now deps (start_state target))"

definition effective_Check :: "golib \<Rightarrow> EffectiveSchema \<Rightarrow> gvalue \<Rightarrow> goerr option" where
  "effective_Check lib s v =
     (if IsZero v then
        (if es_Required s then Some (NewDependencyViolation ''value is required by an attribute dependency'') else None)
      else if es_Restricted s \<and> \<not> list_ex (Equal lib v) (es_AllowedValues s)
        then Some (NewDependencyViolation ''value is not allowed by the entity's attribute dependencies'')
      else (case Constraints_Check lib (es_Constraints s) v of Some e \<Rightarrow> Some (NewDependencyViolation (err_msg e))
        | None \<Rightarrow> None))"

section \<open>Lifecycle contracts\<close>

definition dep_core :: "Dependency \<Rightarrow> Dependency" where
  "dep_core d = d\<lparr>dep_archivedAt := None, dep_updatedAt := 0\<rparr>"

definition dep_fixed :: "Dependency \<Rightarrow> DependencyID \<times> TenantID \<times> AttributeDefinitionID \<times> AttributeDefinitionID \<times> int" where
  "dep_fixed d = (dep_id d, dep_tenantID d, dep_sourceID d, dep_targetID d, dep_createdAt d)"

interpretation dep_life: soft_delete dep_IsArchived dep_Archive dep_core
  by unfold_locales (auto simp: dep_Archive_def dep_IsArchived_def dep_core_def)

lemma dep_Update_cases:
  assumes "dep_Update lib d (src, tgt, i) now = Inr (d', es)"
  obtains source target where "src = Some source" "tgt = Some target" "ad_id source = dep_sourceID d"
    "ad_id target = dep_targetID d" "\<not> dep_IsArchived d" "dep_fixed d' = dep_fixed d"
    "dep_archivedAt d' = dep_archivedAt d" "dep_version d' = dep_version d + 1" "length es = 1"
    "validateRule lib source target (dep_conditions d') (dep_effect d') = None"
  using assms by (auto simp: dep_Update_def dep_fixed_def Let_def split: if_splits option.splits)

interpretation dep_ver: versioned dep_IsArchived dep_version "dep_Update lib" dep_fixed for lib
proof
  fix d now d' es
    and arg :: "AttributeDefinition option \<times> AttributeDefinition option \<times> DepUpdateInput"
  obtain src tgt i where arg: "arg = (src, tgt, i)" by (cases arg)
  show "dep_IsArchived d \<Longrightarrow> \<exists>m. dep_Update lib d arg now = Inl (NewArchived m)"
    by (auto simp: dep_Update_def arg)
  assume "dep_Update lib d arg now = Inr (d', es)"
  then show "dep_fixed d' = dep_fixed d \<and> \<not> dep_IsArchived d' \<and>
      (es = [] \<and> d' = d \<or> length es = 1 \<and> dep_version d' = dep_version d + 1)"
    unfolding arg by (elim dep_Update_cases) (simp add: dep_IsArchived_def)
qed

section \<open>What a validated condition means\<close>

fun op_holds :: "DynamicOp \<Rightarrow> int \<Rightarrow> int \<Rightarrow> bool" where
  "op_holds OpBefore t r \<longleftrightarrow> t < r"
| "op_holds OpAfter t r \<longleftrightarrow> t > r"
| "op_holds OpOnBefore t r \<longleftrightarrow> t \<le> r"
| "op_holds OpOnAfter t r \<longleftrightarrow> t \<ge> r"
| "op_holds (DynamicOpOther _) t r \<longleftrightarrow> False"

definition cond_holds :: "golib \<Rightarrow> Condition \<Rightarrow> gvalue \<Rightarrow> gotime \<Rightarrow> bool" where
  "cond_holds lib c v now =
     (case cond_Kind c of
        CondEquals \<Rightarrow> (\<exists>w. cond_Value c = Some w \<and> Equal lib v w)
      | CondIn \<Rightarrow> (\<exists>w\<in>set (cond_Values c). Equal lib v w)
      | CondRange \<Rightarrow>
          (\<forall>m. cond_Min c = Some m \<longrightarrow> value_le m v \<and> (cond_MinExclusive c \<longrightarrow> \<not> value_le v m)) \<and>
          (\<forall>m. cond_Max c = Some m \<longrightarrow> value_le v m \<and> (cond_MaxExclusive c \<longrightarrow> \<not> value_le m v))
      | CondPattern \<Rightarrow> re_matches lib (conditionPattern c) (textVal v)
      | CondDynamic \<Rightarrow>
          (\<exists>d r. cond_Dynamic c = Some d \<and> dyn_Resolve d (dataType v) now = Inr r \<and> op_holds (cond_Op c) (timeVal v) (timeVal r))
      | ConditionKindOther _ \<Rightarrow> False)"

definition wf_condition :: "golib \<Rightarrow> Condition \<Rightarrow> bool" where
  "wf_condition lib c \<longleftrightarrow> list_all (wf_value lib) (cond_Values c)
     \<and> (\<forall>v\<in>set_option (cond_Value c) \<union> set_option (cond_Min c) \<union> set_option (cond_Max c). wf_value lib v)"

lemma bound_ok_spec:
  assumes "ordered_dom lib dt v" "b = None \<or> (\<exists>m. b = Some m \<and> ordered_dom lib dt m)"
  shows "bound_ok lib v b (\<lambda>cmp. cmp < 0 \<or> (x \<and> cmp = 0))
      = Inr (\<forall>m. b = Some m \<longrightarrow> value_le m v \<and> (x \<longrightarrow> \<not> value_le v m))"
    and "bound_ok lib v b (\<lambda>cmp. cmp > 0 \<or> (x \<and> cmp = 0))
      = Inr (\<forall>m. b = Some m \<longrightarrow> value_le v m \<and> (x \<longrightarrow> \<not> value_le m v))"
  using assms(2) Compare_value_le [OF assms(1)] by (force simp: bound_ok_def)+

lemma temporal_compare:
  assumes "IsTemporal dt" "wf_value lib v" "dataType v = dt" "wf_value lib r" "dataType r = dt"
  shows "Compare lib v r = Inr (compare_lin (timeVal v) (timeVal r))"
  using assms by (cases dt) (auto simp: Compare_def)

lemma cond_Validate_range:
  assumes "cond_Validate lib c source = None" "cond_subject c source = Inr dt" "cond_Kind c = CondRange"
  shows "IsOrdered dt" "\<And>m. cond_Min c = Some m \<Longrightarrow> dataType m = dt" "\<And>m. cond_Max c = Some m \<Longrightarrow> dataType m = dt"
  using assms by (auto simp: cond_Validate_def split: if_splits option.splits)

lemma cond_Validate_dynamic:
  assumes "cond_Validate lib c source = None" "cond_subject c source = Inr dt" "cond_Kind c = CondDynamic"
  obtains d where "IsTemporal dt" "cond_Dynamic c = Some d" "dyn_Validate d dt = None" "\<And>s. cond_Op c \<noteq> DynamicOpOther s"
  using assms by (auto simp: cond_Validate_def simp del: IsTemporal.simps split: if_splits option.splits DynamicOp.splits)

lemma cond_Matches_spec:
  assumes valid: "cond_Validate lib c source = None" and subj: "cond_subject c source = Inr dt"
    and wf: "wf_condition lib c" "wf_value lib v" and dt: "dataType v = dt"
    and compiles: "cond_Kind c = CondPattern \<Longrightarrow> re_compile lib (conditionPattern c) \<noteq> None"
  shows "cond_Matches lib c v now = Inr (cond_holds lib c v now)"
proof (cases "cond_Kind c")
  case CondRange
  note r = cond_Validate_range [OF valid subj CondRange]
  have v: "ordered_dom lib dt v" using r(1) wf(2) dt by (simp add: ordered_dom_def)
  have b: "b = None \<or> (\<exists>m. b = Some m \<and> ordered_dom lib dt m)" if "b = cond_Min c \<or> b = cond_Max c" for b
    using that r wf(1) by (cases b) (auto simp: ordered_dom_def wf_condition_def)
  show ?thesis
    using CondRange wf_not_zero [OF wf(2)]
    by (simp add: cond_Matches_def cond_holds_def bound_ok_spec(1) [OF v b] bound_ok_spec(2) [OF v b] split: bool.split)
next
  case CondPattern
  with compiles wf_not_zero [OF wf(2)] show ?thesis
    by (auto simp: cond_Matches_def cond_holds_def re_matches_def)
next
  case CondDynamic
  obtain d where d: "IsTemporal dt" "cond_Dynamic c = Some d" "dyn_Validate d dt = None"
      "\<And>s. cond_Op c \<noteq> DynamicOpOther s"
    using cond_Validate_dynamic [OF valid subj CondDynamic] by blast
  obtain r where r: "dyn_Resolve d dt now = Inr r" "dataType r = dt" "wf_value lib r"
    using dyn_Validate_Resolve [OF d(3), of now lib] by blast
  show ?thesis
    using CondDynamic wf_not_zero [OF wf(2)] d r temporal_compare [OF d(1) wf(2) dt r(3,2)] dt
    by (cases "cond_Op c") (auto simp: cond_Matches_def cond_holds_def compare_lin_def)
next
  case (ConditionKindOther s)
  with valid subj show ?thesis by (auto simp: cond_Validate_def split: if_splits)
qed (use wf_not_zero [OF wf(2)] in \<open>auto simp: cond_Matches_def cond_holds_def list_ex_iff split: option.split\<close>)

text \<open>An expression that compiles alone and not between the anchors passes validation and then
  fails at every evaluation.\<close>

lemma pattern_gap:
  assumes "IsTextual source" "re_compile lib p \<noteq> None" "re_compile lib (anchored p) = None"
    "cond_Kind c = CondPattern" "cond_Pattern c = p" "\<not> cond_PatternSubstring c" "cond_ContextKey c = []"
    "cond_ContextType c = NoType" "\<not> cond_MinExclusive c" "\<not> cond_MaxExclusive c"
  shows "cond_Validate lib c source = None"
    and "\<not> IsZero v \<Longrightarrow> cond_Matches lib c v now = Inl (PlainErr ''error parsing regexp'')"
  using assms by (simp_all add: cond_Validate_def cond_subject_def cond_Matches_def conditionPattern_def)

section \<open>What a resolution yields\<close>

lemma apply_effect_simps [simp]:
  "rs_overridden (apply_effect lib e st) \<longleftrightarrow> rs_overridden st \<or> eff_Required e \<noteq> None"
  "rs_requiredByAny (apply_effect lib e st) \<longleftrightarrow> rs_requiredByAny st \<or> eff_Required e = Some True"
  "rs_enforceOnWrite (apply_effect lib e st) \<longleftrightarrow>
     rs_enforceOnWrite st \<or> DemandsValue e \<and> effect_Enforcement e = EnforceOnWrite"
  "es_Restricted (rs_schema (apply_effect lib e st)) \<longleftrightarrow> es_Restricted (rs_schema st) \<or> eff_AllowedValues e \<noteq> []"
  "es_Constraints (rs_schema (apply_effect lib e st)) = es_Constraints (rs_schema st) @ eff_Constraints e"
  "es_Required (rs_schema (apply_effect lib e st)) = es_Required (rs_schema st)"
  "es_RequiredEnforcement (rs_schema (apply_effect lib e st)) = es_RequiredEnforcement (rs_schema st)"
  "es_RequiredByDependency (rs_schema (apply_effect lib e st)) = es_RequiredByDependency (rs_schema st)"
  by (auto simp: apply_effect_def Let_def DemandsValue_def split: option.split)

lemma apply_effect_allowed:
  "es_AllowedValues (rs_schema (apply_effect lib e st)) =
     (if eff_AllowedValues e = [] then es_AllowedValues (rs_schema st)
      else if es_Restricted (rs_schema st) then intersect lib (es_AllowedValues (rs_schema st)) (eff_AllowedValues e)
      else eff_AllowedValues e)"
  by (auto simp: apply_effect_def Let_def split: option.split)

abbreviation apply_all :: "golib \<Rightarrow> Effect list \<Rightarrow> resolve_state \<Rightarrow> resolve_state" where
  "apply_all lib effs st \<equiv> fold (apply_effect lib) effs st"

lemma apply_all_flags:
  "rs_overridden (apply_all lib effs st) \<longleftrightarrow> rs_overridden st \<or> (\<exists>e\<in>set effs. eff_Required e \<noteq> None)"
  "rs_requiredByAny (apply_all lib effs st) \<longleftrightarrow> rs_requiredByAny st \<or> (\<exists>e\<in>set effs. eff_Required e = Some True)"
  "rs_enforceOnWrite (apply_all lib effs st) \<longleftrightarrow> rs_enforceOnWrite st \<or>
     (\<exists>e\<in>set effs. DemandsValue e \<and> effect_Enforcement e = EnforceOnWrite)"
  "es_Restricted (rs_schema (apply_all lib effs st)) \<longleftrightarrow>
     es_Restricted (rs_schema st) \<or> (\<exists>e\<in>set effs. eff_AllowedValues e \<noteq> [])"
  "es_Constraints (rs_schema (apply_all lib effs st)) =
     es_Constraints (rs_schema st) @ concat (map eff_Constraints effs)"
  "es_Required (rs_schema (apply_all lib effs st)) = es_Required (rs_schema st)"
  "es_RequiredEnforcement (rs_schema (apply_all lib effs st)) = es_RequiredEnforcement (rs_schema st)"
  "es_RequiredByDependency (rs_schema (apply_all lib effs st)) = es_RequiredByDependency (rs_schema st)"
  by (induction effs arbitrary: st) auto

definition wf_effect :: "golib \<Rightarrow> Effect \<Rightarrow> bool" where
  "wf_effect lib e \<longleftrightarrow> list_all (wf_value lib) (eff_AllowedValues e)"

lemma intersect_wf: "list_all (wf_value lib) xs \<Longrightarrow> list_all (wf_value lib) (intersect lib xs ys)"
  by (auto simp: intersect_def list_all_iff)

lemma apply_all_allowed:
  assumes "wf_value lib v" "list_all (wf_effect lib) effs" "list_all (wf_value lib) (es_AllowedValues (rs_schema st))"
  shows "(es_Restricted (rs_schema (apply_all lib effs st)) \<longrightarrow>
            list_ex (Equal lib v) (es_AllowedValues (rs_schema (apply_all lib effs st)))) \<longleftrightarrow>
    (es_Restricted (rs_schema st) \<longrightarrow> list_ex (Equal lib v) (es_AllowedValues (rs_schema st))) \<and>
    (\<forall>e\<in>set effs. eff_AllowedValues e \<noteq> [] \<longrightarrow> list_ex (Equal lib v) (eff_AllowedValues e))"
  using assms(2,3)
proof (induction effs arbitrary: st)
  case (Cons e effs)
  let ?st = "apply_effect lib e st"
  have e: "list_all (wf_value lib) (eff_AllowedValues e)" using Cons.prems by (simp add: wf_effect_def)
  have wf: "list_all (wf_value lib) (es_AllowedValues (rs_schema ?st))"
    using e Cons.prems(2) by (simp add: apply_effect_allowed intersect_wf)
  have "(es_Restricted (rs_schema ?st) \<longrightarrow> list_ex (Equal lib v) (es_AllowedValues (rs_schema ?st))) \<longleftrightarrow>
      (es_Restricted (rs_schema st) \<longrightarrow> list_ex (Equal lib v) (es_AllowedValues (rs_schema st))) \<and>
      (eff_AllowedValues e \<noteq> [] \<longrightarrow> list_ex (Equal lib v) (eff_AllowedValues e))"
    using ve.member_intersect [OF assms(1) Cons.prems(2) e]
    by (auto simp: apply_effect_allowed intersect_def)
  with Cons.IH [OF _ wf] Cons.prems(1) show ?case by auto
qed simp

definition matched_effects :: "golib \<Rightarrow> AttributeDefinition \<Rightarrow> Dependency list \<Rightarrow>
    (AttributeDefinitionID \<Rightarrow> gvalue list) \<Rightarrow> facts \<Rightarrow> gotime \<Rightarrow> Effect list" where
  "matched_effects lib target deps sv ctx now =
     map dep_effect (filter (\<lambda>d. dep_applies lib target sv ctx now d = Inr True) deps)"

lemma resolve_loop_ok:
  assumes "\<forall>d\<in>set deps. is_ok (dep_applies lib target sv ctx now d)"
  shows "resolve_loop lib target sv ctx now deps st = Inr (apply_all lib (matched_effects lib target deps sv ctx now) st)"
  using assms
proof (induction deps arbitrary: st)
  case (Cons d ds)
  then obtain b where "dep_applies lib target sv ctx now d = Inr b" by (auto elim: is_okE)
  with Cons show ?case by (cases b) (auto simp: matched_effects_def)
qed (simp add: matched_effects_def)

text \<open>The abstract specification of a resolution: a set of matched effects, and nothing about
  the order in which they came.\<close>

definition schema_spec :: "golib \<Rightarrow> AttributeDefinition \<Rightarrow> Effect set \<Rightarrow> EffectiveSchema \<Rightarrow> bool" where
  "schema_spec lib target effs s \<longleftrightarrow>
     (es_Required s \<longleftrightarrow> (if \<exists>e\<in>effs. eff_Required e \<noteq> None then \<exists>e\<in>effs. eff_Required e = Some True
        else ad_required target))
     \<and> (es_RequiredByDependency s \<longleftrightarrow> (\<exists>e\<in>effs. eff_Required e = Some True))
     \<and> es_RequiredEnforcement s = (if \<exists>e\<in>effs. DemandsValue e \<and> effect_Enforcement e = EnforceOnWrite
          then EnforceOnWrite else DefaultEnforcement)
     \<and> (es_Restricted s \<longleftrightarrow> (\<exists>e\<in>effs. eff_AllowedValues e \<noteq> []))
     \<and> set (es_Constraints s) = set (ad_constraints target) \<union> (\<Union>e\<in>effs. set (eff_Constraints e))
     \<and> (\<forall>v. wf_value lib v \<longrightarrow> (effective_Check lib s v = None \<longleftrightarrow>
          (\<forall>e\<in>effs. eff_AllowedValues e \<noteq> [] \<longrightarrow> list_ex (Equal lib v) (eff_AllowedValues e))
          \<and> (\<forall>c\<in>set (ad_constraints target). constraint_Check lib c v = None)
          \<and> (\<forall>e\<in>effs. \<forall>c\<in>set (eff_Constraints e). constraint_Check lib c v = None)))"

lemma finish_simps [simp]:
  "es_AllowedValues (finish_state st) = es_AllowedValues (rs_schema st)"
  "es_Restricted (finish_state st) = es_Restricted (rs_schema st)"
  "es_Constraints (finish_state st) = es_Constraints (rs_schema st)"
  by (simp_all add: finish_state_def)

lemma effective_Check_None:
  "\<not> IsZero v \<Longrightarrow> effective_Check lib s v = None \<longleftrightarrow>
     (es_Restricted s \<longrightarrow> list_ex (Equal lib v) (es_AllowedValues s)) \<and>
     (\<forall>c\<in>set (es_Constraints s). constraint_Check lib c v = None)"
  unfolding effective_Check_def Constraints_Check_def first_err_None [symmetric]
  by (auto simp del: first_err_None split: option.split)

lemma start_simps [simp]:
  "es_AllowedValues (rs_schema (start_state t)) = []" "\<not> es_Restricted (rs_schema (start_state t))"
  "es_Constraints (rs_schema (start_state t)) = ad_constraints t" "\<not> rs_overridden (start_state t)"
  "\<not> rs_requiredByAny (start_state t)" "\<not> rs_enforceOnWrite (start_state t)"
  "es_Required (rs_schema (start_state t)) = ad_required t"
  "\<not> es_RequiredByDependency (rs_schema (start_state t))"
  "es_RequiredEnforcement (rs_schema (start_state t)) = DefaultEnforcement"
  by (simp_all add: start_state_def)

lemma schema_spec_apply:
  assumes "list_all (wf_effect lib) effs"
  shows "schema_spec lib target (set effs) (finish_state (apply_all lib effs (start_state target)))"
proof -
  let ?s = "finish_state (apply_all lib effs (start_state target))"
  have "effective_Check lib ?s v = None \<longleftrightarrow>
          (\<forall>e\<in>set effs. eff_AllowedValues e \<noteq> [] \<longrightarrow> list_ex (Equal lib v) (eff_AllowedValues e))
          \<and> (\<forall>c\<in>set (ad_constraints target). constraint_Check lib c v = None)
          \<and> (\<forall>e\<in>set effs. \<forall>c\<in>set (eff_Constraints e). constraint_Check lib c v = None)"
    if v: "wf_value lib v" for v
    using apply_all_allowed [OF v assms, of "start_state target"] wf_not_zero [OF v]
    by (simp add: effective_Check_None apply_all_flags) blast
  moreover have "es_Required ?s \<longleftrightarrow> (if \<exists>e\<in>set effs. eff_Required e \<noteq> None
      then \<exists>e\<in>set effs. eff_Required e = Some True else ad_required target)"
    by (simp add: finish_state_def apply_all_flags)
  moreover have "es_RequiredByDependency ?s \<longleftrightarrow> (\<exists>e\<in>set effs. eff_Required e = Some True)"
    by (auto simp: finish_state_def apply_all_flags)
  moreover have "es_RequiredEnforcement ?s = (if \<exists>e\<in>set effs. DemandsValue e \<and> effect_Enforcement e = EnforceOnWrite
      then EnforceOnWrite else DefaultEnforcement)"
    by (auto simp: finish_state_def apply_all_flags DemandsValue_def)
  moreover have "set (es_Constraints ?s) = set (ad_constraints target) \<union> (\<Union>e\<in>set effs. set (eff_Constraints e))"
    by (simp add: apply_all_flags)
  ultimately show ?thesis by (auto simp: schema_spec_def apply_all_flags)
qed

lemma resolve_refines_spec:
  assumes "\<forall>d\<in>set deps. is_ok (dep_applies lib target sv ctx now d)" "\<forall>d\<in>set deps. wf_effect lib (dep_effect d)"
  shows "\<exists>s. ResolveEffectiveWithContext lib target deps sv ctx now = Inr s \<and>
    schema_spec lib target {dep_effect d | d. d \<in> set deps \<and> dep_applies lib target sv ctx now d = Inr True} s"
proof -
  let ?effs = "matched_effects lib target deps sv ctx now"
  have "set ?effs = {dep_effect d | d. d \<in> set deps \<and> dep_applies lib target sv ctx now d = Inr True}"
    by (auto simp: matched_effects_def)
  moreover have "list_all (wf_effect lib) ?effs" using assms(2) by (auto simp: matched_effects_def list_all_iff)
  ultimately show ?thesis
    using resolve_loop_ok [OF assms(1), of "start_state target"] schema_spec_apply [of lib ?effs target]
    by (simp add: ResolveEffectiveWithContext_def)
qed

lemma schema_spec_agree:
  assumes "schema_spec lib target E s" "schema_spec lib target E s'"
  shows "es_Required s = es_Required s'" "es_RequiredByDependency s = es_RequiredByDependency s'"
    "es_RequiredEnforcement s = es_RequiredEnforcement s'" "es_Restricted s = es_Restricted s'"
    "set (es_Constraints s) = set (es_Constraints s')"
    "wf_value lib v \<Longrightarrow> effective_Check lib s v = None \<longleftrightarrow> effective_Check lib s' v = None"
  using assms by (simp_all add: schema_spec_def)

text \<open>An archived rule and a rule of another target contribute nothing.\<close>

lemma dep_applies_live:
  "dep_applies lib target sv ctx now d = Inr True \<Longrightarrow> \<not> dep_IsArchived d \<and> dep_targetID d = ad_id target"
  by (auto simp: dep_applies_def split: if_splits)

section \<open>Matching of validated rules\<close>

text \<open>\<open>sound_rule\<close>: the rule passed validation against the source type \<open>dt\<close>, its operands are
  well formed and its patterns compile in the form in which they are evaluated.\<close>

definition sound_rule :: "golib \<Rightarrow> DataType \<Rightarrow> Dependency \<Rightarrow> bool" where
  "sound_rule lib dt d \<longleftrightarrow> (\<forall>c\<in>set (dep_conditions d).
     cond_Validate lib c dt = None \<and> wf_condition lib c \<and>
     (cond_Kind c = CondPattern \<longrightarrow> re_compile lib (conditionPattern c) \<noteq> None))"

definition source_value :: "golib \<Rightarrow> DataType \<Rightarrow> gvalue \<Rightarrow> bool" where
  "source_value lib dt v \<longleftrightarrow> IsZero v \<or> wf_value lib v \<and> dataType v = dt"

lemma cond_applies_ok:
  assumes "cond_Validate lib c dt = None" "wf_condition lib c" "source_value lib dt v"
    "cond_Kind c = CondPattern \<Longrightarrow> re_compile lib (conditionPattern c) \<noteq> None"
  shows "is_ok (cond_applies lib v ctx now c)"
proof (cases "cond_ContextKey c = []")
  case True
  with assms(1) have "cond_subject c dt = Inr dt"
    by (auto simp: cond_Validate_def cond_subject_def split: if_splits)
  with assms True show ?thesis
    using cond_Matches_spec [of lib c dt dt v now]
    by (auto simp: cond_applies_def source_value_def cond_Matches_def)
qed (simp add: cond_applies_def split: option.split sum.split)

lemma matches_all_ok:
  "(\<And>c. c \<in> set cs \<Longrightarrow> is_ok (cond_applies lib v ctx now c)) \<Longrightarrow>
     matches_all lib cs v ctx now = Inr (\<forall>c\<in>set cs. cond_applies lib v ctx now c = Inr True)"
proof (induction cs)
  case (Cons c cs)
  then obtain b where "cond_applies lib v ctx now c = Inr b" by (auto elim: is_okE)
  with Cons show ?case by (cases b) auto
qed simp

lemma dep_matches_ok:
  assumes "sound_rule lib dt d" "source_value lib dt v"
  shows "dep_matches lib d v ctx now = Inr (\<forall>c\<in>set (dep_conditions d). cond_applies lib v ctx now c = Inr True)"
  unfolding dep_matches_def
  by (rule matches_all_ok, rule cond_applies_ok [of _ _ dt]) (use assms in \<open>auto simp: sound_rule_def\<close>)

lemma matches_any_ok:
  assumes "sound_rule lib dt d" "list_all (source_value lib dt) vs"
  shows "MatchesAnyWithContext lib d vs ctx now =
    Inr (if vs = [] then dep_matches lib d zero_value ctx now = Inr True
         else \<exists>v\<in>set vs. dep_matches lib d v ctx now = Inr True)"
proof -
  have "matches_any_of lib d vs ctx now = Inr (\<exists>v\<in>set vs. dep_matches lib d v ctx now = Inr True)"
    using assms(2)
  proof (induction vs)
    case (Cons v vs)
    then show ?case using dep_matches_ok [OF assms(1), of v ctx now] by (auto split: bool.split)
  qed simp
  moreover have "source_value lib dt zero_value" by (simp add: source_value_def)
  ultimately show ?thesis
    using dep_matches_ok [OF assms(1), of zero_value ctx now] by (simp add: MatchesAnyWithContext_def)
qed

text \<open>A rule that fires on some values keeps firing when another value is added.\<close>

lemma cond_applies_zero:
  "cond_applies lib zero_value ctx now c = Inr True \<Longrightarrow> cond_applies lib v ctx now c = Inr True"
  by (auto simp: cond_applies_def cond_Matches_def split: if_splits)

lemma matches_any_mono:
  assumes "sound_rule lib dt d" "list_all (source_value lib dt) vs" "list_all (source_value lib dt) ws"
    and "set vs \<subseteq> set ws" and "MatchesAnyWithContext lib d vs ctx now = Inr True"
  shows "MatchesAnyWithContext lib d ws ctx now = Inr True"
proof (cases "vs = [] \<and> ws \<noteq> []")
  case True
  then obtain w where w: "w \<in> set ws" by (cases ws) auto
  have z: "source_value lib dt zero_value" by (simp add: source_value_def)
  have "dep_matches lib d w ctx now = Inr True"
    using assms(5) True matches_any_ok [OF assms(1,2), of ctx now] dep_matches_ok [OF assms(1) z, of ctx now]
      dep_matches_ok [OF assms(1), of w ctx now] w assms(3) cond_applies_zero
    by (auto simp: list_all_iff)
  with w True matches_any_ok [OF assms(1,3), of ctx now] show ?thesis by auto
next
  case False
  with assms(4,5) show ?thesis
    using matches_any_ok [OF assms(1,2), of ctx now] matches_any_ok [OF assms(1,3), of ctx now]
    by (auto split: if_splits)
qed

lemma dep_applies_ok:
  assumes "sound_rule lib dt d" "list_all (source_value lib dt) (sv (dep_sourceID d))"
  shows "is_ok (dep_applies lib target sv ctx now d)"
  using matches_any_ok [OF assms, of ctx now] by (simp add: dep_applies_def)

end
