(* ===== verification/Field_ACL.thy ===== *)
theory Field_ACL
  imports Attribute Access
begin

text \<open>
  The field-level access policy by attribute identity (\<^verbatim>\<open>application/fieldacl/fieldacl.go\<close>): the
  resolver that maps attribute definition identifiers to the policy's names, and the mask it
  puts over a serialized payload. The attribute repository is the argument \<open>getMany\<close>; its
  in-memory implementation (\<^verbatim>\<open>infrastructure/memory/definitions.go\<close>) is \<open>attrRepo_GetMany\<close>, and the
  locale \<open>attr_lookup\<close> is the contract the resolver relies on.

  A Go map that a loop fills is the list of its entries, the latest first; reading a missing
  key gives Go's zero value. \<open>idString\<close> is the canonical text form of an identifier.
\<close>

section \<open>The attribute repository (memory/definitions.go)\<close>

type_synonym attr_store = "AttrSnapshot list"

definition attrRepo_Get :: "attr_store \<Rightarrow> AttributeDefinitionID \<Rightarrow> AttributeDefinition result" where
  "attrRepo_Get s i =
     (case find (\<lambda>x. as_ID x = i) s of None \<Rightarrow> Inl (NewNotFound attr_AggregateType)
      | Some snap \<Rightarrow> Inr (attr_Rehydrate snap))"

fun attrRepo_GetMany :: "attr_store \<Rightarrow> AttributeDefinitionID list \<Rightarrow> AttributeDefinition list result" where
  "attrRepo_GetMany s [] = Inr []"
| "attrRepo_GetMany s (i # ids) =
     (case attrRepo_Get s i of
        Inl e \<Rightarrow> if CodeOf e = Some CodeNotFound then attrRepo_GetMany s ids else Inl e
      | Inr a \<Rightarrow> map_sum id (\<lambda>out. a # out) (attrRepo_GetMany s ids))"

section \<open>The resolver (fieldacl.go)\<close>

fun dedupe_from :: "AttributeDefinitionID list \<Rightarrow> AttributeDefinitionID list \<Rightarrow> AttributeDefinitionID list" where
  "dedupe_from seen [] = []"
| "dedupe_from seen (i # ids) = (if i \<in> set seen then dedupe_from seen ids else i # dedupe_from (i # seen) ids)"

definition dedupe :: "AttributeDefinitionID list \<Rightarrow> AttributeDefinitionID list" where
  "dedupe ids = dedupe_from [] ids"

definition Names :: "(ulid \<Rightarrow> string) \<Rightarrow> (AttributeDefinitionID list \<Rightarrow> AttributeDefinition list result) \<Rightarrow>
    AttributeDefinitionID list \<Rightarrow> (string \<times> string) list result" where
  "Names idString getMany ids =
     (if ids = [] then Inr []
      else map_sum id (\<lambda>defs. rev (map (\<lambda>d. (idString (ad_id d), ad_internalName d)) defs)) (getMany ids))"

definition granted :: "(string \<Rightarrow> bool) \<Rightarrow> (ulid \<Rightarrow> string) \<Rightarrow> (string \<times> string) list \<Rightarrow>
    AttributeDefinitionID list \<Rightarrow> (string \<times> bool) list" where
  "granted can idString names ids =
     rev (map (\<lambda>i. (idString i, case map_of names (idString i) of Some name \<Rightarrow> can name | None \<Rightarrow> False)) ids)"

definition Readable :: "(ulid \<Rightarrow> string) \<Rightarrow> (AttributeDefinitionID list \<Rightarrow> AttributeDefinition list result) \<Rightarrow>
    Access \<Rightarrow> AttributeDefinitionID list \<Rightarrow> (string \<times> bool) list result" where
  "Readable idString getMany access ids =
     (if Admin access then Inr (rev (map (\<lambda>i. (idString i, True)) ids))
      else (case Names idString getMany (dedupe ids) of Inl e \<Rightarrow> Inl e
        | Inr names \<Rightarrow> Inr (granted (CanRead access) idString names ids)))"

definition Writable :: "(ulid \<Rightarrow> string) \<Rightarrow> (AttributeDefinitionID list \<Rightarrow> AttributeDefinition list result) \<Rightarrow>
    Access \<Rightarrow> AttributeDefinitionID list \<Rightarrow> (string \<times> bool) list result" where
  "Writable idString getMany access ids =
     (if Admin access then Inr (rev (map (\<lambda>i. (idString i, True)) ids))
      else (case Names idString getMany (dedupe ids) of Inl e \<Rightarrow> Inl e
        | Inr names \<Rightarrow> Inr (granted (CanWrite access) idString names ids)))"

text \<open>\<^verbatim>\<open>m[k]\<close> on a map of booleans.\<close>

definition flag_at :: "(string \<times> bool) list \<Rightarrow> string \<Rightarrow> bool" where
  "flag_at m k = (case map_of m k of Some b \<Rightarrow> b | None \<Rightarrow> False)"

definition acl_CanRead :: "(ulid \<Rightarrow> string) \<Rightarrow> (AttributeDefinitionID list \<Rightarrow> AttributeDefinition list result) \<Rightarrow>
    Access \<Rightarrow> AttributeDefinitionID \<Rightarrow> bool result" where
  "acl_CanRead idString getMany access i = map_sum id (\<lambda>m. flag_at m (idString i)) (Readable idString getMany access [i])"

definition acl_CanWrite :: "(ulid \<Rightarrow> string) \<Rightarrow> (AttributeDefinitionID list \<Rightarrow> AttributeDefinition list result) \<Rightarrow>
    Access \<Rightarrow> AttributeDefinitionID \<Rightarrow> bool result" where
  "acl_CanWrite idString getMany access i = map_sum id (\<lambda>m. flag_at m (idString i)) (Writable idString getMany access [i])"

definition AnyReadable :: "(ulid \<Rightarrow> string) \<Rightarrow> (AttributeDefinitionID list \<Rightarrow> AttributeDefinition list result) \<Rightarrow>
    Access \<Rightarrow> AttributeDefinitionID list \<Rightarrow> bool result" where
  "AnyReadable idString getMany access ids =
     (if ids = [] then Inr False
      else map_sum id (\<lambda>m. list_ex (\<lambda>k. flag_at m k) (map fst m)) (Readable idString getMany access ids))"

section \<open>Masked payloads (fieldacl.go)\<close>

definition RedactedMarker :: string where "RedactedMarker = ''redacted''"
definition valueFields :: "string list" where "valueFields = [''value'', ''old_value'', ''new_value'']"

text \<open>Decoding an object into a map keeps the last member of a name; encoding a map writes
  its keys in order.\<close>

definition obj_put :: "string \<Rightarrow> json \<Rightarrow> (string \<times> json) list \<Rightarrow> (string \<times> json) list" where
  "obj_put k v obj = sort_key fst ((k, v) # filter (\<lambda>(k', _). k' \<noteq> k) obj)"

definition obj_of :: "(string \<times> json) list \<Rightarrow> (string \<times> json) list" where
  "obj_of kvs = fold (\<lambda>(k, v). obj_put k v) kvs []"

definition mask_field :: "string \<Rightarrow> (string \<times> json) list \<Rightarrow> (string \<times> json) list" where
  "mask_field f obj = (if f \<in> fst ` set obj then obj_put f JNull obj else obj)"

definition MaskPayload :: "rawmsg \<Rightarrow> rawmsg result" where
  "MaskPayload raw =
     (case raw of
        Raw (JObj kvs) \<Rightarrow>
          (let obj = obj_of kvs;
               masked = list_ex (\<lambda>f. f \<in> fst ` set obj) valueFields
           in if \<not> masked then Inr raw
              else Inr (Raw (JObj (obj_put RedactedMarker (JBool True)
                     (fold mask_field valueFields obj)))))
      | _ \<Rightarrow> Inr raw)"

section \<open>The resolver on any attribute repository\<close>

lemma dedupe_set [simp]: "set (dedupe ids) = set ids"
proof -
  have "set (dedupe_from seen ids) = set ids - set seen" for seen
    by (induction seen ids rule: dedupe_from.induct) auto
  then show ?thesis by (simp add: dedupe_def)
qed

lemma dedupe_distinct: "distinct (dedupe ids)"
proof -
  have "distinct (dedupe_from seen ids) \<and> set (dedupe_from seen ids) \<inter> set seen = {}" for seen
    by (induction seen ids rule: dedupe_from.induct) auto
  then show ?thesis by (simp add: dedupe_def)
qed

lemma map_of_rev_keyed:
  "map_of (rev (map (\<lambda>i. (f i, g i)) xs)) k = Some v \<Longrightarrow> \<exists>i\<in>set xs. f i = k \<and> g i = v"
  by (drule map_of_SomeD) auto

lemma map_of_keyed_present: "i \<in> set xs \<Longrightarrow> map_of (rev (map (\<lambda>i. (f i, g i)) xs)) (f i) \<noteq> None"
  unfolding map_of_eq_None_iff by (simp add: image_image)

lemma flag_at_granted:
  assumes "inj idString"
  shows "flag_at (rev (map (\<lambda>i. (idString i, P i)) ids)) k \<longleftrightarrow> (\<exists>i\<in>set ids. idString i = k \<and> P i)"
proof (cases "\<exists>i\<in>set ids. idString i = k")
  case True
  then obtain i where i: "i \<in> set ids" "idString i = k" by blast
  have "map_of (rev (map (\<lambda>i. (idString i, P i)) ids)) k \<noteq> None"
    using map_of_keyed_present i by fast
  then obtain v where v: "map_of (rev (map (\<lambda>i. (idString i, P i)) ids)) k = Some v" by blast
  from map_of_rev_keyed [OF this] i(2) assms have "v = P i" by (auto dest: injD)
  with v i assms show ?thesis by (auto simp: flag_at_def dest: injD)
next
  case False
  then have "map_of (rev (map (\<lambda>i. (idString i, P i)) ids)) k = None"
    by (auto simp: map_of_eq_None_iff)
  with False show ?thesis by (auto simp: flag_at_def)
qed

locale attr_lookup =
  fixes get :: "AttributeDefinitionID \<Rightarrow> AttributeDefinition result"
    and getMany :: "AttributeDefinitionID list \<Rightarrow> AttributeDefinition list result"
  assumes get_id: "get i = Inr d \<Longrightarrow> ad_id d = i"
    and getMany_all: "\<exists>defs. getMany ids = Inr defs \<and> set defs = {d. \<exists>i\<in>set ids. get i = Inr d}"
begin

lemma Names_lookup:
  assumes "inj idString" "i \<in> set ids"
  shows "\<exists>names. Names idString getMany ids = Inr names \<and>
    map_of names (idString i) = (case get i of Inr d \<Rightarrow> Some (ad_internalName d) | Inl _ \<Rightarrow> None)"
proof -
  from getMany_all [of ids] obtain defs where
    defs: "getMany ids = Inr defs" "set defs = {d. \<exists>i\<in>set ids. get i = Inr d}" by blast
  let ?n = "rev (map (\<lambda>d. (idString (ad_id d), ad_internalName d)) defs)"
  have "Names idString getMany ids = Inr ?n" using assms(2) defs(1) by (auto simp: Names_def)
  moreover have "map_of ?n (idString i) = (case get i of Inr d \<Rightarrow> Some (ad_internalName d) | Inl _ \<Rightarrow> None)"
  proof (cases "get i")
    case (Inl e)
    have "idString (ad_id d) \<noteq> idString i" if "d \<in> set defs" for d
      using that defs(2) Inl get_id assms(1) by (auto dest: injD)
    then have "map_of ?n (idString i) = None" by (force simp: map_of_eq_None_iff)
    with Inl show ?thesis by simp
  next
    case (Inr d)
    with defs(2) assms(2) have "d \<in> set defs" by blast
    then have "map_of ?n (idString i) \<noteq> None"
      using get_id [OF Inr] map_of_keyed_present [of d defs "\<lambda>d. idString (ad_id d)" ad_internalName] by simp
    then obtain name where name: "map_of ?n (idString i) = Some name" by blast
    from map_of_rev_keyed [OF name] obtain d' where
      d': "d' \<in> set defs" "idString (ad_id d') = idString i" "ad_internalName d' = name" by blast
    with defs(2) obtain j where "get j = Inr d'" by blast
    with d'(2) assms(1) get_id have "j = i" by (metis injD)
    with \<open>get j = Inr d'\<close> Inr d'(3) name show ?thesis by simp
  qed
  ultimately show ?thesis by blast
qed

text \<open>A definition the repository does not know is neither readable nor writable, except to
  an administrator.\<close>

definition permitted :: "(Access \<Rightarrow> string \<Rightarrow> bool) \<Rightarrow> Access \<Rightarrow> AttributeDefinitionID \<Rightarrow> bool" where
  "permitted can access i \<longleftrightarrow> Admin access \<or> (\<exists>d. get i = Inr d \<and> can access (ad_internalName d))"

lemma granted_exact:
  assumes "inj idString"
  shows "\<exists>names. Names idString getMany (dedupe ids) = Inr names \<and>
    granted can idString names ids =
      rev (map (\<lambda>i. (idString i, \<exists>d. get i = Inr d \<and> can (ad_internalName d))) ids)"
proof (cases "ids = []")
  case False
  then obtain i0 where "i0 \<in> set (dedupe ids)" by (cases ids) auto
  from Names_lookup [OF assms this] obtain names where names: "Names idString getMany (dedupe ids) = Inr names" by blast
  have "map_of names (idString i) = (case get i of Inr d \<Rightarrow> Some (ad_internalName d) | Inl _ \<Rightarrow> None)"
    if "i \<in> set ids" for i
    using Names_lookup [OF assms, of i "dedupe ids"] that names by simp
  then have "granted can idString names ids =
      rev (map (\<lambda>i. (idString i, \<exists>d. get i = Inr d \<and> can (ad_internalName d))) ids)"
    by (auto simp: granted_def split: sum.splits)
  with names show ?thesis by blast
qed (simp add: Names_def dedupe_def granted_def)

lemma Readable_exact:
  assumes "inj idString"
  shows "\<exists>m. Readable idString getMany access ids = Inr m \<and>
    (\<forall>k. flag_at m k \<longleftrightarrow> (\<exists>i\<in>set ids. idString i = k \<and> permitted CanRead access i))"
  using granted_exact [OF assms, of ids "CanRead access"]
  by (auto simp: Readable_def flag_at_granted [OF assms] permitted_def)

lemma Writable_exact:
  assumes "inj idString"
  shows "\<exists>m. Writable idString getMany access ids = Inr m \<and>
    (\<forall>k. flag_at m k \<longleftrightarrow> (\<exists>i\<in>set ids. idString i = k \<and> permitted CanWrite access i))"
  using granted_exact [OF assms, of ids "CanWrite access"]
  by (auto simp: Writable_def flag_at_granted [OF assms] permitted_def)

lemma acl_exact:
  assumes "inj idString"
  shows "acl_CanRead idString getMany access i = Inr (permitted CanRead access i)"
    and "acl_CanWrite idString getMany access i = Inr (permitted CanWrite access i)"
  using Readable_exact [OF assms, of access "[i]"] Writable_exact [OF assms, of access "[i]"]
  by (auto simp: acl_CanRead_def acl_CanWrite_def)

end

lemma attrRepo_GetMany_all:
  "\<exists>defs. attrRepo_GetMany s ids = Inr defs \<and> set defs = {d. \<exists>i\<in>set ids. attrRepo_Get s i = Inr d}"
proof (induction ids)
  case (Cons i ids)
  then obtain defs where "attrRepo_GetMany s ids = Inr defs"
      "set defs = {d. \<exists>i\<in>set ids. attrRepo_Get s i = Inr d}" by blast
  then show ?case by (cases "attrRepo_Get s i") (auto simp: attrRepo_Get_def split: option.splits)
qed simp

interpretation mem_attrs: attr_lookup "attrRepo_Get s" "attrRepo_GetMany s" for s
proof
  show "attrRepo_Get s i = Inr d \<Longrightarrow> ad_id d = i" for i d
    by (auto simp: attrRepo_Get_def attr_Rehydrate_def find_Some_iff split: option.splits)
qed (rule attrRepo_GetMany_all)

section \<open>A masked payload shows no value\<close>

lemma distinct_keys_sort [simp]: "distinct (map fst (sort_key f xs)) \<longleftrightarrow> distinct (map fst xs)"
  by (simp add: distinct_map)

lemma obj_put_keys: "distinct (map fst obj) \<Longrightarrow> distinct (map fst ((k, v) # filter (\<lambda>(k', _). k' \<noteq> k) obj))"
  by (auto simp: distinct_map_filter)

lemma distinct_obj_put [simp]: "distinct (map fst obj) \<Longrightarrow> distinct (map fst (obj_put k v obj))"
  using obj_put_keys [of obj k v] by (simp only: obj_put_def distinct_keys_sort)

lemma map_of_obj_put [simp]:
  assumes "distinct (map fst obj)" shows "map_of (obj_put k v obj) = (map_of obj)(k \<mapsto> v)"
proof -
  let ?xs = "(k, v) # filter (\<lambda>(k', _). k' \<noteq> k) obj"
  have "map_of (sort_key fst ?xs) = map_of ?xs"
    using obj_put_keys [OF assms, of k v] by (subst map_of_inject_set) (simp_all only: distinct_keys_sort set_sort)
  moreover have "map_of ?xs = (map_of obj)(k \<mapsto> v)"
    by (induction obj) (auto simp: fun_eq_iff split: if_splits)
  ultimately show ?thesis by (simp add: obj_put_def)
qed

lemma obj_of_ok: "distinct (map fst (obj_of kvs))" "map_of (obj_of kvs) = map_of (rev kvs)"
proof -
  have "distinct (map fst obj) \<Longrightarrow>
      distinct (map fst (fold (\<lambda>(k, v). obj_put k v) kvs obj)) \<and>
      map_of (fold (\<lambda>(k, v). obj_put k v) kvs obj) = map_of obj ++ map_of (rev kvs)" for obj
    by (induction kvs arbitrary: obj) (auto simp: map_add_assoc [symmetric] map_add_upd_left)
  from this [of "[]"] show "distinct (map fst (obj_of kvs))" "map_of (obj_of kvs) = map_of (rev kvs)"
    by (simp_all add: obj_of_def)
qed

lemma mask_step:
  assumes "distinct (map fst obj)"
  shows "distinct (map fst (mask_field f obj))"
    and "map_of (mask_field f obj) k =
      (if k = f then map_option (\<lambda>_. JNull) (map_of obj k) else map_of obj k)"
  using assms map_of_eq_None_iff [of obj f] by (auto simp: mask_field_def dest: weak_map_of_SomeI)

text \<open>What a reader finds in a masked object: no value field carries anything but null, every
  other member is as it was, and the marker is set.\<close>

lemma MaskPayload_fields:
  assumes "f \<in> set valueFields" "map_of (rev kvs) f \<noteq> None"
  shows "\<exists>out. MaskPayload (Raw (JObj kvs)) = Inr (Raw (JObj out)) \<and> map_of out RedactedMarker = Some (JBool True) \<and>
    (\<forall>k\<in>set valueFields. map_of out k \<in> {None, Some JNull}) \<and>
    (\<forall>k. k \<notin> set valueFields \<longrightarrow> k \<noteq> RedactedMarker \<longrightarrow> map_of out k = map_of (rev kvs) k)"
proof -
  have fold: "distinct (map fst obj) \<Longrightarrow> distinct (map fst (fold mask_field fs obj)) \<and>
      (\<forall>k. map_of (fold mask_field fs obj) k =
        (if k \<in> set fs then map_option (\<lambda>_. JNull) (map_of obj k) else map_of obj k))" for fs obj
  proof (induction fs arbitrary: obj)
    case (Cons f fs)
    from mask_step [OF Cons.prems, of f] Cons.IH [of "mask_field f obj"]
    show ?case by (simp add: option.map_comp o_def)
  qed simp
  let ?m = "fold mask_field valueFields (obj_of kvs)"
  have m: "distinct (map fst ?m)" "\<And>k. map_of ?m k =
      (if k \<in> set valueFields then map_option (\<lambda>_. JNull) (map_of (rev kvs) k) else map_of (rev kvs) k)"
    using fold [of "obj_of kvs" valueFields] obj_of_ok [of kvs] by auto
  have "f \<in> fst ` set (obj_of kvs)"
    using assms(2) obj_of_ok(2) [of kvs] by (metis map_of_eq_None_iff)
  with assms(1) have "MaskPayload (Raw (JObj kvs)) = Inr (Raw (JObj (obj_put RedactedMarker (JBool True) ?m)))"
    by (auto simp: MaskPayload_def Let_def list_ex_iff)
  moreover have "RedactedMarker \<notin> set valueFields" by (simp add: RedactedMarker_def valueFields_def)
  ultimately show ?thesis using m by auto
qed

lemma MaskPayload_no_value:
  assumes "\<forall>f\<in>set valueFields. map_of (rev kvs) f = None"
  shows "MaskPayload (Raw (JObj kvs)) = Inr (Raw (JObj kvs))"
  using assms obj_of_ok(2) [of kvs] by (auto simp: MaskPayload_def Let_def list_ex_iff map_of_eq_None_iff [symmetric])

end
