(* ===== verification/Value_Repo.thy ===== *)
theory Value_Repo
  imports Paging Attr_Value Dependency Field_ACL
begin

text \<open>
  The in-memory repositories of stored values and of dependencies
  (\<^verbatim>\<open>infrastructure/memory/instances.go\<close>) and the entity sweep of the exporter
  (\<^verbatim>\<open>application/value/importexport.go\<close>).

  A Go map has no order; a repository is the list of its snapshots, and every query sorts by
  the text of the identifier or picks the oldest row. \<open>idString\<close> is that text form. The journal entries
  of the writes are the subject of \<open>Mem_Store\<close>.
\<close>

section \<open>Stored values\<close>

type_synonym value_store = "ValueSnapshot list"

fun put_value :: "ValueSnapshot \<Rightarrow> value_store \<Rightarrow> value_store" where
  "put_value x [] = [x]"
| "put_value x (y # ys) = (if vs_ID y = vs_ID x then x # ys else y # put_value x ys)"

definition valueRepo_Get :: "value_store \<Rightarrow> AttributeValueID \<Rightarrow> AttributeValue result" where
  "valueRepo_Get s i =
     (case find (\<lambda>x. vs_ID x = i) s of None \<Rightarrow> Inl (NewNotFound value_AggregateType)
      | Some snap \<Rightarrow> Inr (av_Rehydrate snap))"

definition valueRepo_Save :: "value_store \<Rightarrow> AttributeValue \<Rightarrow> value_store" where
  "valueRepo_Save s av = put_value (av_Snapshot av) s"

definition values_where :: "(ulid \<Rightarrow> string) \<Rightarrow> (ValueSnapshot \<Rightarrow> bool) \<Rightarrow> value_store \<Rightarrow> AttributeValue list" where
  "values_where idString P s = sortByID (\<lambda>av. idString (av_id av)) (map av_Rehydrate (filter P s))"

record EntityKey =
  ek_TenantID :: TenantID
  ek_TypeDefinitionID :: TypeDefinitionID
  ek_EntityID :: EntityID

definition ListByEntity :: "(ulid \<Rightarrow> string) \<Rightarrow> value_store \<Rightarrow> EntityKey \<Rightarrow> AttributeValue list" where
  "ListByEntity idString s key = values_where idString (\<lambda>snap. vs_TenantID snap = ek_TenantID key \<and>
     vs_TypeDefinitionID snap = ek_TypeDefinitionID key \<and> vs_EntityID snap = ek_EntityID key \<and>
     vs_ArchivedAt snap = None) s"

definition ListByEntities :: "(ulid \<Rightarrow> string) \<Rightarrow> value_store \<Rightarrow> TenantID \<Rightarrow> EntityID list \<Rightarrow> AttributeValue list" where
  "ListByEntities idString s tenant entityIDs = values_where idString (\<lambda>snap. vs_TenantID snap = tenant \<and>
     vs_EntityID snap \<in> set entityIDs \<and> vs_ArchivedAt snap = None) s"

definition FindByDefinitionAndEntity :: "(ulid \<Rightarrow> string) \<Rightarrow> value_store \<Rightarrow> AttributeDefinitionID \<Rightarrow> EntityID \<Rightarrow>
    AttributeValue list" where
  "FindByDefinitionAndEntity idString s defID entityID = values_where idString (\<lambda>snap.
     vs_AttributeDefinitionID snap = defID \<and> vs_EntityID snap = entityID \<and> vs_ArchivedAt snap = None) s"

definition ListByDefinition :: "keyset_lib \<Rightarrow> (ulid \<Rightarrow> string) \<Rightarrow> value_store \<Rightarrow> AttributeDefinitionID \<Rightarrow> Page \<Rightarrow>
    (AttributeValue list \<times> int) result" where
  "ListByDefinition klib idString s defID page =
     paginate klib (values_where idString (\<lambda>snap. vs_AttributeDefinitionID snap = defID \<and> vs_ArchivedAt snap = None) s)
       page idKeyset (\<lambda>av. idKey (idString (av_id av)))"

definition CountByDefinitionAndValue :: "golib \<Rightarrow> value_store \<Rightarrow> AttributeDefinitionID \<Rightarrow> scope \<Rightarrow> gvalue \<Rightarrow> EntityID \<Rightarrow> nat" where
  "CountByDefinitionAndValue lib s defID scope v excludeEntity =
     length (filter (\<lambda>snap. vs_AttributeDefinitionID snap = defID \<and> vs_EntityID snap \<noteq> excludeEntity \<and>
       vs_Locale snap = Locale scope \<and> vs_Channel snap = Channel scope \<and> vs_ArchivedAt snap = None \<and>
       Equal lib (vs_Value snap) v) s)"

record ValueFilter =
  vf_TenantID :: TenantID
  vf_IncludeArchived :: bool
  vf_TypeDefinitionID :: TypeDefinitionID
  vf_AttributeDefinitionID :: AttributeDefinitionID
  vf_EntityID :: EntityID

definition value_listed :: "ValueFilter \<Rightarrow> ValueSnapshot \<Rightarrow> bool" where
  "value_listed f snap \<longleftrightarrow>
     vs_TenantID snap = vf_TenantID f \<and> (vf_IncludeArchived f \<or> vs_ArchivedAt snap = None) \<and>
     (id_IsZero (vf_TypeDefinitionID f) \<or> vs_TypeDefinitionID snap = vf_TypeDefinitionID f) \<and>
     (id_IsZero (vf_AttributeDefinitionID f) \<or> vs_AttributeDefinitionID snap = vf_AttributeDefinitionID f) \<and>
     (vf_EntityID f = [] \<or> vs_EntityID snap = vf_EntityID f)"

definition valueRepo_List :: "keyset_lib \<Rightarrow> (ulid \<Rightarrow> string) \<Rightarrow> value_store \<Rightarrow> ValueFilter \<Rightarrow> Page \<Rightarrow>
    (AttributeValue list \<times> int) result" where
  "valueRepo_List klib idString s f page =
     paginate klib (values_where idString (value_listed f) s) page idKeyset (\<lambda>av. idKey (idString (av_id av)))"

text \<open>The oldest row, ties by the text of the identifier: \<^verbatim>\<open>EntityAnchor\<close> and \<^verbatim>\<open>MediaValueForKey\<close>.\<close>

definition older :: "(ulid \<Rightarrow> string) \<Rightarrow> ValueSnapshot \<Rightarrow> ValueSnapshot \<Rightarrow> bool" where
  "older idString snap best \<longleftrightarrow>
     vs_CreatedAt snap < vs_CreatedAt best \<or>
     (vs_CreatedAt snap = vs_CreatedAt best \<and> idString (vs_ID snap) < idString (vs_ID best))"

definition pick_oldest :: "(ulid \<Rightarrow> string) \<Rightarrow> ValueSnapshot option \<Rightarrow> ValueSnapshot \<Rightarrow> ValueSnapshot option" where
  "pick_oldest idString best snap =
     (case best of None \<Rightarrow> Some snap | Some b \<Rightarrow> if older idString snap b then Some snap else Some b)"

definition oldest :: "(ulid \<Rightarrow> string) \<Rightarrow> ValueSnapshot list \<Rightarrow> ValueSnapshot option" where
  "oldest idString s = foldl (pick_oldest idString) None s"

definition EntityAnchor :: "(ulid \<Rightarrow> string) \<Rightarrow> value_store \<Rightarrow> TenantID \<Rightarrow> EntityID \<Rightarrow> TypeDefinitionID option" where
  "EntityAnchor idString s tenant entityID =
     map_option vs_TypeDefinitionID (oldest idString (filter (\<lambda>snap. vs_TenantID snap = tenant \<and> vs_EntityID snap = entityID) s))"

definition ReanchorEntity :: "value_store \<Rightarrow> TenantID \<Rightarrow> EntityID \<Rightarrow> TypeDefinitionID \<Rightarrow> value_store \<times> nat" where
  "ReanchorEntity s tenant entityID to =
     (let moves = (\<lambda>snap. vs_TenantID snap = tenant \<and> vs_EntityID snap = entityID \<and> vs_TypeDefinitionID snap \<noteq> to)
      in (map (\<lambda>snap. if moves snap then snap\<lparr>vs_TypeDefinitionID := to\<rparr> else snap) s, length (filter moves s)))"

definition holds_key :: "string \<Rightarrow> ValueSnapshot \<Rightarrow> bool" where
  "holds_key key snap \<longleftrightarrow> dataType (vs_Value snap) = DataTypeMedia \<and> ObjectKey (Media (vs_Value snap)) = key"

definition MediaValueForKey :: "(ulid \<Rightarrow> string) \<Rightarrow> value_store \<Rightarrow> TenantID \<Rightarrow> string \<Rightarrow> ValueSnapshot option" where
  "MediaValueForKey idString s tenant key = oldest idString (filter (\<lambda>snap. vs_TenantID snap = tenant \<and> holds_key key snap) s)"

definition MediaKeyRefCount :: "value_store \<Rightarrow> string \<Rightarrow> AttributeValueID \<Rightarrow> nat" where
  "MediaKeyRefCount s key exclude =
     length (filter (\<lambda>snap. vs_ArchivedAt snap = None \<and> holds_key key snap \<and> vs_ID snap \<noteq> exclude) s)"

definition MediaKeyRefCounts :: "value_store \<Rightarrow> string list \<Rightarrow> string \<Rightarrow> nat option" where
  "MediaKeyRefCounts s keys key =
     (let n = length (filter (\<lambda>snap. vs_ArchivedAt snap = None \<and> holds_key key snap) s)
      in if key \<in> set keys \<and> n > 0 then Some n else None)"

definition MediaKeyAttributes :: "(ulid \<Rightarrow> string) \<Rightarrow> value_store \<Rightarrow> TenantID \<Rightarrow> string \<Rightarrow> AttributeDefinitionID list" where
  "MediaKeyAttributes idString s tenant key =
     sort_key idString (remdups (map vs_AttributeDefinitionID (filter (\<lambda>snap. vs_TenantID snap = tenant \<and> holds_key key snap) s)))"

text \<open>\<^verbatim>\<open>PurgeEntity\<close> and \<^verbatim>\<open>PurgeTenant\<close>: the rows go, archived ones too, and the media keys they held come back.\<close>

definition media_keys_of :: "ValueSnapshot list \<Rightarrow> string list" where
  "media_keys_of snaps =
     filter (\<lambda>k. k \<noteq> []) (map (\<lambda>x. ObjectKey (Media (vs_Value x))) (filter (\<lambda>x. dataType (vs_Value x) = DataTypeMedia) snaps))"

definition purge_where :: "(ValueSnapshot \<Rightarrow> bool) \<Rightarrow> value_store \<Rightarrow> value_store \<times> string list \<times> nat" where
  "purge_where P s = (filter (\<lambda>x. \<not> P x) s, media_keys_of (filter P s), length (filter P s))"

definition valueRepo_PurgeEntity :: "value_store \<Rightarrow> EntityKey \<Rightarrow> value_store \<times> string list \<times> nat" where
  "valueRepo_PurgeEntity s key = purge_where (\<lambda>snap. vs_TenantID snap = ek_TenantID key \<and>
     vs_TypeDefinitionID snap = ek_TypeDefinitionID key \<and> vs_EntityID snap = ek_EntityID key) s"

definition valueRepo_PurgeTenant :: "value_store \<Rightarrow> TenantID \<Rightarrow> value_store \<times> string list \<times> nat" where
  "valueRepo_PurgeTenant s tenant = purge_where (\<lambda>snap. vs_TenantID snap = tenant) s"

section \<open>The shape of an attribute's data\<close>

record DataShape =
  LiveValues :: nat
  EntitiesWithMany :: nat
  ScopedValues :: nat
  DuplicateValues :: nat

text \<open>The keys join their parts with the unit separator. A Go map that counts is here the count over
  the rows; the number of its keys is the number of distinct keys.\<close>

definition us :: string where "us = [CHR 0x1F]"

definition scope_key :: "ValueSnapshot \<Rightarrow> string" where
  "scope_key snap = vs_EntityID snap @ us @ vs_Locale snap @ us @ vs_Channel snap"

definition dup_key :: "golib \<Rightarrow> ValueSnapshot \<Rightarrow> string" where
  "dup_key lib snap = EqualityKey lib (vs_Value snap) @ us @ vs_Locale snap @ us @ vs_Channel snap"

definition AttributeDataShape :: "golib \<Rightarrow> value_store \<Rightarrow> TenantID \<Rightarrow> AttributeDefinitionID \<Rightarrow> DataShape" where
  "AttributeDataShape lib s tenant attrID =
     (let live = filter (\<lambda>snap. vs_TenantID snap = tenant \<and> vs_AttributeDefinitionID snap = attrID \<and> vs_ArchivedAt snap = None) s;
          entities_of = (\<lambda>k. remdups (map vs_EntityID (filter (\<lambda>x. dup_key lib x = k) live)))
      in \<lparr>LiveValues = length live,
          EntitiesWithMany = length (remdups (map vs_EntityID
             (filter (\<lambda>x. length (filter (\<lambda>y. scope_key y = scope_key x) live) > 1) live))),
          ScopedValues = length (filter (\<lambda>x. vs_Locale x \<noteq> [] \<or> vs_Channel x \<noteq> []) live),
          DuplicateValues = sum_list (map (\<lambda>k. let n = length (entities_of k) in if n > 1 then n else 0)
             (remdups (map (dup_key lib) live)))\<rparr>)"

section \<open>Entities\<close>

record EntitySummary =
  sm_EntityID :: EntityID
  sm_TypeDefinitionID :: TypeDefinitionID
  sm_ValueCount :: nat
  sm_LastUpdatedAt :: int

text \<open>The zero \<^verbatim>\<open>time.Time\<close>, the first instant of year 1.\<close>

definition zero_time :: int where "zero_time = - 62135596800000000000"

definition entity_summary :: "ValueSnapshot list \<Rightarrow> TypeDefinitionID \<times> EntityID \<Rightarrow> EntitySummary" where
  "entity_summary live key =
     (let rows = filter (\<lambda>x. vs_TypeDefinitionID x = fst key \<and> vs_EntityID x = snd key) live
      in \<lparr>sm_EntityID = snd key, sm_TypeDefinitionID = fst key, sm_ValueCount = length rows,
          sm_LastUpdatedAt = foldl max zero_time (map vs_UpdatedAt rows)\<rparr>)"

text \<open>\<open>timeKey\<close> is \<^verbatim>\<open>KeysetTime\<close>, the fixed-width
  text of a time. The list is sorted by identifier for a sweep and newest first otherwise.\<close>

definition entity_summaries :: "value_store \<Rightarrow> TenantID \<Rightarrow> TypeDefinitionID list \<Rightarrow> EntitySummary list" where
  "entity_summaries s tenant typeDefIDs =
     (let live = filter (\<lambda>x. vs_TenantID x = tenant \<and> vs_ArchivedAt x = None \<and> vs_TypeDefinitionID x \<in> set typeDefIDs) s
      in map (entity_summary live) (remdups (map (\<lambda>x. (vs_TypeDefinitionID x, vs_EntityID x)) live)))"

definition valueRepo_ListEntities :: "keyset_lib \<Rightarrow> (int \<Rightarrow> string) \<Rightarrow> value_store \<Rightarrow> TenantID \<Rightarrow> TypeDefinitionID list \<Rightarrow> Page \<Rightarrow>
    (EntitySummary list \<times> int) result" where
  "valueRepo_ListEntities klib timeKey s tenant typeDefIDs page =
     (let out = entity_summaries s tenant typeDefIDs
      in if pg_Stable page then paginate klib (sort_key sm_EntityID out) page entityIDKeyset (\<lambda>e. [sm_EntityID e])
         else paginate klib (sort_key (\<lambda>e. (- sm_LastUpdatedAt e, sm_EntityID e)) out) page entityKeyset
                (\<lambda>e. [timeKey (sm_LastUpdatedAt e), sm_EntityID e]))"

definition maxExportRows :: nat where "maxExportRows = 10000"

text \<open>\<^verbatim>\<open>exportEntityIDs\<close>. \<open>stores i\<close> is the repository as the request for page \<open>i\<close> finds it.\<close>

definition exportEntityIDs :: "keyset_lib \<Rightarrow> (nat \<Rightarrow> value_store) \<Rightarrow> TenantID \<Rightarrow> TypeDefinitionID \<Rightarrow> string list \<Rightarrow>
    string list result option" where
  "exportEntityIDs klib stores tenant typeID explicit =
     (if explicit \<noteq> [] then
        (if length explicit > maxExportRows then Some (Inl (NewValidation ''export exceeds the maximum row count''))
         else Some (Inr explicit))
      else map_option (map_sum id (\<lambda>out. take maxExportRows (map sm_EntityID out)))
        (sweep klib entityIDKeyset (\<lambda>e. [sm_EntityID e]) maxExportRows 21
           (\<lambda>i. sort_key sm_EntityID (entity_summaries (stores i) tenant [typeID]))
           \<lparr>pg_Limit = 500, pg_Cursor = [], pg_WantTotal = False, pg_Stable = True\<rparr> []))"

section \<open>Dependencies\<close>

type_synonym dep_store = "Dependency list"

definition deps_where :: "(ulid \<Rightarrow> string) \<Rightarrow> (Dependency \<Rightarrow> bool) \<Rightarrow> dep_store \<Rightarrow> Dependency list" where
  "deps_where idString match s = sortByID (\<lambda>d. idString (dep_id d)) (filter (\<lambda>d. dep_archivedAt d = None \<and> match d) s)"

definition depRepo_ListByTarget :: "(ulid \<Rightarrow> string) \<Rightarrow> dep_store \<Rightarrow> AttributeDefinitionID \<Rightarrow> Dependency list" where
  "depRepo_ListByTarget idString s targetID = deps_where idString (\<lambda>d. dep_targetID d = targetID) s"

definition depRepo_ListBySource :: "(ulid \<Rightarrow> string) \<Rightarrow> dep_store \<Rightarrow> AttributeDefinitionID \<Rightarrow> Dependency list" where
  "depRepo_ListBySource idString s sourceID = deps_where idString (\<lambda>d. dep_sourceID d = sourceID) s"

definition depRepo_ListEnforcedOnWrite :: "(ulid \<Rightarrow> string) \<Rightarrow> dep_store \<Rightarrow> TenantID \<Rightarrow> Dependency list" where
  "depRepo_ListEnforcedOnWrite idString s tenant = deps_where idString (\<lambda>d. dep_tenantID d = tenant \<and>
     DemandsValue (dep_effect d) \<and> effect_Enforcement (dep_effect d) = EnforceOnWrite) s"

section \<open>Lemmas\<close>

lemma set_put_value: "set (put_value x s) \<subseteq> insert x (set s)"
  by (induction s) auto

lemma put_value_ids [simp]: "vs_ID ` set (put_value x s) = insert (vs_ID x) (vs_ID ` set s)"
  by (induction s) auto

lemma put_value_distinct: "distinct (map vs_ID s) \<Longrightarrow> distinct (map vs_ID (put_value x s))"
proof (induction s)
  case (Cons y s)
  have "vs_ID y \<notin> vs_ID ` set (put_value x s)" if "vs_ID y \<noteq> vs_ID x" using Cons that by auto
  with Cons show ?case by auto
qed simp

lemma set_put_value_eq:
  "distinct (map vs_ID s) \<Longrightarrow> set (put_value x s) = insert x {y \<in> set s. vs_ID y \<noteq> vs_ID x}"
proof (induction s)
  case (Cons y s)
  show ?case
  proof (cases "vs_ID y = vs_ID x")
    case True
    with Cons.prems have "\<forall>z\<in>set s. vs_ID z \<noteq> vs_ID x" by (metis distinct.simps(2) image_eqI list.simps(9) set_map)
    with True show ?thesis by auto
  next
    case False
    with Cons show ?thesis by auto
  qed
qed simp

lemma set_values_where: "set (values_where idString P s) = av_Rehydrate ` {x \<in> set s. P x}"
  by (auto simp: values_where_def sortByID_def)

lemma values_where_empty: "values_where idString P s = [] \<longleftrightarrow> (\<forall>x\<in>set s. \<not> P x)"
proof -
  have "values_where idString P s = [] \<longleftrightarrow> set (values_where idString P s) = {}" by simp
  then show ?thesis unfolding set_values_where by auto
qed

lemma oldest_Some: "oldest idString s = Some x \<Longrightarrow> x \<in> set s"
proof -
  have "foldl (pick_oldest idString) b s = Some x \<Longrightarrow> x \<in> set s \<or> b = Some x" for b
    by (induction s arbitrary: b) (force simp: pick_oldest_def split: option.splits if_splits)+
  from this [of None] show "oldest idString s = Some x \<Longrightarrow> x \<in> set s" by (auto simp: oldest_def)
qed

lemma oldest_None: "oldest idString s = None \<longleftrightarrow> s = []"
proof -
  have "foldl (pick_oldest idString) (Some b) r \<noteq> None" for b r
    by (induction r arbitrary: b) (auto simp: pick_oldest_def)
  then show ?thesis by (cases s) (auto simp: oldest_def pick_oldest_def)
qed

lemma EntityAnchor_Some:
  assumes "EntityAnchor idString s tenant e = Some t"
  obtains x where "x \<in> set s" "vs_TenantID x = tenant" "vs_EntityID x = e" "vs_TypeDefinitionID x = t"
  using assms by (auto simp: EntityAnchor_def dest!: oldest_Some)

lemma EntityAnchor_None:
  "EntityAnchor idString s tenant e = None \<longleftrightarrow> (\<forall>x\<in>set s. \<not> (vs_TenantID x = tenant \<and> vs_EntityID x = e))"
  by (auto simp: EntityAnchor_def oldest_None filter_empty_conv)

text \<open>A list sorted by an injective text key is in page order.\<close>

lemma in_order_text:
  assumes "distinct (map f s)"
  shows "in_order [column e False c] (\<lambda>x. [f x]) (sort_key f s)"
proof -
  have "distinct (map f (sort_key f s))" using assms by (simp add: distinct_map)
  moreover have "sorted (map f (sort_key f s))" by simp
  ultimately have "sorted_wrt (<) (map f (sort_key f s))" by (simp add: strict_sorted_iff)
  then show ?thesis
    by (auto simp: in_order_def column_def sorted_wrt_map elim!: sorted_wrt_mono_rel [rotated])
qed

lemma entity_summaries_distinct: "distinct (map sm_EntityID (entity_summaries s tenant [typeID]))"
proof -
  define live where "live = filter (\<lambda>x. vs_TenantID x = tenant \<and> vs_ArchivedAt x = None \<and> vs_TypeDefinitionID x \<in> set [typeID]) s"
  let ?keys = "remdups (map (\<lambda>x. (vs_TypeDefinitionID x, vs_EntityID x)) live)"
  have "inj_on snd (set ?keys)" by (auto simp: inj_on_def live_def)
  then have "distinct (map snd ?keys)" by (simp add: distinct_map)
  moreover have "map sm_EntityID (entity_summaries s tenant [typeID]) = map snd ?keys"
    by (simp add: entity_summaries_def live_def entity_summary_def Let_def comp_def)
  ultimately show ?thesis by simp
qed

text \<open>The entities a sweep of one type is about.\<close>

definition live_entity :: "value_store \<Rightarrow> TenantID \<Rightarrow> TypeDefinitionID \<Rightarrow> EntityID \<Rightarrow> bool" where
  "live_entity s tenant typeID e \<longleftrightarrow>
     (\<exists>x\<in>set s. vs_TenantID x = tenant \<and> vs_TypeDefinitionID x = typeID \<and> vs_EntityID x = e \<and> vs_ArchivedAt x = None)"

lemma entity_summaries_ids:
  "sm_EntityID ` set (entity_summaries s tenant [typeID]) = {e. live_entity s tenant typeID e}"
  by (force simp: entity_summaries_def entity_summary_def Let_def live_entity_def image_iff)

lemma export_total: "exportEntityIDs klib stores tenant typeID explicit \<noteq> None"
  using sweep_total [of "\<lparr>pg_Limit = 500, pg_Cursor = [], pg_WantTotal = False, pg_Stable = True\<rparr>" maxExportRows "[]" 21
      klib entityIDKeyset "\<lambda>e. [sm_EntityID e]" "\<lambda>i. sort_key sm_EntityID (entity_summaries (stores i) tenant [typeID])"]
  by (auto simp: exportEntityIDs_def maxExportRows_def)

lemma count_list_distinct: "distinct xs \<Longrightarrow> count_list xs x = (if x \<in> set xs then 1 else 0)"
  by (induction xs) auto

text \<open>A sweep over the entities of one type that ends below its cap holds every entity that was there for all its pages, once.\<close>

lemma entity_sweep_once:
  assumes codec: "\<And>e. cursor_exact klib [e]"
    and res: "sweep klib entityIDKeyset (\<lambda>e. [sm_EntityID e]) cap n
        (\<lambda>i. sort_key sm_EntityID (entity_summaries (stores i) tenant [typeID])) page [] = Some (Inr res)"
    and short: "length res < cap" and page: "0 < pg_Limit page" "pg_Cursor page = []"
    and live: "\<And>i. live_entity (stores i) tenant typeID e"
  shows "count_list (map sm_EntityID res) e = 1"
proof -
  let ?key = "\<lambda>e. [sm_EntityID e]"
  let ?views = "\<lambda>i. sort_key sm_EntityID (entity_summaries (stores i) tenant [typeID])"
  have fits: "key_fits klib entityIDKeyset [x]" for x
    by (simp add: key_fits_def entityIDKeyset_def column_accepts_def column_kind_def column_def trim_space_def
        trim_prefix_def ascii_lower_def)
  have "in_order entityIDKeyset ?key res \<and> [e] \<in> ?key ` set res"
  proof (rule sweep_complete [OF res short, where cur = None])
    show "in_order entityIDKeyset ?key (?views i)" for i
      unfolding entityIDKeyset_def by (rule in_order_text) (rule entity_summaries_distinct)
    have "e \<in> sm_EntityID ` set (entity_summaries (stores i) tenant [typeID])" for i
      using live [of i] by (simp add: entity_summaries_ids)
    then show "[e] \<in> ?key ` set (?views i)" for i by force
  qed (simp_all add: cursor_at_def taken_def in_order_def codec fits page)
  then have "e \<in> set (map sm_EntityID res)" and o: "in_order entityIDKeyset ?key res" by auto
  moreover have "distinct (map sm_EntityID res)"
  proof -
    have "sorted_wrt (<) (map sm_EntityID res)"
      using o by (auto simp: in_order_def entityIDKeyset_def column_def sorted_wrt_map elim!: sorted_wrt_mono_rel [rotated] split: if_splits)
    then show ?thesis by (simp add: strict_sorted_iff)
  qed
  ultimately show ?thesis by (simp add: count_list_distinct)
qed

lemma export_complete:
  assumes codec: "\<And>e. cursor_exact klib [e]"
    and out: "exportEntityIDs klib stores tenant typeID [] = Some (Inr out)" "length out < maxExportRows"
    and live: "\<And>i. live_entity (stores i) tenant typeID e"
  shows "count_list out e = 1"
proof -
  from out(1) obtain res where res: "sweep klib entityIDKeyset (\<lambda>e. [sm_EntityID e]) maxExportRows 21
      (\<lambda>i. sort_key sm_EntityID (entity_summaries (stores i) tenant [typeID]))
      \<lparr>pg_Limit = 500, pg_Cursor = [], pg_WantTotal = False, pg_Stable = True\<rparr> [] = Some (Inr res)"
      "out = take maxExportRows (map sm_EntityID res)"
    by (auto simp: exportEntityIDs_def map_sum_Inr)
  have short: "length res < maxExportRows" using out(2) res(2) by (simp add: maxExportRows_def)
  from entity_sweep_once [OF codec res(1) short _ _ live] short res(2) show ?thesis by simp
qed

end
