(* ===== verification/Relationship.thy ===== *)
theory Relationship
  imports Typedefs
begin

text \<open>
  Relationships: the definition aggregate (\<^verbatim>\<open>domain/relationship/definition.go\<close>), the link
  aggregate (\<^verbatim>\<open>relationship.go\<close>), the in-memory repositories (\<^verbatim>\<open>infrastructure/memory/instances.go\<close>)
  and the use cases that create definitions and links, with their cardinality check
  (\<^verbatim>\<open>application/relationship/interactor.go\<close>). The lemmas show the link invariants under every
  interleaving of link and unlink calls: one live link per pair, canonical order of symmetric
  pairs, pins that follow the policy, and the declared maxima.
\<close>

section \<open>Relationship definitions (definition.go)\<close>

datatype VersionPolicy = PolicyUnset | PolicyLatest | PolicyPinned | VersionPolicyOther string

definition policy_valid :: "VersionPolicy \<Rightarrow> bool" where
  "policy_valid p \<longleftrightarrow> p = PolicyLatest \<or> p = PolicyPinned"

datatype RelKind = RelKindUnset | KindDirected | KindSymmetric | RelKindOther string

definition kind_valid :: "RelKind \<Rightarrow> bool" where
  "kind_valid k \<longleftrightarrow> k = KindDirected \<or> k = KindSymmetric"

definition DefinitionAggregateType :: string where "DefinitionAggregateType = ''relationship_definition''"
definition rel_AggregateType :: string where "rel_AggregateType = ''relationship''"

record RelDefinition =
  rd_id :: RelationshipDefinitionID
  rd_tenantID :: TenantID
  rd_internalName :: string
  rd_displayName :: string
  rd_description :: string
  rd_kind :: RelKind
  rd_parentTypeID :: TypeDefinitionID
  rd_childTypeID :: TypeDefinitionID
  rd_parentLabel :: string
  rd_childLabel :: string
  rd_attributeSetID :: TypeDefinitionID
  rd_extendsID :: "RelationshipDefinitionID option"
  rd_parentVersionPolicy :: VersionPolicy
  rd_childVersionPolicy :: VersionPolicy
  rd_minChildren :: "int option"
  rd_maxChildren :: "int option"
  rd_minParents :: "int option"
  rd_maxParents :: "int option"
  rd_version :: int
  rd_createdAt :: int
  rd_updatedAt :: int
  rd_archivedAt :: "int option"

record NewDefinitionInput =
  rn_TenantID :: TenantID
  rn_InternalName :: string
  rn_DisplayName :: string
  rn_Description :: string
  rn_Kind :: RelKind
  rn_ParentType :: "TypeDefinition option"
  rn_ChildType :: "TypeDefinition option"
  rn_ParentLabel :: string
  rn_ChildLabel :: string
  rn_AttributeSet :: "TypeDefinition option"
  rn_Extends :: "RelDefinition option"
  rn_ParentVersionPolicy :: VersionPolicy
  rn_ChildVersionPolicy :: VersionPolicy
  rn_MinChildren :: "int option"
  rn_MaxChildren :: "int option"
  rn_MinParents :: "int option"
  rn_MaxParents :: "int option"

record UpdateDefinitionInput =
  ru_DisplayName :: string
  ru_Description :: string
  ru_ParentLabel :: string
  ru_ChildLabel :: string
  ru_ParentVersionPolicy :: VersionPolicy
  ru_ChildVersionPolicy :: VersionPolicy
  ru_MinChildren :: "int option"
  ru_MaxChildren :: "int option"
  ru_MinParents :: "int option"
  ru_MaxParents :: "int option"

datatype rel_event =
    DefinitionCreated RelationshipDefinitionID TenantID string TypeDefinitionID TypeDefinitionID int
  | DefinitionUpdated RelationshipDefinitionID TenantID int int
  | DefinitionArchived RelationshipDefinitionID TenantID int
  | DefinitionRestored RelationshipDefinitionID TenantID int
  | Linked RelationshipID TenantID RelationshipDefinitionID EntityID EntityID "int option" "int option" int
  | RePinned RelationshipID TenantID RelationshipDefinitionID "int option" "int option" int
  | Unlinked RelationshipID TenantID RelationshipDefinitionID EntityID EntityID int

definition rd_IsArchived :: "RelDefinition \<Rightarrow> bool" where
  "rd_IsArchived d \<longleftrightarrow> rd_archivedAt d \<noteq> None"

definition IsSymmetric :: "RelDefinition \<Rightarrow> bool" where
  "IsSymmetric d \<longleftrightarrow> rd_kind d = KindSymmetric"

definition symmetric_err :: "VersionPolicy \<Rightarrow> VersionPolicy \<Rightarrow> string \<Rightarrow> string \<Rightarrow> int option \<Rightarrow> int option \<Rightarrow>
    goerr option" where
  "symmetric_err pp cp parentLabel childLabel minParents maxParents =
     (if pp = PolicyPinned \<or> cp = PolicyPinned
        then Some (NewValidation ''symmetric relationships cannot pin versions'')
      else if parentLabel \<noteq> [] \<or> childLabel \<noteq> []
        then Some (NewValidation ''symmetric relationships do not take side labels'')
      else if minParents \<noteq> None \<or> maxParents \<noteq> None
        then Some (NewValidation ''symmetric relationships take min_children/max_children only'')
      else None)"

definition extends_def_err :: "RelDefinition option \<Rightarrow> RelKind \<Rightarrow> TypeDefinition \<Rightarrow> TypeDefinition \<Rightarrow> goerr option" where
  "extends_def_err extends kind pt ct =
     (case extends of None \<Rightarrow> None
      | Some b \<Rightarrow>
          if rd_IsArchived b then Some (NewValidation ''cannot extend an archived relationship definition'')
          else if rd_kind b \<noteq> kind
            then Some (NewValidation ''an extending relationship definition must have the same kind as its base'')
          else if rd_parentTypeID b \<noteq> td_id pt \<or> rd_childTypeID b \<noteq> td_id ct
            then Some (NewValidation ''an extending relationship definition must connect the same parent and child types as its base'')
          else None)"

definition NewDefinition :: "NewDefinitionInput \<Rightarrow> RelationshipDefinitionID \<Rightarrow> int \<Rightarrow>
    (RelDefinition \<times> rel_event list) result" where
  "NewDefinition i newid now =
     (let tenant = (if rn_TenantID i = [] then DefaultTenant else rn_TenantID i)
      in if \<not> internalNamePattern (rn_InternalName i)
           then Inl (NewValidation ''internal name must be snake_case, start with a letter and be 2-63 characters'')
         else if rn_DisplayName i = [] then Inl (NewValidation ''display name is required'')
         else (case (rn_ParentType i, rn_ChildType i) of
           (Some pt, Some ct) \<Rightarrow>
             if td_kind pt \<noteq> KindEntity \<or> td_kind ct \<noteq> KindEntity
               then Inl (NewValidation ''relationship endpoints must be entity types'')
             else if type_IsArchived pt \<or> type_IsArchived ct
               then Inl (NewValidation ''relationship endpoints must not be archived'')
             else (case rn_AttributeSet i of
                 None \<Rightarrow> Inl (NewValidation ''a relationship definition requires its attribute-set type'')
               | Some aset \<Rightarrow>
                 if td_kind aset \<noteq> KindRelationshipAttributes
                   then Inl (NewValidation ''a relationship definition requires its attribute-set type'')
                 else let kind = (if rn_Kind i = RelKindUnset then KindDirected else rn_Kind i);
                          pp = (if rn_ParentVersionPolicy i = PolicyUnset then PolicyLatest else rn_ParentVersionPolicy i);
                          cp = (if rn_ChildVersionPolicy i = PolicyUnset then PolicyLatest else rn_ChildVersionPolicy i)
                 in if \<not> kind_valid kind
                      then Inl (NewValidation ''relationship kind must be directed or symmetric'')
                    else if \<not> policy_valid pp \<or> \<not> policy_valid cp
                      then Inl (NewValidation ''version policies must be latest or pinned'')
                    else (case (if kind = KindSymmetric
                           then symmetric_err pp cp (rn_ParentLabel i) (rn_ChildLabel i) (rn_MinParents i) (rn_MaxParents i)
                           else None) of Some e \<Rightarrow> Inl e
                    | None \<Rightarrow> (case extends_def_err (rn_Extends i) kind pt ct of Some e \<Rightarrow> Inl e
                    | None \<Rightarrow>
                        let d = \<lparr>rd_id = newid, rd_tenantID = tenant, rd_internalName = rn_InternalName i,
                     rd_displayName = rn_DisplayName i, rd_description = rn_Description i,
                     rd_kind = kind, rd_parentTypeID = td_id pt, rd_childTypeID = td_id ct,
                     rd_parentLabel = rn_ParentLabel i, rd_childLabel = rn_ChildLabel i,
                     rd_attributeSetID = td_id aset,
                     rd_extendsID = map_option rd_id (rn_Extends i), rd_parentVersionPolicy = pp,
                     rd_childVersionPolicy = cp, rd_minChildren = rn_MinChildren i,
                     rd_maxChildren = rn_MaxChildren i, rd_minParents = rn_MinParents i,
                     rd_maxParents = rn_MaxParents i, rd_version = 1, rd_createdAt = now,
                     rd_updatedAt = now, rd_archivedAt = None\<rparr>
                        in Inr (d, [DefinitionCreated (rd_id d) (rd_tenantID d) (rd_internalName d)
                             (rd_parentTypeID d) (rd_childTypeID d) now]))))
         | _ \<Rightarrow> Inl (NewValidation ''parent and child types are required'')))"

text \<open>The test for an update that changes nothing.\<close>

definition rd_unchanged :: "RelDefinition \<Rightarrow> UpdateDefinitionInput \<Rightarrow> VersionPolicy \<Rightarrow> VersionPolicy \<Rightarrow> bool" where
  "rd_unchanged d i pp cp \<longleftrightarrow>
     rd_displayName d = ru_DisplayName i \<and> rd_description d = ru_Description i \<and> rd_parentLabel d = ru_ParentLabel i \<and> rd_childLabel d = ru_ChildLabel i \<and> rd_parentVersionPolicy d = pp
     \<and> rd_childVersionPolicy d = cp \<and> rd_minChildren d = ru_MinChildren i \<and> rd_maxChildren d = ru_MaxChildren i \<and> rd_minParents d = ru_MinParents i \<and> rd_maxParents d = ru_MaxParents i"

definition rd_Update :: "RelDefinition \<Rightarrow> UpdateDefinitionInput \<Rightarrow> int \<Rightarrow> (RelDefinition \<times> rel_event list) result" where
  "rd_Update d i now =
     (if rd_IsArchived d then Inl (NewArchived DefinitionAggregateType)
      else if ru_DisplayName i = [] then Inl (NewValidation ''display name is required'')
      else let pp = (if ru_ParentVersionPolicy i = PolicyUnset then rd_parentVersionPolicy d else ru_ParentVersionPolicy i);
               cp = (if ru_ChildVersionPolicy i = PolicyUnset then rd_childVersionPolicy d else ru_ChildVersionPolicy i)
      in if \<not> policy_valid pp \<or> \<not> policy_valid cp
           then Inl (NewValidation ''version policies must be latest or pinned'')
         else (case (if rd_kind d = KindSymmetric
                then symmetric_err pp cp (ru_ParentLabel i) (ru_ChildLabel i) (ru_MinParents i) (ru_MaxParents i)
                else None) of Some e \<Rightarrow> Inl e
         | None \<Rightarrow>
             if rd_unchanged d i pp cp
             then Inr (d, [])
             else let d = d\<lparr>rd_displayName := ru_DisplayName i, rd_description := ru_Description i,
                 rd_parentLabel := ru_ParentLabel i, rd_childLabel := ru_ChildLabel i,
                 rd_parentVersionPolicy := pp, rd_childVersionPolicy := cp,
                 rd_minChildren := ru_MinChildren i, rd_maxChildren := ru_MaxChildren i,
                 rd_minParents := ru_MinParents i, rd_maxParents := ru_MaxParents i,
                 rd_version := rd_version d + 1, rd_updatedAt := now\<rparr>
                  in Inr (d, [DefinitionUpdated (rd_id d) (rd_tenantID d) (rd_version d) now])))"

definition rd_Archive :: "RelDefinition \<Rightarrow> int \<Rightarrow> (RelDefinition \<times> rel_event list) result" where
  "rd_Archive d now =
     (if rd_IsArchived d then Inl (NewArchived DefinitionAggregateType)
      else Inr (d\<lparr>rd_archivedAt := Some now, rd_updatedAt := now\<rparr>, [DefinitionArchived (rd_id d) (rd_tenantID d) now]))"

definition rd_Restore :: "RelDefinition \<Rightarrow> int \<Rightarrow> (RelDefinition \<times> rel_event list) result" where
  "rd_Restore d now =
     (if \<not> rd_IsArchived d then Inl (NewValidation ''relationship definition is not archived'')
      else Inr (d\<lparr>rd_archivedAt := None, rd_updatedAt := now\<rparr>, [DefinitionRestored (rd_id d) (rd_tenantID d) now]))"

record RelDefSnapshot =
  rds_ID :: RelationshipDefinitionID
  rds_TenantID :: TenantID
  rds_InternalName :: string
  rds_DisplayName :: string
  rds_Description :: string
  rds_Kind :: RelKind
  rds_ParentTypeID :: TypeDefinitionID
  rds_ChildTypeID :: TypeDefinitionID
  rds_ParentLabel :: string
  rds_ChildLabel :: string
  rds_AttributeSetID :: TypeDefinitionID
  rds_ExtendsID :: "RelationshipDefinitionID option"
  rds_ParentVersionPolicy :: VersionPolicy
  rds_ChildVersionPolicy :: VersionPolicy
  rds_MinChildren :: "int option"
  rds_MaxChildren :: "int option"
  rds_MinParents :: "int option"
  rds_MaxParents :: "int option"
  rds_Version :: int
  rds_CreatedAt :: int
  rds_UpdatedAt :: int
  rds_ArchivedAt :: "int option"

definition rd_Snapshot :: "RelDefinition \<Rightarrow> RelDefSnapshot" where
  "rd_Snapshot d =
     \<lparr>rds_ID = rd_id d, rds_TenantID = rd_tenantID d, rds_InternalName = rd_internalName d,
     rds_DisplayName = rd_displayName d, rds_Description = rd_description d, rds_Kind = rd_kind d,
     rds_ParentTypeID = rd_parentTypeID d, rds_ChildTypeID = rd_childTypeID d,
     rds_ParentLabel = rd_parentLabel d, rds_ChildLabel = rd_childLabel d,
     rds_AttributeSetID = rd_attributeSetID d, rds_ExtendsID = rd_extendsID d,
     rds_ParentVersionPolicy = rd_parentVersionPolicy d,
     rds_ChildVersionPolicy = rd_childVersionPolicy d, rds_MinChildren = rd_minChildren d,
     rds_MaxChildren = rd_maxChildren d, rds_MinParents = rd_minParents d,
     rds_MaxParents = rd_maxParents d, rds_Version = rd_version d, rds_CreatedAt = rd_createdAt d,
     rds_UpdatedAt = rd_updatedAt d, rds_ArchivedAt = rd_archivedAt d\<rparr>"

definition normalizeKind :: "RelKind \<Rightarrow> RelKind" where
  "normalizeKind k = (if k = RelKindUnset then KindDirected else k)"

definition RehydrateDefinition :: "RelDefSnapshot \<Rightarrow> RelDefinition" where
  "RehydrateDefinition s =
     \<lparr>rd_id = rds_ID s, rd_tenantID = rds_TenantID s, rd_internalName = rds_InternalName s,
     rd_displayName = rds_DisplayName s, rd_description = rds_Description s,
     rd_kind = normalizeKind (rds_Kind s), rd_parentTypeID = rds_ParentTypeID s,
     rd_childTypeID = rds_ChildTypeID s, rd_parentLabel = rds_ParentLabel s,
     rd_childLabel = rds_ChildLabel s, rd_attributeSetID = rds_AttributeSetID s,
     rd_extendsID = rds_ExtendsID s, rd_parentVersionPolicy = rds_ParentVersionPolicy s,
     rd_childVersionPolicy = rds_ChildVersionPolicy s, rd_minChildren = rds_MinChildren s,
     rd_maxChildren = rds_MaxChildren s, rd_minParents = rds_MinParents s,
     rd_maxParents = rds_MaxParents s, rd_version = rds_Version s, rd_createdAt = rds_CreatedAt s,
     rd_updatedAt = rds_UpdatedAt s, rd_archivedAt = rds_ArchivedAt s\<rparr>"

section \<open>Links (relationship.go)\<close>

record Relationship =
  rel_id :: RelationshipID
  rel_tenantID :: TenantID
  rel_definitionID :: RelationshipDefinitionID
  rel_parentEntity :: EntityID
  rel_childEntity :: EntityID
  rel_parentVersion :: "int option"
  rel_childVersion :: "int option"
  rel_createdAt :: int
  rel_updatedAt :: int
  rel_archivedAt :: "int option"

definition rel_IsArchived :: "Relationship \<Rightarrow> bool" where
  "rel_IsArchived r \<longleftrightarrow> rel_archivedAt r \<noteq> None"

definition checkPin :: "string \<Rightarrow> VersionPolicy \<Rightarrow> int option \<Rightarrow> goerr option" where
  "checkPin side policy pin =
     (case policy of
        PolicyPinned \<Rightarrow> (case pin of None \<Rightarrow> Some (NewValidation (side @ '' side must pin a type version''))
          | Some p \<Rightarrow> if p < 1 then Some (NewValidation (side @ '' version pin must be at least 1'')) else None)
      | PolicyLatest \<Rightarrow> (case pin of Some _ \<Rightarrow>
            Some (NewValidation (side @ '' side follows the latest version and cannot pin'')) | None \<Rightarrow> None)
      | _ \<Rightarrow> None)"

record LinkInput =
  li_Definition :: "RelDefinition option"
  li_ParentEntity :: EntityID
  li_ChildEntity :: EntityID
  li_ParentVersion :: "int option"
  li_ChildVersion :: "int option"

definition Link :: "LinkInput \<Rightarrow> RelationshipID \<Rightarrow> int \<Rightarrow> (Relationship \<times> rel_event list) result" where
  "Link i newid now =
     (case li_Definition i of None \<Rightarrow> Inl (NewValidation ''relationship definition is required'')
      | Some d \<Rightarrow>
          if rd_IsArchived d then Inl (NewArchived DefinitionAggregateType)
          else if li_ParentEntity i = [] \<or> li_ChildEntity i = []
            then Inl (NewValidation ''parent and child entity IDs are required'')
          else if li_ParentEntity i = li_ChildEntity i \<and> rd_parentTypeID d = rd_childTypeID d
            then Inl (NewValidation ''an entity cannot relate to itself'')
          else let swap = (IsSymmetric d \<and> li_ChildEntity i < li_ParentEntity i);
                   parent = (if swap then li_ChildEntity i else li_ParentEntity i);
                   child = (if swap then li_ParentEntity i else li_ChildEntity i)
          in (case checkPin ''parent'' (rd_parentVersionPolicy d) (li_ParentVersion i) of Some e \<Rightarrow> Inl e
          | None \<Rightarrow> (case checkPin ''child'' (rd_childVersionPolicy d) (li_ChildVersion i) of Some e \<Rightarrow> Inl e
          | None \<Rightarrow>
              let r = \<lparr>rel_id = newid, rel_tenantID = rd_tenantID d, rel_definitionID = rd_id d,
                    rel_parentEntity = parent, rel_childEntity = child, rel_parentVersion = li_ParentVersion i,
                    rel_childVersion = li_ChildVersion i, rel_createdAt = now, rel_updatedAt = now,
                    rel_archivedAt = None\<rparr>
              in Inr (r, [Linked (rel_id r) (rel_tenantID r) (rel_definitionID r) (rel_parentEntity r)
                   (rel_childEntity r) (rel_parentVersion r) (rel_childVersion r) now]))))"

definition RePin :: "Relationship \<Rightarrow> RelDefinition option \<Rightarrow> int option \<Rightarrow> int option \<Rightarrow> int \<Rightarrow>
    (Relationship \<times> rel_event list) result" where
  "RePin r def parentVersion childVersion now =
     (if rel_IsArchived r then Inl (NewArchived rel_AggregateType)
      else (case def of None \<Rightarrow> Inl (NewValidation ''definition does not match the relationship'')
      | Some d \<Rightarrow>
          if rd_id d \<noteq> rel_definitionID r then Inl (NewValidation ''definition does not match the relationship'')
          else (case checkPin ''parent'' (rd_parentVersionPolicy d) parentVersion of Some e \<Rightarrow> Inl e
          | None \<Rightarrow> (case checkPin ''child'' (rd_childVersionPolicy d) childVersion of Some e \<Rightarrow> Inl e
          | None \<Rightarrow>
              if rel_parentVersion r = parentVersion \<and> rel_childVersion r = childVersion then Inr (r, [])
              else let r = r\<lparr>rel_parentVersion := parentVersion, rel_childVersion := childVersion, rel_updatedAt := now\<rparr>
                   in Inr (r, [RePinned (rel_id r) (rel_tenantID r) (rel_definitionID r) (rel_parentVersion r)
                        (rel_childVersion r) now])))))"

definition Unlink :: "Relationship \<Rightarrow> int \<Rightarrow> (Relationship \<times> rel_event list) result" where
  "Unlink r now =
     (if rel_IsArchived r then Inl (NewArchived rel_AggregateType)
      else Inr (r\<lparr>rel_archivedAt := Some now, rel_updatedAt := now\<rparr>,
             [Unlinked (rel_id r) (rel_tenantID r) (rel_definitionID r) (rel_parentEntity r) (rel_childEntity r) now]))"

record RelSnapshot =
  rls_ID :: RelationshipID
  rls_TenantID :: TenantID
  rls_DefinitionID :: RelationshipDefinitionID
  rls_ParentEntityID :: EntityID
  rls_ChildEntityID :: EntityID
  rls_ParentVersion :: "int option"
  rls_ChildVersion :: "int option"
  rls_CreatedAt :: int
  rls_UpdatedAt :: int
  rls_ArchivedAt :: "int option"

definition rel_Snapshot :: "Relationship \<Rightarrow> RelSnapshot" where
  "rel_Snapshot r =
     \<lparr>rls_ID = rel_id r, rls_TenantID = rel_tenantID r, rls_DefinitionID = rel_definitionID r,
      rls_ParentEntityID = rel_parentEntity r, rls_ChildEntityID = rel_childEntity r,
      rls_ParentVersion = rel_parentVersion r, rls_ChildVersion = rel_childVersion r,
      rls_CreatedAt = rel_createdAt r, rls_UpdatedAt = rel_updatedAt r, rls_ArchivedAt = rel_archivedAt r\<rparr>"

definition rel_Rehydrate :: "RelSnapshot \<Rightarrow> Relationship" where
  "rel_Rehydrate s =
     \<lparr>rel_id = rls_ID s, rel_tenantID = rls_TenantID s, rel_definitionID = rls_DefinitionID s,
      rel_parentEntity = rls_ParentEntityID s, rel_childEntity = rls_ChildEntityID s,
      rel_parentVersion = rls_ParentVersion s, rel_childVersion = rls_ChildVersion s,
      rel_createdAt = rls_CreatedAt s, rel_updatedAt = rls_UpdatedAt s, rel_archivedAt = rls_ArchivedAt s\<rparr>"

section \<open>The in-memory repositories (memory/instances.go)\<close>

type_synonym reldef_store = "RelDefSnapshot list"
type_synonym rel_store = "RelSnapshot list"

definition relDefRepo_Get :: "reldef_store \<Rightarrow> RelationshipDefinitionID \<Rightarrow> RelDefinition result" where
  "relDefRepo_Get s i =
     (case find (\<lambda>x. rds_ID x = i) s of None \<Rightarrow> Inl (NewNotFound DefinitionAggregateType)
      | Some x \<Rightarrow> Inr (RehydrateDefinition x))"

definition relDefRepo_GetByInternalName :: "reldef_store \<Rightarrow> TenantID \<Rightarrow> string \<Rightarrow> RelDefinition result" where
  "relDefRepo_GetByInternalName s tenant name =
     (case find (\<lambda>x. rds_TenantID x = tenant \<and> rds_InternalName x = name \<and> rds_ArchivedAt x = None) s of
        None \<Rightarrow> Inl (NewNotFound DefinitionAggregateType)
      | Some x \<Rightarrow> Inr (RehydrateDefinition x))"

fun put_reldef :: "RelDefSnapshot \<Rightarrow> reldef_store \<Rightarrow> reldef_store" where
  "put_reldef x [] = [x]"
| "put_reldef x (y # ys) = (if rds_ID y = rds_ID x then x # ys else y # put_reldef x ys)"

definition relDefRepo_Save :: "reldef_store \<Rightarrow> RelDefinition \<Rightarrow> reldef_store result" where
  "relDefRepo_Save s d =
     (let snap = rd_Snapshot d
      in if rds_ArchivedAt snap = None \<and>
            list_ex (\<lambda>other. \<not> (rds_ID other = rds_ID snap \<or> rds_ArchivedAt other \<noteq> None) \<and>
                       rds_TenantID other = rds_TenantID snap \<and> rds_InternalName other = rds_InternalName snap) s
         then Inl (NewConflict ''a relationship with this internal name already exists'')
         else Inr (put_reldef snap s))"

definition relRepo_Get :: "rel_store \<Rightarrow> RelationshipID \<Rightarrow> Relationship result" where
  "relRepo_Get s i =
     (case find (\<lambda>x. rls_ID x = i) s of None \<Rightarrow> Inl (NewNotFound rel_AggregateType)
      | Some x \<Rightarrow> Inr (rel_Rehydrate x))"

definition FindLive :: "rel_store \<Rightarrow> RelationshipDefinitionID \<Rightarrow> EntityID \<Rightarrow> EntityID \<Rightarrow> Relationship option" where
  "FindLive s defID parent child =
     map_option rel_Rehydrate (find (\<lambda>x. rls_DefinitionID x = defID \<and> rls_ParentEntityID x = parent \<and>
       rls_ChildEntityID x = child \<and> rls_ArchivedAt x = None) s)"

fun count_live :: "rel_store \<Rightarrow> RelationshipDefinitionID \<Rightarrow> EntityID \<Rightarrow> nat \<times> nat" where
  "count_live [] defID entity = (0, 0)"
| "count_live (x # xs) defID entity =
     (let (asParent, asChild) = count_live xs defID entity
      in if rls_DefinitionID x \<noteq> defID \<or> rls_ArchivedAt x \<noteq> None then (asParent, asChild)
         else (asParent + (if rls_ParentEntityID x = entity then 1 else 0),
               asChild + (if rls_ChildEntityID x = entity then 1 else 0)))"

definition CountLiveLinks :: "rel_store \<Rightarrow> RelationshipDefinitionID \<Rightarrow> EntityID \<Rightarrow> nat \<times> nat" where
  "CountLiveLinks s defID entity = count_live s defID entity"

fun put_rel :: "RelSnapshot \<Rightarrow> rel_store \<Rightarrow> rel_store" where
  "put_rel x [] = [x]"
| "put_rel x (y # ys) = (if rls_ID y = rls_ID x then x # ys else y # put_rel x ys)"

definition relRepo_Save :: "rel_store \<Rightarrow> Relationship \<Rightarrow> rel_store result" where
  "relRepo_Save s r =
     (let snap = rel_Snapshot r
      in if rls_ArchivedAt snap = None \<and>
            list_ex (\<lambda>other. \<not> (rls_ID other = rls_ID snap \<or> rls_ArchivedAt other \<noteq> None) \<and>
                       rls_DefinitionID other = rls_DefinitionID snap \<and>
                       rls_ParentEntityID other = rls_ParentEntityID snap \<and>
                       rls_ChildEntityID other = rls_ChildEntityID snap) s
         then Inl (NewConflict ''these two entities are already linked by this relationship'')
         else Inr (put_rel snap s))"

definition relRepo_PurgeEntity :: "rel_store \<Rightarrow> TenantID \<Rightarrow> EntityID \<Rightarrow> rel_store \<times> nat" where
  "relRepo_PurgeEntity s tenant entityID =
     (let hit = (\<lambda>x. rls_TenantID x = tenant \<and> (rls_ParentEntityID x = entityID \<or> rls_ChildEntityID x = entityID))
      in (filter (\<lambda>x. \<not> hit x) s, length (filter hit s)))"

definition relRepo_PurgeTenant :: "rel_store \<Rightarrow> TenantID \<Rightarrow> rel_store \<times> nat" where
  "relRepo_PurgeTenant s tenant =
     (filter (\<lambda>x. rls_TenantID x \<noteq> tenant) s, length (filter (\<lambda>x. rls_TenantID x = tenant) s))"

section \<open>Use cases (interactor.go)\<close>

definition maxInheritanceDepth :: nat where "maxInheritanceDepth = 10"

record CreateDefinitionInput =
  cd_InternalName :: string
  cd_DisplayName :: string
  cd_Description :: string
  cd_Kind :: RelKind
  cd_ParentTypeID :: string
  cd_ChildTypeID :: string
  cd_ParentLabel :: string
  cd_ChildLabel :: string
  cd_ExtendsID :: string
  cd_ParentVersionPolicy :: VersionPolicy
  cd_ChildVersionPolicy :: VersionPolicy
  cd_MinChildren :: "int option"
  cd_MaxChildren :: "int option"
  cd_MinParents :: "int option"
  cd_MaxParents :: "int option"

definition load_endpoint :: "type_store \<Rightarrow> TenantID \<Rightarrow> TypeDefinitionID \<Rightarrow> TypeDefinition result" where
  "load_endpoint types tenant i =
     (case typeDefRepo_Get types i of Inl e \<Rightarrow> Inl e
      | Inr t \<Rightarrow> (case EnsureTenant tenant (td_tenantID t) ''type_definition'' of Some e \<Rightarrow> Inl e | None \<Rightarrow> Inr t))"

definition load_def :: "reldef_store \<Rightarrow> TenantID \<Rightarrow> RelationshipDefinitionID \<Rightarrow> RelDefinition result" where
  "load_def defs tenant i =
     (case relDefRepo_Get defs i of Inl e \<Rightarrow> Inl e
      | Inr d \<Rightarrow> (case EnsureTenant tenant (rd_tenantID d) DefinitionAggregateType of Some e \<Rightarrow> Inl e | None \<Rightarrow> Inr d))"

definition load_base :: "(string \<Rightarrow> ulid result) \<Rightarrow> reldef_store \<Rightarrow> TenantID \<Rightarrow> string \<Rightarrow> RelDefinition option result" where
  "load_base parseID defs tenant raw =
     (if raw = [] then Inr None
      else (case parseID raw of Inl e \<Rightarrow> Inl (NewValidation (''extends: '' @ err_msg e))
        | Inr i \<Rightarrow> map_sum id Some (load_def defs tenant i)))"

definition attribute_set_name :: "string \<Rightarrow> string" where
  "attribute_set_name internalName = ''rel_'' @ internalName @ ''_attrs''"

definition CreateDefinition :: "(string \<Rightarrow> ulid result) \<Rightarrow> type_store \<Rightarrow> reldef_store \<Rightarrow> TenantID \<Rightarrow>
    CreateDefinitionInput \<Rightarrow> TypeDefinitionID \<Rightarrow> RelationshipDefinitionID \<Rightarrow> int \<Rightarrow>
    (type_store \<times> reldef_store \<times> RelDefSnapshot \<times> type_event list \<times> rel_event list) result" where
  "CreateDefinition parseID types defs tenant i setid newid now =
     (case parseID (cd_ParentTypeID i) of Inl e \<Rightarrow> Inl (NewValidation (''parent type: '' @ err_msg e))
      | Inr parentTypeID \<Rightarrow>
     (case parseID (cd_ChildTypeID i) of Inl e \<Rightarrow> Inl (NewValidation (''child type: '' @ err_msg e))
      | Inr childTypeID \<Rightarrow>
     (case relDefRepo_GetByInternalName defs tenant (cd_InternalName i) of
        Inr _ \<Rightarrow> Inl (NewConflict ''internal name already in use'')
      | Inl e \<Rightarrow> if CodeOf e \<noteq> Some CodeNotFound then Inl e else
     (case load_endpoint types tenant parentTypeID of Inl e \<Rightarrow> Inl e | Inr parentType \<Rightarrow>
     (case load_endpoint types tenant childTypeID of Inl e \<Rightarrow> Inl e | Inr childType \<Rightarrow>
     (case load_base parseID defs tenant (cd_ExtendsID i) of Inl e \<Rightarrow> Inl e | Inr extends \<Rightarrow>
     (case NewAttributeSet tenant (attribute_set_name (cd_InternalName i))
             (cd_DisplayName i @ '' (link attributes)'') setid now of
        Inl e \<Rightarrow> Inl e
      | Inr (attrSet, setEvents) \<Rightarrow>
     (case typeDefRepo_Save types attrSet of Inl e \<Rightarrow> Inl e | Inr types' \<Rightarrow>
     (case NewDefinition \<lparr>rn_TenantID = tenant, rn_InternalName = cd_InternalName i,
             rn_DisplayName = cd_DisplayName i, rn_Description = cd_Description i, rn_Kind = cd_Kind i,
             rn_ParentType = Some parentType, rn_ChildType = Some childType, rn_ParentLabel = cd_ParentLabel i,
             rn_ChildLabel = cd_ChildLabel i, rn_AttributeSet = Some attrSet, rn_Extends = extends,
             rn_ParentVersionPolicy = cd_ParentVersionPolicy i, rn_ChildVersionPolicy = cd_ChildVersionPolicy i,
             rn_MinChildren = cd_MinChildren i, rn_MaxChildren = cd_MaxChildren i,
             rn_MinParents = cd_MinParents i, rn_MaxParents = cd_MaxParents i\<rparr> newid now of
        Inl e \<Rightarrow> Inl e
      | Inr (def, defEvents) \<Rightarrow>
     (case relDefRepo_Save defs def of Inl e \<Rightarrow> Inl e
      | Inr defs' \<Rightarrow> Inr (types', defs', rd_Snapshot def, setEvents, defEvents)))))))))))"

text \<open>The walk of \<^verbatim>\<open>AttributeSets\<close>; the tenant is checked on the first definition only.\<close>

fun attribute_sets_from :: "reldef_store \<Rightarrow> nat \<Rightarrow> RelationshipDefinitionID set \<Rightarrow> RelationshipDefinitionID \<Rightarrow>
    TypeDefinitionID list result" where
  "attribute_sets_from defs 0 seen i = Inl (NewValidation ''relationship definition inheritance exceeds the supported depth'')"
| "attribute_sets_from defs (Suc n) seen i =
     (case relDefRepo_Get defs i of Inl e \<Rightarrow> Inl e
      | Inr d \<Rightarrow>
          if rd_id d \<in> seen then Inl (NewValidation ''relationship definition inheritance forms a cycle'')
          else (case rd_extendsID d of None \<Rightarrow> Inr [rd_attributeSetID d]
            | Some b \<Rightarrow> map_sum id (\<lambda>sets. rd_attributeSetID d # sets)
                (attribute_sets_from defs n (insert (rd_id d) seen) b)))"

definition AttributeSets :: "(string \<Rightarrow> ulid result) \<Rightarrow> reldef_store \<Rightarrow> TenantID \<Rightarrow> string \<Rightarrow> TypeDefinitionID list result" where
  "AttributeSets parseID defs tenant raw =
     (case parseID raw of Inl e \<Rightarrow> Inl (NewValidation (err_msg e))
      | Inr i \<Rightarrow> (case load_def defs tenant i of Inl e \<Rightarrow> Inl e
          | Inr _ \<Rightarrow> attribute_sets_from defs maxInheritanceDepth {} i))"

definition over_limit :: "int option \<Rightarrow> nat \<Rightarrow> bool" where
  "over_limit limit n = (case limit of None \<Rightarrow> False | Some m \<Rightarrow> int n \<ge> m)"

definition enforceCardinality :: "rel_store \<Rightarrow> RelDefinition \<Rightarrow> RelationshipDefinitionID \<Rightarrow> EntityID \<Rightarrow> EntityID \<Rightarrow>
    goerr option" where
  "enforceCardinality s def defID parent child =
     (let (pAsParent, pAsChild) = CountLiveLinks s defID parent;
          (cAsParent, cAsChild) = CountLiveLinks s defID child;
          exceeded = Some (NewValidation ''relationship cardinality exceeded'')
      in if IsSymmetric def then
           (if over_limit (rd_maxChildren def) (pAsParent + pAsChild) then exceeded
            else if over_limit (rd_maxChildren def) (cAsParent + cAsChild) then exceeded
            else None)
         else if over_limit (rd_maxChildren def) pAsParent then exceeded
         else if over_limit (rd_maxParents def) cAsChild then exceeded
         else None)"

record LinkArgs =
  la_DefinitionID :: string
  la_ParentEntity :: string
  la_ChildEntity :: string
  la_ParentVersion :: "int option"
  la_ChildVersion :: "int option"

definition LinkEntities :: "(string \<Rightarrow> ulid result) \<Rightarrow> reldef_store \<Rightarrow> rel_store \<Rightarrow> TenantID \<Rightarrow> LinkArgs \<Rightarrow>
    RelationshipID \<Rightarrow> int \<Rightarrow> (rel_store \<times> RelSnapshot \<times> rel_event list) result" where
  "LinkEntities parseID defs s tenant i newid now =
     (case parseID (la_DefinitionID i) of Inl e \<Rightarrow> Inl (NewValidation (err_msg e)) | Inr defID \<Rightarrow>
     (case ParseEntityID (la_ParentEntity i) of Inl e \<Rightarrow> Inl (NewValidation (''parent: '' @ err_msg e)) | Inr parent0 \<Rightarrow>
     (case ParseEntityID (la_ChildEntity i) of Inl e \<Rightarrow> Inl (NewValidation (''child: '' @ err_msg e)) | Inr child0 \<Rightarrow>
     (case load_def defs tenant defID of Inl e \<Rightarrow> Inl e | Inr def \<Rightarrow>
      let swap = (IsSymmetric def \<and> child0 < parent0);
          parent = (if swap then child0 else parent0);
          child = (if swap then parent0 else child0)
      in if FindLive s defID parent child \<noteq> None
           then Inl (NewConflict ''these entities are already linked under this definition'')
         else (case enforceCardinality s def defID parent child of Some e \<Rightarrow> Inl e
         | None \<Rightarrow>
         (case Link \<lparr>li_Definition = Some def, li_ParentEntity = parent, li_ChildEntity = child,
                li_ParentVersion = la_ParentVersion i, li_ChildVersion = la_ChildVersion i\<rparr> newid now of
            Inl e \<Rightarrow> Inl e
          | Inr (r, evts) \<Rightarrow> (case relRepo_Save s r of Inl e \<Rightarrow> Inl e
              | Inr s' \<Rightarrow> Inr (s', rel_Snapshot r, evts))))))))"

definition UnlinkEntities :: "(string \<Rightarrow> ulid result) \<Rightarrow> rel_store \<Rightarrow> TenantID \<Rightarrow> string \<Rightarrow> int \<Rightarrow>
    (rel_store \<times> RelSnapshot \<times> rel_event list) result" where
  "UnlinkEntities parseID s tenant raw now =
     (case parseID raw of Inl e \<Rightarrow> Inl (NewValidation (err_msg e))
      | Inr i \<Rightarrow> (case relRepo_Get s i of Inl e \<Rightarrow> Inl e
          | Inr r \<Rightarrow> (case EnsureTenant tenant (rel_tenantID r) rel_AggregateType of Some e \<Rightarrow> Inl e
              | None \<Rightarrow> (case Unlink r now of Inl e \<Rightarrow> Inl e
                  | Inr (r', evts) \<Rightarrow> (case relRepo_Save s r' of Inl e \<Rightarrow> Inl e
                      | Inr s' \<Rightarrow> Inr (s', rel_Snapshot r', evts))))))"

record Requirement =
  rq_DefinitionID :: RelationshipDefinitionID
  rq_DefinitionName :: string
  rq_Side :: string
  rq_Required :: int
  rq_Current :: nat

definition unmet :: "RelDefinition \<Rightarrow> string \<Rightarrow> int option \<Rightarrow> nat \<Rightarrow> Requirement list" where
  "unmet def side minimum current =
     (case minimum of None \<Rightarrow> []
      | Some m \<Rightarrow> if int current < m then [\<lparr>rq_DefinitionID = rd_id def, rq_DefinitionName = rd_displayName def,
            rq_Side = side, rq_Required = m, rq_Current = current\<rparr>] else [])"

definition requirements_of :: "rel_store \<Rightarrow> EntityID \<Rightarrow> RelDefinition \<Rightarrow> Requirement list" where
  "requirements_of s entity def =
     (let (asParent, asChild) = CountLiveLinks s (rd_id def) entity
      in if IsSymmetric def then unmet def ''links'' (rd_minChildren def) (asParent + asChild)
         else unmet def ''children'' (rd_minChildren def) asParent @ unmet def ''parents'' (rd_minParents def) asChild)"

definition RelationshipRequirements :: "(TenantID \<Rightarrow> RelDefinition list result) \<Rightarrow> rel_store \<Rightarrow> TenantID \<Rightarrow> string \<Rightarrow>
    Requirement list result" where
  "RelationshipRequirements listDefs s tenant raw =
     (case ParseEntityID raw of Inl e \<Rightarrow> Inl (NewValidation (err_msg e))
      | Inr entity \<Rightarrow> (case listDefs tenant of Inl e \<Rightarrow> Inl e
          | Inr defs \<Rightarrow> Inr (concat (map (requirements_of s entity) defs))))"

section \<open>Lifecycle contracts\<close>

lemma reldef_snapshot_round: "rd_kind d \<noteq> RelKindUnset \<Longrightarrow> RehydrateDefinition (rd_Snapshot d) = d"
  by (simp add: RehydrateDefinition_def rd_Snapshot_def normalizeKind_def)

lemma rel_snapshot_round: "rel_Rehydrate (rel_Snapshot r) = r" "rel_Snapshot (rel_Rehydrate x) = x"
  by (simp_all add: rel_Rehydrate_def rel_Snapshot_def)

definition rd_core :: "RelDefinition \<Rightarrow> RelDefinition" where
  "rd_core d = d\<lparr>rd_archivedAt := None, rd_updatedAt := 0\<rparr>"

definition rd_fixed :: "RelDefinition \<Rightarrow> RelationshipDefinitionID \<times> TenantID \<times> string \<times> RelKind \<times> TypeDefinitionID \<times>
    TypeDefinitionID \<times> TypeDefinitionID \<times> RelationshipDefinitionID option \<times> int" where
  "rd_fixed d = (rd_id d, rd_tenantID d, rd_internalName d, rd_kind d, rd_parentTypeID d, rd_childTypeID d,
     rd_attributeSetID d, rd_extendsID d, rd_createdAt d)"

interpretation rd_life: restorable rd_IsArchived rd_Archive rd_core rd_Restore
  by unfold_locales (auto simp: rd_Archive_def rd_Restore_def rd_IsArchived_def rd_core_def)

interpretation rd_ver: versioned rd_IsArchived rd_version rd_Update rd_fixed
  by unfold_locales
     (auto simp: rd_Update_def rd_fixed_def rd_IsArchived_def Let_def split: if_splits option.splits)

definition rel_core :: "Relationship \<Rightarrow> Relationship" where
  "rel_core r = r\<lparr>rel_archivedAt := None, rel_updatedAt := 0\<rparr>"

interpretation rel_life: soft_delete rel_IsArchived Unlink rel_core
  by unfold_locales (auto simp: Unlink_def rel_IsArchived_def rel_core_def)

section \<open>The invariant of the stored links\<close>

definition live_under :: "RelationshipDefinitionID \<Rightarrow> RelSnapshot \<Rightarrow> bool" where
  "live_under i x \<longleftrightarrow> rls_DefinitionID x = i \<and> rls_ArchivedAt x = None"

lemma count_live_eq:
  "count_live s i e = (length (filter (\<lambda>x. live_under i x \<and> rls_ParentEntityID x = e) s),
     length (filter (\<lambda>x. live_under i x \<and> rls_ChildEntityID x = e) s))"
  by (induction s) (auto simp: live_under_def Let_def)

abbreviation children_of :: "rel_store \<Rightarrow> RelationshipDefinitionID \<Rightarrow> EntityID \<Rightarrow> nat" where
  "children_of s i e \<equiv> fst (CountLiveLinks s i e)"

abbreviation parents_of :: "rel_store \<Rightarrow> RelationshipDefinitionID \<Rightarrow> EntityID \<Rightarrow> nat" where
  "parents_of s i e \<equiv> snd (CountLiveLinks s i e)"

text \<open>\<open>in_cap limit n\<close>: the count \<open>n\<close> respects a declared maximum.\<close>

definition in_cap :: "int option \<Rightarrow> nat \<Rightarrow> bool" where
  "in_cap limit n \<longleftrightarrow> (\<forall>m. limit = Some m \<longrightarrow> int n \<le> max 0 m)"

definition caps_ok :: "rel_store \<Rightarrow> RelDefinition \<Rightarrow> bool" where
  "caps_ok s d \<longleftrightarrow>
     (if IsSymmetric d
      then rd_parentTypeID d = rd_childTypeID d \<longrightarrow>
        (\<forall>e. in_cap (rd_maxChildren d) (children_of s (rd_id d) e + parents_of s (rd_id d) e))
      else (\<forall>e. in_cap (rd_maxChildren d) (children_of s (rd_id d) e)) \<and>
           (\<forall>e. in_cap (rd_maxParents d) (parents_of s (rd_id d) e)))"

definition pair_unique :: "rel_store \<Rightarrow> bool" where
  "pair_unique s \<longleftrightarrow> (\<forall>x\<in>set s. \<forall>y\<in>set s. rls_ArchivedAt x = None \<longrightarrow> rls_ArchivedAt y = None \<longrightarrow>
     rls_DefinitionID x = rls_DefinitionID y \<longrightarrow> rls_ParentEntityID x = rls_ParentEntityID y \<longrightarrow>
     rls_ChildEntityID x = rls_ChildEntityID y \<longrightarrow> rls_ID x = rls_ID y)"

definition pin_ok :: "VersionPolicy \<Rightarrow> int option \<Rightarrow> bool" where
  "pin_ok policy pin \<longleftrightarrow> (policy = PolicyPinned \<longrightarrow> (\<exists>p\<ge>1. pin = Some p)) \<and> (policy = PolicyLatest \<longrightarrow> pin = None)"

text \<open>What a link obeys under its definition: canonical order of a symmetric pair, no self link
  within one type, and pins that follow the policies.\<close>

definition link_ok :: "RelDefinition \<Rightarrow> RelSnapshot \<Rightarrow> bool" where
  "link_ok d x \<longleftrightarrow>
     rls_ParentEntityID x \<noteq> [] \<and> rls_ChildEntityID x \<noteq> []
     \<and> (IsSymmetric d \<longrightarrow> rls_ParentEntityID x \<le> rls_ChildEntityID x)
     \<and> (rd_parentTypeID d = rd_childTypeID d \<longrightarrow> rls_ParentEntityID x \<noteq> rls_ChildEntityID x)
     \<and> pin_ok (rd_parentVersionPolicy d) (rls_ParentVersion x)
     \<and> pin_ok (rd_childVersionPolicy d) (rls_ChildVersion x)"

definition links_ok :: "reldef_store \<Rightarrow> rel_store \<Rightarrow> bool" where
  "links_ok defs s \<longleftrightarrow> distinct (map rls_ID s) \<and> pair_unique s \<and>
     (\<forall>i d. relDefRepo_Get defs i = Inr d \<longrightarrow> caps_ok s d \<and>
       (\<forall>x\<in>set s. rls_DefinitionID x = i \<longrightarrow> link_ok d x))"

lemma relDefRepo_Get_id: "relDefRepo_Get defs i = Inr d \<Longrightarrow> rd_id d = i"
  by (auto simp: relDefRepo_Get_def find_Some_iff RehydrateDefinition_def split: option.splits)

lemma put_rel_new: "rls_ID x \<notin> rls_ID ` set s \<Longrightarrow> put_rel x s = s @ [x]"
  by (induction s) auto

lemma put_rel_ids: "rls_ID x \<in> rls_ID ` set s \<Longrightarrow> map rls_ID (put_rel x s) = map rls_ID s"
  by (induction s) auto

lemma put_rel_filter_le: "\<not> P x \<Longrightarrow> length (filter P (put_rel x s)) \<le> length (filter P s)"
  by (induction s) auto

lemma put_rel_set: "set (put_rel x s) \<subseteq> insert x (set s)"
  by (induction s) auto

lemma checkPin_None: "policy_valid policy \<Longrightarrow> checkPin side policy pin = None \<longleftrightarrow> pin_ok policy pin"
  by (auto simp: checkPin_def pin_ok_def policy_valid_def split: option.split)

lemma checkPin_pin_ok: "checkPin side policy pin = None \<Longrightarrow> pin_ok policy pin"
  by (auto simp: checkPin_def pin_ok_def split: VersionPolicy.splits option.splits if_splits)

lemma Link_ok:
  assumes "Link i newid now = Inr (r, evts)"
  obtains d where "li_Definition i = Some d" "\<not> rd_IsArchived d" "rel_id r = newid" "rel_definitionID r = rd_id d"
    "rel_tenantID r = rd_tenantID d" "rel_archivedAt r = None" "link_ok d (rel_Snapshot r)"
    "rel_parentEntity r = (if IsSymmetric d \<and> li_ChildEntity i < li_ParentEntity i then li_ChildEntity i else li_ParentEntity i)"
    "rel_childEntity r = (if IsSymmetric d \<and> li_ChildEntity i < li_ParentEntity i then li_ParentEntity i else li_ChildEntity i)"
  using assms
  by (auto simp: Link_def Let_def link_ok_def rel_Snapshot_def not_less less_imp_le dest!: checkPin_pin_ok
      split: option.splits if_splits)

lemma over_limit_in_cap: "\<not> over_limit limit n \<Longrightarrow> in_cap limit (Suc n)"
  by (auto simp: over_limit_def in_cap_def split: option.splits)

lemma in_cap_mono: "in_cap limit n \<Longrightarrow> m \<le> n \<Longrightarrow> in_cap limit m"
  by (force simp: in_cap_def)

lemma CountLiveLinks_snoc:
  "CountLiveLinks (s @ [x]) i e = (children_of s i e + (if live_under i x \<and> rls_ParentEntityID x = e then 1 else 0),
     parents_of s i e + (if live_under i x \<and> rls_ChildEntityID x = e then 1 else 0))"
  by (simp add: CountLiveLinks_def count_live_eq)

lemma pair_unique_snoc:
  assumes "pair_unique s"
    and "\<And>y. y \<in> set s \<Longrightarrow> rls_ArchivedAt y = None \<Longrightarrow> rls_DefinitionID y = rls_DefinitionID x \<Longrightarrow>
      rls_ParentEntityID y = rls_ParentEntityID x \<Longrightarrow> rls_ChildEntityID y = rls_ChildEntityID x \<Longrightarrow> False"
  shows "pair_unique (s @ [x])"
  unfolding pair_unique_def
proof (intro ballI impI)
  fix y z
  assume m: "y \<in> set (s @ [x])" "z \<in> set (s @ [x])" and l: "rls_ArchivedAt y = None" "rls_ArchivedAt z = None"
    and e: "rls_DefinitionID y = rls_DefinitionID z" "rls_ParentEntityID y = rls_ParentEntityID z"
      "rls_ChildEntityID y = rls_ChildEntityID z"
  consider "y = x" "z = x" | "y = x" "z \<in> set s" | "y \<in> set s" "z = x" | "y \<in> set s" "z \<in> set s"
    using m by auto
  then show "rls_ID y = rls_ID z"
  proof cases
    case 2 then show ?thesis using assms(2) [of z] l e by simp
  next
    case 3 then show ?thesis using assms(2) [of y] l e by simp
  next
    case 4 then show ?thesis using assms(1) l e unfolding pair_unique_def by blast
  qed simp
qed

lemma LinkEntities_steps:
  assumes "LinkEntities parseID defs s tenant i newid now = Inr (s', snap, evts)"
  obtains defID def r where "relDefRepo_Get defs defID = Inr def" "rd_tenantID def = tenant"
    "FindLive s defID (rel_parentEntity r) (rel_childEntity r) = None"
    "enforceCardinality s def defID (rel_parentEntity r) (rel_childEntity r) = None"
    "rel_id r = newid" "rel_definitionID r = defID" "rel_archivedAt r = None" "link_ok def (rel_Snapshot r)"
    "relRepo_Save s r = Inr s'" "snap = rel_Snapshot r"
proof -
  from assms obtain defID p0 c0 def where 1: "load_def defs tenant defID = Inr def"
    and 2: "ParseEntityID (la_ParentEntity i) = Inr p0" "ParseEntityID (la_ChildEntity i) = Inr c0"
    and pid: "parseID (la_DefinitionID i) = Inr defID"
    by (auto simp: LinkEntities_def split: sum.splits)
  define swap where "swap = (IsSymmetric def \<and> c0 < p0)"
  define p c where "p = (if swap then c0 else p0)" and "c = (if swap then p0 else c0)"
  from 1 have get: "relDefRepo_Get defs defID = Inr def" "rd_tenantID def = tenant"
    by (auto simp: load_def_def EnsureTenant_def split: sum.splits option.splits if_splits)
  from assms obtain r es where link: "Link \<lparr>li_Definition = Some def, li_ParentEntity = p, li_ChildEntity = c,
        li_ParentVersion = la_ParentVersion i, li_ChildVersion = la_ChildVersion i\<rparr> newid now = Inr (r, es)"
      and rest: "FindLive s defID p c = None" "enforceCardinality s def defID p c = None"
        "relRepo_Save s r = Inr s'" "snap = rel_Snapshot r"
    unfolding LinkEntities_def pid 1 2 sum.case Let_def swap_def [symmetric] p_def [symmetric] c_def [symmetric]
    by (auto split: sum.splits option.splits if_splits)
  have "\<not> (IsSymmetric def \<and> c < p)" by (auto simp: p_def c_def swap_def)
  from link this relDefRepo_Get_id [OF get(1)] have "rel_parentEntity r = p" "rel_childEntity r = c" "rel_id r = newid"
      "rel_definitionID r = defID" "rel_archivedAt r = None" "link_ok def (rel_Snapshot r)"
    by (auto elim!: Link_ok)
  with get rest show thesis by (intro that) auto
qed

lemma rel_Snapshot_simps [simp]:
  "rls_ID (rel_Snapshot r) = rel_id r" "rls_DefinitionID (rel_Snapshot r) = rel_definitionID r"
  "rls_ParentEntityID (rel_Snapshot r) = rel_parentEntity r" "rls_ChildEntityID (rel_Snapshot r) = rel_childEntity r"
  "rls_ArchivedAt (rel_Snapshot r) = rel_archivedAt r" "rls_TenantID (rel_Snapshot r) = rel_tenantID r"
  "rls_ParentVersion (rel_Snapshot r) = rel_parentVersion r" "rls_ChildVersion (rel_Snapshot r) = rel_childVersion r"
  by (simp_all add: rel_Snapshot_def)

lemma FindLive_None:
  "FindLive s i p c = None \<Longrightarrow> y \<in> set s \<Longrightarrow> rls_ArchivedAt y = None \<Longrightarrow> rls_DefinitionID y = i \<Longrightarrow>
     rls_ParentEntityID y = p \<Longrightarrow> rls_ChildEntityID y = c \<Longrightarrow> False"
  by (auto simp: FindLive_def find_None_iff)

lemma caps_other: "caps_ok s d \<Longrightarrow> rls_DefinitionID x \<noteq> rd_id d \<Longrightarrow> caps_ok (s @ [x]) d"
  by (auto simp: caps_ok_def CountLiveLinks_snoc live_under_def)

lemma caps_new:
  assumes caps: "caps_ok s d" and x: "rls_DefinitionID x = rd_id d"
    and card: "enforceCardinality s d (rd_id d) (rls_ParentEntityID x) (rls_ChildEntityID x) = None"
    and ok: "link_ok d x"
  shows "caps_ok (s @ [x]) d"
proof (cases "IsSymmetric d")
  case True
  have free: "\<not> over_limit (rd_maxChildren d) (children_of s (rd_id d) e + parents_of s (rd_id d) e)"
    if "e \<in> {rls_ParentEntityID x, rls_ChildEntityID x}" for e
    using card True that by (auto simp: enforceCardinality_def Let_def split: prod.splits if_splits)
  show ?thesis
    unfolding caps_ok_def
  proof (simp only: True if_True, intro impI allI)
    fix e assume "rd_parentTypeID d = rd_childTypeID d"
    with ok have ne: "rls_ParentEntityID x \<noteq> rls_ChildEntityID x" by (simp add: link_ok_def)
    have old: "in_cap (rd_maxChildren d) (children_of s (rd_id d) e + parents_of s (rd_id d) e)"
      using caps True \<open>rd_parentTypeID d = rd_childTypeID d\<close> by (simp add: caps_ok_def)
    show "in_cap (rd_maxChildren d) (children_of (s @ [x]) (rd_id d) e + parents_of (s @ [x]) (rd_id d) e)"
    proof (cases "e \<in> {rls_ParentEntityID x, rls_ChildEntityID x}")
      case True
      have "children_of (s @ [x]) (rd_id d) e + parents_of (s @ [x]) (rd_id d) e
          \<le> Suc (children_of s (rd_id d) e + parents_of s (rd_id d) e)"
        using ne by (auto simp: CountLiveLinks_snoc)
      with over_limit_in_cap [OF free [OF True]] show ?thesis by (rule in_cap_mono)
    next
      case False
      with old show ?thesis by (auto simp: CountLiveLinks_snoc)
    qed
  qed
next
  case False
  then have free: "\<not> over_limit (rd_maxChildren d) (children_of s (rd_id d) (rls_ParentEntityID x))"
      "\<not> over_limit (rd_maxParents d) (parents_of s (rd_id d) (rls_ChildEntityID x))"
    using card by (auto simp: enforceCardinality_def Let_def split: prod.splits if_splits)
  have old: "in_cap (rd_maxChildren d) (children_of s (rd_id d) e)" "in_cap (rd_maxParents d) (parents_of s (rd_id d) e)" for e
    using caps False by (simp_all add: caps_ok_def)
  have "in_cap (rd_maxChildren d) (children_of (s @ [x]) (rd_id d) e)" for e
    using over_limit_in_cap [OF free(1)] old(1) [of e]
    by (cases "e = rls_ParentEntityID x") (auto simp: CountLiveLinks_snoc elim!: in_cap_mono)
  moreover have "in_cap (rd_maxParents d) (parents_of (s @ [x]) (rd_id d) e)" for e
    using over_limit_in_cap [OF free(2)] old(2) [of e]
    by (cases "e = rls_ChildEntityID x") (auto simp: CountLiveLinks_snoc elim!: in_cap_mono)
  ultimately show ?thesis using False by (simp add: caps_ok_def)
qed

lemma LinkEntities_links_ok [flexi_wf]:
  assumes ok: "links_ok defs s" and fresh: "newid \<notin> rls_ID ` set s"
    and link: "LinkEntities parseID defs s tenant i newid now = Inr (s', snap, evts)"
  shows "links_ok defs s'"
proof -
  from link obtain defID def r where r: "relDefRepo_Get defs defID = Inr def"
      "FindLive s defID (rel_parentEntity r) (rel_childEntity r) = None"
      "enforceCardinality s def defID (rel_parentEntity r) (rel_childEntity r) = None"
      "rel_id r = newid" "rel_definitionID r = defID" "rel_archivedAt r = None" "link_ok def (rel_Snapshot r)"
      "relRepo_Save s r = Inr s'"
    by (elim LinkEntities_steps)
  have defID: "rd_id def = defID" by (rule relDefRepo_Get_id [OF r(1)])
  from r(8) have "s' = put_rel (rel_Snapshot r) s"
    by (auto simp: relRepo_Save_def Let_def split: if_splits)
  then have s': "s' = s @ [rel_Snapshot r]" using put_rel_new [of "rel_Snapshot r" s] fresh r(4) by simp
  have unique: "pair_unique s'"
    unfolding s' using ok FindLive_None [OF r(2)] r(5)
    by (intro pair_unique_snoc) (auto simp: links_ok_def)
  have "caps_ok s' d \<and> (\<forall>x\<in>set s'. rls_DefinitionID x = j \<longrightarrow> link_ok d x)" if g: "relDefRepo_Get defs j = Inr d" for j d
  proof (cases "j = defID")
    case True
    with g r(1) have [simp]: "d = def" by simp
    have "caps_ok s' d"
      unfolding s' by (rule caps_new) (use ok r defID True g in \<open>auto simp: links_ok_def\<close>)
    with ok r True g show ?thesis by (auto simp: links_ok_def s')
  next
    case False
    have "caps_ok s' d"
      unfolding s' by (rule caps_other) (use ok g r(5) False relDefRepo_Get_id [OF g] in \<open>auto simp: links_ok_def\<close>)
    with ok r False g show ?thesis by (auto simp: links_ok_def s')
  qed
  moreover have "distinct (map rls_ID s')" using ok fresh r(4) by (auto simp: links_ok_def s')
  ultimately show ?thesis using unique by (simp add: links_ok_def)
qed

text \<open>Archiving or erasing links keeps the invariant: every count can only fall.\<close>

lemma caps_antimono:
  assumes "caps_ok s d" "\<And>i e. children_of s' i e \<le> children_of s i e" "\<And>i e. parents_of s' i e \<le> parents_of s i e"
  shows "caps_ok s' d"
  using assms(1) in_cap_mono [OF _ assms(2)] in_cap_mono [OF _ assms(3)]
    in_cap_mono [OF _ add_mono [OF assms(2,3)]]
  unfolding caps_ok_def by (simp split: if_splits)

lemma filter_links_ok:
  assumes "links_ok defs s" shows "links_ok defs (filter P s)"
proof -
  have count: "length (filter Q (filter P s)) \<le> length (filter Q s)" for Q
    by (induction s) auto
  have "caps_ok (filter P s) d" if "caps_ok s d" for d
    by (rule caps_antimono [OF that]) (simp_all add: CountLiveLinks_def count_live_eq count [unfolded filter_filter] conj_commute)
  moreover have "distinct (map rls_ID (filter P s))" using assms by (auto simp: links_ok_def distinct_map_filter)
  ultimately show ?thesis using assms by (auto simp: links_ok_def pair_unique_def)
qed

lemma UnlinkEntities_links_ok [flexi_wf]:
  assumes ok: "links_ok defs s" and unlink: "UnlinkEntities parseID s tenant raw now = Inr (s', snap, evts)"
  shows "links_ok defs s'"
proof -
  from unlink obtain i r r' es where r: "relRepo_Get s i = Inr r" "Unlink r now = Inr (r', es)" "relRepo_Save s r' = Inr s'"
    by (auto simp: UnlinkEntities_def split: sum.splits option.splits)
  then obtain x where x: "x \<in> set s" "r = rel_Rehydrate x"
    by (auto simp: relRepo_Get_def find_Some_iff intro: nth_mem split: option.splits)
  have r': "r' = r\<lparr>rel_archivedAt := Some now, rel_updatedAt := now\<rparr>"
    using r(2) by (auto simp: Unlink_def split: if_splits)
  let ?y = "rel_Snapshot r'"
  have y: "rls_ID ?y = rls_ID x" "rls_DefinitionID ?y = rls_DefinitionID x" "\<And>d. link_ok d ?y = link_ok d x"
      "rls_ArchivedAt ?y = Some now"
    by (simp_all add: r' x link_ok_def rel_Rehydrate_def)
  have s': "s' = put_rel ?y s" using r(3) by (auto simp: relRepo_Save_def Let_def split: if_splits)
  have ids: "map rls_ID s' = map rls_ID s" unfolding s' by (rule put_rel_ids) (use x y in auto)
  have sub: "set s' \<subseteq> insert ?y (set s)" unfolding s' by (rule put_rel_set)
  have "caps_ok s' d" if "caps_ok s d" for d
    by (rule caps_antimono [OF that])
       (simp_all only: CountLiveLinks_def count_live_eq s' fst_conv snd_conv,
        (rule put_rel_filter_le, simp only: live_under_def y, simp)+)
  moreover have "pair_unique s'"
    using ok sub y(4) unfolding links_ok_def pair_unique_def by (metis insert_iff option.distinct(1) subsetD)
  moreover have "link_ok d z" if "relDefRepo_Get defs j = Inr d" "z \<in> set s'" "rls_DefinitionID z = j" for d j z
    using that ok sub x y unfolding links_ok_def by (metis insert_iff subsetD)
  ultimately show ?thesis using ok ids by (auto simp: links_ok_def)
qed

text \<open>Every interleaving of link, unlink and erasure calls, while the definitions stay as they are.\<close>

inductive links_reachable :: "(string \<Rightarrow> ulid result) \<Rightarrow> reldef_store \<Rightarrow> rel_store \<Rightarrow> bool" for parseID defs where
  links_empty: "links_reachable parseID defs []"
| links_link: "links_reachable parseID defs s \<Longrightarrow> newid \<notin> rls_ID ` set s \<Longrightarrow>
    LinkEntities parseID defs s tenant i newid now = Inr (s', snap, evts) \<Longrightarrow> links_reachable parseID defs s'"
| links_unlink: "links_reachable parseID defs s \<Longrightarrow>
    UnlinkEntities parseID s tenant raw now = Inr (s', snap, evts) \<Longrightarrow> links_reachable parseID defs s'"
| links_purge: "links_reachable parseID defs s \<Longrightarrow> relRepo_PurgeEntity s tenant e = (s', n) \<Longrightarrow>
    links_reachable parseID defs s'"
| links_purge_tenant: "links_reachable parseID defs s \<Longrightarrow> relRepo_PurgeTenant s tenant = (s', n) \<Longrightarrow>
    links_reachable parseID defs s'"

lemma links_reachable_ok: "links_reachable parseID defs s \<Longrightarrow> links_ok defs s"
proof (induction rule: links_reachable.induct)
  case links_empty
  have "caps_ok [] d" for d by (auto simp: caps_ok_def CountLiveLinks_def in_cap_def)
  then show ?case by (simp add: links_ok_def pair_unique_def)
next
  case (links_purge s tenant e s' n)
  then show ?case by (auto simp: relRepo_PurgeEntity_def Let_def intro: filter_links_ok)
next
  case (links_purge_tenant s tenant s' n)
  then show ?case by (auto simp: relRepo_PurgeTenant_def intro: filter_links_ok)
qed (rule flexi_wf; assumption)+

text \<open>A name that the definition rule accepts is too long for its attribute set beyond 53
  characters: the definition is refused.\<close>

lemma internalNamePattern_length: "internalNamePattern s \<Longrightarrow> length s \<le> 63"
  by (auto simp: internalNamePattern_def split: list.splits)

lemma long_name_refused:
  assumes "53 < length name"
  shows "\<exists>e. NewAttributeSet tenant (attribute_set_name name) dname setid now = Inl (NewValidation e)"
proof -
  have "\<not> internalNamePattern (attribute_set_name name)"
    using internalNamePattern_length [of "attribute_set_name name"] assms
    by (auto simp: attribute_set_name_def)
  then show ?thesis by (simp add: NewAttributeSet_def type_New_def Let_def)
qed

end
