(* ===== verification/Changeset.thy ===== *)
theory Changeset
  imports Field_ACL
begin

text \<open>
  Change-sets: reviewable batches of value mutations (\<^verbatim>\<open>application/changeset/changeset.go\<close>) over
  the compare-and-swap store of \<^verbatim>\<open>infrastructure/memory/changeset_store.go\<close>, with the residual
  eraser of the same file.

  \<^item> A record is \<open>'m ChangeSet\<close>; the store copies records and never looks inside the mutations, so
    its operations are polymorphic in \<open>'m\<close>. With \<open>'m = Mutation list\<close> a read is a copy, as with the
    SQL store, which decodes a row. With \<open>'m = mslice\<close> a read shares the backing array, as the
    in-memory store does; the last section shows what follows from the sharing.
  \<^item> \<^verbatim>\<open>ApplyMutations\<close> is reached through the interface \<^verbatim>\<open>mutationApplier\<close> and is the argument
    \<open>applier\<close>: it gives the new live data, or an error and no change.
  \<^item> A request reads, computes and writes; between its read and its write other requests run. The
    relation \<open>cs_step\<close> has one rule per atomic store operation and keeps the copies that requests
    hold, so its runs are the interleavings of any number of requests, crashes included (a claim that
    is never finished).
\<close>

section \<open>Records\<close>

record Mutation =
  mu_Kind :: string
  mu_AttributeDefinitionID :: string
  mu_EntityID :: string
  mu_TypeDefinitionID :: string
  mu_Locale :: string
  mu_Channel :: string
  mu_Value :: rawmsg
  mu_Redacted :: bool
  mu_Erased :: bool

definition MutationSet :: string where "MutationSet = ''set''"
definition MutationRemove :: string where "MutationRemove = ''remove''"

datatype State = StateDraft | StateInReview | StateApproved | StatePublishing | StatePublished | StateRejected

record 'm ChangeSet =
  cs_ID :: ulid
  cs_TenantID :: TenantID
  cs_Name :: string
  cs_State :: State
  cs_RequireApproval :: bool
  cs_Author :: string
  cs_Approver :: string
  cs_Mutations :: 'm
  cs_PublishAt :: "int option"
  cs_CreatedAt :: int
  cs_UpdatedAt :: int
  cs_PublishedAt :: "int option"
  cs_Version :: int

text \<open>\<^verbatim>\<open>15 * time.Minute\<close> in nanoseconds.\<close>

definition PublishClaimTTL :: int where "PublishClaimTTL = 15 * 60 * 1000000000"

definition ErrStaleVersion :: goerr where
  "ErrStaleVersion = NewConflict ''the change-set was modified by someone else; re-read it and retry''"

section \<open>The store (memory/changeset_store.go)\<close>

type_synonym 'm cs_store = "'m ChangeSet list"

fun cs_put :: "'m ChangeSet \<Rightarrow> 'm cs_store \<Rightarrow> 'm cs_store" where
  "cs_put c [] = [c]"
| "cs_put c (x # xs) = (if cs_ID x = cs_ID c then c # xs else x # cs_put c xs)"

definition cs_find :: "'m cs_store \<Rightarrow> ulid \<Rightarrow> 'm ChangeSet option" where
  "cs_find s i = find (\<lambda>c. cs_ID c = i) s"

definition changesetStore_Create :: "'m cs_store \<Rightarrow> 'm ChangeSet \<Rightarrow> 'm cs_store" where
  "changesetStore_Create s cs = cs_put (if cs_Version cs = 0 then cs\<lparr>cs_Version := 1\<rparr> else cs) s"

definition changesetStore_Update :: "'m cs_store \<Rightarrow> 'm ChangeSet \<Rightarrow> 'm cs_store result" where
  "changesetStore_Update s cs =
     (case cs_find s (cs_ID cs) of None \<Rightarrow> Inl (NewNotFound ''changeset'')
      | Some stored \<Rightarrow>
          if cs_TenantID stored \<noteq> cs_TenantID cs then Inl (NewNotFound ''changeset'')
          else if cs_Version stored \<noteq> cs_Version cs then Inl ErrStaleVersion
          else Inr (cs_put (cs\<lparr>cs_Version := cs_Version stored + 1\<rparr>) s))"

definition changesetStore_Get :: "'m cs_store \<Rightarrow> TenantID \<Rightarrow> ulid \<Rightarrow> 'm ChangeSet result" where
  "changesetStore_Get s tenant i =
     (case cs_find s i of None \<Rightarrow> Inl (NewNotFound ''changeset'')
      | Some cs \<Rightarrow> if cs_TenantID cs \<noteq> tenant then Inl (NewNotFound ''changeset'') else Inr cs)"

text \<open>A Go map has no order; the model iterates in the order of the list. Equal sort keys are
  left in that order.\<close>

definition changesetStore_List :: "'m cs_store \<Rightarrow> TenantID \<Rightarrow> 'm ChangeSet list" where
  "changesetStore_List s tenant = sort_key (\<lambda>c. - cs_CreatedAt c) (filter (\<lambda>c. cs_TenantID c = tenant) s)"

definition DueForPublish :: "'m cs_store \<Rightarrow> int \<Rightarrow> 'm ChangeSet list" where
  "DueForPublish s now =
     filter (\<lambda>c. cs_State c = StateApproved \<and> (case cs_PublishAt c of Some t \<Rightarrow> t \<le> now | None \<Rightarrow> False)) s"

definition StalePublishing :: "'m cs_store \<Rightarrow> int \<Rightarrow> 'm ChangeSet list" where
  "StalePublishing s cutoff =
     sort_key cs_UpdatedAt (filter (\<lambda>c. cs_State c = StatePublishing \<and> cs_UpdatedAt c \<le> cutoff) s)"

section \<open>The residual eraser (memory/changeset_store.go)\<close>

definition erase_mutation :: "(Mutation \<Rightarrow> bool) \<Rightarrow> Mutation \<Rightarrow> Mutation" where
  "erase_mutation match m =
     (if \<not> match m \<or> mu_Value m = RawNil then m else m\<lparr>mu_Value := RawNil, mu_Erased := True\<rparr>)"

definition erase_set :: "TenantID \<Rightarrow> (Mutation \<Rightarrow> bool) \<Rightarrow> Mutation list ChangeSet \<Rightarrow> Mutation list ChangeSet" where
  "erase_set tenant match cs =
     (if cs_TenantID cs \<noteq> tenant then cs
      else cs\<lparr>cs_Mutations := map (erase_mutation match) (cs_Mutations cs)\<rparr>)"

definition touched :: "TenantID \<Rightarrow> (Mutation \<Rightarrow> bool) \<Rightarrow> Mutation list ChangeSet \<Rightarrow> bool" where
  "touched tenant match cs \<longleftrightarrow>
     cs_TenantID cs = tenant \<and> list_ex (\<lambda>m. match m \<and> mu_Value m \<noteq> RawNil) (cs_Mutations cs)"

definition eraser_redact :: "Mutation list cs_store \<Rightarrow> TenantID \<Rightarrow> (Mutation \<Rightarrow> bool) \<Rightarrow>
    Mutation list cs_store \<times> nat" where
  "eraser_redact s tenant match = (map (erase_set tenant match) s, length (filter (touched tenant match) s))"

definition RedactEntity :: "Mutation list cs_store \<Rightarrow> TenantID \<Rightarrow> string \<Rightarrow> Mutation list cs_store \<times> nat" where
  "RedactEntity s tenant entityID = eraser_redact s tenant (\<lambda>m. mu_EntityID m = entityID)"

definition RedactTenant :: "Mutation list cs_store \<Rightarrow> TenantID \<Rightarrow> Mutation list cs_store \<times> nat" where
  "RedactTenant s tenant = eraser_redact s tenant (\<lambda>m. mu_EntityID m \<noteq> [])"

section \<open>Use cases (changeset.go)\<close>

definition cs_Create :: "Mutation list cs_store \<Rightarrow> TenantID \<Rightarrow> string \<Rightarrow> string \<times> bool \<times> int option \<Rightarrow> ulid \<Rightarrow> int \<Rightarrow>
    (Mutation list cs_store \<times> Mutation list ChangeSet) result" where
  "cs_Create s tenant actor i newid now =
     (let (name, requireApproval, publishAt) = i
      in if name = [] then Inl (NewValidation ''change-set name is required'')
         else let cs = \<lparr>cs_ID = newid, cs_TenantID = tenant, cs_Name = name, cs_State = StateDraft,
                 cs_RequireApproval = requireApproval, cs_Author = actor, cs_Approver = [],
                 cs_Mutations = [], cs_PublishAt = publishAt, cs_CreatedAt = now, cs_UpdatedAt = now,
                 cs_PublishedAt = None, cs_Version = 1\<rparr>
              in Inr (changesetStore_Create s cs, cs))"

definition write_edit :: "'m cs_store \<Rightarrow> 'm ChangeSet \<Rightarrow> ('m ChangeSet \<Rightarrow> 'm ChangeSet result) \<Rightarrow> int \<Rightarrow>
    ('m cs_store \<times> 'm ChangeSet) result" where
  "write_edit s cs fn now =
     (case fn cs of Inl e \<Rightarrow> Inl e
      | Inr cs1 \<Rightarrow>
          let cs2 = cs1\<lparr>cs_UpdatedAt := now\<rparr>
          in (case changesetStore_Update s cs2 of Inl e \<Rightarrow> Inl e
              | Inr s' \<Rightarrow> Inr (s', cs2\<lparr>cs_Version := cs_Version cs2 + 1\<rparr>)))"

definition mutate :: "(string \<Rightarrow> ulid result) \<Rightarrow> 'm cs_store \<Rightarrow> TenantID \<Rightarrow> string \<Rightarrow>
    ('m ChangeSet \<Rightarrow> 'm ChangeSet result) \<Rightarrow> int \<Rightarrow> ('m cs_store \<times> 'm ChangeSet) result" where
  "mutate parseID s tenant rawID fn now =
     (case parseID rawID of Inl e \<Rightarrow> Inl (NewValidation (err_msg e))
      | Inr i \<Rightarrow> (case changesetStore_Get s tenant i of Inl e \<Rightarrow> Inl e
          | Inr cs \<Rightarrow> write_edit s cs fn now))"

type_synonym get_many = "AttributeDefinitionID list \<Rightarrow> AttributeDefinition list result"

definition assertWritable :: "(string \<Rightarrow> ulid result) \<Rightarrow> (ulid \<Rightarrow> string) \<Rightarrow> get_many \<Rightarrow> Access \<Rightarrow> Mutation \<Rightarrow>
    goerr option" where
  "assertWritable parseID idString getMany access m =
     (case parseID (mu_AttributeDefinitionID m) of Inl e \<Rightarrow> Some (NewValidation (err_msg e))
      | Inr i \<Rightarrow> (case acl_CanWrite idString getMany access i of Inl e \<Rightarrow> Some e
          | Inr ok \<Rightarrow> if \<not> ok then Some (NewForbidden ''the attribute is not writable'') else None))"

text \<open>The checks of the callback of \<^verbatim>\<open>AddMutation\<close>, before it appends.\<close>

definition stage_err :: "(string \<Rightarrow> ulid result) \<Rightarrow> (ulid \<Rightarrow> string) \<Rightarrow> get_many \<Rightarrow> Access \<Rightarrow> Mutation \<Rightarrow>
    'm ChangeSet \<Rightarrow> goerr option" where
  "stage_err parseID idString getMany access m cs =
     (if cs_State cs \<noteq> StateDraft then Some (NewValidation ''change-set is not a draft'')
      else if mu_Kind m \<noteq> MutationSet \<and> mu_Kind m \<noteq> MutationRemove then Some (NewValidation ''unknown mutation kind'')
      else assertWritable parseID idString getMany access m)"

definition add_fn :: "(string \<Rightarrow> ulid result) \<Rightarrow> (ulid \<Rightarrow> string) \<Rightarrow> get_many \<Rightarrow> Access \<Rightarrow> Mutation \<Rightarrow>
    Mutation list ChangeSet \<Rightarrow> Mutation list ChangeSet result" where
  "add_fn parseID idString getMany access m cs =
     (case stage_err parseID idString getMany access m cs of Some e \<Rightarrow> Inl e
      | None \<Rightarrow> Inr (cs\<lparr>cs_Mutations := cs_Mutations cs @ [m]\<rparr>))"

definition submit_fn :: "Mutation list ChangeSet \<Rightarrow> Mutation list ChangeSet result" where
  "submit_fn cs =
     (if cs_State cs \<noteq> StateDraft then Inl (NewValidation ''only a draft can be submitted'')
      else if cs_Mutations cs = [] then Inl (NewValidation ''change-set has no mutations'')
      else Inr (cs\<lparr>cs_State := StateInReview\<rparr>))"

definition approve_fn :: "string \<Rightarrow> 'm ChangeSet \<Rightarrow> 'm ChangeSet result" where
  "approve_fn actor cs =
     (if cs_State cs \<noteq> StateInReview then Inl (NewValidation ''only an in-review change-set can be approved'')
      else if cs_RequireApproval cs \<and> actor = []
        then Inl (NewForbidden ''approval requires an authenticated account distinct from the author'')
      else if cs_RequireApproval cs \<and> actor = cs_Author cs
        then Inl (NewForbidden ''approval requires a different account than the author'')
      else Inr (cs\<lparr>cs_State := StateApproved, cs_Approver := actor\<rparr>))"

definition reject_fn :: "'m ChangeSet \<Rightarrow> 'm ChangeSet result" where
  "reject_fn cs =
     (if cs_State cs = StatePublished then Inl (NewValidation ''a published change-set cannot be rejected'')
      else if cs_State cs = StatePublishing
        then Inl (NewValidation ''a publishing change-set cannot be rejected; publish it again once the claim goes stale'')
      else Inr (cs\<lparr>cs_State := StateRejected\<rparr>))"

definition AddMutation :: "(string \<Rightarrow> ulid result) \<Rightarrow> (ulid \<Rightarrow> string) \<Rightarrow> get_many \<Rightarrow> Mutation list cs_store \<Rightarrow> TenantID \<Rightarrow>
    Access \<Rightarrow> string \<Rightarrow> Mutation \<Rightarrow> int \<Rightarrow> (Mutation list cs_store \<times> Mutation list ChangeSet) result" where
  "AddMutation parseID idString getMany s tenant access rawID m now =
     mutate parseID s tenant rawID (add_fn parseID idString getMany access m) now"

definition Submit :: "(string \<Rightarrow> ulid result) \<Rightarrow> Mutation list cs_store \<Rightarrow> TenantID \<Rightarrow> string \<Rightarrow> int \<Rightarrow>
    (Mutation list cs_store \<times> Mutation list ChangeSet) result" where
  "Submit parseID s tenant rawID now = mutate parseID s tenant rawID submit_fn now"

definition Approve :: "(string \<Rightarrow> ulid result) \<Rightarrow> Mutation list cs_store \<Rightarrow> TenantID \<Rightarrow> string \<Rightarrow> string \<Rightarrow> int \<Rightarrow>
    (Mutation list cs_store \<times> Mutation list ChangeSet) result" where
  "Approve parseID s tenant actor rawID now = mutate parseID s tenant rawID (approve_fn actor) now"

definition Reject :: "(string \<Rightarrow> ulid result) \<Rightarrow> Mutation list cs_store \<Rightarrow> TenantID \<Rightarrow> string \<Rightarrow> int \<Rightarrow>
    (Mutation list cs_store \<times> Mutation list ChangeSet) result" where
  "Reject parseID s tenant rawID now = mutate parseID s tenant rawID reject_fn now"

subsection \<open>Publishing\<close>

definition publish_gate :: "'m ChangeSet \<Rightarrow> int \<Rightarrow> goerr option" where
  "publish_gate cs now =
     (case cs_State cs of
        StateApproved \<Rightarrow> None
      | StateDraft \<Rightarrow> if cs_RequireApproval cs then Some (NewValidation ''change-set must be approved before publishing'') else None
      | StateInReview \<Rightarrow> if cs_RequireApproval cs then Some (NewValidation ''change-set must be approved before publishing'') else None
      | StatePublishing \<Rightarrow> if now - cs_UpdatedAt cs < PublishClaimTTL
          then Some (NewValidation ''the change-set is publishing; it can be published again once the claim goes stale'') else None
      | _ \<Rightarrow> Some (NewValidation ''change-set cannot be published''))"

definition publish_claim :: "'m cs_store \<Rightarrow> 'm ChangeSet \<Rightarrow> int \<Rightarrow> int \<Rightarrow> ('m cs_store \<times> 'm ChangeSet) result" where
  "publish_claim s cs t0 t1 =
     (case publish_gate cs t0 of Some e \<Rightarrow> Inl e
      | None \<Rightarrow>
          let claimed = cs\<lparr>cs_State := StatePublishing, cs_UpdatedAt := t1\<rparr>
          in (case changesetStore_Update s claimed of Inl e \<Rightarrow> Inl e
              | Inr s' \<Rightarrow> Inr (s', claimed\<lparr>cs_Version := cs_Version claimed + 1\<rparr>)))"

definition release_of :: "'m ChangeSet \<Rightarrow> 'm ChangeSet \<Rightarrow> int \<Rightarrow> 'm ChangeSet" where
  "release_of cs claimed now =
     claimed\<lparr>cs_State := (if cs_State cs = StatePublishing then StateApproved else cs_State cs), cs_UpdatedAt := now\<rparr>"

text \<open>The release ignores a refused write; it gives the store and what \<^verbatim>\<open>*cs\<close> holds afterwards.\<close>

definition publish_release :: "'m cs_store \<Rightarrow> 'm ChangeSet \<Rightarrow> 'm ChangeSet \<Rightarrow> int \<Rightarrow> 'm cs_store \<times> 'm ChangeSet" where
  "publish_release s cs claimed now =
     (let release = release_of cs claimed now
      in case changesetStore_Update s release of
           Inr s' \<Rightarrow> (s', release\<lparr>cs_Version := cs_Version release + 1\<rparr>)
         | Inl _ \<Rightarrow> (s, cs))"

definition publish_finish :: "'m cs_store \<Rightarrow> 'm ChangeSet \<Rightarrow> int \<Rightarrow> ('m cs_store \<times> 'm ChangeSet) result" where
  "publish_finish s claimed now =
     (let claimed = claimed\<lparr>cs_State := StatePublished, cs_PublishedAt := Some now, cs_UpdatedAt := now\<rparr>
      in case changesetStore_Update s claimed of Inl e \<Rightarrow> Inl e
         | Inr s' \<Rightarrow> Inr (s', claimed\<lparr>cs_Version := cs_Version claimed + 1\<rparr>))"

text \<open>\<open>publish\<close> gives the store, the live data, what \<^verbatim>\<open>*cs\<close> holds and the returned error. The clock is read
  before the claim, for the claim, and after the apply.\<close>

type_synonym 'w applier = "TenantID \<Rightarrow> Mutation list \<Rightarrow> 'w \<Rightarrow> 'w result"

definition publish :: "'w applier \<Rightarrow> Mutation list cs_store \<Rightarrow> 'w \<Rightarrow> Mutation list ChangeSet \<Rightarrow> int \<times> int \<times> int \<Rightarrow>
    Mutation list cs_store \<times> 'w \<times> Mutation list ChangeSet \<times> goerr option" where
  "publish applier s w cs clock =
     (let (t0, t1, t2) = clock
      in case publish_claim s cs t0 t1 of Inl e \<Rightarrow> (s, w, cs, Some e)
         | Inr (s1, claimed) \<Rightarrow>
             (case applier (cs_TenantID cs) (cs_Mutations claimed) w of
                Inl e \<Rightarrow> (case publish_release s1 cs claimed t2 of (s2, cs') \<Rightarrow> (s2, w, cs', Some e))
              | Inr w' \<Rightarrow>
                  (case publish_finish s1 claimed t2 of Inl e \<Rightarrow> (s1, w', cs, Some e)
                   | Inr (s2, cs') \<Rightarrow> (s2, w', cs', None))))"

definition Publish :: "(string \<Rightarrow> ulid result) \<Rightarrow> 'w applier \<Rightarrow> Mutation list cs_store \<Rightarrow> 'w \<Rightarrow> TenantID \<Rightarrow> string \<Rightarrow>
    int \<times> int \<times> int \<Rightarrow> Mutation list cs_store \<times> 'w \<times> Mutation list ChangeSet result" where
  "Publish parseID applier s w tenant rawID clock =
     (case parseID rawID of Inl e \<Rightarrow> (s, w, Inl (NewValidation (err_msg e)))
      | Inr i \<Rightarrow> (case changesetStore_Get s tenant i of Inl e \<Rightarrow> (s, w, Inl e)
          | Inr cs \<Rightarrow> (case publish applier s w cs clock of
              (s', w', cs', Some e) \<Rightarrow> (s', w', Inl e)
            | (s', w', cs', None) \<Rightarrow> (s', w', Inr cs'))))"

text \<open>The scheduler's tick. The due sets are loaded once; \<open>clock k\<close> is what the \<open>k\<close>-th publish reads. The
  failures that \<^verbatim>\<open>reportPublishFailure\<close> observes are the last component.\<close>

fun publish_all :: "'w applier \<Rightarrow> (nat \<Rightarrow> int \<times> int \<times> int) \<Rightarrow> nat \<Rightarrow> Mutation list ChangeSet list \<Rightarrow>
    Mutation list cs_store \<Rightarrow> 'w \<Rightarrow> Mutation list cs_store \<times> 'w \<times> nat \<times> (Mutation list ChangeSet \<times> goerr) list" where
  "publish_all applier clock k [] s w = (s, w, 0, [])"
| "publish_all applier clock k (cs # due) s w =
     (case publish applier s w cs (clock k) of
        (s', w', cs', Some e) \<Rightarrow> (case publish_all applier clock (Suc k) due s' w' of
            (s2, w2, n, fails) \<Rightarrow> (s2, w2, n, (cs', e) # fails))
      | (s', w', cs', None) \<Rightarrow> (case publish_all applier clock (Suc k) due s' w' of
            (s2, w2, n, fails) \<Rightarrow> (s2, w2, Suc n, fails)))"

definition PublishDue :: "'w applier \<Rightarrow> (nat \<Rightarrow> int \<times> int \<times> int) \<Rightarrow> Mutation list cs_store \<Rightarrow> 'w \<Rightarrow> int \<Rightarrow>
    Mutation list cs_store \<times> 'w \<times> nat \<times> (Mutation list ChangeSet \<times> goerr) list" where
  "PublishDue applier clock s w now =
     publish_all applier clock 0 (DueForPublish s now @ StalePublishing s (now - PublishClaimTTL)) s w"

subsection \<open>Reading\<close>

definition redact_one :: "(string \<times> bool) list \<Rightarrow> Mutation \<Rightarrow> Mutation" where
  "redact_one readable m =
     (if flag_at readable (mu_AttributeDefinitionID m) then m else m\<lparr>mu_Value := RawNil, mu_Redacted := True\<rparr>)"

definition parsed_ids :: "(string \<Rightarrow> ulid result) \<Rightarrow> Mutation list \<Rightarrow> ulid list" where
  "parsed_ids parseID ms =
     concat (map (\<lambda>m. case parseID (mu_AttributeDefinitionID m) of Inl _ \<Rightarrow> [] | Inr i \<Rightarrow> [i]) ms)"

definition redact :: "(string \<Rightarrow> ulid result) \<Rightarrow> (ulid \<Rightarrow> string) \<Rightarrow> get_many \<Rightarrow> Access \<Rightarrow> Mutation list ChangeSet \<Rightarrow>
    Mutation list ChangeSet result" where
  "redact parseID idString getMany access cs =
     (if cs_Mutations cs = [] then Inr cs
      else (case Readable idString getMany access (parsed_ids parseID (cs_Mutations cs)) of Inl e \<Rightarrow> Inl e
        | Inr readable \<Rightarrow> Inr (cs\<lparr>cs_Mutations := map (redact_one readable) (cs_Mutations cs)\<rparr>)))"

definition cs_Get :: "(string \<Rightarrow> ulid result) \<Rightarrow> (ulid \<Rightarrow> string) \<Rightarrow> get_many \<Rightarrow> Mutation list cs_store \<Rightarrow> TenantID \<Rightarrow>
    Access \<Rightarrow> string \<Rightarrow> Mutation list ChangeSet result" where
  "cs_Get parseID idString getMany s tenant access rawID =
     (case parseID rawID of Inl e \<Rightarrow> Inl (NewValidation (err_msg e))
      | Inr i \<Rightarrow> (case changesetStore_Get s tenant i of Inl e \<Rightarrow> Inl e
          | Inr cs \<Rightarrow> redact parseID idString getMany access cs))"

definition cs_List :: "(string \<Rightarrow> ulid result) \<Rightarrow> (ulid \<Rightarrow> string) \<Rightarrow> get_many \<Rightarrow> Mutation list cs_store \<Rightarrow> TenantID \<Rightarrow>
    Access \<Rightarrow> Mutation list ChangeSet list result" where
  "cs_List parseID idString getMany s tenant access =
     map_result (redact parseID idString getMany access) (changesetStore_List s tenant)"

section \<open>Compare and swap\<close>

text \<open>The contract of a versioned store: a write is accepted exactly when it carries the stored
  version, and an accepted write moves the version of its key by one and touches no other key.\<close>

locale cas_store =
  fixes lookup :: "'s \<Rightarrow> 'k \<Rightarrow> 'c option"
    and update :: "'s \<Rightarrow> 'c \<Rightarrow> 's result"
    and key :: "'c \<Rightarrow> 'k" and version :: "'c \<Rightarrow> int"
  assumes update_matches: "update s c = Inr s' \<Longrightarrow> \<exists>old. lookup s (key c) = Some old \<and> version old = version c"
    and update_bumps: "update s c = Inr s' \<Longrightarrow>
      \<exists>new. lookup s' (key c) = Some new \<and> version new = version c + 1"
    and update_frame: "update s c = Inr s' \<Longrightarrow> k \<noteq> key c \<Longrightarrow> lookup s' k = lookup s k"
begin

inductive writes :: "'s \<Rightarrow> 's \<Rightarrow> bool" where
  writes_done: "writes s s"
| writes_step: "writes s s' \<Longrightarrow> update s' c = Inr s'' \<Longrightarrow> writes s s''"

lemma version_grows:
  "writes s s' \<Longrightarrow> lookup s k = Some c \<Longrightarrow> \<exists>c'. lookup s' k = Some c' \<and> version c \<le> version c'"
proof (induction rule: writes.induct)
  case (writes_step s s' d s'')
  then obtain c' where c': "lookup s' k = Some c'" "version c \<le> version c'" by blast
  show ?case
  proof (cases "k = key d")
    case True
    with update_matches [OF writes_step.hyps(2)] c' have "version c' = version d" by auto
    with True c'(2) update_bumps [OF writes_step.hyps(2)] show ?thesis by auto
  next
    case False
    with update_frame [OF writes_step.hyps(2) False] c' show ?thesis by simp
  qed
qed blast

text \<open>After one write from a version has landed, no write from that version or an older one is
  ever accepted again, whatever happens in between.\<close>

lemma stale_refused:
  assumes "update s c = Inr s1" "writes s1 s2" "key c' = key c" "version c' \<le> version c"
  shows "\<exists>e. update s2 c' = Inl e"
proof (cases "update s2 c'")
  case (Inr s3)
  obtain new where "lookup s1 (key c) = Some new" "version new = version c + 1"
    using update_bumps [OF assms(1)] by blast
  with version_grows [OF assms(2)] obtain c2 where "lookup s2 (key c) = Some c2" "version c + 1 \<le> version c2" by force
  with update_matches [OF Inr] assms(3,4) show ?thesis by auto
qed blast

end

lemma cs_find_put: "cs_find (cs_put c s) k = (if k = cs_ID c then Some c else cs_find s k)"
  by (induction s) (auto simp: cs_find_def)

lemma cs_find_ID: "cs_find s k = Some c \<Longrightarrow> cs_ID c = k"
  by (auto simp: cs_find_def find_Some_iff)

lemma Update_Inr:
  "changesetStore_Update s c = Inr s' \<longleftrightarrow>
     (\<exists>old. cs_find s (cs_ID c) = Some old \<and> cs_TenantID old = cs_TenantID c \<and> cs_Version old = cs_Version c \<and>
       s' = cs_put (c\<lparr>cs_Version := cs_Version c + 1\<rparr>) s)"
  by (auto simp: changesetStore_Update_def split: option.splits if_splits)

interpretation mem_cas: cas_store cs_find changesetStore_Update cs_ID cs_Version
  by unfold_locales (auto simp: Update_Inr cs_find_put)

section \<open>What the checks admit\<close>

text \<open>A record up to the values of its mutations, which the eraser may blank at any time.\<close>

definition mu_skeleton :: "Mutation \<Rightarrow> Mutation" where
  "mu_skeleton m = m\<lparr>mu_Value := RawNil, mu_Erased := False\<rparr>"

definition skel :: "Mutation list ChangeSet \<Rightarrow> Mutation list ChangeSet" where
  "skel cs = cs\<lparr>cs_Mutations := map mu_skeleton (cs_Mutations cs)\<rparr>"

lemma skel_fields [simp]:
  "cs_ID (skel c) = cs_ID c" "cs_TenantID (skel c) = cs_TenantID c" "cs_State (skel c) = cs_State c"
  "cs_RequireApproval (skel c) = cs_RequireApproval c" "cs_Author (skel c) = cs_Author c"
  "cs_Approver (skel c) = cs_Approver c" "cs_Version (skel c) = cs_Version c" "cs_UpdatedAt (skel c) = cs_UpdatedAt c"
  "cs_Mutations (skel c) = map mu_skeleton (cs_Mutations c)"
  by (simp_all add: skel_def)

lemma skel_erase [simp]: "skel (erase_set tenant match c) = skel c"
  by (auto simp: erase_set_def skel_def erase_mutation_def mu_skeleton_def)

lemma skel_eq_fields:
  assumes "skel c = skel d"
  shows "cs_ID c = cs_ID d" "cs_TenantID c = cs_TenantID d" "cs_State c = cs_State d"
    "cs_RequireApproval c = cs_RequireApproval d" "cs_Author c = cs_Author d" "cs_Approver c = cs_Approver d"
    "cs_Version c = cs_Version d" "cs_UpdatedAt c = cs_UpdatedAt d"
    "map mu_skeleton (cs_Mutations c) = map mu_skeleton (cs_Mutations d)"
  using assms by (metis skel_fields)+

text \<open>Separation of duties: where approval is required, nothing beyond review lacks an
  identified approver other than the author.\<close>

definition approved_ok :: "'m ChangeSet \<Rightarrow> bool" where
  "approved_ok c \<longleftrightarrow>
     (cs_RequireApproval c \<and> cs_State c \<in> {StateApproved, StatePublishing, StatePublished} \<longrightarrow>
        cs_Approver c \<noteq> [] \<and> cs_Approver c \<noteq> cs_Author c)"

text \<open>How a stored set may move: its identity is fixed and its version never decreases; a set that
  needs approval never returns to draft and keeps its mutations once it has left it; a published
  set is final; a rejected set stays rejected.\<close>

definition moves_to :: "Mutation list ChangeSet \<Rightarrow> Mutation list ChangeSet \<Rightarrow> bool" where
  "moves_to c d \<longleftrightarrow>
     cs_ID d = cs_ID c \<and> cs_TenantID d = cs_TenantID c \<and> cs_RequireApproval d = cs_RequireApproval c \<and>
     cs_Author d = cs_Author c \<and> cs_Version c \<le> cs_Version d \<and>
     (cs_RequireApproval c \<and> cs_State c \<noteq> StateDraft \<longrightarrow>
        cs_State d \<noteq> StateDraft \<and> map mu_skeleton (cs_Mutations d) = map mu_skeleton (cs_Mutations c)) \<and>
     (cs_State c = StatePublished \<longrightarrow> skel d = skel c) \<and>
     (cs_State c = StateRejected \<longrightarrow>
        cs_State d = StateRejected \<and> map mu_skeleton (cs_Mutations d) = map mu_skeleton (cs_Mutations c))"

lemma moves_to_refl: "moves_to c c"
  by (simp add: moves_to_def)

lemma moves_to_trans: "moves_to c d \<Longrightarrow> moves_to d e \<Longrightarrow> moves_to c e"
  unfolding moves_to_def using skel_eq_fields(3) [of d c] by auto

lemma moves_to_skel: "skel d = skel c \<Longrightarrow> moves_to c d"
  using skel_eq_fields [of d c] by (auto simp: moves_to_def)

lemma moves_to_from_skel: "moves_to c d \<Longrightarrow> skel c' = skel c \<Longrightarrow> moves_to c' d"
  using moves_to_trans [OF moves_to_skel, of c c' d] by simp

datatype edit = EditAdd Access Mutation | EditSubmit | EditApprove string | EditReject

fun edit_fn :: "(string \<Rightarrow> ulid result) \<Rightarrow> (ulid \<Rightarrow> string) \<Rightarrow> get_many \<Rightarrow> edit \<Rightarrow>
    Mutation list ChangeSet \<Rightarrow> Mutation list ChangeSet result" where
  "edit_fn parseID idString getMany (EditAdd access m) = add_fn parseID idString getMany access m"
| "edit_fn parseID idString getMany EditSubmit = submit_fn"
| "edit_fn parseID idString getMany (EditApprove actor) = approve_fn actor"
| "edit_fn parseID idString getMany EditReject = reject_fn"

lemmas edit_defs = add_fn_def submit_fn_def approve_fn_def reject_fn_def stage_err_def

lemma edit_fn_moves:
  assumes "edit_fn parseID idString getMany e c = Inr d"
  shows "moves_to c (d\<lparr>cs_UpdatedAt := now, cs_Version := cs_Version d + 1\<rparr>)" "approved_ok c \<Longrightarrow> approved_ok d"
    "cs_Version d = cs_Version c" "cs_ID d = cs_ID c" "cs_TenantID d = cs_TenantID c"
    "cs_State d \<noteq> StatePublished" "cs_State c \<notin> {StatePublishing, StatePublished}"
  using assms by (cases e; auto simp: edit_defs moves_to_def approved_ok_def split: if_splits option.splits)+

lemma publish_gate_None:
  "publish_gate c t = None \<Longrightarrow> cs_State c \<notin> {StatePublished, StateRejected} \<and>
     (cs_RequireApproval c \<longrightarrow> cs_State c \<in> {StateApproved, StatePublishing}) \<and>
     (cs_State c = StatePublishing \<longrightarrow> PublishClaimTTL \<le> t - cs_UpdatedAt c)"
  by (cases "cs_State c") (auto simp: publish_gate_def split: if_splits)

section \<open>Interleavings\<close>

datatype claim_phase = Claimed | Applied | Failed

text \<open>The store, the copies that requests hold, the publishes under way (the copy that \<^verbatim>\<open>publish\<close>
  was given, the claimed record and how far it got), the live data and the records whose mutations
  have been applied.\<close>

record 'w cs_sys =
  sys_store :: "Mutation list cs_store"
  sys_reads :: "Mutation list ChangeSet set"
  sys_claims :: "(Mutation list ChangeSet \<times> Mutation list ChangeSet \<times> claim_phase) set"
  sys_live :: 'w
  sys_applied :: "Mutation list ChangeSet set"

inductive cs_step :: "(string \<Rightarrow> ulid result) \<Rightarrow> (ulid \<Rightarrow> string) \<Rightarrow> get_many \<Rightarrow> 'w applier \<Rightarrow>
    'w cs_sys \<Rightarrow> 'w cs_sys \<Rightarrow> bool" for parseID idString getMany applier where
  step_create: "cs_find (sys_store x) newid = None \<Longrightarrow>
    cs_Create (sys_store x) tenant actor i newid now = Inr (s', c) \<Longrightarrow>
    cs_step parseID idString getMany applier x (x\<lparr>sys_store := s'\<rparr>)"
| step_read: "changesetStore_Get (sys_store x) tenant k = Inr c \<Longrightarrow>
    cs_step parseID idString getMany applier x (x\<lparr>sys_reads := insert c (sys_reads x)\<rparr>)"
| step_edit: "c \<in> sys_reads x \<Longrightarrow>
    write_edit (sys_store x) c (edit_fn parseID idString getMany e) now = Inr (s', d) \<Longrightarrow>
    cs_step parseID idString getMany applier x (x\<lparr>sys_store := s'\<rparr>)"
| step_claim: "c \<in> sys_reads x \<Longrightarrow> publish_claim (sys_store x) c t0 t1 = Inr (s', d) \<Longrightarrow>
    cs_step parseID idString getMany applier x
      (x\<lparr>sys_store := s', sys_claims := insert (c, d, Claimed) (sys_claims x)\<rparr>)"
| step_apply: "(c, d, Claimed) \<in> sys_claims x \<Longrightarrow>
    applier (cs_TenantID d) (cs_Mutations d) (sys_live x) = Inr w' \<Longrightarrow>
    cs_step parseID idString getMany applier x
      (x\<lparr>sys_live := w', sys_applied := insert d (sys_applied x),
         sys_claims := insert (c, d, Applied) (sys_claims x - {(c, d, Claimed)})\<rparr>)"
| step_fail: "(c, d, Claimed) \<in> sys_claims x \<Longrightarrow>
    applier (cs_TenantID d) (cs_Mutations d) (sys_live x) = Inl e \<Longrightarrow>
    cs_step parseID idString getMany applier x
      (x\<lparr>sys_claims := insert (c, d, Failed) (sys_claims x - {(c, d, Claimed)})\<rparr>)"
| step_finish: "(c, d, Applied) \<in> sys_claims x \<Longrightarrow> publish_finish (sys_store x) d now = Inr (s', d') \<Longrightarrow>
    cs_step parseID idString getMany applier x (x\<lparr>sys_store := s'\<rparr>)"
| step_release: "(c, d, Failed) \<in> sys_claims x \<Longrightarrow> publish_release (sys_store x) c d now = (s', d') \<Longrightarrow>
    cs_step parseID idString getMany applier x (x\<lparr>sys_store := s'\<rparr>)"
| step_erase: "eraser_redact (sys_store x) tenant match = (s', n) \<Longrightarrow>
    cs_step parseID idString getMany applier x (x\<lparr>sys_store := s'\<rparr>)"

definition cs_init :: "'w \<Rightarrow> 'w cs_sys" where
  "cs_init w = \<lparr>sys_store = [], sys_reads = {}, sys_claims = {}, sys_live = w, sys_applied = {}\<rparr>"

text \<open>A copy that a request holds is never ahead of the store, and at the stored version it is
  the stored record, up to erased values.\<close>

definition tracked :: "Mutation list cs_store \<Rightarrow> Mutation list ChangeSet \<Rightarrow> bool" where
  "tracked s c \<longleftrightarrow> (\<exists>st. cs_find s (cs_ID c) = Some st \<and> cs_Version c \<le> cs_Version st \<and>
     (cs_Version c = cs_Version st \<longrightarrow> skel c = skel st))"

definition store_moves :: "Mutation list cs_store \<Rightarrow> Mutation list cs_store \<Rightarrow> bool" where
  "store_moves s s' \<longleftrightarrow> (\<forall>k c. cs_find s k = Some c \<longrightarrow> (\<exists>d. cs_find s' k = Some d \<and> moves_to c d))"

definition claim_ok :: "Mutation list cs_store \<Rightarrow> Mutation list ChangeSet set \<Rightarrow>
    Mutation list ChangeSet \<times> Mutation list ChangeSet \<times> claim_phase \<Rightarrow> bool" where
  "claim_ok s applied p \<longleftrightarrow>
     (case p of (c, d, ph) \<Rightarrow> tracked s d \<and> approved_ok c \<and> publish_gate c (cs_UpdatedAt c + PublishClaimTTL) = None \<and>
        (\<exists>t. d = c\<lparr>cs_State := StatePublishing, cs_UpdatedAt := t, cs_Version := cs_Version c + 1\<rparr>) \<and>
        (ph = Applied \<longrightarrow> d \<in> applied))"

definition applied_before :: "Mutation list ChangeSet set \<Rightarrow> Mutation list ChangeSet \<Rightarrow> bool" where
  "applied_before applied c \<longleftrightarrow> (\<exists>d\<in>applied. cs_ID d = cs_ID c \<and> cs_TenantID d = cs_TenantID c \<and>
     map mu_skeleton (cs_Mutations d) = map mu_skeleton (cs_Mutations c))"

definition stored_ok :: "Mutation list ChangeSet set \<Rightarrow> Mutation list ChangeSet \<Rightarrow> bool" where
  "stored_ok applied c \<longleftrightarrow> approved_ok c \<and> (cs_State c = StatePublished \<longrightarrow> applied_before applied c)"

definition sys_inv :: "'w cs_sys \<Rightarrow> bool" where
  "sys_inv x \<longleftrightarrow>
     (\<forall>k c. cs_find (sys_store x) k = Some c \<longrightarrow> stored_ok (sys_applied x) c) \<and>
     (\<forall>c\<in>sys_reads x. tracked (sys_store x) c \<and> approved_ok c) \<and>
     (\<forall>p\<in>sys_claims x. claim_ok (sys_store x) (sys_applied x) p)"

lemma stored_ok_skel: "skel c = skel d \<Longrightarrow> stored_ok applied c \<Longrightarrow> stored_ok applied d"
  using skel_eq_fields [of c d] by (auto simp: stored_ok_def approved_ok_def applied_before_def)

lemma applied_before_mono: "applied \<subseteq> applied' \<Longrightarrow> applied_before applied c \<Longrightarrow> applied_before applied' c"
  by (auto simp: applied_before_def)

lemma tracked_update: "changesetStore_Update s n = Inr s' \<Longrightarrow> tracked s c \<Longrightarrow> tracked s' c"
  by (auto simp: Update_Inr tracked_def cs_find_put)

lemma tracked_current:
  assumes "changesetStore_Update s n = Inr s'" "cs_ID n = cs_ID c" "cs_Version n = cs_Version c" "tracked s c"
  shows "\<exists>old. cs_find s (cs_ID c) = Some old \<and> skel old = skel c"
  using assms by (auto simp: Update_Inr tracked_def)

lemma tracked_written: "changesetStore_Update s n = Inr s' \<Longrightarrow> tracked s' (n\<lparr>cs_Version := cs_Version n + 1\<rparr>)"
  by (auto simp: Update_Inr tracked_def cs_find_put)

lemma claim_ok_store:
  assumes "claim_ok s applied p" "\<And>c. tracked s c \<Longrightarrow> tracked s' c" "applied \<subseteq> applied'"
  shows "claim_ok s' applied' p"
  using assms by (auto simp: claim_ok_def split: prod.splits)

text \<open>An accepted write of a successor of a held copy.\<close>

lemma write_keeps:
  assumes inv: "sys_inv x" and up: "changesetStore_Update (sys_store x) n = Inr s'"
    and c: "tracked (sys_store x) c" "cs_ID n = cs_ID c" "cs_Version n = cs_Version c"
    and moves: "moves_to c (n\<lparr>cs_Version := cs_Version n + 1\<rparr>)"
    and ok: "stored_ok (sys_applied x) (n\<lparr>cs_Version := cs_Version n + 1\<rparr>)"
  shows "sys_inv (x\<lparr>sys_store := s'\<rparr>)" "store_moves (sys_store x) s'"
proof -
  from tracked_current [OF up c(2,3,1)] obtain old where
    old: "cs_find (sys_store x) (cs_ID c) = Some old" "skel old = skel c" by blast
  from up have s': "s' = cs_put (n\<lparr>cs_Version := cs_Version n + 1\<rparr>) (sys_store x)" by (auto simp: Update_Inr)
  from inv ok show "sys_inv (x\<lparr>sys_store := s'\<rparr>)"
    using tracked_update [OF up] claim_ok_store [of "sys_store x" _ _ s'] unfolding sys_inv_def
    by (auto simp: s' cs_find_put split: if_splits)
  from moves_to_from_skel [OF moves old(2)] old(1) c(2) show "store_moves (sys_store x) s'"
    by (auto simp: store_moves_def s' cs_find_put moves_to_refl)
qed

lemma store_moves_refl: "store_moves s s"
  by (auto simp: store_moves_def moves_to_refl)

lemma store_moves_trans: "store_moves s t \<Longrightarrow> store_moves t u \<Longrightarrow> store_moves s u"
  unfolding store_moves_def using moves_to_trans by blast

lemma cs_find_erase: "cs_find (map (erase_set tenant match) s) k = map_option (erase_set tenant match) (cs_find s k)"
  by (induction s) (auto simp: cs_find_def erase_set_def)

lemma erase_keeps:
  assumes "sys_inv x"
  shows "sys_inv (x\<lparr>sys_store := map (erase_set tenant match) (sys_store x)\<rparr>)"
    and "store_moves (sys_store x) (map (erase_set tenant match) (sys_store x))"
proof -
  let ?s = "map (erase_set tenant match) (sys_store x)"
  have f: "cs_Version (erase_set tenant match c) = cs_Version c" for c by (simp add: erase_set_def)
  have t: "tracked (sys_store x) c \<Longrightarrow> tracked ?s c" for c by (auto simp: tracked_def cs_find_erase f)
  have o: "cs_find (sys_store x) k = Some c \<Longrightarrow> stored_ok (sys_applied x) (erase_set tenant match c)" for k c
    using assms stored_ok_skel [of c "erase_set tenant match c"] by (auto simp: sys_inv_def)
  show "sys_inv (x\<lparr>sys_store := ?s\<rparr>)"
    using assms o t claim_ok_store [of "sys_store x" _ _ ?s] unfolding sys_inv_def
    by (auto simp: cs_find_erase)
  show "store_moves (sys_store x) ?s"
    by (auto simp: store_moves_def cs_find_erase intro: moves_to_skel)
qed

lemma claim_okD:
  assumes "claim_ok s applied (c, d, ph)"
  shows "tracked s d" "approved_ok c" "cs_State c \<notin> {StatePublished, StateRejected}"
    "cs_RequireApproval c \<Longrightarrow> cs_State c \<in> {StateApproved, StatePublishing}"
    "cs_ID d = cs_ID c" "cs_TenantID d = cs_TenantID c" "cs_State d = StatePublishing" "cs_Version d = cs_Version c + 1"
    "cs_RequireApproval d = cs_RequireApproval c" "cs_Author d = cs_Author c" "cs_Approver d = cs_Approver c"
    "cs_Mutations d = cs_Mutations c" "ph = Applied \<Longrightarrow> d \<in> applied"
  using assms publish_gate_None [of c] by (auto simp: claim_ok_def)

lemma claim_keeps:
  assumes inv: "sys_inv x" and c: "c \<in> sys_reads x" and up: "publish_claim (sys_store x) c t0 t1 = Inr (s', d)"
  shows "sys_inv (x\<lparr>sys_store := s', sys_claims := insert (c, d, Claimed) (sys_claims x)\<rparr>)"
    and "store_moves (sys_store x) s'"
proof -
  let ?n = "c\<lparr>cs_State := StatePublishing, cs_UpdatedAt := t1\<rparr>"
  from up have g: "publish_gate c t0 = None" and u: "changesetStore_Update (sys_store x) ?n = Inr s'"
      and d: "d = ?n\<lparr>cs_Version := cs_Version ?n + 1\<rparr>"
    by (auto simp: publish_claim_def Let_def split: option.splits sum.splits)
  from inv c have tc: "tracked (sys_store x) c" and ac: "approved_ok c" by (auto simp: sys_inv_def)
  note gate = publish_gate_None [OF g]
  have "publish_gate c (cs_UpdatedAt c + PublishClaimTTL) = None"
    using g by (auto simp: publish_gate_def split: State.splits if_splits)
  with tracked_written [OF u] d ac have claim: "claim_ok s' (sys_applied x) (c, d, Claimed)"
    by (auto simp: claim_ok_def)
  have m: "moves_to c (?n\<lparr>cs_Version := cs_Version ?n + 1\<rparr>)" using gate by (auto simp: moves_to_def)
  have o: "stored_ok (sys_applied x) (?n\<lparr>cs_Version := cs_Version ?n + 1\<rparr>)"
    using ac gate by (auto simp: stored_ok_def approved_ok_def)
  from write_keeps [OF inv u tc _ _ m o] claim
  show "sys_inv (x\<lparr>sys_store := s', sys_claims := insert (c, d, Claimed) (sys_claims x)\<rparr>)"
      "store_moves (sys_store x) s'"
    by (simp_all add: sys_inv_def)
qed

lemma finish_keeps:
  assumes inv: "sys_inv x" and c: "(c, d, Applied) \<in> sys_claims x" and up: "publish_finish (sys_store x) d now = Inr (s', d')"
  shows "sys_inv (x\<lparr>sys_store := s'\<rparr>)" "store_moves (sys_store x) s'"
proof -
  let ?n = "d\<lparr>cs_State := StatePublished, cs_PublishedAt := Some now, cs_UpdatedAt := now\<rparr>"
  from up have u: "changesetStore_Update (sys_store x) ?n = Inr s'"
    by (auto simp: publish_finish_def Let_def split: sum.splits)
  from inv c have cl: "claim_ok (sys_store x) (sys_applied x) (c, d, Applied)" by (auto simp: sys_inv_def)
  note f = claim_okD [OF cl]
  have m: "moves_to d (?n\<lparr>cs_Version := cs_Version ?n + 1\<rparr>)" using f(7) by (auto simp: moves_to_def)
  have o: "stored_ok (sys_applied x) (?n\<lparr>cs_Version := cs_Version ?n + 1\<rparr>)"
    using f by (auto simp: stored_ok_def approved_ok_def applied_before_def)
  from write_keeps [OF inv u f(1) _ _ m o]
  show "sys_inv (x\<lparr>sys_store := s'\<rparr>)" "store_moves (sys_store x) s'" by simp_all
qed

lemma release_keeps:
  assumes inv: "sys_inv x" and c: "(c, d, Failed) \<in> sys_claims x" and up: "publish_release (sys_store x) c d now = (s', d')"
  shows "sys_inv (x\<lparr>sys_store := s'\<rparr>) \<and> store_moves (sys_store x) s'"
proof (cases "changesetStore_Update (sys_store x) (release_of c d now)")
  case (Inl e)
  with up have "s' = sys_store x" by (simp add: publish_release_def Let_def)
  with inv store_moves_refl show ?thesis by simp
next
  case (Inr s1)
  with up have u: "changesetStore_Update (sys_store x) (release_of c d now) = Inr s'"
    by (simp add: publish_release_def Let_def)
  from inv c have cl: "claim_ok (sys_store x) (sys_applied x) (c, d, Failed)" by (auto simp: sys_inv_def)
  note f = claim_okD [OF cl]
  let ?n = "release_of c d now"
  have m: "moves_to d (?n\<lparr>cs_Version := cs_Version ?n + 1\<rparr>)"
    using f(3,4,7,9) by (auto simp: moves_to_def release_of_def)
  have o: "stored_ok (sys_applied x) (?n\<lparr>cs_Version := cs_Version ?n + 1\<rparr>)"
    using f by (auto simp: stored_ok_def approved_ok_def release_of_def)
  from write_keeps [OF inv u f(1) _ _ m o] show ?thesis by (simp add: release_of_def)
qed

lemma edit_keeps:
  assumes inv: "sys_inv x" and c: "c \<in> sys_reads x"
    and up: "write_edit (sys_store x) c (edit_fn parseID idString getMany e) now = Inr (s', d)"
  shows "sys_inv (x\<lparr>sys_store := s'\<rparr>)" "store_moves (sys_store x) s'"
proof -
  from up obtain n where n: "edit_fn parseID idString getMany e c = Inr n"
      and u: "changesetStore_Update (sys_store x) (n\<lparr>cs_UpdatedAt := now\<rparr>) = Inr s'"
    by (auto simp: write_edit_def Let_def split: sum.splits)
  note f = edit_fn_moves [OF n]
  from inv c have tc: "tracked (sys_store x) c" and ac: "approved_ok c" by (auto simp: sys_inv_def)
  have o: "stored_ok (sys_applied x) (n\<lparr>cs_UpdatedAt := now, cs_Version := cs_Version n + 1\<rparr>)"
    using f(2) [OF ac] f(6) by (auto simp: stored_ok_def approved_ok_def)
  from write_keeps [OF inv u tc] f(1,3,4) o
  show "sys_inv (x\<lparr>sys_store := s'\<rparr>)" "store_moves (sys_store x) s'" by simp_all
qed

lemma create_keeps:
  assumes inv: "sys_inv x" and fresh: "cs_find (sys_store x) newid = None"
    and up: "cs_Create (sys_store x) tenant actor i newid now = Inr (s', c)"
  shows "sys_inv (x\<lparr>sys_store := s'\<rparr>)" "store_moves (sys_store x) s'"
proof -
  from up have s': "s' = cs_put c (sys_store x)" and c: "cs_ID c = newid" "cs_State c = StateDraft"
    by (auto simp: cs_Create_def changesetStore_Create_def Let_def split: prod.splits if_splits)
  have t: "tracked (sys_store x) y \<Longrightarrow> tracked s' y" for y
    using fresh c(1) by (auto simp: tracked_def s' cs_find_put)
  have "stored_ok (sys_applied x) c" using c(2) by (simp add: stored_ok_def approved_ok_def)
  with inv t show "sys_inv (x\<lparr>sys_store := s'\<rparr>)"
    using claim_ok_store [of "sys_store x" _ _ s'] unfolding sys_inv_def
    by (auto simp: s' cs_find_put split: if_splits)
  from fresh c(1) show "store_moves (sys_store x) s'"
    by (auto simp: store_moves_def s' cs_find_put moves_to_refl)
qed

lemma phase_keeps:
  assumes inv: "sys_inv x" and c: "(c, d, Claimed) \<in> sys_claims x" and "sys_applied x \<subseteq> A" "ph = Applied \<Longrightarrow> d \<in> A"
  shows "sys_inv (x\<lparr>sys_live := w, sys_applied := A, sys_claims := insert (c, d, ph) (sys_claims x - {(c, d, Claimed)})\<rparr>)"
proof -
  have "stored_ok (sys_applied x) y \<Longrightarrow> stored_ok A y" for y
    using applied_before_mono [OF assms(3)] by (auto simp: stored_ok_def)
  moreover have "claim_ok (sys_store x) A (c, d, ph)"
    using inv c assms(4) by (auto simp: sys_inv_def claim_ok_def)
  ultimately show ?thesis
    using inv claim_ok_store [of "sys_store x" _ _ "sys_store x" A] assms(3) by (auto simp: sys_inv_def)
qed

lemma step_keeps:
  assumes "cs_step parseID idString getMany applier x y" "sys_inv x"
  shows "sys_inv y \<and> store_moves (sys_store x) (sys_store y)"
  using assms
proof (induction rule: cs_step.induct)
  case (step_read x tenant k c)
  then have "cs_find (sys_store x) k = Some c"
    by (auto simp: changesetStore_Get_def split: option.splits if_splits)
  with cs_find_ID [OF this] step_read.prems show ?case
    by (auto simp: sys_inv_def stored_ok_def tracked_def store_moves_refl)
next
  case (step_apply c d x w')
  then show ?case using phase_keeps [of x c d "insert d (sys_applied x)" Applied] store_moves_refl by auto
next
  case (step_fail c d x e)
  then have "sys_inv (x\<lparr>sys_live := sys_live x, sys_applied := sys_applied x,
      sys_claims := insert (c, d, Failed) (sys_claims x - {(c, d, Claimed)})\<rparr>)"
    by (intro phase_keeps) auto
  then show ?case using store_moves_refl by simp
next
  case (step_erase x tenant match s' n)
  then show ?case using erase_keeps [of x tenant match] by (auto simp: eraser_redact_def)
qed (simp_all add: create_keeps edit_keeps claim_keeps finish_keeps release_keeps)

lemma cs_init_inv: "sys_inv (cs_init w)"
  by (simp add: sys_inv_def cs_init_def cs_find_def)

text \<open>Every state of every interleaving, and how a stored set moves along one.\<close>

abbreviation cs_reaches :: "(string \<Rightarrow> ulid result) \<Rightarrow> (ulid \<Rightarrow> string) \<Rightarrow> get_many \<Rightarrow> 'w applier \<Rightarrow>
    'w cs_sys \<Rightarrow> 'w cs_sys \<Rightarrow> bool" where
  "cs_reaches parseID idString getMany applier \<equiv> (cs_step parseID idString getMany applier)\<^sup>*\<^sup>*"

lemma reaches_keeps:
  assumes "cs_reaches parseID idString getMany applier x y" "sys_inv x"
  shows "sys_inv y \<and> store_moves (sys_store x) (sys_store y)"
  using assms(1)
proof induction
  case base
  then show ?case using assms(2) store_moves_refl by blast
next
  case (step y z)
  then show ?case using step_keeps [OF step.hyps(2)] store_moves_trans by blast
qed

lemma reachable_inv: "cs_reaches parseID idString getMany applier (cs_init w) x \<Longrightarrow> sys_inv x"
  using reaches_keeps [OF _ cs_init_inv] by (rule conjunct1)

lemma reaches_moves:
  assumes "cs_reaches parseID idString getMany applier (cs_init w) x" "cs_reaches parseID idString getMany applier x y"
    and "cs_find (sys_store x) k = Some c"
  shows "\<exists>d. cs_find (sys_store y) k = Some d \<and> moves_to c d"
  using reaches_keeps [OF assms(2) reachable_inv [OF assms(1)]] assms(3) by (auto simp: store_moves_def)

text \<open>While a claim is live, its holder alone can move the set: every write from a copy that some
  request read is refused.\<close>

lemma live_claim_excludes:
  assumes "cs_reaches parseID idString getMany applier (cs_init w) x" "c \<in> sys_reads x"
    and st: "cs_find (sys_store x) (cs_ID c) = Some st" "cs_State st = StatePublishing"
  shows "\<exists>err. write_edit (sys_store x) c (edit_fn parseID idString getMany e) now = Inl err"
    and "t0 - cs_UpdatedAt st < PublishClaimTTL \<Longrightarrow> \<exists>err. publish_claim (sys_store x) c t0 t1 = Inl err"
proof -
  have tc: "tracked (sys_store x) c" using reachable_inv [OF assms(1)] assms(2) by (auto simp: sys_inv_def)
  have same: "cs_State c = StatePublishing \<and> cs_UpdatedAt c = cs_UpdatedAt st"
    if "changesetStore_Update (sys_store x) n = Inr s'" "cs_ID n = cs_ID c" "cs_Version n = cs_Version c" for n s'
    using tracked_current [OF that tc] st skel_eq_fields [of st c] by auto
  show "\<exists>err. write_edit (sys_store x) c (edit_fn parseID idString getMany e) now = Inl err"
  proof (cases "write_edit (sys_store x) c (edit_fn parseID idString getMany e) now")
    case (Inr r)
    then obtain n s' where n: "edit_fn parseID idString getMany e c = Inr n"
        "changesetStore_Update (sys_store x) (n\<lparr>cs_UpdatedAt := now\<rparr>) = Inr s'"
      by (auto simp: write_edit_def Let_def split: sum.splits)
    with same [OF n(2)] edit_fn_moves [OF n(1)] show ?thesis by simp
  qed blast
  show "\<exists>err. publish_claim (sys_store x) c t0 t1 = Inl err" if "t0 - cs_UpdatedAt st < PublishClaimTTL"
  proof (cases "publish_claim (sys_store x) c t0 t1")
    case (Inr r)
    then obtain s' where g: "publish_gate c t0 = None"
        and u: "changesetStore_Update (sys_store x) (c\<lparr>cs_State := StatePublishing, cs_UpdatedAt := t1\<rparr>) = Inr s'"
      by (auto simp: publish_claim_def Let_def split: option.splits sum.splits)
    with same [OF u] publish_gate_None [OF g] that show ?thesis by simp
  qed blast
qed

text \<open>No lost update: an accepted edit was computed from the stored record, up to erased values.\<close>

lemma edit_from_current:
  assumes "cs_reaches parseID idString getMany applier (cs_init w) x" "c \<in> sys_reads x"
    and up: "write_edit (sys_store x) c (edit_fn parseID idString getMany e) now = Inr (s', d)"
  shows "\<exists>st. cs_find (sys_store x) (cs_ID c) = Some st \<and> skel st = skel c"
proof -
  from up obtain n where n: "edit_fn parseID idString getMany e c = Inr n"
      and u: "changesetStore_Update (sys_store x) (n\<lparr>cs_UpdatedAt := now\<rparr>) = Inr s'"
    by (auto simp: write_edit_def Let_def split: sum.splits)
  have "tracked (sys_store x) c" using reachable_inv [OF assms(1)] assms(2) by (auto simp: sys_inv_def)
  with tracked_current [OF u] edit_fn_moves(3,4) [OF n] show ?thesis by simp
qed

section \<open>The use cases are runs of the relation\<close>

text \<open>A use case that runs alone is one of the interleavings, so what holds in every reachable state holds
  after any sequence of calls.\<close>

lemma mutate_runs:
  assumes "mutate parseID (sys_store x) tenant rawID (edit_fn parseID idString getMany e) now = Inr (s', d)"
  shows "\<exists>y. cs_reaches parseID idString getMany applier x y \<and> sys_store y = s' \<and> sys_live y = sys_live x"
proof -
  from assms obtain i c where c: "changesetStore_Get (sys_store x) tenant i = Inr c"
      "write_edit (sys_store x) c (edit_fn parseID idString getMany e) now = Inr (s', d)"
    by (auto simp: mutate_def split: sum.splits)
  let ?y = "x\<lparr>sys_reads := insert c (sys_reads x)\<rparr>"
  have "cs_step parseID idString getMany applier x ?y" by (rule step_read [OF c(1)])
  moreover have "cs_step parseID idString getMany applier ?y (?y\<lparr>sys_store := s'\<rparr>)"
    by (rule step_edit [of c]) (use c(2) in auto)
  ultimately show ?thesis
    by (intro exI [of _ "?y\<lparr>sys_store := s'\<rparr>"]) (auto intro: rtranclp.rtrancl_into_rtrancl)
qed

lemma publish_runs:
  assumes get: "changesetStore_Get (sys_store x) tenant k = Inr c"
    and pub: "publish applier (sys_store x) (sys_live x) c (t0, t1, t2) = (s', w', c', err)"
  shows "\<exists>y. cs_reaches parseID idString getMany applier x y \<and> sys_store y = s' \<and> sys_live y = w'"
proof -
  let ?step = "cs_step parseID idString getMany applier"
  let ?y = "x\<lparr>sys_reads := insert c (sys_reads x)\<rparr>"
  have xy: "?step x ?y" by (rule step_read [OF get])
  show ?thesis
  proof (cases "publish_claim (sys_store x) c t0 t1")
    case (Inl e)
    with pub show ?thesis by (auto simp: publish_def)
  next
    case (Inr r)
    then obtain s1 d where r: "publish_claim (sys_store x) c t0 t1 = Inr (s1, d)" by (cases r) auto
    let ?z = "?y\<lparr>sys_store := s1, sys_claims := insert (c, d, Claimed) (sys_claims x)\<rparr>"
    have yz: "?step ?y ?z" using step_claim [of c ?y t0 t1 s1 d] r by simp
    have t: "cs_TenantID d = cs_TenantID c"
      using r by (auto simp: publish_claim_def Let_def split: option.splits sum.splits)
    show ?thesis
    proof (cases "applier (cs_TenantID c) (cs_Mutations d) (sys_live x)")
      case (Inl e)
      let ?f = "?z\<lparr>sys_claims := insert (c, d, Failed) (sys_claims ?z - {(c, d, Claimed)})\<rparr>"
      have "?step ?z ?f" by (rule step_fail [of c d _ _ e]) (use Inl t in auto)
      moreover obtain s2 c2 where rel: "publish_release s1 c d t2 = (s2, c2)" by fastforce
      moreover have "?step ?f (?f\<lparr>sys_store := s2\<rparr>)" by (rule step_release [of c d _ t2 _ c2]) (use rel in auto)
      moreover have "s' = s2" "w' = sys_live x" using pub r Inl rel by (auto simp: publish_def)
      ultimately show ?thesis using xy yz
        by (intro exI [of _ "?f\<lparr>sys_store := s2\<rparr>"]) (auto intro: rtranclp.rtrancl_into_rtrancl)
    next
      case (Inr w1)
      let ?f = "?z\<lparr>sys_live := w1, sys_applied := insert d (sys_applied ?z),
        sys_claims := insert (c, d, Applied) (sys_claims ?z - {(c, d, Claimed)})\<rparr>"
      have zf: "?step ?z ?f" by (rule step_apply) (use Inr t in auto)
      show ?thesis
      proof (cases "publish_finish s1 d t2")
        case (Inl e)
        with pub r Inr have "s' = s1" "w' = w1" by (auto simp: publish_def)
        then show ?thesis using xy yz zf
          by (intro exI [of _ ?f]) (auto intro: rtranclp.rtrancl_into_rtrancl)
      next
        case (Inr r2)
        then obtain s2 c2 where fin: "publish_finish s1 d t2 = Inr (s2, c2)" by (cases r2) auto
        have "?step ?f (?f\<lparr>sys_store := s2\<rparr>)" by (rule step_finish [of c d _ t2 _ c2]) (use fin in auto)
        moreover have "s' = s2" "w' = w1" using pub r \<open>applier _ _ _ = Inr w1\<close> fin by (auto simp: publish_def)
        ultimately show ?thesis using xy yz zf
          by (intro exI [of _ "?f\<lparr>sys_store := s2\<rparr>"]) (auto intro: rtranclp.rtrancl_into_rtrancl)
      qed
    qed
  qed
qed

lemma read_runs:
  assumes "cs_reaches parseID idString getMany applier x y" "changesetStore_Get (sys_store y) tenant k = Inr c"
  shows "cs_reaches parseID idString getMany applier x (y\<lparr>sys_reads := insert c (sys_reads y)\<rparr>)"
  using assms(1) step_read [OF assms(2)] by (rule rtranclp.rtrancl_into_rtrancl)

lemma create_runs:
  assumes "cs_find (sys_store x) newid = None" "cs_Create (sys_store x) tenant actor i newid now = Inr (s', c)"
  shows "cs_reaches parseID idString getMany applier x (x\<lparr>sys_store := s'\<rparr>)"
  using step_create [OF assms] by blast

section \<open>One publish, start to end\<close>

text \<open>A publish that nothing interrupts: from a current copy past the gate it applies the mutations
  once and ends published, or it changes no live data and hands the set back.\<close>

lemma publish_uninterrupted:
  assumes "cs_find s (cs_ID cs) = Some cs" "publish_gate cs t0 = None"
  shows "publish applier s w cs (t0, t1, t2) =
    (case applier (cs_TenantID cs) (cs_Mutations cs) w of
       Inr w' \<Rightarrow> (let d = cs\<lparr>cs_State := StatePublished, cs_PublishedAt := Some t2, cs_UpdatedAt := t2,
           cs_Version := cs_Version cs + 2\<rparr> in (cs_put d s, w', d, None))
     | Inl e \<Rightarrow> (let d = cs\<lparr>cs_State := (if cs_State cs = StatePublishing then StateApproved else cs_State cs),
           cs_UpdatedAt := t2, cs_Version := cs_Version cs + 2\<rparr> in (cs_put d s, w, d, Some e)))"
proof -
  have put: "cs_put d (cs_put e s) = cs_put d s" if "cs_ID d = cs_ID e" for d e :: "Mutation list ChangeSet" and s
    using that by (induction s) auto
  let ?claimed = "cs\<lparr>cs_State := StatePublishing, cs_UpdatedAt := t1, cs_Version := cs_Version cs + 1\<rparr>"
  have claim: "publish_claim s cs t0 t1 = Inr (cs_put ?claimed s, ?claimed)"
    using assms by (simp add: publish_claim_def changesetStore_Update_def Let_def)
  show ?thesis
    by (cases "applier (cs_TenantID cs) (cs_Mutations cs) w")
       (simp_all add: publish_def claim publish_release_def release_of_def publish_finish_def
          changesetStore_Update_def cs_find_put put Let_def add.commute)
qed

section \<open>Reading under the field policy\<close>

text \<open>What a redacted read still shows: a mutation keeps its value exactly when the policy grants
  its attribute.\<close>

context attr_lookup
begin

lemma redact_exact:
  assumes "inj idString"
  shows "\<exists>d. redact parseID idString getMany access cs = Inr d \<and> skel d\<lparr>cs_Mutations := []\<rparr> = skel cs\<lparr>cs_Mutations := []\<rparr> \<and>
    length (cs_Mutations d) = length (cs_Mutations cs) \<and>
    (\<forall>j < length (cs_Mutations cs). let m = cs_Mutations cs ! j in
       cs_Mutations d ! j =
         (if (\<exists>m'\<in>set (cs_Mutations cs). \<exists>i. parseID (mu_AttributeDefinitionID m') = Inr i \<and>
               idString i = mu_AttributeDefinitionID m \<and> permitted CanRead access i)
          then m else m\<lparr>mu_Value := RawNil, mu_Redacted := True\<rparr>))"
proof (cases "cs_Mutations cs = []")
  case False
  from Readable_exact [OF assms, of access "parsed_ids parseID (cs_Mutations cs)"] obtain m where
    m: "Readable idString getMany access (parsed_ids parseID (cs_Mutations cs)) = Inr m"
      "\<forall>k. flag_at m k \<longleftrightarrow> (\<exists>i\<in>set (parsed_ids parseID (cs_Mutations cs)). idString i = k \<and> permitted CanRead access i)"
    by blast
  have "i \<in> set (parsed_ids parseID ms) \<longleftrightarrow> (\<exists>m'\<in>set ms. parseID (mu_AttributeDefinitionID m') = Inr i)" for i ms
    by (force simp: parsed_ids_def split: sum.splits)
  with False m show ?thesis
    by (auto simp: redact_def skel_def redact_one_def Let_def)
qed (simp add: redact_def)

end

section \<open>An erasure is undone by a write from an older copy\<close>

text \<open>The eraser leaves \<^verbatim>\<open>Version\<close> as it is, so the compare-and-swap of a request that read before the
  erasure still matches, and its copy brings the values back.\<close>

lemma erased_values_return:
  assumes "cs_find s (cs_ID c) = Some c" "cs_State c \<notin> {StatePublished, StatePublishing}"
  shows "\<exists>s2 d. write_edit (fst (RedactEntity s tenant entity)) c reject_fn now = Inr (s2, d) \<and>
    cs_find s2 (cs_ID c) = Some d \<and> cs_Mutations d = cs_Mutations c"
proof -
  have "cs_find (fst (RedactEntity s tenant entity)) (cs_ID c) = Some (erase_set tenant (\<lambda>m. mu_EntityID m = entity) c)"
    by (simp add: RedactEntity_def eraser_redact_def cs_find_erase assms(1))
  with assms(2) show ?thesis
    by (auto simp: write_edit_def reject_fn_def changesetStore_Update_def erase_set_def cs_find_put Let_def)
qed

section \<open>Shared backing arrays of the in-memory store\<close>

text \<open>A slice is an array and a length; the length of the array is the slice's capacity. \<open>grow\<close>
  gives the capacity that the runtime allocates when \<^verbatim>\<open>append\<close> has no room.\<close>

record mslice =
  sl_arr :: nat
  sl_len :: nat

type_synonym mheap = "Mutation list list"

definition zero_mutation :: Mutation where
  "zero_mutation = \<lparr>mu_Kind = [], mu_AttributeDefinitionID = [], mu_EntityID = [], mu_TypeDefinitionID = [],
     mu_Locale = [], mu_Channel = [], mu_Value = RawNil, mu_Redacted = False, mu_Erased = False\<rparr>"

definition elems :: "mheap \<Rightarrow> mslice \<Rightarrow> Mutation list" where
  "elems h sl = take (sl_len sl) (h ! sl_arr sl)"

definition slice_append :: "(nat \<Rightarrow> nat) \<Rightarrow> mheap \<Rightarrow> mslice \<Rightarrow> Mutation \<Rightarrow> mheap \<times> mslice" where
  "slice_append grow h sl m =
     (let a = h ! sl_arr sl; n = sl_len sl
      in if n < length a then (h[sl_arr sl := a[n := m]], sl\<lparr>sl_len := n + 1\<rparr>)
         else (h @ [take n a @ m # replicate (grow n - (n + 1)) zero_mutation],
               \<lparr>sl_arr = length h, sl_len = n + 1\<rparr>))"

text \<open>The callback of \<^verbatim>\<open>AddMutation\<close> and the write of \<^verbatim>\<open>mutate\<close>, on a copy of the record that shares the
  stored array. The append happens before the write, whether or not the write is accepted.\<close>

definition mem_add :: "(string \<Rightarrow> ulid result) \<Rightarrow> (ulid \<Rightarrow> string) \<Rightarrow> get_many \<Rightarrow> (nat \<Rightarrow> nat) \<Rightarrow> mheap \<Rightarrow> mslice cs_store \<Rightarrow>
    Access \<Rightarrow> mslice ChangeSet \<Rightarrow> Mutation \<Rightarrow> int \<Rightarrow> mheap \<times> (mslice cs_store \<times> mslice ChangeSet) result" where
  "mem_add parseID idString getMany grow h s access cs m now =
     (case stage_err parseID idString getMany access m cs of Some e \<Rightarrow> (h, Inl e)
      | None \<Rightarrow> (case slice_append grow h (cs_Mutations cs) m of
          (h', sl) \<Rightarrow> (h', write_edit s cs (\<lambda>c. Inr (c\<lparr>cs_Mutations := sl\<rparr>)) now)))"

definition mem_redact :: "(string \<Rightarrow> ulid result) \<Rightarrow> (ulid \<Rightarrow> string) \<Rightarrow> get_many \<Rightarrow> Access \<Rightarrow> mheap \<Rightarrow> mslice ChangeSet \<Rightarrow>
    mheap result" where
  "mem_redact parseID idString getMany access h cs =
     (let sl = cs_Mutations cs; ms = elems h sl
      in if ms = [] then Inr h
         else (case Readable idString getMany access (parsed_ids parseID ms) of Inl e \<Rightarrow> Inl e
           | Inr readable \<Rightarrow>
               Inr (h[sl_arr sl := map (redact_one readable) ms @ drop (sl_len sl) (h ! sl_arr sl)])))"

lemma stage_err_cong: "cs_State c = cs_State d \<Longrightarrow>
    stage_err parseID idString getMany access m c = stage_err parseID idString getMany access m d"
  by (simp add: stage_err_def)

text \<open>Two requests hold the same copy of a draft whose array has room. The first adds its mutation;
  the second is refused as stale, and yet the stored set now holds the second one's mutation in
  place of the first one's.\<close>

lemma refused_add_overwrites:
  assumes st: "cs_find s (cs_ID c) = Some c" and room: "sl_arr (cs_Mutations c) < length h"
      "sl_len (cs_Mutations c) < length (h ! sl_arr (cs_Mutations c))"
    and ok: "stage_err parseID idString getMany a1 m1 c = None" "stage_err parseID idString getMany a2 m2 c = None"
  shows "\<exists>h1 s1 d. mem_add parseID idString getMany grow h s a1 c m1 t1 = (h1, Inr (s1, d)) \<and>
    cs_find s1 (cs_ID c) = Some d \<and> elems h1 (cs_Mutations d) = elems h (cs_Mutations c) @ [m1] \<and>
    (\<exists>h2. mem_add parseID idString getMany grow h1 s1 a2 c m2 t2 = (h2, Inl ErrStaleVersion) \<and>
      elems h2 (cs_Mutations d) = elems h (cs_Mutations c) @ [m2])"
proof -
  let ?sl = "cs_Mutations c"
  let ?sl' = "?sl\<lparr>sl_len := sl_len ?sl + 1\<rparr>"
  let ?d = "c\<lparr>cs_Mutations := ?sl', cs_UpdatedAt := t1, cs_Version := cs_Version c + 1\<rparr>"
  let ?h = "\<lambda>m. h[sl_arr ?sl := (h ! sl_arr ?sl)[sl_len ?sl := m]]"
  have "slice_append grow h ?sl m1 = (?h m1, ?sl')" "slice_append grow (?h m1) ?sl m2 = (?h m2, ?sl')"
    using room by (auto simp: slice_append_def Let_def)
  moreover have "elems (?h m) ?sl' = elems h ?sl @ [m]" for m
    using room by (simp add: elems_def take_Suc_conv_app_nth)
  ultimately show ?thesis
    using st ok by (auto simp: mem_add_def write_edit_def changesetStore_Update_def cs_find_put Let_def)
qed

text \<open>A read by a principal without permission blanks the stored set: the redaction writes through
  the shared array.\<close>

lemma redacted_read_writes:
  assumes "sl_arr (cs_Mutations c) < length h" "sl_len (cs_Mutations c) \<le> length (h ! sl_arr (cs_Mutations c))"
    and "mem_redact parseID idString getMany access h c = Inr h'" "inj idString"
    and "attr_lookup get getMany" "\<not> Admin access" "m \<in> set (elems h' (cs_Mutations c))"
    and "\<forall>i. idString i = mu_AttributeDefinitionID m \<longrightarrow> (\<forall>d. get i = Inr d \<longrightarrow> \<not> CanRead access (ad_internalName d))"
  shows "mu_Value m = RawNil"
proof (cases "elems h (cs_Mutations c) = []")
  case True
  with assms(3,7) show ?thesis by (simp add: mem_redact_def)
next
  case False
  let ?ms = "elems h (cs_Mutations c)"
  from False assms(3) obtain r where r: "Readable idString getMany access (parsed_ids parseID ?ms) = Inr r"
      and h': "h' = h[sl_arr (cs_Mutations c) := map (redact_one r) ?ms @ drop (sl_len (cs_Mutations c)) (h ! sl_arr (cs_Mutations c))]"
    by (auto simp: mem_redact_def Let_def split: sum.splits)
  have "elems h' (cs_Mutations c) = map (redact_one r) ?ms" using assms(1,2) by (simp add: h' elems_def)
  with assms(7) obtain m0 where m0: "m = redact_one r m0" by auto
  then have "mu_AttributeDefinitionID m0 = mu_AttributeDefinitionID m" by (simp add: redact_one_def)
  moreover have "\<not> flag_at r (mu_AttributeDefinitionID m)"
    using attr_lookup.Readable_exact [OF assms(5,4), of access "parsed_ids parseID ?ms"] r assms(6,8)
      attr_lookup.permitted_def [OF assms(5)] by auto
  ultimately show ?thesis using m0 by (simp add: redact_one_def)
qed

end
