(* ===== verification/Value_Usecases.thy ===== *)
theory Value_Usecases
  imports Value_Repo Relationship Changeset Float_Arith
begin

text \<open>
  The value use cases (\<^verbatim>\<open>application/value/interactor.go\<close>, \<^verbatim>\<open>requiredgate.go\<close>, \<^verbatim>\<open>mutation.go\<close>, \<^verbatim>\<open>lockorder.go\<close>,
  \<^verbatim>\<open>quantity.go\<close>) over the in-memory repositories: writing a value with the entity's anchor, the
  inherited schema, the archive guard, the field policy, dependencies, uniqueness and the upsert; batches
  and change-set mutations in canonical order; removal; the end-of-transaction gate for demanded values.

  A use case runs in one unit of work: an error leaves the repositories as they were
  (\<open>Mem_Store\<close>), so only a successful call returns a new one. The state of the unit of work is
  \<open>vtx\<close>; \<open>vt_tick\<close> numbers its readings of the clock and of the identifier source. The import cache is nil outside
  an import. Code outside the repository and the object store are arguments in the context.
\<close>

section \<open>Unit families (unit.go)\<close>

record Family =
  fam_ID :: ulid
  fam_TenantID :: TenantID
  fam_Name :: string
  fam_BaseUnit :: string
  fam_Units :: "(string \<times> float64) list"

definition Factor :: "Family \<Rightarrow> string \<Rightarrow> float64 option" where
  "Factor f unit = map_of (fam_Units f) unit"

text \<open>\<open>formatF\<close> is \<^verbatim>\<open>strconv.FormatFloat(x, 'f', -1, 64)\<close>. It writes a finite number as a decimal, so the second
  \<^verbatim>\<open>SetString\<close> succeeds on the factors a family may have.\<close>

definition ToBase :: "golib \<Rightarrow> (float64 \<Rightarrow> string) \<Rightarrow> Family \<Rightarrow> string \<Rightarrow> string \<Rightarrow> float64 result" where
  "ToBase lib formatF f magnitude unit =
     (case rat_set_string lib magnitude of
        None \<Rightarrow> Inl (NewValidation ''quantity magnitude must be numeric'')
      | Some m \<Rightarrow> (case Factor f unit of
          None \<Rightarrow> Inl (NewValidation ''unit is not part of the attribute's unit family'')
        | Some factor \<Rightarrow> (case rat_set_string lib (formatF factor) of
            None \<Rightarrow> Inl (PlainErr ''nil pointer dereference'')
          | Some fr \<Rightarrow> Inr (f_round False (m * fr)))))"

section \<open>Context and state\<close>

record vctx =
  cx_lib :: golib
  cx_klib :: keyset_lib
  cx_parseID :: "string \<Rightarrow> ulid result"
  cx_idString :: "ulid \<Rightarrow> string"
  cx_tenant :: TenantID
  cx_access :: Access
  cx_facts :: facts
  cx_localNow :: gotime
  cx_clock :: "nat \<Rightarrow> int"
  cx_newID :: "nat \<Rightarrow> ulid"
  cx_units :: "(TenantID \<Rightarrow> ulid \<Rightarrow> Family result) option"
  cx_formatF :: "float64 \<Rightarrow> string"
  cx_blobOpen :: "(string \<Rightarrow> bool) option"

text \<open>The repositories a value write reads but does not change.\<close>

record vrepos =
  rp_types :: type_store
  rp_attrs :: attr_store
  rp_deps :: dep_store

record entityRef =
  er_tenant :: TenantID
  er_typeID :: TypeDefinitionID
  er_entity :: EntityID
  er_fullView :: bool

record requiredGate =
  rg_order :: "entityRef list"
  rg_removed :: "(EntityID \<times> AttributeValue) list"

datatype change_action = ActionCreated | ActionUpdated | ActionRemoved

record value_change =
  vc_EntityID :: AttributeValueID
  vc_Action :: change_action
  vc_Before :: "ValueSnapshot option"
  vc_After :: "ValueSnapshot option"

record vtx =
  vt_values :: value_store
  vt_tick :: nat
  vt_events :: "value_event list"
  vt_changes :: "value_change list"
  vt_gate :: requiredGate
  vt_gc :: "(string \<times> AttributeValueID) list"

definition begin_vtx :: "value_store \<Rightarrow> vtx" where
  "begin_vtx s = \<lparr>vt_values = s, vt_tick = 0, vt_events = [], vt_changes = [],
     vt_gate = \<lparr>rg_order = [], rg_removed = []\<rparr>, vt_gc = []\<rparr>"

definition cx_now :: "vctx \<Rightarrow> vtx \<Rightarrow> int" where
  "cx_now cx t = cx_clock cx (vt_tick t)"

definition tick :: "vtx \<Rightarrow> vtx" where
  "tick t = t\<lparr>vt_tick := vt_tick t + 1\<rparr>"

abbreviation types_get :: "vrepos \<Rightarrow> TypeDefinitionID \<Rightarrow> TypeDefinition result" where
  "types_get rp \<equiv> typeDefRepo_Get (rp_types rp)"

definition gcMediaAfterCommit :: "vctx \<Rightarrow> AttributeValueID \<Rightarrow> gvalue \<Rightarrow> vtx \<Rightarrow> vtx" where
  "gcMediaAfterCommit cx valueID v t =
     (if cx_blobOpen cx = None \<or> dataType v \<noteq> DataTypeMedia then t
      else let key = ObjectKey (Media v)
           in if key = [] then t else t\<lparr>vt_gc := vt_gc t @ [(key, valueID)]\<rparr>)"

section \<open>The gate for demanded values (requiredgate.go)\<close>

definition gate_add :: "entityRef \<Rightarrow> requiredGate \<Rightarrow> requiredGate" where
  "gate_add ref g = (if ref \<in> set (rg_order g) then g else g\<lparr>rg_order := rg_order g @ [ref]\<rparr>)"

definition noteWrite :: "entityRef \<Rightarrow> bool \<Rightarrow> vtx \<Rightarrow> vtx" where
  "noteWrite ref internal t = (if internal then t else t\<lparr>vt_gate := gate_add ref (vt_gate t)\<rparr>)"

definition noteRemoval :: "entityRef \<Rightarrow> AttributeValue \<Rightarrow> bool \<Rightarrow> vtx \<Rightarrow> vtx" where
  "noteRemoval ref removed internal t =
     (if internal then t
      else let g = gate_add (ref\<lparr>er_fullView := True\<rparr>) (vt_gate t)
           in t\<lparr>vt_gate := g\<lparr>rg_removed := rg_removed g @ [(er_entity ref, removed)]\<rparr>\<rparr>)"

definition attrRepo_ListByTypeDefinition :: "vctx \<Rightarrow> attr_store \<Rightarrow> TypeDefinitionID \<Rightarrow> nat \<Rightarrow>
    (AttributeDefinition list \<times> nat) result" where
  "attrRepo_ListByTypeDefinition cx s typeDefID limit =
     map_sum id (map_prod (map attr_Rehydrate) nat)
       (paginate (cx_klib cx) (sortByID (\<lambda>a. cx_idString cx (as_ID a))
            (filter (\<lambda>snap. as_TypeDefinitionID snap = typeDefID \<and> as_ArchivedAt snap = None) s))
          \<lparr>pg_Limit = int limit, pg_Cursor = [], pg_WantTotal = True, pg_Stable = False\<rparr> idKeyset
          (\<lambda>a. idKey (cx_idString cx (as_ID a))))"

text \<open>The attributes of the chain, each once.\<close>

fun gate_new :: "AttributeDefinitionID set \<Rightarrow> AttributeDefinition list \<Rightarrow> AttributeDefinition list" where
  "gate_new seen [] = []"
| "gate_new seen (a # list) = (if ad_id a \<in> seen then gate_new seen list else a # gate_new (insert (ad_id a) seen) list)"

fun gate_chain :: "(TypeDefinitionID \<Rightarrow> AttributeDefinition list result) \<Rightarrow> AttributeDefinitionID set \<Rightarrow> TypeDefinition list \<Rightarrow>
    AttributeDefinition list result" where
  "gate_chain attrs seen [] = Inr []"
| "gate_chain attrs seen (link # chain) =
     rbind (attrs (td_id link)) (\<lambda>list.
       map_sum id (\<lambda>out. gate_new seen list @ out) (gate_chain attrs (seen \<union> ad_id ` set list) chain))"

definition gateSchema :: "vctx \<Rightarrow> vrepos \<Rightarrow> TypeDefinitionID \<Rightarrow> AttributeDefinition list result" where
  "gateSchema cx rp typeID =
     rbind (types_get rp typeID) (\<lambda>t. rbind (Chain (types_get rp) t) (\<lambda>chain.
       gate_chain (ListAllForType (attrRepo_ListByTypeDefinition cx (rp_attrs rp))) {} chain))"

definition filled_by :: "AttributeValue list \<Rightarrow> AttributeDefinitionID \<Rightarrow> gvalue list" where
  "filled_by vals i = map av_value (filter (\<lambda>av. av_attributeDefID av = i) vals)"

definition demands_on_write :: "EffectiveSchema \<Rightarrow> bool" where
  "demands_on_write eff \<longleftrightarrow>
     es_Required eff \<and> enforce_Or (es_RequiredEnforcement eff) DefaultEnforcement = EnforceOnWrite"

definition violatedBefore :: "vctx \<Rightarrow> AttributeDefinition \<Rightarrow> Dependency list \<Rightarrow> (AttributeDefinitionID \<Rightarrow> gvalue list) \<Rightarrow>
    AttributeValue list \<Rightarrow> bool result" where
  "violatedBefore cx a targets filled removed =
     (if removed = [] then Inr False
      else let before = (\<lambda>i. filled i @ filled_by removed i)
           in map_sum id (\<lambda>eff. demands_on_write eff \<and> before (ad_id a) = [])
                (ResolveEffectiveWithContext (cx_lib cx) a targets before (cx_facts cx) (cx_localNow cx)))"

definition readableOnly :: "vctx \<Rightarrow> vrepos \<Rightarrow> AttributeValue list \<Rightarrow> AttributeValue list result" where
  "readableOnly cx rp vals =
     (if vals = [] \<or> Admin (cx_access cx) then Inr vals
      else map_sum id (\<lambda>readable. filter (\<lambda>av. flag_at readable (cx_idString cx (av_attributeDefID av))) vals)
        (Readable (cx_idString cx) (attrRepo_GetMany (rp_attrs rp)) (cx_access cx) (map av_attributeDefID vals)))"

text \<open>One attribute of one entity: \<open>Some e\<close> refuses the transaction.\<close>

definition gate_attribute :: "vctx \<Rightarrow> vrepos \<Rightarrow> AttributeDefinitionID set \<Rightarrow> requiredGate \<Rightarrow> entityRef \<Rightarrow>
    (AttributeDefinitionID \<Rightarrow> gvalue list) \<Rightarrow> AttributeDefinition \<Rightarrow> goerr option" where
  "gate_attribute cx rp candidates gate ref filled a =
     (if ad_id a \<notin> candidates then None
      else if \<not> er_fullView ref \<and> \<not> CanRead (cx_access cx) (ad_internalName a) then None
      else let targets = depRepo_ListByTarget (cx_idString cx) (rp_deps rp) (ad_id a)
           in if targets = [] then None
              else (case ResolveEffectiveWithContext (cx_lib cx) a targets filled (cx_facts cx) (cx_localNow cx) of
                  Inl e \<Rightarrow> Some e
                | Inr eff \<Rightarrow>
                    if \<not> demands_on_write eff then None
                    else if filled (ad_id a) \<noteq> [] then None
                    else (case (if er_fullView ref
                                then violatedBefore cx a targets filled
                                       (map snd (filter (\<lambda>(e, _). e = er_entity ref) (rg_removed gate)))
                                else Inr False) of
                        Inl e \<Rightarrow> Some e
                      | Inr True \<Rightarrow> None
                      | Inr False \<Rightarrow>
                          if \<not> CanRead (cx_access cx) (ad_internalName a)
                          then Some (NewDependencyViolation ''an attribute dependency requires a value this entity does not have'')
                          else Some (NewDependencyViolation ''an attribute dependency requires a value for %q''))))"

definition gate_entity :: "vctx \<Rightarrow> vrepos \<Rightarrow> value_store \<Rightarrow> AttributeDefinitionID set \<Rightarrow> requiredGate \<Rightarrow> entityRef \<Rightarrow> goerr option" where
  "gate_entity cx rp s candidates gate ref =
     (let vals = ListByEntity (cx_idString cx) s \<lparr>ek_TenantID = er_tenant ref, ek_TypeDefinitionID = er_typeID ref,
            ek_EntityID = er_entity ref\<rparr>
      in if vals = [] then None
         else (case (if er_fullView ref then Inr vals else readableOnly cx rp vals) of Inl e \<Rightarrow> Some e
           | Inr vals \<Rightarrow> (case gateSchema cx rp (er_typeID ref) of Inl e \<Rightarrow> Some e
               | Inr schema \<Rightarrow> first_err (gate_attribute cx rp candidates gate ref (filled_by vals)) schema)))"

definition enforceRequiredOnWrite :: "vctx \<Rightarrow> vrepos \<Rightarrow> value_store \<Rightarrow> requiredGate \<Rightarrow> goerr option" where
  "enforceRequiredOnWrite cx rp s gate =
     (case rg_order gate of [] \<Rightarrow> None
      | ref # _ \<Rightarrow>
          let blocking = depRepo_ListEnforcedOnWrite (cx_idString cx) (rp_deps rp) (er_tenant ref)
          in if blocking = [] then None
             else first_err (gate_entity cx rp s (dep_targetID ` set blocking) gate) (rg_order gate))"

section \<open>One value write (interactor.go)\<close>

record SetInput =
  si_AttributeDefinitionID :: string
  si_EntityID :: string
  si_TypeDefinitionID :: string
  si_Locale :: string
  si_Channel :: string
  si_Value :: rawmsg
  si_Internal :: bool
  si_fromUpload :: bool

text \<open>The entity's type: the anchor it has, the type the caller names, or the declaring type. Naming a
  subtype of the anchor narrows the entity and moves its rows.\<close>

definition resolveEntityType :: "vctx \<Rightarrow> vrepos \<Rightarrow> value_store \<Rightarrow> AttributeDefinition \<Rightarrow> EntityID \<Rightarrow> string \<Rightarrow>
    (value_store \<times> TypeDefinitionID) result" where
  "resolveEntityType cx rp s def entityID rawType =
     (let anchor = EntityAnchor (cx_idString cx) s (cx_tenant cx) entityID
      in if rawType = [] then Inr (s, case anchor of Some a \<Rightarrow> a | None \<Rightarrow> ad_typeDefinitionID def)
         else rbind (as_validation (cx_parseID cx rawType)) (\<lambda>supplied.
           (case anchor of None \<Rightarrow> Inr (s, supplied)
            | Some a \<Rightarrow>
                if supplied = a then Inr (s, supplied)
                else rbind (types_get rp supplied) (\<lambda>suppliedType.
                     rbind (IsAncestorOrSelf (types_get rp) suppliedType a) (\<lambda>narrowing.
                       if narrowing then Inr (fst (ReanchorEntity s (cx_tenant cx) entityID supplied), supplied)
                       else rbind (types_get rp a) (\<lambda>anchorType.
                            rbind (IsAncestorOrSelf (types_get rp) anchorType supplied) (\<lambda>widening.
                              if \<not> widening then Inl (NewValidation ''the entity is already anchored to an unrelated type'')
                              else Inr (s, a))))))))"

definition checkInherited :: "vrepos \<Rightarrow> AttributeDefinition \<Rightarrow> TypeDefinitionID \<Rightarrow> unit result" where
  "checkInherited rp def entityType =
     (if entityType = ad_typeDefinitionID def then Inr ()
      else rbind (types_get rp entityType) (\<lambda>declared.
           rbind (IsAncestorOrSelf (types_get rp) declared (ad_typeDefinitionID def)) (\<lambda>ok.
             if \<not> ok then Inl (NewValidation ''the attribute is not part of the entity type's inherited schema'') else Inr ())))"

definition checkTypeLive :: "vrepos \<Rightarrow> TypeDefinitionID \<Rightarrow> unit result" where
  "checkTypeLive rp entityType =
     rbind (types_get rp entityType) (\<lambda>t. rbind (Chain (types_get rp) t) (\<lambda>chain.
       if list_ex type_IsArchived chain then Inl (NewArchived type_AggregateType) else Inr ()))"

definition adoptMediaValue :: "vctx \<Rightarrow> vrepos \<Rightarrow> value_store \<Rightarrow> rawmsg \<Rightarrow> gvalue result" where
  "adoptMediaValue cx rp s raw =
     rbind (as_validation (ParseValue (cx_lib cx) DataTypeMedia raw)) (\<lambda>declared.
       let key = ObjectKey (Media declared);
           unknownKey = Inl (NewValidation ''unknown media object key; upload the file through the media endpoint'')
       in if key = [] then Inl (NewValidation ''media value requires an object key'')
          else (case MediaValueForKey (cx_idString cx) s (cx_tenant cx) key of None \<Rightarrow> unknownKey
            | Some stored \<Rightarrow>
                rbind (acl_CanRead (cx_idString cx) (attrRepo_GetMany (rp_attrs rp)) (cx_access cx) (vs_AttributeDefinitionID stored))
                  (\<lambda>readable. if \<not> readable then unknownKey
                     else (case cx_blobOpen cx of None \<Rightarrow> Inr (vs_Value stored)
                       | Some stored_bytes \<Rightarrow>
                           if MediaKeyRefCount s key 0 = 0 \<and> \<not> stored_bytes key
                           then Inl (NewValidation ''media object key has no stored bytes; upload the file again'')
                           else Inr (vs_Value stored)))))"

record quantity_in =
  qi_Magnitude :: string
  qi_Unit :: string

definition quantity_in_member :: "string \<Rightarrow> json \<Rightarrow> quantity_in \<Rightarrow> quantity_in \<times> bool" where
  "quantity_in_member k j q =
     (if key_is ''magnitude'' k then into_string (\<lambda>s. q\<lparr>qi_Magnitude := s\<rparr>) q j
      else if key_is ''unit'' k then into_string (\<lambda>s. q\<lparr>qi_Unit := s\<rparr>) q j
      else (q, True))"

definition quantityValue :: "vctx \<Rightarrow> AttributeDefinition \<Rightarrow> rawmsg \<Rightarrow> gvalue result" where
  "quantityValue cx def raw =
     (case cx_units cx of None \<Rightarrow> Inl (NewValidation ''unit families are not configured in this deployment'')
      | Some units \<Rightarrow>
          if ad_unitFamilyID def = [] then Inl (NewValidation ''quantity attribute has no unit family'')
          else let (q, ok) = decode_struct quantity_in_member raw \<lparr>qi_Magnitude = [], qi_Unit = []\<rparr>
               in if \<not> ok then Inl (NewValidation ''expected a quantity {magnitude, unit}: '')
                  else rbind (as_validation (cx_parseID cx (ad_unitFamilyID def))) (\<lambda>famID.
                       rbind (units (cx_tenant cx) famID) (\<lambda>family.
                       rbind (ToBase (cx_lib cx) (cx_formatF cx) family (qi_Magnitude q) (qi_Unit q)) (\<lambda>base.
                         NewQuantityValue (qi_Magnitude q) (qi_Unit q) base))))"

definition decodeValue :: "vctx \<Rightarrow> vrepos \<Rightarrow> value_store \<Rightarrow> AttributeDefinition \<Rightarrow> SetInput \<Rightarrow> gvalue result" where
  "decodeValue cx rp s def inp =
     (if ad_dataType def = DataTypeMedia \<and> \<not> si_fromUpload inp then adoptMediaValue cx rp s (si_Value inp)
      else if ad_dataType def = DataTypeQuantity then quantityValue cx def (si_Value inp)
      else as_validation (ParseValue (cx_lib cx) (ad_dataType def) (si_Value inp)))"

definition checkDependencies :: "vctx \<Rightarrow> vrepos \<Rightarrow> value_store \<Rightarrow> AttributeDefinition \<Rightarrow> TypeDefinitionID \<Rightarrow> EntityID \<Rightarrow> gvalue \<Rightarrow>
    goerr option" where
  "checkDependencies cx rp s def entityType entityID v =
     (let targeting = depRepo_ListByTarget (cx_idString cx) (rp_deps rp) (ad_id def)
      in if targeting = [] then None
         else (case ResolveEffectiveWithContext (cx_lib cx) def targeting
                  (filled_by (ListByEntity (cx_idString cx) s \<lparr>ek_TenantID = ad_tenantID def,
                     ek_TypeDefinitionID = entityType, ek_EntityID = entityID\<rparr>)) (cx_facts cx) (cx_localNow cx) of
             Inl e \<Rightarrow> Some e
           | Inr schema \<Rightarrow> effective_Check (cx_lib cx) schema v))"

text \<open>The guards between the anchor and the write: the computed flag, the field policy and the scope.
  \<open>internal\<close> is the caller's flag, honoured on a computed attribute only.\<close>

definition writeGuard :: "vctx \<Rightarrow> AttributeDefinition \<Rightarrow> bool \<Rightarrow> goerr option" where
  "writeGuard cx def internal =
     (if IsComputed def \<and> \<not> internal then Some (NewValidation ''attribute is computed (read-only)'')
      else if \<not> internal \<and> \<not> CanWrite (cx_access cx) (ad_internalName def)
        then Some (NewForbidden ''not permitted to write this attribute'')
      else None)"

definition scopeGuard :: "AttributeDefinition \<Rightarrow> scope \<Rightarrow> goerr option" where
  "scopeGuard def scope =
     (if Locale scope \<noteq> [] \<and> \<not> ad_localizable def then Some (NewValidation ''attribute is not localizable'')
      else if Channel scope \<noteq> [] \<and> \<not> ad_scopable def then Some (NewValidation ''attribute is not scopable'')
      else None)"

definition uniqueGuard :: "golib \<Rightarrow> value_store \<Rightarrow> AttributeDefinition \<Rightarrow> scope \<Rightarrow> gvalue \<Rightarrow> EntityID \<Rightarrow> goerr option" where
  "uniqueGuard lib s def scope v entityID =
     (if ad_unique def \<and> CountByDefinitionAndValue lib s (ad_id def) scope v entityID > 0
      then Some (NewConflict ''value already used by another entity'') else None)"

text \<open>The end of \<^verbatim>\<open>setWithin\<close>: replace the value of a single-valued attribute in this scope, keep an equal one, or
  add a new one.\<close>

definition upsert :: "vctx \<Rightarrow> AttributeDefinition \<Rightarrow> TypeDefinitionID \<Rightarrow> EntityID \<Rightarrow> scope \<Rightarrow> gvalue \<Rightarrow> vtx \<Rightarrow>
    (vtx \<times> ValueSnapshot) result" where
  "upsert cx def entityType entityID scope v t =
     (let existing = filter (\<lambda>av. scope_Equals (av_scope av) scope)
            (FindByDefinitionAndEntity (cx_idString cx) (vt_values t) (ad_id def) entityID)
      in if \<not> ad_multiValued def \<and> existing \<noteq> [] then
           (let av = hd existing; before = av_Snapshot av
            in rbind (av_UpdateValue (cx_lib cx) av (def, v) (cx_now cx t)) (\<lambda>(av', evts).
                 let snap = av_Snapshot av'
                 in if evts = [] then Inr (t, snap)
                    else let t = t\<lparr>vt_values := valueRepo_Save (vt_values t) av'\<rparr>;
                             t = (if dataType (vs_Value before) = DataTypeMedia \<and>
                                     ObjectKey (Media (vs_Value before)) \<noteq> ObjectKey (Media (vs_Value snap))
                                  then gcMediaAfterCommit cx (vs_ID before) (vs_Value before) t else t)
                         in Inr (tick t\<lparr>vt_events := vt_events t @ evts,
                              vt_changes := vt_changes t @ [\<lparr>vc_EntityID = av_id av', vc_Action = ActionUpdated,
                                 vc_Before = Some before, vc_After = Some snap\<rparr>]\<rparr>, snap)))
         else (case find (\<lambda>av. Equal (cx_lib cx) (av_value av) v) existing of
             Some av \<Rightarrow> Inr (t, av_Snapshot av)
           | None \<Rightarrow>
               rbind (av_New (cx_lib cx) def entityType entityID scope v (cx_newID cx (vt_tick t)) (cx_now cx t)) (\<lambda>(av, evts).
                 let snap = av_Snapshot av
                 in Inr (tick t\<lparr>vt_values := valueRepo_Save (vt_values t) av, vt_events := vt_events t @ evts,
                      vt_changes := vt_changes t @ [\<lparr>vc_EntityID = av_id av, vc_Action = ActionCreated,
                         vc_Before = None, vc_After = Some snap\<rparr>]\<rparr>, snap))))"

text \<open>The guard against archived types runs before \<^verbatim>\<open>internal\<close> is set, so it applies to every caller.\<close>

definition setWithin :: "vctx \<Rightarrow> vrepos \<Rightarrow> vtx \<Rightarrow> SetInput \<Rightarrow> (vtx \<times> ValueSnapshot) result" where
  "setWithin cx rp t inp =
     rbind (as_validation (cx_parseID cx (si_AttributeDefinitionID inp))) (\<lambda>defID.
     rbind (as_validation (ParseEntityID (si_EntityID inp))) (\<lambda>entityID.
     if si_Value inp = RawNil \<or> si_Value inp = Raw JNull then Inl (NewValidation ''value is required'')
     else rbind (attrRepo_Get (rp_attrs rp) defID) (\<lambda>def.
     rguard (EnsureTenant (cx_tenant cx) (ad_tenantID def) attr_AggregateType) (
     rbind (resolveEntityType cx rp (vt_values t) def entityID (si_TypeDefinitionID inp)) (\<lambda>(s, entityType).
     rbind (checkInherited rp def entityType) (\<lambda>_.
     rbind (checkTypeLive rp entityType) (\<lambda>_.
     let internal = (si_Internal inp \<and> IsComputed def);
         scope = \<lparr>Locale = si_Locale inp, Channel = si_Channel inp\<rparr>
     in rguard (writeGuard cx def internal) (
     rbind (decodeValue cx rp s def inp) (\<lambda>v.
     rguard (scopeGuard def scope) (
     rguard (checkDependencies cx rp s def entityType entityID v) (
     let t = noteWrite \<lparr>er_tenant = ad_tenantID def, er_typeID = entityType, er_entity = entityID, er_fullView = False\<rparr>
               internal (t\<lparr>vt_values := s\<rparr>)
     in rguard (uniqueGuard (cx_lib cx) s def scope v entityID) (
     upsert cx def entityType entityID scope v t))))))))))))"

section \<open>Use cases\<close>

text \<open>\<^verbatim>\<open>Execute\<close>: the body, then the end-of-transaction check; only then are the writes kept.\<close>

definition finish_vtx :: "vctx \<Rightarrow> vrepos \<Rightarrow> vtx \<times> 'a \<Rightarrow> (vtx \<times> 'a) result" where
  "finish_vtx cx rp r = rguard (enforceRequiredOnWrite cx rp (vt_values (fst r)) (vt_gate (fst r))) (Inr r)"

definition value_Set :: "vctx \<Rightarrow> vrepos \<Rightarrow> value_store \<Rightarrow> SetInput \<Rightarrow> (vtx \<times> ValueSnapshot) result" where
  "value_Set cx rp s inp = rbind (setWithin cx rp (begin_vtx s) inp) (finish_vtx cx rp)"

text \<open>\<^verbatim>\<open>canonicalOrder\<close>: \<^verbatim>\<open>sort.SliceStable\<close> of the indices by entity.\<close>

definition canonicalOrder :: "'a list \<Rightarrow> ('a \<Rightarrow> string) \<Rightarrow> nat list" where
  "canonicalOrder items entityOf = sort_key (\<lambda>i. entityOf (items ! i)) [0..<length items]"

fun set_each :: "vctx \<Rightarrow> vrepos \<Rightarrow> SetInput list \<Rightarrow> nat list \<Rightarrow> vtx \<times> (nat \<times> ValueSnapshot) list \<Rightarrow>
    (vtx \<times> (nat \<times> ValueSnapshot) list) result" where
  "set_each cx rp items [] acc = Inr acc"
| "set_each cx rp items (idx # order) (t, out) =
     rbind (setWithin cx rp t (items ! idx)) (\<lambda>(t', snap). set_each cx rp items order (t', (idx, snap) # out))"

definition maxBatchItems :: nat where "maxBatchItems = 1000"

definition SetBatch :: "vctx \<Rightarrow> vrepos \<Rightarrow> value_store \<Rightarrow> SetInput list \<Rightarrow> (vtx \<times> ValueSnapshot list) result" where
  "SetBatch cx rp s items =
     (if items = [] then Inl (NewValidation ''at least one item is required'')
      else if length items > maxBatchItems then Inl (NewValidation ''batch exceeds the maximum item count'')
      else rbind (set_each cx rp items (canonicalOrder items si_EntityID) (begin_vtx s, [])) (\<lambda>(t, out).
             finish_vtx cx rp (t, map (\<lambda>i. the (map_of out i)) [0..<length items])))"

definition remove_value :: "vctx \<Rightarrow> AttributeValue \<Rightarrow> vtx \<Rightarrow> (vtx \<times> ValueSnapshot) result" where
  "remove_value cx av t =
     (let before = av_Snapshot av
      in rbind (av_Remove av (cx_now cx t)) (\<lambda>(av', evts).
           let t = gcMediaAfterCommit cx (vs_ID before) (vs_Value before) (t\<lparr>vt_values := valueRepo_Save (vt_values t) av'\<rparr>)
           in Inr (tick t\<lparr>vt_events := vt_events t @ evts,
                vt_changes := vt_changes t @ [\<lparr>vc_EntityID = av_id av', vc_Action = ActionRemoved,
                   vc_Before = Some before, vc_After = None\<rparr>]\<rparr>, av_Snapshot av')))"

definition value_ref :: "AttributeValue \<Rightarrow> entityRef" where
  "value_ref av = \<lparr>er_tenant = av_tenantID av, er_typeID = av_typeDefinitionID av, er_entity = av_entityID av, er_fullView = False\<rparr>"

text \<open>The gate records the value after its removal.\<close>

definition remove_noted :: "vctx \<Rightarrow> AttributeDefinition \<Rightarrow> AttributeValue \<Rightarrow> vtx \<Rightarrow> (vtx \<times> ValueSnapshot) result" where
  "remove_noted cx def av t =
     rbind (remove_value cx av t) (\<lambda>(t', snap). Inr (noteRemoval (value_ref av) (av_Rehydrate snap) (IsComputed def) t', snap))"

definition value_Remove :: "vctx \<Rightarrow> vrepos \<Rightarrow> value_store \<Rightarrow> string \<Rightarrow> (vtx \<times> ValueSnapshot) result" where
  "value_Remove cx rp s rawID =
     rbind (as_validation (cx_parseID cx rawID)) (\<lambda>i.
     rbind (valueRepo_Get s i) (\<lambda>av.
     rguard (EnsureTenant (cx_tenant cx) (av_tenantID av) value_AggregateType) (
     rbind (attrRepo_Get (rp_attrs rp) (av_attributeDefID av)) (\<lambda>def.
     if \<not> CanWrite (cx_access cx) (ad_internalName def) then Inl (NewForbidden ''not permitted to write this attribute'')
     else rbind (remove_noted cx def av (begin_vtx s)) (finish_vtx cx rp)))))"

definition assertWritableValues :: "vctx \<Rightarrow> vrepos \<Rightarrow> AttributeValue list \<Rightarrow> goerr option" where
  "assertWritableValues cx rp vals =
     (if Admin (cx_access cx) \<or> vals = [] then None
      else let ids = map av_attributeDefID vals; getMany = attrRepo_GetMany (rp_attrs rp)
           in (case Writable (cx_idString cx) getMany (cx_access cx) ids of Inl e \<Rightarrow> Some e
             | Inr writable \<Rightarrow> (case Names (cx_idString cx) getMany ids of Inl e \<Rightarrow> Some e
                 | Inr names \<Rightarrow> first_err (\<lambda>i. if flag_at writable (cx_idString cx i) then None
                       else Some (NewForbidden ''attribute is not writable by this principal'')) ids)))"

fun remove_all :: "vctx \<Rightarrow> AttributeValue list \<Rightarrow> vtx \<Rightarrow> vtx result" where
  "remove_all cx [] t = Inr t"
| "remove_all cx (av # vals) t = rbind (remove_value cx av t) (\<lambda>(t', _). remove_all cx vals t')"

record rel_change =
  rc_EntityID :: RelationshipID
  rc_Before :: RelSnapshot

text \<open>The events and the recorded removals of links follow those of the values.\<close>

fun unlink_all :: "vctx \<Rightarrow> Relationship list \<Rightarrow> vtx \<times> rel_store \<times> rel_event list \<times> rel_change list \<Rightarrow>
    (vtx \<times> rel_store \<times> rel_event list \<times> rel_change list) result" where
  "unlink_all cx [] acc = Inr acc"
| "unlink_all cx (rel # rels) (t, links, evs, chs) =
     rbind (Unlink rel (cx_now cx t)) (\<lambda>(rel', evts). rbind (relRepo_Save links rel') (\<lambda>links'.
       unlink_all cx rels (tick t, links', evs @ evts, chs @ [\<lparr>rc_EntityID = rel_id rel', rc_Before = rel_Snapshot rel\<rparr>])))"

definition relRepo_ListByEntity :: "(ulid \<Rightarrow> string) \<Rightarrow> rel_store \<Rightarrow> TenantID \<Rightarrow> EntityID \<Rightarrow> Relationship list" where
  "relRepo_ListByEntity idString s tenant entityID =
     sortByID (\<lambda>r. idString (rel_id r)) (map rel_Rehydrate (filter (\<lambda>x. rls_TenantID x = tenant \<and> rls_ArchivedAt x = None \<and>
        (rls_ParentEntityID x = entityID \<or> rls_ChildEntityID x = entityID)) s))"

record RemoveEntityOutput =
  re_EntityID :: string
  re_ValuesRemoved :: nat
  re_RelationshipsGone :: nat

definition RemoveEntity :: "vctx \<Rightarrow> vrepos \<Rightarrow> value_store \<Rightarrow> rel_store \<Rightarrow> string \<Rightarrow> string \<Rightarrow>
    (vtx \<times> rel_store \<times> rel_event list \<times> rel_change list \<times> RemoveEntityOutput) result" where
  "RemoveEntity cx rp s links rawTypeDefID rawEntityID =
     rbind (as_validation (cx_parseID cx rawTypeDefID)) (\<lambda>typeDefID.
     rbind (as_validation (ParseEntityID rawEntityID)) (\<lambda>entityID.
     let vals = ListByEntity (cx_idString cx) s \<lparr>ek_TenantID = cx_tenant cx, ek_TypeDefinitionID = typeDefID, ek_EntityID = entityID\<rparr>;
         rels = relRepo_ListByEntity (cx_idString cx) links (cx_tenant cx) entityID
     in if vals = [] \<and> rels = [] then Inl (NewNotFound ''entity'')
        else rguard (assertWritableValues cx rp vals) (
             rbind (remove_all cx vals (begin_vtx s)) (\<lambda>t.
             rbind (unlink_all cx rels (t, links, [], [])) (\<lambda>(t', links', evts, chs).
               finish_vtx cx rp (t', links', evts, chs, \<lparr>re_EntityID = rawEntityID, re_ValuesRemoved = length vals,
                 re_RelationshipsGone = length rels\<rparr>))))))"

section \<open>Mutations (mutation.go)\<close>

fun remove_scoped :: "vctx \<Rightarrow> AttributeDefinition \<Rightarrow> AttributeValue list \<Rightarrow> vtx \<Rightarrow> vtx result" where
  "remove_scoped cx def [] t = Inr t"
| "remove_scoped cx def (av # vals) t = rbind (remove_noted cx def av t) (\<lambda>(t', _). remove_scoped cx def vals t')"

definition removeScopedWithin :: "vctx \<Rightarrow> vrepos \<Rightarrow> vtx \<Rightarrow> Mutation \<Rightarrow> vtx result" where
  "removeScopedWithin cx rp t m =
     rbind (as_validation (cx_parseID cx (mu_AttributeDefinitionID m))) (\<lambda>defID.
     rbind (as_validation (ParseEntityID (mu_EntityID m))) (\<lambda>entityID.
     rbind (attrRepo_Get (rp_attrs rp) defID) (\<lambda>def.
     rguard (EnsureTenant (cx_tenant cx) (ad_tenantID def) attr_AggregateType) (
     if \<not> CanWrite (cx_access cx) (ad_internalName def) then Inl (NewForbidden ''not permitted to write this attribute'')
     else remove_scoped cx def
            (filter (\<lambda>av. av_tenantID av = cx_tenant cx \<and> Locale (av_scope av) = mu_Locale m \<and> Channel (av_scope av) = mu_Channel m)
               (FindByDefinitionAndEntity (cx_idString cx) (vt_values t) defID entityID)) t))))"

definition mutation_input :: "Mutation \<Rightarrow> SetInput" where
  "mutation_input m = \<lparr>si_AttributeDefinitionID = mu_AttributeDefinitionID m, si_EntityID = mu_EntityID m,
     si_TypeDefinitionID = mu_TypeDefinitionID m, si_Locale = mu_Locale m, si_Channel = mu_Channel m,
     si_Value = mu_Value m, si_Internal = False, si_fromUpload = False\<rparr>"

definition applyMutation :: "vctx \<Rightarrow> vrepos \<Rightarrow> vtx \<Rightarrow> Mutation \<Rightarrow> vtx result" where
  "applyMutation cx rp t m =
     (if mu_Kind m = MutationSet then map_sum id fst (setWithin cx rp t (mutation_input m))
      else if mu_Kind m = MutationRemove then removeScopedWithin cx rp t m
      else Inl (NewValidation ''unknown mutation kind''))"

fun apply_each :: "vctx \<Rightarrow> vrepos \<Rightarrow> Mutation list \<Rightarrow> nat list \<Rightarrow> vtx \<Rightarrow> vtx result" where
  "apply_each cx rp muts [] t = Inr t"
| "apply_each cx rp muts (idx # order) t = rbind (applyMutation cx rp t (muts ! idx)) (apply_each cx rp muts order)"

definition ApplyMutations :: "vctx \<Rightarrow> vrepos \<Rightarrow> value_store \<Rightarrow> Mutation list \<Rightarrow> vtx result" where
  "ApplyMutations cx rp s muts =
     (if muts = [] then Inr (begin_vtx s)
      else rbind (apply_each cx rp muts (canonicalOrder muts mu_EntityID) (begin_vtx s)) (\<lambda>t.
             map_sum id fst (finish_vtx cx rp (t, ()))))"

section \<open>Reads\<close>

definition redactUnreadable :: "vctx \<Rightarrow> vrepos \<Rightarrow> ValueSnapshot list \<Rightarrow> ValueSnapshot list result" where
  "redactUnreadable cx rp snaps =
     (if Admin (cx_access cx) then Inr snaps
      else map_sum id (\<lambda>readable. filter (\<lambda>s. flag_at readable (cx_idString cx (vs_AttributeDefinitionID s))) snaps)
        (Readable (cx_idString cx) (attrRepo_GetMany (rp_attrs rp)) (cx_access cx) (map vs_AttributeDefinitionID snaps)))"

definition value_Get :: "vctx \<Rightarrow> vrepos \<Rightarrow> value_store \<Rightarrow> string \<Rightarrow> ValueSnapshot result" where
  "value_Get cx rp s rawID =
     rbind (as_validation (cx_parseID cx rawID)) (\<lambda>i.
     rbind (valueRepo_Get s i) (\<lambda>av.
     rguard (EnsureTenant (cx_tenant cx) (av_tenantID av) value_AggregateType) (
     rbind (attrRepo_Get (rp_attrs rp) (av_attributeDefID av)) (\<lambda>def.
       if \<not> CanRead (cx_access cx) (ad_internalName def) then Inl (NewNotFound value_AggregateType)
       else Inr (av_Snapshot av)))))"

definition value_ListByEntity :: "vctx \<Rightarrow> vrepos \<Rightarrow> value_store \<Rightarrow> string \<Rightarrow> string \<Rightarrow> ValueSnapshot list result" where
  "value_ListByEntity cx rp s rawTypeDefID rawEntityID =
     rbind (as_validation (cx_parseID cx rawTypeDefID)) (\<lambda>typeDefID.
     rbind (as_validation (ParseEntityID rawEntityID)) (\<lambda>entityID.
       redactUnreadable cx rp (map av_Snapshot (ListByEntity (cx_idString cx) s
         \<lparr>ek_TenantID = cx_tenant cx, ek_TypeDefinitionID = typeDefID, ek_EntityID = entityID\<rparr>))))"

definition value_ListByEntities :: "vctx \<Rightarrow> vrepos \<Rightarrow> value_store \<Rightarrow> string list \<Rightarrow> ValueSnapshot list result" where
  "value_ListByEntities cx rp s raws =
     rbind (map_result (\<lambda>raw. as_validation (ParseEntityID raw)) raws) (\<lambda>ids.
       redactUnreadable cx rp (map av_Snapshot (ListByEntities (cx_idString cx) s (cx_tenant cx) ids)))"

definition MediaKeyReadable :: "vctx \<Rightarrow> vrepos \<Rightarrow> value_store \<Rightarrow> string \<Rightarrow> bool result" where
  "MediaKeyReadable cx rp s key =
     (case MediaValueForKey (cx_idString cx) s (cx_tenant cx) key of None \<Rightarrow> Inr False
      | Some owner \<Rightarrow> acl_CanRead (cx_idString cx) (attrRepo_GetMany (rp_attrs rp)) (cx_access cx) (vs_AttributeDefinitionID owner))"

definition MediaKeyBelongsToTenant :: "vctx \<Rightarrow> value_store \<Rightarrow> TenantID \<Rightarrow> string \<Rightarrow> bool" where
  "MediaKeyBelongsToTenant cx s tenant key \<longleftrightarrow> MediaValueForKey (cx_idString cx) s tenant key \<noteq> None"

text \<open>\<^verbatim>\<open>gcMediaKey\<close>, run after the commit for each recorded pair: whether the blob is deleted.\<close>

definition gcMediaKey :: "value_store \<Rightarrow> string \<Rightarrow> AttributeValueID \<Rightarrow> bool" where
  "gcMediaKey s key exclude \<longleftrightarrow> \<not> MediaKeyRefCount s key exclude > 0"

record EntityListArgs =
  el_TypeDefID :: string
  el_IncludeDescendants :: bool
  el_Page :: PageArgs
  el_Stable :: bool

definition listEntities :: "vctx \<Rightarrow> (int \<Rightarrow> string) \<Rightarrow> vrepos \<Rightarrow> value_store \<Rightarrow> EntityListArgs \<Rightarrow> (EntitySummary list \<times> PageInfo) result" where
  "listEntities cx timeKey rp s a =
     rbind (as_validation (cx_parseID cx (el_TypeDefID a))) (\<lambda>typeDefID.
     rbind (as_validation (page_Resolve (cx_klib cx) (el_Page a))) (\<lambda>page0.
     let page = page0\<lparr>pg_Stable := el_Stable a\<rparr>
     in rbind (if el_IncludeDescendants a
               then rbind (types_get rp typeDefID) (\<lambda>t.
                    map_sum id (\<lambda>ds. typeDefID # map td_id ds) (Descendants (typeDefRepo_ListChildren (rp_types rp)) t))
               else Inr [typeDefID]) (\<lambda>typeIDs.
        rbind (valueRepo_ListEntities (cx_klib cx) timeKey s (cx_tenant cx) typeIDs page) (\<lambda>(items, count).
          Inr (KeysetPage page items (KeysetTotal page count) (\<lambda>e.
            if pg_Stable page then EncodeKeyset (cx_klib cx) [sm_EntityID e]
            else EncodeKeyset (cx_klib cx) [timeKey (sm_LastUpdatedAt e), sm_EntityID e]))))))"

record ValueListInput =
  vl_TypeDefinitionID :: string
  vl_AttributeDefinitionID :: string
  vl_EntityID :: string
  vl_IncludeArchived :: bool
  vl_Page :: PageArgs

definition value_List :: "vctx \<Rightarrow> vrepos \<Rightarrow> value_store \<Rightarrow> ValueListInput \<Rightarrow> (ValueSnapshot list \<times> PageInfo) result" where
  "value_List cx rp s inp =
     rbind (as_validation (page_Resolve (cx_klib cx) (vl_Page inp))) (\<lambda>page.
     rbind (if vl_TypeDefinitionID inp = [] then Inr 0 else as_validation (cx_parseID cx (vl_TypeDefinitionID inp))) (\<lambda>ty.
     rbind (if vl_AttributeDefinitionID inp = [] then Inr 0 else as_validation (cx_parseID cx (vl_AttributeDefinitionID inp))) (\<lambda>attr.
     rbind (if vl_EntityID inp = [] then Inr [] else as_validation (ParseEntityID (vl_EntityID inp))) (\<lambda>ent.
     rbind (valueRepo_List (cx_klib cx) (cx_idString cx) s \<lparr>vf_TenantID = cx_tenant cx, vf_IncludeArchived = vl_IncludeArchived inp,
              vf_TypeDefinitionID = ty, vf_AttributeDefinitionID = attr, vf_EntityID = ent\<rparr> page) (\<lambda>(items, count).
       let (items, info) = KeysetPage page items (KeysetTotal page count) (\<lambda>av. EncodeKeyset (cx_klib cx) [cx_idString cx (av_id av)])
       in map_sum id (\<lambda>snaps. (snaps, info)) (redactUnreadable cx rp (map av_Snapshot items)))))))"

end
