(* ===== verification/Fql.thy ===== *)
theory Fql
  imports Formula
begin

text \<open>
  The query language (\<^verbatim>\<open>pkg/fql\<close>): lexer, syntax tree and recursive-descent parser. Text is a list of bytes, and the
  lexer classifies each byte as the rune of the same number, as the code does. Keywords are ASCII: a
  word of the lexer that has other bytes is none of them in either case, so \<^verbatim>\<open>ToLower\<close> and \<^verbatim>\<open>EqualFold\<close> are
  \<open>ascii_lower\<close> here. An error is its position and the format of its message.

  The parser's state is the tokens from \<^verbatim>\<open>pos\<close> on; \<^verbatim>\<open>depth\<close> is an argument, since every \<^verbatim>\<open>enter\<close> has its \<^verbatim>\<open>leave\<close>. The
  recursion takes fuel, and \<open>fql_Parse_total\<close> shows that it never runs out.
\<close>

section \<open>Tokens (token.go, lexer.go)\<close>

datatype TokenKind =
    TokenEOF | TokenIdent | TokenString | TokenNumber | TokenLParen | TokenRParen | TokenLBrace | TokenRBrace
  | TokenComma | TokenDot | TokenOp

record Token =
  tk_Kind :: TokenKind
  tk_Text :: string
  tk_Pos :: nat

datatype fql_error = FqlError (err_Pos: nat) (err_Message: string)

type_synonym 'a fql = "fql_error + 'a"

definition token :: "TokenKind \<Rightarrow> string \<Rightarrow> nat \<Rightarrow> Token" where
  "token k t pos = \<lparr>tk_Kind = k, tk_Text = t, tk_Pos = pos\<rparr>"

text \<open>The text of a string up to its closing quote, and what follows; \<open>None\<close> is unterminated.\<close>

fun lex_string :: "char \<Rightarrow> string \<Rightarrow> (string \<times> string) option" where
  "lex_string quote [] = None"
| "lex_string quote (c # cs) =
     (if c = CHR 0x5C \<and> cs \<noteq> [] then map_option (\<lambda>(t, r). (hd cs # t, r)) (lex_string quote (tl cs))
      else if c = quote then Some ([], cs)
      else map_option (\<lambda>(t, r). (c # t, r)) (lex_string quote cs))"

text \<open>A number: the byte that starts it, digits, and at most one fraction. \<open>n\<close> is the length of the whole input, so a
  position is \<open>n\<close> less what is left.\<close>

definition lex_number :: "nat \<Rightarrow> char \<Rightarrow> string \<Rightarrow> (string \<times> string) fql" where
  "lex_number n c cs =
     (let whole = c # takeWhile is_digit cs; rest = dropWhile is_digit cs
      in case rest of
           [] \<Rightarrow> Inr (whole, rest)
         | d # fr \<Rightarrow>
             if d \<noteq> CHR ''.'' then Inr (whole, rest)
             else if fr = [] \<or> \<not> is_digit (hd fr)
               then Inl (FqlError (n - length fr) ''malformed number: a decimal point must be followed by a digit'')
             else let after = dropWhile is_digit fr
                  in if after \<noteq> [] \<and> hd after = CHR ''.''
                     then Inl (FqlError (n - length after) ''malformed number: only one decimal point is allowed'')
                     else Inr (whole @ d # takeWhile is_digit fr, after))"

definition punctuation :: "char \<Rightarrow> TokenKind option" where
  "punctuation c = map_of [(CHR ''('', TokenLParen), (CHR '')'', TokenRParen), (CHR ''{'', TokenLBrace), (CHR ''}'', TokenRBrace),
     (CHR '','', TokenComma), (CHR ''.'', TokenDot), (CHR ''='', TokenOp)] c"

text \<open>The token at the byte \<open>c\<close> and what follows it: its kind and text, and the rest of the input.\<close>

definition lex_token :: "nat \<Rightarrow> nat \<Rightarrow> char \<Rightarrow> string \<Rightarrow> (TokenKind \<times> string \<times> string) fql" where
  "lex_token n pos c cs =
     (case punctuation c of Some k \<Rightarrow> Inr (k, [c], cs)
      | None \<Rightarrow>
          if c = CHR ''!'' then
            (if cs \<noteq> [] \<and> hd cs = CHR ''='' then Inr (TokenOp, ''!='', tl cs)
             else Inl (FqlError pos ''unexpected '!' (did you mean '!=')''))
          else if c = CHR ''>'' \<or> c = CHR ''<'' then
            (if cs \<noteq> [] \<and> hd cs = CHR ''='' then Inr (TokenOp, [c, CHR ''=''], tl cs) else Inr (TokenOp, [c], cs))
          else if c = CHR 0x22 \<or> c = CHR 0x27 then
            (case lex_string c cs of None \<Rightarrow> Inl (FqlError pos ''unterminated string'')
             | Some (t, rest) \<Rightarrow> Inr (TokenString, t, rest))
          else if is_digit c \<or> (c = CHR ''-'' \<and> cs \<noteq> [] \<and> is_digit (hd cs)) then
            map_sum id (\<lambda>(t, rest). (TokenNumber, t, rest)) (lex_number n c cs)
          else if is_letter c \<or> c = CHR ''_'' then
            Inr (TokenIdent, takeWhile ident_char (c # cs), dropWhile ident_char (c # cs))
          else Inl (FqlError pos ''unexpected character %q''))"

text \<open>One step of the loop; \<open>None\<close> is white space.\<close>

definition lex_one :: "nat \<Rightarrow> char \<Rightarrow> string \<Rightarrow> (Token option \<times> string) fql" where
  "lex_one n c cs =
     (let pos = n - length (c # cs)
      in if is_space c then Inr (None, cs)
         else map_sum id (\<lambda>(k, t, rest). (Some (token k t pos), rest)) (lex_token n pos c cs))"

lemma lex_string_shorter: "lex_string quote cs = Some (t, rest) \<Longrightarrow> length rest < length cs"
proof (induction quote cs arbitrary: t rest rule: lex_string.induct)
  case (2 quote c cs)
  then show ?case by (cases cs) (fastforce split: if_splits)+
qed simp

lemma lex_number_shorter: "lex_number n c cs = Inr (t, rest) \<Longrightarrow> length rest \<le> length cs"
  using length_dropWhile_le [of is_digit cs] length_dropWhile_le [of is_digit "tl (dropWhile is_digit cs)"]
  by (auto simp: lex_number_def Let_def intro: length_dropWhile_le split: list.splits if_splits)

lemma lex_token_shorter: "lex_token n pos c cs = Inr (k, t, rest) \<Longrightarrow> length rest \<le> length cs"
proof -
  have id: "is_letter c \<or> c = CHR ''_'' \<Longrightarrow> length (dropWhile ident_char (c # cs)) \<le> length cs"
    by (intro length_dropWhile_Cons) (auto simp: ident_char_def)
  assume "lex_token n pos c cs = Inr (k, t, rest)"
  then show ?thesis using id
    by (auto simp: lex_token_def map_sum_Inr dest!: lex_string_shorter lex_number_shorter
        simp del: dropWhile.simps takeWhile.simps split: if_splits option.splits)
qed

lemma lex_one_shorter: "lex_one n c cs = Inr (t, rest) \<Longrightarrow> length rest \<le> length cs"
  by (auto simp: lex_one_def Let_def map_sum_Inr dest!: lex_token_shorter split: if_splits)

function lex_from :: "nat \<Rightarrow> string \<Rightarrow> Token list fql" where
  "lex_from n [] = Inr [token TokenEOF [] n]"
| "lex_from n (c # cs) =
     (case lex_one n c cs of Inl e \<Rightarrow> Inl e
      | Inr (t, rest) \<Rightarrow> map_sum id (\<lambda>ts. case t of None \<Rightarrow> ts | Some t \<Rightarrow> t # ts) (lex_from n rest))"
  by pat_completeness auto
termination
  by (relation "measure (length \<circ> snd)") (auto dest!: lex_one_shorter)

definition lex :: "string \<Rightarrow> Token list fql" where
  "lex input = lex_from (length input) input"

section \<open>The syntax tree (ast.go)\<close>

datatype LogicalOp = OpAnd | OpOr

datatype CompareOp = CmpEq | CmpNeq | CmpGt | CmpGte | CmpLt | CmpLte | CmpIsa

datatype AggFunc = FuncNone | FuncMin | FuncMax | FuncCount | FuncLength

datatype FieldScope = ScopeEntity | ScopeLink | ScopeType

record Field =
  fd_Scope :: FieldScope
  fd_Name :: string
  fd_Pos :: nat

datatype LiteralKind = LitString | LitNumber | LitBool | LitIdent

record Literal =
  li_Kind :: LiteralKind
  li_Text :: string
  li_Unit :: string
  li_Pos :: nat

datatype StringMatchKind = MatchContains | MatchIContains | MatchIEquals

datatype Direction = DirChild | DirParent | DirAny

datatype fql_node =
    Logical LogicalOp "fql_node list" nat
  | NotNode fql_node nat
  | CompareNode AggFunc Field CompareOp Literal nat
  | InNode AggFunc Field "Literal list" nat
  | RangeNode AggFunc Field Literal Literal nat
  | HasNode Field nat
  | StringMatchNode StringMatchKind Field Literal nat
  | MatchesNode string nat
  | Traversal Direction string fql_node nat

fun Position :: "fql_node \<Rightarrow> nat" where
  "Position (Logical _ _ pos) = pos"
| "Position (NotNode _ pos) = pos"
| "Position (CompareNode _ _ _ _ pos) = pos"
| "Position (InNode _ _ _ pos) = pos"
| "Position (RangeNode _ _ _ _ pos) = pos"
| "Position (HasNode _ pos) = pos"
| "Position (StringMatchNode _ _ _ pos) = pos"
| "Position (MatchesNode _ pos) = pos"
| "Position (Traversal _ _ _ pos) = pos"

section \<open>The parser (parser.go)\<close>

definition maxQueryLen :: nat where "maxQueryLen = 16 * 1024"
definition maxParseDepth :: nat where "maxParseDepth = 128"

text \<open>The lexer's list ends with the end-of-query token, which is never consumed.\<close>

definition peek :: "Token list \<Rightarrow> Token" where
  "peek p = (case p of [] \<Rightarrow> token TokenEOF [] 0 | t # _ \<Rightarrow> t)"

definition parser_next :: "Token list \<Rightarrow> Token list" where
  "parser_next p = (if tk_Kind (peek p) \<noteq> TokenEOF then tl p else p)"

definition word :: "Token \<Rightarrow> string" where
  "word t = ascii_lower (tk_Text t)"

definition keyword :: "string \<Rightarrow> Token list \<Rightarrow> bool" where
  "keyword w p \<longleftrightarrow> tk_Kind (peek p) = TokenIdent \<and> word (peek p) = w"

definition expect :: "TokenKind \<Rightarrow> Token list \<Rightarrow> (Token \<times> Token list) fql" where
  "expect kind p =
     (if tk_Kind (peek p) \<noteq> kind then Inl (FqlError (tk_Pos (peek p)) ''expected %s, got %q'') else Inr (peek p, parser_next p))"

definition parseField :: "Token list \<Rightarrow> (Field \<times> Token list) fql" where
  "parseField p =
     rbind (expect TokenIdent p) (\<lambda>(t, p).
       if word t = ''type'' then Inr (\<lparr>fd_Scope = ScopeType, fd_Name = ''type'', fd_Pos = tk_Pos t\<rparr>, p)
       else if word t = ''link'' \<and> tk_Kind (peek p) = TokenDot then
         rbind (expect TokenIdent (parser_next p)) (\<lambda>(attr, p).
           Inr (\<lparr>fd_Scope = ScopeLink, fd_Name = tk_Text attr, fd_Pos = tk_Pos t\<rparr>, p))
       else Inr (\<lparr>fd_Scope = ScopeEntity, fd_Name = tk_Text t, fd_Pos = tk_Pos t\<rparr>, p))"

definition agg_word :: "string \<Rightarrow> AggFunc option" where
  "agg_word w = map_of [(''min'', FuncMin), (''max'', FuncMax), (''count'', FuncCount), (''length'', FuncLength)] w"

definition parseOperand :: "Token list \<Rightarrow> ((AggFunc \<times> Field) \<times> Token list) fql" where
  "parseOperand p =
     (let plain = map_sum id (\<lambda>(f, p). ((FuncNone, f), p)) (parseField p)
      in if tk_Kind (peek p) = TokenIdent \<and> tk_Kind (peek (tl p)) = TokenLParen
         then (case agg_word (word (peek p)) of None \<Rightarrow> plain
           | Some fn \<Rightarrow>
               rbind (parseField (parser_next (parser_next p))) (\<lambda>(field, p).
               rbind (expect TokenRParen p) (\<lambda>(_, p). Inr ((fn, field), p))))
         else plain)"

definition wordOps :: "string \<Rightarrow> CompareOp option" where
  "wordOps w = map_of [(''eq'', CmpEq), (''neq'', CmpNeq), (''gt'', CmpGt), (''gte'', CmpGte), (''lt'', CmpLt),
     (''lte'', CmpLte), (''isa'', CmpIsa)] w"

text \<open>\<^verbatim>\<open>CompareOp(t.Text)\<close> on the six operators the lexer emits.\<close>

definition symbolOps :: "string \<Rightarrow> CompareOp option" where
  "symbolOps t = map_of [(''='', CmpEq), (''!='', CmpNeq), (''>'', CmpGt), (''>='', CmpGte), (''<'', CmpLt), (''<='', CmpLte)] t"

definition parseCompareOp :: "Token list \<Rightarrow> (CompareOp \<times> Token list) fql" where
  "parseCompareOp p =
     (let t = peek p;
          op = (if tk_Kind t = TokenOp then symbolOps (tk_Text t)
                else if tk_Kind t = TokenIdent then wordOps (word t) else None)
      in case op of Some op \<Rightarrow> Inr (op, parser_next p)
         | None \<Rightarrow> Inl (FqlError (tk_Pos t) ''expected a comparison operator, got %q''))"

definition unitStopWords :: "string list" where
  "unitStopWords = [''and'', ''or'', ''not'', ''in'', ''eq'', ''neq'', ''gt'', ''gte'', ''lt'', ''lte'', ''isa'']"

definition literal :: "LiteralKind \<Rightarrow> string \<Rightarrow> Token \<Rightarrow> Literal" where
  "literal k text t = \<lparr>li_Kind = k, li_Text = text, li_Unit = [], li_Pos = tk_Pos t\<rparr>"

definition parseLiteral :: "Token list \<Rightarrow> (Literal \<times> Token list) fql" where
  "parseLiteral p =
     (let t = peek p; p' = parser_next p
      in case tk_Kind t of
           TokenString \<Rightarrow> Inr (literal LitString (tk_Text t) t, p')
         | TokenNumber \<Rightarrow>
             (let lit = literal LitNumber (tk_Text t) t; u = peek p'
              in if tk_Kind u = TokenIdent \<and> word u \<notin> set unitStopWords
                 then Inr (lit\<lparr>li_Unit := tk_Text u\<rparr>, parser_next p') else Inr (lit, p'))
         | TokenIdent \<Rightarrow>
             if word t = ''true'' \<or> word t = ''false'' then Inr (literal LitBool (word t) t, p')
             else Inr (literal LitIdent (tk_Text t) t, p')
         | _ \<Rightarrow> Inl (FqlError (tk_Pos t) ''expected a value, got %q''))"

definition parseRange :: "Token list \<Rightarrow> (fql_node \<times> Token list) fql" where
  "parseRange p =
     (let kw = peek p
      in rbind (expect TokenLParen (parser_next p)) (\<lambda>(_, p).
         rbind (parseOperand p) (\<lambda>((fn, field), p).
         rbind (expect TokenComma p) (\<lambda>(_, p).
         rbind (parseLiteral p) (\<lambda>(lo, p).
         rbind (expect TokenComma p) (\<lambda>(_, p).
         rbind (parseLiteral p) (\<lambda>(hi, p).
         rbind (expect TokenRParen p) (\<lambda>(_, p).
           Inr (RangeNode fn field lo hi (tk_Pos kw), p)))))))))"

definition parseHas :: "Token list \<Rightarrow> (fql_node \<times> Token list) fql" where
  "parseHas p =
     (let kw = peek p
      in rbind (expect TokenLParen (parser_next p)) (\<lambda>(_, p).
         rbind (parseField p) (\<lambda>(field, p).
         rbind (expect TokenRParen p) (\<lambda>(_, p). Inr (HasNode field (tk_Pos kw), p)))))"

definition match_word :: "string \<Rightarrow> StringMatchKind option" where
  "match_word w = map_of [(''contains'', MatchContains), (''icontains'', MatchIContains), (''iequals'', MatchIEquals)] w"

definition parseStringMatch :: "StringMatchKind \<Rightarrow> Token list \<Rightarrow> (fql_node \<times> Token list) fql" where
  "parseStringMatch kind p =
     (let kw = peek p
      in rbind (expect TokenLParen (parser_next p)) (\<lambda>(_, p).
         rbind (parseField p) (\<lambda>(field, p).
         rbind (expect TokenComma p) (\<lambda>(_, p).
         rbind (parseLiteral p) (\<lambda>(lit, p).
         rbind (expect TokenRParen p) (\<lambda>(_, p). Inr (StringMatchNode kind field lit (tk_Pos kw), p)))))))"

definition parseMatches :: "Token list \<Rightarrow> (fql_node \<times> Token list) fql" where
  "parseMatches p =
     (let kw = peek p
      in rbind (expect TokenLParen (parser_next p)) (\<lambda>(_, p).
         rbind (expect TokenString p) (\<lambda>(q, p).
         rbind (expect TokenRParen p) (\<lambda>(_, p). Inr (MatchesNode (tk_Text q) (tk_Pos kw), p)))))"

text \<open>The values of \<^verbatim>\<open>in (...)\<close>.\<close>

fun parseValues :: "nat \<Rightarrow> Token list \<Rightarrow> (Literal list \<times> Token list) fql option" where
  "parseValues 0 p = None"
| "parseValues (Suc n) p =
     (case parseLiteral p of Inl e \<Rightarrow> Some (Inl e)
      | Inr (lit, p) \<Rightarrow>
          if tk_Kind (peek p) = TokenComma
          then map_option (map_sum id (map_prod (\<lambda>ls. lit # ls) id)) (parseValues n (parser_next p))
          else Some (Inr ([lit], p)))"

definition parseIn :: "AggFunc \<Rightarrow> Field \<Rightarrow> nat \<Rightarrow> Token list \<Rightarrow> (fql_node \<times> Token list) fql option" where
  "parseIn fn field pos p =
     (case expect TokenLParen p of Inl e \<Rightarrow> Some (Inl e)
      | Inr (_, p) \<Rightarrow>
          map_option (\<lambda>r. rbind r (\<lambda>(values, p). rbind (expect TokenRParen p) (\<lambda>(_, p). Inr (InNode fn field values pos, p))))
            (parseValues (length p + 1) p))"

definition parseComparisonOrIn :: "Token list \<Rightarrow> (fql_node \<times> Token list) fql option" where
  "parseComparisonOrIn p0 =
     (let start = peek p0
      in case parseOperand p0 of Inl e \<Rightarrow> Some (Inl e)
         | Inr ((fn, field), p) \<Rightarrow>
             if keyword ''in'' p then parseIn fn field (tk_Pos start) (parser_next p)
             else Some (rbind (parseCompareOp p) (\<lambda>(op, p). rbind (parseLiteral p) (\<lambda>(lit, p).
                    Inr (CompareNode fn field op lit (tk_Pos start), p)))))"

definition enter :: "nat \<Rightarrow> nat \<Rightarrow> fql_error option" where
  "enter depth pos = (if depth + 1 > maxParseDepth then Some (FqlError pos ''query nesting too deep (max %d)'') else None)"

definition direction_word :: "string \<Rightarrow> Direction option" where
  "direction_word w = map_of [(''child'', DirChild), (''parent'', DirParent), (''linked'', DirAny)] w"

type_synonym fql_result = "(fql_node \<times> Token list) fql option"

definition pbind :: "'a fql option \<Rightarrow> ('a \<Rightarrow> 'b fql option) \<Rightarrow> 'b fql option" where
  "pbind r k = (case r of None \<Rightarrow> None | Some (Inl e) \<Rightarrow> Some (Inl e) | Some (Inr x) \<Rightarrow> k x)"

definition joined :: "LogicalOp \<Rightarrow> fql_node list \<Rightarrow> fql_node" where
  "joined op exprs = (case exprs of [e] \<Rightarrow> e | _ \<Rightarrow> Logical op exprs (Position (hd exprs)))"

text \<open>\<open>rec\<close> is \<^verbatim>\<open>parseOr\<close>, at a depth and a position. \<open>parseOr\<close> itself closes the recursion: its fuel counts its own nesting,
  which \<^verbatim>\<open>enter\<close> bounds; the loops and the chain of \<^verbatim>\<open>not\<close> count tokens.\<close>

type_synonym fql_rec = "nat \<Rightarrow> Token list \<Rightarrow> fql_result"

definition parseTraversal :: "fql_rec \<Rightarrow> nat \<Rightarrow> Direction \<Rightarrow> Token list \<Rightarrow> fql_result" where
  "parseTraversal rec depth dir p =
     (let kw = peek p
      in pbind (Some (rbind (expect TokenLParen (parser_next p)) (\<lambda>(_, p).
            rbind (expect TokenIdent p) (\<lambda>(rel, p).
            rbind (expect TokenRParen p) (\<lambda>(_, p).
            rbind (expect TokenLBrace p) (\<lambda>(_, p). Inr (rel, p)))))))
         (\<lambda>(rel, p). pbind (rec depth p) (\<lambda>(inner, p).
            Some (rbind (expect TokenRBrace p) (\<lambda>(_, p). Inr (Traversal dir (tk_Text rel) inner (tk_Pos kw), p))))))"

definition parsePrimary :: "fql_rec \<Rightarrow> nat \<Rightarrow> Token list \<Rightarrow> fql_result" where
  "parsePrimary rec depth p =
     (let t = peek p
      in if tk_Kind t = TokenLParen then
           pbind (rec depth (parser_next p)) (\<lambda>(inner, p).
             Some (rbind (expect TokenRParen p) (\<lambda>(_, p). Inr (inner, p))))
         else if tk_Kind t \<noteq> TokenIdent then Some (Inl (FqlError (tk_Pos t) ''expected a condition, got %q''))
         else case direction_word (word t) of Some dir \<Rightarrow> parseTraversal rec depth dir p
         | None \<Rightarrow>
             if word t = ''range'' then Some (parseRange p)
             else if word t = ''has'' then Some (parseHas p)
             else (case match_word (word t) of Some kind \<Rightarrow> Some (parseStringMatch kind p)
               | None \<Rightarrow> if word t = ''matches'' then Some (parseMatches p) else parseComparisonOrIn p))"

fun parseUnary :: "fql_rec \<Rightarrow> nat \<Rightarrow> nat \<Rightarrow> Token list \<Rightarrow> fql_result" where
  "parseUnary rec 0 depth p = None"
| "parseUnary rec (Suc n) depth p =
     (if keyword ''not'' p then
        (case enter depth (tk_Pos (peek p)) of Some e \<Rightarrow> Some (Inl e)
         | None \<Rightarrow> pbind (parseUnary rec n (depth + 1) (parser_next p)) (\<lambda>(inner, p').
             Some (Inr (NotNode inner (tk_Pos (peek p)), p'))))
      else parsePrimary rec depth p)"

fun andLoop :: "fql_rec \<Rightarrow> nat \<Rightarrow> nat \<Rightarrow> fql_node list \<Rightarrow> Token list \<Rightarrow> fql_result" where
  "andLoop rec 0 depth exprs p = None"
| "andLoop rec (Suc n) depth exprs p =
     (if keyword ''and'' p then
        pbind (parseUnary rec (length p + 1) depth (parser_next p)) (\<lambda>(right, p). andLoop rec n depth (exprs @ [right]) p)
      else Some (Inr (joined OpAnd exprs, p)))"

definition parseAnd :: "fql_rec \<Rightarrow> nat \<Rightarrow> Token list \<Rightarrow> fql_result" where
  "parseAnd rec depth p =
     pbind (parseUnary rec (length p + 1) depth p) (\<lambda>(left, p). andLoop rec (length p + 1) depth [left] p)"

fun orLoop :: "fql_rec \<Rightarrow> nat \<Rightarrow> nat \<Rightarrow> fql_node list \<Rightarrow> Token list \<Rightarrow> fql_result" where
  "orLoop rec 0 depth exprs p = None"
| "orLoop rec (Suc n) depth exprs p =
     (if keyword ''or'' p then pbind (parseAnd rec depth (parser_next p)) (\<lambda>(right, p). orLoop rec n depth (exprs @ [right]) p)
      else Some (Inr (joined OpOr exprs, p)))"

fun parseOr :: "nat \<Rightarrow> nat \<Rightarrow> Token list \<Rightarrow> fql_result" where
  "parseOr 0 depth p = None"
| "parseOr (Suc n) depth p =
     (case enter depth (tk_Pos (peek p)) of Some e \<Rightarrow> Some (Inl e)
      | None \<Rightarrow> pbind (parseAnd (parseOr n) (depth + 1) p) (\<lambda>(left, p). orLoop (parseOr n) (length p + 1) (depth + 1) [left] p))"

text \<open>\<^verbatim>\<open>strings.TrimSpace(input) == ""\<close>: the text is white space, some of which has more than one byte in UTF-8.\<close>

fun all_space :: "nat list \<Rightarrow> bool" where
  "all_space [] = True"
| "all_space (b # bs) =
     (if b \<in> {9, 10, 11, 12, 13, 32} then all_space bs
      else if b = 0xC2 then (case bs of c # cs \<Rightarrow> c \<in> {0x85, 0xA0} \<and> all_space cs | _ \<Rightarrow> False)
      else (case bs of c # d # ds \<Rightarrow>
          (b = 0xE1 \<and> c = 0x9A \<and> d = 0x80 \<or>
           b = 0xE2 \<and> c = 0x80 \<and> (0x80 \<le> d \<and> d \<le> 0x8A \<or> d = 0xA8 \<or> d = 0xA9 \<or> d = 0xAF) \<or>
           b = 0xE2 \<and> c = 0x81 \<and> d = 0x9F \<or> b = 0xE3 \<and> c = 0x80 \<and> d = 0x80) \<and> all_space ds
        | _ \<Rightarrow> False))"

definition fql_Parse :: "string \<Rightarrow> fql_node fql option" where
  "fql_Parse input =
     (if all_space (map of_char input) then Some (Inl (FqlError 0 ''empty query''))
      else if length input > maxQueryLen then Some (Inl (FqlError 0 ''query too long (max %d bytes)''))
      else (case lex input of Inl e \<Rightarrow> Some (Inl e)
        | Inr tokens \<Rightarrow> pbind (parseOr (maxParseDepth + 1) 0 tokens) (\<lambda>(node, p).
            if tk_Kind (peek p) \<noteq> TokenEOF then Some (Inl (FqlError (tk_Pos (peek p)) ''unexpected %q''))
            else Some (Inr node))))"

section \<open>The parser returns\<close>

text \<open>The shape of a tree the parser builds: positions inside the text, joins of at least two, lists of at least one.\<close>

fun node_wf :: "nat \<Rightarrow> fql_node \<Rightarrow> bool" where
  "node_wf N (Logical op es pos) \<longleftrightarrow> pos \<le> N \<and> 2 \<le> length es \<and> list_all (node_wf N) es"
| "node_wf N (NotNode e pos) \<longleftrightarrow> pos \<le> N \<and> node_wf N e"
| "node_wf N (CompareNode fn f op l pos) \<longleftrightarrow> pos \<le> N \<and> fd_Pos f \<le> N \<and> li_Pos l \<le> N"
| "node_wf N (InNode fn f ls pos) \<longleftrightarrow> pos \<le> N \<and> fd_Pos f \<le> N \<and> ls \<noteq> [] \<and> list_all (\<lambda>l. li_Pos l \<le> N) ls"
| "node_wf N (RangeNode fn f lo hi pos) \<longleftrightarrow> pos \<le> N \<and> fd_Pos f \<le> N \<and> li_Pos lo \<le> N \<and> li_Pos hi \<le> N"
| "node_wf N (HasNode f pos) \<longleftrightarrow> pos \<le> N \<and> fd_Pos f \<le> N"
| "node_wf N (StringMatchNode k f l pos) \<longleftrightarrow> pos \<le> N \<and> fd_Pos f \<le> N \<and> li_Pos l \<le> N"
| "node_wf N (MatchesNode q pos) \<longleftrightarrow> pos \<le> N"
| "node_wf N (Traversal d r e pos) \<longleftrightarrow> pos \<le> N \<and> node_wf N e"

text \<open>How deep a recursion over the tree goes.\<close>

fun height :: "fql_node \<Rightarrow> nat" where
  "height (Logical op es pos) = Suc (foldr max (map height es) 0)"
| "height (NotNode e pos) = Suc (height e)"
| "height (Traversal d r e pos) = Suc (height e)"
| "height _ = 1"

lemma height_joined: "es \<noteq> [] \<Longrightarrow> (\<And>e. e \<in> set es \<Longrightarrow> height e \<le> h) \<Longrightarrow> height (joined op es) \<le> Suc h"
proof -
  have "(\<And>e. e \<in> set xs \<Longrightarrow> height e \<le> h) \<Longrightarrow> foldr max (map height xs) 0 \<le> h" for xs by (induction xs) auto
  moreover assume "es \<noteq> []" "\<And>e. e \<in> set es \<Longrightarrow> height e \<le> h"
  ultimately show ?thesis by (auto simp: joined_def le_SucI split: list.split)
qed

lemma node_wf_pos: "node_wf N e \<Longrightarrow> Position e \<le> N"
  by (cases e) auto

lemma node_wf_joined: "es \<noteq> [] \<Longrightarrow> (\<And>e. e \<in> set es \<Longrightarrow> node_wf N e) \<Longrightarrow> node_wf N (joined op es)"
  by (auto simp: joined_def list_all_iff node_wf_pos split: list.split)

text \<open>The tokens from some position on: they end with the end-of-query token and their positions are inside the text.\<close>

definition fits :: "nat \<Rightarrow> nat \<Rightarrow> Token list \<Rightarrow> bool" where
  "fits N k p \<longleftrightarrow> p \<noteq> [] \<and> tk_Kind (last p) = TokenEOF \<and> (\<forall>t\<in>set p. tk_Pos t \<le> N) \<and> length p \<le> k"

text \<open>\<open>step N Q r\<close>: there is an answer; an error is inside the text, a result satisfies \<open>Q\<close>.\<close>

definition step :: "nat \<Rightarrow> ('a \<Rightarrow> Token list \<Rightarrow> bool) \<Rightarrow> ('a \<times> Token list) fql option \<Rightarrow> bool" where
  "step N Q r \<longleftrightarrow> (case r of None \<Rightarrow> False | Some (Inl e) \<Rightarrow> err_Pos e \<le> N | Some (Inr (x, p)) \<Rightarrow> Q x p)"

lemma step_simps [simp]:
  "\<not> step N Q None" "step N Q (Some (Inl e)) \<longleftrightarrow> err_Pos e \<le> N" "step N Q (Some (Inr (x, p))) \<longleftrightarrow> Q x p"
  by (simp_all add: step_def)

lemma step_bind:
  assumes "step N Q r" "\<And>x p. Q x p \<Longrightarrow> step N R (k (x, p))"
  shows "step N R (pbind r k)"
proof (cases r)
  case (Some a)
  with assms show ?thesis by (cases a) (auto simp: pbind_def)
qed (use assms in simp)

lemma step_rbind:
  assumes "step N Q (Some r)" "\<And>x p. Q x p \<Longrightarrow> step N R (Some (k (x, p)))"
  shows "step N R (Some (rbind r k))"
  using assms by (cases r) auto

lemma step_mono: "step N Q r \<Longrightarrow> (\<And>x p. Q x p \<Longrightarrow> R x p) \<Longrightarrow> step N R r"
  by (auto simp: step_def split: option.splits sum.splits)

lemma fits_peek [simp]: "fits N k p \<Longrightarrow> tk_Pos (peek p) \<le> N"
  by (cases p) (auto simp: fits_def peek_def)

lemma fits_next: "fits N k p \<Longrightarrow> fits N k (parser_next p)"
  by (cases p) (auto simp: fits_def parser_next_def peek_def split: if_splits)

lemma fits_next_less: "fits N k p \<Longrightarrow> tk_Kind (peek p) \<noteq> TokenEOF \<Longrightarrow> fits N (k - 1) (parser_next p) \<and> 0 < k"
  by (cases p) (auto simp: fits_def parser_next_def peek_def split: if_splits)

lemma fits_length: "fits N k p \<Longrightarrow> fits N (length p) p \<and> length p \<le> k"
  by (simp add: fits_def)

lemma fits_mono: "fits N k p \<Longrightarrow> k \<le> l \<Longrightarrow> fits N l p"
  by (simp add: fits_def)

lemma keyword_ident: "keyword w p \<Longrightarrow> tk_Kind (peek p) \<noteq> TokenEOF"
  by (simp add: keyword_def)

lemma step_expect: "fits N k p \<Longrightarrow> step N (\<lambda>t p'. tk_Pos t \<le> N \<and> fits N k p') (Some (expect kind p))"
  by (simp add: expect_def fits_next)

lemma step_field: "fits N k p \<Longrightarrow> step N (\<lambda>f p'. fd_Pos f \<le> N \<and> fits N k p') (Some (parseField p))"
  unfolding parseField_def
  by (rule step_rbind [OF step_expect], assumption) (auto intro!: step_rbind [OF step_expect] fits_next)

lemma step_operand: "fits N k p \<Longrightarrow> step N (\<lambda>x p'. fd_Pos (snd x) \<le> N \<and> fits N k p') (Some (parseOperand p))"
proof -
  assume p: "fits N k p"
  have "step N (\<lambda>x p'. fd_Pos (snd x) \<le> N \<and> fits N k p') (Some (map_sum id (\<lambda>(f, p). ((FuncNone, f), p)) (parseField p)))"
    using step_field [OF p] by (cases "parseField p") auto
  then show ?thesis using fits_next [OF fits_next [OF p]]
    by (auto simp: parseOperand_def Let_def intro!: step_rbind [OF step_field] step_rbind [OF step_expect] split: option.split)
qed

lemma step_op: "fits N k p \<Longrightarrow> step N (\<lambda>op p'. fits N k p') (Some (parseCompareOp p))"
  by (simp add: parseCompareOp_def Let_def fits_next split: option.split)

lemma step_literal: "fits N k p \<Longrightarrow> step N (\<lambda>l p'. li_Pos l \<le> N \<and> fits N k p') (Some (parseLiteral p))"
  by (auto simp: parseLiteral_def Let_def literal_def intro!: fits_next split: TokenKind.split)

lemmas step_intros = step_rbind [OF step_expect] step_rbind [OF step_field] step_rbind [OF step_operand]
  step_rbind [OF step_op] step_rbind [OF step_literal] fits_next

definition leaf :: "nat \<Rightarrow> nat \<Rightarrow> fql_node \<Rightarrow> Token list \<Rightarrow> bool" where
  "leaf N k e p \<longleftrightarrow> node_wf N e \<and> height e = 1 \<and> fits N k p"

lemma step_leaf:
  assumes "fits N k p"
  shows "step N (leaf N k) (Some (parseRange p))" "step N (leaf N k) (Some (parseHas p))"
    "step N (leaf N k) (Some (parseStringMatch kind p))" "step N (leaf N k) (Some (parseMatches p))"
  using assms by (auto simp: parseRange_def parseHas_def parseStringMatch_def parseMatches_def leaf_def Let_def intro!: step_intros)

lemma step_values:
  "fits N k p \<Longrightarrow> k < n \<Longrightarrow> step N (\<lambda>ls p'. ls \<noteq> [] \<and> list_all (\<lambda>l. li_Pos l \<le> N) ls \<and> fits N k p') (parseValues n p)"
proof (induction n arbitrary: k p)
  case (Suc n)
  show ?case
  proof (cases "parseLiteral p")
    case (Inl e)
    then show ?thesis using step_literal [OF Suc.prems(1)] by simp
  next
    case (Inr a)
    then obtain l p' where a: "parseLiteral p = Inr (l, p')" "li_Pos l \<le> N" "fits N k p'"
      using step_literal [OF Suc.prems(1)] by (cases a) auto
    have "step N (\<lambda>ls q. ls \<noteq> [] \<and> list_all (\<lambda>l. li_Pos l \<le> N) ls \<and> fits N (k - 1) q) (parseValues n (parser_next p'))"
      if "tk_Kind (peek p') = TokenComma"
      using Suc.IH [of "k - 1"] fits_next_less [OF a(3)] that Suc.prems(2) by auto
    moreover have "fits N (k - Suc 0) q \<Longrightarrow> fits N k q" for q by (auto simp: fits_def)
    ultimately show ?thesis using a
      by (cases "parseValues n (parser_next p')") (auto simp: step_def split: sum.splits)
  qed
qed simp

lemma step_in:
  assumes "fits N k p" "fd_Pos field \<le> N" "pos \<le> N"
  shows "step N (leaf N k) (parseIn fn field pos p)"
proof (cases "expect TokenLParen p")
  case (Inl e)
  then show ?thesis using step_expect [OF assms(1), of TokenLParen] by (simp add: parseIn_def)
next
  case (Inr a)
  obtain t q where a: "a = (t, q)" by (cases a)
  have q: "fits N k q" using step_expect [OF assms(1), of TokenLParen] Inr a by simp
  have v: "step N (\<lambda>ls p'. ls \<noteq> [] \<and> list_all (\<lambda>l. li_Pos l \<le> N) ls \<and> fits N (length q) p') (parseValues (length q + 1) q)"
    by (rule step_values) (use fits_length [OF q] in simp_all)
  then obtain r where r: "parseValues (length q + 1) q = Some r" by (cases "parseValues (length q + 1) q") auto
  have "step N (\<lambda>ls p'. ls \<noteq> [] \<and> list_all (\<lambda>l. li_Pos l \<le> N) ls \<and> fits N k p') (Some r)"
    using v fits_length [OF q] unfolding r by (auto elim!: step_mono intro: fits_mono)
  then show ?thesis unfolding parseIn_def Inr a sum.case prod.case r option.map
    by (rule step_rbind) (use assms in \<open>auto simp: leaf_def intro!: step_intros\<close>)
qed

lemma step_comparison:
  assumes p: "fits N k p"
  shows "step N (leaf N k) (parseComparisonOrIn p)"
proof (cases "parseOperand p")
  case (Inl e)
  then show ?thesis using step_operand [OF p] by (simp add: parseComparisonOrIn_def)
next
  case (Inr a)
  obtain fn field q where a: "a = ((fn, field), q)" by (cases a) auto
  then have q: "fits N k q" "fd_Pos field \<le> N" using step_operand [OF p] Inr by auto
  then show ?thesis using p step_in [OF fits_next [OF q(1)] q(2)] unfolding parseComparisonOrIn_def Inr a Let_def
    by (auto simp: leaf_def intro!: step_intros)
qed

section \<open>Depth\<close>

definition result_ok :: "nat \<Rightarrow> nat \<Rightarrow> nat \<Rightarrow> fql_node \<Rightarrow> Token list \<Rightarrow> bool" where
  "result_ok N h k e p \<longleftrightarrow> node_wf N e \<and> height e \<le> h \<and> fits N k p"

lemma leaf_result: "leaf N k e p \<Longrightarrow> 1 \<le> h \<Longrightarrow> result_ok N h k e p"
  by (simp add: leaf_def result_ok_def)

text \<open>What a caller may assume of \<^verbatim>\<open>parseOr\<close> at a depth the parser has entered.\<close>

definition rec_ok :: "nat \<Rightarrow> fql_rec \<Rightarrow> nat \<Rightarrow> bool" where
  "rec_ok N rec depth \<longleftrightarrow>
     (\<forall>d k p. depth \<le> d \<and> d \<le> maxParseDepth \<and> fits N k p \<longrightarrow> step N (result_ok N (3 * (maxParseDepth - d)) k) (rec d p))"

lemma rec_okD: "rec_ok N rec depth \<Longrightarrow> depth \<le> d \<Longrightarrow> d \<le> maxParseDepth \<Longrightarrow> fits N k p \<Longrightarrow>
    step N (result_ok N (3 * (maxParseDepth - d)) k) (rec d p)"
  by (simp add: rec_ok_def)

lemma step_primary:
  assumes rec: "rec_ok N rec depth" and d: "depth \<le> d" "d \<le> maxParseDepth" and p: "fits N k p"
  shows "step N (result_ok N (3 * (maxParseDepth - d) + 1) k) (parsePrimary rec d p)"
proof -
  have paren: "step N (result_ok N (3 * (maxParseDepth - d) + 1) k) (pbind (rec d (parser_next p)) (\<lambda>(inner, p).
      Some (rbind (expect TokenRParen p) (\<lambda>(_, p). Inr (inner, p)))))"
    by (rule step_bind [OF rec_okD [OF rec d fits_next [OF p]]]) (auto simp: result_ok_def intro!: step_intros)
  have trav: "step N (result_ok N (3 * (maxParseDepth - d) + 1) k) (parseTraversal rec d dir p)" for dir
    unfolding parseTraversal_def Let_def
  proof (rule step_bind [where Q = "\<lambda>rel p. fits N k p"])
    show "step N (\<lambda>rel p. fits N k p) (Some (rbind (expect TokenLParen (parser_next p)) (\<lambda>(_, p).
            rbind (expect TokenIdent p) (\<lambda>(rel, p). rbind (expect TokenRParen p) (\<lambda>(_, p).
            rbind (expect TokenLBrace p) (\<lambda>(_, p). Inr (rel, p)))))))"
      using p by (auto intro!: step_intros)
  next
    fix rel q assume "fits N k q"
    from rec_okD [OF rec d this] show "step N (result_ok N (3 * (maxParseDepth - d) + 1) k) (case (rel, q) of (rel, p') \<Rightarrow>
        pbind (rec d p') (\<lambda>(inner, p'). Some (rbind (expect TokenRBrace p') (\<lambda>(_, p'). Inr (Traversal dir (tk_Text rel) inner (tk_Pos (peek p)), p')))))"
      unfolding prod.case by (rule step_bind) (use p in \<open>auto simp: result_ok_def intro!: step_intros\<close>)
  qed
  have leafs: "step N (leaf N k) r \<Longrightarrow> step N (result_ok N (3 * (maxParseDepth - d) + 1) k) r" for r
    by (erule step_mono) (rule leaf_result, assumption, simp)
  show ?thesis unfolding parsePrimary_def Let_def
    using paren trav leafs step_leaf [OF p] step_comparison [OF p] p by (auto split: option.split)
qed

lemma step_unary:
  assumes "rec_ok N rec depth" "depth \<le> d" "d \<le> maxParseDepth" "fits N k p" "k < n"
  shows "step N (result_ok N (3 * (maxParseDepth - d) + 1) k) (parseUnary rec n d p)"
  using assms(2-)
proof (induction n arbitrary: d k p)
  case (Suc n)
  show ?case
  proof (cases "keyword ''not'' p \<and> d < maxParseDepth")
    case True
    have "step N (result_ok N (3 * (maxParseDepth - (d + 1)) + 1) (k - 1)) (parseUnary rec n (d + 1) (parser_next p))"
      by (rule Suc.IH) (use Suc.prems True fits_next_less [OF Suc.prems(3) keyword_ident, of "''not''"] in auto)
    then have "step N (result_ok N (3 * (maxParseDepth - d) + 1) k)
        (pbind (parseUnary rec n (d + 1) (parser_next p)) (\<lambda>(inner, p'). Some (Inr (NotNode inner (tk_Pos (peek p)), p'))))"
      by (rule step_bind) (use Suc.prems True in \<open>auto simp: result_ok_def intro: fits_mono\<close>)
    then show ?thesis using True by (simp add: enter_def)
  next
    case False
    then show ?thesis using step_primary [OF assms(1) Suc.prems(1-3)] Suc.prems(3) by (auto simp: enter_def)
  qed
qed simp

definition list_ok :: "nat \<Rightarrow> nat \<Rightarrow> fql_node list \<Rightarrow> bool" where
  "list_ok N h es \<longleftrightarrow> es \<noteq> [] \<and> (\<forall>e\<in>set es. node_wf N e \<and> height e \<le> h)"

lemma list_ok_joined: "list_ok N h es \<Longrightarrow> fits N k p \<Longrightarrow> result_ok N (Suc h) k (joined op es) p"
  by (simp add: list_ok_def result_ok_def node_wf_joined height_joined)

lemma step_andLoop:
  assumes "rec_ok N rec depth" "depth \<le> d" "d \<le> maxParseDepth" "fits N k p" "k < n" "list_ok N (3 * (maxParseDepth - d) + 1) es"
  shows "step N (result_ok N (3 * (maxParseDepth - d) + 2) k) (andLoop rec n d es p)"
  using assms(4-)
proof (induction n arbitrary: k es p)
  case (Suc n)
  show ?case
  proof (cases "keyword ''and'' p")
    case True
    note less = fits_next_less [OF Suc.prems(1) keyword_ident [OF True]]
    have "length p \<le> k" using Suc.prems(1) by (simp add: fits_def)
    moreover have "fits N (length p - 1) (parser_next p)" "length p > 0"
      using fits_next_less [OF _ keyword_ident [OF True], of N "length p"] fits_length [OF Suc.prems(1)] by auto
    ultimately have "step N (result_ok N (3 * (maxParseDepth - d) + 1) (k - 1)) (parseUnary rec (length p + 1) d (parser_next p))"
      by (intro step_mono [OF step_unary [OF assms(1-3), of "length p - 1"]])
        (auto simp: result_ok_def intro: fits_mono [of N "length p - Suc 0"])
    then have "step N (result_ok N (3 * (maxParseDepth - d) + 2) k) (pbind (parseUnary rec (length p + 1) d (parser_next p))
        (\<lambda>(right, p). andLoop rec n d (es @ [right]) p))"
    proof (rule step_bind, unfold prod.case)
      fix e q assume "result_ok N (3 * (maxParseDepth - d) + 1) (k - 1) e q"
      then have "step N (result_ok N (3 * (maxParseDepth - d) + 2) (k - 1)) (andLoop rec n d (es @ [e]) q)"
        by (intro Suc.IH) (use Suc.prems less in \<open>auto simp: result_ok_def list_ok_def\<close>)
      then show "step N (result_ok N (3 * (maxParseDepth - d) + 2) k) (andLoop rec n d (es @ [e]) q)"
        by (rule step_mono) (auto simp: result_ok_def intro: fits_mono [of N "k - Suc 0"])
    qed
    with True show ?thesis by simp
  qed (use list_ok_joined [OF Suc.prems(3,1)] in simp)
qed simp

lemma step_and:
  assumes "rec_ok N rec depth" "depth \<le> d" "d \<le> maxParseDepth" "fits N k p"
  shows "step N (result_ok N (3 * (maxParseDepth - d) + 2) k) (parseAnd rec d p)"
proof -
  have "step N (result_ok N (3 * (maxParseDepth - d) + 1) (length p)) (parseUnary rec (length p + 1) d p)"
    by (rule step_unary [OF assms(1-3)]) (use fits_length [OF assms(4)] in auto)
  then show ?thesis unfolding parseAnd_def
  proof (rule step_bind, unfold prod.case)
    fix e q assume r: "result_ok N (3 * (maxParseDepth - d) + 1) (length p) e q"
    then have "step N (result_ok N (3 * (maxParseDepth - d) + 2) (length q)) (andLoop rec (length q + 1) d [e] q)"
      by (intro step_andLoop [OF assms(1-3)]) (use fits_length [of N "length p" q] in \<open>auto simp: result_ok_def list_ok_def\<close>)
    then show "step N (result_ok N (3 * (maxParseDepth - d) + 2) k) (andLoop rec (length q + 1) d [e] q)"
      using r assms(4) by (auto elim!: step_mono simp: result_ok_def fits_def)
  qed
qed

lemma step_orLoop:
  assumes "rec_ok N rec depth" "depth \<le> d" "d \<le> maxParseDepth" "fits N k p" "k < n" "list_ok N (3 * (maxParseDepth - d) + 2) es"
  shows "step N (result_ok N (3 * (maxParseDepth - d) + 3) k) (orLoop rec n d es p)"
  using assms(4-)
proof (induction n arbitrary: k es p)
  case (Suc n)
  show ?case
  proof (cases "keyword ''or'' p")
    case True
    note less = fits_next_less [OF Suc.prems(1) keyword_ident [OF True]]
    have "step N (result_ok N (3 * (maxParseDepth - d) + 2) (k - 1)) (parseAnd rec d (parser_next p))"
      by (rule step_and [OF assms(1-3)]) (use less in simp)
    then have "step N (result_ok N (3 * (maxParseDepth - d) + 3) k) (pbind (parseAnd rec d (parser_next p))
        (\<lambda>(right, p). orLoop rec n d (es @ [right]) p))"
    proof (rule step_bind, unfold prod.case)
      fix e q assume "result_ok N (3 * (maxParseDepth - d) + 2) (k - 1) e q"
      then have "step N (result_ok N (3 * (maxParseDepth - d) + 3) (k - 1)) (orLoop rec n d (es @ [e]) q)"
        by (intro Suc.IH) (use Suc.prems less in \<open>auto simp: result_ok_def list_ok_def\<close>)
      then show "step N (result_ok N (3 * (maxParseDepth - d) + 3) k) (orLoop rec n d (es @ [e]) q)"
        by (rule step_mono) (auto simp: result_ok_def intro: fits_mono [of N "k - Suc 0"])
    qed
    with True show ?thesis by simp
  next
    case False
    then show ?thesis using list_ok_joined [OF Suc.prems(3,1)] by (simp add: numeral_3_eq_3)
  qed
qed simp

lemma step_or:
  "maxParseDepth < n + d \<Longrightarrow> d \<le> maxParseDepth \<Longrightarrow> fits N k p \<Longrightarrow> step N (result_ok N (3 * (maxParseDepth - d)) k) (parseOr n d p)"
proof (induction n arbitrary: d k p)
  case (Suc n)
  show ?case
  proof (cases "d < maxParseDepth")
    case True
    have rec: "rec_ok N (parseOr n) (d + 1)" using Suc.IH Suc.prems(1) by (simp add: rec_ok_def)
    have h: "3 * (maxParseDepth - (d + 1)) + 3 = 3 * (maxParseDepth - d)" using True by simp
    have "step N (result_ok N (3 * (maxParseDepth - (d + 1)) + 2) (length p)) (parseAnd (parseOr n) (d + 1) p)"
      by (rule step_and [OF rec]) (use True fits_length [OF Suc.prems(3)] in auto)
    then have "step N (result_ok N (3 * (maxParseDepth - d)) k) (pbind (parseAnd (parseOr n) (d + 1) p)
        (\<lambda>(left, p). orLoop (parseOr n) (length p + 1) (d + 1) [left] p))"
    proof (rule step_bind, unfold prod.case)
      fix e q assume r: "result_ok N (3 * (maxParseDepth - (d + 1)) + 2) (length p) e q"
      then have "step N (result_ok N (3 * (maxParseDepth - (d + 1)) + 3) (length q)) (orLoop (parseOr n) (length q + 1) (d + 1) [e] q)"
        by (intro step_orLoop [OF rec]) (use True fits_length [of N "length p" q] in \<open>auto simp: result_ok_def list_ok_def\<close>)
      then show "step N (result_ok N (3 * (maxParseDepth - d)) k) (orLoop (parseOr n) (length q + 1) (d + 1) [e] q)"
        unfolding h using r Suc.prems(3) by (auto elim!: step_mono simp: result_ok_def fits_def)
    qed
    then show ?thesis using True by (simp add: enter_def)
  next
    case False
    then show ?thesis using Suc.prems(3) by (simp add: enter_def)
  qed
qed simp

section \<open>The lexer\<close>

lemma token_simps [simp]: "tk_Kind (token k t pos) = k" "tk_Text (token k t pos) = t" "tk_Pos (token k t pos) = pos"
  by (simp_all add: token_def)

lemma lex_number_pos: "lex_number n c cs = Inl e \<Longrightarrow> err_Pos e \<le> n"
  by (auto simp: lex_number_def Let_def split: list.splits if_splits)

lemma lex_token_pos: "lex_token n pos c cs = Inl e \<Longrightarrow> pos \<le> n \<Longrightarrow> err_Pos e \<le> n"
  by (cases "lex_number n c cs")
    (auto simp: lex_token_def simp del: takeWhile.simps dropWhile.simps dest: lex_number_pos split: if_splits option.splits)

lemma lex_token_kind: "lex_token n pos c cs = Inr (k, t, rest) \<Longrightarrow> k \<noteq> TokenEOF"
proof -
  have "punctuation c \<noteq> Some TokenEOF" by (simp add: punctuation_def)
  then show "lex_token n pos c cs = Inr (k, t, rest) \<Longrightarrow> k \<noteq> TokenEOF"
    by (auto simp: lex_token_def map_sum_Inr simp del: takeWhile.simps dropWhile.simps split: if_splits option.splits)
qed

lemma lex_one_pos:
  "lex_one n c cs = Inl e \<Longrightarrow> err_Pos e \<le> n"
  "lex_one n c cs = Inr (Some t, rest) \<Longrightarrow> tk_Pos t \<le> n \<and> tk_Kind t \<noteq> TokenEOF"
proof -
  let ?r = "lex_token n (n - length (c # cs)) c cs"
  show "lex_one n c cs = Inl e \<Longrightarrow> err_Pos e \<le> n"
    by (cases ?r) (auto simp: lex_one_def Let_def dest: lex_token_pos split: if_splits)
  show "lex_one n c cs = Inr (Some t, rest) \<Longrightarrow> tk_Pos t \<le> n \<and> tk_Kind t \<noteq> TokenEOF"
    by (auto simp: lex_one_def Let_def map_sum_Inr dest: lex_token_kind split: if_splits)
qed

text \<open>The token list has its end-of-query token at the end and nowhere else.\<close>

lemma lex_from_ok:
  "case lex_from n s of Inl e \<Rightarrow> err_Pos e \<le> n
   | Inr ts \<Rightarrow> fits n (length ts) ts \<and> length ts \<le> length s + 1 \<and> (\<forall>t\<in>set (butlast ts). tk_Kind t \<noteq> TokenEOF)"
proof (induction n s rule: lex_from.induct)
  case (1 n)
  then show ?case by (simp add: fits_def token_def)
next
  case (2 n c cs)
  show ?case
  proof (cases "lex_one n c cs")
    case (Inl e)
    then show ?thesis using lex_one_pos(1) by simp
  next
    case (Inr a)
    obtain t rest where a: "a = (t, rest)" by (cases a)
    note IH = 2 [OF Inr a [symmetric]] and len = lex_one_shorter [OF Inr [unfolded a]]
    show ?thesis
    proof (cases t)
      case None
      then show ?thesis using IH len by (auto simp: Inr a split: sum.splits)
    next
      case (Some u)
      from lex_one_pos(2) [OF Inr [unfolded a Some]] show ?thesis using IH len
        by (auto simp: Inr a Some fits_def split: sum.splits)
    qed
  qed
qed

lemma lex_ok:
  "lex s = Inl e \<Longrightarrow> err_Pos e \<le> length s"
  "lex s = Inr ts \<Longrightarrow> fits (length s) (length ts) ts \<and> length ts \<le> length s + 1"
  using lex_from_ok [of "length s" s] by (auto simp: lex_def)

text \<open>Parsing always answers. An error points into the text; a tree is well formed and at most three levels high for every
  level of nesting the parser allows.\<close>

lemma fql_Parse_ok:
  "case fql_Parse s of None \<Rightarrow> False | Some (Inl e) \<Rightarrow> err_Pos e \<le> length s
   | Some (Inr node) \<Rightarrow> node_wf (length s) node \<and> height node \<le> 3 * maxParseDepth \<and> length s \<le> maxQueryLen"
proof (cases "all_space (map of_char s) \<or> length s > maxQueryLen")
  case True
  then show ?thesis by (auto simp: fql_Parse_def)
next
  case False
  show ?thesis
  proof (cases "lex s")
    case (Inl e)
    with False show ?thesis using lex_ok(1) by (simp add: fql_Parse_def)
  next
    case (Inr ts)
    have "step (length s) (result_ok (length s) (3 * (maxParseDepth - 0)) (length ts)) (parseOr (maxParseDepth + 1) 0 ts)"
      by (rule step_or) (use lex_ok(2) [OF Inr] in auto)
    then obtain r where r: "parseOr (maxParseDepth + 1) 0 ts = Some r"
      "step (length s) (result_ok (length s) (3 * maxParseDepth) (length ts)) (Some r)"
      by (cases "parseOr (maxParseDepth + 1) 0 ts") auto
    show ?thesis
    proof (cases r)
      case (Inl e)
      with r False Inr show ?thesis by (simp add: fql_Parse_def pbind_def)
    next
      case (Inr a)
      then show ?thesis using r False \<open>lex s = Inr ts\<close> unfolding fql_Parse_def
        by (cases a) (auto simp: pbind_def result_ok_def simp del: parseOr.simps)
    qed
  qed
qed

end
