(* ===== verification/Query_Bind.thy ===== *)
theory Query_Bind
  imports Value_Usecases Fql "HOL-Library.AList"
begin

text \<open>
  Binding (\<^verbatim>\<open>application/query\<close>): a parsed query is resolved against the schema into a tree that carries definitions and
  typed values instead of names. A Go map is the list of its entries, one per key, changed by \<open>AList.update\<close>; the
  context and the repositories are those of the value use cases, with the relationship definitions beside them. A
  binding failure is a validation error, without the position it carries as a detail.
\<close>

section \<open>Bound trees (bound.go)\<close>

datatype bound =
    BoundLogical LogicalOp "bound list"
  | BoundNot bound
  | BoundCompare AttrSnapshot bool AggFunc CompareOp gvalue
  | BoundIn AttrSnapshot bool "gvalue list"
  | BoundRange AttrSnapshot bool gvalue gvalue
  | BoundHas AttrSnapshot bool
  | BoundStringMatch AttrSnapshot bool StringMatchKind string
  | BoundType "TypeDefinitionID list" bool
  | BoundMatches string "string list option"
  | BoundTraversal RelDefSnapshot Direction bound

section \<open>Relationship definitions of a set of types (memory/instances.go)\<close>

definition relDefRepo_List :: "keyset_lib \<Rightarrow> (ulid \<Rightarrow> string) \<Rightarrow> reldef_store \<Rightarrow> TenantID \<Rightarrow> TypeDefinitionID list \<Rightarrow> bool \<Rightarrow> Page \<Rightarrow>
    (RelDefinition list \<times> int) result" where
  "relDefRepo_List klib idString defs tenant typeIDs includeArchived page =
     map_sum id (map_prod (map RehydrateDefinition) id)
       (paginate klib (sortByID (\<lambda>d. idString (rds_ID d)) (filter (\<lambda>d.
            rds_TenantID d = tenant \<and> (includeArchived \<or> rds_ArchivedAt d = None) \<and>
            (typeIDs = [] \<or> rds_ParentTypeID d \<in> set typeIDs \<or> rds_ChildTypeID d \<in> set typeIDs)) defs))
          page idKeyset (\<lambda>d. idKey (idString (rds_ID d))))"

section \<open>Scopes\<close>

definition maxTraversalDepth :: nat where "maxTraversalDepth = 5"

record qscope =
  sc_attrs :: "(string \<times> AttrSnapshot) list"
  sc_linkAttrs :: "(string \<times> AttrSnapshot) list option"
  sc_rels :: "(string \<times> RelDefSnapshot) list"
  sc_depth :: nat
  sc_ambiguous :: "string list"

record qbind =
  bi_cx :: vctx
  bi_rp :: vrepos
  bi_defs :: reldef_store
  bi_searchIndex :: bool
  bi_typesByName :: "(string \<times> TypeSnapshot) list"

abbreviation bi_access :: "qbind \<Rightarrow> Access" where
  "bi_access b \<equiv> cx_access (bi_cx b)"

abbreviation bi_listAll :: "qbind \<Rightarrow> TypeDefinitionID \<Rightarrow> AttributeDefinition list result" where
  "bi_listAll b \<equiv> ListAllForType (attrRepo_ListByTypeDefinition (bi_cx b) (rp_attrs (bi_rp b)))"

text \<open>The page of 500 that binding asks for.\<close>

definition first_page :: Page where
  "first_page = \<lparr>pg_Limit = 500, pg_Cursor = [], pg_WantTotal = False, pg_Stable = False\<rparr>"

text \<open>The attributes a scope takes from one type: live ones that the principal may read.\<close>

definition visible :: "qbind \<Rightarrow> AttributeDefinition \<Rightarrow> bool" where
  "visible b a \<longleftrightarrow> \<not> attr_IsArchived a \<and> CanRead (bi_access b) (ad_internalName a)"

definition add_attrs :: "qbind \<Rightarrow> AttributeDefinition list \<Rightarrow> (string \<times> AttrSnapshot) list \<Rightarrow> (string \<times> AttrSnapshot) list" where
  "add_attrs b as m = fold (\<lambda>a. AList.update (ad_internalName a) (attr_Snapshot a)) (filter (visible b) as) m"

fun scope_types :: "qbind \<Rightarrow> TypeDefinition list \<Rightarrow> (string \<times> AttrSnapshot) list \<Rightarrow> TypeDefinitionID list \<Rightarrow>
    ((string \<times> AttrSnapshot) list \<times> TypeDefinitionID list) result" where
  "scope_types b [] m ids = Inr (m, ids)"
| "scope_types b (t # types) m ids =
     (if type_IsArchived t then scope_types b types m ids
      else rbind (bi_listAll b (td_id t)) (\<lambda>as. scope_types b types (add_attrs b as m) (ids @ [td_id t])))"

definition scopeFor :: "qbind \<Rightarrow> TypeDefinition \<Rightarrow> nat \<Rightarrow> (qscope \<times> TypeDefinition list) result" where
  "scopeFor b t depth =
     rbind (Chain (types_get (bi_rp b)) t) (\<lambda>chain.
     rbind (Descendants (typeDefRepo_ListChildren (rp_types (bi_rp b))) t) (\<lambda>descendants.
     rbind (scope_types b (chain @ descendants) [] []) (\<lambda>(attrs, typeIDs).
     rbind (relDefRepo_List (cx_klib (bi_cx b)) (cx_idString (bi_cx b)) (bi_defs b) (cx_tenant (bi_cx b)) typeIDs False first_page)
       (\<lambda>(rels, _).
       Inr (\<lparr>sc_attrs = attrs, sc_linkAttrs = None,
             sc_rels = fold (\<lambda>r. AList.update (rd_internalName r) (rd_Snapshot r)) rels [],
             sc_depth = depth, sc_ambiguous = []\<rparr>, t # descendants)))))"

text \<open>The link attributes: the nearest definition of the inheritance chain wins.\<close>

definition add_link_attrs :: "qbind \<Rightarrow> AttributeDefinition list \<Rightarrow> (string \<times> AttrSnapshot) list \<Rightarrow> (string \<times> AttrSnapshot) list" where
  "add_link_attrs b as m =
     fold (\<lambda>a m. if ad_internalName a \<in> fst ` set m then m else AList.update (ad_internalName a) (attr_Snapshot a) m)
       (filter (visible b) as) m"

fun link_attrs_from :: "qbind \<Rightarrow> nat \<Rightarrow> RelDefSnapshot \<Rightarrow> (string \<times> AttrSnapshot) list \<Rightarrow> (string \<times> AttrSnapshot) list result" where
  "link_attrs_from b 0 current m = Inr m"
| "link_attrs_from b (Suc n) current m =
     rbind (bi_listAll b (rds_AttributeSetID current)) (\<lambda>as.
       let m = add_link_attrs b as m
       in case rds_ExtendsID current of None \<Rightarrow> Inr m
          | Some i \<Rightarrow> rbind (relDefRepo_Get (bi_defs b) i) (\<lambda>base. link_attrs_from b n (rd_Snapshot base) m))"

definition linkAttrsFor :: "qbind \<Rightarrow> RelDefSnapshot \<Rightarrow> (string \<times> AttrSnapshot) list result" where
  "linkAttrsFor b def = link_attrs_from b (maxTraversalDepth * 2) def []"

text \<open>The union of both endpoints for \<^verbatim>\<open>linked()\<close>.\<close>

definition merge_attr :: "string \<times> AttrSnapshot \<Rightarrow> qscope \<Rightarrow> qscope" where
  "merge_attr na s =
     (case map_of (sc_attrs s) (fst na) of
        None \<Rightarrow> s\<lparr>sc_attrs := AList.update (fst na) (snd na) (sc_attrs s)\<rparr>
      | Some existing \<Rightarrow> if as_ID existing = as_ID (snd na) then s else s\<lparr>sc_ambiguous := fst na # sc_ambiguous s\<rparr>)"

definition merge_rel :: "string \<times> RelDefSnapshot \<Rightarrow> qscope \<Rightarrow> qscope" where
  "merge_rel nr s =
     (if fst nr \<in> fst ` set (sc_rels s) then s else s\<lparr>sc_rels := AList.update (fst nr) (snd nr) (sc_rels s)\<rparr>)"

definition merge_scopes :: "qscope \<Rightarrow> qscope \<Rightarrow> qscope" where
  "merge_scopes merged other = fold merge_rel (sc_rels other) (fold merge_attr (sc_attrs other) merged)"

definition scope_of :: "qbind \<Rightarrow> nat \<Rightarrow> TypeDefinitionID \<Rightarrow> qscope result" where
  "scope_of b depth i = rbind (types_get (bi_rp b) i) (\<lambda>t. map_sum id fst (scopeFor b t depth))"

definition traversalScope :: "qbind \<Rightarrow> Direction \<Rightarrow> RelDefSnapshot \<Rightarrow> nat \<Rightarrow> qscope result" where
  "traversalScope b dir def depth =
     (if dir \<noteq> DirAny then scope_of b depth (if dir = DirParent then rds_ParentTypeID def else rds_ChildTypeID def)
      else rbind (scope_of b depth (rds_ParentTypeID def)) (\<lambda>merged.
           if rds_ChildTypeID def = rds_ParentTypeID def then Inr merged
           else map_sum id (merge_scopes merged) (scope_of b depth (rds_ChildTypeID def))))"

section \<open>Literals\<close>

text \<open>\<^verbatim>\<open>json.Marshal\<close> of a Go string writes every byte that is not part of a valid encoding as U+FFFD.\<close>

function valid_utf8 :: "nat list \<Rightarrow> nat list" where
  "valid_utf8 [] = []"
| "valid_utf8 (c # bs) =
     (let n = rune_size (c # bs)
      in (if n = 1 \<and> c \<ge> 128 then [0xEF, 0xBF, 0xBD] else take n (c # bs)) @ valid_utf8 (drop n (c # bs)))"
  by pat_completeness auto
termination
  by (relation "measure length") (use rune_size_pos in auto)

definition json_text :: "string \<Rightarrow> string" where
  "json_text s = map char_of (valid_utf8 (map of_char s))"

definition literal_raw :: "Literal \<Rightarrow> rawmsg" where
  "literal_raw lit = (case li_Kind lit of
       LitNumber \<Rightarrow> if json_number (li_Text lit) then Raw (JNum (li_Text lit)) else RawInvalid
     | LitBool \<Rightarrow> if li_Text lit = ''true'' then Raw (JBool True)
         else if li_Text lit = ''false'' then Raw (JBool False) else RawInvalid
     | _ \<Rightarrow> Raw (JStr (json_text (li_Text lit))))"

definition coerce :: "golib \<Rightarrow> DataType \<Rightarrow> Literal \<Rightarrow> gvalue result" where
  "coerce lib dt lit =
     (case ParseValue lib dt (literal_raw lit) of Inl _ \<Rightarrow> Inl (NewValidation ''value %q is not a valid %s: %s'') | Inr v \<Rightarrow> Inr v)"

text \<open>\<^verbatim>\<open>strconv.ParseInt\<close> takes a leading plus sign too.\<close>

definition ParseInt :: "string \<Rightarrow> int option" where
  "ParseInt s = (case s of c # t \<Rightarrow>
       if c = CHR ''+'' then (case t of [] \<Rightarrow> None | d # _ \<Rightarrow> if d = CHR ''-'' then None else parse_int64 t)
       else parse_int64 s
     | [] \<Rightarrow> None)"

definition intLiteral :: "Literal \<Rightarrow> gvalue result" where
  "intLiteral lit = (case ParseInt (li_Text lit) of None \<Rightarrow> Inl (NewValidation ''expected a whole number, got %q'')
     | Some n \<Rightarrow> Inr (NewIntegerValue n))"

definition coerceQuantity :: "qbind \<Rightarrow> AttrSnapshot \<Rightarrow> Literal \<Rightarrow> gvalue result" where
  "coerceQuantity b attr lit =
     (let cx = bi_cx b
      in if li_Kind lit \<noteq> LitNumber then Inl (NewValidation ''quantity comparison expects a number with a unit, got %q'')
         else if li_Unit lit = [] then Inl (NewValidation ''quantity comparison requires a unit, e.g. %q'')
         else case cx_units cx of None \<Rightarrow> Inl (NewValidation ''unit families are not configured in this deployment'')
           | Some units \<Rightarrow>
               if as_UnitFamilyID attr = [] then Inl (NewValidation ''quantity attribute %q has no unit family'')
               else case cx_parseID cx (as_UnitFamilyID attr) of
                   Inl _ \<Rightarrow> Inl (NewValidation ''invalid unit family: %s'')
                 | Inr famID \<Rightarrow>
                     rbind (units (cx_tenant cx) famID) (\<lambda>family.
                     rbind (ToBase (cx_lib cx) (cx_formatF cx) family (li_Text lit) (li_Unit lit)) (\<lambda>base.
                       NewQuantityValue (li_Text lit) (li_Unit lit) base)))"

definition coerceLiteral :: "qbind \<Rightarrow> AttrSnapshot \<Rightarrow> Literal \<Rightarrow> gvalue result" where
  "coerceLiteral b attr lit =
     (if as_DataType attr = DataTypeQuantity then coerceQuantity b attr lit
      else if li_Unit lit \<noteq> [] then Inl (NewValidation ''unit suffix %q is only valid on quantity attributes; %q is %s'')
      else coerce (cx_lib (bi_cx b)) (as_DataType attr) lit)"

section \<open>Binding\<close>

definition resolveField :: "Field \<Rightarrow> qscope \<Rightarrow> (AttrSnapshot \<times> bool) result" where
  "resolveField f s =
     (if fd_Scope f = ScopeLink then
        (case sc_linkAttrs s of None \<Rightarrow> Inl (NewValidation ''link.%s is only valid inside a relationship traversal'')
         | Some m \<Rightarrow> (case map_of m (fd_Name f) of None \<Rightarrow> Inl (NewValidation ''unknown link attribute %q'')
             | Some attr \<Rightarrow> Inr (attr, True)))
      else if fd_Name f \<in> set (sc_ambiguous s)
        then Inl (NewValidation ''%q is declared on both endpoints of this relationship, so linked() cannot tell which one you mean'')
      else (case map_of (sc_attrs s) (fd_Name f) of None \<Rightarrow> Inl (NewValidation ''unknown attribute %q'')
        | Some attr \<Rightarrow> Inr (attr, False)))"

definition ordering :: "CompareOp \<Rightarrow> bool" where
  "ordering cop \<longleftrightarrow> cop = CmpGt \<or> cop = CmpGte \<or> cop = CmpLt \<or> cop = CmpLte"

definition bindCompare :: "qbind \<Rightarrow> AggFunc \<Rightarrow> Field \<Rightarrow> CompareOp \<Rightarrow> Literal \<Rightarrow> qscope \<Rightarrow> bound result" where
  "bindCompare b fn f cop lit s =
     rbind (resolveField f s) (\<lambda>(attr, link).
       if cop = CmpIsa then Inl (NewValidation ''isa applies to the type field only'')
       else let counted = map_sum id (BoundCompare attr link fn cop) (intLiteral lit);
                typed = map_sum id (BoundCompare attr link fn cop) (coerceLiteral b attr lit)
            in case fn of
                 FuncLength \<Rightarrow> if \<not> IsTextual (as_DataType attr)
                     then Inl (NewValidation ''length() requires a textual attribute; %q is %s'') else counted
               | FuncCount \<Rightarrow> counted
               | FuncNone \<Rightarrow> if ordering cop \<and> \<not> IsOrdered (as_DataType attr)
                     then Inl (NewValidation ''%q is %s and does not support ordering comparisons'') else typed
               | _ \<Rightarrow> if \<not> IsOrdered (as_DataType attr)
                     then Inl (NewValidation ''%s() requires an ordered attribute; %q is %s'') else typed)"

definition bindIn :: "qbind \<Rightarrow> AggFunc \<Rightarrow> Field \<Rightarrow> Literal list \<Rightarrow> qscope \<Rightarrow> bound result" where
  "bindIn b fn f lits s =
     rbind (resolveField f s) (\<lambda>(attr, link).
       if fn \<noteq> FuncNone then Inl (NewValidation ''in does not combine with %s()'')
       else map_sum id (BoundIn attr link) (map_result (coerceLiteral b attr) lits))"

definition bindRange :: "qbind \<Rightarrow> AggFunc \<Rightarrow> Field \<Rightarrow> Literal \<Rightarrow> Literal \<Rightarrow> qscope \<Rightarrow> bound result" where
  "bindRange b fn f lo hi s =
     rbind (resolveField f s) (\<lambda>(attr, link).
       if fn \<noteq> FuncNone then Inl (NewValidation ''range does not combine with %s()'')
       else if \<not> IsOrdered (as_DataType attr) then Inl (NewValidation ''range() requires an ordered attribute; %q is %s'')
       else rbind (coerceLiteral b attr lo) (\<lambda>lo. rbind (coerceLiteral b attr hi) (\<lambda>hi. Inr (BoundRange attr link lo hi))))"

definition lookupType :: "qbind \<Rightarrow> Literal \<Rightarrow> TypeSnapshot result" where
  "lookupType b lit = (case map_of (bi_typesByName b) (li_Text lit) of None \<Rightarrow> Inl (NewValidation ''unknown type %q'')
     | Some t \<Rightarrow> Inr t)"

definition bindTypeCompare :: "qbind \<Rightarrow> AggFunc \<Rightarrow> CompareOp \<Rightarrow> Literal \<Rightarrow> bound result" where
  "bindTypeCompare b fn cop lit =
     (if fn \<noteq> FuncNone then Inl (NewValidation ''aggregate functions do not apply to the type field'')
      else rbind (lookupType b lit) (\<lambda>t.
        if cop = CmpEq \<or> cop = CmpNeq then Inr (BoundType [ts_ID t] (cop = CmpNeq))
        else if cop = CmpIsa then
          rbind (types_get (bi_rp b) (ts_ID t)) (\<lambda>root.
          rbind (Descendants (typeDefRepo_ListChildren (rp_types (bi_rp b))) root) (\<lambda>ds.
            Inr (BoundType (ts_ID t # map td_id ds) False)))
        else Inl (NewValidation ''the type field supports =, != and isa'')))"

definition bindTypeIn :: "qbind \<Rightarrow> Literal list \<Rightarrow> bound result" where
  "bindTypeIn b lits = map_sum id (\<lambda>ts. BoundType (map ts_ID ts) False) (map_result (lookupType b) lits)"

definition bindMatches :: "qbind \<Rightarrow> string \<Rightarrow> qscope \<Rightarrow> bound result" where
  "bindMatches b q s =
     (if \<not> bi_searchIndex b
      then Inl (NewValidation ''matches() requires the search-index feature, which is disabled in this deployment'')
      else Inr (BoundMatches q (if ReadsEverything (bi_access b) then None else Some (sort (map fst (sc_attrs s))))))"

fun bind :: "qbind \<Rightarrow> fql_node \<Rightarrow> qscope \<Rightarrow> bound result"
and bind_all :: "qbind \<Rightarrow> fql_node list \<Rightarrow> qscope \<Rightarrow> bound list result" where
  "bind b (Logical lop exprs pos) s = map_sum id (BoundLogical lop) (bind_all b exprs s)"
| "bind b (NotNode e pos) s = map_sum id BoundNot (bind b e s)"
| "bind b (CompareNode fn f cop lit pos) s =
     (if fd_Scope f = ScopeType then bindTypeCompare b fn cop lit else bindCompare b fn f cop lit s)"
| "bind b (InNode fn f lits pos) s = (if fd_Scope f = ScopeType then bindTypeIn b lits else bindIn b fn f lits s)"
| "bind b (RangeNode fn f lo hi pos) s = bindRange b fn f lo hi s"
| "bind b (HasNode f pos) s = rbind (resolveField f s) (\<lambda>(attr, link). Inr (BoundHas attr link))"
| "bind b (StringMatchNode k f lit pos) s =
     rbind (resolveField f s) (\<lambda>(attr, link).
       if \<not> IsTextual (as_DataType attr) then Inl (NewValidation ''%s requires a textual attribute; %q is %s'')
       else Inr (BoundStringMatch attr link k (li_Text lit)))"
| "bind b (MatchesNode q pos) s = bindMatches b q s"
| "bind b (Traversal dir rel inner pos) s =
     (if sc_depth s + 1 > maxTraversalDepth then Inl (NewValidation ''traversals nest at most %d deep'')
      else case map_of (sc_rels s) rel of None \<Rightarrow> Inl (NewValidation ''unknown relationship %q for this type'')
        | Some def \<Rightarrow>
            if rds_Kind def = KindSymmetric \<and> dir \<noteq> DirAny then Inl (NewValidation ''%q is symmetric; traverse it with linked(%s)'')
            else rbind (traversalScope b dir def (sc_depth s + 1)) (\<lambda>scope.
                 rbind (linkAttrsFor b def) (\<lambda>linkAttrs.
                   map_sum id (BoundTraversal def dir) (bind b inner (scope\<lparr>sc_linkAttrs := Some linkAttrs\<rparr>)))))"
| "bind_all b [] s = Inr []"
| "bind_all b (e # es) s = rbind (bind b e s) (\<lambda>x. map_sum id (\<lambda>xs. x # xs) (bind_all b es s))"

section \<open>Preparation (interactor.go)\<close>

text \<open>The parser always answers, so its \<open>None\<close> is not reached.\<close>

definition typesByName :: "vctx \<Rightarrow> vrepos \<Rightarrow> (string \<times> TypeSnapshot) list result" where
  "typesByName cx rp =
     map_sum id (\<lambda>(allTypes, _). fold (\<lambda>t. AList.update (td_internalName t) (type_Snapshot t)) allTypes [])
       (typeDefRepo_List (cx_klib cx) (cx_idString cx) (rp_types rp)
          \<lparr>tf_TenantID = cx_tenant cx, tf_InternalNames = [], tf_IncludeArchived = False, tf_IncludeAttributeSets = False\<rparr> first_page)"

definition prepare :: "vctx \<Rightarrow> vrepos \<Rightarrow> reldef_store \<Rightarrow> bool \<Rightarrow> string \<Rightarrow> string \<Rightarrow> (TypeDefinitionID list \<times> bound) result" where
  "prepare cx rp defs searchIndex rootType queryText =
     rbind (typeDefRepo_GetByInternalName (rp_types rp) (cx_tenant cx) rootType) (\<lambda>root.
     rbind (case fql_Parse queryText of Some (Inr node) \<Rightarrow> Inr node
              | Some (Inl e) \<Rightarrow> Inl (NewValidation (err_Message e)) | None \<Rightarrow> Inl (PlainErr [])) (\<lambda>node.
     rbind (typesByName cx rp) (\<lambda>types.
     let b = \<lparr>bi_cx = cx, bi_rp = rp, bi_defs = defs, bi_searchIndex = searchIndex, bi_typesByName = types\<rparr>
     in rbind (scopeFor b root 0) (\<lambda>(s, rowTypes).
        rbind (bind b node s) (\<lambda>bnd. Inr (map td_id rowTypes, bnd))))))"

definition query_Validate :: "vctx \<Rightarrow> vrepos \<Rightarrow> reldef_store \<Rightarrow> bool \<Rightarrow> string \<Rightarrow> string \<Rightarrow> goerr option" where
  "query_Validate cx rp defs searchIndex rootType queryText =
     (case prepare cx rp defs searchIndex rootType queryText of Inl e \<Rightarrow> Some e | Inr _ \<Rightarrow> None)"

end
