(* ===== verification/Query_Eval.thy ===== *)
theory Query_Eval
  imports Query_Bind
begin

text \<open>
  The search projection (\<^verbatim>\<open>application/search\<close>), the in-memory evaluator of bound trees (\<^verbatim>\<open>memory/query.go\<close>) and the query use
  case. The store's maps are lists in some order, the order in which a Go loop meets them.
\<close>

section \<open>Text\<close>

text \<open>The parts of \<^verbatim>\<open>strings\<close> and \<^verbatim>\<open>unicode\<close> that rest on the Unicode tables. \<open>ul_wordRune\<close> is \<^verbatim>\<open>IsLetter || IsDigit\<close> of the
  rune with the given encoding; a byte outside an encoding is U+FFFD, which is neither.\<close>

record textlib =
  ul_ToLower :: "string \<Rightarrow> string"
  ul_EqualFold :: "string \<Rightarrow> string \<Rightarrow> bool"
  ul_wordRune :: "nat list \<Rightarrow> bool"

fun contains :: "'a list \<Rightarrow> 'a list \<Rightarrow> bool" where
  "contains [] sub \<longleftrightarrow> sub = []"
| "contains (x # xs) sub \<longleftrightarrow> take (length sub) (x # xs) = sub \<or> contains xs sub"

definition containsFold :: "textlib \<Rightarrow> string \<Rightarrow> string \<Rightarrow> bool" where
  "containsFold ul haystack needle = contains (ul_ToLower ul haystack) (ul_ToLower ul needle)"

function runes :: "nat list \<Rightarrow> nat list list" where
  "runes [] = []"
| "runes (c # bs) = take (rune_size (c # bs)) (c # bs) # runes (drop (rune_size (c # bs)) (c # bs))"
  by pat_completeness auto
termination
  by (relation "measure length") (use rune_size_pos in auto)

text \<open>\<^verbatim>\<open>strings.FieldsFunc\<close>: the maximal runs of word runes.\<close>

fun fields_func :: "(nat list \<Rightarrow> bool) \<Rightarrow> nat list list \<Rightarrow> nat list \<Rightarrow> nat list list" where
  "fields_func isWord [] cur = (if cur = [] then [] else [cur])"
| "fields_func isWord (r # rs) cur =
     (if isWord r then fields_func isWord rs (cur @ r)
      else if cur = [] then fields_func isWord rs [] else cur # fields_func isWord rs [])"

definition tokenize :: "textlib \<Rightarrow> string \<Rightarrow> nat list list" where
  "tokenize ul s = fields_func (ul_wordRune ul) (runes (map of_char (ul_ToLower ul s))) []"

definition matchesText :: "textlib \<Rightarrow> string \<Rightarrow> string \<Rightarrow> bool" where
  "matchesText ul docText queryText =
     (let queryWords = tokenize ul queryText
      in queryWords \<noteq> [] \<and> list_all (\<lambda>w. w \<in> set (tokenize ul docText)) queryWords)"

section \<open>Search documents (search/indexer.go, memory/search_store.go)\<close>

record searchDoc =
  sd_tenant :: TenantID
  sd_typeID :: TypeDefinitionID
  sd_entity :: EntityID
  sd_values :: "string \<Rightarrow> string list"
  sd_text :: string

type_synonym doc_store = "string \<Rightarrow> searchDoc option"

definition doc_key :: "TenantID \<Rightarrow> EntityID \<Rightarrow> string" where
  "doc_key tenant entity = tenant @ [CHR 0x00] @ entity"

definition searchStore_Upsert :: "doc_store \<Rightarrow> searchDoc \<Rightarrow> doc_store" where
  "searchStore_Upsert docs d = docs(doc_key (sd_tenant d) (sd_entity d) \<mapsto> d)"

definition searchStore_Remove :: "doc_store \<Rightarrow> TenantID \<Rightarrow> EntityID \<Rightarrow> doc_store" where
  "searchStore_Remove docs tenant entity = docs(doc_key tenant entity := None)"

definition searchStore_PurgeTenant :: "doc_store \<Rightarrow> TenantID \<Rightarrow> doc_store" where
  "searchStore_PurgeTenant docs tenant =
     (\<lambda>k. case docs k of Some d \<Rightarrow> if sd_tenant d = tenant then None else Some d | None \<Rightarrow> None)"

text \<open>The document of some values; \<open>name\<close> is the name of an attribute.\<close>

definition document :: "golib \<Rightarrow> (AttributeDefinitionID \<Rightarrow> string) \<Rightarrow> TenantID \<Rightarrow> TypeDefinitionID \<Rightarrow> EntityID \<Rightarrow> AttributeValue list \<Rightarrow>
    searchDoc" where
  "document lib name tenant typeID entity values =
     (let textual = filter (\<lambda>v. IsTextual (dataType (av_value v))) values
      in \<lparr>sd_tenant = tenant, sd_typeID = typeID, sd_entity = entity,
          sd_values = (\<lambda>n. map (\<lambda>v. ValueString lib (av_value v)) (filter (\<lambda>v. name (av_attributeDefID v) = n) textual)),
          sd_text = entity @ concat (map (\<lambda>v. '' '' @ ValueString lib (av_value v)) textual)\<rparr>)"

definition Rebuild :: "golib \<Rightarrow> (ulid \<Rightarrow> string) \<Rightarrow> attr_store \<Rightarrow> value_store \<Rightarrow> doc_store \<Rightarrow> TenantID \<Rightarrow> TypeDefinitionID \<Rightarrow> EntityID \<Rightarrow>
    doc_store result" where
  "Rebuild lib idString attrs s docs tenant typeID entity =
     (let values = ListByEntity idString s \<lparr>ek_TenantID = tenant, ek_TypeDefinitionID = typeID, ek_EntityID = entity\<rparr>
      in if values = [] then Inr (searchStore_Remove docs tenant entity)
         else rbind (attrRepo_GetMany attrs (dedupe (map av_attributeDefID values))) (\<lambda>as.
           let name = (\<lambda>i. case map_of (rev (map (\<lambda>a. (ad_id a, ad_internalName a)) as)) i of Some n \<Rightarrow> n | None \<Rightarrow> [])
           in Inr (searchStore_Upsert docs (document lib name tenant typeID entity values))))"

section \<open>Evaluation (memory/query.go)\<close>

record qdb =
  db_values :: value_store
  db_rels :: rel_store
  db_docs :: doc_store

record qenv =
  qe_lib :: golib
  qe_text :: textlib
  qe_idString :: "ulid \<Rightarrow> string"

record evalScope =
  ev_tenant :: TenantID
  ev_entity :: EntityID
  ev_typeID :: TypeDefinitionID
  ev_link :: string
  ev_query :: scope

datatype tri = triFalse | triTrue | triUnknown

definition triOf :: "bool \<Rightarrow> tri" where
  "triOf b = (if b then triTrue else triFalse)"

fun triNot :: "tri \<Rightarrow> tri" where
  "triNot triTrue = triFalse"
| "triNot triFalse = triTrue"
| "triNot triUnknown = triUnknown"

definition row_in_scope :: "AttrSnapshot \<Rightarrow> bool \<Rightarrow> evalScope \<Rightarrow> ValueSnapshot \<Rightarrow> bool" where
  "row_in_scope attr link s snap \<longleftrightarrow>
     vs_TenantID snap = ev_tenant s \<and> vs_EntityID snap = (if link then ev_link s else ev_entity s) \<and>
     vs_AttributeDefinitionID snap = as_ID attr \<and> vs_ArchivedAt snap = None \<and>
     (link \<or> (as_Localizable attr \<longrightarrow> vs_Locale snap = Locale (ev_query s)) \<and>
              (as_Scopable attr \<longrightarrow> vs_Channel snap = Channel (ev_query s)))"

definition scopedValues :: "qdb \<Rightarrow> AttrSnapshot \<Rightarrow> bool \<Rightarrow> evalScope \<Rightarrow> ValueSnapshot list" where
  "scopedValues db attr link s = filter (row_in_scope attr link s) (db_values db)"

definition declaredType :: "qdb \<Rightarrow> TenantID \<Rightarrow> EntityID \<Rightarrow> TypeDefinitionID option" where
  "declaredType db tenant entity =
     map_option vs_TypeDefinitionID
       (find (\<lambda>x. vs_TenantID x = tenant \<and> vs_EntityID x = entity \<and> vs_ArchivedAt x = None) (db_values db))"

definition compareInts :: "int \<Rightarrow> int \<Rightarrow> CompareOp \<Rightarrow> bool result" where
  "compareInts a b cop = (case cop of
       CmpEq \<Rightarrow> Inr (a = b) | CmpNeq \<Rightarrow> Inr (a \<noteq> b) | CmpGt \<Rightarrow> Inr (a > b) | CmpGte \<Rightarrow> Inr (a \<ge> b)
     | CmpLt \<Rightarrow> Inr (a < b) | CmpLte \<Rightarrow> Inr (a \<le> b) | CmpIsa \<Rightarrow> Inl (PlainErr ''unsupported operator %q''))"

definition compareValues :: "golib \<Rightarrow> gvalue \<Rightarrow> gvalue \<Rightarrow> CompareOp \<Rightarrow> bool result" where
  "compareValues lib a b cop =
     (if cop = CmpEq then Inr (Equal lib a b)
      else if cop = CmpNeq then Inr (\<not> Equal lib a b)
      else rbind (case Compare lib a b of Inr c \<Rightarrow> Inr c
          | Inl e \<Rightarrow> if \<not> IsTextual (dataType a) then Inl e else Inr (compare_lin (textVal a) (textVal b))) (\<lambda>cmp.
        case cop of CmpGt \<Rightarrow> Inr (cmp > 0) | CmpGte \<Rightarrow> Inr (cmp \<ge> 0) | CmpLt \<Rightarrow> Inr (cmp < 0) | CmpLte \<Rightarrow> Inr (cmp \<le> 0)
        | _ \<Rightarrow> Inl (PlainErr ''unsupported operator %q'')))"

text \<open>A loop that answers true at the first row that satisfies the test, and fails at the first that fails.\<close>

fun any_row :: "('a \<Rightarrow> bool result) \<Rightarrow> 'a list \<Rightarrow> tri result" where
  "any_row p [] = Inr triFalse"
| "any_row p (x # xs) = rbind (p x) (\<lambda>hit. if hit then Inr triTrue else any_row p xs)"

text \<open>The running best of \<^verbatim>\<open>min\<close> and \<^verbatim>\<open>max\<close>.\<close>

fun best_of :: "golib \<Rightarrow> AggFunc \<Rightarrow> gvalue \<Rightarrow> gvalue list \<Rightarrow> gvalue result" where
  "best_of lib fn best [] = Inr best"
| "best_of lib fn best (v # vs) =
     rbind (Compare lib v best) (\<lambda>cmp.
       best_of lib fn (if fn = FuncMin \<and> cmp < 0 \<or> fn = FuncMax \<and> cmp > 0 then v else best) vs)"

definition evalCompare :: "qenv \<Rightarrow> qdb \<Rightarrow> AttrSnapshot \<Rightarrow> bool \<Rightarrow> AggFunc \<Rightarrow> CompareOp \<Rightarrow> gvalue \<Rightarrow> evalScope \<Rightarrow> tri result" where
  "evalCompare env db attr link fn cop v s =
     (let values = map vs_Value (scopedValues db attr link s)
      in case fn of
           FuncCount \<Rightarrow> map_sum id triOf (compareInts (int (length values)) (intVal v) cop)
         | FuncLength \<Rightarrow> any_row (\<lambda>x. compareInts (int (value_Length x)) (intVal v) cop) values
         | FuncNone \<Rightarrow> any_row (\<lambda>x. compareValues (qe_lib env) x v cop) values
         | _ \<Rightarrow> (case values of [] \<Rightarrow> Inr triUnknown
             | x # xs \<Rightarrow> rbind (best_of (qe_lib env) fn x xs) (\<lambda>best. map_sum id triOf (compareValues (qe_lib env) best v cop))))"

definition evalRange :: "qenv \<Rightarrow> qdb \<Rightarrow> AttrSnapshot \<Rightarrow> bool \<Rightarrow> gvalue \<Rightarrow> gvalue \<Rightarrow> evalScope \<Rightarrow> tri result" where
  "evalRange env db attr link lo hi s =
     any_row (\<lambda>x. rbind (Compare (qe_lib env) x lo) (\<lambda>l. rbind (Compare (qe_lib env) x hi) (\<lambda>h. Inr (l \<ge> 0 \<and> h \<le> 0))))
       (map vs_Value (scopedValues db attr link s))"

definition string_match :: "textlib \<Rightarrow> StringMatchKind \<Rightarrow> string \<Rightarrow> string \<Rightarrow> bool" where
  "string_match ul k text v = (case k of MatchContains \<Rightarrow> contains text v | MatchIContains \<Rightarrow> containsFold ul text v
     | MatchIEquals \<Rightarrow> ul_EqualFold ul text v)"

text \<open>\<^verbatim>\<open>strings.Join(readable, " ")\<close>\<close>

definition join_space :: "string list \<Rightarrow> string" where
  "join_space ws = (case ws of [] \<Rightarrow> [] | w # ws \<Rightarrow> w @ concat (map (\<lambda>x. '' '' @ x) ws))"

definition evalMatches :: "qenv \<Rightarrow> qdb \<Rightarrow> string \<Rightarrow> string list option \<Rightarrow> evalScope \<Rightarrow> tri" where
  "evalMatches env db q names s =
     (case db_docs db (doc_key (ev_tenant s) (ev_entity s)) of None \<Rightarrow> triFalse
      | Some doc \<Rightarrow> (case names of None \<Rightarrow> triOf (matchesText (qe_text env) (sd_text doc) q)
          | Some attrs \<Rightarrow> triOf (matchesText (qe_text env) (join_space (sd_entity doc # concat (map (sd_values doc) attrs))) q)))"

definition far_end :: "Direction \<Rightarrow> EntityID \<Rightarrow> RelSnapshot \<Rightarrow> EntityID option" where
  "far_end dir entity rel =
     (let parent = rls_ParentEntityID rel; child = rls_ChildEntityID rel
      in case dir of
           DirAny \<Rightarrow> if entity = parent then Some child else if entity = child then Some parent else None
         | DirParent \<Rightarrow> if child \<noteq> entity then None else Some parent
         | DirChild \<Rightarrow> if parent \<noteq> entity then None else Some child)"

definition counterpart :: "qenv \<Rightarrow> qdb \<Rightarrow> RelDefSnapshot \<Rightarrow> Direction \<Rightarrow> evalScope \<Rightarrow> RelSnapshot \<Rightarrow> evalScope option" where
  "counterpart env db def dir s rel =
     (if rls_TenantID rel \<noteq> ev_tenant s \<or> rls_ArchivedAt rel \<noteq> None \<or> rls_DefinitionID rel \<noteq> rds_ID def then None
      else case far_end dir (ev_entity s) rel of None \<Rightarrow> None
        | Some far \<Rightarrow> (case declaredType db (ev_tenant s) far of None \<Rightarrow> None
            | Some farType \<Rightarrow> Some (s\<lparr>ev_entity := far, ev_typeID := farType, ev_link := qe_idString env (rls_ID rel)\<rparr>)))"

text \<open>The loop of \<^verbatim>\<open>evalTraversal\<close> over the counterparts.\<close>

fun any_counterpart :: "(evalScope \<Rightarrow> tri result) \<Rightarrow> evalScope option list \<Rightarrow> tri result" where
  "any_counterpart inner [] = Inr triFalse"
| "any_counterpart inner (None # rels) = any_counterpart inner rels"
| "any_counterpart inner (Some s # rels) =
     rbind (inner s) (\<lambda>res. if res = triTrue then Inr triTrue else any_counterpart inner rels)"

definition evalTraversal :: "qenv \<Rightarrow> qdb \<Rightarrow> RelDefSnapshot \<Rightarrow> Direction \<Rightarrow> (evalScope \<Rightarrow> tri result) \<Rightarrow> evalScope \<Rightarrow> tri result" where
  "evalTraversal env db def dir inner s = any_counterpart inner (map (counterpart env db def dir s) (db_rels db))"

fun eval :: "qenv \<Rightarrow> qdb \<Rightarrow> bound \<Rightarrow> evalScope \<Rightarrow> tri result"
and eval_all :: "qenv \<Rightarrow> qdb \<Rightarrow> LogicalOp \<Rightarrow> bound list \<Rightarrow> bool \<Rightarrow> evalScope \<Rightarrow> tri result" where
  "eval env db (BoundLogical lop exprs) s = eval_all env db lop exprs False s"
| "eval env db (BoundNot e) s = map_sum id triNot (eval env db e s)"
| "eval env db (BoundType ids negate) s = Inr (triOf ((ev_typeID s \<in> set ids) \<noteq> negate))"
| "eval env db (BoundCompare attr link fn cop v) s = evalCompare env db attr link fn cop v s"
| "eval env db (BoundIn attr link vs) s =
     any_row (\<lambda>x. Inr (list_ex (Equal (qe_lib env) x) vs)) (map vs_Value (scopedValues db attr link s))"
| "eval env db (BoundRange attr link lo hi) s = evalRange env db attr link lo hi s"
| "eval env db (BoundHas attr link) s = Inr (triOf (length (scopedValues db attr link s) > 0))"
| "eval env db (BoundStringMatch attr link k v) s =
     any_row (\<lambda>x. Inr (string_match (qe_text env) k (textVal x) v)) (map vs_Value (scopedValues db attr link s))"
| "eval env db (BoundMatches q names) s = Inr (evalMatches env db q names s)"
| "eval env db (BoundTraversal def dir inner) s = evalTraversal env db def dir (\<lambda>s'. eval env db inner s') s"
| "eval_all env db lop [] unk s = Inr (if unk then triUnknown else triOf (lop = OpAnd))"
| "eval_all env db lop (e # es) unk s =
     rbind (eval env db e s) (\<lambda>res.
       if lop = OpAnd \<and> res = triFalse then Inr triFalse
       else if lop = OpOr \<and> res = triTrue then Inr triTrue
       else eval_all env db lop es (unk \<or> res = triUnknown) s)"

section \<open>Search and Execute\<close>

fun matching :: "(EntitySummary \<Rightarrow> tri result) \<Rightarrow> EntitySummary list \<Rightarrow> EntitySummary list result" where
  "matching ev [] = Inr []"
| "matching ev (e # es) = rbind (ev e) (\<lambda>res. map_sum id (\<lambda>out. if res = triTrue then e # out else out) (matching ev es))"

definition row_scope :: "TenantID \<Rightarrow> scope \<Rightarrow> EntitySummary \<Rightarrow> evalScope" where
  "row_scope tenant sc e =
     \<lparr>ev_tenant = tenant, ev_entity = sm_EntityID e, ev_typeID = sm_TypeDefinitionID e, ev_link = [], ev_query = sc\<rparr>"

definition query_Search :: "qenv \<Rightarrow> keyset_lib \<Rightarrow> (int \<Rightarrow> string) \<Rightarrow> qdb \<Rightarrow> TenantID \<Rightarrow> TypeDefinitionID list \<Rightarrow> bound \<Rightarrow> scope \<Rightarrow> Page \<Rightarrow>
    (EntitySummary list \<times> int) result" where
  "query_Search env klib timeKey db tenant rootTypeIDs node sc page =
     rbind (matching (\<lambda>e. eval env db node (row_scope tenant sc e)) (entity_summaries (db_values db) tenant rootTypeIDs)) (\<lambda>matched.
       if pg_Stable page then paginate klib (sort_key sm_EntityID matched) page entityIDKeyset (\<lambda>e. [sm_EntityID e])
       else paginate klib (sort_key (\<lambda>e. (- sm_LastUpdatedAt e, sm_EntityID e)) matched) page entityKeyset
              (\<lambda>e. [timeKey (sm_LastUpdatedAt e), sm_EntityID e]))"

record ExecuteInput =
  ei_Type :: string
  ei_Query :: string
  ei_Page :: PageArgs
  ei_Scope :: scope
  ei_Stable :: bool

record ResultRow =
  rr_EntityID :: string
  rr_TypeDefinitionID :: string
  rr_ValueCount :: nat
  rr_LastUpdatedAt :: int

definition result_row :: "(ulid \<Rightarrow> string) \<Rightarrow> EntitySummary \<Rightarrow> ResultRow" where
  "result_row idString e = \<lparr>rr_EntityID = sm_EntityID e, rr_TypeDefinitionID = idString (sm_TypeDefinitionID e),
     rr_ValueCount = sm_ValueCount e, rr_LastUpdatedAt = sm_LastUpdatedAt e\<rparr>"

definition query_env :: "vctx \<Rightarrow> textlib \<Rightarrow> qenv" where
  "query_env cx ul = \<lparr>qe_lib = cx_lib cx, qe_text = ul, qe_idString = cx_idString cx\<rparr>"

definition query_Execute :: "vctx \<Rightarrow> textlib \<Rightarrow> (int \<Rightarrow> string) \<Rightarrow> vrepos \<Rightarrow> reldef_store \<Rightarrow> bool \<Rightarrow> qdb \<Rightarrow> ExecuteInput \<Rightarrow>
    (ResultRow list \<times> PageInfo) result" where
  "query_Execute cx ul timeKey rp defs searchIndex db inp =
     rbind (as_validation (page_Resolve (cx_klib cx) (ei_Page inp))) (\<lambda>page0.
     let page = page0\<lparr>pg_Stable := ei_Stable inp\<rparr>
     in rbind (prepare cx rp defs searchIndex (ei_Type inp) (ei_Query inp)) (\<lambda>(rootTypes, node).
        rbind (query_Search (query_env cx ul) (cx_klib cx) timeKey db (cx_tenant cx) rootTypes node (ei_Scope inp) page)
          (\<lambda>(items, count).
          let (items, info) = KeysetPage page items (KeysetTotal page count) (\<lambda>e.
                if pg_Stable page then EncodeKeyset (cx_klib cx) [sm_EntityID e]
                else EncodeKeyset (cx_klib cx) [timeKey (sm_LastUpdatedAt e), sm_EntityID e])
          in Inr (map (result_row (cx_idString cx)) items, info))))"

end
