(* ===== verification/Value_Writes.thy ===== *)
theory Value_Writes
  imports Value_Usecases
begin

text \<open>
  What the value use cases keep: the invariant \<open>values_ok\<close> of the store of values, the isolation of
  tenants, the effect of an accepted write, the gate for demanded values and the canonical order.

  Every write of a row goes through \<open>put_ok\<close>: a row that is admissible and agrees with
  every other row may be put. The use cases only have to show that theirs is such a row.
\<close>

section \<open>The invariant\<close>

lemma Equal_sym: "Equal lib v w \<longleftrightarrow> Equal lib w v"
  by (cases "dataType v"; cases "dataType w")
    (auto simp: Equal_def equalJSON_equiv(2) Compare_def compare_lin_def f_eq_def split: option.splits if_splits)

definition same_slot :: "ValueSnapshot \<Rightarrow> ValueSnapshot \<Rightarrow> bool" where
  "same_slot x y \<longleftrightarrow> vs_AttributeDefinitionID x = vs_AttributeDefinitionID y \<and>
     vs_Locale x = vs_Locale y \<and> vs_Channel x = vs_Channel y"

text \<open>One row: its definition is stored; the row belongs to the tenant of the definition, pins no later version than the
  current one and satisfies it when it pins that; a live row has a locale or a channel only if the definition allows it.\<close>

definition scope_fits :: "AttributeDefinition \<Rightarrow> ValueSnapshot \<Rightarrow> bool" where
  "scope_fits def x \<longleftrightarrow> (vs_Locale x = [] \<or> ad_localizable def) \<and> (vs_Channel x = [] \<or> ad_scopable def)"

definition row_ok :: "golib \<Rightarrow> attr_store \<Rightarrow> ValueSnapshot \<Rightarrow> bool" where
  "row_ok lib attrs x \<longleftrightarrow> (\<exists>def. attrRepo_Get attrs (vs_AttributeDefinitionID x) = Inr def \<and>
     vs_TenantID x = ad_tenantID def \<and> vs_DefinitionVersion x \<le> ad_version def \<and>
     (vs_DefinitionVersion x = ad_version def \<longrightarrow> conforms lib def (av_Rehydrate x)) \<and>
     (vs_ArchivedAt x = None \<longrightarrow> scope_fits def x))"

text \<open>Two rows: one type per entity; in one slot, two live values of one entity need a multi-valued
  attribute and differ, and two live values of different entities differ when the attribute is unique.\<close>

definition pair_ok :: "golib \<Rightarrow> attr_store \<Rightarrow> ValueSnapshot \<Rightarrow> ValueSnapshot \<Rightarrow> bool" where
  "pair_ok lib attrs x y \<longleftrightarrow>
     (vs_TenantID x = vs_TenantID y \<and> vs_EntityID x = vs_EntityID y \<longrightarrow> vs_TypeDefinitionID x = vs_TypeDefinitionID y) \<and>
     (\<forall>def. attrRepo_Get attrs (vs_AttributeDefinitionID x) = Inr def \<and> same_slot x y \<and>
        vs_ArchivedAt x = None \<and> vs_ArchivedAt y = None \<longrightarrow>
        (if vs_EntityID x = vs_EntityID y then ad_multiValued def \<and> \<not> Equal lib (vs_Value x) (vs_Value y)
         else ad_unique def \<longrightarrow> \<not> Equal lib (vs_Value x) (vs_Value y)))"

definition values_ok :: "golib \<Rightarrow> attr_store \<Rightarrow> value_store \<Rightarrow> bool" where
  "values_ok lib attrs s \<longleftrightarrow> distinct (map vs_ID s) \<and> (\<forall>x\<in>set s. row_ok lib attrs x) \<and>
     (\<forall>x\<in>set s. \<forall>y\<in>set s. vs_ID x \<noteq> vs_ID y \<longrightarrow> pair_ok lib attrs x y)"

lemma pair_ok_sym: "pair_ok lib attrs x y \<longleftrightarrow> pair_ok lib attrs y x"
  by (auto simp: pair_ok_def same_slot_def Equal_sym [of lib "vs_Value y" "vs_Value x"])

lemma values_okD:
  assumes "values_ok lib attrs s"
  shows "distinct (map vs_ID s)" "x \<in> set s \<Longrightarrow> row_ok lib attrs x"
    "x \<in> set s \<Longrightarrow> y \<in> set s \<Longrightarrow> vs_ID x \<noteq> vs_ID y \<Longrightarrow> pair_ok lib attrs x y"
    "x \<in> set s \<Longrightarrow> y \<in> set s \<Longrightarrow> vs_ID x = vs_ID y \<Longrightarrow> x = y"
  using assms by (auto simp: values_ok_def dest: eq_key_imp_eq_value simp: distinct_map inj_on_def)

lemma one_anchor:
  "values_ok lib attrs s \<Longrightarrow> x \<in> set s \<Longrightarrow> y \<in> set s \<Longrightarrow> vs_TenantID x = vs_TenantID y \<Longrightarrow> vs_EntityID x = vs_EntityID y \<Longrightarrow>
    vs_TypeDefinitionID x = vs_TypeDefinitionID y"
  using values_okD(3,4) [of lib attrs s x y] unfolding pair_ok_def by blast

definition others :: "TenantID \<Rightarrow> value_store \<Rightarrow> value_store" where
  "others ten s = filter (\<lambda>x. vs_TenantID x \<noteq> ten) s"

lemma put_ok:
  assumes "values_ok lib attrs s" "row_ok lib attrs x"
    and "\<And>y. y \<in> set s \<Longrightarrow> vs_ID y \<noteq> vs_ID x \<Longrightarrow> pair_ok lib attrs x y"
  shows "values_ok lib attrs (put_value x s)"
proof -
  note d = values_okD(1) [OF assms(1)]
  show ?thesis unfolding values_ok_def set_put_value_eq [OF d]
    using assms(2) values_okD(2,3) [OF assms(1)] assms(3) pair_ok_sym put_value_distinct [OF d, of x]
    by (metis (no_types, lifting) insert_iff mem_Collect_eq)
qed

lemma put_others:
  assumes "vs_TenantID x = ten" "\<And>y. y \<in> set s \<Longrightarrow> vs_ID y = vs_ID x \<Longrightarrow> vs_TenantID y = ten"
  shows "others ten (put_value x s) = others ten s"
  using assms unfolding others_def by (induction s) auto

lemma reanchor_ids: "map vs_ID (fst (ReanchorEntity s ten e to)) = map vs_ID s"
  by (simp add: ReanchorEntity_def Let_def if_distrib cong: if_cong)

lemma reanchor_others: "others ten (fst (ReanchorEntity s ten e to)) = others ten s"
  unfolding others_def by (induction s) (auto simp: ReanchorEntity_def Let_def)

definition moved :: "TenantID \<Rightarrow> EntityID \<Rightarrow> TypeDefinitionID \<Rightarrow> ValueSnapshot \<Rightarrow> ValueSnapshot" where
  "moved ten e to x = (if vs_TenantID x = ten \<and> vs_EntityID x = e then x\<lparr>vs_TypeDefinitionID := to\<rparr> else x)"

lemma moved_fields [simp]:
  "vs_ID (moved ten e to x) = vs_ID x" "vs_TenantID (moved ten e to x) = vs_TenantID x"
  "vs_EntityID (moved ten e to x) = vs_EntityID x"
  by (simp_all add: moved_def)

lemma set_reanchor: "set (fst (ReanchorEntity s ten e to)) = moved ten e to ` set s"
  unfolding ReanchorEntity_def Let_def moved_def by (force simp: image_iff)

lemma moved_row: "row_ok lib attrs (moved ten e to x) = row_ok lib attrs x"
  by (simp add: moved_def row_ok_def conforms_def av_Rehydrate_def scope_fits_def)

lemma moved_pair: "pair_ok lib attrs x y \<Longrightarrow> pair_ok lib attrs (moved ten e to x) (moved ten e to y)"
  by (auto simp: moved_def pair_ok_def same_slot_def)

lemma reanchor_ok: "values_ok lib attrs s \<Longrightarrow> values_ok lib attrs (fst (ReanchorEntity s ten e to))"
  unfolding values_ok_def reanchor_ids set_reanchor by (auto simp: moved_row intro!: moved_pair)

section \<open>One write\<close>

text \<open>Moving rows inside a unit of work: the invariant holds, the rows of other tenants are untouched and
  the identifiers to come are new.\<close>

definition tx_ok :: "vctx \<Rightarrow> attr_store \<Rightarrow> vtx \<Rightarrow> bool" where
  "tx_ok cx attrs t \<longleftrightarrow> values_ok (cx_lib cx) attrs (vt_values t) \<and> inj (cx_newID cx) \<and>
     (\<forall>n\<ge>vt_tick t. cx_newID cx n \<notin> vs_ID ` set (vt_values t))"

definition tx_keeps :: "vctx \<Rightarrow> attr_store \<Rightarrow> vtx \<Rightarrow> vtx \<Rightarrow> bool" where
  "tx_keeps cx attrs t t' \<longleftrightarrow>
     (tx_ok cx attrs t \<longrightarrow> tx_ok cx attrs t' \<and> others (cx_tenant cx) (vt_values t') = others (cx_tenant cx) (vt_values t))"

lemma tx_keeps_refl [simp]: "tx_keeps cx attrs t t"
  by (simp add: tx_keeps_def)

lemma tx_keeps_trans: "tx_keeps cx attrs t u \<Longrightarrow> tx_keeps cx attrs u w \<Longrightarrow> tx_keeps cx attrs t w"
  by (auto simp: tx_keeps_def)

text \<open>Only the rows and the counter of a unit of work matter here.\<close>

lemma tx_keeps_cong:
  "vt_values u = vt_values w \<Longrightarrow> vt_tick u = vt_tick w \<Longrightarrow> tx_keeps cx attrs t u = tx_keeps cx attrs t w"
  "vt_values u = vt_values w \<Longrightarrow> vt_tick u = vt_tick w \<Longrightarrow> tx_keeps cx attrs u t = tx_keeps cx attrs w t"
  by (simp_all add: tx_keeps_def tx_ok_def)

lemma gc_same [simp]:
  "vt_values (gcMediaAfterCommit cx i v t) = vt_values t" "vt_tick (gcMediaAfterCommit cx i v t) = vt_tick t"
  by (simp_all add: gcMediaAfterCommit_def Let_def)

lemma note_same [simp]:
  "vt_values (noteWrite ref b t) = vt_values t" "vt_tick (noteWrite ref b t) = vt_tick t"
  "vt_values (noteRemoval ref av b t) = vt_values t" "vt_tick (noteRemoval ref av b t) = vt_tick t"
  by (simp_all add: noteWrite_def noteRemoval_def Let_def)

lemma tick_simps [simp]: "vt_values (tick t) = vt_values t" "vt_tick (tick t) = vt_tick t + 1"
  by (simp_all add: tick_def)

text \<open>A put of an admissible row of the caller's tenant.\<close>

lemma put_keeps:
  assumes "vs_TenantID x = cx_tenant cx" "row_ok (cx_lib cx) attrs x"
    and "\<And>y. y \<in> set (vt_values t) \<Longrightarrow> vs_ID y = vs_ID x \<Longrightarrow> vs_TenantID y = cx_tenant cx"
    and "\<And>y. y \<in> set (vt_values t) \<Longrightarrow> vs_ID y \<noteq> vs_ID x \<Longrightarrow> pair_ok (cx_lib cx) attrs x y"
    and "vt_values t' = put_value x (vt_values t)" "vt_tick t' = vt_tick t + 1"
    and "vs_ID x \<in> vs_ID ` set (vt_values t) \<or> vs_ID x = cx_newID cx (vt_tick t)"
  shows "tx_keeps cx attrs t t'"
proof -
  have "tx_ok cx attrs t'" if t: "tx_ok cx attrs t"
  proof -
    have "cx_newID cx n \<noteq> vs_ID x" if n: "n \<ge> vt_tick t + 1" for n
      using assms(7) t n unfolding tx_ok_def inj_def by (metis Suc_eq_plus1 not_less_eq_eq order_refl Suc_leD)
    with t show ?thesis using put_ok [OF _ assms(2), of "vt_values t"] assms(4-6) unfolding tx_ok_def by auto
  qed
  then show ?thesis using put_others [OF assms(1,3)] assms(5) by (auto simp: tx_keeps_def)
qed

lemma resolve_keeps:
  assumes "resolveEntityType cx rp (vt_values t) def e raw = Inr (s', ty)"
  shows "tx_keeps cx attrs t (t\<lparr>vt_values := s'\<rparr>)"
    "values_ok (cx_lib cx) attrs (vt_values t) \<Longrightarrow> x \<in> set s' \<Longrightarrow> vs_TenantID x = cx_tenant cx \<Longrightarrow> vs_EntityID x = e \<Longrightarrow>
       vs_TypeDefinitionID x = ty"
proof -
  let ?a = "EntityAnchor (cx_idString cx) (vt_values t) (cx_tenant cx) e"
  have c: "s' = vt_values t \<and> (?a = None \<or> ?a = Some ty) \<or> s' = fst (ReanchorEntity (vt_values t) (cx_tenant cx) e ty)"
  proof (cases ?a)
    case None
    then show ?thesis using assms by (auto simp: resolveEntityType_def rbind_Inr split: if_splits)
  next
    case (Some a)
    then show ?thesis using assms
      by (cases "raw = []") (auto simp: resolveEntityType_def rbind_Inr split: if_splits)
  qed
  have ids: "vs_ID ` set s' = vs_ID ` set (vt_values t)" using c by (auto simp: set_reanchor image_image)
  have "values_ok lib attrs s'" if "values_ok lib attrs (vt_values t)" for lib using c that reanchor_ok by auto
  then show "tx_keeps cx attrs t (t\<lparr>vt_values := s'\<rparr>)"
    using c ids reanchor_others by (auto simp: tx_keeps_def tx_ok_def)
  show "vs_TypeDefinitionID x = ty" if "values_ok (cx_lib cx) attrs (vt_values t)" "x \<in> set s'" "vs_TenantID x = cx_tenant cx" "vs_EntityID x = e"
    using c
  proof
    assume r: "s' = vt_values t \<and> (?a = None \<or> ?a = Some ty)"
    with that EntityAnchor_None [of "cx_idString cx" "vt_values t" "cx_tenant cx" e] have "?a = Some ty" by auto
    then obtain y where y: "y \<in> set (vt_values t)" "vs_TenantID y = cx_tenant cx" "vs_EntityID y = e" "vs_TypeDefinitionID y = ty"
      by (rule EntityAnchor_Some)
    have "x \<in> set (vt_values t)" using that(2) r by blast
    from one_anchor [OF that(1) this y(1)] show ?thesis unfolding that(3,4) y(2-4) by blast
  next
    assume "s' = fst (ReanchorEntity (vt_values t) (cx_tenant cx) e ty)"
    with that(2) obtain z where z: "x = moved (cx_tenant cx) e ty z" by (auto simp: set_reanchor)
    from that(3,4) have "vs_TenantID z = cx_tenant cx" "vs_EntityID z = e" unfolding z by simp_all
    then show ?thesis unfolding z by (simp add: moved_def)
  qed
qed

text \<open>The values a write of this attribute, entity and scope finds.\<close>

definition in_slot :: "AttributeDefinition \<Rightarrow> EntityID \<Rightarrow> scope \<Rightarrow> ValueSnapshot \<Rightarrow> bool" where
  "in_slot def e sc x \<longleftrightarrow> vs_AttributeDefinitionID x = ad_id def \<and> vs_EntityID x = e \<and> vs_ArchivedAt x = None \<and>
     vs_Locale x = Locale sc \<and> vs_Channel x = Channel sc"

definition existing_values :: "vctx \<Rightarrow> AttributeDefinition \<Rightarrow> EntityID \<Rightarrow> scope \<Rightarrow> value_store \<Rightarrow> AttributeValue list" where
  "existing_values cx def e sc s =
     filter (\<lambda>av. scope_Equals (av_scope av) sc) (FindByDefinitionAndEntity (cx_idString cx) s (ad_id def) e)"

lemma set_existing: "set (existing_values cx def e sc s) = av_Rehydrate ` {x \<in> set s. in_slot def e sc x}"
  by (auto simp: existing_values_def FindByDefinitionAndEntity_def set_values_where in_slot_def scope_Equals_def av_Rehydrate_def)

lemma existing_in_slot: "av \<in> set (existing_values cx def e sc s) \<Longrightarrow> av_Snapshot av \<in> set s \<and> in_slot def e sc (av_Snapshot av)"
  by (auto simp: set_existing av_snapshot_round)

text \<open>A row the write may put: in its slot, of the caller's tenant and the entity's type, and with a value that neither
  another entity of a unique attribute nor another row of this entity has.\<close>

lemma slot_pair:
  assumes def: "attrRepo_Get attrs (ad_id def) = Inr def"
    and uniq: "uniqueGuard lib s def sc (vs_Value x) e = None"
    and x: "vs_TenantID x = ten" "in_slot def e sc x"
    and ty: "vs_TenantID y = ten \<Longrightarrow> vs_EntityID y = e \<Longrightarrow> vs_TypeDefinitionID y = vs_TypeDefinitionID x"
    and y: "y \<in> set s" "in_slot def e sc y \<Longrightarrow> ad_multiValued def \<and> \<not> Equal lib (vs_Value x) (vs_Value y)"
  shows "pair_ok lib attrs x y"
proof -
  have "\<not> Equal lib (vs_Value x) (vs_Value y)"
    if "same_slot x y" "vs_ArchivedAt y = None" "vs_EntityID x \<noteq> vs_EntityID y" "ad_unique def"
    using uniq y(1) that x(2) Equal_sym [of lib "vs_Value x" "vs_Value y"]
    by (auto simp: uniqueGuard_def CountByDefinitionAndValue_def filter_empty_conv same_slot_def in_slot_def split: if_splits)
  moreover have "ad_multiValued def \<and> \<not> Equal lib (vs_Value x) (vs_Value y)"
    if "same_slot x y" "vs_ArchivedAt y = None" "vs_EntityID x = vs_EntityID y"
    using y(2) that x(2) by (simp add: same_slot_def in_slot_def)
  moreover have "attrRepo_Get attrs (vs_AttributeDefinitionID x) = Inr def" using def x(2) by (simp add: in_slot_def)
  ultimately show ?thesis using x ty unfolding pair_ok_def by (auto simp: in_slot_def)
qed

lemma snapshot_fields [simp]:
  "vs_ID (av_Snapshot av) = av_id av" "vs_TenantID (av_Snapshot av) = av_tenantID av"
  "vs_TypeDefinitionID (av_Snapshot av) = av_typeDefinitionID av" "vs_Value (av_Snapshot av) = av_value av"
  "vs_ArchivedAt (av_Snapshot av) = av_archivedAt av" "av_Rehydrate (av_Snapshot av) = av"
  "in_slot def e sc (av_Snapshot av) \<longleftrightarrow> av_attributeDefID av = ad_id def \<and> av_entityID av = e \<and> av_archivedAt av = None \<and>
     scope_Equals (av_scope av) sc"
  by (simp_all add: av_snapshot_round) (auto simp: av_Snapshot_def in_slot_def scope_Equals_def)

text \<open>What the end of \<^verbatim>\<open>setWithin\<close> does: keep an equal value, or put one row, which is the value's old row or a new one.\<close>

definition row_kept :: "vctx \<Rightarrow> AttributeDefinition \<Rightarrow> EntityID \<Rightarrow> scope \<Rightarrow> gvalue \<Rightarrow> vtx \<Rightarrow> vtx \<Rightarrow> ValueSnapshot \<Rightarrow> bool" where
  "row_kept cx def e sc v t t' snap \<longleftrightarrow>
     t' = t \<and> snap \<in> set (vt_values t) \<and> in_slot def e sc snap \<and> Equal (cx_lib cx) (vs_Value snap) v"

definition put_row :: "vctx \<Rightarrow> AttributeDefinition \<Rightarrow> EntityID \<Rightarrow> scope \<Rightarrow> gvalue \<Rightarrow> vtx \<Rightarrow> vtx \<Rightarrow> ValueSnapshot \<Rightarrow> bool" where
  "put_row cx def e sc v t t' snap \<longleftrightarrow>
     in_slot def e sc snap \<and> vs_Value snap = v \<and> conforms (cx_lib cx) def (av_Rehydrate snap) \<and>
     vt_values t' = put_value snap (vt_values t) \<and> vt_tick t' = vt_tick t + 1"

definition replaces :: "AttributeDefinition \<Rightarrow> EntityID \<Rightarrow> scope \<Rightarrow> ValueSnapshot \<Rightarrow> ValueSnapshot \<Rightarrow> bool" where
  "replaces def e sc old snap \<longleftrightarrow> \<not> ad_multiValued def \<and> in_slot def e sc old \<and> vs_ID old = vs_ID snap \<and>
     vs_TypeDefinitionID old = vs_TypeDefinitionID snap \<and> vs_TenantID old = vs_TenantID snap"

definition adds :: "vctx \<Rightarrow> AttributeDefinition \<Rightarrow> TypeDefinitionID \<Rightarrow> EntityID \<Rightarrow> scope \<Rightarrow> vtx \<Rightarrow> ValueSnapshot \<Rightarrow> bool" where
  "adds cx def ty e sc t snap \<longleftrightarrow> vs_ID snap = cx_newID cx (vt_tick t) \<and> vs_TypeDefinitionID snap = ty \<and>
     vs_TenantID snap = ad_tenantID def \<and>
     (\<forall>x\<in>set (vt_values t). in_slot def e sc x \<longrightarrow> ad_multiValued def \<and> \<not> Equal (cx_lib cx) (vs_Value x) (vs_Value snap))"

lemma upsert_replace:
  assumes "upsert cx def ty e sc v t = Inr (t', snap)"
    and s: "\<not> ad_multiValued def" "existing_values cx def e sc (vt_values t) \<noteq> []" (is "?ex \<noteq> []")
  shows "row_kept cx def e sc v t t' snap \<or>
     put_row cx def e sc v t t' snap \<and> (\<exists>old\<in>set (vt_values t). replaces def e sc old snap)"
proof -
  let ?av = "hd ?ex"
  have av: "av_Snapshot ?av \<in> set (vt_values t)" "in_slot def e sc (av_Snapshot ?av)"
    using existing_in_slot [of ?av cx def e sc "vt_values t"] s by auto
  obtain av' evts where u: "av_UpdateValue (cx_lib cx) ?av (def, v) (cx_now cx t) = Inr (av', evts)" "snap = av_Snapshot av'"
    and t': "evts = [] \<Longrightarrow> t' = t" "evts \<noteq> [] \<Longrightarrow> vt_values t' = put_value snap (vt_values t) \<and> vt_tick t' = vt_tick t + 1"
    using assms unfolding upsert_def existing_values_def [symmetric]
    by (auto simp: Let_def rbind_Inr valueRepo_Save_def split: if_splits)
  from av_UpdateValue_cases [OF u(1)] consider
      "evts = []" "av' = ?av" "Equal (cx_lib cx) (av_value ?av) v"
    | "evts \<noteq> []" "av_fixed av' = av_fixed ?av" "av_value av' = v" "conforms (cx_lib cx) def av'"
    by (cases evts) auto
  then show ?thesis
  proof cases
    case 1
    then show ?thesis using av t'(1) by (simp add: row_kept_def u(2))
  next
    case 2
    have "av_archivedAt av' = None" using u(1) av(2) by (auto simp: av_UpdateValue_def Let_def split: if_splits option.splits)
    then have "put_row cx def e sc v t t' snap" "replaces def e sc (av_Snapshot ?av) snap"
      using 2 t'(2) av(2) s by (auto simp: put_row_def replaces_def u(2) av_fixed_def)
    with av(1) show ?thesis by blast
  qed
qed

lemma upsert_add:
  assumes "upsert cx def ty e sc v t = Inr (t', snap)"
    and s: "ad_multiValued def \<or> existing_values cx def e sc (vt_values t) = []" (is "_ \<or> ?ex = []")
  shows "row_kept cx def e sc v t t' snap \<or> put_row cx def e sc v t t' snap \<and> adds cx def ty e sc t snap"
proof (cases "find (\<lambda>av. Equal (cx_lib cx) (av_value av) v) ?ex")
  case (Some av)
  then have "av \<in> set ?ex" "Equal (cx_lib cx) (av_value av) v" by (auto simp: find_Some_iff)
  moreover have "t' = t" "snap = av_Snapshot av"
    using assms Some unfolding upsert_def existing_values_def [symmetric] by (auto simp: Let_def)
  ultimately show ?thesis using existing_in_slot [of av cx def e sc "vt_values t"] by (simp add: row_kept_def)
next
  case None
  from None assms obtain av evts where n: "av_New (cx_lib cx) def ty e sc v (cx_newID cx (vt_tick t)) (cx_now cx t) = Inr (av, evts)"
    "snap = av_Snapshot av" "vt_values t' = put_value snap (vt_values t)" "vt_tick t' = vt_tick t + 1"
    unfolding upsert_def existing_values_def [symmetric] by (auto simp: Let_def rbind_Inr valueRepo_Save_def)
  have "av_Rehydrate x \<in> set ?ex" if "x \<in> set (vt_values t)" "in_slot def e sc x" for x
    using that by (auto simp: set_existing)
  then have "ad_multiValued def \<and> \<not> Equal (cx_lib cx) (vs_Value x) v" if "x \<in> set (vt_values t)" "in_slot def e sc x" for x
    using that None s by (force simp: find_None_iff av_Rehydrate_def)
  moreover have "av_id av = cx_newID cx (vt_tick t)" "av_typeDefinitionID av = ty" "av_scope av = sc" "av_archivedAt av = None"
      "av_attributeDefID av = ad_id def" "av_tenantID av = ad_tenantID def" "av_entityID av = e" "av_value av = v"
    using n(1) by (auto simp: av_New_def Let_def split: if_splits option.splits)
  ultimately show ?thesis using n(3,4) av_New_conforms(1) [OF n(1)]
    by (simp add: put_row_def adds_def n(2) scope_Equals_def)
qed

lemma upsert_cases:
  assumes "upsert cx def ty e sc v t = Inr (t', snap)"
  shows "row_kept cx def e sc v t t' snap \<or> put_row cx def e sc v t t' snap \<and>
     ((\<exists>old\<in>set (vt_values t). replaces def e sc old snap) \<or> adds cx def ty e sc t snap)"
  using upsert_replace [OF assms] upsert_add [OF assms] by blast

lemma row_put_ok:
  assumes "put_row cx def e sc v t t' snap" "attrRepo_Get attrs (ad_id def) = Inr def" "vs_TenantID snap = ad_tenantID def"
    "scopeGuard def sc = None"
  shows "row_ok (cx_lib cx) attrs snap"
  using assms by (auto simp: put_row_def row_ok_def in_slot_def scope_fits_def scopeGuard_def conforms_def av_Rehydrate_def split: if_splits)

lemma slot_single:
  assumes "values_ok lib attrs s" "attrRepo_Get attrs (ad_id def) = Inr def" "\<not> ad_multiValued def"
    and "x \<in> set s" "in_slot def e sc x" "y \<in> set s" "in_slot def e sc y"
  shows "x = y"
  using values_okD(3,4) [OF assms(1,4,6)] assms(2,3,5,7) by (auto simp: pair_ok_def in_slot_def same_slot_def)

lemma upsert_keeps:
  assumes ok: "tx_ok cx attrs t" and def: "attrRepo_Get attrs (ad_id def) = Inr def" "ad_tenantID def = cx_tenant cx"
    and anchor: "\<And>x. x \<in> set (vt_values t) \<Longrightarrow> vs_TenantID x = cx_tenant cx \<Longrightarrow> vs_EntityID x = e \<Longrightarrow> vs_TypeDefinitionID x = ty"
    and uniq: "uniqueGuard (cx_lib cx) (vt_values t) def sc v e = None" and scope: "scopeGuard def sc = None"
    and up: "upsert cx def ty e sc v t = Inr (t', snap)"
  shows "tx_keeps cx attrs t t'"
proof -
  have s: "values_ok (cx_lib cx) attrs (vt_values t)" using ok by (simp add: tx_ok_def)
  have ten: "vs_TenantID x = cx_tenant cx" if "x \<in> set (vt_values t)" "in_slot def e sc x" for x
    using values_okD(2) [OF s that(1)] def that(2) by (auto simp: row_ok_def in_slot_def)
  from upsert_cases [OF up] consider "t' = t"
    | old where "put_row cx def e sc v t t' snap" "old \<in> set (vt_values t)" "replaces def e sc old snap"
    | "put_row cx def e sc v t t' snap" "adds cx def ty e sc t snap" by (auto simp: row_kept_def)
  then show ?thesis
  proof cases
    case (2 old)
    have x: "vs_TenantID snap = cx_tenant cx" "vs_ID old = vs_ID snap" "in_slot def e sc old" "vs_TypeDefinitionID snap = ty" "in_slot def e sc snap"
        "vs_Value snap = v" "vt_values t' = put_value snap (vt_values t)" "vt_tick t' = vt_tick t + 1"
      using ten [OF 2(2)] anchor [OF 2(2)] 2(1,3) by (auto simp: replaces_def put_row_def in_slot_def)
    show ?thesis
    proof (rule put_keeps [OF x(1) row_put_ok [OF 2(1)] _ _ x(7,8)])
      show "vs_ID snap \<in> vs_ID ` set (vt_values t) \<or> vs_ID snap = cx_newID cx (vt_tick t)"
        using 2(2) x(2) by (metis imageI)
    next
      fix y assume y: "y \<in> set (vt_values t)"
      show "vs_TenantID y = cx_tenant cx" if "vs_ID y = vs_ID snap"
        using values_okD(4) [OF s y 2(2)] that x(2) ten [OF 2(2) x(3)] by simp
      have "\<not> in_slot def e sc y" if "vs_ID y \<noteq> vs_ID snap"
        using slot_single [OF s def(1) _ y _ 2(2) x(3)] that x(2) 2(3) by (auto simp: replaces_def)
      then show "pair_ok (cx_lib cx) attrs snap y" if "vs_ID y \<noteq> vs_ID snap"
        using slot_pair [OF def(1) _ x(1,5)] uniq x anchor [OF y] y that by auto
    qed (use def x(1) scope in simp_all)
  next
    case 3
    have x: "vs_TenantID snap = cx_tenant cx" "vs_TypeDefinitionID snap = ty" "in_slot def e sc snap" "vs_ID snap = cx_newID cx (vt_tick t)"
        "vs_Value snap = v" "vt_values t' = put_value snap (vt_values t)" "vt_tick t' = vt_tick t + 1"
      using 3 def(2) by (auto simp: put_row_def adds_def)
    show ?thesis
    proof (rule put_keeps [OF x(1) row_put_ok [OF 3(1)] _ _ x(6,7)])
      fix y assume y: "y \<in> set (vt_values t)"
      show "vs_TenantID y = cx_tenant cx" if "vs_ID y = vs_ID snap"
        using that y ok x(4) imageI [OF y, of vs_ID] by (simp add: tx_ok_def)
      show "pair_ok (cx_lib cx) attrs snap y" if "vs_ID y \<noteq> vs_ID snap"
        using slot_pair [OF def(1) _ x(1,3)] uniq x anchor [OF y] y 3(2) Equal_sym [of "cx_lib cx" v] by (auto simp: adds_def)
    qed (use def x scope in auto)
  qed simp
qed

text \<open>Every accepted write: its guards held, and the rows it left satisfy the invariant.\<close>

definition write_scope :: "SetInput \<Rightarrow> scope" where
  "write_scope inp = \<lparr>Locale = si_Locale inp, Channel = si_Channel inp\<rparr>"

lemma setWithin_run:
  assumes "setWithin cx rp t inp = Inr (t', snap)"
  obtains defID e def s ty v where "cx_parseID cx (si_AttributeDefinitionID inp) = Inr defID" "ParseEntityID (si_EntityID inp) = Inr e"
    "attrRepo_Get (rp_attrs rp) defID = Inr def" "ad_tenantID def = cx_tenant cx"
    "resolveEntityType cx rp (vt_values t) def e (si_TypeDefinitionID inp) = Inr (s, ty)"
    "checkInherited rp def ty = Inr ()" "checkTypeLive rp ty = Inr ()" "writeGuard cx def (si_Internal inp \<and> IsComputed def) = None"
    "decodeValue cx rp s def inp = Inr v" "scopeGuard def (write_scope inp) = None" "checkDependencies cx rp s def ty e v = None"
    "uniqueGuard (cx_lib cx) s def (write_scope inp) v e = None"
    "upsert cx def ty e (write_scope inp) v (noteWrite \<lparr>er_tenant = ad_tenantID def, er_typeID = ty, er_entity = e, er_fullView = False\<rparr>
       (si_Internal inp \<and> IsComputed def) (t\<lparr>vt_values := s\<rparr>)) = Inr (t', snap)"
  using assms that unfolding setWithin_def write_scope_def Let_def
  by (auto simp: rbind_Inr rguard_Inr as_validation_Inr EnsureTenant_def split: if_splits)

lemma setWithin_keeps:
  assumes "setWithin cx rp t inp = Inr (t', snap)" "rp_attrs rp = attrs"
  shows "tx_keeps cx attrs t t'"
proof (cases "tx_ok cx attrs t")
  case True
  from assms(1) obtain defID e def s ty v where w: "attrRepo_Get (rp_attrs rp) defID = Inr def" "ad_tenantID def = cx_tenant cx"
    "resolveEntityType cx rp (vt_values t) def e (si_TypeDefinitionID inp) = Inr (s, ty)"
    "uniqueGuard (cx_lib cx) s def (write_scope inp) v e = None" "scopeGuard def (write_scope inp) = None"
    "upsert cx def ty e (write_scope inp) v (noteWrite \<lparr>er_tenant = ad_tenantID def, er_typeID = ty, er_entity = e, er_fullView = False\<rparr>
       (si_Internal inp \<and> IsComputed def) (t\<lparr>vt_values := s\<rparr>)) = Inr (t', snap)" (is "upsert _ _ _ _ _ _ ?t = _")
    by (rule setWithin_run)
  have d: "attrRepo_Get attrs (ad_id def) = Inr def" using w(1) mem_attrs.get_id [OF w(1)] assms(2) by simp
  have k: "tx_keeps cx attrs t ?t" using resolve_keeps(1) [OF w(3), of attrs] by (simp add: tx_keeps_cong(1) [of ?t "t\<lparr>vt_values := s\<rparr>"])
  then have ok: "tx_ok cx attrs ?t" using True by (simp add: tx_keeps_def)
  have "tx_keeps cx attrs ?t t'"
    by (rule upsert_keeps [OF ok d w(2) _ _ w(5,6)])
      (use w(4) resolve_keeps(2) [OF w(3), of attrs] True in \<open>auto simp: tx_ok_def\<close>)
  with k show ?thesis by (rule tx_keeps_trans)
qed (simp add: tx_keeps_def)

section \<open>Removals, batches and mutations\<close>

lemma archived_pair:
  "vs_ArchivedAt x' \<noteq> None \<Longrightarrow> vs_TenantID x' = vs_TenantID x \<Longrightarrow> vs_EntityID x' = vs_EntityID x \<Longrightarrow>
    vs_TypeDefinitionID x' = vs_TypeDefinitionID x \<Longrightarrow> pair_ok lib attrs x y \<Longrightarrow> pair_ok lib attrs x' y"
  by (auto simp: pair_ok_def)

text \<open>The values to remove are rows of the caller's tenant, as the unit of work has them.\<close>

lemma remove_value_keeps:
  assumes "remove_value cx av t = Inr (t', snap)" "av_Snapshot av \<in> set (vt_values t)" "av_tenantID av = cx_tenant cx"
  shows "tx_keeps cx attrs t t' \<and> vt_values t' = put_value snap (vt_values t) \<and> vs_ID snap = av_id av \<and> vs_ArchivedAt snap \<noteq> None"
proof -
  let ?old = "av_Snapshot av"
  from assms(1) obtain av' evts where r: "av_Remove av (cx_now cx t) = Inr (av', evts)" "snap = av_Snapshot av'"
    "vt_values t' = put_value snap (vt_values t)" "vt_tick t' = vt_tick t + 1"
    by (auto simp: remove_value_def Let_def rbind_Inr valueRepo_Save_def)
  have f: "vs_ID snap = vs_ID ?old" "vs_TenantID snap = cx_tenant cx" "vs_EntityID snap = vs_EntityID ?old" "vs_TenantID snap = vs_TenantID ?old"
    "vs_TypeDefinitionID snap = vs_TypeDefinitionID ?old" "vs_ArchivedAt snap \<noteq> None" "row_ok lib attrs ?old \<Longrightarrow> row_ok lib attrs snap" for lib
    using r(1,2) assms(3) by (auto simp: av_Remove_def row_ok_def conforms_def av_Snapshot_def av_Rehydrate_def split: if_splits)
  have "tx_keeps cx attrs t t'" if ok: "tx_ok cx attrs t"
  proof (rule put_keeps [OF f(2) _ _ _ r(3,4)])
    have s: "values_ok (cx_lib cx) attrs (vt_values t)" using ok by (simp add: tx_ok_def)
    show "row_ok (cx_lib cx) attrs snap" using values_okD(2) [OF s assms(2)] f(7) by simp
    show "vs_ID snap \<in> vs_ID ` set (vt_values t) \<or> vs_ID snap = cx_newID cx (vt_tick t)" using assms(2) f(1) by (metis imageI)
    fix y assume y: "y \<in> set (vt_values t)"
    show "vs_TenantID y = cx_tenant cx" if "vs_ID y = vs_ID snap"
      using values_okD(4) [OF s y assms(2)] that f(1,2,4) by simp
    show "pair_ok (cx_lib cx) attrs snap y" if "vs_ID y \<noteq> vs_ID snap"
      using values_okD(3) [OF s assms(2) y] that f(1,3-6) archived_pair [of snap ?old] by metis
  qed
  then show ?thesis using r(3) f(1,6) by (auto simp: tx_keeps_def)
qed

lemma remove_noted_keeps:
  assumes "remove_noted cx def av t = Inr (t', snap)" "av_Snapshot av \<in> set (vt_values t)" "av_tenantID av = cx_tenant cx"
  shows "tx_keeps cx attrs t t' \<and> vt_values t' = put_value snap (vt_values t) \<and> vs_ID snap = av_id av \<and> vs_ArchivedAt snap \<noteq> None"
proof -
  from assms(1) obtain u where u: "remove_value cx av t = Inr (u, snap)" "vt_values t' = vt_values u" "vt_tick t' = vt_tick u"
    by (auto simp: remove_noted_def rbind_Inr)
  then show ?thesis using remove_value_keeps [OF u(1) assms(2,3)] tx_keeps_cong(1) [OF u(2,3)] by auto
qed

text \<open>A list of distinct rows to remove: each is still there when its turn comes.\<close>

definition removable :: "vctx \<Rightarrow> AttributeValue list \<Rightarrow> vtx \<Rightarrow> bool" where
  "removable cx vals t \<longleftrightarrow> distinct (map av_id vals) \<and>
     (\<forall>av\<in>set vals. av_Snapshot av \<in> set (vt_values t) \<and> av_tenantID av = cx_tenant cx)"

lemma removal_run:
  assumes r: "removable cx (av # vals) t" and "removable cx vals u \<Longrightarrow> tx_keeps cx attrs u t'"
    and u: "tx_keeps cx attrs t u \<and> vt_values u = put_value snap (vt_values t) \<and> vs_ID snap = av_id av \<and> vs_ArchivedAt snap \<noteq> None"
  shows "tx_keeps cx attrs t t'"
proof (cases "tx_ok cx attrs t")
  case True
  then have d: "distinct (map vs_ID (vt_values t))" by (simp add: tx_ok_def values_ok_def)
  have "av_id av' \<noteq> av_id av" if "av' \<in> set vals" for av'
    using r imageI [OF that, of av_id] by (auto simp: removable_def)
  then have "removable cx vals u" using r u by (auto simp: removable_def set_put_value_eq [OF d])
  with assms(2) u show ?thesis using tx_keeps_trans by blast
qed (simp add: tx_keeps_def)

lemma remove_all_keeps:
  "remove_all cx vals t = Inr t' \<Longrightarrow> removable cx vals t \<Longrightarrow> tx_keeps cx attrs t t'"
proof (induction vals arbitrary: t)
  case (Cons av vals)
  then obtain u snap where u: "remove_value cx av t = Inr (u, snap)" "remove_all cx vals u = Inr t'" by (auto simp: rbind_Inr)
  show ?case
    by (rule removal_run [OF Cons.prems(2) Cons.IH [OF u(2)] remove_value_keeps [OF u(1)]])
      (use Cons.prems(2) in \<open>simp_all add: removable_def\<close>)
qed simp

lemma remove_scoped_keeps:
  "remove_scoped cx def vals t = Inr t' \<Longrightarrow> removable cx vals t \<Longrightarrow> tx_keeps cx attrs t t'"
proof (induction vals arbitrary: t)
  case (Cons av vals)
  then obtain u snap where u: "remove_noted cx def av t = Inr (u, snap)" "remove_scoped cx def vals u = Inr t'" by (auto simp: rbind_Inr)
  show ?case
    by (rule removal_run [OF Cons.prems(2) Cons.IH [OF u(2)] remove_noted_keeps [OF u(1)]])
      (use Cons.prems(2) in \<open>simp_all add: removable_def\<close>)
qed simp

text \<open>Rows a query returns are removable.\<close>

lemma distinct_map_sort: "distinct (map f (sort_key k xs)) \<longleftrightarrow> distinct (map f xs)"
  by (metis card_distinct distinct_card length_map length_sort set_map set_sort)

lemma query_removable:
  assumes "tx_ok cx attrs t" "\<And>x. P x \<Longrightarrow> vs_TenantID x = cx_tenant cx"
  shows "removable cx (values_where (cx_idString cx) P (vt_values t)) t"
proof -
  have d: "distinct (map vs_ID (filter P (vt_values t)))" using assms(1) by (auto simp: tx_ok_def values_ok_def distinct_map_filter)
  have "distinct (map av_id (map av_Rehydrate (filter P (vt_values t))))"
    using d by (simp add: comp_def av_Rehydrate_def)
  then have "distinct (map av_id (values_where (cx_idString cx) P (vt_values t)))"
    unfolding values_where_def sortByID_def distinct_map_sort .
  then show ?thesis using assms(2) by (auto simp: removable_def set_values_where av_snapshot_round) (auto simp: av_Rehydrate_def)
qed

lemma removable_filter: "removable cx vals t \<Longrightarrow> removable cx (filter P vals) t"
  by (auto simp: removable_def distinct_map_filter)

lemma filter_sortByID: "filter P (sortByID k xs) = sortByID k (filter P xs)"
  by (simp add: sortByID_def filter_sort)

lemma removeScopedWithin_keeps:
  assumes "removeScopedWithin cx rp t m = Inr t'"
  shows "tx_keeps cx attrs t t'"
proof (cases "tx_ok cx attrs t")
  case True
  from assms obtain def defID e where r: "remove_scoped cx def
      (filter (\<lambda>av. av_tenantID av = cx_tenant cx \<and> Locale (av_scope av) = mu_Locale m \<and> Channel (av_scope av) = mu_Channel m)
         (FindByDefinitionAndEntity (cx_idString cx) (vt_values t) defID e)) t = Inr t'"
    by (auto simp: removeScopedWithin_def rbind_Inr rguard_Inr split: if_splits)
  let ?P = "\<lambda>x. vs_AttributeDefinitionID x = defID \<and> vs_EntityID x = e \<and> vs_ArchivedAt x = None"
  have "values_where (cx_idString cx) (\<lambda>x. ?P x \<and> vs_TenantID x = cx_tenant cx) (vt_values t) =
      filter (\<lambda>av. av_tenantID av = cx_tenant cx) (values_where (cx_idString cx) ?P (vt_values t))"
    by (simp add: values_where_def filter_sortByID filter_map comp_def av_Rehydrate_def conj_commute)
  then have "removable cx (filter (\<lambda>av. av_tenantID av = cx_tenant cx) (values_where (cx_idString cx) ?P (vt_values t))) t"
    using query_removable [OF True, of "\<lambda>x. ?P x \<and> vs_TenantID x = cx_tenant cx"] by simp
  from removable_filter [OF this, of "\<lambda>av. Locale (av_scope av) = mu_Locale m \<and> Channel (av_scope av) = mu_Channel m"]
  show ?thesis using remove_scoped_keeps [OF r] by (simp add: FindByDefinitionAndEntity_def conj_ac)
qed (simp add: tx_keeps_def)

lemma applyMutation_keeps: "applyMutation cx rp t m = Inr t' \<Longrightarrow> rp_attrs rp = attrs \<Longrightarrow> tx_keeps cx attrs t t'"
  by (auto simp: applyMutation_def map_sum_Inr intro: setWithin_keeps removeScopedWithin_keeps split: if_splits)

lemma apply_each_keeps: "apply_each cx rp muts order t = Inr t' \<Longrightarrow> rp_attrs rp = attrs \<Longrightarrow> tx_keeps cx attrs t t'"
  by (induction order arbitrary: t) (auto simp: rbind_Inr dest!: applyMutation_keeps intro: tx_keeps_trans)

lemma set_each_keeps:
  "set_each cx rp items order (t, out) = Inr (t', out') \<Longrightarrow> rp_attrs rp = attrs \<Longrightarrow> tx_keeps cx attrs t t'"
proof (induction order arbitrary: t out)
  case (Cons idx order)
  then obtain u snap where "setWithin cx rp t (items ! idx) = Inr (u, snap)" "set_each cx rp items order (u, (idx, snap) # out) = Inr (t', out')"
    by (auto simp: rbind_Inr)
  then show ?case using setWithin_keeps [of cx rp t "items ! idx" u snap attrs] Cons tx_keeps_trans by blast
qed simp

section \<open>Reachable stores\<close>

text \<open>A use case starts from the committed rows. Its identifiers are new: distinct draws, none of them in the store.\<close>

definition ids_fresh :: "vctx \<Rightarrow> value_store \<Rightarrow> bool" where
  "ids_fresh cx s \<longleftrightarrow> inj (cx_newID cx) \<and> range (cx_newID cx) \<inter> vs_ID ` set s = {}"

lemma begin_ok: "values_ok (cx_lib cx) attrs s \<Longrightarrow> ids_fresh cx s \<Longrightarrow> tx_ok cx attrs (begin_vtx s)"
  by (auto simp: tx_ok_def ids_fresh_def begin_vtx_def)

lemma begin_values [simp]: "vt_values (begin_vtx s) = s"
  by (simp add: begin_vtx_def)

lemma finish_Inr: "finish_vtx cx rp r = Inr r' \<longleftrightarrow> r' = r \<and> enforceRequiredOnWrite cx rp (vt_values (fst r)) (vt_gate (fst r)) = None"
  by (auto simp: finish_vtx_def rguard_Inr)

text \<open>The calls that change stored values, each with the rows it leaves.\<close>

inductive value_call :: "vctx \<Rightarrow> vrepos \<Rightarrow> value_store \<Rightarrow> value_store \<Rightarrow> bool" for cx rp s where
  call_Set: "value_Set cx rp s inp = Inr (t, snap) \<Longrightarrow> value_call cx rp s (vt_values t)"
| call_Batch: "SetBatch cx rp s items = Inr (t, snaps) \<Longrightarrow> value_call cx rp s (vt_values t)"
| call_Mutations: "ApplyMutations cx rp s muts = Inr t \<Longrightarrow> value_call cx rp s (vt_values t)"
| call_Remove: "value_Remove cx rp s raw = Inr (t, snap) \<Longrightarrow> value_call cx rp s (vt_values t)"
| call_RemoveEntity: "RemoveEntity cx rp s links rawType rawEntity = Inr (t, rest) \<Longrightarrow> value_call cx rp s (vt_values t)"
| call_PurgeEntity: "ek_TenantID key = cx_tenant cx \<Longrightarrow> value_call cx rp s (fst (valueRepo_PurgeEntity s key))"
| call_PurgeTenant: "value_call cx rp s (fst (valueRepo_PurgeTenant s (cx_tenant cx)))"

lemma filter_ok: "values_ok lib attrs s \<Longrightarrow> values_ok lib attrs (filter P s)"
  by (auto simp: values_ok_def distinct_map_filter)

lemma unlink_same: "unlink_all cx rels (t, links, evs, chs) = Inr (t', rest) \<Longrightarrow> vt_values t' = vt_values t"
  by (induction rels arbitrary: t links evs chs) (auto simp: rbind_Inr)

lemma purge_keeps:
  assumes "values_ok lib attrs s" "\<And>x. P x \<Longrightarrow> vs_TenantID x = ten"
  shows "values_ok lib attrs (fst (purge_where P s)) \<and> others ten (fst (purge_where P s)) = others ten s"
  using filter_ok [OF assms(1)] assms(2) by (auto simp: purge_where_def others_def intro: filter_cong)

lemma value_call_keeps:
  assumes "value_call cx rp s s'" and s: "values_ok (cx_lib cx) (rp_attrs rp) s" "ids_fresh cx s"
  shows "values_ok (cx_lib cx) (rp_attrs rp) s' \<and> others (cx_tenant cx) s' = others (cx_tenant cx) s"
proof -
  have ok: "tx_ok cx (rp_attrs rp) (begin_vtx s)" by (rule begin_ok [OF s])
  have fin: "values_ok (cx_lib cx) (rp_attrs rp) (vt_values t) \<and> others (cx_tenant cx) (vt_values t) = others (cx_tenant cx) s"
    if "tx_keeps cx (rp_attrs rp) (begin_vtx s) t" for t
    using that ok by (simp add: tx_keeps_def tx_ok_def)
  from assms(1) show ?thesis
  proof cases
    case (call_Set inp t snap)
    then have "setWithin cx rp (begin_vtx s) inp = Inr (t, snap)" by (auto simp: value_Set_def rbind_Inr finish_Inr)
    from fin [OF setWithin_keeps [OF this refl]] show ?thesis unfolding call_Set(1) .
  next
    case (call_Batch items t snaps)
    then obtain out where "set_each cx rp items (canonicalOrder items si_EntityID) (begin_vtx s, []) = Inr (t, out)"
      by (auto simp: SetBatch_def rbind_Inr finish_Inr split: if_splits)
    from fin [OF set_each_keeps [OF this refl]] show ?thesis unfolding call_Batch(1) .
  next
    case (call_Mutations muts t)
    then have "muts = [] \<and> t = begin_vtx s \<or> apply_each cx rp muts (canonicalOrder muts mu_EntityID) (begin_vtx s) = Inr t"
      by (auto simp: ApplyMutations_def rbind_Inr map_sum_Inr finish_Inr split: if_splits)
    then have "tx_keeps cx (rp_attrs rp) (begin_vtx s) t" using apply_each_keeps by auto
    from fin [OF this] show ?thesis unfolding call_Mutations(1) .
  next
    case (call_Remove raw t snap)
    then obtain i av def where r: "valueRepo_Get s i = Inr av" "av_tenantID av = cx_tenant cx"
      "remove_noted cx def av (begin_vtx s) = Inr (t, snap)"
      by (auto simp: value_Remove_def rbind_Inr rguard_Inr finish_Inr EnsureTenant_def split: if_splits)
    have "av_Snapshot av \<in> set (vt_values (begin_vtx s))"
      using r(1) by (auto simp: valueRepo_Get_def av_snapshot_round find_Some_iff split: option.splits)
    from fin remove_noted_keeps [OF r(3) this r(2)] show ?thesis unfolding call_Remove(1) by blast
  next
    case (call_RemoveEntity links rawType rawEntity t rest)
    then obtain ty e u where r: "remove_all cx (ListByEntity (cx_idString cx) s \<lparr>ek_TenantID = cx_tenant cx, ek_TypeDefinitionID = ty,
        ek_EntityID = e\<rparr>) (begin_vtx s) = Inr u" and u: "vt_values t = vt_values u"
      by (auto simp: RemoveEntity_def Let_def rbind_Inr rguard_Inr finish_Inr split: if_splits dest!: unlink_same)
    from fin [OF remove_all_keeps [OF r]] show ?thesis unfolding call_RemoveEntity(1) u ListByEntity_def
      using query_removable [OF ok, of "\<lambda>x. vs_TenantID x = cx_tenant cx \<and> vs_TypeDefinitionID x = ty \<and> vs_EntityID x = e \<and> vs_ArchivedAt x = None"]
      by simp
  next
    case (call_PurgeEntity key)
    show ?thesis unfolding call_PurgeEntity(1) valueRepo_PurgeEntity_def
      by (rule purge_keeps [OF s(1)]) (use call_PurgeEntity(2) in simp)
  next
    case call_PurgeTenant
    show ?thesis unfolding call_PurgeTenant valueRepo_PurgeTenant_def by (rule purge_keeps [OF s(1)])
  qed
qed

section \<open>The effect of an accepted write\<close>

lemma put_mem: "distinct (map vs_ID s) \<Longrightarrow> x \<in> set (put_value x s)"
  by (simp add: set_put_value_eq)

text \<open>The row the call reports is stored, live, in the slot of the write; it holds the value the call
  decoded or one equal to it; a single-valued attribute holds no other.\<close>

lemma upsert_effect:
  assumes "tx_ok cx attrs t" "attrRepo_Get attrs (ad_id def) = Inr def" "upsert cx def ty e sc v t = Inr (t', snap)"
    "tx_ok cx attrs t'"
  shows "snap \<in> set (vt_values t') \<and> in_slot def e sc snap \<and> (vs_Value snap = v \<or> Equal (cx_lib cx) (vs_Value snap) v) \<and>
    (\<not> ad_multiValued def \<longrightarrow> (\<forall>y\<in>set (vt_values t'). in_slot def e sc y \<longrightarrow> y = snap))"
proof -
  have ok: "values_ok (cx_lib cx) attrs (vt_values t)" "values_ok (cx_lib cx) attrs (vt_values t')" using assms(1,4) by (auto simp: tx_ok_def)
  have "snap \<in> set (vt_values t') \<and> in_slot def e sc snap \<and> (vs_Value snap = v \<or> Equal (cx_lib cx) (vs_Value snap) v)"
    using upsert_cases [OF assms(3)] put_mem [OF values_okD(1) [OF ok(1)]] by (auto simp: row_kept_def put_row_def)
  then show ?thesis using slot_single [OF ok(2) assms(2)] by blast
qed

lemma upsert_gate: "upsert cx def ty e sc v t = Inr (t', snap) \<Longrightarrow> vt_gate t' = vt_gate t"
  by (auto simp: upsert_def Let_def rbind_Inr gcMediaAfterCommit_def tick_def split: if_splits option.splits)

lemma setWithin_gate:
  assumes "setWithin cx rp t inp = Inr (t', snap)"
  shows "vt_gate t' = vt_gate t \<or> (\<exists>ref. er_tenant ref = cx_tenant cx \<and> vt_gate t' = gate_add ref (vt_gate t))"
  using assms
proof (rule setWithin_run)
  fix def s ty e v
  assume a: "ad_tenantID def = cx_tenant cx" "upsert cx def ty e (write_scope inp) v
    (noteWrite \<lparr>er_tenant = ad_tenantID def, er_typeID = ty, er_entity = e, er_fullView = False\<rparr>
       (si_Internal inp \<and> IsComputed def) (t\<lparr>vt_values := s\<rparr>)) = Inr (t', snap)"
  have "er_tenant \<lparr>er_tenant = ad_tenantID def, er_typeID = ty, er_entity = e, er_fullView = False\<rparr> = cx_tenant cx" using a(1) by simp
  then show ?thesis unfolding upsert_gate [OF a(2)] noteWrite_def by (cases "si_Internal inp \<and> IsComputed def") (simp, force)
qed

lemma setWithin_effect:
  assumes "tx_ok cx (rp_attrs rp) t" "setWithin cx rp t inp = Inr (t', snap)"
  obtains defID e def v where "cx_parseID cx (si_AttributeDefinitionID inp) = Inr defID" "ParseEntityID (si_EntityID inp) = Inr e"
    "attrRepo_Get (rp_attrs rp) defID = Inr def" "ad_tenantID def = cx_tenant cx"
    "writeGuard cx def (si_Internal inp \<and> IsComputed def) = None" "checkTypeLive rp (vs_TypeDefinitionID snap) = Inr ()"
    "checkInherited rp def (vs_TypeDefinitionID snap) = Inr ()"
    "snap \<in> set (vt_values t')" "in_slot def e (write_scope inp) snap" "vs_TenantID snap = cx_tenant cx"
    "ad_multiValued def \<or> (\<forall>y\<in>set (vt_values t'). in_slot def e (write_scope inp) y \<longrightarrow> y = snap)"
    "vs_Value snap = v \<or> Equal (cx_lib cx) (vs_Value snap) v" "\<exists>s. decodeValue cx rp s def inp = Inr v"
    "si_Internal inp \<and> IsComputed def \<or> \<lparr>er_tenant = cx_tenant cx, er_typeID = vs_TypeDefinitionID snap, er_entity = e, er_fullView = False\<rparr>
       \<in> set (rg_order (vt_gate t'))"
proof -
  note ok = assms(1)
  from assms(2) obtain defID e def s ty v where w: "cx_parseID cx (si_AttributeDefinitionID inp) = Inr defID" "ParseEntityID (si_EntityID inp) = Inr e"
    "attrRepo_Get (rp_attrs rp) defID = Inr def" "ad_tenantID def = cx_tenant cx"
    "resolveEntityType cx rp (vt_values t) def e (si_TypeDefinitionID inp) = Inr (s, ty)"
    "checkInherited rp def ty = Inr ()" "checkTypeLive rp ty = Inr ()" "writeGuard cx def (si_Internal inp \<and> IsComputed def) = None"
    "decodeValue cx rp s def inp = Inr v"
    "upsert cx def ty e (write_scope inp) v (noteWrite \<lparr>er_tenant = ad_tenantID def, er_typeID = ty, er_entity = e, er_fullView = False\<rparr>
       (si_Internal inp \<and> IsComputed def) (t\<lparr>vt_values := s\<rparr>)) = Inr (t', snap)" (is "upsert _ _ _ _ _ _ ?t = _")
    by (rule setWithin_run)
  have d: "attrRepo_Get (rp_attrs rp) (ad_id def) = Inr def" using w(3) mem_attrs.get_id [OF w(3)] by simp
  have ok1: "tx_ok cx (rp_attrs rp) ?t"
    using resolve_keeps(1) [OF w(5), of "rp_attrs rp"] ok by (simp add: tx_keeps_def tx_ok_def)
  have ok2: "tx_ok cx (rp_attrs rp) t'" using setWithin_keeps [OF assms(2) refl] ok by (simp add: tx_keeps_def)
  note eff = upsert_effect [OF ok1 d w(10) ok2]
  have row: "vs_TenantID snap = cx_tenant cx" "vs_EntityID snap = e"
    using eff d values_okD(2) [of "cx_lib cx" "rp_attrs rp" "vt_values t'" snap] ok2 w(4) by (auto simp: tx_ok_def row_ok_def in_slot_def)
  have old: "vs_TypeDefinitionID x = ty" if "x \<in> set (vt_values ?t)" "vs_TenantID x = cx_tenant cx" "vs_EntityID x = e" for x
    using resolve_keeps(2) [OF w(5), of "rp_attrs rp" x] that ok by (simp add: tx_ok_def)
  have "vs_TypeDefinitionID snap = ty"
    using upsert_cases [OF w(10)] old row by (auto simp: row_kept_def replaces_def adds_def in_slot_def)
  moreover have "si_Internal inp \<and> IsComputed def \<or> \<lparr>er_tenant = cx_tenant cx, er_typeID = ty, er_entity = e, er_fullView = False\<rparr>
       \<in> set (rg_order (vt_gate t'))" using w(4) by (auto simp: upsert_gate [OF w(10)] noteWrite_def gate_add_def)
  ultimately show thesis using that [OF w(1-4,8)] w(6,7,9) eff row by blast
qed

section \<open>Demanded values\<close>

definition row_key :: "ValueSnapshot \<Rightarrow> EntityKey" where
  "row_key x = \<lparr>ek_TenantID = vs_TenantID x, ek_TypeDefinitionID = vs_TypeDefinitionID x, ek_EntityID = vs_EntityID x\<rparr>"

text \<open>A live dependency of the tenant that demands a value of \<open>a\<close> on every write.\<close>

definition demands_live :: "vrepos \<Rightarrow> TenantID \<Rightarrow> AttributeDefinition \<Rightarrow> bool" where
  "demands_live rp ten a \<longleftrightarrow> (\<exists>d\<in>set (rp_deps rp). dep_archivedAt d = None \<and> dep_tenantID d = ten \<and> dep_targetID d = ad_id a \<and>
     DemandsValue (dep_effect d) \<and> effect_Enforcement (dep_effect d) = EnforceOnWrite)"

definition resolved :: "vctx \<Rightarrow> vrepos \<Rightarrow> AttributeValue list \<Rightarrow> AttributeDefinition \<Rightarrow> EffectiveSchema result" where
  "resolved cx rp vals a =
     ResolveEffectiveWithContext (cx_lib cx) a (depRepo_ListByTarget (cx_idString cx) (rp_deps rp) (ad_id a)) (filled_by vals)
       (cx_facts cx) (cx_localNow cx)"

lemma set_deps_where: "set (deps_where idString P s) = {d \<in> set s. dep_archivedAt d = None \<and> P d}"
  by (auto simp: deps_where_def sortByID_def)

lemma gate_enforced:
  assumes none: "enforceRequiredOnWrite cx rp s gate = None" and ref: "ref \<in> set (rg_order gate)" "\<not> er_fullView ref"
    and ten: "\<And>r. r \<in> set (rg_order gate) \<Longrightarrow> er_tenant r = ten" and admin: "Admin (cx_access cx)"
    and vals: "vals = ListByEntity (cx_idString cx) s \<lparr>ek_TenantID = ten, ek_TypeDefinitionID = er_typeID ref, ek_EntityID = er_entity ref\<rparr>" "vals \<noteq> []"
    and schema: "gateSchema cx rp (er_typeID ref) = Inr schema" "a \<in> set schema" "demands_live rp ten a"
  shows "\<exists>eff. resolved cx rp vals a = Inr eff \<and> (demands_on_write eff \<longrightarrow> filled_by vals (ad_id a) \<noteq> [])"
proof -
  let ?blocking = "depRepo_ListEnforcedOnWrite (cx_idString cx) (rp_deps rp) ten"
  from schema(3) obtain d where d: "d \<in> set ?blocking" "dep_targetID d = ad_id a" "d \<in> set (depRepo_ListByTarget (cx_idString cx) (rp_deps rp) (ad_id a))"
    by (auto simp: demands_live_def depRepo_ListEnforcedOnWrite_def depRepo_ListByTarget_def set_deps_where)
  obtain r rs where r: "rg_order gate = r # rs" using ref(1) by (cases "rg_order gate") auto
  then have "er_tenant r = ten" using ten by simp
  then have "first_err (gate_entity cx rp s (dep_targetID ` set ?blocking) gate) (rg_order gate) = None"
    using none d(1) r by (auto simp: enforceRequiredOnWrite_def Let_def simp del: first_err.simps first_err_None split: if_splits)
  then have "gate_entity cx rp s (dep_targetID ` set ?blocking) gate ref = None" using ref(1) by simp
  then have "gate_attribute cx rp (dep_targetID ` set ?blocking) gate ref (filled_by vals) a = None"
    using vals schema(1,2) ref ten admin by (auto simp: gate_entity_def Let_def readableOnly_def split: if_splits)
  moreover have "ad_id a \<in> dep_targetID ` set ?blocking" using d(1,2) by (metis imageI)
  moreover have "CanRead (cx_access cx) (ad_internalName a)" using admin by (simp add: CanRead_def)
  ultimately show ?thesis using d(3) ref(2)
    by (auto simp: gate_attribute_def resolved_def Let_def split: if_splits sum.splits)
qed

lemma Set_demanded:
  assumes s: "values_ok (cx_lib cx) (rp_attrs rp) s" "ids_fresh cx s" and admin: "Admin (cx_access cx)"
    and set: "value_Set cx rp s inp = Inr (t, snap)" "\<not> si_Internal inp"
    and schema: "gateSchema cx rp (vs_TypeDefinitionID snap) = Inr schema" "a \<in> set schema" "demands_live rp (cx_tenant cx) a"
  shows "\<exists>eff. resolved cx rp (ListByEntity (cx_idString cx) (vt_values t) (row_key snap)) a = Inr eff \<and>
    (demands_on_write eff \<longrightarrow> filled_by (ListByEntity (cx_idString cx) (vt_values t) (row_key snap)) (ad_id a) \<noteq> [])"
proof -
  from set have w: "setWithin cx rp (begin_vtx s) inp = Inr (t, snap)"
    "enforceRequiredOnWrite cx rp (vt_values t) (vt_gate t) = None" by (auto simp: value_Set_def rbind_Inr finish_Inr)
  obtain e def where e: "in_slot def e (write_scope inp) snap" "snap \<in> set (vt_values t)" "vs_TenantID snap = cx_tenant cx"
    "\<lparr>er_tenant = cx_tenant cx, er_typeID = vs_TypeDefinitionID snap, er_entity = e, er_fullView = False\<rparr> \<in> set (rg_order (vt_gate t))"
    using setWithin_effect [OF begin_ok [OF s] w(1)] set(2) by metis
  have live: "vs_EntityID snap = e" "vs_ArchivedAt snap = None" using e(1) by (auto simp: in_slot_def)
  from setWithin_gate [OF w(1)]
  have ten: "er_tenant r = cx_tenant cx" if "r \<in> set (rg_order (vt_gate t))" for r
    using that by (auto simp: gate_add_def begin_vtx_def)
  have "av_Rehydrate snap \<in> set (ListByEntity (cx_idString cx) (vt_values t) (row_key snap))"
    using e(2) live by (auto simp: ListByEntity_def set_values_where row_key_def)
  then have "ListByEntity (cx_idString cx) (vt_values t) (row_key snap) \<noteq> []" by auto
  then show ?thesis
    by (intro gate_enforced [OF w(2) e(4) _ ten admin _ _ _ schema(2,3)])
      (use schema(1) e(3) live(1) in \<open>simp_all add: row_key_def\<close>)
qed

section \<open>Archived types\<close>

text \<open>The guard against archived types does not look at \<^verbatim>\<open>Internal\<close>.\<close>

lemma archived_refused:
  assumes "cx_parseID cx (si_AttributeDefinitionID inp) = Inr defID" "ParseEntityID (si_EntityID inp) = Inr e"
    and "si_Value inp \<noteq> RawNil" "si_Value inp \<noteq> Raw JNull"
    and "attrRepo_Get (rp_attrs rp) defID = Inr def" "ad_tenantID def = cx_tenant cx"
    and "resolveEntityType cx rp (vt_values t) def e (si_TypeDefinitionID inp) = Inr (s, ty)"
    and "checkInherited rp def ty = Inr ()" "types_get rp ty = Inr td" "Chain (types_get rp) td = Inr chain"
    and "link \<in> set chain" "type_IsArchived link"
  shows "setWithin cx rp t inp = Inl (NewArchived type_AggregateType)"
  using assms by (auto simp: setWithin_def checkTypeLive_def EnsureTenant_def list_ex_iff)

section \<open>Canonical order\<close>

lemma canonicalOrder_perm: "set (canonicalOrder items f) = {0..<length items}" "distinct (canonicalOrder items f)"
  by (simp_all add: canonicalOrder_def)

lemma canonicalOrder_sorted: "sorted (map (\<lambda>i. f (items ! i)) (canonicalOrder items f))"
  by (simp add: canonicalOrder_def)

lemma canonicalOrder_stable:
  "filter (\<lambda>i. f (items ! i) = e) (canonicalOrder items f) = filter (\<lambda>i. f (items ! i) = e) [0..<length items]"
  by (simp add: canonicalOrder_def sort_key_stable)

end
