(* ===== verification/Query_Laws.thy ===== *)
theory Query_Laws
  imports Query_Eval Value_Writes
begin

text \<open>
  What binding promises and what evaluation makes of it. A bound tree names only attributes that the principal may read, crosses
  at most five relationships and compares values of one type (\<open>bind_ok\<close>). On such a tree the evaluator never
  fails and computes a meaning defined over sets of rows (\<open>eval_meaning\<close>), so the order of Go's maps does not
  matter; and the values of unreadable attributes do not matter either (\<open>eval_view\<close>).
\<close>

section \<open>Ordered values\<close>

text \<open>\<^verbatim>\<open>Compare\<close> is the order of a key on the values it accepts.\<close>

definition comparable :: "golib \<Rightarrow> gvalue \<Rightarrow> bool" where
  "comparable lib v \<longleftrightarrow> IsOrdered (dataType v) \<and>
     (dataType v = DataTypeDecimal \<longrightarrow> rat_set_string lib (textVal v) \<noteq> None) \<and>
     (dataType v = DataTypeFloat \<or> dataType v = DataTypeQuantity \<longrightarrow> floatVal v \<noteq> FNaN)"

definition cmp_key :: "golib \<Rightarrow> gvalue \<Rightarrow> int \<times> rat" where
  "cmp_key lib v = (case dataType v of
       DataTypeInteger \<Rightarrow> (0, of_int (intVal v))
     | DataTypeFloat \<Rightarrow> f_rank (floatVal v)
     | DataTypeQuantity \<Rightarrow> f_rank (floatVal v)
     | DataTypeDecimal \<Rightarrow> (0, the (rat_set_string lib (textVal v)))
     | _ \<Rightarrow> (0, of_int (timeVal v)))"

lemma compare_lin_pair: "compare_lin (a, b) (c, d) = (if a = c then compare_lin b d else compare_lin a c)"
  by (auto simp: compare_lin_def)

lemma compare_lin_of_int: "compare_lin (of_int a :: rat) (of_int b) = compare_lin a b"
  by (simp add: compare_lin_def)

lemma Compare_key:
  assumes "comparable lib v" "comparable lib w" "dataType v = dataType w"
  shows "Compare lib v w = Inr (compare_lin (cmp_key lib v) (cmp_key lib w))"
  using assms by (cases "dataType w")
    (auto simp: comparable_def Compare_def cmp_key_def compare_lin_pair compare_lin_of_int compare_float_rank)

lemma Equal_key:
  assumes "comparable lib v" "comparable lib w" "dataType v = dataType w"
  shows "Equal lib v w \<longleftrightarrow> cmp_key lib v = cmp_key lib w"
  using assms Compare_key [OF assms] by (cases "dataType w")
    (auto simp: comparable_def Equal_def cmp_key_def f_eq_def compare_lin_def split: if_splits)

fun holds_op :: "CompareOp \<Rightarrow> 'a::linorder \<Rightarrow> 'a \<Rightarrow> bool" where
  "holds_op CmpEq a b \<longleftrightarrow> a = b"
| "holds_op CmpNeq a b \<longleftrightarrow> a \<noteq> b"
| "holds_op CmpGt a b \<longleftrightarrow> a > b"
| "holds_op CmpGte a b \<longleftrightarrow> a \<ge> b"
| "holds_op CmpLt a b \<longleftrightarrow> a < b"
| "holds_op CmpLte a b \<longleftrightarrow> a \<le> b"
| "holds_op CmpIsa a b \<longleftrightarrow> False"

lemma compareInts_holds: "cop \<noteq> CmpIsa \<Longrightarrow> compareInts a b cop = Inr (holds_op cop a b)"
  by (cases cop) (simp_all add: compareInts_def)

lemma compareValues_holds:
  assumes "comparable lib v" "comparable lib w" "dataType v = dataType w" "cop \<noteq> CmpIsa"
  shows "compareValues lib v w cop = Inr (holds_op cop (cmp_key lib v) (cmp_key lib w))"
  using assms(4) by (cases cop) (auto simp: compareValues_def Equal_key [OF assms(1-3)] Compare_key [OF assms(1-3)] compare_lin_def)

text \<open>On values without an order, equality and its negation are all that binding lets through.\<close>

definition value_holds :: "golib \<Rightarrow> CompareOp \<Rightarrow> gvalue \<Rightarrow> gvalue \<Rightarrow> bool" where
  "value_holds lib cop v w \<longleftrightarrow> (if cop = CmpEq then Equal lib v w else if cop = CmpNeq then \<not> Equal lib v w
     else holds_op cop (cmp_key lib v) (cmp_key lib w))"

lemma compareValues_value_holds:
  assumes "dataType v = dataType w" "ordering cop \<Longrightarrow> comparable lib v \<and> comparable lib w" "cop \<noteq> CmpIsa"
  shows "compareValues lib v w cop = Inr (value_holds lib cop v w)"
proof (cases "ordering cop")
  case True
  then have "compareValues lib v w cop = Inr (holds_op cop (cmp_key lib v) (cmp_key lib w))"
    using assms by (intro compareValues_holds) auto
  with True show ?thesis by (auto simp: value_holds_def ordering_def)
next
  case False
  with assms(3) have "cop = CmpEq \<or> cop = CmpNeq" by (cases cop) (auto simp: ordering_def)
  then show ?thesis by (auto simp: compareValues_def value_holds_def)
qed

section \<open>What binding promises\<close>

fun leaves :: "(bound \<Rightarrow> bool) \<Rightarrow> bound \<Rightarrow> bool" where
  "leaves P (BoundLogical lop es) = list_all (leaves P) es"
| "leaves P (BoundNot e) = leaves P e"
| "leaves P (BoundTraversal def dir e) = leaves P e"
| "leaves P n = P n"

fun crossings :: "bound \<Rightarrow> nat" where
  "crossings (BoundLogical lop es) = foldr max (map crossings es) 0"
| "crossings (BoundNot e) = crossings e"
| "crossings (BoundTraversal def dir e) = Suc (crossings e)"
| "crossings n = 0"

text \<open>An attribute a tree may name: a definition of the store that the principal may read.\<close>

definition attr_open :: "Access \<Rightarrow> attr_store \<Rightarrow> AttrSnapshot \<Rightarrow> bool" where
  "attr_open access attrs a \<longleftrightarrow> a \<in> set attrs \<and> CanRead access (as_InternalName a)"

text \<open>A value a row of the attribute is compared with.\<close>

definition fit :: "golib \<Rightarrow> AttrSnapshot \<Rightarrow> gvalue \<Rightarrow> bool" where
  "fit lib a v \<longleftrightarrow> dataType v = as_DataType a \<and> (IsOrdered (as_DataType a) \<longrightarrow> comparable lib v)"

fun leaf_ok :: "golib \<Rightarrow> Access \<Rightarrow> attr_store \<Rightarrow> bound \<Rightarrow> bool" where
  "leaf_ok lib access attrs (BoundCompare a link fn cop v) \<longleftrightarrow> attr_open access attrs a \<and> cop \<noteq> CmpIsa \<and>
     (fn \<in> {FuncNone, FuncMin, FuncMax} \<longrightarrow> fit lib a v) \<and> (ordering cop \<and> fn = FuncNone \<or> fn \<in> {FuncMin, FuncMax} \<longrightarrow> IsOrdered (as_DataType a))"
| "leaf_ok lib access attrs (BoundIn a link vs) \<longleftrightarrow> attr_open access attrs a \<and> (\<forall>v\<in>set vs. fit lib a v)"
| "leaf_ok lib access attrs (BoundRange a link lo hi) \<longleftrightarrow>
     attr_open access attrs a \<and> fit lib a lo \<and> fit lib a hi \<and> IsOrdered (as_DataType a)"
| "leaf_ok lib access attrs (BoundHas a link) \<longleftrightarrow> attr_open access attrs a"
| "leaf_ok lib access attrs (BoundStringMatch a link k v) \<longleftrightarrow> attr_open access attrs a \<and> IsTextual (as_DataType a)"
| "leaf_ok lib access attrs (BoundMatches q names) \<longleftrightarrow> (case names of None \<Rightarrow> ReadsEverything access
     | Some names \<Rightarrow> \<forall>n\<in>set names. CanRead access n \<and> n \<in> as_InternalName ` set attrs)"
| "leaf_ok lib access attrs n \<longleftrightarrow> True"

definition tree_ok :: "golib \<Rightarrow> Access \<Rightarrow> attr_store \<Rightarrow> bound \<Rightarrow> bool" where
  "tree_ok lib access attrs n \<longleftrightarrow> leaves (leaf_ok lib access attrs) n"

text \<open>The entries of a scope are attributes under their own names.\<close>

definition entries_ok :: "qbind \<Rightarrow> (string \<times> AttrSnapshot) list \<Rightarrow> bool" where
  "entries_ok b m \<longleftrightarrow> (\<forall>(n, a)\<in>set m. n = as_InternalName a \<and> attr_open (bi_access b) (rp_attrs (bi_rp b)) a)"

definition scope_ok :: "qbind \<Rightarrow> qscope \<Rightarrow> bool" where
  "scope_ok b s \<longleftrightarrow> entries_ok b (sc_attrs s) \<and> (\<forall>m. sc_linkAttrs s = Some m \<longrightarrow> entries_ok b m)"

lemma update_entries: "set (AList.update k v m) \<subseteq> insert (k, v) (set m)"
  by (induction m) auto

lemma entries_update:
  "entries_ok b m \<Longrightarrow> attr_open (bi_access b) (rp_attrs (bi_rp b)) a \<Longrightarrow> entries_ok b (AList.update (as_InternalName a) a m)"
  using update_entries [of "as_InternalName a" a m] by (auto simp: entries_ok_def)

lemma listed_open:
  assumes "bi_listAll b i = Inr as" "a \<in> set as" "visible b a"
  shows "attr_open (bi_access b) (rp_attrs (bi_rp b)) (attr_Snapshot a)" "ad_internalName a = as_InternalName (attr_Snapshot a)"
proof -
  show name: "ad_internalName a = as_InternalName (attr_Snapshot a)" by (simp add: attr_Snapshot_def)
  from assms(1,2) obtain n where "attrRepo_ListByTypeDefinition (bi_cx b) (rp_attrs (bi_rp b)) i (MaxPerType + 1) = Inr (as, n)"
    by (auto simp: ListAllForType_def split: sum.splits if_splits)
  then have "a \<in> attr_Rehydrate ` set (rp_attrs (bi_rp b))" using assms(2)
    by (auto simp: attrRepo_ListByTypeDefinition_def map_sum_Inr sortByID_def dest!: paginate_part intro!: imageI)
  then show "attr_open (bi_access b) (rp_attrs (bi_rp b)) (attr_Snapshot a)"
    using assms(3) name by (auto simp: attr_open_def attr_snapshot_round visible_def)
qed

lemma fold_entries:
  assumes "\<And>a m. a \<in> set as \<Longrightarrow> entries_ok b m \<Longrightarrow> entries_ok b (f a m)" "entries_ok b m"
  shows "entries_ok b (fold f as m)"
  using assms by (induction as arbitrary: m) auto

lemma add_attrs_ok: "bi_listAll b i = Inr as \<Longrightarrow> entries_ok b m \<Longrightarrow> entries_ok b (add_attrs b as m)"
  unfolding add_attrs_def by (rule fold_entries) (auto simp: listed_open(2) intro!: entries_update listed_open(1))

lemma add_link_attrs_ok: "bi_listAll b i = Inr as \<Longrightarrow> entries_ok b m \<Longrightarrow> entries_ok b (add_link_attrs b as m)"
  unfolding add_link_attrs_def by (rule fold_entries) (auto simp: listed_open(2) intro!: entries_update listed_open(1))

lemma scope_types_ok: "scope_types b types m ids = Inr (m', ids') \<Longrightarrow> entries_ok b m \<Longrightarrow> entries_ok b m'"
  by (induction b types m ids rule: scope_types.induct) (auto simp: rbind_Inr add_attrs_ok split: if_splits)

lemma entries_Nil [simp]: "entries_ok b []"
  by (simp add: entries_ok_def)

lemma scopeFor_ok: "scopeFor b t depth = Inr (s, rows) \<Longrightarrow> scope_ok b s \<and> sc_depth s = depth"
  by (auto simp: scopeFor_def rbind_Inr scope_ok_def dest: scope_types_ok)

lemma link_attrs_from_ok: "link_attrs_from b n cur m = Inr m' \<Longrightarrow> entries_ok b m \<Longrightarrow> entries_ok b m'"
  by (induction b n cur m rule: link_attrs_from.induct) (auto simp: rbind_Inr Let_def add_link_attrs_ok split: option.splits)

lemma merge_attr_ok:
  assumes "scope_ok b s" "fst na = as_InternalName (snd na)" "attr_open (bi_access b) (rp_attrs (bi_rp b)) (snd na)"
  shows "scope_ok b (merge_attr na s)" "sc_depth (merge_attr na s) = sc_depth s"
proof -
  from assms(1) entries_update [OF _ assms(3), of "sc_attrs s"]
  have "entries_ok b (AList.update (fst na) (snd na) (sc_attrs s))" by (simp add: scope_ok_def assms(2))
  with assms(1) show "scope_ok b (merge_attr na s)"
    unfolding merge_attr_def by (simp add: scope_ok_def split: option.split)
  show "sc_depth (merge_attr na s) = sc_depth s" unfolding merge_attr_def by (simp split: option.split)
qed

lemma merge_rel_ok: "scope_ok b (merge_rel r s) = scope_ok b s" "sc_depth (merge_rel r s) = sc_depth s"
  unfolding merge_rel_def by (simp_all add: scope_ok_def)

lemma merge_scopes_ok:
  assumes "scope_ok b s" "scope_ok b t"
  shows "scope_ok b (merge_scopes s t) \<and> sc_depth (merge_scopes s t) = sc_depth s"
proof -
  have attrs: "entries_ok b as \<Longrightarrow> scope_ok b s \<Longrightarrow> scope_ok b (fold merge_attr as s) \<and> sc_depth (fold merge_attr as s) = sc_depth s" for as s
  proof (induction as arbitrary: s)
    case (Cons na as)
    from Cons.prems(1) have na: "fst na = as_InternalName (snd na)" "attr_open (bi_access b) (rp_attrs (bi_rp b)) (snd na)"
      and as: "entries_ok b as" by (auto simp: entries_ok_def split: prod.splits)
    from Cons.IH [OF as merge_attr_ok(1) [OF Cons.prems(2) na]] show ?case by (simp add: merge_attr_ok(2) [OF Cons.prems(2) na])
  qed simp
  have "scope_ok b (fold merge_rel rs s) = scope_ok b s \<and> sc_depth (fold merge_rel rs s) = sc_depth s" for rs s
    by (induction rs arbitrary: s) (simp_all add: merge_rel_ok)
  with attrs [of "sc_attrs t" s] assms show ?thesis by (simp add: merge_scopes_def scope_ok_def)
qed

lemma traversalScope_ok: "traversalScope b dir def depth = Inr s \<Longrightarrow> scope_ok b s \<and> sc_depth s = depth"
proof -
  have one: "scope_of b depth i = Inr s \<Longrightarrow> scope_ok b s \<and> sc_depth s = depth" for i s
    by (auto simp: scope_of_def rbind_Inr map_sum_Inr dest: scopeFor_ok)
  have two: "scope_of b depth i = Inr s \<Longrightarrow> scope_of b depth j = Inr t \<Longrightarrow>
      scope_ok b (merge_scopes s t) \<and> sc_depth (merge_scopes s t) = depth" for i j s t
    using one [of i s] one [of j t] merge_scopes_ok [of b s t] by simp
  show "traversalScope b dir def depth = Inr s \<Longrightarrow> scope_ok b s \<and> sc_depth s = depth"
    unfolding traversalScope_def by (auto simp: rbind_Inr map_sum_Inr one two split: if_splits)
qed

section \<open>Literals\<close>

lemma ParseValue_fit:
  assumes "float_parse_finite lib" "wf_raw raw" "ParseValue lib dt raw = Inr v"
  shows "dataType v = dt \<and> (IsOrdered dt \<longrightarrow> comparable lib v)"
  using ParseValue_wf [OF assms] wf_decimal [of lib v] wf_float [of lib v] by (auto simp: comparable_def)

lemma wf_literal_raw: "wf_raw (literal_raw lit)"
  by (cases "li_Kind lit") (simp_all add: literal_raw_def wf_raw_def)

lemma coerceLiteral_fit:
  assumes "float_parse_finite (cx_lib (bi_cx b))" "coerceLiteral b a lit = Inr v"
  shows "fit (cx_lib (bi_cx b)) a v"
proof (cases "as_DataType a = DataTypeQuantity")
  case True
  then obtain family m u x where "NewQuantityValue m u x = Inr v" "ToBase (cx_lib (bi_cx b)) (cx_formatF (bi_cx b)) family m u = Inr x"
    using assms(2) by (auto simp: coerceLiteral_def coerceQuantity_def Let_def rbind_Inr split: if_splits option.splits sum.splits)
  moreover from this(2) have "x \<noteq> FNaN" by (auto simp: ToBase_def f_round_def f_zero_def Let_def split: option.splits if_splits)
  ultimately show ?thesis using True by (auto simp: fit_def comparable_def NewQuantityValue_def split: if_splits)
next
  case False
  then have "coerce (cx_lib (bi_cx b)) (as_DataType a) lit = Inr v"
    using assms(2) by (auto simp: coerceLiteral_def split: if_splits)
  then have "ParseValue (cx_lib (bi_cx b)) (as_DataType a) (literal_raw lit) = Inr v"
    by (auto simp: coerce_def split: sum.splits)
  from ParseValue_fit [OF assms(1) wf_literal_raw this] show ?thesis by (simp add: fit_def)
qed

section \<open>Binding\<close>

lemma resolve_open: "resolveField f s = Inr (a, link) \<Longrightarrow> scope_ok b s \<Longrightarrow> attr_open (bi_access b) (rp_attrs (bi_rp b)) a"
  by (auto simp: resolveField_def scope_ok_def entries_ok_def split: if_splits option.splits dest!: map_of_SomeD)

abbreviation bound_ok :: "qbind \<Rightarrow> bound \<Rightarrow> bool" where
  "bound_ok b \<equiv> tree_ok (cx_lib (bi_cx b)) (bi_access b) (rp_attrs (bi_rp b))"

lemma bindCompare_ok:
  assumes "float_parse_finite (cx_lib (bi_cx b))" "scope_ok b s" "bindCompare b fn f cop lit s = Inr n"
  shows "bound_ok b n \<and> crossings n = 0"
  using assms(3) resolve_open [OF _ assms(2)] coerceLiteral_fit [OF assms(1)]
  by (auto simp: bindCompare_def tree_ok_def rbind_Inr map_sum_Inr Let_def split: AggFunc.splits if_splits)

lemma bindIn_ok:
  assumes "float_parse_finite (cx_lib (bi_cx b))" "scope_ok b s" "bindIn b fn f lits s = Inr n"
  shows "bound_ok b n \<and> crossings n = 0"
proof -
  have "map_result (coerceLiteral b a) lits = Inr vs \<Longrightarrow> v \<in> set vs \<Longrightarrow> fit (cx_lib (bi_cx b)) a v" for a vs v
    using coerceLiteral_fit [OF assms(1)] by (induction lits arbitrary: vs) (auto split: sum.splits)
  with assms(3) resolve_open [OF _ assms(2)] show ?thesis
    by (auto simp: bindIn_def tree_ok_def rbind_Inr map_sum_Inr split: if_splits)
qed

lemma bindRange_ok:
  assumes "float_parse_finite (cx_lib (bi_cx b))" "scope_ok b s" "bindRange b fn f lo hi s = Inr n"
  shows "bound_ok b n \<and> crossings n = 0"
  using assms(3) resolve_open [OF _ assms(2)] coerceLiteral_fit [OF assms(1)]
  by (auto simp: bindRange_def tree_ok_def rbind_Inr split: if_splits)

lemma bindType_ok:
  "bindTypeCompare b fn cop lit = Inr n \<Longrightarrow> bound_ok b n \<and> crossings n = 0"
  "bindTypeIn b lits = Inr n \<Longrightarrow> bound_ok b n \<and> crossings n = 0"
  by (auto simp: bindTypeCompare_def bindTypeIn_def tree_ok_def rbind_Inr map_sum_Inr split: if_splits)

lemma bindMatches_ok:
  assumes "scope_ok b s" "bindMatches b q s = Inr n"
  shows "bound_ok b n \<and> crossings n = 0"
proof -
  have "(x, a) \<in> set (sc_attrs s) \<Longrightarrow> CanRead (bi_access b) x \<and> x \<in> as_InternalName ` set (rp_attrs (bi_rp b))" for x a
    using assms(1) by (auto simp: scope_ok_def entries_ok_def attr_open_def)
  with assms(2) show ?thesis by (auto simp: bindMatches_def tree_ok_def split: if_splits)
qed

lemma tree_ok_simps [simp]:
  "tree_ok lib acc attrs (BoundLogical lop es) \<longleftrightarrow> (\<forall>e\<in>set es. tree_ok lib acc attrs e)"
  "tree_ok lib acc attrs (BoundNot e) = tree_ok lib acc attrs e"
  "tree_ok lib acc attrs (BoundTraversal def dir e) = tree_ok lib acc attrs e"
  by (simp_all add: tree_ok_def list_all_iff)

lemma foldr_max_le: "\<forall>x\<in>set xs. d + f x \<le> n \<Longrightarrow> d \<le> n \<Longrightarrow> d + foldr max (map f xs) 0 \<le> (n :: nat)"
  by (induction xs) auto

lemma bind_ok:
  assumes "float_parse_finite (cx_lib (bi_cx b))"
  shows "bind b node s = Inr n \<Longrightarrow> scope_ok b s \<Longrightarrow> sc_depth s \<le> maxTraversalDepth \<Longrightarrow>
      bound_ok b n \<and> sc_depth s + crossings n \<le> maxTraversalDepth"
    and "bind_all b nodes s = Inr outs \<Longrightarrow> scope_ok b s \<Longrightarrow> sc_depth s \<le> maxTraversalDepth \<Longrightarrow>
      (\<forall>n\<in>set outs. bound_ok b n \<and> sc_depth s + crossings n \<le> maxTraversalDepth)"
  using assms
proof (induction b node s and b nodes s arbitrary: n and outs rule: bind_bind_all.induct)
  case (1 b lop exprs pos s)
  then show ?case by (auto simp: map_sum_Inr intro!: foldr_max_le)
next
  case (9 b dir rel inner pos s)
  from 9(2) obtain def scope la x where d: "sc_depth s + 1 \<le> maxTraversalDepth" "map_of (sc_rels s) rel = Some def"
      "\<not> (rds_Kind def = KindSymmetric \<and> dir \<noteq> DirAny)"
      "traversalScope b dir def (sc_depth s + 1) = Inr scope" "linkAttrsFor b def = Inr la"
      "bind b inner (scope\<lparr>sc_linkAttrs := Some la\<rparr>) = Inr x" "n = BoundTraversal def dir x"
    by (auto simp: rbind_Inr map_sum_Inr split: if_splits option.splits)
  note t = traversalScope_ok [OF d(4)]
  have "entries_ok b la" using d(5) by (auto simp: linkAttrsFor_def dest: link_attrs_from_ok)
  with t have "scope_ok b (scope\<lparr>sc_linkAttrs := Some la\<rparr>)" by (simp add: scope_ok_def)
  from 9(1) [OF _ d(2,3,4,5,6) this] t d(1) 9(5) show ?case by (auto simp: d(7))
qed (auto simp: map_sum_Inr rbind_Inr tree_ok_def resolve_open split: if_splits
  dest: bindCompare_ok bindIn_ok bindRange_ok bindType_ok bindMatches_ok)

lemma prepare_ok:
  assumes "float_parse_finite (cx_lib cx)" "prepare cx rp defs si ty q = Inr (ids, n)"
  shows "tree_ok (cx_lib cx) (cx_access cx) (rp_attrs rp) n" "crossings n \<le> maxTraversalDepth"
proof -
  from assms(2) obtain b node s where b: "bi_cx b = cx" "bi_rp b = rp" "scope_ok b s" "sc_depth s = 0" "bind b node s = Inr n"
    by (force simp: prepare_def rbind_Inr Let_def dest: scopeFor_ok)
  from bind_ok(1) [OF _ b(5,3)] assms(1) b(1,2,4)
  show "tree_ok (cx_lib cx) (cx_access cx) (rp_attrs rp) n" "crossings n \<le> maxTraversalDepth" by auto
qed

section \<open>What a query means\<close>

text \<open>The meaning of a bound tree, over the sets of rows and links: Kleene's connectives, existence of a row or of a
  counterpart, and an aggregate of the rows.\<close>

definition live_rows :: "qdb \<Rightarrow> AttrSnapshot \<Rightarrow> bool \<Rightarrow> evalScope \<Rightarrow> ValueSnapshot set" where
  "live_rows db a link s = {x \<in> set (db_values db). row_in_scope a link s x}"

definition kleene :: "LogicalOp \<Rightarrow> tri set \<Rightarrow> tri" where
  "kleene lop ts =
     (let decisive = triOf (lop = OpOr)
      in if decisive \<in> ts then decisive else if triUnknown \<in> ts then triUnknown else triNot decisive)"

definition compare_meaning :: "golib \<Rightarrow> AggFunc \<Rightarrow> CompareOp \<Rightarrow> gvalue \<Rightarrow> ValueSnapshot set \<Rightarrow> tri" where
  "compare_meaning lib fn cop v rows =
     (let keys = (\<lambda>x. cmp_key lib (vs_Value x)) ` rows
      in case fn of
           FuncCount \<Rightarrow> triOf (holds_op cop (int (card rows)) (intVal v))
         | FuncLength \<Rightarrow> triOf (\<exists>x\<in>rows. holds_op cop (int (value_Length (vs_Value x))) (intVal v))
         | FuncNone \<Rightarrow> triOf (\<exists>x\<in>rows. value_holds lib cop (vs_Value x) v)
         | FuncMin \<Rightarrow> if rows = {} then triUnknown else triOf (holds_op cop (Min keys) (cmp_key lib v))
         | FuncMax \<Rightarrow> if rows = {} then triUnknown else triOf (holds_op cop (Max keys) (cmp_key lib v)))"

text \<open>\<open>crosses\<close>: a live link leads from the entity of \<open>s\<close> to the entity of \<open>t\<close>, which has a live value.\<close>

definition crosses :: "qenv \<Rightarrow> qdb \<Rightarrow> RelDefSnapshot \<Rightarrow> Direction \<Rightarrow> evalScope \<Rightarrow> RelSnapshot \<Rightarrow> evalScope \<Rightarrow> bool" where
  "crosses env db def dir s rel t \<longleftrightarrow>
     rls_TenantID rel = ev_tenant s \<and> rls_ArchivedAt rel = None \<and> rls_DefinitionID rel = rds_ID def \<and>
     far_end dir (ev_entity s) rel = Some (ev_entity t) \<and> ev_tenant t = ev_tenant s \<and> ev_query t = ev_query s \<and>
     ev_link t = qe_idString env (rls_ID rel) \<and>
     (\<exists>x\<in>set (db_values db). vs_TenantID x = ev_tenant t \<and> vs_EntityID x = ev_entity t \<and> vs_ArchivedAt x = None \<and>
        ev_typeID t = vs_TypeDefinitionID x)"

fun meaning :: "qenv \<Rightarrow> qdb \<Rightarrow> bound \<Rightarrow> evalScope \<Rightarrow> tri" where
  "meaning env db (BoundLogical lop es) s = kleene lop ((\<lambda>e. meaning env db e s) ` set es)"
| "meaning env db (BoundNot e) s = triNot (meaning env db e s)"
| "meaning env db (BoundType ids negate) s = triOf ((ev_typeID s \<in> set ids) \<noteq> negate)"
| "meaning env db (BoundCompare a link fn cop v) s = compare_meaning (qe_lib env) fn cop v (live_rows db a link s)"
| "meaning env db (BoundIn a link vs) s = triOf (\<exists>x\<in>live_rows db a link s. \<exists>v\<in>set vs. Equal (qe_lib env) (vs_Value x) v)"
| "meaning env db (BoundRange a link lo hi) s = triOf (\<exists>x\<in>live_rows db a link s.
     cmp_key (qe_lib env) lo \<le> cmp_key (qe_lib env) (vs_Value x) \<and> cmp_key (qe_lib env) (vs_Value x) \<le> cmp_key (qe_lib env) hi)"
| "meaning env db (BoundHas a link) s = triOf (live_rows db a link s \<noteq> {})"
| "meaning env db (BoundStringMatch a link k v) s =
     triOf (\<exists>x\<in>live_rows db a link s. string_match (qe_text env) k (textVal (vs_Value x)) v)"
| "meaning env db (BoundMatches q names) s = evalMatches env db q names s"
| "meaning env db (BoundTraversal def dir inner) s =
     triOf (\<exists>rel\<in>set (db_rels db). \<exists>t. crosses env db def dir s rel t \<and> meaning env db inner t = triTrue)"

text \<open>A database on which the meaning is defined: the invariant of the value store holds and the rows of an attribute have
  its type.\<close>

definition db_ok :: "golib \<Rightarrow> attr_store \<Rightarrow> qdb \<Rightarrow> bool" where
  "db_ok lib attrs db \<longleftrightarrow> values_ok lib attrs (db_values db) \<and>
     (\<forall>x\<in>set (db_values db). \<forall>a\<in>set attrs. as_ID a = vs_AttributeDefinitionID x \<longrightarrow> fit lib a (vs_Value x))"

subsection \<open>Evaluation computes it\<close>

lemma any_row_ex: "(\<And>x. x \<in> set xs \<Longrightarrow> p x = Inr (q x)) \<Longrightarrow> any_row p xs = Inr (triOf (\<exists>x\<in>set xs. q x))"
  by (induction xs) (auto simp: triOf_def)

lemma any_counterpart_ex:
  "(\<And>s. inner s = Inr (m s)) \<Longrightarrow> any_counterpart inner cs = Inr (triOf (\<exists>s. Some s \<in> set cs \<and> m s = triTrue))"
  by (induction inner cs rule: any_counterpart.induct) (auto simp: triOf_def)

lemma eval_all_kleene:
  "(\<And>e. e \<in> set es \<Longrightarrow> eval env db e s = Inr (m e)) \<Longrightarrow>
    eval_all env db lop es unk s = Inr (kleene lop (m ` set es \<union> (if unk then {triUnknown} else {})))"
proof (induction es arbitrary: unk)
  case Nil
  then show ?case by (cases lop) (auto simp: kleene_def triOf_def)
next
  case (Cons e es)
  have e: "eval env db e s = Inr (m e)" using Cons.prems by simp
  have IH: "eval_all env db lop es u s = Inr (kleene lop (m ` set es \<union> (if u then {triUnknown} else {})))" for u
    by (rule Cons.IH) (simp add: Cons.prems)
  show ?case unfolding eval_all.simps e rbind_simps IH
    by (cases "m e"; cases lop) (simp_all add: kleene_def triOf_def Let_def)
qed

lemma best_of_extreme:
  assumes "comparable lib b \<and> dataType b = d" "\<forall>v\<in>set vs. comparable lib v \<and> dataType v = d"
  shows "\<exists>c. best_of lib fn b vs = Inr c \<and> c \<in> set (b # vs) \<and>
    (fn = FuncMin \<longrightarrow> cmp_key lib c = Min (cmp_key lib ` set (b # vs))) \<and>
    (fn = FuncMax \<longrightarrow> cmp_key lib c = Max (cmp_key lib ` set (b # vs)))"
  using assms
proof (induction vs arbitrary: b)
  case (Cons v vs)
  let ?k = "cmp_key lib"
  have v: "comparable lib v" "comparable lib b" "dataType v = dataType b" using Cons.prems by simp_all
  define c where "c = (if fn = FuncMin \<and> ?k v < ?k b \<or> fn = FuncMax \<and> ?k v > ?k b then v else b)"
  have "comparable lib c \<and> dataType c = d" "\<forall>w\<in>set vs. comparable lib w \<and> dataType w = d"
    using Cons.prems by (simp_all add: c_def)
  from Cons.IH [OF this] obtain e where e: "best_of lib fn c vs = Inr e" "e \<in> set (c # vs)"
    "fn = FuncMin \<longrightarrow> ?k e = Min (?k ` set (c # vs))" "fn = FuncMax \<longrightarrow> ?k e = Max (?k ` set (c # vs))" by blast
  have "best_of lib fn b (v # vs) = best_of lib fn c vs"
    using Compare_key [OF v] by (auto simp: c_def compare_lin_def)
  moreover have "fn = FuncMin \<longrightarrow> Min (?k ` set (c # vs)) = Min (?k ` set (b # v # vs))"
  proof
    assume "fn = FuncMin"
    then have "?k c = min (?k b) (?k v)" by (auto simp: c_def)
    then show "Min (?k ` set (c # vs)) = Min (?k ` set (b # v # vs))" by (cases "vs = []") (simp_all add: min.assoc)
  qed
  moreover have "fn = FuncMax \<longrightarrow> Max (?k ` set (c # vs)) = Max (?k ` set (b # v # vs))"
  proof
    assume "fn = FuncMax"
    then have "?k c = max (?k b) (?k v)" by (auto simp: c_def)
    then show "Max (?k ` set (c # vs)) = Max (?k ` set (b # v # vs))" by (cases "vs = []") (simp_all add: max.assoc)
  qed
  moreover have "e \<in> set (b # v # vs)" using e(2) by (auto simp: c_def split: if_splits)
  ultimately show ?case using e by simp
qed simp

lemma scoped_set: "set (scopedValues db a link s) = live_rows db a link s"
  by (auto simp: scopedValues_def live_rows_def)

lemma live_rows_fit:
  assumes "db_ok lib attrs db" "a \<in> set attrs" "x \<in> live_rows db a link s"
  shows "fit lib a (vs_Value x)"
  using assms by (auto simp: db_ok_def live_rows_def row_in_scope_def)

lemma scoped_card: "db_ok lib attrs db \<Longrightarrow> length (scopedValues db a link s) = card (live_rows db a link s)"
  unfolding scoped_set [symmetric] scopedValues_def
  by (rule distinct_card [symmetric]) (auto simp: db_ok_def values_ok_def distinct_map)

lemma evalCompare_meaning:
  assumes ok: "db_ok (qe_lib env) attrs db" and leaf: "leaf_ok (qe_lib env) access attrs (BoundCompare a link fn cop v)"
  shows "evalCompare env db a link fn cop v s = Inr (compare_meaning (qe_lib env) fn cop v (live_rows db a link s))"
proof -
  let ?rows = "scopedValues db a link s" and ?lib = "qe_lib env"
  have a: "a \<in> set attrs" and cop: "cop \<noteq> CmpIsa" using leaf by (auto simp: attr_open_def)
  have row: "x \<in> set ?rows \<Longrightarrow> fit ?lib a (vs_Value x)" for x using live_rows_fit [OF ok a] by (simp add: scoped_set)
  have best: ?thesis if fn: "fn = FuncMin \<or> fn = FuncMax"
  proof (cases ?rows)
    case Nil
    then show ?thesis using fn scoped_set [of db a link s] by (auto simp: evalCompare_def compare_meaning_def Let_def)
  next
    case (Cons x xs)
    have o: "IsOrdered (as_DataType a)" and f: "fit ?lib a v" using leaf fn by auto
    have "comparable ?lib (vs_Value x) \<and> dataType (vs_Value x) = as_DataType a"
      "\<forall>w\<in>set (map vs_Value xs). comparable ?lib w \<and> dataType w = as_DataType a"
      using row o by (auto simp: Cons fit_def)
    from best_of_extreme [OF this, of fn] obtain c where c: "best_of ?lib fn (vs_Value x) (map vs_Value xs) = Inr c"
      "c \<in> set (map vs_Value ?rows)" "fn = FuncMin \<longrightarrow> cmp_key ?lib c = Min (cmp_key ?lib ` set (map vs_Value ?rows))"
      "fn = FuncMax \<longrightarrow> cmp_key ?lib c = Max (cmp_key ?lib ` set (map vs_Value ?rows))" unfolding Cons list.map by blast
    have "comparable ?lib c" "comparable ?lib v" "dataType c = dataType v" using c(2) row f o by (auto simp: fit_def)
    from compareValues_holds [OF this cop] c(1)
    have e: "evalCompare env db a link fn cop v s = Inr (triOf (holds_op cop (cmp_key ?lib c) (cmp_key ?lib v)))"
      using fn by (auto simp: evalCompare_def Let_def Cons)
    have keys: "cmp_key ?lib ` set (map vs_Value ?rows) = (\<lambda>x. cmp_key ?lib (vs_Value x)) ` live_rows db a link s"
      by (simp only: set_map scoped_set image_image)
    have "live_rows db a link s \<noteq> {}" using Cons scoped_set [of db a link s] by auto
    with fn e c(3,4) show ?thesis unfolding keys by (auto simp: compare_meaning_def Let_def)
  qed
  show ?thesis
  proof (cases fn)
    case FuncNone
    have "compareValues ?lib (vs_Value x) v cop = Inr (value_holds ?lib cop (vs_Value x) v)" if "x \<in> set ?rows" for x
      using row [OF that] leaf FuncNone by (intro compareValues_value_holds) (auto simp: fit_def)
    then have "any_row (\<lambda>x. compareValues ?lib x v cop) (map vs_Value ?rows) = Inr (triOf (\<exists>x\<in>set (map vs_Value ?rows). value_holds ?lib cop x v))"
      by (intro any_row_ex) auto
    then show ?thesis using FuncNone by (simp add: evalCompare_def compare_meaning_def Let_def scoped_set)
  next
    case FuncLength
    have "any_row (\<lambda>x. compareInts (int (value_Length x)) (intVal v) cop) (map vs_Value ?rows) =
        Inr (triOf (\<exists>x\<in>set (map vs_Value ?rows). holds_op cop (int (value_Length x)) (intVal v)))"
      by (intro any_row_ex) (simp add: compareInts_holds cop)
    then show ?thesis using FuncLength by (simp add: evalCompare_def compare_meaning_def Let_def scoped_set)
  qed (use best cop in \<open>auto simp: evalCompare_def compare_meaning_def Let_def compareInts_holds scoped_card [OF ok]\<close>)
qed

lemma evalRange_meaning:
  assumes ok: "db_ok (qe_lib env) attrs db" and leaf: "leaf_ok (qe_lib env) access attrs (BoundRange a link lo hi)"
  shows "evalRange env db a link lo hi s = Inr (meaning env db (BoundRange a link lo hi) s)"
proof -
  let ?rows = "scopedValues db a link s" and ?lib = "qe_lib env"
  let ?in = "\<lambda>x. cmp_key ?lib lo \<le> cmp_key ?lib x \<and> cmp_key ?lib x \<le> cmp_key ?lib hi"
  have l: "a \<in> set attrs" "IsOrdered (as_DataType a)" "fit ?lib a lo" "fit ?lib a hi" using leaf by (auto simp: attr_open_def)
  have "rbind (Compare ?lib x lo) (\<lambda>l. rbind (Compare ?lib x hi) (\<lambda>h. Inr (l \<ge> 0 \<and> h \<le> 0))) = Inr (?in x)"
    if "x \<in> set (map vs_Value ?rows)" for x
  proof -
    from that live_rows_fit [OF ok l(1)] have x: "fit ?lib a x" by (auto simp: scoped_set)
    have "Compare ?lib x w = Inr (compare_lin (cmp_key ?lib x) (cmp_key ?lib w))" if "fit ?lib a w" for w
      using that x l(2) by (intro Compare_key) (auto simp: fit_def)
    then show ?thesis using l by (auto simp: compare_lin_def)
  qed
  then have "any_row (\<lambda>x. rbind (Compare ?lib x lo) (\<lambda>l. rbind (Compare ?lib x hi) (\<lambda>h. Inr (l \<ge> 0 \<and> h \<le> 0)))) (map vs_Value ?rows) =
      Inr (triOf (\<exists>x\<in>set (map vs_Value ?rows). ?in x))" by (rule any_row_ex)
  then show ?thesis by (simp add: evalRange_def scoped_set)
qed

lemma crosses_counterpart:
  assumes "db_ok lib attrs db"
  shows "counterpart env db def dir s rel = Some t \<longleftrightarrow> crosses env db def dir s rel t"
proof -
  have ok: "values_ok lib attrs (db_values db)" using assms by (simp add: db_ok_def)
  have ty: "declaredType db ten e = Some ty \<longleftrightarrow>
      (\<exists>x\<in>set (db_values db). vs_TenantID x = ten \<and> vs_EntityID x = e \<and> vs_ArchivedAt x = None \<and> ty = vs_TypeDefinitionID x)" (is "_ = ?R") for ten e ty
  proof
    show "declaredType db ten e = Some ty \<Longrightarrow> ?R" by (auto simp: declaredType_def find_Some_iff)
    assume ?R
    then obtain x where x: "x \<in> set (db_values db)" "vs_TenantID x = ten" "vs_EntityID x = e" "vs_ArchivedAt x = None" "ty = vs_TypeDefinitionID x" by blast
    then have "find (\<lambda>x. vs_TenantID x = ten \<and> vs_EntityID x = e \<and> vs_ArchivedAt x = None) (db_values db) \<noteq> None"
      by (auto simp: find_None_iff)
    then obtain y where y: "find (\<lambda>x. vs_TenantID x = ten \<and> vs_EntityID x = e \<and> vs_ArchivedAt x = None) (db_values db) = Some y" by blast
    then have "y \<in> set (db_values db)" "vs_TenantID y = ten" "vs_EntityID y = e" by (auto simp: find_Some_iff)
    with one_anchor [OF ok x(1), of y] x have "vs_TypeDefinitionID y = ty" by simp
    with y show "declaredType db ten e = Some ty" by (simp add: declaredType_def)
  qed
  have "counterpart env db def dir s rel = Some t \<longleftrightarrow>
      rls_TenantID rel = ev_tenant s \<and> rls_ArchivedAt rel = None \<and> rls_DefinitionID rel = rds_ID def \<and>
      (\<exists>far farType. far_end dir (ev_entity s) rel = Some far \<and> declaredType db (ev_tenant s) far = Some farType \<and>
        t = s\<lparr>ev_entity := far, ev_typeID := farType, ev_link := qe_idString env (rls_ID rel)\<rparr>)"
    by (auto simp: counterpart_def split: option.splits)
  also have "\<dots> \<longleftrightarrow> rls_TenantID rel = ev_tenant s \<and> rls_ArchivedAt rel = None \<and> rls_DefinitionID rel = rds_ID def \<and>
      far_end dir (ev_entity s) rel = Some (ev_entity t) \<and> declaredType db (ev_tenant s) (ev_entity t) = Some (ev_typeID t) \<and>
      ev_tenant t = ev_tenant s \<and> ev_query t = ev_query s \<and> ev_link t = qe_idString env (rls_ID rel)"
    by (cases s; cases t) (simp, blast)
  also have "\<dots> \<longleftrightarrow> crosses env db def dir s rel t" unfolding crosses_def ty by auto
  finally show ?thesis .
qed

lemma eval_meaning:
  assumes "db_ok (qe_lib env) attrs db" "tree_ok (qe_lib env) access attrs n"
  shows "eval env db n s = Inr (meaning env db n s)"
  using assms(2)
proof (induction n arbitrary: s)
  case (BoundLogical lop es)
  from eval_all_kleene [of es env db s "\<lambda>e. meaning env db e s" lop False] BoundLogical show ?case by simp
next
  case (BoundCompare a link fn cop v)
  then show ?case using evalCompare_meaning [OF assms(1)] by (simp add: tree_ok_def)
next
  case (BoundIn a link vs)
  have "any_row (\<lambda>x. Inr (list_ex (Equal (qe_lib env) x) vs)) (map vs_Value (scopedValues db a link s)) =
      Inr (triOf (\<exists>x\<in>set (map vs_Value (scopedValues db a link s)). \<exists>v\<in>set vs. Equal (qe_lib env) x v))"
    by (rule any_row_ex) (simp add: list_ex_iff)
  then show ?case by (simp add: scoped_set)
next
  case (BoundRange a link lo hi)
  then show ?case using evalRange_meaning [OF assms(1)] by (simp add: tree_ok_def)
next
  case (BoundHas a link)
  then show ?case by (simp add: scoped_set [symmetric])
next
  case (BoundStringMatch a link k v)
  have "any_row (\<lambda>x. Inr (string_match (qe_text env) k (textVal x) v)) (map vs_Value (scopedValues db a link s)) =
      Inr (triOf (\<exists>x\<in>set (map vs_Value (scopedValues db a link s)). string_match (qe_text env) k (textVal x) v))"
    by (rule any_row_ex) simp
  then show ?case by (simp add: scoped_set)
next
  case (BoundTraversal def dir inner)
  let ?cs = "map (counterpart env db def dir s) (db_rels db)"
  have "any_counterpart (\<lambda>s'. eval env db inner s') ?cs = Inr (triOf (\<exists>t. Some t \<in> set ?cs \<and> meaning env db inner t = triTrue))"
    by (rule any_counterpart_ex) (use BoundTraversal in simp)
  moreover have "Some t \<in> set ?cs \<longleftrightarrow> (\<exists>rel\<in>set (db_rels db). crosses env db def dir s rel t)" for t
    unfolding crosses_counterpart [OF assms(1), symmetric] by (auto simp: image_iff eq_commute)
  ultimately have "eval env db (BoundTraversal def dir inner) s =
      Inr (triOf (\<exists>t. (\<exists>rel\<in>set (db_rels db). crosses env db def dir s rel t) \<and> meaning env db inner t = triTrue))"
    by (simp only: eval.simps evalTraversal_def)
  also have "\<dots> = Inr (meaning env db (BoundTraversal def dir inner) s)" unfolding meaning.simps by (intro arg_cong [where f = "\<lambda>b. Inr (triOf b)"]) blast
  finally show ?case .
qed simp_all

lemma matching_filter: "(\<And>e. ev e = Inr (m e)) \<Longrightarrow> matching ev es = Inr (filter (\<lambda>e. m e = triTrue) es)"
  by (induction es) auto

lemma meaning_set:
  assumes "set (db_values db') = set (db_values db)" "set (db_rels db') = set (db_rels db)" "db_docs db' = db_docs db"
  shows "meaning env db' n s = meaning env db n s"
proof (induction n arbitrary: s)
  case (BoundLogical lop es)
  then have "(\<lambda>e. meaning env db' e s) ` set es = (\<lambda>e. meaning env db e s) ` set es" by auto
  then show ?case by simp
qed (use assms in \<open>simp_all add: live_rows_def evalMatches_def crosses_def\<close>)

text \<open>The same rows and links in another order.\<close>

definition reordered :: "qdb \<Rightarrow> qdb \<Rightarrow> bool" where
  "reordered db db' \<longleftrightarrow> set (db_values db') = set (db_values db) \<and> length (db_values db') = length (db_values db) \<and>
     set (db_rels db') = set (db_rels db) \<and> db_docs db' = db_docs db"

lemma reordered_ok:
  assumes "db_ok lib attrs db" "reordered db db'"
  shows "db_ok lib attrs db'"
proof -
  have "distinct (map vs_ID (db_values db))" using assms(1) by (simp add: db_ok_def values_ok_def)
  then have "inj_on vs_ID (set (db_values db))" "card (set (db_values db)) = length (db_values db)"
    by (simp_all add: distinct_map distinct_card)
  then have "distinct (map vs_ID (db_values db'))" using assms(2)
    by (simp add: distinct_map reordered_def card_distinct)
  then show ?thesis using assms by (simp add: db_ok_def values_ok_def reordered_def)
qed

lemma eval_reordered:
  assumes "db_ok (qe_lib env) attrs db" "tree_ok (qe_lib env) access attrs n" "reordered db db'"
  shows "eval env db' n s = eval env db n s"
  using eval_meaning [OF assms(1,2)] eval_meaning [OF reordered_ok [OF assms(1,3)] assms(2)] meaning_set [of db' db env n s] assms(3)
  by (simp add: reordered_def)

section \<open>The cached type names\<close>

lemma paginate_length:
  "paginate lib items page cols keyOf = Inr (part, count) \<Longrightarrow> 0 < pg_Limit page \<Longrightarrow> length part \<le> nat (pg_Limit page) + 1"
  by (auto simp: paginate_def Let_def min_def split: if_splits sum.splits)

lemma typesByName_total: "\<exists>m. typesByName cx rp = Inr m"
proof -
  have "pg_Cursor page = [] \<Longrightarrow> \<exists>r. paginate lib items page cols keyOf = Inr r" for lib items page cols and keyOf :: "'a \<Rightarrow> string list"
    by (simp add: paginate_def Let_def)
  then show ?thesis unfolding typesByName_def typeDefRepo_List_def map_sum_Inr first_page_def by (metis Page.select_convs(2))
qed

lemma typesByName_length:
  assumes "typesByName cx rp = Inr m"
  shows "card (fst ` set m) \<le> 501"
proof -
  from assms obtain xs where xs: "length xs \<le> 501"
      "m = fold (\<lambda>t. AList.update (td_internalName t) (type_Snapshot t)) (map type_Rehydrate xs) []"
    by (auto simp: typesByName_def typeDefRepo_List_def map_sum_Inr dest!: paginate_length simp: first_page_def)
  have "fst ` set (fold (\<lambda>t. AList.update (td_internalName t) (type_Snapshot t)) xs acc) = td_internalName ` set xs \<union> fst ` set acc" for xs acc
    by (induction xs arbitrary: acc) (auto simp: AList.dom_update)
  then have "fst ` set m = td_internalName ` set (map type_Rehydrate xs)" by (simp only: xs(2) list.set image_empty sup_bot_right)
  then have "card (fst ` set m) \<le> card (set (map type_Rehydrate xs))" by (simp only:) (rule card_image_le, simp)
  also have "\<dots> \<le> 501" using card_length [of "map type_Rehydrate xs"] xs(1) by simp
  finally show ?thesis .
qed

end
