(* ===== verification/Query_Views.thy ===== *)
theory Query_Views
  imports Query_Laws
begin

text \<open>
  Field-level access in queries. Two databases that differ only in the values of attributes the principal may not read, and in
  what the indexer made of them, answer every query of that principal alike.
\<close>

section \<open>Databases that differ where the principal may not look\<close>

definition hidden :: "Access \<Rightarrow> attr_store \<Rightarrow> AttributeDefinitionID \<Rightarrow> bool" where
  "hidden access attrs i \<longleftrightarrow> \<not> (\<exists>a\<in>set attrs. as_ID a = i \<and> CanRead access (as_InternalName a))"

definition rewrite_hidden :: "Access \<Rightarrow> attr_store \<Rightarrow> (ValueSnapshot \<Rightarrow> gvalue) \<Rightarrow> value_store \<Rightarrow> value_store" where
  "rewrite_hidden access attrs h s =
     map (\<lambda>x. if hidden access attrs (vs_AttributeDefinitionID x) then x\<lparr>vs_Value := h x\<rparr> else x) s"

text \<open>Two runs side by side: stores that differ in hidden values only are written at any time, and the indexer rebuilds or
  purges documents from what it finds.\<close>

inductive twins :: "golib \<Rightarrow> (ulid \<Rightarrow> string) \<Rightarrow> Access \<Rightarrow> attr_store \<Rightarrow> qdb \<Rightarrow> qdb \<Rightarrow> bool" for lib idString access attrs where
  twins_start: "db = \<lparr>db_values = [], db_rels = [], db_docs = (\<lambda>_. None)\<rparr> \<Longrightarrow> twins lib idString access attrs db db"
| twins_write: "twins lib idString access attrs d e \<Longrightarrow> \<forall>x\<in>set s. vs_AttributeDefinitionID x \<in> as_ID ` set attrs \<Longrightarrow>
    twins lib idString access attrs (d\<lparr>db_values := s, db_rels := r\<rparr>)
      (e\<lparr>db_values := rewrite_hidden access attrs h s, db_rels := r\<rparr>)"
| twins_index: "twins lib idString access attrs d e \<Longrightarrow>
    Rebuild lib idString attrs (db_values d) (db_docs d) ten ty ent = Inr docs \<Longrightarrow>
    Rebuild lib idString attrs (db_values e) (db_docs e) ten ty ent = Inr docs' \<Longrightarrow>
    twins lib idString access attrs (d\<lparr>db_docs := docs\<rparr>) (e\<lparr>db_docs := docs'\<rparr>)"
| twins_purge: "twins lib idString access attrs d e \<Longrightarrow>
    twins lib idString access attrs (d\<lparr>db_docs := searchStore_PurgeTenant (db_docs d) ten\<rparr>)
      (e\<lparr>db_docs := searchStore_PurgeTenant (db_docs e) ten\<rparr>)"

definition same_doc :: "Access \<Rightarrow> attr_store \<Rightarrow> searchDoc \<Rightarrow> searchDoc \<Rightarrow> bool" where
  "same_doc access attrs d e \<longleftrightarrow> sd_tenant d = sd_tenant e \<and> sd_entity d = sd_entity e \<and> (ReadsEverything access \<longrightarrow> d = e) \<and>
     (\<forall>n. n \<in> as_InternalName ` set attrs \<and> CanRead access n \<longrightarrow> sd_values d n = sd_values e n)"

definition same_view :: "Access \<Rightarrow> attr_store \<Rightarrow> qdb \<Rightarrow> qdb \<Rightarrow> bool" where
  "same_view access attrs d e \<longleftrightarrow>
     (\<exists>h. db_values e = rewrite_hidden access attrs h (db_values d)) \<and> db_rels e = db_rels d \<and>
     (\<forall>x\<in>set (db_values d). vs_AttributeDefinitionID x \<in> as_ID ` set attrs) \<and>
     (\<forall>k. rel_option (same_doc access attrs) (db_docs d k) (db_docs e k))"

section \<open>Documents\<close>

text \<open>Values of an entity in two stores: the same ones up to hidden content.\<close>

definition alike :: "Access \<Rightarrow> attr_store \<Rightarrow> AttributeValue \<Rightarrow> AttributeValue \<Rightarrow> bool" where
  "alike access attrs v w \<longleftrightarrow> av_id v = av_id w \<and> av_attributeDefID v = av_attributeDefID w \<and>
     (\<not> hidden access attrs (av_attributeDefID v) \<longrightarrow> v = w)"

lemma list_all2_insort:
  assumes "\<And>x y. R x y \<Longrightarrow> f x = f y" "R x y" "list_all2 R xs ys"
  shows "list_all2 R (insort_key f x xs) (insort_key f y ys)"
  using assms(3) by (induction rule: list_all2_induct) (use assms(1,2) in \<open>auto\<close>)

lemma list_all2_sort:
  assumes "\<And>x y. R x y \<Longrightarrow> f x = f y" "list_all2 R xs ys"
  shows "list_all2 R (sort_key f xs) (sort_key f ys)"
  using assms(2) by (induction rule: list_all2_induct) (auto intro: list_all2_insort assms(1))

lemma list_all2_filter_eq:
  assumes "list_all2 R xs ys" "\<And>x y. R x y \<Longrightarrow> P x = P y \<and> (P x \<longrightarrow> x = y)"
  shows "filter P xs = filter P ys"
  using assms(1) by (induction rule: list_all2_induct) (use assms(2) in \<open>auto\<close>)

lemma entity_alike:
  "list_all2 (alike access attrs) (ListByEntity idString s key) (ListByEntity idString (rewrite_hidden access attrs h s) key)"
proof -
  let ?g = "\<lambda>x. if hidden access attrs (vs_AttributeDefinitionID x) then x\<lparr>vs_Value := h x\<rparr> else x"
  let ?P = "\<lambda>x. vs_TenantID x = ek_TenantID key \<and> vs_TypeDefinitionID x = ek_TypeDefinitionID key \<and>
    vs_EntityID x = ek_EntityID key \<and> vs_ArchivedAt x = None"
  have "list_all2 (alike access attrs) (map av_Rehydrate (filter ?P s)) (map av_Rehydrate (filter ?P (map ?g s)))"
    by (induction s) (auto simp: alike_def av_Rehydrate_def)
  then show ?thesis unfolding ListByEntity_def values_where_def sortByID_def rewrite_hidden_def
    by (rule list_all2_sort [rotated]) (simp add: alike_def)
qed

lemma doc_name:
  assumes "attrRepo_GetMany attrs ids = Inr as" "i \<in> set ids" "i \<in> as_ID ` set attrs"
  shows "\<exists>a\<in>set attrs. as_ID a = i \<and> map_of (rev (map (\<lambda>a. (ad_id a, ad_internalName a)) as)) i = Some (as_InternalName a)"
proof -
  from assms(1) attrRepo_GetMany_all [of attrs ids] have as: "set as = {d. \<exists>i\<in>set ids. attrRepo_Get attrs i = Inr d}" by auto
  from assms(3) have "find (\<lambda>x. as_ID x = i) attrs \<noteq> None" by (auto simp: find_None_iff)
  then obtain d where d: "attrRepo_Get attrs i = Inr d" by (auto simp: attrRepo_Get_def)
  with as assms(2) have "d \<in> set as" "ad_id d = i" using mem_attrs.get_id by auto
  from map_of_keyed_present [OF this(1), of ad_id ad_internalName] this(2) obtain n
    where n: "map_of (rev (map (\<lambda>a. (ad_id a, ad_internalName a)) as)) i = Some n" by auto
  from map_of_rev_keyed [OF this] obtain c where c: "c \<in> set as" "ad_id c = i" "ad_internalName c = n" by blast
  with as obtain j where "attrRepo_Get attrs j = Inr c" by blast
  then obtain a where "a \<in> set attrs" "c = attr_Rehydrate a"
    by (auto simp: attrRepo_Get_def find_Some_iff split: option.splits intro: nth_mem)
  with n c show ?thesis by (auto simp: attr_Rehydrate_def)
qed

lemma Rebuild_total: "\<exists>docs'. Rebuild lib idString attrs s docs ten ty ent = Inr docs'"
proof -
  let ?vals = "ListByEntity idString s \<lparr>ek_TenantID = ten, ek_TypeDefinitionID = ty, ek_EntityID = ent\<rparr>"
  obtain as where "attrRepo_GetMany attrs (dedupe (map av_attributeDefID ?vals)) = Inr as" using attrRepo_GetMany_all by blast
  then show ?thesis by (simp add: Rebuild_def Let_def)
qed

lemma document_alike:
  assumes "list_all2 (alike access attrs) vs ws" "known_levels access"
    and "\<And>v. v \<in> set vs \<Longrightarrow> \<exists>a\<in>set attrs. as_ID a = av_attributeDefID v \<and> name (av_attributeDefID v) = as_InternalName a"
  shows "same_doc access attrs (document lib name ten ty ent vs) (document lib name ten ty ent ws)"
proof -
  have "vs = ws" if "ReadsEverything access"
  proof -
    from reads_everything_exact [OF assms(2)] that have "CanRead access n" for n by simp
    then have "\<not> hidden access attrs (av_attributeDefID v)" if "v \<in> set vs" for v
      using assms(3) [OF that] by (auto simp: hidden_def)
    with assms(1) show ?thesis by (auto simp: list_all2_conv_all_nth alike_def intro!: nth_equalityI)
  qed
  moreover have "filter (\<lambda>v. name (av_attributeDefID v) = n \<and> IsTextual (dataType (av_value v))) vs =
      filter (\<lambda>v. name (av_attributeDefID v) = n \<and> IsTextual (dataType (av_value v))) ws" if n: "CanRead access n" for n
  proof -
    have "list_all2 (\<lambda>v w. alike access attrs v w \<and> (name (av_attributeDefID v) = n \<longrightarrow> v = w)) vs ws"
      using assms(1)
    proof (rule list.rel_mono_strong)
      fix v w
      assume v: "v \<in> set vs" "alike access attrs v w"
      from assms(3) [OF v(1)] n have "name (av_attributeDefID v) = n \<longrightarrow> \<not> hidden access attrs (av_attributeDefID v)"
        by (auto simp: hidden_def)
      with v(2) show "alike access attrs v w \<and> (name (av_attributeDefID v) = n \<longrightarrow> v = w)"
        unfolding alike_def by blast
    qed
    then show ?thesis
    proof (rule list_all2_filter_eq)
      fix v w
      assume "alike access attrs v w \<and> (name (av_attributeDefID v) = n \<longrightarrow> v = w)"
      then show "(name (av_attributeDefID v) = n \<and> IsTextual (dataType (av_value v))) =
            (name (av_attributeDefID w) = n \<and> IsTextual (dataType (av_value w))) \<and>
          (name (av_attributeDefID v) = n \<and> IsTextual (dataType (av_value v)) \<longrightarrow> v = w)"
        by (cases "name (av_attributeDefID v) = n") (simp, simp add: alike_def)
    qed
  qed
  ultimately show ?thesis by (auto simp: same_doc_def document_def Let_def conj_commute)
qed

lemma rebuild_view:
  assumes view: "same_view access attrs d e" and "known_levels access"
    and "Rebuild lib idString attrs (db_values d) (db_docs d) ten ty ent = Inr docs"
    and "Rebuild lib idString attrs (db_values e) (db_docs e) ten ty ent = Inr docs'"
  shows "rel_option (same_doc access attrs) (docs k) (docs' k)"
proof -
  let ?key = "\<lparr>ek_TenantID = ten, ek_TypeDefinitionID = ty, ek_EntityID = ent\<rparr>"
  let ?vs = "ListByEntity idString (db_values d) ?key" and ?ws = "ListByEntity idString (db_values e) ?key"
  from view obtain h where h: "db_values e = rewrite_hidden access attrs h (db_values d)"
      and old: "rel_option (same_doc access attrs) (db_docs d k) (db_docs e k)"
      and known: "\<And>x. x \<in> set (db_values d) \<Longrightarrow> vs_AttributeDefinitionID x \<in> as_ID ` set attrs"
    by (auto simp: same_view_def)
  have al: "list_all2 (alike access attrs) ?vs ?ws" unfolding h by (rule entity_alike)
  then have ids: "map av_attributeDefID ?vs = map av_attributeDefID ?ws" and none: "?vs = [] \<longleftrightarrow> ?ws = []"
    by (auto simp: list_all2_conv_all_nth alike_def intro!: nth_equalityI)
  show ?thesis
  proof (cases "?vs = []")
    case True
    with none assms(3,4) old show ?thesis by (auto simp: Rebuild_def searchStore_Remove_def)
  next
    case False
    obtain as where as: "attrRepo_GetMany attrs (dedupe (map av_attributeDefID ?vs)) = Inr as" using attrRepo_GetMany_all by blast
    define name where "name i = (case map_of (rev (map (\<lambda>a. (ad_id a, ad_internalName a)) as)) i of Some n \<Rightarrow> n | None \<Rightarrow> [])" for i
    have "\<exists>a\<in>set attrs. as_ID a = av_attributeDefID v \<and> name (av_attributeDefID v) = as_InternalName a" if "v \<in> set ?vs" for v
    proof -
      from that have "av_attributeDefID v \<in> as_ID ` set attrs" using known
        by (auto simp: ListByEntity_def set_values_where av_Rehydrate_def)
      from doc_name [OF as _ this] that show ?thesis by (auto simp: name_def)
    qed
    from document_alike [OF al assms(2) this, of lib ten ty ent]
    have "same_doc access attrs (document lib name ten ty ent ?vs) (document lib name ten ty ent ?ws)" .
    moreover have "docs = searchStore_Upsert (db_docs d) (document lib name ten ty ent ?vs)"
      "docs' = searchStore_Upsert (db_docs e) (document lib name ten ty ent ?ws)"
      using assms(3,4) as False none ids by (simp_all add: Rebuild_def Let_def name_def [abs_def])
    ultimately show ?thesis using old by (simp add: searchStore_Upsert_def document_def Let_def)
  qed
qed

lemma twins_view:
  assumes "known_levels access"
  shows "twins lib idString access attrs d e \<Longrightarrow> same_view access attrs d e"
proof (induction rule: twins.induct)
  case (twins_start db)
  then show ?case by (simp add: same_view_def rewrite_hidden_def)
next
  case (twins_write d e s r h)
  then show ?case by (auto simp: same_view_def)
next
  case (twins_index d e ten ty ent docs docs')
  then show ?case using rebuild_view [OF twins_index.IH assms twins_index.hyps(2,3)] by (simp add: same_view_def)
next
  case (twins_purge d e ten)
  have "rel_option (same_doc access attrs) (searchStore_PurgeTenant (db_docs d) ten k) (searchStore_PurgeTenant (db_docs e) ten k)" for k
    using twins_purge.IH unfolding same_view_def
    by (cases "db_docs d k"; cases "db_docs e k") (auto simp: searchStore_PurgeTenant_def same_doc_def option_rel_Some1 dest!: spec [of _ k])
  with twins_purge.IH show ?case by (simp add: same_view_def)
qed

section \<open>Evaluation\<close>

lemma scopedValues_view:
  assumes "same_view access attrs d e" "attr_open access attrs a"
  shows "scopedValues e a link s = scopedValues d a link s"
proof -
  from assms(1) obtain h where h: "db_values e = rewrite_hidden access attrs h (db_values d)" by (auto simp: same_view_def)
  have open_: "\<not> hidden access attrs (as_ID a)" using assms(2) by (auto simp: hidden_def attr_open_def)
  have "filter (row_in_scope a link s) (rewrite_hidden access attrs h xs) = filter (row_in_scope a link s) xs" for xs
    by (induction xs) (auto simp: rewrite_hidden_def row_in_scope_def open_)
  then show ?thesis by (simp add: scopedValues_def h)
qed

lemma declaredType_view: "same_view access attrs d e \<Longrightarrow> declaredType e = declaredType d"
proof -
  assume "same_view access attrs d e"
  then obtain h where h: "db_values e = rewrite_hidden access attrs h (db_values d)" by (auto simp: same_view_def)
  have "map_option vs_TypeDefinitionID (find (\<lambda>x. vs_TenantID x = t \<and> vs_EntityID x = n \<and> vs_ArchivedAt x = None) (rewrite_hidden access attrs h xs)) =
      map_option vs_TypeDefinitionID (find (\<lambda>x. vs_TenantID x = t \<and> vs_EntityID x = n \<and> vs_ArchivedAt x = None) xs)" for xs t n
    by (induction xs) (auto simp: rewrite_hidden_def)
  then show ?thesis by (auto simp: declaredType_def h fun_eq_iff)
qed

lemma evalMatches_view:
  assumes "same_view access attrs d e" "leaf_ok lib access attrs (BoundMatches q names)"
  shows "evalMatches env e q names s = evalMatches env d q names s"
proof -
  let ?k = "doc_key (ev_tenant s) (ev_entity s)"
  from assms(1) have "rel_option (same_doc access attrs) (db_docs d ?k) (db_docs e ?k)" by (simp add: same_view_def)
  then show ?thesis
  proof (cases rule: option.rel_cases)
    case (Some x y)
    have "map (sd_values y) ns = map (sd_values x) ns" if "names = Some ns" for ns
    proof -
      from assms(2) that have "\<forall>n\<in>set ns. CanRead access n \<and> n \<in> as_InternalName ` set attrs" by simp
      moreover from Some(3) have "\<forall>n. n \<in> as_InternalName ` set attrs \<and> CanRead access n \<longrightarrow> sd_values x n = sd_values y n"
        unfolding same_doc_def by (elim conjE)
      ultimately show ?thesis by simp
    qed
    moreover have "sd_entity x = sd_entity y" "names = None \<Longrightarrow> x = y"
      using Some(3) assms(2) by (simp_all add: same_doc_def)
    ultimately show ?thesis using Some(1,2) by (cases names) (simp_all add: evalMatches_def cong: map_cong)
  qed (simp add: evalMatches_def)
qed

lemma eval_view:
  assumes "same_view access attrs d e" "tree_ok lib access attrs n"
  shows "eval env e n s = eval env d n s"
  using assms(2)
proof (induction n arbitrary: s)
  case (BoundLogical lop es)
  then have "eval_all env e lop es unk s = eval_all env d lop es unk s" for unk
    by (induction es arbitrary: unk) (auto intro!: arg_cong2 [where f = rbind])
  then show ?case by simp
next
  case (BoundTraversal def dir inner)
  then have "eval env e inner = eval env d inner" by auto
  moreover have "counterpart env e def dir s = counterpart env d def dir s"
    unfolding counterpart_def declaredType_view [OF assms(1)] ..
  moreover have "db_rels e = db_rels d" using assms(1) by (simp add: same_view_def)
  ultimately show ?case by (simp add: evalTraversal_def)
next
  case (BoundMatches q names)
  then show ?case using evalMatches_view [OF assms(1)] by (simp add: tree_ok_def)
qed (auto simp: tree_ok_def evalCompare_def evalRange_def scopedValues_view [OF assms(1)])

lemma entity_summaries_view:
  "entity_summaries (rewrite_hidden access attrs h s) ten ids = entity_summaries s ten ids"
proof -
  let ?g = "\<lambda>x. if hidden access attrs (vs_AttributeDefinitionID x) then x\<lparr>vs_Value := h x\<rparr> else x"
  let ?P = "\<lambda>x. vs_TenantID x = ten \<and> vs_ArchivedAt x = None \<and> vs_TypeDefinitionID x \<in> set ids"
  have f: "filter Q (map ?g xs) = map ?g (filter Q xs)" if "\<And>x. Q (?g x) = Q x" for Q xs
    using that by (induction xs) auto
  have live: "filter ?P (rewrite_hidden access attrs h s) = map ?g (filter ?P s)"
    unfolding rewrite_hidden_def by (rule f) simp
  have keys: "map (\<lambda>x. (vs_TypeDefinitionID x, vs_EntityID x)) (map ?g xs) = map (\<lambda>x. (vs_TypeDefinitionID x, vs_EntityID x)) xs" for xs
    by (induction xs) auto
  have "entity_summary (map ?g xs) k = entity_summary xs k" for xs k
  proof -
    have rows: "filter (\<lambda>x. vs_TypeDefinitionID x = fst k \<and> vs_EntityID x = snd k) (map ?g xs) =
        map ?g (filter (\<lambda>x. vs_TypeDefinitionID x = fst k \<and> vs_EntityID x = snd k) xs)" by (rule f) simp
    have upd: "vs_UpdatedAt \<circ> ?g = vs_UpdatedAt" by (rule ext) simp
    show ?thesis unfolding entity_summary_def rows Let_def by (simp add: upd)
  qed
  then show ?thesis unfolding entity_summaries_def live keys Let_def by simp
qed

lemma Search_view:
  assumes "same_view access attrs d e" "tree_ok lib access attrs n"
  shows "query_Search env klib timeKey e ten ids n sc page = query_Search env klib timeKey d ten ids n sc page"
proof -
  from assms(1) obtain h where "db_values e = rewrite_hidden access attrs h (db_values d)" by (auto simp: same_view_def)
  then show ?thesis by (simp add: query_Search_def entity_summaries_view eval_view [OF assms])
qed

lemma Execute_view:
  assumes "same_view (cx_access cx) (rp_attrs rp) d e" "float_parse_finite (cx_lib cx)"
  shows "query_Execute cx ul timeKey rp defs si e inp = query_Execute cx ul timeKey rp defs si d inp"
proof (cases "prepare cx rp defs si (ei_Type inp) (ei_Query inp)")
  case (Inr p)
  obtain ids n where p: "p = (ids, n)" by (cases p)
  from Search_view [OF assms(1) prepare_ok(1) [OF assms(2) Inr [unfolded p]]] show ?thesis
    by (simp add: query_Execute_def Inr p)
qed (simp add: query_Execute_def)

end
