(* ===== verification/Attr_Usecases.thy ===== *)
theory Attr_Usecases
  imports Value_Usecases "HOL-Library.AList"
begin

text \<open>
  The attribute-definition use cases (\<^verbatim>\<open>application/attribute/interactor.go\<close>) over the in-memory
  repositories (\<^verbatim>\<open>infrastructure/memory/definitions.go\<close>): create, update with its version check and
  the guards on stored data and formulas, archive and restore, the dry run of a value, and the
  lists.

  A use case runs in one unit of work, so only a successful call returns a new repository, with the
  snapshot it answers, the collected events and the recorded change. The structured details of an
  error are left out, as everywhere in this development. A dereferenced nil pointer is the error
  \<open>nil_dereference\<close>, which no branch of the code produces as a value. The order in which a range over a Go map
  meets its keys is the order of an association list. \<open>relDefs\<close> is \<open>None\<close> when the interactor is built without a
  relationship repository.
\<close>

section \<open>The attribute repository (memory/definitions.go)\<close>

definition attrRepo_GetByInternalName :: "attr_store \<Rightarrow> TypeDefinitionID \<Rightarrow> string \<Rightarrow> AttributeDefinition result" where
  "attrRepo_GetByInternalName s typeDefID name =
     (case find (\<lambda>x. as_TypeDefinitionID x = typeDefID \<and> as_InternalName x = name \<and> as_ArchivedAt x = None) s of
        None \<Rightarrow> Inl (NewNotFound attr_AggregateType)
      | Some x \<Rightarrow> Inr (attr_Rehydrate x))"

definition attrRepo_PageByType :: "vctx \<Rightarrow> attr_store \<Rightarrow> TypeDefinitionID \<Rightarrow> Page \<Rightarrow> (AttributeDefinition list \<times> int) result" where
  "attrRepo_PageByType cx s typeDefID page =
     map_sum id (map_prod (map attr_Rehydrate) id)
       (paginate (cx_klib cx) (sortByID (\<lambda>a. cx_idString cx (as_ID a))
            (filter (\<lambda>snap. as_TypeDefinitionID snap = typeDefID \<and> as_ArchivedAt snap = None) s))
          page idKeyset (\<lambda>a. idKey (cx_idString cx (as_ID a))))"

record AttrFilter =
  af_TenantID :: TenantID
  af_TypeDefinitionID :: TypeDefinitionID
  af_InternalNames :: "string list"
  af_DataTypes :: "DataType list"
  af_UnitFamilyID :: string
  af_IncludeArchived :: bool

definition attr_listed :: "AttrFilter \<Rightarrow> AttrSnapshot \<Rightarrow> bool" where
  "attr_listed f snap \<longleftrightarrow>
     as_TenantID snap = af_TenantID f \<and> (af_IncludeArchived f \<or> as_ArchivedAt snap = None) \<and>
     (id_IsZero (af_TypeDefinitionID f) \<or> as_TypeDefinitionID snap = af_TypeDefinitionID f) \<and>
     matchNames (af_InternalNames f) (as_InternalName snap) \<and>
     (af_DataTypes f = [] \<or> as_DataType snap \<in> set (af_DataTypes f)) \<and>
     (af_UnitFamilyID f = [] \<or> as_UnitFamilyID snap = af_UnitFamilyID f)"

definition attrRepo_List :: "vctx \<Rightarrow> attr_store \<Rightarrow> AttrFilter \<Rightarrow> Page \<Rightarrow> (AttributeDefinition list \<times> int) result" where
  "attrRepo_List cx s f page =
     map_sum id (map_prod (map attr_Rehydrate) id)
       (paginate (cx_klib cx) (sortByID (\<lambda>a. cx_idString cx (as_ID a)) (filter (attr_listed f) s))
          page idKeyset (\<lambda>a. idKey (cx_idString cx (as_ID a))))"

fun put_attr :: "AttrSnapshot \<Rightarrow> attr_store \<Rightarrow> attr_store" where
  "put_attr x [] = [x]"
| "put_attr x (y # ys) = (if as_ID y = as_ID x then x # ys else y # put_attr x ys)"

definition attrRepo_Save :: "attr_store \<Rightarrow> AttributeDefinition \<Rightarrow> attr_store result" where
  "attrRepo_Save s a =
     (let snap = attr_Snapshot a
      in if as_ArchivedAt snap = None \<and>
            list_ex (\<lambda>other. \<not> (as_ID other = as_ID snap \<or> as_ArchivedAt other \<noteq> None) \<and>
                       as_TypeDefinitionID other = as_TypeDefinitionID snap \<and> as_InternalName other = as_InternalName snap) s
         then Inl (NewConflict ''an attribute with this internal name already exists on this type'')
         else Inr (put_attr snap s))"

section \<open>Inputs and their decoding\<close>

record AttrCreateInput =
  ac_TypeDefinitionID :: string
  ac_InternalName :: string
  ac_DisplayName :: string
  ac_Description :: string
  ac_DataType :: string
  ac_Required :: bool
  ac_MultiValued :: bool
  ac_Unique :: bool
  ac_Localizable :: bool
  ac_Scopable :: bool
  ac_UnitFamilyID :: string
  ac_DisplayUnit :: string
  ac_Computed :: rawmsg
  ac_Constraints :: rawmsg
  ac_DefaultValue :: rawmsg
  ac_Group :: string
  ac_SortOrder :: int
  ac_HelpText :: string

record AttrUpdateRequest =
  ur_ID :: string
  ur_DisplayName :: string
  ur_Description :: string
  ur_Required :: bool
  ur_MultiValued :: bool
  ur_Unique :: bool
  ur_Localizable :: bool
  ur_Scopable :: bool
  ur_UnitFamilyID :: string
  ur_DisplayUnit :: string
  ur_Computed :: rawmsg
  ur_Constraints :: rawmsg
  ur_DefaultValue :: rawmsg
  ur_Group :: string
  ur_SortOrder :: int
  ur_HelpText :: string
  ur_Version :: "int option"

definition given :: "rawmsg \<Rightarrow> bool" where
  "given raw \<longleftrightarrow> raw \<noteq> RawNil \<and> raw \<noteq> Raw JNull"

definition decodeRules :: "golib \<Rightarrow> rawmsg \<Rightarrow> rawmsg \<Rightarrow> (Constraints \<times> Default option) result" where
  "decodeRules lib rawConstraints rawDefault =
     (case (if given rawConstraints then Constraints_UnmarshalJSON lib rawConstraints else Inr []) of
        Inl _ \<Rightarrow> Inl (NewValidation ''invalid constraints'')
      | Inr constraints \<Rightarrow>
          (case (if given rawDefault then map_sum id Some (Default_UnmarshalJSON lib rawDefault) else Inr None) of
             Inl _ \<Rightarrow> Inl (NewValidation ''invalid default value'')
           | Inr defaultValue \<Rightarrow> Inr (constraints, defaultValue)))"

definition to_ComputedKind :: "string \<Rightarrow> ComputedKind" where
  "to_ComputedKind s = (if s = ''formula'' then ComputedFormula else if s = ''rollup'' then ComputedRollup else ComputedKindOther s)"

definition to_RollupAggregate :: "string \<Rightarrow> RollupAggregate" where
  "to_RollupAggregate s =
     (if s = ''count'' then RollupCount else if s = ''sum'' then RollupSum else if s = ''min'' then RollupMin
      else if s = ''max'' then RollupMax else RollupOther s)"

definition zero_rollup :: Rollup where
  "zero_rollup = \<lparr>ro_Relationship = [], ro_Direction = [], ro_Aggregate = RollupOther [], ro_Target = []\<rparr>"

definition zero_computed :: Computed where
  "zero_computed = \<lparr>co_Kind = ComputedKindOther [], co_Formula = [], co_Rollup = None\<rparr>"

definition rollup_member :: "string \<Rightarrow> json \<Rightarrow> Rollup \<Rightarrow> Rollup \<times> bool" where
  "rollup_member k j r =
     (if key_is ''relationship'' k then into_string (\<lambda>s. r\<lparr>ro_Relationship := s\<rparr>) r j
      else if key_is ''direction'' k then into_string (\<lambda>s. r\<lparr>ro_Direction := s\<rparr>) r j
      else if key_is ''aggregate'' k then into_string (\<lambda>s. r\<lparr>ro_Aggregate := to_RollupAggregate s\<rparr>) r j
      else if key_is ''target'' k then into_string (\<lambda>s. r\<lparr>ro_Target := s\<rparr>) r j
      else (r, True))"

definition into_rollup :: "Rollup option \<Rightarrow> json \<Rightarrow> Rollup option \<times> bool" where
  "into_rollup p j =
     (case j of JNull \<Rightarrow> (None, True)
      | JObj kvs \<Rightarrow> (let (r, ok) = decode_members rollup_member kvs (case p of None \<Rightarrow> zero_rollup | Some r0 \<Rightarrow> r0) in (Some r, ok))
      | _ \<Rightarrow> (p, False))"

definition computed_member :: "string \<Rightarrow> json \<Rightarrow> Computed \<Rightarrow> Computed \<times> bool" where
  "computed_member k j c =
     (if key_is ''kind'' k then into_string (\<lambda>s. c\<lparr>co_Kind := to_ComputedKind s\<rparr>) c j
      else if key_is ''formula'' k then into_string (\<lambda>s. c\<lparr>co_Formula := s\<rparr>) c j
      else if key_is ''rollup'' k then (let (p, ok) = into_rollup (co_Rollup c) j in (c\<lparr>co_Rollup := p\<rparr>, ok))
      else (c, True))"

definition decodeComputed :: "rawmsg \<Rightarrow> Computed option result" where
  "decodeComputed raw =
     (if \<not> given raw then Inr None
      else let (c, ok) = decode_struct computed_member raw zero_computed
           in if ok then Inr (Some c) else Inl (NewValidation ''invalid computed spec''))"

section \<open>Quantity operands\<close>

definition rebase :: "vctx \<Rightarrow> Family \<Rightarrow> gvalue \<Rightarrow> gvalue result" where
  "rebase cx family v =
     (if dataType v \<noteq> DataTypeQuantity then Inr v
      else let q = value_Quantity (cx_lib cx) v
           in rbind (ToBase (cx_lib cx) (cx_formatF cx) family (Magnitude q) (QUnit q)) (\<lambda>base.
                NewQuantityValue (Magnitude q) (QUnit q) base))"

fun rebase_constraint :: "vctx \<Rightarrow> Family \<Rightarrow> Constraint \<Rightarrow> Constraint result" where
  "rebase_constraint cx family (MinValue v) = map_sum id MinValue (rebase cx family v)"
| "rebase_constraint cx family (MaxValue v) = map_sum id MaxValue (rebase cx family v)"
| "rebase_constraint cx family (OneOf vs) = map_sum id OneOf (map_result (rebase cx family) vs)"
| "rebase_constraint cx family c = Inr c"

definition rebase_default :: "vctx \<Rightarrow> Family \<Rightarrow> Default option \<Rightarrow> Default option result" where
  "rebase_default cx family def =
     (case def of None \<Rightarrow> Inr None
      | Some d \<Rightarrow> (case Static d of None \<Rightarrow> Inr def
          | Some v \<Rightarrow> map_sum id (\<lambda>nv. Some (d\<lparr>Static := Some nv\<rparr>)) (rebase cx family v)))"

definition needs_family :: "Constraints \<Rightarrow> Default option \<Rightarrow> bool" where
  "needs_family constraints def \<longleftrightarrow>
     (case def of None \<Rightarrow> False | Some d \<Rightarrow> Static d \<noteq> None) \<or>
     list_ex (\<lambda>c. constraint_Kind c \<in> {KindMinValue, KindMaxValue, KindOneOf}) constraints"

definition normalizeQuantityConstraints :: "vctx \<Rightarrow> DataType \<Rightarrow> string \<Rightarrow> Constraints \<times> Default option \<Rightarrow>
    (Constraints \<times> Default option) result" where
  "normalizeQuantityConstraints cx dt unitFamilyID rules =
     (let (constraints, def) = rules
      in if dt \<noteq> DataTypeQuantity \<or> \<not> needs_family constraints def then Inr rules
         else (case cx_units cx of None \<Rightarrow> Inl (NewValidation ''unit families are not configured in this deployment'')
           | Some units \<Rightarrow>
               if unitFamilyID = [] then Inl (NewValidation ''quantity attribute with value constraints requires a unit family'')
               else rbind (as_validation (cx_parseID cx unitFamilyID)) (\<lambda>famID.
                    rbind (units (cx_tenant cx) famID) (\<lambda>family.
                    rbind (map_result (rebase_constraint cx family) constraints) (\<lambda>cs.
                    map_sum id (Pair cs) (rebase_default cx family def))))))"

section \<open>Formulas\<close>

text \<open>\<open>listAll\<close> is \<^verbatim>\<open>ListAllForType\<close> on the attribute repository.\<close>

record formulaRefs =
  fr_all :: "string list"
  fr_bare :: "string list"

definition formulaScalarRefs :: "golib \<Rightarrow> string \<Rightarrow> string list result" where
  "formulaScalarRefs lib src = map_sum (\<lambda>e. NewValidation (err_msg e)) scalarRefs (Parse_formula lib src)"

definition formulaRefKinds :: "golib \<Rightarrow> string \<Rightarrow> (string list \<times> string list) result" where
  "formulaRefKinds lib src =
     map_sum (\<lambda>e. NewValidation (err_msg e)) (\<lambda>expr. (scalarRefs expr, numericRefs expr)) (Parse_formula lib src)"

definition stored_refs :: "golib \<Rightarrow> AttributeDefinition \<Rightarrow> formulaRefs option" where
  "stored_refs lib a =
     (case ad_computed a of None \<Rightarrow> None
      | Some c \<Rightarrow>
          if co_Kind c \<noteq> ComputedFormula then None
          else (case Computed_Validate lib c of Inl _ \<Rightarrow> None
            | Inr rs \<Rightarrow> (case formulaScalarRefs lib (co_Formula c) of Inl _ \<Rightarrow> None
                | Inr scalar \<Rightarrow> Some \<lparr>fr_all = rs, fr_bare = scalar\<rparr>)))"

definition add_stored_refs :: "golib \<Rightarrow> AttributeDefinition \<Rightarrow> (string \<times> formulaRefs) list \<Rightarrow> (string \<times> formulaRefs) list" where
  "add_stored_refs lib a out =
     (case stored_refs lib a of None \<Rightarrow> out | Some r \<Rightarrow> AList.update (ad_internalName a) r out)"

fun computedRefs :: "golib \<Rightarrow> (TypeDefinitionID \<Rightarrow> AttributeDefinition list result) \<Rightarrow> TypeDefinition list \<Rightarrow>
    (string \<times> formulaRefs) list \<Rightarrow> (string \<times> formulaRefs) list result" where
  "computedRefs lib listAll [] out = Inr out"
| "computedRefs lib listAll (link # hierarchy) out =
     rbind (listAll (td_id link)) (\<lambda>list. computedRefs lib listAll hierarchy (fold (add_stored_refs lib) list out))"

definition computedDeps :: "golib \<Rightarrow> (TypeDefinitionID \<Rightarrow> AttributeDefinition list result) \<Rightarrow> TypeDefinition list \<Rightarrow>
    (string \<times> string list) list result" where
  "computedDeps lib listAll hierarchy =
     map_sum id (map (\<lambda>(name, r). (name, fr_all r))) (computedRefs lib listAll hierarchy [])"

definition reader_err :: "string \<Rightarrow> bool \<Rightarrow> bool \<Rightarrow> string list \<Rightarrow> string \<Rightarrow> goerr option" where
  "reader_err name gainingMulti gainingScope bare ref =
     (if ref \<noteq> name then None
      else if gainingScope then Some (NewConflict ''cannot make the attribute localizable or scopable: a computed formula reads it'')
      else if gainingMulti \<and> ref \<notin> set bare then None
      else Some (NewConflict ''cannot make the attribute multi-valued: a computed formula reads it bare''))"

definition refuseFormulaReaders :: "string \<Rightarrow> (string \<times> formulaRefs) list \<Rightarrow> bool \<Rightarrow> bool \<Rightarrow> goerr option" where
  "refuseFormulaReaders name deps gainingMulti gainingScope =
     first_err (\<lambda>(_, r). first_err (reader_err name gainingMulti gainingScope (fr_bare r)) (fr_all r)) deps"

fun isNumericDataType :: "DataType \<Rightarrow> bool" where
  "isNumericDataType DataTypeBool = True"
| "isNumericDataType DataTypeInteger = True"
| "isNumericDataType DataTypeFloat = True"
| "isNumericDataType DataTypeDecimal = True"
| "isNumericDataType DataTypeQuantity = True"
| "isNumericDataType _ = False"

definition errUnknownFormulaSource :: goerr where
  "errUnknownFormulaSource = NewValidation ''the formula references an unknown attribute in this type hierarchy''"

definition source_err :: "Access \<Rightarrow> string list \<Rightarrow> string list \<Rightarrow> AttributeDefinition \<Rightarrow> goerr option" where
  "source_err access bare numeric a =
     (if \<not> CanRead access (ad_internalName a) then Some errUnknownFormulaSource
      else if ad_multiValued a \<and> ad_internalName a \<in> set bare
        then Some (NewValidation ''a formula cannot read a multi-valued attribute directly'')
      else if ad_localizable a \<or> ad_scopable a
        then Some (NewValidation ''a formula cannot read a localizable or scopable attribute'')
      else if ad_internalName a \<in> set numeric \<and> \<not> isNumericDataType (ad_dataType a)
        then Some (NewValidation ''a formula can only read or fold a numeric attribute'')
      else None)"

text \<open>The loop over the hierarchy; the last argument is the map of resolved names.\<close>

fun sources_from :: "Access \<Rightarrow> (TypeDefinitionID \<Rightarrow> AttributeDefinition list result) \<Rightarrow> string list \<Rightarrow> string list \<Rightarrow> string list \<Rightarrow>
    TypeDefinition list \<Rightarrow> string list \<Rightarrow> string list result" where
  "sources_from access listAll wanted bare numeric [] resolved = Inr resolved"
| "sources_from access listAll wanted bare numeric (link # hierarchy) resolved =
     rbind (listAll (td_id link)) (\<lambda>list.
       let sources = filter (\<lambda>a. ad_internalName a \<in> set wanted) list
       in rguard (first_err (source_err access bare numeric) sources)
            (sources_from access listAll wanted bare numeric hierarchy (map ad_internalName sources @ resolved)))"

definition assertFormulaSourcesAreScalar :: "Access \<Rightarrow> (TypeDefinitionID \<Rightarrow> AttributeDefinition list result) \<Rightarrow>
    TypeDefinition list \<Rightarrow> string list \<Rightarrow> string list \<Rightarrow> string list \<Rightarrow> goerr option" where
  "assertFormulaSourcesAreScalar access listAll hierarchy rs scalars numerics =
     (if rs = [] then None
      else (case sources_from access listAll rs scalars numerics hierarchy [] of Inl e \<Rightarrow> Some e
        | Inr resolved \<Rightarrow>
            if Admin access then None
            else first_err (\<lambda>r. if r \<in> set resolved then None else Some errUnknownFormulaSource) rs))"

text \<open>The depth-first search of \<^verbatim>\<open>checkFormulaCycle\<close>. \<open>visit graph name refs seen\<close> is the loop over the rest \<open>refs\<close> of the
  references of the current node; \<open>seen\<close> is the map the calls share.\<close>

definition edges :: "(string \<times> string list) list \<Rightarrow> string \<Rightarrow> string list" where
  "edges graph cur = (case map_of graph cur of Some rs \<Rightarrow> rs | None \<Rightarrow> [])"

function visit :: "(string \<times> string list) list \<Rightarrow> string \<Rightarrow> string list \<Rightarrow> string set \<Rightarrow> bool \<times> string set" where
  "visit graph name [] seen = (False, seen)"
| "visit graph name (ref # rs) seen =
     (if ref = name then (True, seen)
      else if ref \<in> seen then visit graph name rs seen
      else (let (found, seen') = visit graph name (edges graph ref) (insert ref seen)
            in if found then (True, seen') else visit graph name rs seen'))"
  by pat_completeness auto

lemma visit_grows: "visit_dom (graph, name, rs, seen) \<Longrightarrow> seen \<subseteq> snd (visit graph name rs seen)"
  by (induction graph name rs seen rule: visit.pinduct)
     (auto simp: visit.psimps Let_def split: prod.split; blast)+

definition open_nodes :: "(string \<times> string list) list \<Rightarrow> string set \<Rightarrow> nat" where
  "open_nodes graph seen = card (fst ` set graph - seen)"

lemma open_nodes_mono: "seen \<subseteq> seen' \<Longrightarrow> open_nodes graph seen' \<le> open_nodes graph seen"
  by (auto simp: open_nodes_def intro!: card_mono)

lemma open_nodes_step:
  assumes "ref \<notin> seen"
  shows "open_nodes graph (insert ref seen) < open_nodes graph seen \<or>
    open_nodes graph (insert ref seen) = open_nodes graph seen \<and> edges graph ref = []"
proof (cases "ref \<in> fst ` set graph")
  case True
  with assms have "fst ` set graph - insert ref seen \<subset> fst ` set graph - seen" by auto
  then have "open_nodes graph (insert ref seen) < open_nodes graph seen"
    unfolding open_nodes_def by (intro psubset_card_mono) auto
  then show ?thesis ..
next
  case False
  then have "edges graph ref = []" by (force simp: edges_def dest: map_of_SomeD split: option.split)
  moreover from False have "fst ` set graph - insert ref seen = fst ` set graph - seen" by auto
  ultimately show ?thesis by (simp add: open_nodes_def)
qed

termination visit
proof (relation "inv_image (less_than <*lex*> less_than) (\<lambda>(graph, _, rs, seen). (open_nodes graph seen, length rs))")
  fix graph name seen and ref :: string and rs :: "string list" and x found seen'
  assume new: "ref \<noteq> name" "ref \<notin> seen"
  show "((graph, name, edges graph ref, insert ref seen), graph, name, ref # rs, seen)
      \<in> inv_image (less_than <*lex*> less_than) (\<lambda>(graph, _, rs, seen). (open_nodes graph seen, length rs))"
    using open_nodes_step [OF new(2), of graph] by auto
  assume "x = visit graph name (edges graph ref) (insert ref seen)" "(found, seen') = x"
    and "visit_dom (graph, name, edges graph ref, insert ref seen)"
  with visit_grows [of graph name "edges graph ref" "insert ref seen"] have "seen \<subseteq> seen'"
    by (metis insert_subset snd_conv)
  then show "((graph, name, rs, seen'), graph, name, ref # rs, seen)
      \<in> inv_image (less_than <*lex*> less_than) (\<lambda>(graph, _, rs, seen). (open_nodes graph seen, length rs))"
    using open_nodes_mono [of seen seen' graph] by auto
qed auto

definition checkFormulaCycle :: "string \<Rightarrow> string list \<Rightarrow> (string \<times> string list) list \<Rightarrow> goerr option" where
  "checkFormulaCycle name rs deps =
     (let graph = AList.update name rs deps
      in if fst (visit graph name (edges graph name) {name})
         then Some (NewValidation ''computed formula introduces a dependency cycle'') else None)"

fun appendUnseenTypes :: "TypeDefinition list \<Rightarrow> TypeDefinition list \<Rightarrow> TypeDefinition list" where
  "appendUnseenTypes into [] = into"
| "appendUnseenTypes into (t # others) =
     (if td_id t \<in> td_id ` set into then appendUnseenTypes into others else appendUnseenTypes (into @ [t]) others)"

section \<open>Rollups\<close>

definition nil_dereference :: goerr where
  "nil_dereference = PlainErr ''nil pointer dereference''"

definition errUnresolvedRollup :: goerr where
  "errUnresolvedRollup = NewValidation ''this rollup does not resolve: check the relationship, the direction and the target''"

fun isAggregatable :: "DataType \<Rightarrow> bool" where
  "isAggregatable DataTypeInteger = True"
| "isAggregatable DataTypeFloat = True"
| "isAggregatable DataTypeDecimal = True"
| "isAggregatable DataTypeQuantity = True"
| "isAggregatable _ = False"

definition refuse :: "Access \<Rightarrow> goerr \<Rightarrow> goerr option" where
  "refuse access e = Some (if Admin access then e else errUnresolvedRollup)"

definition direction_err :: "Access \<Rightarrow> Rollup \<Rightarrow> bool \<Rightarrow> bool \<Rightarrow> goerr option" where
  "direction_err access spec isParent isChild =
     (if ro_Direction spec = ''child'' then
        (if isParent then None
         else refuse access (NewValidation (''a child rollup over '' @ ro_Relationship spec @ '' starts from its parent type, which this is not'')))
      else if ro_Direction spec = ''parent'' then
        (if isChild then None
         else refuse access (NewValidation (''a parent rollup over '' @ ro_Relationship spec @ '' starts from its child type, which this is not'')))
      else if \<not> isParent \<and> \<not> isChild
        then refuse access (NewValidation (''this type is not an endpoint of '' @ ro_Relationship spec))
      else None)"

definition target_err :: "Access \<Rightarrow> attr_store \<Rightarrow> Rollup \<Rightarrow> TypeDefinitionID \<Rightarrow> goerr option" where
  "target_err access attrs spec counterpart =
     (let missing = NewValidation (''rollup target '' @ ro_Target spec @ '' does not exist on the type '' @ ro_Relationship spec @ '' reaches'')
      in case attrRepo_GetByInternalName attrs counterpart (ro_Target spec) of
           Inl e \<Rightarrow> if CodeOf e \<noteq> Some CodeNotFound then Some e else refuse access missing
         | Inr target \<Rightarrow>
             if \<not> CanRead access (ro_Target spec) then refuse access missing
             else if \<not> isAggregatable (ad_dataType target)
               then refuse access (NewValidation (''rollup target '' @ ro_Target spec @ '' is not numeric, so it cannot be aggregated''))
             else None)"

definition assertRollupResolves :: "vctx \<Rightarrow> vrepos \<Rightarrow> reldef_store option \<Rightarrow> TypeDefinition \<Rightarrow> Computed \<Rightarrow> goerr option" where
  "assertRollupResolves cx rp relDefs td computed =
     (case co_Rollup computed of None \<Rightarrow> Some nil_dereference
      | Some spec \<Rightarrow>
          (case relDefs of
             None \<Rightarrow> if CanRead (cx_access cx) (ro_Target spec) then None else Some errUnresolvedRollup
           | Some defs \<Rightarrow>
               (case relDefRepo_GetByInternalName defs (cx_tenant cx) (ro_Relationship spec) of
                  Inl e \<Rightarrow>
                    if CodeOf e \<noteq> Some CodeNotFound then Some e
                    else refuse (cx_access cx) (NewValidation (''rollup relationship '' @ ro_Relationship spec @ '' does not exist''))
                | Inr def \<Rightarrow>
                    let isParent = rd_parentTypeID def = td_id td; isChild = rd_childTypeID def = td_id td
                    in case direction_err (cx_access cx) spec isParent isChild of Some e \<Rightarrow> Some e
                       | None \<Rightarrow>
                           if ro_Aggregate spec = RollupCount then None
                           else target_err (cx_access cx) (rp_attrs rp) spec
                                  (if ro_Direction spec = ''parent'' \<or> (ro_Direction spec = ''linked'' \<and> isChild)
                                   then rd_parentTypeID def else rd_childTypeID def))))"

section \<open>Guards on a change\<close>

abbreviation list_all_for :: "vctx \<Rightarrow> vrepos \<Rightarrow> TypeDefinitionID \<Rightarrow> AttributeDefinition list result" where
  "list_all_for cx rp \<equiv> ListAllForType (attrRepo_ListByTypeDefinition cx (rp_attrs rp))"

abbreviation children_of :: "vrepos \<Rightarrow> TypeDefinitionID \<Rightarrow> TypeDefinition list result" where
  "children_of rp \<equiv> typeDefRepo_ListChildren (rp_types rp)"

definition assertStructuralChangeIsSafe :: "golib \<Rightarrow> value_store \<Rightarrow> AttrSnapshot \<Rightarrow> AttrUpdateRequest \<Rightarrow> Computed option \<Rightarrow> goerr option" where
  "assertStructuralChangeIsSafe lib vals before inp computed =
     (let losingMulti = as_MultiValued before \<and> \<not> ur_MultiValued inp;
          gainingUnique = \<not> as_Unique before \<and> ur_Unique inp;
          losingLocale = as_Localizable before \<and> \<not> ur_Localizable inp;
          losingChannel = as_Scopable before \<and> \<not> ur_Scopable inp;
          gainingComputed = as_Computed before = None \<and> computed \<noteq> None;
          changingFamily = as_UnitFamilyID before \<noteq> [] \<and> as_UnitFamilyID before \<noteq> ur_UnitFamilyID inp
      in if \<not> losingMulti \<and> \<not> gainingUnique \<and> \<not> losingLocale \<and> \<not> losingChannel \<and> \<not> gainingComputed \<and> \<not> changingFamily
         then None
         else let shape = AttributeDataShape lib vals (as_TenantID before) (as_ID before)
              in if losingMulti \<and> EntitiesWithMany shape > 0
                   then Some (NewConflict ''cannot make the attribute single-valued: entities already hold more than one value'')
                 else if gainingUnique \<and> DuplicateValues shape > 0
                   then Some (NewConflict ''cannot make the attribute unique: stored values already contain duplicates'')
                 else if (losingLocale \<or> losingChannel) \<and> ScopedValues shape > 0
                   then Some (NewConflict ''cannot turn off localizable/scopable: stored values carry a locale or channel'')
                 else if changingFamily \<and> LiveValues shape > 0
                   then (if ur_UnitFamilyID inp = []
                         then Some (NewConflict ''cannot clear the unit family: stored quantities hold a magnitude in its base unit'')
                         else Some (NewConflict ''cannot change the unit family: stored quantities hold a magnitude in the current base unit''))
                 else if gainingComputed \<and> LiveValues shape > 0
                   then Some (NewConflict ''cannot make the attribute computed: it already holds written values'')
                 else None)"

definition assertNoFormulaReadsScopedSource :: "vctx \<Rightarrow> vrepos \<Rightarrow> AttrSnapshot \<Rightarrow> AttrUpdateRequest \<Rightarrow> unit result" where
  "assertNoFormulaReadsScopedSource cx rp before inp =
     (let gainingMulti = \<not> as_MultiValued before \<and> ur_MultiValued inp;
          gainingScope = \<not> as_Localizable before \<and> ur_Localizable inp \<or> \<not> as_Scopable before \<and> ur_Scopable inp
      in if \<not> gainingMulti \<and> \<not> gainingScope then Inr ()
         else rbind (types_get rp (as_TypeDefinitionID before)) (\<lambda>td.
              rbind (Chain (types_get rp) td) (\<lambda>chain.
              rbind (Descendants (children_of rp) td) (\<lambda>descendants.
              rbind (computedRefs (cx_lib cx) (list_all_for cx rp) (appendUnseenTypes chain descendants) []) (\<lambda>deps.
              rguard (refuseFormulaReaders (as_InternalName before) deps gainingMulti gainingScope) (Inr ()))))))"

text \<open>The whole tree of a type: its chain, then every descendant of the root.\<close>

definition whole_hierarchy :: "vrepos \<Rightarrow> TypeDefinition \<Rightarrow> TypeDefinition \<Rightarrow> TypeDefinition list result" where
  "whole_hierarchy rp td r =
     rbind (Chain (types_get rp) td) (\<lambda>chain.
     rbind (Descendants (children_of rp) r) (\<lambda>descendants.
       Inr (appendUnseenTypes chain descendants)))"

definition name_free_err :: "attr_store \<Rightarrow> TypeDefinition \<Rightarrow> string \<Rightarrow> TypeDefinition \<Rightarrow> goerr option" where
  "name_free_err attrs td name link =
     (case attrRepo_GetByInternalName attrs (td_id link) name of
        Inl e \<Rightarrow> if CodeOf e \<noteq> Some CodeNotFound then Some e else None
      | Inr _ \<Rightarrow>
          if td_id link = td_id td then Some (NewConflict ''internal name already in use'')
          else Some (NewConflict ''internal name is already declared elsewhere in the type hierarchy''))"

definition restore_name_err :: "attr_store \<Rightarrow> AttributeDefinition \<Rightarrow> TypeDefinition \<Rightarrow> goerr option" where
  "restore_name_err attrs attr link =
     (case attrRepo_GetByInternalName attrs (td_id link) (ad_internalName attr) of
        Inl e \<Rightarrow> if CodeOf e \<noteq> Some CodeNotFound then Some e else None
      | Inr existing \<Rightarrow>
          if ad_id existing \<noteq> ad_id attr
          then Some (NewConflict ''another live attribute in this hierarchy already uses this internal name'') else None)"

definition assertNameFreeInHierarchy :: "vrepos \<Rightarrow> AttributeDefinition \<Rightarrow> unit result" where
  "assertNameFreeInHierarchy rp attr =
     rbind (types_get rp (ad_typeDefinitionID attr)) (\<lambda>td.
     rbind (Root (types_get rp) td) (\<lambda>r.
     rbind (whole_hierarchy rp td r) (\<lambda>hierarchy.
       rguard (first_err (restore_name_err (rp_attrs rp) attr) hierarchy) (Inr ()))))"

section \<open>Create\<close>

datatype schema_action = SchemaCreated | SchemaUpdated | SchemaArchived | SchemaRestored

record attr_change =
  ch_Action :: schema_action
  ch_Before :: "AttrSnapshot option"
  ch_After :: AttrSnapshot

type_synonym attr_outcome = "(attr_store \<times> AttrSnapshot \<times> attr_event list \<times> attr_change) result"

definition save_attr :: "attr_store \<Rightarrow> schema_action \<Rightarrow> AttrSnapshot option \<Rightarrow> AttributeDefinition \<times> attr_event list \<Rightarrow> attr_outcome" where
  "save_attr s action before res =
     (let (attr, evts) = res
      in rbind (attrRepo_Save s attr) (\<lambda>s'.
           let snap = attr_Snapshot attr
           in Inr (s', snap, evts, \<lparr>ch_Action = action, ch_Before = before, ch_After = snap\<rparr>)))"

text \<open>The checks of a formula against the other formulas and the sources in \<open>hierarchy\<close>. \<^verbatim>\<open>Create\<close> searches for a cycle before it
  looks at the sources, \<^verbatim>\<open>Update\<close> after.\<close>

definition cycle_guard :: "vctx \<Rightarrow> vrepos \<Rightarrow> TypeDefinition list \<Rightarrow> string \<Rightarrow> string list \<Rightarrow> unit result" where
  "cycle_guard cx rp hierarchy name rs =
     rbind (computedDeps (cx_lib cx) (list_all_for cx rp) hierarchy) (\<lambda>deps.
       rguard (checkFormulaCycle name rs deps) (Inr ()))"

definition sources_guard :: "vctx \<Rightarrow> vrepos \<Rightarrow> TypeDefinition list \<Rightarrow> string \<Rightarrow> string list \<Rightarrow> unit result" where
  "sources_guard cx rp hierarchy formula rs =
     rbind (formulaRefKinds (cx_lib cx) formula) (\<lambda>(scalars, numerics).
       rguard (assertFormulaSourcesAreScalar (cx_access cx) (list_all_for cx rp) hierarchy rs scalars numerics) (Inr ()))"

definition create_computed_guard :: "vctx \<Rightarrow> vrepos \<Rightarrow> reldef_store option \<Rightarrow> TypeDefinition \<Rightarrow> TypeDefinition list \<Rightarrow> string \<Rightarrow>
    Computed option \<Rightarrow> unit result" where
  "create_computed_guard cx rp relDefs td hierarchy name computed =
     (case computed of None \<Rightarrow> Inr ()
      | Some c \<Rightarrow>
          if co_Kind c = ComputedRollup then rguard (assertRollupResolves cx rp relDefs td c) (Inr ())
          else if co_Kind c = ComputedFormula then
            rbind (Computed_Validate (cx_lib cx) c) (\<lambda>rs.
            rbind (cycle_guard cx rp hierarchy name rs) (\<lambda>_.
              sources_guard cx rp hierarchy (co_Formula c) rs))
          else Inr ())"

definition create_readers_guard :: "vctx \<Rightarrow> vrepos \<Rightarrow> TypeDefinition list \<Rightarrow> AttrCreateInput \<Rightarrow> unit result" where
  "create_readers_guard cx rp hierarchy inp =
     (if ac_MultiValued inp \<or> ac_Localizable inp \<or> ac_Scopable inp
      then rbind (computedRefs (cx_lib cx) (list_all_for cx rp) hierarchy []) (\<lambda>deps.
             rguard (refuseFormulaReaders (ac_InternalName inp) deps (ac_MultiValued inp) (ac_Localizable inp \<or> ac_Scopable inp)) (Inr ()))
      else Inr ())"

definition count_guard :: "vctx \<Rightarrow> vrepos \<Rightarrow> TypeDefinitionID \<Rightarrow> unit result" where
  "count_guard cx rp typeDefID =
     rbind (attrRepo_ListByTypeDefinition cx (rp_attrs rp) typeDefID 1) (\<lambda>(_, count).
       if count \<ge> MaxPerType then Inl (NewValidation ''type already declares the maximum number of attributes'') else Inr ())"

definition AttrCreate :: "vctx \<Rightarrow> vrepos \<Rightarrow> reldef_store option \<Rightarrow> AttrCreateInput \<Rightarrow> AttributeDefinitionID \<Rightarrow> int \<Rightarrow> attr_outcome" where
  "AttrCreate cx rp relDefs inp newid now =
     rbind (as_validation (cx_parseID cx (ac_TypeDefinitionID inp))) (\<lambda>typeDefID.
     rbind (as_validation (ParseDataType (ac_DataType inp))) (\<lambda>dt.
     rbind (decodeRules (cx_lib cx) (ac_Constraints inp) (ac_DefaultValue inp)) (\<lambda>rules.
     rbind (normalizeQuantityConstraints cx dt (ac_UnitFamilyID inp) rules) (\<lambda>(constraints, defaultValue).
     rbind (decodeComputed (ac_Computed inp)) (\<lambda>computed.
     rbind (types_get rp typeDefID) (\<lambda>td.
     rguard (EnsureTenant (cx_tenant cx) (td_tenantID td) type_AggregateType) (
     if type_IsArchived td then Inl (NewArchived type_AggregateType)
     else
     rbind (Root (types_get rp) td) (\<lambda>r.
     rbind (if td_id r \<noteq> td_id td then types_get rp (td_id r) else Inr r) (\<lambda>_.
     rbind (whole_hierarchy rp td r) (\<lambda>hierarchy.
     rbind (create_computed_guard cx rp relDefs td hierarchy (ac_InternalName inp) computed) (\<lambda>_.
     rbind (create_readers_guard cx rp hierarchy inp) (\<lambda>_.
     rguard (first_err (name_free_err (rp_attrs rp) td (ac_InternalName inp)) hierarchy) (
     rbind (count_guard cx rp typeDefID) (\<lambda>_.
     rbind (attr_New (cx_lib cx)
              \<lparr>an_TenantID = td_tenantID td, an_TypeDefinitionID = typeDefID, an_InternalName = ac_InternalName inp,
               an_DisplayName = ac_DisplayName inp, an_Description = ac_Description inp, an_DataType = dt,
               an_Required = ac_Required inp, an_MultiValued = ac_MultiValued inp, an_Unique = ac_Unique inp,
               an_Localizable = ac_Localizable inp, an_Scopable = ac_Scopable inp, an_UnitFamilyID = ac_UnitFamilyID inp,
               an_DisplayUnit = ac_DisplayUnit inp, an_Computed = computed, an_Constraints = constraints,
               an_DefaultValue = defaultValue, an_Group = ac_Group inp, an_SortOrder = ac_SortOrder inp,
               an_HelpText = ac_HelpText inp\<rparr> newid now)
       (save_attr (rp_attrs rp) SchemaCreated None)))))))))))))))"

section \<open>Update\<close>

definition load_attr :: "vctx \<Rightarrow> vrepos \<Rightarrow> string \<Rightarrow> AttributeDefinition result" where
  "load_attr cx rp raw =
     rbind (as_validation (cx_parseID cx raw)) (\<lambda>i.
     rbind (attrRepo_Get (rp_attrs rp) i) (\<lambda>attr.
     rguard (EnsureTenant (cx_tenant cx) (ad_tenantID attr) attr_AggregateType) (Inr attr)))"

definition update_computed_guard :: "vctx \<Rightarrow> vrepos \<Rightarrow> reldef_store option \<Rightarrow> AttributeDefinition \<Rightarrow> Computed option \<Rightarrow> unit result" where
  "update_computed_guard cx rp relDefs attr computed =
     (case computed of None \<Rightarrow> Inr ()
      | Some c \<Rightarrow>
          if co_Kind c = ComputedRollup then
            rbind (types_get rp (ad_typeDefinitionID attr)) (\<lambda>owner.
              rguard (assertRollupResolves cx rp relDefs owner c) (Inr ()))
          else if co_Kind c = ComputedFormula then
            rbind (Computed_Validate (cx_lib cx) c) (\<lambda>rs.
            rbind (types_get rp (ad_typeDefinitionID attr)) (\<lambda>td.
            rbind (Root (types_get rp) td) (\<lambda>r.
            rbind (types_get rp (td_id r)) (\<lambda>_.
            rbind (Chain (types_get rp) td) (\<lambda>chain.
            rbind (Descendants (children_of rp) td) (\<lambda>descendants.
            rbind (computedDeps (cx_lib cx) (list_all_for cx rp) (chain @ descendants)) (\<lambda>deps.
            rbind (sources_guard cx rp (chain @ descendants) (co_Formula c) rs) (\<lambda>_.
            rguard (checkFormulaCycle (ad_internalName attr) rs deps) (Inr ())))))))))
          else Inr ())"

definition AttrUpdate :: "vctx \<Rightarrow> vrepos \<Rightarrow> reldef_store option \<Rightarrow> value_store \<Rightarrow> AttrUpdateRequest \<Rightarrow> int \<Rightarrow> attr_outcome" where
  "AttrUpdate cx rp relDefs vals inp now =
     rbind (as_validation (cx_parseID cx (ur_ID inp))) (\<lambda>_.
     rbind (decodeRules (cx_lib cx) (ur_Constraints inp) (ur_DefaultValue inp)) (\<lambda>rules.
     rbind (decodeComputed (ur_Computed inp)) (\<lambda>computed.
     rbind (load_attr cx rp (ur_ID inp)) (\<lambda>attr.
     let before = attr_Snapshot attr
     in if ur_Version inp \<noteq> None \<and> ur_Version inp \<noteq> Some (as_Version before)
        then Inl (NewConflict ''the attribute definition was modified by someone else; reload it and retry'')
        else
     rguard (assertStructuralChangeIsSafe (cx_lib cx) vals before inp computed) (
     rbind (assertNoFormulaReadsScopedSource cx rp before inp) (\<lambda>_.
     rbind (update_computed_guard cx rp relDefs attr computed) (\<lambda>_.
     rbind (normalizeQuantityConstraints cx (ad_dataType attr) (ur_UnitFamilyID inp) rules) (\<lambda>(constraints, defaultValue).
     rbind (attr_Update (cx_lib cx) attr
              \<lparr>au_DisplayName = ur_DisplayName inp, au_Description = ur_Description inp, au_Required = ur_Required inp,
               au_MultiValued = ur_MultiValued inp, au_Unique = ur_Unique inp, au_Localizable = ur_Localizable inp,
               au_Scopable = ur_Scopable inp, au_UnitFamilyID = ur_UnitFamilyID inp, au_DisplayUnit = ur_DisplayUnit inp,
               au_Computed = computed, au_Constraints = constraints, au_DefaultValue = defaultValue,
               au_Group = ur_Group inp, au_SortOrder = ur_SortOrder inp, au_HelpText = ur_HelpText inp\<rparr> now)
       (save_attr (rp_attrs rp) SchemaUpdated (Some before))))))))))"

section \<open>Archive and restore\<close>

definition attr_transition :: "vctx \<Rightarrow> vrepos \<Rightarrow> string \<Rightarrow> transition_action \<Rightarrow> int \<Rightarrow> attr_outcome" where
  "attr_transition cx rp raw action now =
     rbind (load_attr cx rp raw) (\<lambda>attr.
     let before = attr_Snapshot attr
     in case action of
          ActionArchived \<Rightarrow> rbind (attr_Archive attr now) (save_attr (rp_attrs rp) SchemaArchived (Some before))
        | ActionRestored \<Rightarrow> rbind (assertNameFreeInHierarchy rp attr) (\<lambda>_.
            rbind (attr_Restore attr now) (save_attr (rp_attrs rp) SchemaRestored (Some before))))"

section \<open>Reads\<close>

definition AttrValidateValue :: "vctx \<Rightarrow> vrepos \<Rightarrow> string \<Rightarrow> rawmsg \<Rightarrow> unit result" where
  "AttrValidateValue cx rp raw rawValue =
     rbind (load_attr cx rp raw) (\<lambda>def.
     rbind (as_validation (ParseValue (cx_lib cx) (ad_dataType def) rawValue)) (\<lambda>v.
     rguard (ValidateValue (cx_lib cx) def v) (Inr ())))"

definition AttrGet :: "vctx \<Rightarrow> vrepos \<Rightarrow> string \<Rightarrow> AttrSnapshot result" where
  "AttrGet cx rp raw = map_sum id attr_Snapshot (load_attr cx rp raw)"

definition newListOutput :: "vctx \<Rightarrow> AttributeDefinition list \<Rightarrow> Page \<Rightarrow> int \<Rightarrow> AttrSnapshot list \<times> PageInfo" where
  "newListOutput cx items page count =
     (let (items, info) = KeysetPage page items (KeysetTotal page count)
            (\<lambda>a. EncodeKeyset (cx_klib cx) [cx_idString cx (ad_id a)])
      in (map attr_Snapshot items, info))"

definition AttrListByType :: "vctx \<Rightarrow> vrepos \<Rightarrow> string \<Rightarrow> PageArgs \<Rightarrow> (AttrSnapshot list \<times> PageInfo) result" where
  "AttrListByType cx rp raw args =
     rbind (as_validation (cx_parseID cx raw)) (\<lambda>typeDefID.
     rbind (as_validation (page_Resolve (cx_klib cx) args)) (\<lambda>page.
     rbind (types_get rp typeDefID) (\<lambda>td.
     rguard (EnsureTenant (cx_tenant cx) (td_tenantID td) ''type_definition'') (
     rbind (attrRepo_PageByType cx (rp_attrs rp) typeDefID page) (\<lambda>(items, count).
       Inr (newListOutput cx items page count))))))"

record AttrListInput =
  al_TypeDefinitionID :: string
  al_InternalNames :: "string list"
  al_DataTypes :: "string list"
  al_IncludeArchived :: bool
  al_Page :: PageArgs

definition AttrList :: "vctx \<Rightarrow> vrepos \<Rightarrow> AttrListInput \<Rightarrow> (AttrSnapshot list \<times> PageInfo) result" where
  "AttrList cx rp inp =
     rbind (as_validation (page_Resolve (cx_klib cx) (al_Page inp))) (\<lambda>page.
     rbind (if al_TypeDefinitionID inp = [] then Inr 0 else as_validation (cx_parseID cx (al_TypeDefinitionID inp))) (\<lambda>typeDefID.
     rbind (map_result (\<lambda>dt. as_validation (ParseDataType dt)) (al_DataTypes inp)) (\<lambda>dts.
     rbind (attrRepo_List cx (rp_attrs rp)
              \<lparr>af_TenantID = cx_tenant cx, af_TypeDefinitionID = typeDefID, af_InternalNames = al_InternalNames inp,
               af_DataTypes = dts, af_UnitFamilyID = [], af_IncludeArchived = al_IncludeArchived inp\<rparr> page) (\<lambda>(items, count).
       Inr (newListOutput cx items page count)))))"

end
