(* ===== verification/Attr_Laws.thy ===== *)
theory Attr_Laws
  imports Attr_Usecases Value_Writes
begin

text \<open>
  What the attribute use cases keep. Schema changes and value writes interleave: an accepted change of a definition leaves the rows
  that are stored under it consistent with it. The search for formula cycles is exact. A principal with field
  restrictions derives computed attributes from readable ones only.
\<close>

section \<open>The data shape decides the pair conditions\<close>

lemma Equal_same_key:
  assumes "Equal lib v w" shows "EqualityKey lib v = EqualityKey lib w"
proof (cases "dataType w")
  case DataTypeDecimal
  with assms show ?thesis
    by (auto simp: Equal_def EqualityKey_def Compare_def compare_lin_def split: if_splits option.splits)
next
  case DataTypeJSON
  with assms show ?thesis by (auto simp: Equal_def EqualityKey_def equalJSON_def split: if_splits option.splits)
next
  case DataTypeFloat
  with assms show ?thesis
    by (cases "floatVal v"; cases "floatVal w") (auto simp: Equal_def EqualityKey_def f_eq_def split: if_splits)
next
  case DataTypeQuantity
  with assms show ?thesis
    by (cases "floatVal v"; cases "floatVal w") (auto simp: Equal_def EqualityKey_def f_eq_def split: if_splits)
qed (use assms in \<open>auto simp: Equal_def EqualityKey_def split: if_splits\<close>)

definition live_of :: "TenantID \<Rightarrow> AttributeDefinitionID \<Rightarrow> ValueSnapshot \<Rightarrow> bool" where
  "live_of ten i x \<longleftrightarrow> vs_TenantID x = ten \<and> vs_AttributeDefinitionID x = i \<and> vs_ArchivedAt x = None"

lemma two_of_filter:
  assumes "x \<in> set s" "y \<in> set s" "x \<noteq> y" "P x" "P y" shows "length (filter P s) > 1"
proof -
  have "card {x, y} \<le> card (set (filter P s))" using assms by (intro card_mono) auto
  also have "\<dots> \<le> length (filter P s)" by (rule card_length)
  finally show ?thesis using assms(3) by simp
qed

lemma shape_scoped:
  assumes "ScopedValues (AttributeDataShape lib s ten i) = 0" "x \<in> set s" "live_of ten i x"
  shows "vs_Locale x = [] \<and> vs_Channel x = []"
  using assms by (auto simp: AttributeDataShape_def Let_def live_of_def filter_empty_conv)

lemma shape_single:
  assumes "EntitiesWithMany (AttributeDataShape lib s ten i) = 0" "x \<in> set s" "y \<in> set s" "live_of ten i x" "live_of ten i y"
    and "vs_EntityID x = vs_EntityID y" "vs_Locale x = vs_Locale y" "vs_Channel x = vs_Channel y"
  shows "x = y"
proof (rule ccontr)
  let ?live = "filter (\<lambda>snap. vs_TenantID snap = ten \<and> vs_AttributeDefinitionID snap = i \<and> vs_ArchivedAt snap = None) s"
  assume "x \<noteq> y"
  then have "length (filter (\<lambda>y. scope_key y = scope_key x) ?live) > 1"
    using assms(2-) by (intro two_of_filter [of x _ y]) (auto simp: live_of_def scope_key_def)
  moreover have "x \<in> set ?live" using assms(2,4) by (simp add: live_of_def)
  ultimately have "filter (\<lambda>x. length (filter (\<lambda>y. scope_key y = scope_key x) ?live) > 1) ?live \<noteq> []"
    by (metis (no_types, lifting) filter_empty_conv)
  with assms(1) show False unfolding AttributeDataShape_def Let_def by simp
qed

lemma sum_list_nonzero: "k \<in> set ks \<Longrightarrow> f k \<noteq> (0::nat) \<Longrightarrow> sum_list (map f ks) \<noteq> 0"
  by (induction ks) auto

lemma shape_unique:
  assumes "DuplicateValues (AttributeDataShape lib s ten i) = 0" "x \<in> set s" "y \<in> set s" "live_of ten i x" "live_of ten i y"
    and "vs_EntityID x \<noteq> vs_EntityID y" "vs_Locale x = vs_Locale y" "vs_Channel x = vs_Channel y"
  shows "\<not> Equal lib (vs_Value x) (vs_Value y)"
proof
  let ?live = "filter (\<lambda>snap. vs_TenantID snap = ten \<and> vs_AttributeDefinitionID snap = i \<and> vs_ArchivedAt snap = None) s"
  let ?n = "\<lambda>k. length (remdups (map vs_EntityID (filter (\<lambda>x. dup_key lib x = k) ?live)))"
  assume "Equal lib (vs_Value x) (vs_Value y)"
  then have k: "dup_key lib x = dup_key lib y" using Equal_same_key assms(7,8) by (simp add: dup_key_def)
  have mem: "x \<in> set ?live" "y \<in> set ?live" using assms(2-5) by (simp_all add: live_of_def)
  have "card {vs_EntityID x, vs_EntityID y} \<le> card (vs_EntityID ` set (filter (\<lambda>x. dup_key lib x = dup_key lib y) ?live))"
    using mem k by (intro card_mono) auto
  then have "?n (dup_key lib y) > 1" using assms(6) by (simp add: length_remdups_card_conv del: set_filter)
  moreover have "dup_key lib y \<in> set (remdups (map (dup_key lib) ?live))" using mem by simp
  ultimately have "sum_list (map (\<lambda>k. let n = ?n k in if n > 1 then n else 0) (remdups (map (dup_key lib) ?live))) \<noteq> 0"
    by (intro sum_list_nonzero [of "dup_key lib y"]) (auto simp: Let_def)
  with assms(1) show False by (simp add: AttributeDataShape_def Let_def)
qed

section \<open>Definitions change under stored rows\<close>

lemma Get_put_attr: "attrRepo_Get (put_attr x s) i = (if i = as_ID x then Inr (attr_Rehydrate x) else attrRepo_Get s i)"
  by (induction s) (auto simp: attrRepo_Get_def)

lemma put_attr_ids: "as_ID ` set (put_attr x s) = insert (as_ID x) (as_ID ` set s)"
  by (induction s) auto

lemma Get_attr_mem: "attrRepo_Get s i = Inr d \<Longrightarrow> \<exists>x\<in>set s. as_ID x = i \<and> d = attr_Rehydrate x"
  by (induction s) (auto simp: attrRepo_Get_def split: if_splits)

text \<open>A definition is replaced. The rows of its attribute have to fit the new one; every other row is as before.\<close>

lemma put_attr_values_ok:
  assumes "values_ok lib attrs s" and a: "attrRepo_Get attrs (ad_id b) = Inr a" "ad_tenantID b = ad_tenantID a"
    and row: "\<And>x. x \<in> set s \<Longrightarrow> vs_AttributeDefinitionID x = ad_id b \<Longrightarrow> vs_TenantID x = ad_tenantID a \<Longrightarrow> vs_DefinitionVersion x \<le> ad_version a \<Longrightarrow>
        (vs_DefinitionVersion x = ad_version a \<Longrightarrow> conforms lib a (av_Rehydrate x)) \<Longrightarrow> (vs_ArchivedAt x = None \<Longrightarrow> scope_fits a x) \<Longrightarrow>
        vs_DefinitionVersion x \<le> ad_version b \<and> (vs_DefinitionVersion x = ad_version b \<longrightarrow> conforms lib b (av_Rehydrate x)) \<and>
        (vs_ArchivedAt x = None \<longrightarrow> scope_fits b x)"
    and multi: "\<And>x y. x \<in> set s \<Longrightarrow> y \<in> set s \<Longrightarrow> x \<noteq> y \<Longrightarrow> live_of (ad_tenantID a) (ad_id b) x \<Longrightarrow> live_of (ad_tenantID a) (ad_id b) y \<Longrightarrow>
        same_slot x y \<Longrightarrow> vs_EntityID x = vs_EntityID y \<Longrightarrow> ad_multiValued a \<Longrightarrow> ad_multiValued b"
    and uniq: "\<And>x y. x \<in> set s \<Longrightarrow> y \<in> set s \<Longrightarrow> live_of (ad_tenantID a) (ad_id b) x \<Longrightarrow> live_of (ad_tenantID a) (ad_id b) y \<Longrightarrow>
        same_slot x y \<Longrightarrow> vs_EntityID x \<noteq> vs_EntityID y \<Longrightarrow> ad_unique b \<Longrightarrow> \<not> ad_unique a \<Longrightarrow> \<not> Equal lib (vs_Value x) (vs_Value y)"
  shows "values_ok lib (put_attr (attr_Snapshot b) attrs) s"
proof -
  have get: "attrRepo_Get (put_attr (attr_Snapshot b) attrs) i = (if i = ad_id b then Inr b else attrRepo_Get attrs i)" for i
    by (simp add: Get_put_attr attr_snapshot_round) (simp add: attr_Snapshot_def)
  have row_b: "row_ok lib (put_attr (attr_Snapshot b) attrs) x" if x: "x \<in> set s" for x
  proof (cases "vs_AttributeDefinitionID x = ad_id b")
    case True
    with values_okD(2) [OF assms(1) x] a row [OF x True] show ?thesis by (simp add: row_ok_def get)
  next
    case False
    with values_okD(2) [OF assms(1) x] show ?thesis by (simp add: row_ok_def get)
  qed
  have pair_b: "pair_ok lib (put_attr (attr_Snapshot b) attrs) x y" if "x \<in> set s" "y \<in> set s" "vs_ID x \<noteq> vs_ID y" for x y
  proof (cases "vs_AttributeDefinitionID x = ad_id b \<and> same_slot x y \<and> vs_ArchivedAt x = None \<and> vs_ArchivedAt y = None")
    case True
    then have slot: "vs_AttributeDefinitionID x = ad_id b" "vs_AttributeDefinitionID y = ad_id b" "same_slot x y"
        "vs_ArchivedAt x = None" "vs_ArchivedAt y = None" by (auto simp: same_slot_def)
    have ten: "vs_TenantID x = ad_tenantID a" "vs_TenantID y = ad_tenantID a"
      using values_okD(2) [OF assms(1) that(1)] values_okD(2) [OF assms(1) that(2)] slot(1,2) a(1) by (auto simp: row_ok_def)
    have live: "live_of (ad_tenantID a) (ad_id b) x" "live_of (ad_tenantID a) (ad_id b) y"
      using slot ten by (simp_all add: live_of_def)
    from values_okD(3) [OF assms(1) that] slot a(1)
    have old: "vs_EntityID x = vs_EntityID y \<Longrightarrow> ad_multiValued a \<and> \<not> Equal lib (vs_Value x) (vs_Value y)"
        "vs_EntityID x \<noteq> vs_EntityID y \<Longrightarrow> ad_unique a \<Longrightarrow> \<not> Equal lib (vs_Value x) (vs_Value y)"
        "vs_TenantID x = vs_TenantID y \<and> vs_EntityID x = vs_EntityID y \<longrightarrow> vs_TypeDefinitionID x = vs_TypeDefinitionID y"
      unfolding pair_ok_def by auto
    have "x \<noteq> y" using that(3) by auto
    then show ?thesis
      using old multi [OF that(1,2) _ live slot(3)] uniq [OF that(1,2) live slot(3)]
      unfolding pair_ok_def get slot(1) by auto
  next
    case False
    with values_okD(3) [OF assms(1) that] show ?thesis unfolding pair_ok_def get by auto
  qed
  show ?thesis using row_b pair_b values_okD(1) [OF assms(1)] by (simp add: values_ok_def)
qed

lemma save_attr_Inr:
  "save_attr s action before (a, es) = Inr (s', snap, es', ch) \<Longrightarrow>
     s' = put_attr (attr_Snapshot a) s \<and> snap = attr_Snapshot a \<and> es' = es \<and>
     ch = \<lparr>ch_Action = action, ch_Before = before, ch_After = snap\<rparr> \<and>
     (ad_archivedAt a = None \<longrightarrow> (\<forall>x\<in>set s. as_ArchivedAt x = None \<and> as_TypeDefinitionID x = ad_typeDefinitionID a \<and>
        as_InternalName x = ad_internalName a \<longrightarrow> as_ID x = ad_id a))"
  by (auto simp: save_attr_def attrRepo_Save_def Let_def rbind_Inr attr_Snapshot_def list_ex_iff split: if_splits)

lemma load_attr_Inr:
  assumes "load_attr cx rp raw = Inr a"
  shows "attrRepo_Get (rp_attrs rp) (ad_id a) = Inr a" "ad_tenantID a = cx_tenant cx"
proof -
  from assms obtain i where "attrRepo_Get (rp_attrs rp) i = Inr a" and t: "ad_tenantID a = cx_tenant cx"
    by (auto simp: load_attr_def rbind_Inr rguard_Inr EnsureTenant_def split: if_splits)
  with mem_attrs.get_id [OF this(1)] show "attrRepo_Get (rp_attrs rp) (ad_id a) = Inr a" by simp
  show "ad_tenantID a = cx_tenant cx" by (rule t)
qed

text \<open>One schema call of a principal.\<close>

inductive schema_call :: "vctx \<Rightarrow> vrepos \<Rightarrow> reldef_store option \<Rightarrow> value_store \<Rightarrow> attr_store \<Rightarrow> bool" for cx rp rels s where
  call_Create: "AttrCreate cx rp rels inp newid now = Inr (attrs', snap, es, ch) \<Longrightarrow> newid \<notin> as_ID ` set (rp_attrs rp) \<Longrightarrow>
    schema_call cx rp rels s attrs'"
| call_Update: "AttrUpdate cx rp rels s req now = Inr (attrs', snap, es, ch) \<Longrightarrow> schema_call cx rp rels s attrs'"
| call_Transition: "attr_transition cx rp raw action now = Inr (attrs', snap, es, ch) \<Longrightarrow> schema_call cx rp rels s attrs'"

lemma create_run:
  assumes "AttrCreate cx rp rels inp newid now = Inr (attrs', snap, es, ch)"
  obtains td r hierarchy computed a where "types_get rp (td_id td) = Inr td" "td_tenantID td = cx_tenant cx" "\<not> type_IsArchived td"
    "Root (types_get rp) td = Inr r" "whole_hierarchy rp td r = Inr hierarchy"
    "create_computed_guard cx rp rels td hierarchy (ac_InternalName inp) computed = Inr ()"
    "create_readers_guard cx rp hierarchy inp = Inr ()"
    "first_err (name_free_err (rp_attrs rp) td (ac_InternalName inp)) hierarchy = None"
    "attr_Snapshot a = snap" "attrs' = put_attr snap (rp_attrs rp)" "ad_id a = newid" "ad_typeDefinitionID a = td_id td"
    "ad_internalName a = ac_InternalName inp" "ad_computed a = computed" "ad_archivedAt a = None" "wf_attribute (cx_lib cx) a"
    "ad_multiValued a = ac_MultiValued inp" "ad_localizable a = ac_Localizable inp" "ad_scopable a = ac_Scopable inp"
proof -
  from assms obtain typeDefID dt rules cs def computed td r hierarchy a evts n where
    c: "ParseDataType (ac_DataType inp) = Inr dt" "types_get rp typeDefID = Inr td" "td_tenantID td = cx_tenant cx" "\<not> type_IsArchived td"
    "Root (types_get rp) td = Inr r" "whole_hierarchy rp td r = Inr hierarchy"
    "create_computed_guard cx rp rels td hierarchy (ac_InternalName inp) computed = Inr ()"
    "create_readers_guard cx rp hierarchy inp = Inr ()"
    "first_err (name_free_err (rp_attrs rp) td (ac_InternalName inp)) hierarchy = None"
    and new: "attr_New (cx_lib cx)
              \<lparr>an_TenantID = td_tenantID td, an_TypeDefinitionID = typeDefID, an_InternalName = ac_InternalName inp,
               an_DisplayName = ac_DisplayName inp, an_Description = ac_Description inp, an_DataType = dt,
               an_Required = ac_Required inp, an_MultiValued = ac_MultiValued inp, an_Unique = ac_Unique inp,
               an_Localizable = ac_Localizable inp, an_Scopable = ac_Scopable inp, an_UnitFamilyID = ac_UnitFamilyID inp,
               an_DisplayUnit = ac_DisplayUnit inp, an_Computed = computed, an_Constraints = cs,
               an_DefaultValue = def, an_Group = ac_Group inp, an_SortOrder = ac_SortOrder inp,
               an_HelpText = ac_HelpText inp\<rparr> newid now = Inr (a, evts)"
    and save: "save_attr (rp_attrs rp) SchemaCreated None (a, evts) = Inr (attrs', snap, es, ch)"
    unfolding AttrCreate_def by (auto simp: rbind_Inr rguard_Inr as_validation_Inr EnsureTenant_def split: if_splits)
  have "canonical_dt dt" using c(1) by (auto simp: ParseDataType_def Let_def canonical_dt_def known_type_def split: if_splits)
  with attr_New_ok(1) [OF new] have "wf_attribute (cx_lib cx) a" by simp
  moreover have "ad_id a = newid" "ad_typeDefinitionID a = typeDefID" "ad_internalName a = ac_InternalName inp" "ad_computed a = computed"
      "ad_archivedAt a = None" "ad_multiValued a = ac_MultiValued inp" "ad_localizable a = ac_Localizable inp" "ad_scopable a = ac_Scopable inp"
    using new by (auto simp: attr_New_def Let_def split: if_splits sum.splits option.splits)
  moreover have "td_id td = typeDefID" by (rule mem_types.get_id [OF c(2)])
  ultimately show thesis using that [of td r hierarchy computed a] c save_attr_Inr [OF save] by simp
qed

lemma update_run:
  assumes "AttrUpdate cx rp rels s req now = Inr (attrs', snap, es, ch)"
  obtains a b computed where "attrRepo_Get (rp_attrs rp) (ad_id a) = Inr a" "ad_tenantID a = cx_tenant cx"
    "ur_Version req = None \<or> ur_Version req = Some (ad_version a)"
    "assertStructuralChangeIsSafe (cx_lib cx) s (attr_Snapshot a) req computed = None"
    "assertNoFormulaReadsScopedSource cx rp (attr_Snapshot a) req = Inr ()"
    "update_computed_guard cx rp rels a computed = Inr ()"
    "attr_Snapshot b = snap" "attrs' = put_attr snap (rp_attrs rp)" "attr_fixed b = attr_fixed a" "\<not> attr_IsArchived a"
    "ad_archivedAt b = ad_archivedAt a" "ad_version b = ad_version a + 1" "ad_computed b = computed"
    "ad_multiValued b = ur_MultiValued req" "ad_unique b = ur_Unique req" "ad_localizable b = ur_Localizable req"
    "ad_scopable b = ur_Scopable req" "ad_unitFamilyID b = ur_UnitFamilyID req" "computed_err (cx_lib cx) computed = None"
proof -
  from assms obtain a computed cs def b evts where c: "load_attr cx rp (ur_ID req) = Inr a"
    "ur_Version req = None \<or> ur_Version req = Some (as_Version (attr_Snapshot a))"
    "assertStructuralChangeIsSafe (cx_lib cx) s (attr_Snapshot a) req computed = None"
    "assertNoFormulaReadsScopedSource cx rp (attr_Snapshot a) req = Inr ()"
    "update_computed_guard cx rp rels a computed = Inr ()"
    and up: "attr_Update (cx_lib cx) a
              \<lparr>au_DisplayName = ur_DisplayName req, au_Description = ur_Description req, au_Required = ur_Required req,
               au_MultiValued = ur_MultiValued req, au_Unique = ur_Unique req, au_Localizable = ur_Localizable req,
               au_Scopable = ur_Scopable req, au_UnitFamilyID = ur_UnitFamilyID req, au_DisplayUnit = ur_DisplayUnit req,
               au_Computed = computed, au_Constraints = cs, au_DefaultValue = def,
               au_Group = ur_Group req, au_SortOrder = ur_SortOrder req, au_HelpText = ur_HelpText req\<rparr> now = Inr (b, evts)"
    and save: "save_attr (rp_attrs rp) SchemaUpdated (Some (attr_Snapshot a)) (b, evts) = Inr (attrs', snap, es, ch)"
    unfolding AttrUpdate_def Let_def by (auto simp: rbind_Inr rguard_Inr split: if_splits)
  have "ad_computed b = computed" "ad_multiValued b = ur_MultiValued req" "ad_unique b = ur_Unique req"
      "ad_localizable b = ur_Localizable req" "ad_scopable b = ur_Scopable req" "ad_unitFamilyID b = ur_UnitFamilyID req"
      "computed_err (cx_lib cx) computed = None"
    using up by (auto simp: attr_Update_def Let_def split: if_splits option.splits)
  moreover have "as_Version (attr_Snapshot a) = ad_version a" by (simp add: attr_Snapshot_def)
  ultimately show thesis
    using that [of a computed b] c load_attr_Inr [OF c(1)] save_attr_Inr [OF save] attr_Update_cases(1-4) [OF up] by simp
qed

lemma transition_run:
  assumes "attr_transition cx rp raw action now = Inr (attrs', snap, es, ch)"
  obtains a b where "attrRepo_Get (rp_attrs rp) (ad_id a) = Inr a" "ad_tenantID a = cx_tenant cx" "attr_Snapshot b = snap"
    "attrs' = put_attr snap (rp_attrs rp)" "attr_core b = attr_core a"
    "action = ActionRestored \<Longrightarrow> assertNameFreeInHierarchy rp a = Inr ()" "action = ActionArchived \<Longrightarrow> attr_IsArchived b"
proof -
  from assms obtain a b evts act before where c: "load_attr cx rp raw = Inr a"
    "action = ActionArchived \<and> attr_Archive a now = Inr (b, evts) \<or>
     action = ActionRestored \<and> assertNameFreeInHierarchy rp a = Inr () \<and> attr_Restore a now = Inr (b, evts)"
    and save: "save_attr (rp_attrs rp) act before (b, evts) = Inr (attrs', snap, es, ch)"
    unfolding attr_transition_def Let_def by (cases action) (auto simp: rbind_Inr)
  have "attr_core b = attr_core a" "action = ActionArchived \<Longrightarrow> attr_IsArchived b"
    using c(2) by (auto simp: attr_Archive_def attr_Restore_def attr_core_def attr_IsArchived_def split: if_splits)
  with that [of a b] c load_attr_Inr [OF c(1)] save_attr_Inr [OF save] show thesis by auto
qed

lemma conforms_same_core: "attr_core b = attr_core a \<Longrightarrow> conforms lib b av = conforms lib a av \<and> scope_fits b x = scope_fits a x \<and>
    ad_id b = ad_id a \<and> ad_tenantID b = ad_tenantID a \<and> ad_version b = ad_version a \<and> ad_multiValued b = ad_multiValued a \<and> ad_unique b = ad_unique a \<and>
    ad_typeDefinitionID b = ad_typeDefinitionID a \<and> ad_internalName b = ad_internalName a \<and> ad_computed b = ad_computed a"
  by (cases a, cases b) (simp add: attr_core_def conforms_def scope_fits_def)

text \<open>The stored rows survive every schema call.\<close>

lemma structural_change:
  assumes "assertStructuralChangeIsSafe lib s (attr_Snapshot a) req computed = None"
  shows "ad_multiValued a \<Longrightarrow> \<not> ur_MultiValued req \<Longrightarrow> EntitiesWithMany (AttributeDataShape lib s (ad_tenantID a) (ad_id a)) = 0"
    "\<not> ad_unique a \<Longrightarrow> ur_Unique req \<Longrightarrow> DuplicateValues (AttributeDataShape lib s (ad_tenantID a) (ad_id a)) = 0"
    "ad_localizable a \<and> \<not> ur_Localizable req \<or> ad_scopable a \<and> \<not> ur_Scopable req \<Longrightarrow>
       ScopedValues (AttributeDataShape lib s (ad_tenantID a) (ad_id a)) = 0"
    "ad_computed a = None \<and> computed \<noteq> None \<or> ad_unitFamilyID a \<noteq> [] \<and> ur_UnitFamilyID req \<noteq> ad_unitFamilyID a \<Longrightarrow>
       LiveValues (AttributeDataShape lib s (ad_tenantID a) (ad_id a)) = 0"
  using assms unfolding assertStructuralChangeIsSafe_def Let_def attr_Snapshot_def by (auto split: if_splits)

lemma update_values_ok:
  assumes ok: "values_ok (cx_lib cx) (rp_attrs rp) s" and up: "AttrUpdate cx rp rels s req now = Inr (attrs', snap, es, ch)"
  shows "values_ok (cx_lib cx) attrs' s"
proof -
  from up obtain a b computed where u: "attrRepo_Get (rp_attrs rp) (ad_id a) = Inr a"
    "assertStructuralChangeIsSafe (cx_lib cx) s (attr_Snapshot a) req computed = None"
    "attr_Snapshot b = snap" "attrs' = put_attr snap (rp_attrs rp)" "attr_fixed b = attr_fixed a"
    "ad_version b = ad_version a + 1" "ad_multiValued b = ur_MultiValued req" "ad_unique b = ur_Unique req"
    "ad_localizable b = ur_Localizable req" "ad_scopable b = ur_Scopable req" by (rule update_run)
  have f: "ad_id b = ad_id a" "ad_tenantID b = ad_tenantID a" using u(5) by (simp_all add: attr_fixed_def)
  note safe = structural_change [OF u(2)]
  show ?thesis unfolding u(4) u(3) [symmetric]
  proof (rule put_attr_values_ok [OF ok])
    show "attrRepo_Get (rp_attrs rp) (ad_id b) = Inr a" "ad_tenantID b = ad_tenantID a" using u(1) f by simp_all
  next
    fix x
    assume x: "x \<in> set s" "vs_AttributeDefinitionID x = ad_id b" "vs_TenantID x = ad_tenantID a" "vs_DefinitionVersion x \<le> ad_version a"
      and fits: "vs_ArchivedAt x = None \<Longrightarrow> scope_fits a x"
    have "scope_fits b x" if live: "vs_ArchivedAt x = None"
    proof (cases "ad_localizable a \<and> \<not> ur_Localizable req \<or> ad_scopable a \<and> \<not> ur_Scopable req")
      case True
      from shape_scoped [OF safe(3) [OF True] x(1)] x live f show ?thesis by (simp add: live_of_def scope_fits_def)
    qed (use fits [OF live] u(9,10) in \<open>auto simp: scope_fits_def\<close>)
    then show "vs_DefinitionVersion x \<le> ad_version b \<and> (vs_DefinitionVersion x = ad_version b \<longrightarrow> conforms (cx_lib cx) b (av_Rehydrate x)) \<and>
        (vs_ArchivedAt x = None \<longrightarrow> scope_fits b x)" using x(4) u(6) by simp
  next
    fix x y
    assume xy: "x \<in> set s" "y \<in> set s" "x \<noteq> y" "live_of (ad_tenantID a) (ad_id b) x" "live_of (ad_tenantID a) (ad_id b) y"
      "same_slot x y" "vs_EntityID x = vs_EntityID y" "ad_multiValued a"
    show "ad_multiValued b" using shape_single [OF safe(1) [OF xy(8)] xy(1,2), folded f(1)] xy u(7) by (auto simp: same_slot_def)
  next
    fix x y
    assume xy: "x \<in> set s" "y \<in> set s" "live_of (ad_tenantID a) (ad_id b) x" "live_of (ad_tenantID a) (ad_id b) y"
      "same_slot x y" "vs_EntityID x \<noteq> vs_EntityID y" "ad_unique b" "\<not> ad_unique a"
    show "\<not> Equal (cx_lib cx) (vs_Value x) (vs_Value y)"
      using shape_unique [OF safe(2) [OF xy(8)] xy(1,2), folded f(1)] xy u(8) by (simp add: same_slot_def)
  qed
qed

lemma schema_call_values_ok:
  assumes ok: "values_ok (cx_lib cx) (rp_attrs rp) s" and "schema_call cx rp rels s attrs'"
  shows "values_ok (cx_lib cx) attrs' s"
  using assms(2)
proof cases
  case (call_Create inp newid now snap es ch)
  from call_Create(1) obtain a where a: "attr_Snapshot a = snap" "attrs' = put_attr snap (rp_attrs rp)" "ad_id a = newid" by (rule create_run)
  have other: "attrRepo_Get attrs' (vs_AttributeDefinitionID x) = attrRepo_Get (rp_attrs rp) (vs_AttributeDefinitionID x)" if "x \<in> set s" for x
  proof -
    from values_okD(2) [OF ok that] obtain def where "attrRepo_Get (rp_attrs rp) (vs_AttributeDefinitionID x) = Inr def" by (auto simp: row_ok_def)
    then have "vs_AttributeDefinitionID x \<in> as_ID ` set (rp_attrs rp)" by (metis Get_attr_mem imageI)
    with call_Create(2) have "vs_AttributeDefinitionID x \<noteq> newid" by auto
    then show ?thesis by (simp add: a(2,3) a(1) [symmetric] Get_put_attr) (simp add: attr_Snapshot_def a(3))
  qed
  have "row_ok (cx_lib cx) attrs' x" if "x \<in> set s" for x
    using values_okD(2) [OF ok that] by (simp only: row_ok_def other [OF that])
  moreover have "pair_ok (cx_lib cx) attrs' x y" if "x \<in> set s" "y \<in> set s" "vs_ID x \<noteq> vs_ID y" for x y
    using values_okD(3) [OF ok that] by (simp only: pair_ok_def other [OF that(1)])
  ultimately show ?thesis using values_okD(1) [OF ok] by (simp add: values_ok_def)
next
  case (call_Update req now snap es ch)
  show ?thesis by (rule update_values_ok [OF ok call_Update])
next
  case (call_Transition raw action now snap es ch)
  then obtain a b where t: "attrRepo_Get (rp_attrs rp) (ad_id a) = Inr a" "attr_Snapshot b = snap" "attrs' = put_attr snap (rp_attrs rp)"
    "attr_core b = attr_core a" by (rule transition_run)
  note c = conforms_same_core [OF t(4)]
  have c1: "ad_id b = ad_id a" "ad_tenantID b = ad_tenantID a" "ad_version b = ad_version a" "ad_multiValued b = ad_multiValued a"
    "ad_unique b = ad_unique a" using c by blast+
  show ?thesis unfolding t(3) t(2) [symmetric]
  proof (rule put_attr_values_ok [OF ok])
    show "attrRepo_Get (rp_attrs rp) (ad_id b) = Inr a" "ad_tenantID b = ad_tenantID a" using t(1) c1 by simp_all
  qed (use c c1 in simp_all)
qed

text \<open>The states of the system: any schema without values, then value calls and schema calls of any
  principals and tenants in any order; types and dependencies may change in between.\<close>

inductive store_reachable :: "golib \<Rightarrow> attr_store \<Rightarrow> value_store \<Rightarrow> bool" for lib where
  store_empty: "store_reachable lib attrs []"
| store_call: "store_reachable lib (rp_attrs rp) s \<Longrightarrow> cx_lib cx = lib \<Longrightarrow> ids_fresh cx s \<Longrightarrow>
    value_call cx rp s s' \<Longrightarrow> store_reachable lib (rp_attrs rp) s'"
| store_schema: "store_reachable lib (rp_attrs rp) s \<Longrightarrow> cx_lib cx = lib \<Longrightarrow> schema_call cx rp rels s attrs' \<Longrightarrow> store_reachable lib attrs' s"

lemma store_reachable_ok: "store_reachable lib attrs s \<Longrightarrow> values_ok lib attrs s"
proof (induction rule: store_reachable.induct)
  case (store_empty attrs)
  show ?case by (simp add: values_ok_def)
next
  case (store_call rp s cx s')
  then show ?case using value_call_keeps [OF store_call.hyps(4)] by simp
next
  case (store_schema rp s cx rels attrs')
  then show ?case using schema_call_values_ok [of cx rp s rels attrs'] by simp
qed

section \<open>Formula cycles\<close>

text \<open>One formula reads an attribute: the edges of the dependency graph.\<close>

definition reads :: "(string \<times> string list) list \<Rightarrow> (string \<times> string) set" where
  "reads graph = {(x, y). y \<in> set (edges graph x)}"

lemma edges_update: "edges (AList.update name rs deps) x = (if x = name then rs else edges deps x)"
  by (simp add: edges_def update_conv')

lemma visit_sound: "fst (visit graph name rs seen) \<Longrightarrow> \<exists>r\<in>set rs. (r, name) \<in> (reads graph)\<^sup>*"
proof (induction graph name rs seen rule: visit.induct)
  case (2 graph name ref rs seen)
  obtain found seen' where v: "visit graph name (edges graph ref) (insert ref seen) = (found, seen')" by (rule prod.exhaust)
  consider "ref = name" | "ref \<noteq> name" "ref \<in> seen" | "ref \<noteq> name" "ref \<notin> seen" "found" | "ref \<noteq> name" "ref \<notin> seen" "\<not> found" by blast
  then show ?case
  proof cases
    case 3
    with 2(2) v obtain r where "r \<in> set (edges graph ref)" "(r, name) \<in> (reads graph)\<^sup>*" by auto
    then have "(ref, name) \<in> (reads graph)\<^sup>*" by (auto simp: reads_def intro: converse_rtrancl_into_rtrancl)
    then show ?thesis by simp
  next
    case 4
    with 2(3) [OF 4(1,2) v [symmetric]] 2(4) v show ?thesis by auto
  qed (use 2 in auto)
qed simp

text \<open>A search that finds nothing has followed every reference it met.\<close>

lemma visit_complete:
  assumes "visit graph name rs seen = (False, seen')"
  shows "seen \<subseteq> seen' \<and> set rs \<subseteq> seen' \<and> name \<notin> set rs \<and>
    (\<forall>x\<in>seen' - seen. set (edges graph x) \<subseteq> seen' \<and> name \<notin> set (edges graph x))"
  using assms
proof (induction graph name rs seen arbitrary: seen' rule: visit.induct)
  case (2 graph name ref rs seen)
  then have n: "ref \<noteq> name" by auto
  show ?case
  proof (cases "ref \<in> seen")
    case True
    with 2 n show ?thesis by auto
  next
    case False
    with 2(4) n obtain seen1 where v: "visit graph name (edges graph ref) (insert ref seen) = (False, seen1)"
        "visit graph name rs seen1 = (False, seen')" by (auto simp: Let_def split: prod.splits if_splits)
    note inner = 2(2) [OF n False v(1)]
    note outer = 2(3) [OF n False v(1) [symmetric] refl, simplified, OF v(2)]
    show ?thesis
    proof (intro conjI ballI)
      fix x assume x: "x \<in> seen' - seen"
      consider "x = ref" | "x \<in> seen1 - insert ref seen" | "x \<in> seen' - seen1" using x by blast
      then show "set (edges graph x) \<subseteq> seen'" "name \<notin> set (edges graph x)" by (cases; use inner outer in blast)+
    qed (use inner outer n in auto)
  qed
qed simp

lemma checkFormulaCycle_iff:
  "checkFormulaCycle name rs deps = None \<longleftrightarrow> (name, name) \<notin> (reads (AList.update name rs deps))\<^sup>+"
proof -
  let ?g = "AList.update name rs deps"
  obtain found seen where v: "visit ?g name (edges ?g name) {name} = (found, seen)" by (rule prod.exhaust)
  have "(name, name) \<in> (reads ?g)\<^sup>+" if found
  proof -
    from visit_sound [of ?g name "edges ?g name" "{name}"] v that obtain r
      where "r \<in> set (edges ?g name)" "(r, name) \<in> (reads ?g)\<^sup>*" by auto
    then show ?thesis by (auto simp: reads_def intro: rtrancl_into_trancl2)
  qed
  moreover have "(name, name) \<notin> (reads ?g)\<^sup>+" if "\<not> found"
  proof -
    from visit_complete [of ?g name "edges ?g name" "{name}" seen] v that
    have step: "y \<in> seen - {name}" if "(x, y) \<in> reads ?g" "x \<in> seen" for x y
      using that by (cases "x = name") (auto simp: reads_def)
    have start: "name \<in> seen" using visit_complete [of ?g name "edges ?g name" "{name}" seen] v that by auto
    have "y \<in> seen - {name}" if "(name, y) \<in> (reads ?g)\<^sup>+" for y
      using that by (induction rule: trancl_induct) (use step start in blast)+
    then show ?thesis by blast
  qed
  ultimately show ?thesis using v by (auto simp: checkFormulaCycle_def Let_def)
qed

lemma acyclic_update:
  assumes "acyclic (reads deps)"
  shows "acyclic (reads (AList.update name rs deps)) \<longleftrightarrow> (name, name) \<notin> (reads (AList.update name rs deps))\<^sup>+"
proof
  let ?R = "reads (AList.update name rs deps)"
  have old: "(x, y) \<in> reads deps" if "(x, y) \<in> ?R" "x \<noteq> name" for x y
    using that by (simp add: reads_def edges_update)
  assume no: "(name, name) \<notin> ?R\<^sup>+"
  have through: "(x, y) \<in> (reads deps)\<^sup>+ \<or> (x, name) \<in> ?R\<^sup>* \<and> (name, y) \<in> ?R\<^sup>+" if "(x, y) \<in> ?R\<^sup>+" for x y
    using that
  proof (induction rule: trancl_induct)
    case (base y)
    then show ?case using old [OF base] by (cases "x = name") auto
  next
    case (step y z)
    show ?case
    proof (cases "y = name")
      case True
      with step show ?thesis by (auto intro: trancl_into_rtrancl)
    next
      case False
      with old [OF step(2)] step show ?thesis by (auto intro: trancl.intros)
    qed
  qed
  have "(x, x) \<notin> ?R\<^sup>+" for x
  proof
    assume "(x, x) \<in> ?R\<^sup>+"
    from through [OF this] assms have "(x, name) \<in> ?R\<^sup>*" "(name, x) \<in> ?R\<^sup>+" by (auto simp: acyclic_def)
    then have "(name, name) \<in> ?R\<^sup>+" by (rule trancl_rtrancl_trancl [rotated])
    with no show False ..
  qed
  then show "acyclic ?R" by (simp add: acyclic_def)
qed (simp add: acyclic_def)

section \<open>Derived attributes and field restrictions\<close>

lemma list_all_for_mem:
  assumes "list_all_for cx rp i = Inr as" "a \<in> set as"
  shows "attr_Snapshot a \<in> set (rp_attrs rp) \<and> ad_typeDefinitionID a = i \<and> ad_archivedAt a = None"
proof -
  from assms(1) obtain n where "attrRepo_ListByTypeDefinition cx (rp_attrs rp) i (MaxPerType + 1) = Inr (as, n)"
    by (auto simp: ListAllForType_def split: sum.splits if_splits)
  with assms(2) have "\<exists>x\<in>set (rp_attrs rp). a = attr_Rehydrate x \<and> as_TypeDefinitionID x = i \<and> as_ArchivedAt x = None"
    by (auto simp: attrRepo_ListByTypeDefinition_def map_sum_Inr sortByID_def dest!: paginate_part) blast
  then show ?thesis by (auto simp: attr_snapshot_round) (simp_all add: attr_Rehydrate_def)
qed

text \<open>A source as a formula may read it.\<close>

definition source_ok :: "Access \<Rightarrow> fexpr \<Rightarrow> AttrSnapshot \<Rightarrow> bool" where
  "source_ok access expr x \<longleftrightarrow> CanRead access (as_InternalName x) \<and> as_ArchivedAt x = None \<and> \<not> as_Localizable x \<and> \<not> as_Scopable x \<and>
     (as_InternalName x \<in> set (scalarRefs expr) \<longrightarrow> \<not> as_MultiValued x) \<and>
     (as_InternalName x \<in> set (numericRefs expr) \<longrightarrow> isNumericDataType (as_DataType x))"

definition derives_from_readable :: "golib \<Rightarrow> Access \<Rightarrow> attr_store \<Rightarrow> Computed \<Rightarrow> bool" where
  "derives_from_readable lib access attrs c \<longleftrightarrow>
     (case co_Kind c of
        ComputedFormula \<Rightarrow> (\<exists>expr. Parse_formula lib (co_Formula c) = Inr expr \<and>
          (\<forall>r\<in>set (refs expr). \<exists>x\<in>set attrs. as_InternalName x = r \<and> source_ok access expr x))
      | ComputedRollup \<Rightarrow> (\<exists>spec. co_Rollup c = Some spec \<and> (ro_Aggregate spec = RollupCount \<or> CanRead access (ro_Target spec)))
      | ComputedKindOther _ \<Rightarrow> False)"

lemma sources_from_Inr:
  assumes "sources_from access listAll wanted bare numeric hierarchy found = Inr out" "r \<in> set out" "r \<notin> set found"
  shows "\<exists>link\<in>set hierarchy. \<exists>as a. listAll (td_id link) = Inr as \<and> a \<in> set as \<and> ad_internalName a = r \<and> source_err access bare numeric a = None"
  using assms
proof (induction hierarchy arbitrary: found)
  case (Cons link hierarchy)
  then obtain as where as: "listAll (td_id link) = Inr as"
      "first_err (source_err access bare numeric) (filter (\<lambda>a. ad_internalName a \<in> set wanted) as) = None"
      "sources_from access listAll wanted bare numeric hierarchy
         (map ad_internalName (filter (\<lambda>a. ad_internalName a \<in> set wanted) as) @ found) = Inr out"
    by (auto simp: rbind_Inr rguard_Inr Let_def)
  show ?case
  proof (cases "r \<in> ad_internalName ` set (filter (\<lambda>a. ad_internalName a \<in> set wanted) as)")
    case True
    with as(1,2) show ?thesis by (auto simp: first_err_None)
  next
    case False
    with Cons.IH [OF as(3) Cons.prems(2)] Cons.prems(3) show ?thesis by auto
  qed
qed simp

lemma sources_guard_readable:
  assumes "sources_guard cx rp hierarchy formula (refs expr) = Inr ()" "Parse_formula (cx_lib cx) formula = Inr expr" "\<not> Admin (cx_access cx)"
    and r: "r \<in> set (refs expr)"
  shows "\<exists>x\<in>set (rp_attrs rp). as_InternalName x = r \<and> source_ok (cx_access cx) expr x"
proof -
  from assms(1-3) r obtain out where out: "sources_from (cx_access cx) (list_all_for cx rp) (refs expr) (scalarRefs expr) (numericRefs expr) hierarchy [] = Inr out"
      "r \<in> set out"
    by (auto simp: sources_guard_def formulaRefKinds_def assertFormulaSourcesAreScalar_def rguard_Inr first_err_None split: sum.splits if_splits)
  from sources_from_Inr [OF out(1,2), simplified] obtain i as a where a: "list_all_for cx rp i = Inr as" "a \<in> set as"
      "ad_internalName a = r" "source_err (cx_access cx) (scalarRefs expr) (numericRefs expr) a = None" by blast
  have "source_ok (cx_access cx) expr (attr_Snapshot a)"
    using a(4) list_all_for_mem [OF a(1,2)] by (auto simp: source_err_def source_ok_def attr_Snapshot_def split: if_splits)
  moreover have "as_InternalName (attr_Snapshot a) = r" using a(3) by (simp add: attr_Snapshot_def)
  ultimately show ?thesis using list_all_for_mem [OF a(1,2)] by blast
qed

lemma rollup_readable:
  assumes "assertRollupResolves cx rp rels td c = None"
  shows "\<exists>spec. co_Rollup c = Some spec \<and> (ro_Aggregate spec = RollupCount \<or> CanRead (cx_access cx) (ro_Target spec))"
  using assms by (auto simp: assertRollupResolves_def target_err_def refuse_def Let_def split: option.splits sum.splits if_splits)

text \<open>Every way in which a rollup does not resolve is one refusal for a restricted principal.\<close>

lemma rollup_one_refusal:
  assumes "\<not> Admin (cx_access cx)" "co_Rollup c = Some spec"
  shows "assertRollupResolves cx rp rels td c \<in> {None, Some errUnresolvedRollup}"
  using assms by (auto simp: assertRollupResolves_def target_err_def direction_err_def refuse_def Let_def relDefRepo_GetByInternalName_def
      attrRepo_GetByInternalName_def split: option.splits sum.splits if_splits)

lemma formula_derives:
  assumes "Computed_Validate lib c = Inr rs" "co_Kind c = ComputedFormula"
  obtains expr where "Parse_formula lib (co_Formula c) = Inr expr" "rs = refs expr"
  using assms by (auto simp: Computed_Validate_def split: if_splits sum.splits)

lemma created_derives:
  assumes "AttrCreate cx rp rels inp newid now = Inr (attrs', snap, es, ch)" "\<not> Admin (cx_access cx)" "as_Computed snap = Some c"
  shows "derives_from_readable (cx_lib cx) (cx_access cx) (rp_attrs rp) c"
proof -
  from assms(1) obtain td hierarchy computed a where u:
    "create_computed_guard cx rp rels td hierarchy (ac_InternalName inp) computed = Inr ()" "attr_Snapshot a = snap" "ad_computed a = computed"
    "wf_attribute (cx_lib cx) a" by (rule create_run)
  have c: "computed = Some c" using assms(3) u(2,3) by (auto simp: attr_Snapshot_def)
  have ok: "is_ok (Computed_Validate (cx_lib cx) c)" using u(3,4) c by (simp add: wf_attribute_def computed_ok_def)
  show ?thesis
  proof (cases "co_Kind c")
    case ComputedFormula
    with u(1) c obtain rs where rs: "Computed_Validate (cx_lib cx) c = Inr rs" "sources_guard cx rp hierarchy (co_Formula c) rs = Inr ()"
      by (auto simp: create_computed_guard_def rbind_Inr)
    from formula_derives [OF rs(1) ComputedFormula] obtain expr where "Parse_formula (cx_lib cx) (co_Formula c) = Inr expr" "rs = refs expr" .
    with sources_guard_readable [of cx rp hierarchy "co_Formula c" expr] rs(2) assms(2) ComputedFormula show ?thesis
      by (auto simp: derives_from_readable_def)
  next
    case ComputedRollup
    with u(1) c rollup_readable [of cx rp rels td c] show ?thesis
      by (auto simp: derives_from_readable_def create_computed_guard_def rguard_Inr)
  qed (use ok in \<open>auto simp: Computed_Validate_def is_ok_def\<close>)
qed

lemma updated_derives:
  assumes "AttrUpdate cx rp rels s req now = Inr (attrs', snap, es, ch)" "\<not> Admin (cx_access cx)" "as_Computed snap = Some c"
  shows "derives_from_readable (cx_lib cx) (cx_access cx) (rp_attrs rp) c"
proof -
  from assms(1) obtain a b computed where u: "update_computed_guard cx rp rels a computed = Inr ()" "attr_Snapshot b = snap" "ad_computed b = computed"
    "computed_err (cx_lib cx) computed = None" by (rule update_run)
  have c: "computed = Some c" using assms(3) u(2,3) by (auto simp: attr_Snapshot_def)
  show ?thesis
  proof (cases "co_Kind c")
    case ComputedFormula
    with u(1) c obtain rs hierarchy where rs: "Computed_Validate (cx_lib cx) c = Inr rs" "sources_guard cx rp hierarchy (co_Formula c) rs = Inr ()"
      by (auto simp: update_computed_guard_def rbind_Inr)
    from formula_derives [OF rs(1) ComputedFormula] obtain expr where "Parse_formula (cx_lib cx) (co_Formula c) = Inr expr" "rs = refs expr" .
    with sources_guard_readable [of cx rp hierarchy "co_Formula c" expr] rs(2) assms(2) ComputedFormula show ?thesis
      by (auto simp: derives_from_readable_def)
  next
    case ComputedRollup
    with u(1) c rollup_readable show ?thesis
      by (auto simp: derives_from_readable_def update_computed_guard_def rbind_Inr rguard_Inr)
  qed (use u(4) c in \<open>auto simp: computed_err_def Computed_Validate_def\<close>)
qed

end
