(* ===== verification/Attr_Tree.thy ===== *)
theory Attr_Tree
  imports Attr_Laws
begin

text \<open>
  One name, one attribute: the whole tree of types under a root is one namespace. The breadth-first walk
  \<^verbatim>\<open>Descendants\<close> is characterised by the growth of a set, and the sweeps of \<^verbatim>\<open>Create\<close> and \<^verbatim>\<open>Restore\<close> keep the live names of a tree
  distinct as long as no type is restored.
\<close>

section \<open>The walk down from a type\<close>

definition child_ids :: "type_store \<Rightarrow> TypeDefinitionID set \<Rightarrow> TypeDefinitionID set" where
  "child_ids s P = ts_ID ` {x \<in> set s. ts_ArchivedAt x = None \<and> (\<exists>p\<in>P. ts_ExtendsID x = Some p)}"

definition grow :: "type_store \<Rightarrow> TypeDefinitionID set \<Rightarrow> TypeDefinitionID set" where
  "grow s P = P \<union> child_ids s P"

definition tree :: "type_store \<Rightarrow> TypeDefinitionID \<Rightarrow> TypeDefinitionID set" where
  "tree s r = (grow s ^^ maxHierarchyDepth) {r}"

lemma child_ids_Un: "child_ids s (P \<union> Q) = child_ids s P \<union> child_ids s Q"
  by (auto simp: child_ids_def)

lemma visit_children_sets:
  assumes "visit_children cs (seen, out, nxt) = (seen', out', nxt')"
  shows "seen' = seen \<union> td_id ` set cs \<and> set nxt' = set nxt \<union> (td_id ` set cs - seen) \<and>
    td_id ` set out' = td_id ` set out \<union> (td_id ` set cs - seen) \<and> set out' \<subseteq> set out \<union> set cs"
  using assms
proof (induction cs arbitrary: seen out nxt)
  case (Cons c cs)
  show ?case
  proof (cases "td_id c \<in> seen")
    case True
    with Cons.IH [of seen out nxt] Cons.prems show ?thesis by auto
  next
    case False
    with Cons.IH [of "insert (td_id c) seen" "out @ [c]" "nxt @ [td_id c]"] Cons.prems show ?thesis by auto
  qed
qed simp

lemma ListChildren_ids: "typeDefRepo_ListChildren s p = Inr cs \<Longrightarrow> td_id ` set cs = child_ids s {p}"
  by (auto simp: typeDefRepo_ListChildren_def child_ids_def image_image)

lemma visit_frontier_sets:
  "\<exists>seen' out' nxt'. visit_frontier (typeDefRepo_ListChildren s) frontier (seen, out, nxt) = Inr (seen', out', nxt') \<and>
     seen' = seen \<union> child_ids s (set frontier) \<and> set nxt' = set nxt \<union> (child_ids s (set frontier) - seen) \<and>
     td_id ` set out' = td_id ` set out \<union> (child_ids s (set frontier) - seen)"
proof (induction frontier arbitrary: seen out nxt)
  case Nil
  then show ?case by (simp add: child_ids_def)
next
  case (Cons p frontier)
  obtain cs where cs: "typeDefRepo_ListChildren s p = Inr cs" by (simp add: typeDefRepo_ListChildren_def)
  obtain seen1 out1 nxt1 where v: "visit_children cs (seen, out, nxt) = (seen1, out1, nxt1)" by (metis prod_cases3)
  have ids: "td_id ` set cs = child_ids s {p}" by (rule ListChildren_ids [OF cs])
  have split: "child_ids s (set (p # frontier)) = child_ids s {p} \<union> child_ids s (set frontier)"
    using child_ids_Un [of s "{p}" "set frontier"] by simp
  show ?case using Cons.IH [of seen1 out1 nxt1] visit_children_sets [OF v]
    unfolding visit_frontier.simps cs sum.case v ids split by auto
qed

lemma grow_fixed: "child_ids s P \<subseteq> P \<Longrightarrow> (grow s ^^ n) P = P"
  by (induction n) (auto simp: grow_def)

lemma descendants_from_set:
  assumes "insert r (td_id ` set out) = seen" "seen = P \<union> set frontier" "child_ids s P \<subseteq> seen"
  shows "\<exists>out'. descendants_from (typeDefRepo_ListChildren s) n seen out frontier = Inr out' \<and> insert r (td_id ` set out') = (grow s ^^ n) seen"
  using assms
proof (induction n arbitrary: seen out frontier P)
  case (Suc n)
  show ?case
  proof (cases "frontier = []")
    case True
    with Suc.prems show ?thesis using grow_fixed [of s seen "Suc n"] by auto
  next
    case False
    from visit_frontier_sets [of s frontier seen out "[]"] obtain seen' out' nxt where
      v: "visit_frontier (typeDefRepo_ListChildren s) frontier (seen, out, []) = Inr (seen', out', nxt)"
        "seen' = seen \<union> child_ids s (set frontier)" "set nxt = child_ids s (set frontier) - seen"
        "td_id ` set out' = td_id ` set out \<union> (child_ids s (set frontier) - seen)" by auto
    have g: "seen' = grow s seen" using Suc.prems(2,3) v(2) child_ids_Un [of s P "set frontier"] by (auto simp: grow_def)
    have "insert r (td_id ` set out') = seen'" "seen' = seen \<union> set nxt" "child_ids s seen \<subseteq> seen'"
      using Suc.prems(1) v(2-4) g by (auto simp: grow_def)
    from Suc.IH [OF this] show ?thesis using False v(1) g by (simp add: funpow_swap1)
  qed
qed simp

lemma Descendants_tree:
  obtains ds where "Descendants (typeDefRepo_ListChildren s) t = Inr ds" "insert (td_id t) (td_id ` set ds) = tree s (td_id t)"
proof -
  have "insert (td_id t) (td_id ` set []) = {td_id t}" "{td_id t} = {} \<union> set [td_id t]" "child_ids s {} \<subseteq> {td_id t}"
    by (simp_all add: child_ids_def)
  from descendants_from_set [OF this, of maxHierarchyDepth] that show thesis
    unfolding Descendants_def tree_def by blast
qed

section \<open>Trees of a changing store\<close>

lemma grow_mono: "P \<subseteq> Q \<Longrightarrow> grow s P \<subseteq> grow s Q"
  by (auto simp: grow_def child_ids_def)

lemma tree_shrinks:
  assumes "\<And>x. x \<in> set s' \<Longrightarrow> ts_ArchivedAt x = None \<Longrightarrow>
    \<exists>y\<in>set s. ts_ID y = ts_ID x \<and> ts_ExtendsID y = ts_ExtendsID x \<and> ts_ArchivedAt y = None"
  shows "tree s' r \<subseteq> tree s r"
proof -
  have step: "grow s' P \<subseteq> grow s P" for P
  proof
    fix i assume "i \<in> grow s' P"
    then consider "i \<in> P" | x p where "x \<in> set s'" "ts_ID x = i" "ts_ArchivedAt x = None" "p \<in> P" "ts_ExtendsID x = Some p"
      by (auto simp: grow_def child_ids_def)
    then show "i \<in> grow s P"
    proof cases
      case (2 x p)
      from assms [OF 2(1,3)] obtain y where "y \<in> set s" "ts_ID y = i" "ts_ExtendsID y = Some p" "ts_ArchivedAt y = None"
        using 2(2,5) by metis
      with 2(4) show ?thesis by (auto simp: grow_def child_ids_def)
    qed (simp add: grow_def)
  qed
  have "(grow s' ^^ n) {r} \<subseteq> (grow s ^^ n) {r}" for n
  proof (induction n)
    case (Suc n)
    from step grow_mono [OF Suc] show ?case by (simp only: funpow.simps o_apply) blast
  qed simp
  then show ?thesis by (simp add: tree_def)
qed

lemma tree_new_leaf:
  assumes "set s' \<subseteq> insert z (set s)" "\<And>x. x \<in> set s' \<Longrightarrow> ts_ExtendsID x \<noteq> Some (ts_ID z)"
  shows "tree s' r \<subseteq> insert (ts_ID z) (tree s r)"
proof -
  have leaf: "child_ids s' (insert (ts_ID z) P) \<subseteq> insert (ts_ID z) (child_ids s P)" for P
    using assms unfolding child_ids_def by auto
  have "(grow s' ^^ n) {r} \<subseteq> insert (ts_ID z) ((grow s ^^ n) {r})" for n
  proof (induction n)
    case (Suc n)
    from grow_mono [OF Suc] have "grow s' ((grow s' ^^ n) {r}) \<subseteq> grow s' (insert (ts_ID z) ((grow s ^^ n) {r}))" .
    also have "\<dots> \<subseteq> insert (ts_ID z) (grow s ((grow s ^^ n) {r}))" using leaf by (auto simp: grow_def)
    finally show ?case by simp
  qed simp
  then show ?thesis by (simp add: tree_def)
qed

text \<open>The types of a tree lead up to its root.\<close>

lemma tree_linked:
  assumes d: "distinct (map ts_ID s)" and r: "typeDefRepo_Get s r = Inr rt" "td_extendsID rt = None"
  shows "i \<in> (grow s ^^ n) {r} \<Longrightarrow> \<exists>t as. typeDefRepo_Get s i = Inr t \<and> linked (typeDefRepo_Get s) t as \<and> last (t # as) = rt"
proof (induction n arbitrary: i)
  case 0
  with r show ?case by (intro exI [of _ rt] exI [of _ "[]"]) simp
next
  case (Suc n)
  show ?case
  proof (cases "i \<in> (grow s ^^ n) {r}")
    case False
    with Suc.prems obtain x p where x: "x \<in> set s" "ts_ID x = i" "ts_ExtendsID x = Some p" "p \<in> (grow s ^^ n) {r}"
      unfolding funpow.simps o_apply by (subst (asm) grow_def) (auto simp: child_ids_def)
    from Suc.IH [OF x(4)] obtain t as where "typeDefRepo_Get s p = Inr t" "linked (typeDefRepo_Get s) t as" "last (t # as) = rt" by blast
    with x stored_Get [OF d x(1)] show ?thesis by (intro exI [of _ "type_Rehydrate x"] exI [of _ "t # as"]) auto
  qed (use Suc.IH in blast)
qed

lemma tree_root:
  assumes "distinct (map ts_ID s)" "typeDefRepo_Get s r = Inr rt" "td_extendsID rt = None" "td_id t \<in> tree s r"
    and t: "typeDefRepo_Get s (td_id t) = Inr t" "Root (typeDefRepo_Get s) t = Inr r0"
  shows "r0 = rt"
proof -
  from tree_linked [OF assms(1-3)] assms(4) t(1) obtain as where as: "linked (typeDefRepo_Get s) t as" "last (t # as) = rt"
    unfolding tree_def by fastforce
  from t(2) obtain bs where bs: "Ancestors (typeDefRepo_Get s) t = Inr bs" "r0 = last (t # bs)"
    by (auto simp: Root_def split: sum.splits if_splits)
  have "as = bs" using bs(1) linked_unique [OF as(1)] by (auto simp: mem_types.Ancestors_iff)
  with as(2) bs(2) show ?thesis by simp
qed

section \<open>The sweep covers the tree\<close>

lemma appendUnseen_ids: "td_id ` set (appendUnseenTypes into ts) = td_id ` set into \<union> td_id ` set ts"
  by (induction into ts rule: appendUnseenTypes.induct) auto

lemma sweep_covers:
  assumes "whole_hierarchy rp td r = Inr hierarchy" "Root (types_get rp) td = Inr r"
  shows "tree (rp_types rp) (td_id r) \<subseteq> td_id ` set hierarchy"
proof -
  from assms(1) obtain chain ds where h: "Chain (types_get rp) td = Inr chain" "Descendants (children_of rp) r = Inr ds"
      "hierarchy = appendUnseenTypes chain ds" by (auto simp: whole_hierarchy_def rbind_Inr)
  have "r \<in> set chain" using h(1) assms(2) by (auto simp: Chain_def Root_def map_sum_Inr split: sum.splits if_splits)
  moreover obtain ds' where "Descendants (children_of rp) r = Inr ds'" "insert (td_id r) (td_id ` set ds') = tree (rp_types rp) (td_id r)"
    by (rule Descendants_tree)
  ultimately show ?thesis using h by (auto simp: appendUnseen_ids)
qed

lemma GetByInternalName_Some:
  "attrRepo_GetByInternalName s t name = Inr a \<Longrightarrow>
     \<exists>x\<in>set s. a = attr_Rehydrate x \<and> as_ArchivedAt x = None \<and> as_TypeDefinitionID x = t \<and> as_InternalName x = name"
  by (induction s) (auto simp: attrRepo_GetByInternalName_def split: if_splits)

lemma GetByInternalName_None:
  "attrRepo_GetByInternalName s t name = Inl e \<Longrightarrow> x \<in> set s \<Longrightarrow> as_TypeDefinitionID x = t \<Longrightarrow> as_InternalName x = name \<Longrightarrow> as_ArchivedAt x \<noteq> None"
  by (auto simp: attrRepo_GetByInternalName_def find_None_iff split: option.splits)

section \<open>Live names of a tree are distinct\<close>

definition names_ok :: "type_store \<Rightarrow> attr_store \<Rightarrow> bool" where
  "names_ok types attrs \<longleftrightarrow> (\<forall>r rt. typeDefRepo_Get types r = Inr rt \<and> td_extendsID rt = None \<longrightarrow>
     (\<forall>a\<in>set attrs. \<forall>b\<in>set attrs. as_ArchivedAt a = None \<and> as_ArchivedAt b = None \<and> as_TypeDefinitionID a \<in> tree types r \<and>
        as_TypeDefinitionID b \<in> tree types r \<and> as_InternalName a = as_InternalName b \<longrightarrow> as_ID a = as_ID b))"

definition schema_ok :: "type_store \<Rightarrow> attr_store \<Rightarrow> bool" where
  "schema_ok types attrs \<longleftrightarrow> wf_store types \<and> distinct (map as_ID attrs) \<and> as_TypeDefinitionID ` set attrs \<subseteq> ts_ID ` set types \<and>
     names_ok types attrs"

lemma put_attr_distinct: "distinct (map as_ID s) \<Longrightarrow> distinct (map as_ID (put_attr x s))"
proof (induction s)
  case (Cons y s)
  have "as_ID y \<notin> as_ID ` set (put_attr x s)" if "as_ID y \<noteq> as_ID x" using Cons that by (simp add: put_attr_ids)
  with Cons show ?case by auto
qed simp

lemma set_put_attr: "distinct (map as_ID s) \<Longrightarrow> set (put_attr x s) = insert x {y \<in> set s. as_ID y \<noteq> as_ID x}"
proof (induction s)
  case (Cons y s)
  have "as_ID z \<noteq> as_ID y" if "z \<in> set s" for z using Cons.prems that by (force simp: image_iff)
  with Cons show ?case by auto
qed simp

text \<open>A definition is saved: when it is live, no other live attribute of its tree may have its name.\<close>

lemma put_attr_schema_ok:
  assumes ok: "schema_ok types attrs" and ty: "as_TypeDefinitionID z \<in> ts_ID ` set types"
    and free: "\<And>r rt x. typeDefRepo_Get types r = Inr rt \<Longrightarrow> td_extendsID rt = None \<Longrightarrow> as_TypeDefinitionID z \<in> tree types r \<Longrightarrow>
      as_ArchivedAt z = None \<Longrightarrow> x \<in> set attrs \<Longrightarrow> as_ArchivedAt x = None \<Longrightarrow> as_TypeDefinitionID x \<in> tree types r \<Longrightarrow>
      as_InternalName x = as_InternalName z \<Longrightarrow> as_ID x = as_ID z"
  shows "schema_ok types (put_attr z attrs)"
proof -
  have d: "distinct (map as_ID attrs)" using ok by (simp add: schema_ok_def)
  have old: "as_ID a = as_ID b" if "typeDefRepo_Get types r = Inr rt" "td_extendsID rt = None" "a \<in> set attrs" "b \<in> set attrs"
      "as_ArchivedAt a = None" "as_ArchivedAt b = None" "as_TypeDefinitionID a \<in> tree types r" "as_TypeDefinitionID b \<in> tree types r"
      "as_InternalName a = as_InternalName b" for r rt a b
    using ok that unfolding schema_ok_def names_ok_def by blast
  have "names_ok types (put_attr z attrs)" unfolding names_ok_def set_put_attr [OF d]
  proof (intro allI impI ballI, elim conjE insertE CollectE)
    fix r rt a b
    assume "typeDefRepo_Get types r = Inr rt" "td_extendsID rt = None" "as_ArchivedAt a = None" "as_ArchivedAt b = None"
      "as_TypeDefinitionID a \<in> tree types r" "as_TypeDefinitionID b \<in> tree types r" "as_InternalName a = as_InternalName b" "a = z" "b \<in> set attrs"
    then show "as_ID a = as_ID b" using free [of r rt b] by simp
  next
    fix r rt a b
    assume "typeDefRepo_Get types r = Inr rt" "td_extendsID rt = None" "as_ArchivedAt a = None" "as_ArchivedAt b = None"
      "as_TypeDefinitionID a \<in> tree types r" "as_TypeDefinitionID b \<in> tree types r" "as_InternalName a = as_InternalName b" "b = z" "a \<in> set attrs"
    then show "as_ID a = as_ID b" using free [of r rt a] by simp
  qed (auto intro: old)
  moreover have "as_TypeDefinitionID ` set (put_attr z attrs) \<subseteq> ts_ID ` set types"
    using ok ty unfolding set_put_attr [OF d] schema_ok_def by auto
  ultimately show ?thesis using ok put_attr_distinct [OF d, of z] by (simp add: schema_ok_def)
qed

text \<open>The sweeps of \<^verbatim>\<open>Create\<close> and of \<^verbatim>\<open>Restore\<close> look at every type of the tree.\<close>

lemma swept_name_free:
  assumes wf: "wf_store (rp_types rp)" and td: "types_get rp (td_id td) = Inr td" "Root (types_get rp) td = Inr r0"
    "whole_hierarchy rp td r0 = Inr hierarchy"
    and r: "types_get rp r = Inr rt" "td_extendsID rt = None" "td_id td \<in> tree (rp_types rp) r" "i \<in> tree (rp_types rp) r"
  shows "i \<in> td_id ` set hierarchy"
proof -
  have "distinct (map ts_ID (rp_types rp))" using wf by (simp add: wf_store_def)
  from tree_root [OF this r(1-3) td(1,2)] have "td_id r0 = r" using mem_types.get_id [OF r(1)] by simp
  with sweep_covers [OF td(3,2)] r(4) show ?thesis by auto
qed

lemma Get_type_id: "distinct (map ts_ID s) \<Longrightarrow> typeDefRepo_Get s i = Inr t \<Longrightarrow> i \<in> ts_ID ` set s"
  by (metis Get_iff imageI)

lemma put_same_name:
  assumes ok: "schema_ok types attrs" and a: "attrRepo_Get attrs (ad_id a) = Inr a" "ad_id b = ad_id a" "ad_typeDefinitionID b = ad_typeDefinitionID a"
      "ad_internalName b = ad_internalName a" "ad_archivedAt b = None \<Longrightarrow> ad_archivedAt a = None"
  shows "schema_ok types (put_attr (attr_Snapshot b) attrs)"
proof (rule put_attr_schema_ok [OF ok])
  have m: "attr_Snapshot a \<in> set attrs" using Get_attr_mem [OF a(1)] by (auto simp: attr_snapshot_round)
  then show "as_TypeDefinitionID (attr_Snapshot b) \<in> ts_ID ` set types" using ok a(3) by (auto simp: schema_ok_def attr_Snapshot_def)
  fix r rt x
  assume x: "typeDefRepo_Get types r = Inr rt" "td_extendsID rt = None" "as_TypeDefinitionID (attr_Snapshot b) \<in> tree types r"
    "as_ArchivedAt (attr_Snapshot b) = None" "x \<in> set attrs" "as_ArchivedAt x = None"
    "as_TypeDefinitionID x \<in> tree types r" "as_InternalName x = as_InternalName (attr_Snapshot b)"
  have "as_TypeDefinitionID (attr_Snapshot a) = as_TypeDefinitionID (attr_Snapshot b)" "as_ArchivedAt (attr_Snapshot a) = None"
      "as_InternalName (attr_Snapshot a) = as_InternalName (attr_Snapshot b)" "as_ID (attr_Snapshot a) = as_ID (attr_Snapshot b)"
    using a x(4) by (simp_all add: attr_Snapshot_def)
  with ok m x show "as_ID x = as_ID (attr_Snapshot b)" unfolding schema_ok_def names_ok_def by metis
qed

text \<open>A definition of the type \<open>td\<close> is saved after a sweep that found no other live attribute of its name.\<close>

lemma put_swept:
  assumes ok: "schema_ok (rp_types rp) (rp_attrs rp)" and td: "types_get rp (td_id td) = Inr td" "Root (types_get rp) td = Inr r0"
    "whole_hierarchy rp td r0 = Inr hierarchy" and z: "as_TypeDefinitionID z = td_id td"
    and swept: "\<And>link x r rt. types_get rp r = Inr rt \<Longrightarrow> td_extendsID rt = None \<Longrightarrow> td_id link \<in> tree (rp_types rp) r \<Longrightarrow> link \<in> set hierarchy \<Longrightarrow> x \<in> set (rp_attrs rp) \<Longrightarrow> as_ArchivedAt x = None \<Longrightarrow> as_TypeDefinitionID x = td_id link \<Longrightarrow>
      as_InternalName x = as_InternalName z \<Longrightarrow> as_ID x = as_ID z"
  shows "schema_ok (rp_types rp) (put_attr z (rp_attrs rp))"
proof (rule put_attr_schema_ok [OF ok])
  have wf: "wf_store (rp_types rp)" using ok by (simp add: schema_ok_def)
  then have dt: "distinct (map ts_ID (rp_types rp))" by (simp add: wf_store_def)
  show "as_TypeDefinitionID z \<in> ts_ID ` set (rp_types rp)" using Get_type_id [OF dt td(1)] z by simp
  fix r rt x
  assume x: "types_get rp r = Inr rt" "td_extendsID rt = None" "as_TypeDefinitionID z \<in> tree (rp_types rp) r"
    "as_ArchivedAt z = None" "x \<in> set (rp_attrs rp)" "as_ArchivedAt x = None"
    "as_TypeDefinitionID x \<in> tree (rp_types rp) r" "as_InternalName x = as_InternalName z"
  from swept_name_free [OF wf td x(1,2) _ x(7)] x(3) z obtain link where "link \<in> set hierarchy" "td_id link = as_TypeDefinitionID x" by auto
  with swept [OF x(1,2)] x(5-8) show "as_ID x = as_ID z" by metis
qed

lemma create_schema_ok:
  assumes ok: "schema_ok (rp_types rp) (rp_attrs rp)" and "AttrCreate cx rp rels inp newid now = Inr (attrs', snap, es, ch)"
  shows "schema_ok (rp_types rp) attrs'"
proof -
  from assms(2) obtain td r0 hierarchy a where c: "types_get rp (td_id td) = Inr td" "Root (types_get rp) td = Inr r0"
    "whole_hierarchy rp td r0 = Inr hierarchy" "first_err (name_free_err (rp_attrs rp) td (ac_InternalName inp)) hierarchy = None"
    "attr_Snapshot a = snap" "attrs' = put_attr snap (rp_attrs rp)" "ad_typeDefinitionID a = td_id td" "ad_internalName a = ac_InternalName inp"
    by (rule create_run)
  have z: "as_TypeDefinitionID snap = td_id td" "as_InternalName snap = ac_InternalName inp"
    using c(7,8) unfolding c(5) [symmetric] by (simp_all add: attr_Snapshot_def)
  show ?thesis unfolding c(6)
  proof (rule put_swept [OF ok c(1-3) z(1)])
    fix link x
    assume x: "link \<in> set hierarchy" "x \<in> set (rp_attrs rp)" "as_ArchivedAt x = None" "as_TypeDefinitionID x = td_id link" "as_InternalName x = as_InternalName snap"
    with c(4) have "name_free_err (rp_attrs rp) td (ac_InternalName inp) link = None" by (simp add: first_err_None)
    then obtain e where "attrRepo_GetByInternalName (rp_attrs rp) (td_id link) (ac_InternalName inp) = Inl e"
      by (auto simp: name_free_err_def split: sum.splits if_splits)
    from GetByInternalName_None [OF this x(2,4)] x(3,5) z(2) show "as_ID x = as_ID snap" by simp
  qed
qed

text \<open>Names are distinct in the tree, so the sweep of \<^verbatim>\<open>Restore\<close> sees the only live attribute of the name.\<close>

lemma restore_schema_ok:
  assumes ok: "schema_ok (rp_types rp) (rp_attrs rp)" and "assertNameFreeInHierarchy rp a = Inr ()" and b: "ad_id b = ad_id a"
    "ad_typeDefinitionID b = ad_typeDefinitionID a" "ad_internalName b = ad_internalName a"
  shows "schema_ok (rp_types rp) (put_attr (attr_Snapshot b) (rp_attrs rp))"
proof -
  from assms(2) obtain td r0 hierarchy where c: "types_get rp (ad_typeDefinitionID a) = Inr td" "Root (types_get rp) td = Inr r0"
    "whole_hierarchy rp td r0 = Inr hierarchy" "first_err (restore_name_err (rp_attrs rp) a) hierarchy = None"
    by (auto simp: assertNameFreeInHierarchy_def rbind_Inr rguard_Inr)
  have td: "td_id td = ad_typeDefinitionID a" by (rule mem_types.get_id [OF c(1)])
  have c1: "types_get rp (td_id td) = Inr td" using c(1) td by simp
  have z: "as_TypeDefinitionID (attr_Snapshot b) = td_id td" "as_InternalName (attr_Snapshot b) = ad_internalName a" "as_ID (attr_Snapshot b) = ad_id a"
    using b td by (simp_all add: attr_Snapshot_def)
  show ?thesis
  proof (rule put_swept [OF ok c1 c(2,3) z(1)])
    fix link x r rt
    assume r: "types_get rp r = Inr rt" "td_extendsID rt = None" "td_id link \<in> tree (rp_types rp) r"
      and x: "link \<in> set hierarchy" "x \<in> set (rp_attrs rp)" "as_ArchivedAt x = None" "as_TypeDefinitionID x = td_id link"
      "as_InternalName x = as_InternalName (attr_Snapshot b)"
    with c(4) have free: "restore_name_err (rp_attrs rp) a link = None" by (simp add: first_err_None)
    show "as_ID x = as_ID (attr_Snapshot b)"
    proof (cases "attrRepo_GetByInternalName (rp_attrs rp) (td_id link) (ad_internalName a)")
      case (Inl e)
      from GetByInternalName_None [OF this x(2,4)] x(3,5) z(2) show ?thesis by simp
    next
      case (Inr y)
      with free have "ad_id y = ad_id a" by (auto simp: restore_name_err_def split: if_splits)
      moreover from GetByInternalName_Some [OF Inr] obtain w where w: "w \<in> set (rp_attrs rp)" "y = attr_Rehydrate w" "as_ArchivedAt w = None"
        "as_TypeDefinitionID w = td_id link" "as_InternalName w = ad_internalName a" by blast
      ultimately have "as_ID w = ad_id a" by (simp add: attr_Rehydrate_def)
      moreover have "as_ID x = as_ID w" using ok r x w z(2) unfolding schema_ok_def names_ok_def by metis
      ultimately show ?thesis using z(3) by simp
    qed
  qed
qed

lemma schema_call_schema_ok:
  assumes ok: "schema_ok (rp_types rp) (rp_attrs rp)" and "schema_call cx rp rels s attrs'"
  shows "schema_ok (rp_types rp) attrs'"
  using assms(2)
proof cases
  case (call_Create inp newid now snap es ch)
  show ?thesis by (rule create_schema_ok [OF ok call_Create(1)])
next
  case (call_Update req now snap es ch)
  then obtain a b computed where u: "attrRepo_Get (rp_attrs rp) (ad_id a) = Inr a" "attr_Snapshot b = snap" "attrs' = put_attr snap (rp_attrs rp)"
    "attr_fixed b = attr_fixed a" "ad_archivedAt b = ad_archivedAt a" by (rule update_run)
  show ?thesis unfolding u(3) u(2) [symmetric]
    by (rule put_same_name [OF ok u(1)]) (use u(4,5) in \<open>simp_all add: attr_fixed_def\<close>)
next
  case (call_Transition raw action now snap es ch)
  then obtain a b where t: "attrRepo_Get (rp_attrs rp) (ad_id a) = Inr a" "attr_Snapshot b = snap" "attrs' = put_attr snap (rp_attrs rp)"
    "attr_core b = attr_core a" "action = ActionRestored \<Longrightarrow> assertNameFreeInHierarchy rp a = Inr ()"
    "action = ActionArchived \<Longrightarrow> attr_IsArchived b" by (rule transition_run) blast
  have f: "ad_id b = ad_id a" "ad_typeDefinitionID b = ad_typeDefinitionID a" "ad_internalName b = ad_internalName a"
    using conforms_same_core [OF t(4)] by blast+
  show ?thesis unfolding t(3) t(2) [symmetric]
  proof (cases action)
    case ActionArchived
    with t(6) have "ad_archivedAt b \<noteq> None" by (simp add: attr_IsArchived_def)
    with put_same_name [OF ok t(1) f] show "schema_ok (rp_types rp) (put_attr (attr_Snapshot b) (rp_attrs rp))" by blast
  next
    case ActionRestored
    show "schema_ok (rp_types rp) (put_attr (attr_Snapshot b) (rp_attrs rp))" by (rule restore_schema_ok [OF ok t(5) [OF ActionRestored] f])
  qed
qed

section \<open>The type use cases\<close>

text \<open>A type changes without a restore, or is new: the trees do not gain a type that declares an attribute.\<close>

lemma types_change_ok:
  assumes ok: "schema_ok types attrs" and wf: "wf_store types'" and ids: "ts_ID ` set types \<subseteq> ts_ID ` set types'"
    and trees: "\<And>r rt i. typeDefRepo_Get types' r = Inr rt \<Longrightarrow> td_extendsID rt = None \<Longrightarrow> i \<in> tree types' r \<Longrightarrow> i \<in> ts_ID ` set types \<Longrightarrow>
      i \<in> tree types r \<and> (\<exists>rt. typeDefRepo_Get types r = Inr rt \<and> td_extendsID rt = None)"
  shows "schema_ok types' attrs"
proof -
  have "names_ok types' attrs" unfolding names_ok_def
  proof (intro allI impI ballI, elim conjE)
    fix r rt a b
    assume r: "typeDefRepo_Get types' r = Inr rt" "td_extendsID rt = None" and ab: "a \<in> set attrs" "b \<in> set attrs" "as_ArchivedAt a = None"
      "as_ArchivedAt b = None" "as_TypeDefinitionID a \<in> tree types' r" "as_TypeDefinitionID b \<in> tree types' r" "as_InternalName a = as_InternalName b"
    have "as_TypeDefinitionID a \<in> ts_ID ` set types" "as_TypeDefinitionID b \<in> ts_ID ` set types"
      using ok ab(1,2) by (auto simp: schema_ok_def)
    with trees [OF r] ab(5,6) obtain rt' where "typeDefRepo_Get types r = Inr rt'" "td_extendsID rt' = None"
      "as_TypeDefinitionID a \<in> tree types r" "as_TypeDefinitionID b \<in> tree types r" by blast
    with ok ab show "as_ID a = as_ID b" unfolding schema_ok_def names_ok_def by blast
  qed
  with ok wf ids show ?thesis unfolding schema_ok_def by blast
qed

lemma saved_type_ok:
  assumes ok: "schema_ok types attrs" and wf: "wf_store types'" and save: "typeDefRepo_Save types t = Inr types'" and x: "x \<in> set types"
    and same: "td_id t = ts_ID x" "td_extendsID t = ts_ExtendsID x" "td_archivedAt t = None \<Longrightarrow> ts_ArchivedAt x = None"
  shows "schema_ok types' attrs"
proof (rule types_change_ok [OF ok wf])
  have d: "distinct (map ts_ID types)" "distinct (map ts_ID types')" using ok wf by (simp_all add: schema_ok_def wf_store_def)
  have set: "set types' = insert (type_Snapshot t) {y \<in> set types. ts_ID y \<noteq> ts_ID x}"
    using set_put_snapshot [OF d(1), of "type_Snapshot t"] Save_cases(1) [OF save] same by simp
  show "ts_ID ` set types \<subseteq> ts_ID ` set types'" using same(1) unfolding set by (auto simp: image_iff)
  have orig: "\<exists>y\<in>set types. ts_ID y = ts_ID z \<and> ts_ExtendsID y = ts_ExtendsID z \<and> (ts_ArchivedAt z = None \<longrightarrow> ts_ArchivedAt y = None)"
    if "z \<in> set types'" for z using that x same unfolding set by auto
  fix r rt i
  assume r: "typeDefRepo_Get types' r = Inr rt" "td_extendsID rt = None" and i: "i \<in> tree types' r"
  have "tree types' r \<subseteq> tree types r" by (rule tree_shrinks) (use orig in blast)
  moreover from r obtain z where "z \<in> set types'" "ts_ID z = r" "ts_ExtendsID z = None" by (auto simp: Get_iff [OF d(2)])
  with orig obtain y where "y \<in> set types" "ts_ID y = r" "ts_ExtendsID y = None" by metis
  then have "typeDefRepo_Get types r = Inr (type_Rehydrate y)" "td_extendsID (type_Rehydrate y) = None" using stored_Get [OF d(1)] by auto
  ultimately show "i \<in> tree types r \<and> (\<exists>rt. typeDefRepo_Get types r = Inr rt \<and> td_extendsID rt = None)" using i by blast
qed

lemma new_type_ok:
  assumes ok: "schema_ok types attrs" and wf: "wf_store types'" and set: "set types' = insert z (set types)" and fresh: "ts_ID z \<notin> ts_ID ` set types"
  shows "schema_ok types' attrs"
proof (rule types_change_ok [OF ok wf])
  have d: "distinct (map ts_ID types)" "distinct (map ts_ID types')" using ok wf by (simp_all add: schema_ok_def wf_store_def)
  show "ts_ID ` set types \<subseteq> ts_ID ` set types'" unfolding set by auto
  have "parents_ok types" using ok by (simp add: schema_ok_def wf_store_def)
  then have orphan: "ts_ExtendsID x \<noteq> Some (ts_ID z)" if "x \<in> set types" for x
    using fresh that unfolding parents_ok_def by (metis imageI)
  have self: "ts_ExtendsID z \<noteq> Some (ts_ID z)"
  proof
    assume "ts_ExtendsID z = Some (ts_ID z)"
    have "lineage types' j n \<Longrightarrow> j = ts_ID z \<Longrightarrow> False" for j n
    proof (induction rule: lineage.induct)
      case (lin_root x)
      then have "x = z" using d(2) set by (metis distinct_map inj_onD insertI1)
      with lin_root \<open>ts_ExtendsID z = Some (ts_ID z)\<close> show ?case by simp
    next
      case (lin_sub x p n)
      then have "x = z" using d(2) set by (metis distinct_map inj_onD insertI1)
      with lin_sub \<open>ts_ExtendsID z = Some (ts_ID z)\<close> show ?case by simp
    qed
    with wf set show False by (auto simp: wf_store_def)
  qed
  fix r rt i
  assume r: "typeDefRepo_Get types' r = Inr rt" "td_extendsID rt = None" and i: "i \<in> tree types' r" "i \<in> ts_ID ` set types"
  have "tree types' r \<subseteq> insert (ts_ID z) (tree types r)" by (rule tree_new_leaf) (use set orphan self in auto)
  with i fresh have t: "i \<in> tree types r" by (metis insertE subsetD)
  have "tree types (ts_ID z) = {ts_ID z}" unfolding tree_def by (rule grow_fixed) (use orphan in \<open>auto simp: child_ids_def\<close>)
  with t i(2) fresh have "r \<noteq> ts_ID z" by (metis singletonD)
  with r set obtain y where "y \<in> set types" "ts_ID y = r" "ts_ExtendsID y = None" by (auto simp: Get_iff [OF d(2)])
  then have "typeDefRepo_Get types r = Inr (type_Rehydrate y)" "td_extendsID (type_Rehydrate y) = None" using stored_Get [OF d(1)] by auto
  with t show "i \<in> tree types r \<and> (\<exists>rt. typeDefRepo_Get types r = Inr rt \<and> td_extendsID rt = None)" by blast
qed

text \<open>The states of a schema: calls on types and attributes in any order, except that no archived type is restored.\<close>

inductive schema_reachable :: "(string \<Rightarrow> ulid result) \<Rightarrow> type_store \<Rightarrow> attr_store \<Rightarrow> bool" for parseID where
  schema_empty: "schema_reachable parseID [] []"
| schema_type_created: "schema_reachable parseID types attrs \<Longrightarrow> newid \<notin> ts_ID ` set types \<Longrightarrow>
    TypeCreate parseID types tenant i newid now = Inr (types', snap, evts) \<Longrightarrow> schema_reachable parseID types' attrs"
| schema_type_updated: "schema_reachable parseID types attrs \<Longrightarrow>
    TypeUpdate parseID types tenant u now = Inr (types', snap, evts) \<Longrightarrow> schema_reachable parseID types' attrs"
| schema_type_archived: "schema_reachable parseID types attrs \<Longrightarrow>
    TypeTransition parseID types tenant raw ActionArchived now = Inr (types', snap, evts) \<Longrightarrow> schema_reachable parseID types' attrs"
| schema_attributes: "schema_reachable parseID (rp_types rp) (rp_attrs rp) \<Longrightarrow> schema_call cx rp rels s attrs' \<Longrightarrow>
    schema_reachable parseID (rp_types rp) attrs'"

lemma type_created_ok:
  assumes "schema_ok types attrs" "newid \<notin> ts_ID ` set types" "TypeCreate parseID types tenant i newid now = Inr (types', snap, evts)"
  shows "schema_ok types' attrs"
proof -
  have wf: "wf_store types" "wf_store types'" using assms(1) TypeCreate_wf [OF _ assms(2,3)] by (simp_all add: schema_ok_def)
  from assms(3) obtain extends td evs where new: "type_New \<lparr>tn_TenantID = tenant, tn_InternalName = tc_InternalName i, tn_DisplayName = tc_DisplayName i,
        tn_Description = tc_Description i, tn_Extends = extends\<rparr> newid now = Inr (td, evs)" and save: "typeDefRepo_Save types td = Inr types'"
    by (auto simp: TypeCreate_def split: sum.splits if_splits prod.splits)
  have "set types' = insert (type_Snapshot td) {y \<in> set types. ts_ID y \<noteq> td_id td}"
    using set_put_snapshot [of types "type_Snapshot td"] Save_cases(1) [OF save] wf(1) by (simp add: wf_store_def)
  also have "{y \<in> set types. ts_ID y \<noteq> td_id td} = set types" using assms(2) type_New_ok(1) [OF new] by (auto simp: image_iff)
  finally show ?thesis using new_type_ok [OF assms(1) wf(2), of "type_Snapshot td"] assms(2) type_New_ok(1) [OF new] by simp
qed

lemma type_updated_ok:
  assumes "schema_ok types attrs" "TypeUpdate parseID types tenant u now = Inr (types', snap, evts)"
  shows "schema_ok types' attrs"
proof -
  have wf: "wf_store types" "wf_store types'" using assms(1) TypeUpdate_wf [OF _ assms(2)] by (simp_all add: schema_ok_def)
  from assms(2) obtain td where own: "load_own parseID types tenant (tu_ID u) = Inr td" by (auto simp: TypeUpdate_def split: sum.splits)
  from load_own_ok [OF wf(1) own] obtain x where x: "x \<in> set types" "td = type_Rehydrate x" by blast
  from assms(2) own consider "types' = types" | td' es where "type_Update td (tu_DisplayName u, tu_Description u) now = Inr (td', es)"
      "typeDefRepo_Save types td' = Inr types'" by (auto simp: TypeUpdate_def Let_def split: sum.splits if_splits prod.splits)
  then show ?thesis
  proof cases
    case (2 td' es)
    then have "td_id td' = ts_ID x" "td_extendsID td' = ts_ExtendsID x" "td_archivedAt td' = ts_ArchivedAt x"
      unfolding x(2) by (auto simp: type_Update_def Let_def split: if_splits)
    with saved_type_ok [OF assms(1) wf(2) 2(2) x(1)] show ?thesis by simp
  qed (use assms(1) in simp)
qed

lemma type_archived_ok:
  assumes "schema_ok types attrs" "TypeTransition parseID types tenant raw ActionArchived now = Inr (types', snap, evts)"
  shows "schema_ok types' attrs"
proof -
  have wf: "wf_store types" "wf_store types'" using assms(1) TypeTransition_wf [OF _ assms(2)] by (simp_all add: schema_ok_def)
  from assms(2) obtain td td' es where own: "load_own parseID types tenant raw = Inr td" and a: "type_Archive td now = Inr (td', es)"
      "typeDefRepo_Save types td' = Inr types'" by (auto simp: TypeTransition_def split: sum.splits prod.splits)
  from load_own_ok [OF wf(1) own] obtain x where x: "x \<in> set types" "td = type_Rehydrate x" by blast
  from a(1) have "td_id td' = ts_ID x" "td_extendsID td' = ts_ExtendsID x" "td_archivedAt td' \<noteq> None"
    unfolding x(2) by (auto simp: type_Archive_def split: if_splits)
  with saved_type_ok [OF assms(1) wf(2) a(2) x(1)] show ?thesis by simp
qed

lemma schema_reachable_ok: "schema_reachable parseID types attrs \<Longrightarrow> schema_ok types attrs"
proof (induction rule: schema_reachable.induct)
  case schema_empty
  show ?case by (simp add: schema_ok_def wf_store_def live_unique_def parents_ok_def names_ok_def)
next
  case (schema_attributes rp cx rels s attrs')
  show ?case by (rule schema_call_schema_ok [OF schema_attributes.IH schema_attributes.hyps(2)])
qed (blast intro: type_created_ok type_updated_ok type_archived_ok)+

text \<open>In terms of the code's walk: the types a query over a root flattens.\<close>

lemma root_names_distinct:
  assumes "schema_reachable parseID types attrs" "typeDefRepo_Get types i = Inr r" "td_extendsID r = None"
    and "Descendants (typeDefRepo_ListChildren types) r = Inr ds" "a \<in> set attrs" "b \<in> set attrs" "as_ArchivedAt a = None" "as_ArchivedAt b = None"
    and "as_TypeDefinitionID a \<in> td_id ` set (r # ds)" "as_TypeDefinitionID b \<in> td_id ` set (r # ds)" "as_InternalName a = as_InternalName b"
  shows "a = b"
proof -
  note ok = schema_reachable_ok [OF assms(1)]
  obtain ds' where "Descendants (typeDefRepo_ListChildren types) r = Inr ds'" "insert (td_id r) (td_id ` set ds') = tree types (td_id r)"
    by (rule Descendants_tree)
  with assms(4) have t: "td_id ` set (r # ds) = tree types (td_id r)" by simp
  have "typeDefRepo_Get types (td_id r) = Inr r" using assms(2) mem_types.get_id [OF assms(2)] by simp
  with ok assms(3,5-8,11) assms(9,10) [unfolded t] have "as_ID a = as_ID b" unfolding schema_ok_def names_ok_def by blast
  with ok assms(5,6) show ?thesis by (metis distinct_map inj_onD schema_ok_def)
qed

end
