(* ===== verification/Mem_Store.thy ===== *)
theory Mem_Store
  imports Prelude
begin

text \<open>
  The in-memory store's transactions (\<^verbatim>\<open>infrastructure/memory/store.go\<close>, \<^verbatim>\<open>transactor.go\<close>) and the unit
  of work over them (\<^verbatim>\<open>application/uow/uow.go\<close>).

  The six maps of the store are one function from the collection's tag and the row's id; the
  contents of a row is a type variable, as \<^verbatim>\<open>captureMap\<close> is generic in it. The undo closures of the
  journal are data (\<open>undo\<close>) that \<open>apply_undo\<close> runs. Every operation runs under the store's mutex, so
  transactions interleave operation by operation: \<open>mem_step\<close>. A transaction that waits for a media
  key has no step until the key is free.
\<close>

section \<open>Store and journal (store.go)\<close>

datatype coll =
    collTypeDefs
  | collAttrs
  | collValues
  | collDeps
  | collRelDefs
  | collRels
  | collActivities

record ('v, 'e) mstore =
  rows :: "coll \<Rightarrow> string \<Rightarrow> 'v option"
  activities :: "'e list"
  mediaKeyHeld :: "string set"

datatype ('v, 'e) undo = UndoRow coll string "'v option" | UndoLog "'e list"

record ('v, 'e) journal =
  seen :: "(coll \<times> string) list"
  undos :: "('v, 'e) undo list"
  heldMediaKeys :: "string list"

definition newUndoJournal :: "('v, 'e) journal" where
  "newUndoJournal = \<lparr>seen = [], undos = [], heldMediaKeys = []\<rparr>"

definition row_put :: "coll \<Rightarrow> string \<Rightarrow> 'v option \<Rightarrow> ('v, 'e) mstore \<Rightarrow> ('v, 'e) mstore" where
  "row_put c i v s = s\<lparr>rows := (rows s)(c := (rows s c)(i := v))\<rparr>"

text \<open>A nil journal is a write outside any transaction.\<close>

definition captureMap :: "('v, 'e) journal option \<Rightarrow> coll \<Rightarrow> ('v, 'e) mstore \<Rightarrow> string \<Rightarrow> ('v, 'e) journal option" where
  "captureMap jo c s i =
     (case jo of None \<Rightarrow> None
      | Some j \<Rightarrow>
          if (c, i) \<in> set (seen j) then Some j
          else Some (j\<lparr>seen := seen j @ [(c, i)], undos := undos j @ [UndoRow c i (rows s c i)]\<rparr>))"

definition captureActivities :: "('v, 'e) journal option \<Rightarrow> ('v, 'e) mstore \<Rightarrow> ('v, 'e) journal option" where
  "captureActivities jo s =
     (case jo of None \<Rightarrow> None
      | Some j \<Rightarrow>
          if (collActivities, []) \<in> set (seen j) then Some j
          else Some (j\<lparr>seen := seen j @ [(collActivities, [])], undos := undos j @ [UndoLog (activities s)]\<rparr>))"

text \<open>The end of every journalled \<^verbatim>\<open>Save\<close> and of every purge: capture, then overwrite or delete.\<close>

definition repo_write :: "coll \<Rightarrow> string \<Rightarrow> 'v option \<Rightarrow> ('v, 'e) mstore \<times> ('v, 'e) journal option \<Rightarrow>
    ('v, 'e) mstore \<times> ('v, 'e) journal option" where
  "repo_write c i v st = (row_put c i v (fst st), captureMap (snd st) c (fst st) i)"

definition activityLog_Write :: "'e list \<Rightarrow> ('v, 'e) mstore \<times> ('v, 'e) journal option \<Rightarrow>
    ('v, 'e) mstore \<times> ('v, 'e) journal option" where
  "activityLog_Write entries st =
     ((fst st)\<lparr>activities := activities (fst st) @ entries\<rparr>, captureActivities (snd st) (fst st))"

fun apply_undo :: "('v, 'e) undo \<Rightarrow> ('v, 'e) mstore \<Rightarrow> ('v, 'e) mstore" where
  "apply_undo (UndoRow c i prior) s = row_put c i prior s"
| "apply_undo (UndoLog prior) s = s\<lparr>activities := prior\<rparr>"

text \<open>Newest entry first.\<close>

definition store_rollback :: "('v, 'e) journal \<Rightarrow> ('v, 'e) mstore \<Rightarrow> ('v, 'e) mstore" where
  "store_rollback j s = foldr apply_undo (undos j) s"

subsection \<open>Media-key locks\<close>

definition holdsMediaKey :: "('v, 'e) journal \<Rightarrow> string \<Rightarrow> bool" where
  "holdsMediaKey j key \<longleftrightarrow> list_ex (\<lambda>held. held = key) (heldMediaKeys j)"

definition tryLockMediaKey :: "string \<Rightarrow> ('v, 'e) mstore \<Rightarrow> ('v, 'e) mstore option" where
  "tryLockMediaKey key s =
     (if key \<in> mediaKeyHeld s then None else Some (s\<lparr>mediaKeyHeld := insert key (mediaKeyHeld s)\<rparr>))"

text \<open>One attempt of \<^verbatim>\<open>LockMediaKey\<close>; \<open>None\<close> is waiting for the next poll.\<close>

definition LockMediaKey :: "string \<Rightarrow> ('v, 'e) mstore \<times> ('v, 'e) journal \<Rightarrow>
    (('v, 'e) mstore \<times> ('v, 'e) journal) option" where
  "LockMediaKey key st =
     (if holdsMediaKey (snd st) key then Some st
      else (case tryLockMediaKey key (fst st) of None \<Rightarrow> None
        | Some s \<Rightarrow> Some (s, (snd st)\<lparr>heldMediaKeys := heldMediaKeys (snd st) @ [key]\<rparr>)))"

definition releaseMediaKeys :: "('v, 'e) mstore \<times> ('v, 'e) journal \<Rightarrow> ('v, 'e) mstore \<times> ('v, 'e) journal" where
  "releaseMediaKeys st =
     (if heldMediaKeys (snd st) = [] then st
      else ((fst st)\<lparr>mediaKeyHeld := mediaKeyHeld (fst st) - set (heldMediaKeys (snd st))\<rparr>,
            (snd st)\<lparr>heldMediaKeys := []\<rparr>))"

section \<open>Transactions (transactor.go)\<close>

text \<open>A hook may change the store and, through repositories bound to the transaction, its journal.\<close>

type_synonym ('v, 'e) txstate = "('v, 'e) mstore \<times> ('v, 'e) journal"
type_synonym ('v, 'e) hook = "('v, 'e) txstate \<Rightarrow> goerr option \<times> ('v, 'e) txstate"

record ('v, 'e) memTx =
  tx_depth :: nat
  tx_done :: bool
  tx_pre :: "('v, 'e) hook list"
  tx_post :: "('v, 'e) hook list"
  tx_rollback :: "('v, 'e) hook list"

definition newMemTx :: "('v, 'e) memTx" where
  "newMemTx = \<lparr>tx_depth = 0, tx_done = False, tx_pre = [], tx_post = [], tx_rollback = []\<rparr>"

text \<open>Hooks up to the first error (pre-commit), and all hooks with their errors (post-commit,
  rollback). \<^verbatim>\<open>errors.Join\<close> of no error is nil; of several, the first is the one \<^verbatim>\<open>CodeOf\<close> finds.\<close>

fun run_until_error :: "('v, 'e) hook list \<Rightarrow> ('v, 'e) txstate \<Rightarrow> goerr option \<times> ('v, 'e) txstate" where
  "run_until_error [] st = (None, st)"
| "run_until_error (h # hs) st =
     (case h st of (Some e, st') \<Rightarrow> (Some e, st') | (None, st') \<Rightarrow> run_until_error hs st')"

fun run_all :: "('v, 'e) hook list \<Rightarrow> ('v, 'e) txstate \<Rightarrow> goerr list \<times> ('v, 'e) txstate" where
  "run_all [] st = ([], st)"
| "run_all (h # hs) st =
     (let (e, st') = h st; (es, st'') = run_all hs st'
      in (case e of None \<Rightarrow> es | Some e \<Rightarrow> e # es, st''))"

definition errors_Join :: "goerr list \<Rightarrow> goerr option" where
  "errors_Join es = (case es of [] \<Rightarrow> None | e # _ \<Rightarrow> Some e)"

definition memTx_Begin :: "('v, 'e) memTx \<Rightarrow> ('v, 'e) memTx result" where
  "memTx_Begin t =
     (if tx_done t then Inl (PlainErr ''memory: transaction already finished'')
      else Inr (t\<lparr>tx_depth := tx_depth t + 1\<rparr>))"

definition memTx_Rollback :: "('v, 'e) memTx \<Rightarrow> ('v, 'e) txstate \<Rightarrow>
    goerr option \<times> ('v, 'e) memTx \<times> ('v, 'e) txstate" where
  "memTx_Rollback t st =
     (if tx_done t then (None, t, st)
      else if tx_depth t > 0
        then (Some (PlainErr ''memory: rollback inside nested transaction''), t\<lparr>tx_depth := tx_depth t - 1\<rparr>, st)
      else let t = t\<lparr>tx_done := True\<rparr>;
               st = releaseMediaKeys (store_rollback (snd st) (fst st), snd st);
               (es, st) = run_all (tx_rollback t) st
           in (errors_Join es, t, st))"

definition memTx_Commit :: "('v, 'e) memTx \<Rightarrow> ('v, 'e) txstate \<Rightarrow>
    goerr option \<times> ('v, 'e) memTx \<times> ('v, 'e) txstate" where
  "memTx_Commit t st =
     (if tx_done t then (Some (PlainErr ''memory: transaction already finished''), t, st)
      else if tx_depth t > 0 then (None, t\<lparr>tx_depth := tx_depth t - 1\<rparr>, st)
      else (case run_until_error (tx_pre t) st of
          (Some e, st) \<Rightarrow> (Some e, snd (memTx_Rollback t st))
        | (None, st) \<Rightarrow>
            let t = t\<lparr>tx_done := True\<rparr>;
                (es, st) = run_all (tx_post t) (releaseMediaKeys st)
            in (errors_Join es, t, st)))"

definition OnPreCommit :: "('v, 'e) hook \<Rightarrow> ('v, 'e) memTx \<Rightarrow> ('v, 'e) memTx" where
  "OnPreCommit h t = t\<lparr>tx_pre := tx_pre t @ [h]\<rparr>"

definition OnPostCommit :: "('v, 'e) hook \<Rightarrow> ('v, 'e) memTx \<Rightarrow> ('v, 'e) memTx" where
  "OnPostCommit h t = t\<lparr>tx_post := tx_post t @ [h]\<rparr>"

definition OnRollback :: "('v, 'e) hook \<Rightarrow> ('v, 'e) memTx \<Rightarrow> ('v, 'e) memTx" where
  "OnRollback h t = t\<lparr>tx_rollback := tx_rollback t @ [h]\<rparr>"

text \<open>\<^verbatim>\<open>InTransaction\<close> of the pool-level transactor: the function gets a fresh transaction.\<close>

definition InTransaction :: "(('v, 'e) memTx \<Rightarrow> ('v, 'e) txstate \<Rightarrow> goerr option \<times> ('v, 'e) memTx \<times> ('v, 'e) txstate) \<Rightarrow>
    ('v, 'e) mstore \<Rightarrow> goerr option \<times> ('v, 'e) mstore" where
  "InTransaction fn s =
     (case fn newMemTx (s, newUndoJournal) of
        (Some e, t, st) \<Rightarrow> (Some e, fst (snd (snd (memTx_Rollback t st))))
      | (None, t, st) \<Rightarrow> (let (e, _, st) = memTx_Commit t st in (e, fst st)))"

text \<open>Nested: the same transaction one level deeper.\<close>

definition memTx_InTransaction :: "(('v, 'e) memTx \<Rightarrow> ('v, 'e) txstate \<Rightarrow> goerr option \<times> ('v, 'e) memTx \<times> ('v, 'e) txstate) \<Rightarrow>
    ('v, 'e) memTx \<Rightarrow> ('v, 'e) txstate \<Rightarrow> goerr option \<times> ('v, 'e) memTx \<times> ('v, 'e) txstate" where
  "memTx_InTransaction fn t st =
     (case memTx_Begin t of Inl e \<Rightarrow> (Some e, t, st)
      | Inr t \<Rightarrow> (case fn t st of
            (Some e, t, st) \<Rightarrow> (Some e, snd (memTx_Rollback t st))
          | (None, t, st) \<Rightarrow> memTx_Commit t st))"

section \<open>The unit of work (uow.go)\<close>

text \<open>The collector of one unit of work. A check reads the finished state.\<close>

record ('v, 'e, 'c, 'ev) Collector =
  co_events :: "'ev list"
  co_changes :: "'c list"
  co_checks :: "(('v, 'e) mstore \<Rightarrow> goerr option) list"
  co_checkKeys :: "string list"

definition newCollector :: "('v, 'e, 'c, 'ev) Collector" where
  "newCollector = \<lparr>co_events = [], co_changes = [], co_checks = [], co_checkKeys = []\<rparr>"

definition CollectEvents :: "'ev list \<Rightarrow> ('v, 'e, 'c, 'ev) Collector \<Rightarrow> ('v, 'e, 'c, 'ev) Collector" where
  "CollectEvents evts c = c\<lparr>co_events := co_events c @ evts\<rparr>"

definition RecordChange :: "'c \<Rightarrow> ('v, 'e, 'c, 'ev) Collector \<Rightarrow> ('v, 'e, 'c, 'ev) Collector" where
  "RecordChange ch c = c\<lparr>co_changes := co_changes c @ [ch]\<rparr>"

definition CheckBeforeCommitOnce :: "string \<Rightarrow> (('v, 'e) mstore \<Rightarrow> goerr option) \<Rightarrow>
    ('v, 'e, 'c, 'ev) Collector \<Rightarrow> ('v, 'e, 'c, 'ev) Collector" where
  "CheckBeforeCommitOnce key fn c =
     (if key \<in> set (co_checkKeys c) then c
      else c\<lparr>co_checkKeys := co_checkKeys c @ [key], co_checks := co_checks c @ [fn]\<rparr>)"

definition RunChecks :: "('v, 'e) mstore \<Rightarrow> ('v, 'e, 'c, 'ev) Collector \<Rightarrow> goerr option \<times> ('v, 'e, 'c, 'ev) Collector" where
  "RunChecks s c = (first_err (\<lambda>check. check s) (co_checks c), c\<lparr>co_checks := []\<rparr>)"

text \<open>The pre-commit hook that writes the audit entries; \<open>newEntry\<close> is \<^verbatim>\<open>activity.NewEntry\<close> for the
  request's tenant, actor and clock.\<close>

definition write_activity :: "('c \<Rightarrow> 'e result) \<Rightarrow> 'c list \<Rightarrow> ('v, 'e) hook" where
  "write_activity newEntry changes st =
     (if changes = [] then (None, st)
      else (case map_result newEntry changes of Inl e \<Rightarrow> (Some e, st)
        | Inr entries \<Rightarrow>
            let (s, j) = activityLog_Write entries (fst st, Some (snd st)) in (None, (s, the j))))"

text \<open>What the transaction holds when the use case has ended: its hooks, over the collector.\<close>

definition uow_tx :: "('c \<Rightarrow> 'e result) \<Rightarrow> ('ev list \<Rightarrow> ('v, 'e) hook) option \<Rightarrow> ('ev list \<Rightarrow> ('v, 'e) txstate \<Rightarrow> ('v, 'e) txstate) \<Rightarrow>
    ('v, 'e, 'c, 'ev) Collector \<Rightarrow> ('v, 'e) memTx" where
  "uow_tx newEntry sink deliver c =
     OnPostCommit (\<lambda>st. (None, if co_events c = [] then st else deliver (co_events c) st))
       (OnPreCommit (write_activity newEntry (co_changes c))
         (case sink of None \<Rightarrow> newMemTx
          | Some w \<Rightarrow> OnPreCommit (\<lambda>st. if co_events c = [] then (None, st) else w (co_events c) st) newMemTx))"

text \<open>\<^verbatim>\<open>Execute\<close>. \<open>sink\<close> is the outbox writer of outbox mode (a hook over the collected events) and
  \<open>deliver\<close> the post-commit dispatch to projections and subscribers, whose errors are only
  observed. The hooks read the collector when they run, which is after the use case has ended;
  here they are registered then. Rollback and dispatch observers are callbacks without effect on the store.\<close>

definition Execute :: "('c \<Rightarrow> 'e result) \<Rightarrow> ('ev list \<Rightarrow> ('v, 'e) hook) option \<Rightarrow> ('ev list \<Rightarrow> ('v, 'e) txstate \<Rightarrow> ('v, 'e) txstate) \<Rightarrow>
    (('v, 'e) txstate \<Rightarrow> ('v, 'e, 'c, 'ev) Collector \<Rightarrow> goerr option \<times> ('v, 'e, 'c, 'ev) Collector \<times> ('v, 'e) txstate) \<Rightarrow>
    ('v, 'e) mstore \<Rightarrow> goerr option \<times> ('v, 'e) mstore" where
  "Execute newEntry sink deliver fn s =
     (let (err, c, st) = fn (s, newUndoJournal) newCollector;
          (err, c) = (case err of Some e \<Rightarrow> (Some e, c) | None \<Rightarrow> RunChecks (fst st) c)
      in (case err of
            Some e \<Rightarrow> (Some e, fst (snd (snd (memTx_Rollback (uow_tx newEntry sink deliver c) st))))
          | None \<Rightarrow> (let (e, _, st) = memTx_Commit (uow_tx newEntry sink deliver c) st in (e, fst st))))"

section \<open>Interleaved transactions\<close>

datatype ('v, 'e) action =
    TxBegin nat
  | TxWrite nat coll string "'v option"
  | TxLog nat "'e list"
  | TxLock nat string
  | TxCommit nat
  | TxRollback nat

fun tx_of :: "('v, 'e) action \<Rightarrow> nat" where
  "tx_of (TxBegin t) = t"
| "tx_of (TxWrite t c i v) = t"
| "tx_of (TxLog t es) = t"
| "tx_of (TxLock t k) = t"
| "tx_of (TxCommit t) = t"
| "tx_of (TxRollback t) = t"

fun act_keys :: "('v, 'e) action \<Rightarrow> (coll \<times> string) set" where
  "act_keys (TxWrite t c i v) = {(c, i)}"
| "act_keys _ = {}"

type_synonym ('v, 'e) mem_sys = "('v, 'e) mstore \<times> (nat \<Rightarrow> ('v, 'e) journal option)"

text \<open>One operation of one open transaction; \<open>None\<close> is an operation that cannot run in this state.\<close>

fun mem_do :: "('v, 'e) action \<Rightarrow> ('v, 'e) mem_sys \<Rightarrow> ('v, 'e) mem_sys option" where
  "mem_do (TxBegin t) (s, js) =
     (if js t = None then Some (s, js(t \<mapsto> newUndoJournal)) else None)"
| "mem_do (TxWrite t c i v) (s, js) =
     (if js t = None \<or> c = collActivities then None
      else let (s', j') = repo_write c i v (s, js t) in Some (s', js(t := j')))"
| "mem_do (TxLog t es) (s, js) =
     (if js t = None then None
      else let (s', j') = activityLog_Write es (s, js t) in Some (s', js(t := j')))"
| "mem_do (TxLock t k) (s, js) =
     (case js t of None \<Rightarrow> None
      | Some j \<Rightarrow> map_option (\<lambda>(s', j'). (s', js(t \<mapsto> j'))) (LockMediaKey k (s, j)))"
| "mem_do (TxCommit t) (s, js) =
     (case js t of None \<Rightarrow> None
      | Some j \<Rightarrow> Some (fst (releaseMediaKeys (s, j)), js(t := None)))"
| "mem_do (TxRollback t) (s, js) =
     (case js t of None \<Rightarrow> None
      | Some j \<Rightarrow> Some (fst (releaseMediaKeys (store_rollback j s, j)), js(t := None)))"

fun mem_run :: "('v, 'e) action list \<Rightarrow> ('v, 'e) mem_sys \<Rightarrow> ('v, 'e) mem_sys option" where
  "mem_run [] sys = Some sys"
| "mem_run (a # as) sys = (case mem_do a sys of None \<Rightarrow> None | Some sys' \<Rightarrow> mem_run as sys')"

section \<open>What a rollback restores\<close>

fun prior_row :: "('v, 'e) undo list \<Rightarrow> coll \<Rightarrow> string \<Rightarrow> 'v option option" where
  "prior_row [] c i = None"
| "prior_row (UndoRow c' i' v # us) c i = (if c' = c \<and> i' = i then Some v else prior_row us c i)"
| "prior_row (UndoLog _ # us) c i = prior_row us c i"

fun prior_log :: "('v, 'e) undo list \<Rightarrow> 'e list option" where
  "prior_log [] = None"
| "prior_log (UndoLog es # us) = Some es"
| "prior_log (UndoRow _ _ _ # us) = prior_log us"

definition row_before :: "('v, 'e) journal \<Rightarrow> ('v, 'e) mstore \<Rightarrow> coll \<Rightarrow> string \<Rightarrow> 'v option" where
  "row_before j s c i = (case prior_row (undos j) c i of Some p \<Rightarrow> p | None \<Rightarrow> rows s c i)"

definition log_before :: "('v, 'e) journal \<Rightarrow> ('v, 'e) mstore \<Rightarrow> 'e list" where
  "log_before j s = (case prior_log (undos j) of Some p \<Rightarrow> p | None \<Rightarrow> activities s)"

text \<open>The keys marked as seen are the keys with an undo entry.\<close>

definition journal_wf :: "('v, 'e) journal \<Rightarrow> bool" where
  "journal_wf j \<longleftrightarrow>
     (\<forall>c i. c \<noteq> collActivities \<longrightarrow> ((c, i) \<in> set (seen j) \<longleftrightarrow> prior_row (undos j) c i \<noteq> None)) \<and>
     ((collActivities, []) \<in> set (seen j) \<longleftrightarrow> prior_log (undos j) \<noteq> None)"

lemma rows_row_put [simp]:
  "rows (row_put c i v s) c' i' = (if c = c' \<and> i = i' then v else rows s c' i')"
  "activities (row_put c i v s) = activities s"
  "mediaKeyHeld (row_put c i v s) = mediaKeyHeld s"
  by (auto simp: row_put_def)

lemma rollback_rows: "rows (store_rollback j s) = row_before j s"
proof -
  have "rows (foldr apply_undo us s) c i = (case prior_row us c i of Some p \<Rightarrow> p | None \<Rightarrow> rows s c i)" for us c i
    by (induction us c i rule: prior_row.induct) auto
  then show ?thesis by (auto simp: store_rollback_def row_before_def fun_eq_iff)
qed

lemma rollback_log: "activities (store_rollback j s) = log_before j s"
proof -
  have "activities (foldr apply_undo us s) = (case prior_log us of Some p \<Rightarrow> p | None \<Rightarrow> activities s)" for us
    by (induction us rule: prior_log.induct) auto
  then show ?thesis by (auto simp: store_rollback_def log_before_def)
qed

lemma rollback_keys: "mediaKeyHeld (store_rollback j s) = mediaKeyHeld s"
proof -
  have "mediaKeyHeld (apply_undo u r) = mediaKeyHeld r" for u :: "('a, 'b) undo" and r
    by (cases u) simp_all
  then have "mediaKeyHeld (foldr apply_undo us s) = mediaKeyHeld s" for us
    by (induction us) simp_all
  then show ?thesis by (simp add: store_rollback_def)
qed

lemma release_frame [simp]:
  "rows (fst (releaseMediaKeys (s, j))) = rows s"
  "activities (fst (releaseMediaKeys (s, j))) = activities s"
  "mediaKeyHeld (fst (releaseMediaKeys (s, j))) = mediaKeyHeld s - set (heldMediaKeys j)"
  by (auto simp: releaseMediaKeys_def)

lemmas rollback_simps = rollback_rows rollback_log rollback_keys

lemma prior_append [simp]:
  "prior_row (us @ vs) c i = (case prior_row us c i of Some p \<Rightarrow> Some p | None \<Rightarrow> prior_row vs c i)"
  "prior_log (us @ vs) = (case prior_log us of Some p \<Rightarrow> Some p | None \<Rightarrow> prior_log vs)"
proof -
  show "prior_row (us @ vs) c i = (case prior_row us c i of Some p \<Rightarrow> Some p | None \<Rightarrow> prior_row vs c i)"
    by (induction us c i rule: prior_row.induct) auto
  show "prior_log (us @ vs) = (case prior_log us of Some p \<Rightarrow> Some p | None \<Rightarrow> prior_log vs)"
    by (induction us rule: prior_log.induct) auto
qed

lemma new_journal [simp]:
  "journal_wf newUndoJournal" "row_before newUndoJournal s = rows s" "log_before newUndoJournal s = activities s"
  "undos newUndoJournal = []" "seen newUndoJournal = []" "heldMediaKeys newUndoJournal = []"
  by (auto simp: newUndoJournal_def journal_wf_def row_before_def log_before_def fun_eq_iff)

text \<open>A journalled write and a journalled append leave what a rollback restores as it was.\<close>

definition cap_row :: "coll \<Rightarrow> string \<Rightarrow> ('v, 'e) mstore \<Rightarrow> ('v, 'e) journal \<Rightarrow> ('v, 'e) journal" where
  "cap_row c i s j = the (captureMap (Some j) c s i)"

definition cap_log :: "('v, 'e) mstore \<Rightarrow> ('v, 'e) journal \<Rightarrow> ('v, 'e) journal" where
  "cap_log s j = the (captureActivities (Some j) s)"

lemma captures: "captureMap (Some j) c s i = Some (cap_row c i s j)" "captureActivities (Some j) s = Some (cap_log s j)"
  by (auto simp: cap_row_def cap_log_def captureMap_def captureActivities_def)

lemma prior_cap_row:
  assumes "journal_wf j" "c \<noteq> collActivities"
  shows "prior_row (undos (cap_row c i s j)) c' i' =
      (if c' = c \<and> i' = i then Some (row_before j s c i) else prior_row (undos j) c' i')"
    "prior_log (undos (cap_row c i s j)) = prior_log (undos j)"
    "heldMediaKeys (cap_row c i s j) = heldMediaKeys j"
    "set (seen (cap_row c i s j)) = insert (c, i) (set (seen j))"
  using assms
  by (auto simp: cap_row_def captureMap_def journal_wf_def row_before_def split: option.splits)

lemma prior_cap_log:
  assumes "journal_wf j"
  shows "prior_row (undos (cap_log s j)) c i = prior_row (undos j) c i"
    "prior_log (undos (cap_log s j)) = Some (log_before j s)"
    "heldMediaKeys (cap_log s j) = heldMediaKeys j"
    "set (seen (cap_log s j)) = insert (collActivities, []) (set (seen j))"
  using assms
  by (auto simp: cap_log_def captureActivities_def journal_wf_def log_before_def split: option.splits)

lemma cap_wf:
  assumes "journal_wf j"
  shows "c \<noteq> collActivities \<Longrightarrow> journal_wf (cap_row c i s j)" "journal_wf (cap_log s j)"
  using assms prior_cap_row [OF assms] prior_cap_log [OF assms] by (auto simp: journal_wf_def)

lemma write_before:
  assumes "journal_wf j" "c \<noteq> collActivities"
  shows "row_before (cap_row c i s j) (row_put c i v s) = row_before j s"
    "log_before (cap_row c i s j) (row_put c i v s) = log_before j s"
  using prior_cap_row [OF assms]
  by (auto simp: row_before_def [abs_def] log_before_def fun_eq_iff split: option.splits)

lemma log_write_before:
  assumes "journal_wf j"
  shows "row_before (cap_log s j) (s\<lparr>activities := es\<rparr>) = row_before j s"
    "log_before (cap_log s j) (s\<lparr>activities := es\<rparr>) = log_before j s"
  using prior_cap_log [OF assms]
  by (auto simp: row_before_def [abs_def] log_before_def fun_eq_iff split: option.splits)

section \<open>A rolled-back transaction leaves no rows behind\<close>

text \<open>Two journals that agree on the rows they captured and the keys they hold.\<close>

definition same_rows :: "('v, 'e) journal \<Rightarrow> ('v, 'e) journal \<Rightarrow> bool" where
  "same_rows j k \<longleftrightarrow> (\<forall>c i. prior_row (undos j) c i = prior_row (undos k) c i) \<and> heldMediaKeys j = heldMediaKeys k"

definition touches :: "('v, 'e) journal \<Rightarrow> (coll \<times> string) set" where
  "touches j = {(c, i). prior_row (undos j) c i \<noteq> None}"

text \<open>The invariant of the interleaved transactions: journals are consistent and every media key is
  held by one of them only.\<close>

definition mem_inv :: "('v, 'e) mem_sys \<Rightarrow> bool" where
  "mem_inv sys \<longleftrightarrow>
     (\<forall>t j. snd sys t = Some j \<longrightarrow> journal_wf j \<and> set (heldMediaKeys j) \<subseteq> mediaKeyHeld (fst sys)) \<and>
     (\<forall>t u j k. t \<noteq> u \<longrightarrow> snd sys t = Some j \<longrightarrow> snd sys u = Some k \<longrightarrow>
        set (heldMediaKeys j) \<inter> set (heldMediaKeys k) = {})"

lemma mem_invD:
  "mem_inv sys \<Longrightarrow> snd sys t = Some j \<Longrightarrow> journal_wf j"
  "mem_inv sys \<Longrightarrow> snd sys t = Some j \<Longrightarrow> set (heldMediaKeys j) \<subseteq> mediaKeyHeld (fst sys)"
  "mem_inv sys \<Longrightarrow> snd sys t = Some j \<Longrightarrow> snd sys u = Some k \<Longrightarrow> t \<noteq> u \<Longrightarrow>
     set (heldMediaKeys j) \<inter> set (heldMediaKeys k) = {}"
  by (auto simp: mem_inv_def)

lemma Lock_cases:
  assumes "LockMediaKey k (s, j) = Some (s', j')"
  obtains "s' = s" "j' = j" "k \<in> set (heldMediaKeys j)"
  | "k \<notin> mediaKeyHeld s" "s' = s\<lparr>mediaKeyHeld := insert k (mediaKeyHeld s)\<rparr>"
    "j' = j\<lparr>heldMediaKeys := heldMediaKeys j @ [k]\<rparr>" "k \<notin> set (heldMediaKeys j)"
  using assms
  by (auto simp: LockMediaKey_def tryLockMediaKey_def holdsMediaKey_def list_ex_iff split: if_splits)

text \<open>An operation either updates one open journal together with the store or opens or closes a
  transaction; the four shapes all proofs below use.\<close>

lemma mem_do_cases:
  assumes "mem_do a (s, js) = Some (s', js')"
  obtains (opened) t where "a = TxBegin t" "js t = None" "s' = s" "js' = js(t \<mapsto> newUndoJournal)"
  | (wrote) t c i v j where "a = TxWrite t c i v" "c \<noteq> collActivities" "js t = Some j" "s' = row_put c i v s"
      "js' = js(t \<mapsto> cap_row c i s j)"
  | (logged) t es j where "a = TxLog t es" "js t = Some j" "s' = s\<lparr>activities := activities s @ es\<rparr>"
      "js' = js(t \<mapsto> cap_log s j)"
  | (locked) t k j j' where "a = TxLock t k" "js t = Some j" "LockMediaKey k (s, j) = Some (s', j')" "js' = js(t \<mapsto> j')"
  | (finished) t j s0 where "a = TxCommit t \<and> s0 = s \<or> a = TxRollback t \<and> s0 = store_rollback j s" "js t = Some j"
      "s' = fst (releaseMediaKeys (s0, j))" "js' = js(t := None)"
  using assms
  by (cases a) (auto simp: repo_write_def activityLog_Write_def captures Let_def split: if_splits option.splits)

lemma mem_do_inv:
  assumes "mem_inv (s, js)" "mem_do a (s, js) = Some (s', js')"
  shows "mem_inv (s', js')"
  using assms(2)
proof (cases rule: mem_do_cases)
  case (wrote t c i v j)
  with mem_invD(1) [OF assms(1), of t j] assms(1) show ?thesis
    by (auto simp: mem_inv_def cap_wf prior_cap_row)
next
  case (logged t es j)
  with mem_invD(1) [OF assms(1), of t j] assms(1) show ?thesis
    by (auto simp: mem_inv_def cap_wf prior_cap_log)
next
  case (locked t k j j')
  from locked(3) show ?thesis
  proof (cases rule: Lock_cases)
    case 2
    with locked assms(1) show ?thesis
      by (auto simp: mem_inv_def journal_wf_def subset_iff)
  qed (use locked assms(1) in \<open>auto simp: mem_inv_def\<close>)
next
  case (finished t j s0)
  then have "mediaKeyHeld s0 = mediaKeyHeld s" by (auto simp: rollback_keys)
  with finished assms(1) show ?thesis by (auto simp: mem_inv_def) blast+
qed (use assms(1) in \<open>auto simp: mem_inv_def\<close>)

lemma mem_run_inv: "mem_inv sys \<Longrightarrow> mem_run as sys = Some sys' \<Longrightarrow> mem_inv sys'"
proof (induction as sys rule: mem_run.induct)
  case (2 a as sys)
  then show ?case using mem_do_inv [of "fst sys" "snd sys" a] by (auto split: option.splits)
qed simp

text \<open>The run with the actions of \<open>t\<close> left out, seen beside the full one. \<open>K\<close> are the rows of \<open>t\<close>.\<close>

definition own :: "(nat \<Rightarrow> ('v, 'e) journal option) \<Rightarrow> nat \<Rightarrow> ('v, 'e) journal" where
  "own js t = (case js t of None \<Rightarrow> newUndoJournal | Some j \<Rightarrow> j)"

definition sim :: "(coll \<times> string) set \<Rightarrow> nat \<Rightarrow> ('v, 'e) mem_sys \<Rightarrow> ('v, 'e) mem_sys \<Rightarrow> bool" where
  "sim K t sys sys2 \<longleftrightarrow>
     mem_inv sys \<and> mem_inv sys2 \<and> snd sys2 t = None \<and>
     (\<forall>u. u \<noteq> t \<longrightarrow> rel_option same_rows (snd sys u) (snd sys2 u)) \<and>
     (\<forall>u j. u \<noteq> t \<longrightarrow> snd sys u = Some j \<longrightarrow> touches j \<inter> K = {}) \<and>
     row_before (own (snd sys) t) (fst sys) = rows (fst sys2) \<and> touches (own (snd sys) t) \<subseteq> K \<and>
     mediaKeyHeld (fst sys2) = mediaKeyHeld (fst sys) - set (heldMediaKeys (own (snd sys) t))"

lemma touches_cap:
  assumes "journal_wf j"
  shows "c \<noteq> collActivities \<Longrightarrow> touches (cap_row c i s j) = insert (c, i) (touches j)"
    "touches (cap_log s j) = touches j"
  using prior_cap_row [OF assms] prior_cap_log [OF assms] by (auto simp: touches_def)

lemma touches_new [simp]: "touches newUndoJournal = {}"
  by (simp add: touches_def)

lemma row_before_outside: "(c, i) \<notin> touches j \<Longrightarrow> row_before j s c i = rows s c i"
  by (simp add: touches_def row_before_def)

lemma row_before_cong: "rows r = rows r' \<Longrightarrow> row_before j r = row_before j r'"
  by (auto simp: row_before_def fun_eq_iff split: option.split)

lemma row_before_put:
  assumes "(c, i) \<notin> touches j"
  shows "row_before j (row_put c i v s) c' i' = (if c = c' \<and> i = i' then v else row_before j s c' i')"
  using assms by (cases "c = c' \<and> i = i'") (auto simp: touches_def row_before_def split: option.split)

lemma row_before_lock [simp]:
  "row_before j (s\<lparr>mediaKeyHeld := x\<rparr>) = row_before j s" "row_before (j\<lparr>heldMediaKeys := ks\<rparr>) = row_before j"
  "touches (j\<lparr>heldMediaKeys := ks\<rparr>) = touches j"
  by (auto simp: row_before_def touches_def fun_eq_iff split: option.split)

lemma simD:
  assumes "sim K t sys sys2"
  shows "mem_inv sys" "mem_inv sys2" "snd sys2 t = None"
    "u \<noteq> t \<Longrightarrow> snd sys u = Some j \<Longrightarrow> \<exists>k. snd sys2 u = Some k \<and> same_rows j k"
    "u \<noteq> t \<Longrightarrow> snd sys u = Some j \<Longrightarrow> touches j \<inter> K = {}"
    "row_before (own (snd sys) t) (fst sys) = rows (fst sys2)" "touches (own (snd sys) t) \<subseteq> K"
    "mediaKeyHeld (fst sys2) = mediaKeyHeld (fst sys) - set (heldMediaKeys (own (snd sys) t))"
    "u \<noteq> t \<Longrightarrow> snd sys u = None \<Longrightarrow> snd sys2 u = None"
  using assms unfolding sim_def by (auto simp: option_rel_Some1 split: option.splits)

text \<open>Outside \<open>K\<close> both runs have the same rows.\<close>

lemma sim_rows: "sim K t (s, js) (s2, js2) \<Longrightarrow> (c, i) \<notin> K \<Longrightarrow> rows s c i = rows s2 c i"
  using simD(6,7) [of K t "(s, js)" "(s2, js2)"] row_before_outside [of c i "own js t" s] by fastforce

lemma sim_own_step:
  assumes sim: "sim K t (s, js) (s2, js2)" and "mem_do a (s, js) = Some (s', js')" "tx_of a = t"
    "act_keys a \<subseteq> K" "a \<noteq> TxCommit t"
  shows "sim K t (s', js') (s2, js2)"
proof -
  note d = simD [OF sim, simplified]
  have inv: "mem_inv (s', js')" using mem_do_inv [OF d(1) assms(2)] .
  have others: "js' u = js u" if "u \<noteq> t" for u
    using assms(2) by (cases rule: mem_do_cases) (use assms(3) that in auto)
  have wf: "js t = Some j \<Longrightarrow> journal_wf j" for j using mem_invD(1) [OF d(1)] by simp
  have "row_before (own js' t) s' = rows s2 \<and> touches (own js' t) \<subseteq> K \<and>
      mediaKeyHeld s2 = mediaKeyHeld s' - set (heldMediaKeys (own js' t))"
    using assms(2)
  proof (cases rule: mem_do_cases)
    case (locked u k j j')
    from locked(3) show ?thesis
    proof (cases rule: Lock_cases)
      case 2
      with locked assms(3) d show ?thesis
        by (auto simp: own_def)
    qed (use locked assms(3) d in \<open>auto simp: own_def\<close>)
  qed (use assms(3-5) d wf in \<open>auto simp: own_def write_before log_write_before touches_cap prior_cap_row
      prior_cap_log rollback_simps\<close>)
  with inv others sim show ?thesis by (auto simp: sim_def)
qed

lemma same_rowsD: "same_rows j k \<Longrightarrow> prior_row (undos j) c i = prior_row (undos k) c i"
    "same_rows j k \<Longrightarrow> heldMediaKeys j = heldMediaKeys k"
  by (simp_all add: same_rows_def)

text \<open>A step of another transaction can be repeated without \<open>t\<close>.\<close>

lemma sim_other_step:
  assumes sim: "sim K t (s, js) (s2, js2)" and "mem_do a (s, js) = Some (s', js')" "tx_of a \<noteq> t"
    "act_keys a \<inter> K = {}"
  shows "\<exists>s2' js2'. mem_do a (s2, js2) = Some (s2', js2') \<and> rows s2' = row_before (own js t) s' \<and>
      mediaKeyHeld s2' = mediaKeyHeld s' - set (heldMediaKeys (own js t)) \<and>
      rel_option same_rows (js' (tx_of a)) (js2' (tx_of a)) \<and>
      (\<forall>j. js' (tx_of a) = Some j \<longrightarrow> touches j \<inter> K = {}) \<and>
      (\<forall>u. u \<noteq> tx_of a \<longrightarrow> js2' u = js2 u \<and> js' u = js u)"
proof -
  note d = simD [OF sim, simplified]
  note wf = mem_invD(1) [OF d(1), simplified] and wf2 = mem_invD(1) [OF d(2), simplified]
  have outside: "(c, i) \<notin> K \<Longrightarrow> row_before (own js t) r c i = rows r c i" for c i r
    using d(7) by (intro row_before_outside) auto
  show ?thesis
    using assms(2)
  proof (cases rule: mem_do_cases)
    case (opened u)
    with assms(3) d show ?thesis by (auto simp: same_rows_def)
  next
    case (wrote u c i v j)
    then obtain k where k: "js2 u = Some k" "same_rows j k" using d(4) assms(3) by auto
    have key: "(c, i) \<notin> K" using wrote assms(4) by auto
    have "same_rows (cap_row c i s j) (cap_row c i s2 k)"
      using same_rowsD [OF k(2)] sim_rows [OF sim key]
      by (auto simp: same_rows_def prior_cap_row wf [OF wrote(3)] wf2 [OF k(1)] wrote(2) row_before_def split: option.split)
    moreover have "rows (row_put c i v s2) = row_before (own js t) (row_put c i v s)"
      using d(6) row_before_put [of c i "own js t" v s, OF contra_subsetD [OF d(7) key]]
      by (auto simp: fun_eq_iff)
    moreover have "touches (cap_row c i s j) \<inter> K = {}"
      using key wrote assms(3) d(5) [of u j] by (simp add: touches_cap wf)
    ultimately show ?thesis
      using wrote k d(8) by (simp add: repo_write_def captures)
  next
    case (logged u es j)
    then obtain k where k: "js2 u = Some k" "same_rows j k" using d(4) assms(3) by auto
    have "same_rows (cap_log s j) (cap_log s2 k)"
      using same_rowsD [OF k(2)] by (simp add: same_rows_def prior_cap_log wf [OF logged(2)] wf2 [OF k(1)])
    moreover have "row_before (own js t) (s\<lparr>activities := activities s @ es\<rparr>) = row_before (own js t) s"
      by (auto simp: row_before_def fun_eq_iff split: option.split)
    ultimately show ?thesis
      using logged k d(6,8) assms(3) d(5) [of u j] by (simp add: activityLog_Write_def captures touches_cap wf)
  next
    case (locked u key j j')
    then obtain k where k: "js2 u = Some k" "same_rows j k" using d(4) assms(3) by auto
    from locked(3) show ?thesis
    proof (cases rule: Lock_cases)
      case 1
      with locked k d(5,6,8) assms(3) same_rowsD(2) [OF k(2)] show ?thesis
        by (auto simp: LockMediaKey_def holdsMediaKey_def list_ex_iff)
    next
      case 2
      have "key \<notin> set (heldMediaKeys (own js t))"
        using 2(1) mem_invD(2) [OF d(1), of t] by (auto simp: own_def split: option.split)
      with 2 locked k d(5,6,8) assms(3) same_rowsD [OF k(2)] show ?thesis
        by (auto simp: LockMediaKey_def holdsMediaKey_def tryLockMediaKey_def list_ex_iff same_rows_def)
    qed
  next
    case (finished u j s0)
    then have "u \<noteq> t" using assms(3) by auto
    with finished(2) obtain k where k: "js2 u = Some k" "same_rows j k" using d(4) by blast
    have ju: "touches j \<inter> K = {}" using \<open>u \<noteq> t\<close> finished(2) by (rule d(5))
    have "row_before k s2 = row_before (own js t) (store_rollback j s)"
    proof (intro ext)
      fix c i
      show "row_before k s2 c i = row_before (own js t) (store_rollback j s) c i"
      proof (cases "(c, i) \<in> K")
        case True
        then have "(c, i) \<notin> touches j" using ju by blast
        then have "prior_row (undos j) c i = None" by (simp add: touches_def)
        then show ?thesis
          using fun_cong [OF fun_cong [OF d(6), of c], of i] same_rowsD(1) [OF k(2), of c i]
          by (auto simp: row_before_def rollback_rows split: option.splits)
      next
        case False
        then show ?thesis
          using same_rowsD(1) [OF k(2), of c i] sim_rows [OF sim False]
          by (simp add: outside rollback_rows) (simp add: row_before_def split: option.split)
      qed
    qed
    note roll = this
    have rb: "row_before (own js t) s' = row_before (own js t) s0"
      using finished(3) by (intro row_before_cong) simp
    have held: "mediaKeyHeld s' = mediaKeyHeld s - set (heldMediaKeys k)"
      using finished(1,3) same_rowsD(2) [OF k(2)] by (auto simp: rollback_keys)
    have swap: "A - B - C = A - C - B" for A B C :: "string set" by auto
    from finished(1) show ?thesis
    proof
      assume "a = TxCommit u \<and> s0 = s"
      with finished(2,4) k(1) d(6,8) rb held swap show ?thesis by simp
    next
      assume "a = TxRollback u \<and> s0 = store_rollback j s"
      with finished(2,4) k(1) d(8) rb held swap roll show ?thesis by (simp add: rollback_simps)
    qed
  qed
qed

lemma sim_step:
  assumes sim: "sim K t sys sys2" and do: "mem_do a sys = Some sys'"
    and own: "tx_of a = t \<Longrightarrow> act_keys a \<subseteq> K \<and> a \<noteq> TxCommit t" and others: "tx_of a \<noteq> t \<Longrightarrow> act_keys a \<inter> K = {}"
  shows "\<exists>sys2'. mem_run (filter (\<lambda>a. tx_of a \<noteq> t) [a]) sys2 = Some sys2' \<and> sim K t sys' sys2'"
proof -
  obtain s js where sys: "sys = (s, js)" by (cases sys)
  obtain s' js' where sys': "sys' = (s', js')" by (cases sys')
  obtain s2 js2 where sys2: "sys2 = (s2, js2)" by (cases sys2)
  note simp = sys sys' sys2
  show ?thesis
  proof (cases "tx_of a = t")
    case True
    then show ?thesis using sim_own_step [OF sim [unfolded simp] do [unfolded simp] True] own simp by auto
  next
    case False
    from sim_other_step [OF sim [unfolded simp] do [unfolded simp] False others [OF False]]
    obtain s2' js2' where step: "mem_do a (s2, js2) = Some (s2', js2')" "rows s2' = row_before (own js t) s'"
      "mediaKeyHeld s2' = mediaKeyHeld s' - set (heldMediaKeys (own js t))"
      "rel_option same_rows (js' (tx_of a)) (js2' (tx_of a))"
      "\<forall>j. js' (tx_of a) = Some j \<longrightarrow> touches j \<inter> K = {}"
      "\<And>u. u \<noteq> tx_of a \<Longrightarrow> js2' u = js2 u \<and> js' u = js u" by blast
    have o: "own js' t = own js t" using step(6) [of t] False by (auto simp: own_def)
    have rel: "rel_option same_rows (js' u) (js2' u) \<and> (\<forall>j. js' u = Some j \<longrightarrow> touches j \<inter> K = {})" if "u \<noteq> t" for u
      using sim step(4-6) that simp by (cases "u = tx_of a") (auto simp: sim_def)
    have "sim K t (s', js') (s2', js2')"
      using sim mem_do_inv [OF _ do [unfolded simp]] mem_do_inv [OF _ step(1)] step(2,3) step(6) [of t] False o rel simp
      by (simp add: sim_def)
    with step(1) False simp show ?thesis by auto
  qed
qed

lemma mem_run_append: "mem_run (as @ bs) sys = (case mem_run as sys of None \<Rightarrow> None | Some sys' \<Rightarrow> mem_run bs sys')"
  by (induction as sys rule: mem_run.induct) (auto split: option.split)

lemma sim_run:
  assumes "sim K t sys sys2" "mem_run as sys = Some sys'"
    and "\<forall>a\<in>set as. if tx_of a = t then act_keys a \<subseteq> K \<and> a \<noteq> TxCommit t else act_keys a \<inter> K = {}"
  shows "\<exists>sys2'. mem_run (filter (\<lambda>a. tx_of a \<noteq> t) as) sys2 = Some sys2' \<and> sim K t sys' sys2'"
  using assms
proof (induction as arbitrary: sys sys2)
  case (Cons a as)
  from Cons.prems(2) obtain sys1 where s1: "mem_do a sys = Some sys1" "mem_run as sys1 = Some sys'"
    by (auto split: option.splits)
  have "\<exists>sys3. mem_run (filter (\<lambda>a. tx_of a \<noteq> t) [a]) sys2 = Some sys3 \<and> sim K t sys1 sys3"
    using Cons.prems(3) by (intro sim_step [OF Cons.prems(1) s1(1)]) auto
  then obtain sys3 where s3: "mem_run (filter (\<lambda>a. tx_of a \<noteq> t) [a]) sys2 = Some sys3" "sim K t sys1 sys3" by blast
  have "filter (\<lambda>a. tx_of a \<noteq> t) (a # as) = filter (\<lambda>a. tx_of a \<noteq> t) [a] @ filter (\<lambda>a. tx_of a \<noteq> t) as" by simp
  with Cons.IH [OF s3(2) s1(2)] Cons.prems(3) s3(1) show ?case by (simp only: mem_run_append) auto
qed auto

text \<open>A system without open transactions.\<close>

definition idle :: "('v, 'e) mstore \<Rightarrow> ('v, 'e) mem_sys" where
  "idle s = (s, \<lambda>_. None)"

lemma sim_start: "mem_inv sys \<Longrightarrow> snd sys t = None \<Longrightarrow> (\<And>u j. snd sys u = Some j \<Longrightarrow> touches j \<inter> K = {}) \<Longrightarrow> sim K t sys sys"
  by (auto simp: sim_def own_def same_rows_def option.rel_refl intro!: option.rel_refl)

lemma idle_inv: "mem_inv (idle s)"
  by (simp add: idle_def mem_inv_def)

lemma rollback_leaves_no_rows:
  assumes "mem_run as (idle s) = Some (s', js')" "js' t = None"
    and "\<forall>a\<in>set as. if tx_of a = t then act_keys a \<subseteq> K \<and> a \<noteq> TxCommit t else act_keys a \<inter> K = {}"
  shows "\<exists>s2 js2. mem_run (filter (\<lambda>a. tx_of a \<noteq> t) as) (idle s) = Some (s2, js2) \<and>
      rows s' = rows s2 \<and> mediaKeyHeld s' = mediaKeyHeld s2"
proof -
  have "sim K t (idle s) (idle s)" by (rule sim_start [OF idle_inv]) (simp_all add: idle_def)
  from sim_run [OF this assms(1,3)] obtain s2 js2
    where "mem_run (filter (\<lambda>a. tx_of a \<noteq> t) as) (idle s) = Some (s2, js2)" "sim K t (s', js') (s2, js2)" by auto
  moreover from this(2) assms(2) have "rows s' = rows s2 \<and> mediaKeyHeld s' = mediaKeyHeld s2"
    using simD(6,8) [of K t "(s', js')" "(s2, js2)"] by (simp add: own_def)
  ultimately show ?thesis by blast
qed

section \<open>One transaction alone\<close>

text \<open>What a use case may do to the store: journalled writes, log appends and media-key locks.\<close>

inductive journalled :: "('v, 'e) txstate \<Rightarrow> ('v, 'e) txstate \<Rightarrow> bool" for st where
  jr_refl: "journalled st st"
| jr_write: "journalled st (s, j) \<Longrightarrow> c \<noteq> collActivities \<Longrightarrow> repo_write c i v (s, Some j) = (s', Some j') \<Longrightarrow>
    journalled st (s', j')"
| jr_log: "journalled st (s, j) \<Longrightarrow> activityLog_Write es (s, Some j) = (s', Some j') \<Longrightarrow> journalled st (s', j')"
| jr_lock: "journalled st (s, j) \<Longrightarrow> LockMediaKey k (s, j) = Some (s', j') \<Longrightarrow> journalled st (s', j')"

lemma journalled_before:
  assumes "journalled st st'" "journal_wf (snd st)"
  shows "journal_wf (snd st') \<and> row_before (snd st') (fst st') = row_before (snd st) (fst st) \<and>
    log_before (snd st') (fst st') = log_before (snd st) (fst st)"
  using assms
proof (induction rule: journalled.induct)
  case (jr_write s j c i v s' j')
  then show ?case by (auto simp: repo_write_def captures write_before cap_wf)
next
  case (jr_log s j es s' j')
  then show ?case by (auto simp: activityLog_Write_def captures log_write_before cap_wf)
next
  case (jr_lock s j k s' j')
  from jr_lock(2) show ?case
  proof (cases rule: Lock_cases)
    case 2
    have "log_before (j\<lparr>heldMediaKeys := x\<rparr>) (s\<lparr>mediaKeyHeld := y\<rparr>) = log_before j s" for x y
      by (simp add: log_before_def split: option.split)
    with 2 jr_lock show ?thesis by (auto simp: journal_wf_def)
  qed (use jr_lock in auto)
qed auto

lemma rollback_restores:
  assumes "journalled (s, newUndoJournal) (s', j')"
  shows "rows (store_rollback j' s') = rows s" "activities (store_rollback j' s') = activities s"
  using journalled_before [OF assms] by (simp_all add: rollback_simps)

lemma journalled_trans: "journalled st st' \<Longrightarrow> journalled st' st'' \<Longrightarrow> journalled st st''"
proof -
  assume "journalled st' st''" and "journalled st st'"
  then show "journalled st st''" by (induction rule: journalled.induct) (blast intro: journalled.intros)+
qed

section \<open>Units of work\<close>

lemma Rollback_fst:
  "\<not> tx_done t \<Longrightarrow> tx_depth t = 0 \<Longrightarrow> tx_rollback t = [] \<Longrightarrow>
     fst (snd (snd (memTx_Rollback t (s, j)))) = fst (releaseMediaKeys (store_rollback j s, j))"
  by (simp add: memTx_Rollback_def Let_def)

lemma write_activity_journalled: "journalled st (snd (write_activity newEntry changes st))"
proof (cases "map_result newEntry changes")
  case (Inr entries)
  have "activityLog_Write entries (fst st, Some (snd st)) =
      ((fst st)\<lparr>activities := activities (fst st) @ entries\<rparr>, Some (cap_log (fst st) (snd st)))"
    by (simp add: activityLog_Write_def captures)
  moreover have "journalled st (fst st, snd st)" by (simp add: jr_refl)
  ultimately show ?thesis using Inr jr_refl jr_log by (fastforce simp: write_activity_def)
qed (simp add: write_activity_def jr_refl)

lemma run_until_error_journalled:
  "(\<And>h st. h \<in> set hs \<Longrightarrow> journalled st (snd (h st))) \<Longrightarrow> journalled st (snd (run_until_error hs st))"
proof (induction hs st rule: run_until_error.induct)
  case (2 h hs st)
  obtain e st' where h: "h st = (e, st')" by (cases "h st")
  have first: "journalled st st'" using 2(2) [of h st] h by simp
  show ?case
  proof (cases e)
    case None
    have "journalled st' (snd (run_until_error hs st'))" using 2(1) [of None st'] 2(2) h None by simp
    with first None h show ?thesis by (simp add: journalled_trans)
  qed (use first h in simp)
qed (simp add: jr_refl)

lemma uow_tx_fields [simp]:
  "\<not> tx_done (uow_tx n k d c)" "tx_depth (uow_tx n k d c) = 0" "tx_rollback (uow_tx n k d c) = []"
  "tx_post (uow_tx n k d c) = [\<lambda>st. (None, if co_events c = [] then st else d (co_events c) st)]"
  by (simp_all add: uow_tx_def OnPostCommit_def OnPreCommit_def newMemTx_def split: option.split)

lemma Commit_uow:
  "memTx_Commit (uow_tx n k d c) st =
     (case run_until_error (tx_pre (uow_tx n k d c)) st of
        (Some e, st') \<Rightarrow> (Some e, snd (memTx_Rollback (uow_tx n k d c) st'))
      | (None, st') \<Rightarrow> (None, (uow_tx n k d c)\<lparr>tx_done := True\<rparr>,
           if co_events c = [] then releaseMediaKeys st' else d (co_events c) (releaseMediaKeys st')))"
  by (auto simp: memTx_Commit_def Let_def errors_Join_def split: prod.split option.split)

lemma Execute_fn:
  assumes "fn (s, newUndoJournal) newCollector = (err, c, st)"
  shows "Execute n k d fn s =
     (case err of Some e \<Rightarrow> (Some e, fst (snd (snd (memTx_Rollback (uow_tx n k d c) st))))
      | None \<Rightarrow> (case first_err (\<lambda>check. check (fst st)) (co_checks c) of
          Some e \<Rightarrow> (Some e, fst (snd (snd (memTx_Rollback (uow_tx n k d (c\<lparr>co_checks := []\<rparr>)) st))))
        | None \<Rightarrow> (let (e, _, st) = memTx_Commit (uow_tx n k d (c\<lparr>co_checks := []\<rparr>)) st in (e, fst st))))"
  by (simp add: Execute_def assms RunChecks_def split: option.split)

text \<open>A unit of work that reports an error has changed no row and no audit entry.\<close>

lemma Execute_error:
  assumes fn: "\<And>err c st. fn (s, newUndoJournal) newCollector = (err, c, st) \<Longrightarrow> journalled (s, newUndoJournal) st"
    and sink: "\<And>w evs st. k = Some w \<Longrightarrow> journalled st (snd (w evs st))"
    and "Execute n k d fn s = (Some e, s')"
  shows "rows s' = rows s \<and> activities s' = activities s"
proof -
  obtain err c st where f: "fn (s, newUndoJournal) newCollector = (err, c, st)" by (cases "fn (s, newUndoJournal) newCollector")
  have j: "journalled (s, newUndoJournal) st" by (rule fn [OF f])
  have pre: "journalled st (snd (run_until_error (tx_pre (uow_tx n k d c)) st))" for c
    using sink write_activity_journalled
    by (intro run_until_error_journalled)
       (auto simp: uow_tx_def OnPostCommit_def OnPreCommit_def newMemTx_def jr_refl split: option.splits if_splits)
  have undone: "rows s' = rows s \<and> activities s' = activities s"
    if "journalled st st'" "s' = fst (snd (snd (memTx_Rollback (uow_tx n k d c) st')))" for st' c
    using rollback_restores [of s "fst st'" "snd st'"] journalled_trans [OF j that(1)]
      Rollback_fst [of "uow_tx n k d c" "fst st'" "snd st'"] that(2) by auto
  have commit: "rows s' = rows s \<and> activities s' = activities s"
    if "(let (e, _, st) = memTx_Commit (uow_tx n k d c) st in (e, fst st)) = (Some e, s')" for c
  proof -
    obtain e1 st1 where r: "run_until_error (tx_pre (uow_tx n k d c)) st = (e1, st1)"
      by (cases "run_until_error (tx_pre (uow_tx n k d c)) st")
    from that have "s' = fst (snd (snd (memTx_Rollback (uow_tx n k d c) st1)))"
      by (cases e1) (auto simp: Commit_uow r Let_def split: prod.splits)
    with undone pre [of c] r show ?thesis by simp
  qed
  note exec = assms(3) [unfolded Execute_fn [where fn = fn, OF f]]
  show ?thesis
  proof (cases err)
    case None
    show ?thesis
    proof (cases "first_err (\<lambda>check. check (fst st)) (co_checks c)")
      case None
      show ?thesis by (rule commit) (use exec \<open>err = None\<close> None in \<open>simp del: first_err_None\<close>)
    next
      case (Some x)
      show ?thesis
        by (rule undone [OF jr_refl, of "c\<lparr>co_checks := []\<rparr>"])
           (use exec \<open>err = None\<close> Some in \<open>simp del: first_err_None\<close>)
    qed
  next
    case (Some x)
    show ?thesis by (rule undone [OF jr_refl, of c]) (use exec Some in simp)
  qed
qed

text \<open>A unit of work that reports success ran the use case and its checks without an error, and its
  audit entries are those of the recorded changes (shown without an outbox; the subscribers then
  run on the committed store).\<close>

lemma Execute_ok:
  assumes "Execute n None d fn s = (None, s')"
  obtains c st entries where "fn (s, newUndoJournal) newCollector = (None, c, st)"
    "\<forall>check\<in>set (co_checks c). check (fst st) = None" "map_result n (co_changes c) = Inr entries"
    "\<exists>j. s' = fst (if co_events c = [] then releaseMediaKeys ((fst st)\<lparr>activities := activities (fst st) @ entries\<rparr>, j)
       else d (co_events c) (releaseMediaKeys ((fst st)\<lparr>activities := activities (fst st) @ entries\<rparr>, j)))"
proof -
  obtain err c st where f: "fn (s, newUndoJournal) newCollector = (err, c, st)"
    by (cases "fn (s, newUndoJournal) newCollector")
  note exec = assms [unfolded Execute_fn [where fn = fn, OF f]]
  have err: "err = None" using exec by (cases err) simp_all
  have none: "first_err (\<lambda>check. check (fst st)) (co_checks c) = None"
    using exec err by (cases "first_err (\<lambda>check. check (fst st)) (co_checks c)") simp_all
  then have chk: "\<forall>check\<in>set (co_checks c). check (fst st) = None" by simp
  let ?c = "c\<lparr>co_checks := []\<rparr>"
  have pre: "tx_pre (uow_tx n None d ?c) = [write_activity n (co_changes c)]"
    by (simp add: uow_tx_def OnPostCommit_def OnPreCommit_def newMemTx_def)
  from exec obtain t' st' where "memTx_Commit (uow_tx n None d ?c) st = (None, t', st')" "s' = fst st'"
    by (auto simp: err none simp del: first_err_None split: prod.splits)
  then obtain st1 where w: "write_activity n (co_changes c) st = (None, st1)"
      "s' = fst (if co_events c = [] then releaseMediaKeys st1 else d (co_events c) (releaseMediaKeys st1))"
    by (auto simp: Commit_uow pre split: prod.splits option.splits)
  then obtain entries j where "map_result n (co_changes c) = Inr entries"
      "st1 = ((fst st)\<lparr>activities := activities (fst st) @ entries\<rparr>, j)"
    by (cases st) (auto simp: write_activity_def activityLog_Write_def split: if_splits sum.splits)
  with that [OF f [unfolded err] chk] w(2) show ?thesis by metis
qed

end
