(* ===== verification/Reference_Lib.thy ===== *)
theory Reference_Lib
  imports Value_Laws
begin

text \<open>
  A concrete instance of the library record \<open>golib\<close>, with the laws that the theorems about
  values, rules and defaults assume of it. Instants are written as their nanosecond count,
  floats as fractions, JSON documents in a prefix code; two regular expressions and no URL or
  mail address are known. Theorems with hypotheses on the library are applied to this instance.
\<close>

definition read_int :: "string \<Rightarrow> int" where
  "read_int s = (case s of [] \<Rightarrow> 0
     | c # cs \<Rightarrow> if c = CHR ''-'' then - int (digits_val 0 cs) else int (digits_val 0 s))"

lemma read_int_itoa [simp]: "read_int (itoa i) = i"
proof (cases "i < 0")
  case False
  then obtain c cs where s: "nat_str (nat i) = c # cs" by (cases "nat_str (nat i)") auto
  then have "c \<noteq> CHR ''-''" using nat_str_hd [OF s] by auto
  with False s digits_val_nat_str [of "nat i"] show ?thesis by (simp add: read_int_def itoa_def)
qed (simp add: read_int_def itoa_def)

definition read_rat :: "string \<Rightarrow> rat" where
  "read_rat s =
     (let n = takeWhile (\<lambda>c. c \<noteq> CHR ''/'') s; d = drop 1 (dropWhile (\<lambda>c. c \<noteq> CHR ''/'') s)
      in if d = [] then of_int (read_int n) else of_int (read_int n) / of_int (read_int d))"

lemma read_rat_string [simp]: "read_rat (rat_string r) = r"
proof -
  obtain n d where q: "quotient_of r = (n, d)" by (cases "quotient_of r")
  have r: "r = of_int n / of_int d" by (rule quotient_of_div [OF q])
  have tw: "takeWhile (\<lambda>c. c \<noteq> CHR ''/'') (itoa n) = itoa n" "dropWhile (\<lambda>c. c \<noteq> CHR ''/'') (itoa n) = []"
    "takeWhile (\<lambda>c. c \<noteq> CHR ''/'') (itoa n @ CHR ''/'' # xs) = itoa n"
    "dropWhile (\<lambda>c. c \<noteq> CHR ''/'') (itoa n @ CHR ''/'' # xs) = CHR ''/'' # xs" for xs
    using slash_not_in_itoa [of n]
    by (auto simp: takeWhile_eq_all_conv dropWhile_eq_Nil_conv takeWhile_append dropWhile_append)
  have "itoa d \<noteq> []" by (simp add: itoa_def)
  then have "read_rat (rat_string r) = of_int n / of_int d"
    by (simp add: rat_string_def read_rat_def q tw)
  with r show ?thesis by simp
qed

lemma dot_not_in_itoa: "CHR ''.'' \<notin> set (itoa i)"
  using nat_str_digits [of "nat i"] nat_str_digits [of "nat (- i)"]
  by (auto simp: itoa_def list_all_iff)

lemma dot_not_in_rat_string: "CHR ''.'' \<notin> set (rat_string r)"
  using dot_not_in_itoa by (auto simp: rat_string_def split: prod.splits)

fun ref_float_text :: "float64 \<Rightarrow> string" where
  "ref_float_text (FFin r) = rat_string r"
| "ref_float_text FNegZero = ''-0''"
| "ref_float_text (FInf neg) = (if neg then ''-Inf'' else ''+Inf'')"
| "ref_float_text FNaN = ''NaN''"

definition ref_float_parse :: "string \<Rightarrow> float64 option" where
  "ref_float_parse s =
     (if s = ''-0'' then Some FNegZero
      else if CHR ''.'' \<in> set s then Some (FFin (rat_of_decimal s))
      else Some (FFin (read_rat s)))"

definition ref_float_x :: "float64 \<Rightarrow> string" where
  "ref_float_x f = (case f of FFin r \<Rightarrow> ''0x'' @ rat_string r | FNegZero \<Rightarrow> ''-0x0''
     | FInf neg \<Rightarrow> (if neg then ''-Inf'' else ''+Inf'') | FNaN \<Rightarrow> ''NaN'')"

text \<open>A prefix code for JSON documents.\<close>

fun code_string :: "string \<Rightarrow> string" where
  "code_string [] = ''!''"
| "code_string (c # cs) = CHR ''.'' # c # code_string cs"

fun code_json :: "json \<Rightarrow> string"
and code_list :: "json list \<Rightarrow> string"
and code_members :: "(string \<times> json) list \<Rightarrow> string" where
  "code_json JNull = ''n''"
| "code_json (JBool b) = (if b then ''t'' else ''f'')"
| "code_json (JNum s) = CHR ''#'' # code_string s"
| "code_json (JStr s) = CHR ''s'' # code_string s"
| "code_json (JArr xs) = CHR ''['' # code_list xs"
| "code_json (JObj kvs) = CHR ''{'' # code_members kvs"
| "code_list [] = '']''"
| "code_list (x # xs) = CHR '','' # code_json x @ code_list xs"
| "code_members [] = ''}''"
| "code_members ((k, x) # kvs) = CHR '','' # code_string k @ code_json x @ code_members kvs"

fun code_raw :: "rawmsg \<Rightarrow> string" where
  "code_raw RawNil = []"
| "code_raw RawInvalid = ''?''"
| "code_raw (Raw j) = code_json j"

lemma code_string_prefix: "code_string s @ xs = code_string t @ ys \<Longrightarrow> s = t \<and> xs = ys"
proof (induction s arbitrary: t)
  case Nil
  then show ?case by (cases t) auto
next
  case (Cons c s)
  then show ?case by (cases t) auto
qed

lemma code_prefix:
  "code_json j @ xs = code_json k @ ys \<Longrightarrow> j = k \<and> xs = ys"
  "code_list js @ xs = code_list ks @ ys \<Longrightarrow> js = ks \<and> xs = ys"
  "code_members kvs @ xs = code_members lvs @ ys \<Longrightarrow> kvs = lvs \<and> xs = ys"
proof (induction j and js and kvs arbitrary: k xs ys and ks xs ys and lvs xs ys
    rule: code_json_code_list_code_members.induct)
  case (3 s)
  then obtain t where "k = JNum t" "code_string s @ xs = code_string t @ ys"
    by (cases k) (simp_all split: if_splits)
  then show ?case using code_string_prefix by blast
next
  case (4 s)
  then obtain t where "k = JStr t" "code_string s @ xs = code_string t @ ys"
    by (cases k) (simp_all split: if_splits)
  then show ?case using code_string_prefix by blast
next
  case (8 x js)
  from "8.prems" obtain y ls where ks: "ks = y # ls" by (cases ks) auto
  with "8.prems" have "code_json x @ (code_list js @ xs) = code_json y @ (code_list ls @ ys)" by simp
  from "8.IH"(1) [OF this] "8.IH"(2) [of xs ls ys] ks show ?case by simp
next
  case (10 k x kvs)
  from "10.prems" obtain l y ls where ls: "lvs = (l, y) # ls" by (cases lvs) auto
  with "10.prems" have "code_string k @ (code_json x @ code_members kvs @ xs) =
      code_string l @ (code_json y @ code_members ls @ ys)" by simp
  note step = code_string_prefix [OF this]
  then have "code_json x @ (code_members kvs @ xs) = code_json y @ (code_members ls @ ys)" by simp
  from "10.IH"(1) [OF this] "10.IH"(2) [of xs ls ys] step ls show ?case by simp
next
  case (5 js)
  from "5.prems" obtain ks where "k = JArr ks" "code_list js @ xs = code_list ks @ ys"
    by (cases k) (simp_all split: if_splits)
  with "5.IH" show ?case by blast
next
  case (6 kvs)
  from "6.prems" obtain lvs where "k = JObj lvs" "code_members kvs @ xs = code_members lvs @ ys"
    by (cases k) (simp_all split: if_splits)
  with "6.IH" show ?case by blast
next
  case 1 then show ?case by (cases k) (simp_all split: if_splits)
next
  case (2 b) then show ?case by (cases k) (simp_all split: if_splits)
next
  case 7 then show ?case by (cases ks) auto
next
  case 9 then show ?case by (cases lvs) auto
qed

lemma code_raw_inj: "code_raw a = code_raw b \<Longrightarrow> a = b"
proof -
  assume eq: "code_raw a = code_raw b"
  have ne: "code_json j \<noteq> []" "code_json j \<noteq> ''?''" for j by (cases j; simp)+
  show ?thesis
  proof (cases a)
    case (Raw j)
    with eq ne show ?thesis using code_prefix(1) [of j "[]" _ "[]"] by (cases b) auto
  qed (use eq ne in \<open>cases b; metis code_raw.simps list.distinct(1)\<close>)+
qed

definition word_expr :: string where "word_expr = ''[a-z]+''"

definition ref_regexp :: "string \<Rightarrow> (string \<Rightarrow> bool) option" where
  "ref_regexp e =
     (if e = word_expr then Some (list_ex is_lower)
      else if e = [CHR 0x5C] @ ''A(?:'' @ word_expr @ '')'' @ [CHR 0x5C] @ ''z''
        then Some (\<lambda>s. s \<noteq> [] \<and> list_all is_lower s)
      else None)"

definition ref_lib :: golib where
  "ref_lib = \<lparr>re_compile = ref_regexp, url_parse = (\<lambda>_. None), mail_parse = (\<lambda>_. None),
     time_parse = (\<lambda>_ s. Some (read_int s)), time_format = (\<lambda>_. itoa),
     float_parse = ref_float_parse, float_json = ref_float_text, float_g = ref_float_text,
     float_x = ref_float_x, json_bytes = code_raw, rat_other = (\<lambda>_. None)\<rparr>"

lemma ref_float_round: "f_finite f \<Longrightarrow> ref_float_text f \<noteq> [] \<and> ref_float_parse (ref_float_text f) = Some f"
proof (cases f)
  case (FFin r)
  have "rat_string r \<noteq> ''-0''"
  proof
    assume "rat_string r = ''-0''"
    then have "r = 0" using read_rat_string [of r] by (simp add: read_rat_def read_int_def digit_val_def)
    then show False using \<open>rat_string r = ''-0''\<close> by (simp add: rat_string_def itoa_def nat_str.simps digit_char_def)
  qed
  moreover have "rat_string r \<noteq> []" by (auto simp: rat_string_def itoa_def split: prod.splits)
  ultimately show ?thesis using FFin dot_not_in_rat_string by (simp add: ref_float_parse_def)
qed (auto simp: ref_float_parse_def f_finite_def)

lemma ref_float_x_inj: "ref_float_x f = ref_float_x g \<Longrightarrow> f = g"
  by (cases f; cases g) (auto simp: ref_float_x_def rat_string_inj split: if_splits)

lemma ref_lib_laws [simp]:
  "float_parse_finite ref_lib" "float_json_round ref_lib" "float_x_exact ref_lib" "rfc3339_exact ref_lib"
  "json_bytes_exact ref_lib" "time_round ref_lib" "float_parse_total ref_lib"
proof -
  show "float_parse_finite ref_lib"
    by (auto simp: float_parse_finite_def ref_lib_def ref_float_parse_def f_finite_def split: if_splits)
  show "float_json_round ref_lib"
    using ref_float_round by (simp add: float_json_round_def ref_lib_def)
  show "float_x_exact ref_lib"
  proof -
    have "ref_float_x f \<noteq> ''0''" for f by (cases f) (simp_all add: ref_float_x_def)
    moreover have "float_x ref_lib = ref_float_x" by (simp add: ref_lib_def)
    ultimately show ?thesis unfolding float_x_exact_def using ref_float_x_inj by metis
  qed
  show "rfc3339_exact ref_lib" by (simp add: rfc3339_exact_def ref_lib_def itoa_inj)
  show "json_bytes_exact ref_lib" unfolding json_bytes_exact_def ref_lib_def by (simp, blast intro: code_raw_inj)
  show "time_round ref_lib" by (simp add: time_round_def ref_lib_def)
  show "float_parse_total ref_lib" by (simp add: float_parse_total_def ref_lib_def ref_float_parse_def)
qed

end
