(* ===== verification/Reference_Data.thy ===== *)
theory Reference_Data
  imports Query_Views Attr_Tree Mem_Store Reference_Lib
begin

text \<open>
  Concrete inputs on which the properties are evaluated: an identifier codec, an enum attribute, a
  chain of types, a relationship definition and a change-set, each built by the operations of the
  model on \<open>ref_lib\<close>.
\<close>

section \<open>Identifiers\<close>

definition ref_parse :: "string \<Rightarrow> ulid result" where
  "ref_parse s = (if s \<noteq> [] \<and> list_all is_digit s then Inr (digits_val 0 s) else Inl (PlainErr ''parse ulid''))"

definition ref_id :: "ulid \<Rightarrow> string" where "ref_id i = nat_str i"

lemma ref_id_laws [simp]: "inj ref_id" "ref_parse (ref_id i) = Inr i"
  using nat_str_inj by (auto simp: ref_id_def ref_parse_def inj_def nat_str_digits)

section \<open>An attribute\<close>

definition red :: gvalue where "red = NewEnumValue ''red''"
definition blue :: gvalue where "blue = NewEnumValue ''blue''"

definition ref_attr_input :: AttrNewInput where
  "ref_attr_input =
     \<lparr>an_TenantID = ''acme'', an_TypeDefinitionID = 1, an_InternalName = ''colour'', an_DisplayName = ''Colour'',
      an_Description = [], an_DataType = DataTypeEnum, an_Required = True, an_MultiValued = False, an_Unique = False,
      an_Localizable = False, an_Scopable = False, an_UnitFamilyID = [], an_DisplayUnit = [], an_Computed = None,
      an_Constraints = [OneOf [red, blue]], an_DefaultValue = Some \<lparr>Static = Some red, def_Dynamic = None\<rparr>,
      an_Group = [], an_SortOrder = 0, an_HelpText = []\<rparr>"

definition ref_attr :: AttributeDefinition where
  "ref_attr =
     \<lparr>ad_id = 5, ad_tenantID = ''acme'', ad_typeDefinitionID = 1, ad_internalName = ''colour'', ad_displayName = ''Colour'',
      ad_description = [], ad_dataType = DataTypeEnum, ad_required = True, ad_multiValued = False, ad_unique = False,
      ad_localizable = False, ad_scopable = False, ad_unitFamilyID = [], ad_displayUnit = [], ad_computed = None,
      ad_constraints = [OneOf [red, blue]], ad_defaultValue = Some \<lparr>Static = Some red, def_Dynamic = None\<rparr>,
      ad_group = [], ad_sortOrder = 0, ad_helpText = [], ad_version = 1, ad_createdAt = 0, ad_updatedAt = 0,
      ad_archivedAt = None\<rparr>"

lemma colours [simp]: "wf_value ref_lib red" "wf_value ref_lib blue" "dataType red = DataTypeEnum" "dataType blue = DataTypeEnum"
    "\<not> IsZero red" "Equal lib red red"
  by (simp_all add: red_def blue_def IsZero_def Equal_def)

lemma ref_attr_reachable: "attr_reachable ref_lib ref_attr"
proof (rule attr_created)
  have "internalNamePattern ''colour''" "ParseDataType (dt_String DataTypeEnum) = Inr DataTypeEnum" by code_simp+
  moreover have "Constraints_Validate ref_lib [OneOf [red, blue]] DataTypeEnum = None"
      "Constraints_Check ref_lib [OneOf [red, blue]] red = None"
    by (simp_all add: Constraints_Validate_None Constraints_Check_def)
  then have "validateRules ref_lib DataTypeEnum False False [OneOf [red, blue]]
      (Some \<lparr>Static = Some red, def_Dynamic = None\<rparr>) None = None"
    by (simp add: validateRules_def hasOneOf_def def_Validate_def)
  ultimately show "attr_New ref_lib ref_attr_input 5 0 =
      Inr (ref_attr, [AttrCreated 5 ''acme'' 1 ''colour'' ''Colour'' DataTypeEnum True 0])"
    by (simp add: attr_New_def ref_attr_input_def ref_attr_def id_IsZero_def computed_err_def Let_def)
qed code_simp

section \<open>A chain of types\<close>

fun type_chain :: "nat \<Rightarrow> type_store result" where
  "type_chain 0 = Inr []"
| "type_chain (Suc n) =
     (case type_chain n of Inl e \<Rightarrow> Inl e
      | Inr s \<Rightarrow> (case TypeCreate ref_parse s ''acme'' \<lparr>tc_InternalName = CHR ''t'' # nat_str n, tc_DisplayName = ''T'',
            tc_Description = [], tc_ExtendsID = (if n = 0 then [] else ref_id n)\<rparr> (Suc n) 0 of
          Inl e \<Rightarrow> Inl e | Inr (s', _, _) \<Rightarrow> Inr s'))"

lemma type_chain_reachable:
  "type_chain n = Inr s \<Longrightarrow> types_reachable ref_parse s \<and> ts_ID ` set s \<subseteq> {1..n}"
proof (induction n arbitrary: s)
  case (Suc n)
  then obtain s0 snap evts i where s0: "type_chain n = Inr s0"
      and step: "TypeCreate ref_parse s0 ''acme'' i (Suc n) 0 = Inr (s, snap, evts)"
    by (auto split: sum.splits)
  from Suc.IH [OF s0] have r: "types_reachable ref_parse s0" and ids: "ts_ID ` set s0 \<subseteq> {1..n}" by simp_all
  have "Suc n \<notin> ts_ID ` set s0" using ids by auto
  from types_create [OF r this step] have "types_reachable ref_parse s" .
  moreover have "s = put_snapshot snap s0 \<and> ts_ID snap = Suc n"
    using step by (auto simp: TypeCreate_def type_New_def typeDefRepo_Save_def type_Snapshot_def Let_def
        split: sum.splits if_splits option.splits)
  ultimately show ?case using ids by (auto simp: put_snapshot_ids)
qed (simp add: types_empty)

text \<open>Ten types are created one below the other, and the eleventh is accepted too.\<close>

lemma deep_chain: "\<exists>s x. type_chain 11 = Inr s \<and> x \<in> set s \<and>
    Ancestors (typeDefRepo_Get s) (type_Rehydrate x) = Inl (NewValidation ''type hierarchy exceeds the supported depth'')"
proof -
  have "(case type_chain 11 of Inl _ \<Rightarrow> False | Inr s \<Rightarrow> s \<noteq> [] \<and>
      (case Ancestors (typeDefRepo_Get s) (type_Rehydrate (last s)) of
         Inl e \<Rightarrow> e = NewValidation ''type hierarchy exceeds the supported depth'' | Inr _ \<Rightarrow> False))"
    by code_simp
  then show ?thesis by (auto split: sum.splits dest: last_in_set)
qed

section \<open>A dependency\<close>

definition ref_cond :: Condition where
  "ref_cond =
     \<lparr>cond_Kind = CondEquals, cond_Value = Some red, cond_Values = [], cond_Min = None, cond_Max = None,
      cond_MinExclusive = False, cond_MaxExclusive = False, cond_Pattern = [], cond_PatternSubstring = False,
      cond_Dynamic = None, cond_Op = DynamicOpOther [], cond_ContextKey = [], cond_ContextType = NoType\<rparr>"

definition ref_target :: AttributeDefinition where "ref_target = ref_attr\<lparr>ad_id := 6\<rparr>"

definition ref_dep :: Dependency where
  "ref_dep =
     \<lparr>dep_id = 9, dep_tenantID = ''acme'', dep_sourceID = 5, dep_targetID = 6, dep_conditions = [ref_cond],
      dep_effect = \<lparr>eff_AllowedValues = [blue], eff_Constraints = [], eff_Required = None, eff_Enforce = DefaultEnforcement\<rparr>,
      dep_description = [], dep_version = 1, dep_createdAt = 0, dep_updatedAt = 0, dep_archivedAt = None\<rparr>"

lemma ref_cond_ok [simp]: "cond_subject ref_cond DataTypeEnum = Inr DataTypeEnum" "wf_condition ref_lib ref_cond"
    "cond_Validate ref_lib ref_cond DataTypeEnum = None" "cond_Kind ref_cond = CondEquals"
  by (simp_all add: cond_Validate_def ref_cond_def cond_subject_def wf_condition_def)

lemma ref_dep_sound [simp]: "sound_rule ref_lib DataTypeEnum ref_dep" "wf_effect ref_lib (dep_effect ref_dep)"
  by (simp_all add: sound_rule_def ref_dep_def wf_effect_def)

lemma ref_dep_applies: "dep_applies ref_lib ref_target (\<lambda>_. [red]) ctx now ref_dep = Inr True"
  by (simp add: dep_applies_def ref_dep_def ref_target_def dep_IsArchived_def MatchesAnyWithContext_def
      dep_matches_def cond_applies_def cond_Matches_def ref_cond_def)

section \<open>A relationship\<close>

definition ref_reldef :: RelDefSnapshot where
  "ref_reldef =
     \<lparr>rds_ID = 20, rds_TenantID = ''acme'', rds_InternalName = ''owns'', rds_DisplayName = ''owns'', rds_Description = [],
      rds_Kind = KindDirected, rds_ParentTypeID = 1, rds_ChildTypeID = 2, rds_ParentLabel = [], rds_ChildLabel = [],
      rds_AttributeSetID = 3, rds_ExtendsID = None, rds_ParentVersionPolicy = PolicyLatest,
      rds_ChildVersionPolicy = PolicyLatest, rds_MinChildren = None, rds_MaxChildren = Some 1, rds_MinParents = None,
      rds_MaxParents = None, rds_Version = 1, rds_CreatedAt = 0, rds_UpdatedAt = 0, rds_ArchivedAt = None\<rparr>"

definition ref_link_args :: "string \<Rightarrow> LinkArgs" where
  "ref_link_args child = \<lparr>la_DefinitionID = ''20'', la_ParentEntity = ''a'', la_ChildEntity = child,
     la_ParentVersion = None, la_ChildVersion = None\<rparr>"

lemma ref_links: "\<exists>s. links_reachable ref_parse [ref_reldef] s \<and> s \<noteq> []"
proof -
  have "case LinkEntities ref_parse [ref_reldef] [] ''acme'' (ref_link_args ''b'') 30 0 of
      Inl _ \<Rightarrow> False | Inr (s, _, _) \<Rightarrow> s \<noteq> []"
    by code_simp
  then obtain s snap evts where "LinkEntities ref_parse [ref_reldef] [] ''acme'' (ref_link_args ''b'') 30 0 = Inr (s, snap, evts)"
      "s \<noteq> []" by (auto split: sum.splits)
  with links_link [OF links_empty _ this(1)] show ?thesis by auto
qed

section \<open>A change-set\<close>

definition ref_mutation :: Mutation where
  "ref_mutation = zero_mutation\<lparr>mu_Kind := MutationSet, mu_AttributeDefinitionID := ''5'', mu_EntityID := ''e1'',
     mu_Value := Raw (JStr ''blue'')\<rparr>"

definition ref_draft :: "Mutation list ChangeSet" where
  "ref_draft =
     \<lparr>cs_ID = 40, cs_TenantID = ''acme'', cs_Name = ''spring'', cs_State = StateDraft, cs_RequireApproval = True,
      cs_Author = ''alice'', cs_Approver = [], cs_Mutations = [], cs_PublishAt = None, cs_CreatedAt = 0,
      cs_UpdatedAt = 0, cs_PublishedAt = None, cs_Version = 1\<rparr>"

definition ref_filled :: "Mutation list ChangeSet" where
  "ref_filled = ref_draft\<lparr>cs_Mutations := [ref_mutation], cs_UpdatedAt := 1, cs_Version := 2\<rparr>"

definition ref_review :: "Mutation list ChangeSet" where
  "ref_review = ref_filled\<lparr>cs_State := StateInReview, cs_UpdatedAt := 2, cs_Version := 3\<rparr>"

definition ref_approved :: "Mutation list ChangeSet" where
  "ref_approved = ref_review\<lparr>cs_State := StateApproved, cs_Approver := ''bob'', cs_UpdatedAt := 3, cs_Version := 4\<rparr>"

definition ref_claimed :: "Mutation list ChangeSet" where
  "ref_claimed = ref_approved\<lparr>cs_State := StatePublishing, cs_UpdatedAt := 5, cs_Version := 5\<rparr>"

definition ref_published :: "Mutation list ChangeSet" where
  "ref_published = ref_claimed\<lparr>cs_State := StatePublished, cs_PublishedAt := Some 6, cs_UpdatedAt := 6, cs_Version := 6\<rparr>"

definition ref_attrs :: attr_store where "ref_attrs = [attr_Snapshot ref_attr]"

text \<open>Live data as the log of applied mutations.\<close>

definition ref_apply :: "Mutation list applier" where "ref_apply tenant ms w = Inr (w @ ms)"

abbreviation ref_reaches :: "Mutation list cs_sys \<Rightarrow> Mutation list cs_sys \<Rightarrow> bool" where
  "ref_reaches \<equiv> cs_reaches ref_parse ref_id (attrRepo_GetMany ref_attrs) ref_apply"

lemma ref_calls:
  "cs_Create [] ''acme'' ''alice'' (''spring'', True, None) 40 0 = Inr ([ref_draft], ref_draft)"
  "mutate ref_parse [ref_draft] ''acme'' ''40''
     (edit_fn ref_parse ref_id (attrRepo_GetMany ref_attrs) (EditAdd SystemAccess ref_mutation)) 1 = Inr ([ref_filled], ref_filled)"
  "mutate ref_parse [ref_filled] ''acme'' ''40''
     (edit_fn ref_parse ref_id (attrRepo_GetMany ref_attrs) EditSubmit) 2 = Inr ([ref_review], ref_review)"
  "mutate ref_parse [ref_review] ''acme'' ''40''
     (edit_fn ref_parse ref_id (attrRepo_GetMany ref_attrs) (EditApprove ''bob'')) 3 = Inr ([ref_approved], ref_approved)"
  "changesetStore_Get [ref_approved] ''acme'' 40 = Inr ref_approved"
  "publish_claim [ref_approved] ref_approved 4 5 = Inr ([ref_claimed], ref_claimed)"
  "publish ref_apply [ref_approved] [] ref_approved (4, 5, 6) = ([ref_published], [ref_mutation], ref_published, None)"
  by code_simp+

lemma ref_draft_run: "\<exists>x. ref_reaches (cs_init []) x \<and> sys_store x = [ref_draft] \<and> sys_live x = []"
proof -
  have "ref_reaches (cs_init []) (cs_init []\<lparr>sys_store := [ref_draft]\<rparr>)"
    by (rule create_runs) (use ref_calls(1) in \<open>simp_all add: cs_init_def cs_find_def\<close>)
  then show ?thesis by (force simp: cs_init_def)
qed

lemma ref_approved_run: "\<exists>x. ref_reaches (cs_init []) x \<and> sys_store x = [ref_approved] \<and> sys_live x = []"
proof -
  have step: "\<exists>y. ref_reaches (cs_init []) y \<and> sys_store y = s' \<and> sys_live y = []"
    if "\<exists>x. ref_reaches (cs_init []) x \<and> sys_store x = s \<and> sys_live x = []"
      and "mutate ref_parse s ''acme'' ''40'' (edit_fn ref_parse ref_id (attrRepo_GetMany ref_attrs) e) now = Inr (s', d)"
    for s s' e now d
  proof -
    from that(1) obtain x where x: "ref_reaches (cs_init []) x" "sys_store x = s" "sys_live x = []" by blast
    from mutate_runs [of ref_parse x "''acme''" "''40''" ref_id "attrRepo_GetMany ref_attrs" e now s' d ref_apply] that(2) x(2)
    obtain y where "ref_reaches x y" "sys_store y = s'" "sys_live y = sys_live x" by auto
    with rtranclp_trans [OF x(1)] x(3) show ?thesis by auto
  qed
  show ?thesis
    by (rule step [OF step [OF step [OF ref_draft_run ref_calls(2)] ref_calls(3)] ref_calls(4)])
qed

lemma ref_published_run: "\<exists>x. ref_reaches (cs_init []) x \<and> sys_store x = [ref_published] \<and> sys_live x = [ref_mutation]"
proof -
  from ref_approved_run obtain x where x: "ref_reaches (cs_init []) x" "sys_store x = [ref_approved]" "sys_live x = []" by blast
  from publish_runs [of x "''acme''" 40 ref_approved ref_apply 4 5 6 "[ref_published]" "[ref_mutation]" ref_published None
      ref_parse ref_id "attrRepo_GetMany ref_attrs"] ref_calls(5,7) x
  obtain y where "ref_reaches x y" "sys_store y = [ref_published]" "sys_live y = [ref_mutation]" by auto
  with rtranclp_trans [OF x(1)] show ?thesis by auto
qed

lemma ref_claimed_run:
  "\<exists>x. ref_reaches (cs_init []) x \<and> sys_store x = [ref_claimed] \<and> ref_approved \<in> sys_reads x"
proof -
  from ref_approved_run obtain x where x: "ref_reaches (cs_init []) x" "sys_store x = [ref_approved]" by blast
  let ?y = "x\<lparr>sys_reads := insert ref_approved (sys_reads x)\<rparr>"
  have y: "ref_reaches (cs_init []) ?y" by (rule read_runs [OF x(1), where tenant = "''acme''" and k = 40]) (use x(2) ref_calls(5) in simp)
  have "cs_step ref_parse ref_id (attrRepo_GetMany ref_attrs) ref_apply ?y
      (?y\<lparr>sys_store := [ref_claimed], sys_claims := insert (ref_approved, ref_claimed, Claimed) (sys_claims ?y)\<rparr>)"
    using step_claim [of ref_approved ?y 4 5 "[ref_claimed]" ref_claimed] x(2) ref_calls(6) by simp
  from rtranclp.rtrancl_into_rtrancl [OF y this] show ?thesis by force
qed

lemma ref_read_run: "\<exists>x. ref_reaches (cs_init []) x \<and> sys_store x = [ref_draft] \<and> ref_draft \<in> sys_reads x"
proof -
  from ref_draft_run obtain x where x: "ref_reaches (cs_init []) x" "sys_store x = [ref_draft]" by blast
  have "changesetStore_Get (sys_store x) ''acme'' 40 = Inr ref_draft"
    unfolding x(2) by code_simp
  from read_runs [OF x(1) this] x(2) show ?thesis by force
qed

section \<open>Stored values\<close>

text \<open>Two attributes of one type; a dependency demands a shade of every red entity.\<close>

definition ref_types :: type_store where
  "ref_types = [\<lparr>ts_ID = 1, ts_TenantID = ''acme'', ts_Kind = KindEntity, ts_InternalName = ''car'', ts_DisplayName = ''Car'',
     ts_Description = [], ts_ExtendsID = None, ts_Version = 1, ts_CreatedAt = 0, ts_UpdatedAt = 0, ts_ArchivedAt = None\<rparr>]"

definition ref_demand :: Dependency where
  "ref_demand = ref_dep\<lparr>dep_effect := \<lparr>eff_AllowedValues = [], eff_Constraints = [], eff_Required = Some True, eff_Enforce = EnforceOnWrite\<rparr>\<rparr>"

definition ref_repos :: vrepos where
  "ref_repos = \<lparr>rp_types = ref_types, rp_attrs = [attr_Snapshot ref_attr, attr_Snapshot ref_target], rp_deps = [ref_demand]\<rparr>"

text \<open>A cursor codec that is exact on keys of one column, such as an entity identifier.\<close>

definition ref_klib :: keyset_lib where
  "ref_klib = \<lparr>ks_encode = (\<lambda>vs. CHR ''k'' # concat vs), ks_decode = (\<lambda>c. case c of [] \<Rightarrow> None | _ # e \<Rightarrow> Some [e]),
     ks_time = (\<lambda>_ _. False), ks_float = (\<lambda>_. False)\<rparr>"

definition ref_cx :: "nat \<Rightarrow> vctx" where
  "ref_cx n = \<lparr>cx_lib = ref_lib, cx_klib = ref_klib, cx_parseID = ref_parse, cx_idString = ref_id, cx_tenant = ''acme'',
     cx_access = SystemAccess, cx_facts = [], cx_localNow = at_utc 0, cx_clock = int, cx_newID = (\<lambda>k. n + k),
     cx_units = None, cx_formatF = (\<lambda>_. []), cx_blobOpen = None\<rparr>"

definition ref_set :: "string \<Rightarrow> string \<Rightarrow> SetInput" where
  "ref_set attr v = \<lparr>si_AttributeDefinitionID = attr, si_EntityID = ''e1'', si_TypeDefinitionID = [], si_Locale = [],
     si_Channel = [], si_Value = Raw (JStr v), si_Internal = False, si_fromUpload = False\<rparr>"

definition ref_row :: "ulid \<Rightarrow> ulid \<Rightarrow> gvalue \<Rightarrow> ValueSnapshot" where
  "ref_row i attr v = \<lparr>vs_ID = i, vs_TenantID = ''acme'', vs_TypeDefinitionID = 1, vs_AttributeDefinitionID = attr, vs_EntityID = ''e1'',
     vs_Locale = [], vs_Channel = [], vs_Value = v, vs_DefinitionVersion = 1, vs_CreatedAt = 0, vs_UpdatedAt = 0, vs_ArchivedAt = None\<rparr>"

lemma ref_fresh [simp]: "ids_fresh (ref_cx n) s \<longleftrightarrow> (\<forall>x\<in>set s. vs_ID x < n)"
  by (auto simp: ids_fresh_def ref_cx_def inj_def disjoint_iff image_iff) (metis le_add_diff_inverse not_le)

lemma ref_writes:
  "case value_Set (ref_cx 100) ref_repos [] (ref_set ''6'' ''blue'') of Inl _ \<Rightarrow> False
   | Inr (t, snap) \<Rightarrow> vt_values t = [ref_row 100 6 blue]"
  "case value_Set (ref_cx 200) ref_repos [ref_row 100 6 blue] (ref_set ''5'' ''red'') of Inl _ \<Rightarrow> False
   | Inr (t, snap) \<Rightarrow> vt_values t = [ref_row 100 6 blue, ref_row 200 5 red] \<and> snap = ref_row 200 5 red"
  by code_simp+

lemma ref_cx_simps [simp]: "cx_lib (ref_cx n) = ref_lib" "cx_tenant (ref_cx n) = ''acme''" "Admin (cx_access (ref_cx n))"
  by (simp_all add: ref_cx_def SystemAccess_def)

lemma ref_row_id [simp]: "vs_ID (ref_row i a v) = i"
  by (simp add: ref_row_def)

lemma ref_stores:
  "store_reachable ref_lib (rp_attrs ref_repos) [ref_row 100 6 blue]"
  "store_reachable ref_lib (rp_attrs ref_repos) [ref_row 100 6 blue, ref_row 200 5 red]"
proof -
  from ref_writes(1) obtain t snap where "value_Set (ref_cx 100) ref_repos [] (ref_set ''6'' ''blue'') = Inr (t, snap)"
      "vt_values t = [ref_row 100 6 blue]" by (auto split: sum.splits)
  from store_call [OF store_empty _ _ call_Set [OF this(1)]] this(2)
  show one: "store_reachable ref_lib (rp_attrs ref_repos) [ref_row 100 6 blue]" by simp
  from ref_writes(2) obtain t snap where "value_Set (ref_cx 200) ref_repos [ref_row 100 6 blue] (ref_set ''5'' ''red'') = Inr (t, snap)"
      "vt_values t = [ref_row 100 6 blue, ref_row 200 5 red]" by (auto split: sum.splits)
  from store_call [OF one _ _ call_Set [OF this(1)]] this(2)
  show "store_reachable ref_lib (rp_attrs ref_repos) [ref_row 100 6 blue, ref_row 200 5 red]" by simp
qed

text \<open>The same data with the type archived and the first attribute computed.\<close>

definition ref_total :: AttributeDefinition where
  "ref_total = ref_attr\<lparr>ad_computed := Some \<lparr>co_Kind = ComputedFormula, co_Formula = ''1'', co_Rollup = None\<rparr>\<rparr>"

definition ref_old_type :: TypeDefinition where
  "ref_old_type = type_Rehydrate ((hd ref_types)\<lparr>ts_ArchivedAt := Some 3\<rparr>)"

definition ref_retired :: vrepos where
  "ref_retired = \<lparr>rp_types = [(hd ref_types)\<lparr>ts_ArchivedAt := Some 3\<rparr>], rp_attrs = [attr_Snapshot ref_total], rp_deps = []\<rparr>"

section \<open>A query\<close>

text \<open>A second attribute, the owner, which the principal may not read.\<close>

definition ref_text :: textlib where
  "ref_text = \<lparr>ul_ToLower = ascii_lower, ul_EqualFold = (\<lambda>s t. ascii_lower s = ascii_lower t),
     ul_wordRune = (\<lambda>r. case r of [c] \<Rightarrow> is_digit (char_of c) \<or> is_letter (char_of c) | _ \<Rightarrow> False)\<rparr>"

definition ref_owner :: AttributeDefinition where
  "ref_owner = ref_attr\<lparr>ad_id := 7, ad_internalName := ''owner'', ad_dataType := DataTypeString, ad_constraints := [], ad_defaultValue := None\<rparr>"

definition ref_query_repos :: vrepos where
  "ref_query_repos = \<lparr>rp_types = ref_types, rp_attrs = [attr_Snapshot ref_attr, attr_Snapshot ref_owner], rp_deps = []\<rparr>"

definition ref_guest :: vctx where
  "ref_guest = (ref_cx 300)\<lparr>cx_access := \<lparr>Admin = False, Attr = [(''owner'', PermNone)], DefaultPerm = PermUnset\<rparr>\<rparr>"

definition ref_rows :: "string \<Rightarrow> value_store" where
  "ref_rows owner = [ref_row 200 5 red, ref_row 201 7 (NewStringValue owner)]"

definition ref_db :: "string \<Rightarrow> qdb" where
  "ref_db owner = \<lparr>db_values = ref_rows owner, db_rels = [],
     db_docs = (case Rebuild ref_lib ref_id (rp_attrs ref_query_repos) (ref_rows owner) (\<lambda>_. None) ''acme'' 1 ''e1'' of
        Inl _ \<Rightarrow> (\<lambda>_. None) | Inr docs \<Rightarrow> docs)\<rparr>"

definition ref_query :: "string \<Rightarrow> ExecuteInput" where
  "ref_query q = \<lparr>ei_Type = ''car'', ei_Query = q, ei_Page = \<lparr>pa_Limit = None, pa_Cursor = None, pa_WantTotal = False\<rparr>,
     ei_Scope = \<lparr>Locale = [], Channel = []\<rparr>, ei_Stable = True\<rparr>"

lemma ref_twins: "twins ref_lib ref_id (cx_access ref_guest) (rp_attrs ref_query_repos) (ref_db ''ann'') (ref_db ''bob'')"
proof -
  let ?attrs = "rp_attrs ref_query_repos" and ?acc = "cx_access ref_guest"
  have bob: "ref_rows ''bob'' = rewrite_hidden ?acc ?attrs (\<lambda>_. NewStringValue ''bob'') (ref_rows ''ann'')"
    by code_simp
  obtain d e where de: "Rebuild ref_lib ref_id ?attrs (ref_rows ''ann'') (\<lambda>_. None) ''acme'' 1 ''e1'' = Inr d"
    "Rebuild ref_lib ref_id ?attrs (ref_rows ''bob'') (\<lambda>_. None) ''acme'' 1 ''e1'' = Inr e"
    using Rebuild_total [of ref_lib ref_id ?attrs "ref_rows _" "\<lambda>_. None" "''acme''" 1 "''e1''"] by metis
  have "\<forall>x\<in>set (ref_rows ''ann''). vs_AttributeDefinitionID x \<in> as_ID ` set ?attrs" by code_simp
  from twins_write [OF twins_start [OF refl] this, of ref_lib ref_id ?acc "[]" "\<lambda>_. NewStringValue ''bob''"]
  have "twins ref_lib ref_id ?acc ?attrs \<lparr>db_values = ref_rows ''ann'', db_rels = [], db_docs = (\<lambda>_. None)\<rparr>
      \<lparr>db_values = ref_rows ''bob'', db_rels = [], db_docs = (\<lambda>_. None)\<rparr>" by (simp add: bob)
  from twins_index [OF this, of "''acme''" 1 "''e1''" d e] de show ?thesis by (simp add: ref_db_def)
qed

lemma ref_found:
  "query_Execute ref_guest ref_text (\<lambda>_. []) ref_query_repos [] True (ref_db owner) (ref_query ''colour = red and matches('red')'') =
     Inr ([\<lparr>rr_EntityID = ''e1'', rr_TypeDefinitionID = ''1'', rr_ValueCount = 2, rr_LastUpdatedAt = 0\<rparr>],
       \<lparr>HasNextPage = False, HasPreviousPage = False, NextCursor = None, TotalCount = None\<rparr>)"
  by code_simp

text \<open>The database satisfies the hypotheses of evaluation.\<close>

lemma ref_db_ok: "db_ok ref_lib (rp_attrs ref_query_repos) (ref_db ''ann'')"
proof -
  have get: "attrRepo_Get (rp_attrs ref_query_repos) 5 = Inr ref_attr" "attrRepo_Get (rp_attrs ref_query_repos) 7 = Inr ref_owner"
    by (simp_all add: ref_query_repos_def attrRepo_Get_def attr_snapshot_round) (simp_all add: attr_Snapshot_def ref_attr_def ref_owner_def)
  have row: "row_ok ref_lib (rp_attrs ref_query_repos) x" if "x \<in> set (ref_rows ''ann'')" for x
    using that by (auto simp: ref_rows_def ref_row_def row_ok_def get conforms_def av_Rehydrate_def IsZero_def NewStringValue_def scope_fits_def
        ref_owner_def ref_attr_def constraint_Check.simps colours)
  have pair: "pair_ok ref_lib (rp_attrs ref_query_repos) x y"
    if "x \<in> set (ref_rows ''ann'')" "y \<in> set (ref_rows ''ann'')" "vs_ID x \<noteq> vs_ID y" for x y
    using that by (auto simp: ref_rows_def ref_row_def pair_ok_def same_slot_def)
  have "values_ok ref_lib (rp_attrs ref_query_repos) (ref_rows ''ann'')"
    using row pair by (simp add: values_ok_def) (simp add: ref_rows_def)
  moreover have "fit ref_lib a (vs_Value x)" if "x \<in> set (ref_rows ''ann'')" "a \<in> set (rp_attrs ref_query_repos)"
      "as_ID a = vs_AttributeDefinitionID x" for x a
    using that by (auto simp: ref_rows_def ref_row_def ref_query_repos_def fit_def attr_Snapshot_def ref_attr_def ref_owner_def
        NewStringValue_def colours)
  ultimately show ?thesis by (simp add: db_ok_def ref_db_def)
qed

definition ref_many_types :: vrepos where
  "ref_many_types = \<lparr>rp_types = map (\<lambda>i. (hd ref_types)\<lparr>ts_ID := i, ts_InternalName := nat_str i\<rparr>) [0..<502], rp_attrs = [], rp_deps = []\<rparr>"

lemma ref_many_names:
  "card (ts_InternalName ` {t \<in> set (rp_types ref_many_types). ts_TenantID t = ''acme'' \<and> ts_ArchivedAt t = None \<and> ts_Kind t = KindEntity}) = 502"
proof -
  have "{t \<in> set (rp_types ref_many_types). ts_TenantID t = ''acme'' \<and> ts_ArchivedAt t = None \<and> ts_Kind t = KindEntity} = set (rp_types ref_many_types)"
    by (auto simp: ref_many_types_def ref_types_def)
  then have "ts_InternalName ` {t \<in> set (rp_types ref_many_types). ts_TenantID t = ''acme'' \<and> ts_ArchivedAt t = None \<and> ts_Kind t = KindEntity} = nat_str ` {0..<502}"
    by (simp only:) (simp add: ref_many_types_def image_image)
  moreover have "inj_on nat_str {0..<502}" by (simp add: inj_on_def nat_str_inj)
  ultimately show ?thesis by (simp add: card_image)
qed

section \<open>A quantity\<close>

definition ref_grams :: Family where
  "ref_grams = \<lparr>fam_ID = 9, fam_TenantID = ''acme'', fam_Name = ''mass'', fam_BaseUnit = ''g'', fam_Units = [(''g'', FFin 1)]\<rparr>"

definition ref_weight :: AttributeDefinition where
  "ref_weight = ref_attr\<lparr>ad_id := 8, ad_internalName := ''weight'', ad_dataType := DataTypeQuantity, ad_constraints := [],
     ad_defaultValue := None, ad_unitFamilyID := ''9''\<rparr>"

definition ref_scale :: vctx where
  "ref_scale = (ref_cx 400)\<lparr>cx_units := Some (\<lambda>_ _. Inr ref_grams), cx_formatF := (\<lambda>_. ''1'')\<rparr>"

lemma ref_heavy: "rat_set_string (cx_lib ref_scale) (CHR ''1'' # replicate 400 (CHR ''0'')) = Some (10 ^ 400)"
proof -
  have z: "takeWhile is_digit (replicate n (CHR ''0'')) = replicate n (CHR ''0'')" "dropWhile is_digit (replicate n (CHR ''0'')) = []" for n
    by (induction n) (simp_all add: is_digit_def)
  have v: "digits_val a (replicate n (CHR ''0'')) = a * 10 ^ n" for a n
    by (induction n arbitrary: a) (simp_all add: digit_val_def)
  have p: "decimal_pattern (CHR ''1'' # replicate 400 (CHR ''0''))" by code_simp
  have "rat_of_decimal (CHR ''1'' # replicate 400 (CHR ''0'')) = 10 ^ 400"
    by (simp only: rat_of_decimal_def strip_sign_def Let_def) (simp add: z v is_digit_def digit_val_def)
  with p show ?thesis by (simp add: rat_set_string_def)
qed

section \<open>A unit of work\<close>

text \<open>It writes a row and then fails.\<close>

definition ref_mem :: "(gvalue, nat) mstore" where
  "ref_mem = \<lparr>rows = (\<lambda>_ _. None), activities = [], mediaKeyHeld = {}\<rparr>"

definition ref_unit :: "(gvalue, nat) txstate \<Rightarrow> (gvalue, nat, nat, nat) Collector \<Rightarrow> goerr option \<times> (gvalue, nat, nat, nat) Collector \<times> (gvalue, nat) txstate" where
  "ref_unit st c = (let (s, j) = repo_write collValues ''a'' (Some red) (fst st, Some (snd st))
     in (Some (NewValidation ''refused''), c, (s, the j)))"

lemma ref_unit_journalled: "journalled st (snd (snd (ref_unit st c)))"
proof -
  obtain s j where st: "st = (s, j)" by (cases st)
  have "repo_write collValues ''a'' (Some red) (s, Some j) = (row_put collValues ''a'' (Some red) s, Some (cap_row collValues ''a'' s j))"
    by (simp add: repo_write_def captures)
  then have "journalled (s, j) (row_put collValues ''a'' (Some red) s, cap_row collValues ''a'' s j)"
    by (intro jr_write [OF jr_refl]) simp_all
  then show ?thesis by (simp add: st ref_unit_def repo_write_def captures)
qed

end
