(* ===== verification/Dep_Codec.thy ===== *)
theory Dep_Codec
  imports Dependency
begin

text \<open>
  The JSON form of a rule (\<^verbatim>\<open>condition.go\<close> and \<^verbatim>\<open>aggregate.go\<close> of \<^verbatim>\<open>domain/dependency\<close>): the wire structs of
  conditions and effects, both directions of their codecs, and the round trip of every rule that passes
  validation. A request carries a rule in this form and the relational store keeps it.
\<close>

section \<open>Conditions (condition.go)\<close>

fun condKind_String :: "ConditionKind \<Rightarrow> string" where
  "condKind_String CondEquals = ''equals''"
| "condKind_String CondIn = ''in''"
| "condKind_String CondRange = ''range''"
| "condKind_String CondPattern = ''pattern''"
| "condKind_String CondDynamic = ''dynamic''"
| "condKind_String (ConditionKindOther s) = s"

definition to_ConditionKind :: "string \<Rightarrow> ConditionKind" where
  "to_ConditionKind s = (case find (\<lambda>k. condKind_String k = s) [CondEquals, CondIn, CondRange, CondPattern, CondDynamic] of
     Some k \<Rightarrow> k | None \<Rightarrow> ConditionKindOther s)"

fun op_String :: "DynamicOp \<Rightarrow> string" where
  "op_String OpBefore = ''before''"
| "op_String OpAfter = ''after''"
| "op_String OpOnBefore = ''on_or_before''"
| "op_String OpOnAfter = ''on_or_after''"
| "op_String (DynamicOpOther s) = s"

definition to_DynamicOp :: "string \<Rightarrow> DynamicOp" where
  "to_DynamicOp s = (case find (\<lambda>k. op_String k = s) [OpBefore, OpAfter, OpOnBefore, OpOnAfter] of
     Some k \<Rightarrow> k | None \<Rightarrow> DynamicOpOther s)"

record conditionJSON =
  kj_Kind :: ConditionKind
  kj_ContextKey :: string
  kj_ContextType :: DataType
  kj_Value :: rawmsg
  kj_Values :: "rawmsg list"
  kj_Min :: rawmsg
  kj_Max :: rawmsg
  kj_MinExclusive :: bool
  kj_MaxExclusive :: bool
  kj_Pattern :: string
  kj_PatternSubstring :: bool
  kj_Dynamic :: "DynamicValue option"
  kj_Op :: DynamicOp

definition zero_kj :: conditionJSON where
  "zero_kj = \<lparr>kj_Kind = ConditionKindOther [], kj_ContextKey = [], kj_ContextType = NoType, kj_Value = RawNil, kj_Values = [],
     kj_Min = RawNil, kj_Max = RawNil, kj_MinExclusive = False, kj_MaxExclusive = False, kj_Pattern = [],
     kj_PatternSubstring = False, kj_Dynamic = None, kj_Op = DynamicOpOther []\<rparr>"

definition kj_member :: "string \<Rightarrow> json \<Rightarrow> conditionJSON \<Rightarrow> conditionJSON \<times> bool" where
  "kj_member k j c =
     (if key_is ''kind'' k then into_string (\<lambda>s. c\<lparr>kj_Kind := to_ConditionKind s\<rparr>) c j
      else if key_is ''context_key'' k then into_string (\<lambda>s. c\<lparr>kj_ContextKey := s\<rparr>) c j
      else if key_is ''context_type'' k then into_string (\<lambda>s. c\<lparr>kj_ContextType := to_DataType s\<rparr>) c j
      else if key_is ''value'' k then (c\<lparr>kj_Value := Raw j\<rparr>, True)
      else if key_is ''values'' k then into_raws (\<lambda>vs. c\<lparr>kj_Values := vs\<rparr>) c j
      else if key_is ''min'' k then (c\<lparr>kj_Min := Raw j\<rparr>, True)
      else if key_is ''max'' k then (c\<lparr>kj_Max := Raw j\<rparr>, True)
      else if key_is ''min_exclusive'' k then into_bool (\<lambda>b. c\<lparr>kj_MinExclusive := b\<rparr>) c j
      else if key_is ''max_exclusive'' k then into_bool (\<lambda>b. c\<lparr>kj_MaxExclusive := b\<rparr>) c j
      else if key_is ''pattern'' k then into_string (\<lambda>s. c\<lparr>kj_Pattern := s\<rparr>) c j
      else if key_is ''pattern_substring'' k then into_bool (\<lambda>b. c\<lparr>kj_PatternSubstring := b\<rparr>) c j
      else if key_is ''dynamic'' k then (let (p, ok) = into_dynamic (kj_Dynamic c) j in (c\<lparr>kj_Dynamic := p\<rparr>, ok))
      else if key_is ''op'' k then into_string (\<lambda>s. c\<lparr>kj_Op := to_DynamicOp s\<rparr>) c j
      else (c, True))"

definition optional :: "bool \<Rightarrow> string \<Rightarrow> json \<Rightarrow> (string \<times> json) list" where
  "optional present key j = (if present then [(key, j)] else [])"

definition encode_kj :: "conditionJSON \<Rightarrow> json" where
  "encode_kj c = JObj
     ([(''kind'', JStr (condKind_String (kj_Kind c)))]
      @ optional (kj_ContextKey c \<noteq> []) ''context_key'' (JStr (kj_ContextKey c))
      @ optional (kj_ContextType c \<noteq> NoType) ''context_type'' (JStr (dt_String (kj_ContextType c)))
      @ optional (kj_Value c \<noteq> RawNil) ''value'' (raw_json (kj_Value c))
      @ optional (kj_Values c \<noteq> []) ''values'' (JArr (map raw_json (kj_Values c)))
      @ optional (kj_Min c \<noteq> RawNil) ''min'' (raw_json (kj_Min c))
      @ optional (kj_Max c \<noteq> RawNil) ''max'' (raw_json (kj_Max c))
      @ optional (kj_MinExclusive c) ''min_exclusive'' (JBool True)
      @ optional (kj_MaxExclusive c) ''max_exclusive'' (JBool True)
      @ optional (kj_Pattern c \<noteq> []) ''pattern'' (JStr (kj_Pattern c))
      @ optional (kj_PatternSubstring c) ''pattern_substring'' (JBool True)
      @ (case kj_Dynamic c of None \<Rightarrow> [] | Some d \<Rightarrow> [(''dynamic'', encode_dynamic d)])
      @ optional (op_String (kj_Op c) \<noteq> []) ''op'' (JStr (op_String (kj_Op c))))"

definition marshal_operand :: "golib \<Rightarrow> gvalue option \<Rightarrow> rawmsg result" where
  "marshal_operand lib v = (case v of None \<Rightarrow> Inr RawNil | Some w \<Rightarrow> MarshalTyped lib w)"

definition Condition_MarshalJSON :: "golib \<Rightarrow> Condition \<Rightarrow> json result" where
  "Condition_MarshalJSON lib c =
     rbind (marshal_operand lib (cond_Value c)) (\<lambda>v.
     rbind (marshal_operand lib (cond_Min c)) (\<lambda>mn.
     rbind (marshal_operand lib (cond_Max c)) (\<lambda>mx.
     rbind (map_result (MarshalTyped lib) (cond_Values c)) (\<lambda>vs.
       Inr (encode_kj \<lparr>kj_Kind = cond_Kind c, kj_ContextKey = cond_ContextKey c, kj_ContextType = cond_ContextType c,
         kj_Value = v, kj_Values = vs, kj_Min = mn, kj_Max = mx, kj_MinExclusive = cond_MinExclusive c,
         kj_MaxExclusive = cond_MaxExclusive c, kj_Pattern = cond_Pattern c, kj_PatternSubstring = cond_PatternSubstring c,
         kj_Dynamic = cond_Dynamic c, kj_Op = cond_Op c\<rparr>)))))"

definition unmarshal_operand :: "golib \<Rightarrow> rawmsg \<Rightarrow> gvalue option result" where
  "unmarshal_operand lib raw =
     (if raw = RawNil \<or> raw = Raw JNull then Inr None else map_sum id Some (UnmarshalTypedValue lib raw))"

definition kj_to_condition :: "golib \<Rightarrow> conditionJSON \<Rightarrow> Condition result" where
  "kj_to_condition lib c =
     rbind (unmarshal_operand lib (kj_Value c)) (\<lambda>v.
     rbind (unmarshal_operand lib (kj_Min c)) (\<lambda>mn.
     rbind (unmarshal_operand lib (kj_Max c)) (\<lambda>mx.
     rbind (map_result (UnmarshalTypedValue lib) (kj_Values c)) (\<lambda>vs.
       Inr \<lparr>cond_Kind = kj_Kind c, cond_Value = v, cond_Values = vs, cond_Min = mn, cond_Max = mx,
         cond_MinExclusive = kj_MinExclusive c, cond_MaxExclusive = kj_MaxExclusive c, cond_Pattern = kj_Pattern c,
         cond_PatternSubstring = kj_PatternSubstring c, cond_Dynamic = kj_Dynamic c, cond_Op = kj_Op c,
         cond_ContextKey = kj_ContextKey c, cond_ContextType = kj_ContextType c\<rparr>))))"

definition Condition_UnmarshalJSON :: "golib \<Rightarrow> rawmsg \<Rightarrow> Condition result" where
  "Condition_UnmarshalJSON lib raw =
     (let (c, ok) = decode_struct kj_member raw zero_kj
      in if ok then kj_to_condition lib c else Inl (PlainErr ''json: cannot unmarshal''))"

section \<open>Effects (aggregate.go)\<close>

fun enforce_String :: "Enforcement \<Rightarrow> string" where
  "enforce_String EnforceUnset = []"
| "enforce_String EnforceOnWrite = ''on_write''"
| "enforce_String EnforceOnRead = ''on_read''"
| "enforce_String (EnforcementOther s) = s"

definition to_Enforcement :: "string \<Rightarrow> Enforcement" where
  "to_Enforcement s = (case find (\<lambda>k. enforce_String k = s) [EnforceUnset, EnforceOnWrite, EnforceOnRead] of
     Some k \<Rightarrow> k | None \<Rightarrow> EnforcementOther s)"

text \<open>The constraints decode themselves, so the struct holds them with the outcome.\<close>

record effectJSON =
  ej_AllowedValues :: "rawmsg list"
  ej_Constraints :: Constraints
  ej_Required :: "bool option"
  ej_Enforce :: Enforcement

definition zero_ej :: effectJSON where
  "zero_ej = \<lparr>ej_AllowedValues = [], ej_Constraints = [], ej_Required = None, ej_Enforce = EnforceUnset\<rparr>"

definition into_bool_ptr :: "(bool option \<Rightarrow> 'a) \<Rightarrow> 'a \<Rightarrow> json \<Rightarrow> 'a \<times> bool" where
  "into_bool_ptr upd a j = (case j of JBool b \<Rightarrow> (upd (Some b), True) | JNull \<Rightarrow> (upd None, True) | _ \<Rightarrow> (a, False))"

definition ej_member :: "golib \<Rightarrow> string \<Rightarrow> json \<Rightarrow> effectJSON \<Rightarrow> effectJSON \<times> bool" where
  "ej_member lib k j e =
     (if key_is ''allowed_values'' k then into_raws (\<lambda>vs. e\<lparr>ej_AllowedValues := vs\<rparr>) e j
      else if key_is ''constraints'' k then
        (case Constraints_UnmarshalJSON lib (Raw j) of Inl _ \<Rightarrow> (e, False) | Inr cs \<Rightarrow> (e\<lparr>ej_Constraints := cs\<rparr>, True))
      else if key_is ''required'' k then into_bool_ptr (\<lambda>b. e\<lparr>ej_Required := b\<rparr>) e j
      else if key_is ''enforce'' k then into_string (\<lambda>s. e\<lparr>ej_Enforce := to_Enforcement s\<rparr>) e j
      else (e, True))"

definition Effect_MarshalJSON :: "golib \<Rightarrow> Effect \<Rightarrow> json result" where
  "Effect_MarshalJSON lib e =
     rbind (map_result (MarshalTyped lib) (eff_AllowedValues e)) (\<lambda>vs.
     rbind (Constraints_MarshalJSON lib (eff_Constraints e)) (\<lambda>cs.
       Inr (JObj
         (optional (vs \<noteq> []) ''allowed_values'' (JArr (map raw_json vs))
          @ optional (eff_Constraints e \<noteq> []) ''constraints'' cs
          @ (case eff_Required e of None \<Rightarrow> [] | Some b \<Rightarrow> [(''required'', JBool b)])
          @ optional (enforce_String (eff_Enforce e) \<noteq> []) ''enforce'' (JStr (enforce_String (eff_Enforce e)))))))"

definition Effect_UnmarshalJSON :: "golib \<Rightarrow> rawmsg \<Rightarrow> Effect result" where
  "Effect_UnmarshalJSON lib raw =
     (let (e, ok) = decode_struct (ej_member lib) raw zero_ej
      in if \<not> ok then Inl (PlainErr ''json: cannot unmarshal'')
         else rbind (map_result (UnmarshalTypedValue lib) (ej_AllowedValues e)) (\<lambda>vs.
           Inr \<lparr>eff_AllowedValues = vs, eff_Constraints = ej_Constraints e, eff_Required = ej_Required e, eff_Enforce = ej_Enforce e\<rparr>))"

definition Conditions_UnmarshalJSON :: "golib \<Rightarrow> rawmsg \<Rightarrow> Condition list result" where
  "Conditions_UnmarshalJSON lib raw =
     (case raw of Raw (JArr xs) \<Rightarrow> map_result (\<lambda>x. Condition_UnmarshalJSON lib (Raw x)) xs
      | Raw JNull \<Rightarrow> Inr []
      | _ \<Rightarrow> Inl (PlainErr ''json: cannot unmarshal''))"

text \<open>The relational store encodes the conditions of a stored rule, of which there is at least one: an absent list, which Go writes as
  \<^verbatim>\<open>null\<close>, does not reach it.\<close>

definition Conditions_MarshalJSON :: "golib \<Rightarrow> Condition list \<Rightarrow> json result" where
  "Conditions_MarshalJSON lib cs = map_sum id JArr (map_result (Condition_MarshalJSON lib) cs)"

section \<open>Names with one representation\<close>

text \<open>Every text has one representation in a type of names: what decoding gives is read back from its text.\<close>

lemma kind_decoded [simp]: "to_ConditionKind (condKind_String (to_ConditionKind s)) = to_ConditionKind s"
  "to_ConditionKind [] = ConditionKindOther []"
  by (auto simp: to_ConditionKind_def)

lemma op_decoded [simp]: "to_DynamicOp (op_String (to_DynamicOp s)) = to_DynamicOp s"
  "to_DynamicOp [] = DynamicOpOther []"
  by (auto simp: to_DynamicOp_def)

lemma enforce_decoded [simp]: "to_Enforcement (enforce_String (to_Enforcement s)) = to_Enforcement s"
  "to_Enforcement [] = EnforceUnset"
  by (auto simp: to_Enforcement_def)

lemma type_decoded [simp]: "to_DataType (dt_String (to_DataType s)) = to_DataType s" "to_DataType [] = NoType"
  by (auto simp: to_DataType_def dataTypes_def)

lemma dynamic_names_decoded [simp]:
  "to_DynamicKind (kind_String (to_DynamicKind s)) = to_DynamicKind s" "to_DynamicKind [] = DynamicKindOther []"
  "to_RelativePeriod (period_String (to_RelativePeriod s)) = to_RelativePeriod s"
  "to_RelativePeriod [] = PeriodOther []"
  by (auto simp: to_DynamicKind_def to_RelativePeriod_def)

definition dynamic_ok :: "DynamicValue \<Rightarrow> bool" where
  "dynamic_ok d \<longleftrightarrow> to_DynamicKind (kind_String (dyn_Kind d)) = dyn_Kind d \<and>
     to_RelativePeriod (period_String (dyn_Period d)) = dyn_Period d \<and> in_int64 (dyn_Amount d)"

lemma into_dynamic_ok:
  assumes "\<And>d. p = Some d \<Longrightarrow> dynamic_ok d" "fst (into_dynamic p j) = Some d"
  shows "dynamic_ok d"
proof -
  have step: "dynamic_ok d \<Longrightarrow> dynamic_ok (fst (dynamic_member k j d))" for k j d
    by (auto simp: dynamic_member_def dynamic_ok_def into_string_def into_int64_def parse_int64_range split: json.split option.split)
  have zero: "dynamic_ok zero_dynamic" by (simp add: dynamic_ok_def zero_dynamic_def in_int64_def min_int64_def max_int64_def)
  have all: "dynamic_ok (fst (decode_members dynamic_member kvs d0))" if "dynamic_ok d0" for kvs d0
    by (rule decode_members_inv [of dynamic_ok, OF step that])
  show ?thesis
  proof (cases j)
    case (JObj kvs)
    let ?d0 = "case p of None \<Rightarrow> zero_dynamic | Some d0 \<Rightarrow> d0"
    have "d = fst (decode_members dynamic_member kvs ?d0)" using assms(2) JObj by (simp add: into_dynamic_def split_beta)
    moreover have "dynamic_ok ?d0" using assms(1) zero by (cases p) simp_all
    ultimately show ?thesis using all by simp
  qed (use assms in \<open>simp_all add: into_dynamic_def\<close>)
qed

lemma dynamic_reads: "dynamic_ok d \<Longrightarrow> into_dynamic None (encode_dynamic d) = (Some d, True)"
proof -
  assume "dynamic_ok d"
  then show ?thesis
    by (cases "period_String (dyn_Period d) = []")
      (auto simp: dynamic_ok_def into_dynamic_def encode_dynamic_def dynamic_member_def key_is_self into_string_def into_int64_def zero_dynamic_def)
qed

section \<open>The wire form of a condition\<close>

definition raw_ok :: "rawmsg \<Rightarrow> bool" where
  "raw_ok r \<longleftrightarrow> r = RawNil \<or> (\<exists>j. r = Raw j)"

definition kj_ok :: "conditionJSON \<Rightarrow> bool" where
  "kj_ok c \<longleftrightarrow> to_ConditionKind (condKind_String (kj_Kind c)) = kj_Kind c \<and> to_DynamicOp (op_String (kj_Op c)) = kj_Op c \<and>
     to_DataType (dt_String (kj_ContextType c)) = kj_ContextType c \<and> (\<forall>d. kj_Dynamic c = Some d \<longrightarrow> dynamic_ok d) \<and>
     raw_ok (kj_Value c) \<and> raw_ok (kj_Min c) \<and> raw_ok (kj_Max c) \<and> (\<exists>js. kj_Values c = map Raw js)"

lemma decode_optional [simp]: "decode_members f (optional p k j) a = (if p then f k j a else (a, True))"
  by (simp add: optional_def split_beta)

lemmas kj_decode = kj_member_def key_is_self into_string_def into_bool_def into_raws_def

lemma op_Nil: "to_DynamicOp (op_String x) = x \<Longrightarrow> op_String x = [] \<Longrightarrow> x = DynamicOpOther []"
  by (cases x) auto

lemma kj_segments:
  "to_ConditionKind (condKind_String k) = k \<Longrightarrow>
     decode_members kj_member [(''kind'', JStr (condKind_String k))] c = (c\<lparr>kj_Kind := k\<rparr>, True)"
  "kj_ContextKey c = [] \<Longrightarrow> decode_members kj_member (optional (x \<noteq> []) ''context_key'' (JStr x)) c = (c\<lparr>kj_ContextKey := x\<rparr>, True)"
  "to_DataType (dt_String t) = t \<Longrightarrow> kj_ContextType c = NoType \<Longrightarrow>
     decode_members kj_member (optional (t \<noteq> NoType) ''context_type'' (JStr (dt_String t))) c = (c\<lparr>kj_ContextType := t\<rparr>, True)"
  "raw_ok r \<Longrightarrow> kj_Value c = RawNil \<Longrightarrow>
     decode_members kj_member (optional (r \<noteq> RawNil) ''value'' (raw_json r)) c = (c\<lparr>kj_Value := r\<rparr>, True)"
  "\<exists>js. vs = map Raw js \<Longrightarrow> kj_Values c = [] \<Longrightarrow>
     decode_members kj_member (optional (vs \<noteq> []) ''values'' (JArr (map raw_json vs))) c = (c\<lparr>kj_Values := vs\<rparr>, True)"
  "raw_ok r \<Longrightarrow> kj_Min c = RawNil \<Longrightarrow>
     decode_members kj_member (optional (r \<noteq> RawNil) ''min'' (raw_json r)) c = (c\<lparr>kj_Min := r\<rparr>, True)"
  "raw_ok r \<Longrightarrow> kj_Max c = RawNil \<Longrightarrow>
     decode_members kj_member (optional (r \<noteq> RawNil) ''max'' (raw_json r)) c = (c\<lparr>kj_Max := r\<rparr>, True)"
  "\<not> kj_MinExclusive c \<Longrightarrow>
     decode_members kj_member (optional b ''min_exclusive'' (JBool True)) c = (c\<lparr>kj_MinExclusive := b\<rparr>, True)"
  "\<not> kj_MaxExclusive c \<Longrightarrow>
     decode_members kj_member (optional b ''max_exclusive'' (JBool True)) c = (c\<lparr>kj_MaxExclusive := b\<rparr>, True)"
  "kj_Pattern c = [] \<Longrightarrow> decode_members kj_member (optional (x \<noteq> []) ''pattern'' (JStr x)) c = (c\<lparr>kj_Pattern := x\<rparr>, True)"
  "\<not> kj_PatternSubstring c \<Longrightarrow>
     decode_members kj_member (optional b ''pattern_substring'' (JBool True)) c = (c\<lparr>kj_PatternSubstring := b\<rparr>, True)"
  "(\<forall>x. d = Some x \<longrightarrow> dynamic_ok x) \<Longrightarrow> kj_Dynamic c = None \<Longrightarrow>
     decode_members kj_member (case d of None \<Rightarrow> [] | Some x \<Rightarrow> [(''dynamic'', encode_dynamic x)]) c = (c\<lparr>kj_Dynamic := d\<rparr>, True)"
  "to_DynamicOp (op_String p) = p \<Longrightarrow> kj_Op c = DynamicOpOther [] \<Longrightarrow>
     decode_members kj_member (optional (op_String p \<noteq> []) ''op'' (JStr (op_String p))) c = (c\<lparr>kj_Op := p\<rparr>, True)"
  using op_Nil [of p]
  by (auto simp: kj_decode raw_ok_def comp_def dynamic_reads split: option.split)

lemma kj_round:
  assumes "kj_ok c"
  shows "decode_struct kj_member (Raw (encode_kj c)) zero_kj = (c, True)"
proof -
  from assms have ok: "to_ConditionKind (condKind_String (kj_Kind c)) = kj_Kind c" "to_DynamicOp (op_String (kj_Op c)) = kj_Op c"
     "to_DataType (dt_String (kj_ContextType c)) = kj_ContextType c" "\<forall>d. kj_Dynamic c = Some d \<longrightarrow> dynamic_ok d"
     "raw_ok (kj_Value c)" "raw_ok (kj_Min c)" "raw_ok (kj_Max c)" "\<exists>js. kj_Values c = map Raw js"
    by (simp_all add: kj_ok_def)
  have "decode_struct kj_member (Raw (encode_kj c)) zero_kj =
      (\<lparr>kj_Kind = kj_Kind c, kj_ContextKey = kj_ContextKey c, kj_ContextType = kj_ContextType c, kj_Value = kj_Value c,
        kj_Values = kj_Values c, kj_Min = kj_Min c, kj_Max = kj_Max c, kj_MinExclusive = kj_MinExclusive c,
        kj_MaxExclusive = kj_MaxExclusive c, kj_Pattern = kj_Pattern c, kj_PatternSubstring = kj_PatternSubstring c,
        kj_Dynamic = kj_Dynamic c, kj_Op = kj_Op c\<rparr>, True)"
    unfolding encode_kj_def decode_struct_def
    by (simp only: decode_members_append kj_segments(1) [OF ok(1)] kj_segments(2) kj_segments(3) [OF ok(3)]
        kj_segments(4) [OF ok(5)] kj_segments(5) [OF ok(8)] kj_segments(6) [OF ok(6)] kj_segments(7) [OF ok(7)]
        kj_segments(8-11) kj_segments(12) [OF ok(4)] kj_segments(13) [OF ok(2)] zero_kj_def prod.case json.case rawmsg.case
        conditionJSON.simps simp_thms)
  then show ?thesis by simp
qed

text \<open>What the decoder produces: names in their one representation, operands as documents.\<close>

lemma kj_member_names:
  "to_ConditionKind (condKind_String (kj_Kind c)) = kj_Kind c \<Longrightarrow>
     to_ConditionKind (condKind_String (kj_Kind (fst (kj_member k j c)))) = kj_Kind (fst (kj_member k j c))"
  "to_DynamicOp (op_String (kj_Op c)) = kj_Op c \<Longrightarrow>
     to_DynamicOp (op_String (kj_Op (fst (kj_member k j c)))) = kj_Op (fst (kj_member k j c))"
  "to_DataType (dt_String (kj_ContextType c)) = kj_ContextType c \<Longrightarrow>
     to_DataType (dt_String (kj_ContextType (fst (kj_member k j c)))) = kj_ContextType (fst (kj_member k j c))"
  by (cases j; simp add: kj_member_def into_string_def into_bool_def into_raws_def split_beta)+

lemma kj_member_dynamic:
  "\<forall>d. kj_Dynamic c = Some d \<longrightarrow> dynamic_ok d \<Longrightarrow> \<forall>d. kj_Dynamic (fst (kj_member k j c)) = Some d \<longrightarrow> dynamic_ok d"
  using into_dynamic_ok [of "kj_Dynamic c" j]
  by (cases j; simp add: kj_member_def into_string_def into_bool_def into_raws_def split_beta)

definition raws_ok :: "conditionJSON \<Rightarrow> bool" where
  "raws_ok c \<longleftrightarrow> raw_ok (kj_Value c) \<and> raw_ok (kj_Min c) \<and> raw_ok (kj_Max c) \<and> (\<exists>js. kj_Values c = map Raw js) \<and>
     wf_raw (kj_Value c) \<and> wf_raw (kj_Min c) \<and> wf_raw (kj_Max c) \<and> (\<forall>r\<in>set (kj_Values c). wf_raw r)"

lemma raws_ok_update [simp]:
  "raws_ok (c\<lparr>kj_Kind := a\<rparr>) = raws_ok c" "raws_ok (c\<lparr>kj_ContextKey := b\<rparr>) = raws_ok c"
  "raws_ok (c\<lparr>kj_ContextType := d\<rparr>) = raws_ok c" "raws_ok (c\<lparr>kj_MinExclusive := e\<rparr>) = raws_ok c"
  "raws_ok (c\<lparr>kj_MaxExclusive := e\<rparr>) = raws_ok c" "raws_ok (c\<lparr>kj_Pattern := b\<rparr>) = raws_ok c"
  "raws_ok (c\<lparr>kj_PatternSubstring := e\<rparr>) = raws_ok c" "raws_ok (c\<lparr>kj_Dynamic := f\<rparr>) = raws_ok c"
  "raws_ok (c\<lparr>kj_Op := g\<rparr>) = raws_ok c"
  by (simp_all add: raws_ok_def)

lemma raws_ok_operand:
  "wf_json j \<Longrightarrow> raws_ok c \<Longrightarrow> raws_ok (c\<lparr>kj_Value := Raw j\<rparr>)" "wf_json j \<Longrightarrow> raws_ok c \<Longrightarrow> raws_ok (c\<lparr>kj_Min := Raw j\<rparr>)"
  "wf_json j \<Longrightarrow> raws_ok c \<Longrightarrow> raws_ok (c\<lparr>kj_Max := Raw j\<rparr>)" "raws_ok c \<Longrightarrow> raws_ok (c\<lparr>kj_Values := []\<rparr>)"
  "wf_json (JArr xs) \<Longrightarrow> raws_ok c \<Longrightarrow> raws_ok (c\<lparr>kj_Values := map Raw xs\<rparr>)"
  by (auto simp: raws_ok_def raw_ok_def wf_raw_def list_all_iff)

lemma kj_member_raws: "wf_json j \<Longrightarrow> raws_ok c \<Longrightarrow> raws_ok (fst (kj_member k j c))"
  using raws_ok_operand(1-3) [of j c]
  by (cases j; simp add: kj_member_def into_string_def into_bool_def into_raws_def split_beta raws_ok_operand(4,5) del: wf_json.simps)

lemma kj_decoded:
  assumes "decode_struct kj_member raw zero_kj = (c, ok)" "wf_raw raw"
  shows "kj_ok c \<and> raws_ok c"
proof -
  have zero: "kj_ok zero_kj \<and> raws_ok zero_kj"
    by (simp add: kj_ok_def raws_ok_def zero_kj_def raw_ok_def wf_raw_def)
  have step: "kj_ok (fst (kj_member k j a)) \<and> raws_ok (fst (kj_member k j a))" if "wf_json j" "kj_ok a \<and> raws_ok a" for k j a
  proof -
    from that(2) have a: "raws_ok a" "to_ConditionKind (condKind_String (kj_Kind a)) = kj_Kind a"
        "to_DynamicOp (op_String (kj_Op a)) = kj_Op a" "to_DataType (dt_String (kj_ContextType a)) = kj_ContextType a"
        "\<forall>d. kj_Dynamic a = Some d \<longrightarrow> dynamic_ok d"
      unfolding kj_ok_def by blast+
    note r = kj_member_raws [OF that(1) a(1), of k]
    with kj_member_names(1) [OF a(2), of k j] kj_member_names(2) [OF a(3), of k j] kj_member_names(3) [OF a(4), of k j]
      kj_member_dynamic [OF a(5), of k j]
    show ?thesis unfolding kj_ok_def raws_ok_def by blast
  qed
  have obj: "kj_ok (fst (decode_members kj_member kvs zero_kj)) \<and> raws_ok (fst (decode_members kj_member kvs zero_kj))"
    if "wf_json (JObj kvs)" for kvs
    by (rule decode_members_inv_on [of wf_json "\<lambda>c. kj_ok c \<and> raws_ok c" kj_member zero_kj kvs, OF step zero])
      (use that in \<open>simp_all add: wf_json_members del: wf_json.simps\<close>)
  have c: "c = fst (decode_struct kj_member raw zero_kj)" using assms(1) by simp
  show ?thesis
  proof (cases raw)
    case (Raw j)
    with assms(2) have j: "wf_json j" by (simp add: wf_raw_def)
    show ?thesis
    proof (cases j)
      case (JObj kvs)
      with obj [of kvs] j show ?thesis unfolding c Raw decode_struct_def by simp
    qed (use zero in \<open>simp_all only: c Raw decode_struct_def rawmsg.case json.case fst_conv\<close>)
  qed (use zero in \<open>simp_all only: c decode_struct_def rawmsg.case fst_conv\<close>)
qed

section \<open>Operands\<close>

lemma typed_value_wf:
  assumes "float_parse_finite lib" "wf_raw raw" "raw \<noteq> RawNil" "raw \<noteq> Raw JNull" "UnmarshalTypedValue lib raw = Inr v"
  shows "wf_value lib v"
proof -
  let ?z = "\<lparr>tv_Type = NoType, tv_Value = RawNil\<rparr>"
  have step: "wf_raw (tv_Value w) \<Longrightarrow> wf_json j \<Longrightarrow> wf_raw (tv_Value (fst (typed_member k j w)))" for k j w
    by (auto simp: typed_member_def into_string_def wf_raw_def split: json.split)
  have "wf_raw (tv_Value (fst (decode_struct typed_member raw ?z)))"
  proof (cases "\<exists>kvs. raw = Raw (JObj kvs)")
    case True
    then obtain kvs where raw: "raw = Raw (JObj kvs)" by blast
    have "wf_raw (tv_Value (fst (decode_members typed_member kvs ?z)))"
      by (rule decode_members_inv_on [of wf_json "\<lambda>w. wf_raw (tv_Value w)", OF step])
        (use assms(2) in \<open>simp_all add: raw wf_raw_def wf_json_members del: wf_json.simps\<close>)
    then show ?thesis by (simp add: raw decode_struct_def)
  qed (auto simp: decode_struct_def wf_raw_def split: rawmsg.split json.split)
  with assms show ?thesis
    by (auto simp: UnmarshalTypedValue_def split_beta split: if_splits dest: ParseValue_wf [OF assms(1)])
qed

lemma typed_value_raw:
  assumes "float_json_round lib" "time_round lib" "wf_value lib v" "in_years v"
  shows "\<exists>j. MarshalTyped lib v = Inr (Raw j) \<and> j \<noteq> JNull \<and> UnmarshalTypedValue lib (Raw j) = Inr v"
proof -
  from typed_round [OF assms] obtain raw where raw: "MarshalTyped lib v = Inr raw" "UnmarshalTypedValue lib raw = Inr v" by blast
  from raw(1) wf_not_zero [OF assms(3)] obtain j where j: "raw = Raw j" by (cases "MarshalJSON lib v") (auto simp: MarshalTyped_def)
  from raw(2) wf_not_zero [OF assms(3)] have "raw \<noteq> Raw JNull" by (auto simp: UnmarshalTypedValue_def)
  with raw j show ?thesis by auto
qed

text \<open>An operand that can be written: a well-formed value whose year has four digits. A member of a list may also be the
  zero value, which is written as null.\<close>

definition storable :: "golib \<Rightarrow> gvalue \<Rightarrow> bool" where
  "storable lib v \<longleftrightarrow> wf_value lib v \<and> in_years v"

lemma operand_round:
  assumes "float_json_round lib" "time_round lib" "\<And>w. v = Some w \<Longrightarrow> storable lib w"
  shows "\<exists>r. marshal_operand lib v = Inr r \<and> raw_ok r \<and> unmarshal_operand lib r = Inr v"
proof (cases v)
  case (Some w)
  with assms(3) have "wf_value lib w" "in_years w" by (simp_all add: storable_def)
  from typed_value_raw [OF assms(1,2) this] obtain j
    where j: "MarshalTyped lib w = Inr (Raw j)" "j \<noteq> JNull" "UnmarshalTypedValue lib (Raw j) = Inr w" by blast
  then show ?thesis by (intro exI [of _ "Raw j"]) (simp add: marshal_operand_def unmarshal_operand_def raw_ok_def Some)
qed (simp add: marshal_operand_def unmarshal_operand_def raw_ok_def)

lemma members_round:
  assumes "float_json_round lib" "time_round lib" "\<forall>v\<in>set vs. v = zero_value \<or> storable lib v"
  shows "\<exists>js. map_result (MarshalTyped lib) vs = Inr (map Raw js) \<and> map_result (UnmarshalTypedValue lib) (map Raw js) = Inr vs"
  using assms(3)
proof (induction vs)
  case (Cons v vs)
  have "\<exists>j. MarshalTyped lib v = Inr (Raw j) \<and> UnmarshalTypedValue lib (Raw j) = Inr v"
  proof (cases "v = zero_value")
    case True
    then show ?thesis by (intro exI [of _ JNull]) (simp add: MarshalTyped_def UnmarshalTypedValue_def)
  next
    case False
    with Cons.prems have "wf_value lib v" "in_years v" by (simp_all add: storable_def)
    from typed_value_raw [OF assms(1,2) this] show ?thesis by blast
  qed
  then obtain j where j: "MarshalTyped lib v = Inr (Raw j)" "UnmarshalTypedValue lib (Raw j) = Inr v" by blast
  moreover from Cons obtain js where "map_result (MarshalTyped lib) vs = Inr (map Raw js)"
      "map_result (UnmarshalTypedValue lib) (map Raw js) = Inr vs" by auto
  ultimately show ?case by (intro exI [of _ "j # js"]) simp
qed simp

section \<open>Conditions and their documents\<close>

definition operands :: "Condition \<Rightarrow> gvalue set" where
  "operands c = set_option (cond_Value c) \<union> set_option (cond_Min c) \<union> set_option (cond_Max c)"

text \<open>What decoding gives of a condition.\<close>

definition cond_read :: "golib \<Rightarrow> Condition \<Rightarrow> bool" where
  "cond_read lib c \<longleftrightarrow> to_ConditionKind (condKind_String (cond_Kind c)) = cond_Kind c \<and> to_DynamicOp (op_String (cond_Op c)) = cond_Op c \<and>
     to_DataType (dt_String (cond_ContextType c)) = cond_ContextType c \<and> (\<forall>d. cond_Dynamic c = Some d \<longrightarrow> dynamic_ok d) \<and>
     (\<forall>v\<in>operands c. wf_value lib v) \<and> (\<forall>v\<in>set (cond_Values c). v = zero_value \<or> wf_value lib v)"

lemma unmarshal_operand_wf:
  assumes "float_parse_finite lib" "wf_raw r" "unmarshal_operand lib r = Inr v" "w \<in> set_option v"
  shows "wf_value lib w"
  using assms typed_value_wf [OF assms(1,2)] by (auto simp: unmarshal_operand_def map_sum_Inr split: if_splits)

lemma unmarshal_members_wf:
  assumes "float_parse_finite lib" "\<forall>r\<in>set rs. wf_raw r" "map_result (UnmarshalTypedValue lib) rs = Inr vs" "v \<in> set vs"
  shows "v = zero_value \<or> wf_value lib v"
  using assms(2-4)
proof (induction rs arbitrary: vs)
  case (Cons r rs)
  then obtain w ws where w: "UnmarshalTypedValue lib r = Inr w" "map_result (UnmarshalTypedValue lib) rs = Inr ws" "vs = w # ws"
    by (auto split: sum.splits)
  have "w = zero_value \<or> wf_value lib w"
    using typed_value_wf [OF assms(1), of r w] w(1) Cons.prems(1) by (cases "r = RawNil \<or> r = Raw JNull") (auto simp: UnmarshalTypedValue_def)
  with w Cons show ?case by auto
qed simp

lemma Condition_decoded:
  assumes "float_parse_finite lib" "wf_raw raw" "Condition_UnmarshalJSON lib raw = Inr c"
  shows "cond_read lib c"
proof -
  obtain k ok where k: "decode_struct kj_member raw zero_kj = (k, ok)" by (cases "decode_struct kj_member raw zero_kj")
  from kj_decoded [OF k assms(2)] have wf: "kj_ok k" "raws_ok k" by simp_all
  from assms(3) k have "kj_to_condition lib k = Inr c" by (simp add: Condition_UnmarshalJSON_def split: if_splits)
  then obtain v mn mx vs where d: "unmarshal_operand lib (kj_Value k) = Inr v" "unmarshal_operand lib (kj_Min k) = Inr mn"
      "unmarshal_operand lib (kj_Max k) = Inr mx" "map_result (UnmarshalTypedValue lib) (kj_Values k) = Inr vs"
    and c: "c = \<lparr>cond_Kind = kj_Kind k, cond_Value = v, cond_Values = vs, cond_Min = mn, cond_Max = mx,
         cond_MinExclusive = kj_MinExclusive k, cond_MaxExclusive = kj_MaxExclusive k, cond_Pattern = kj_Pattern k,
         cond_PatternSubstring = kj_PatternSubstring k, cond_Dynamic = kj_Dynamic k, cond_Op = kj_Op k,
         cond_ContextKey = kj_ContextKey k, cond_ContextType = kj_ContextType k\<rparr>"
    by (auto simp: kj_to_condition_def rbind_Inr)
  have "\<forall>w\<in>operands c. wf_value lib w"
    using unmarshal_operand_wf [OF assms(1) _ d(1)] unmarshal_operand_wf [OF assms(1) _ d(2)] unmarshal_operand_wf [OF assms(1) _ d(3)] wf(2)
    by (auto simp: operands_def c raws_ok_def)
  moreover have "\<forall>w\<in>set (cond_Values c). w = zero_value \<or> wf_value lib w"
    using unmarshal_members_wf [OF assms(1) _ d(4)] wf(2) by (simp add: c raws_ok_def)
  ultimately show ?thesis using wf(1) unfolding cond_read_def kj_ok_def c by simp
qed

lemma Condition_round:
  assumes "float_json_round lib" "time_round lib" "cond_read lib c" "\<forall>v\<in>operands c \<union> set (cond_Values c). in_years v"
  shows "\<exists>j. Condition_MarshalJSON lib c = Inr j \<and> Condition_UnmarshalJSON lib (Raw j) = Inr c"
proof -
  have op: "\<exists>r. marshal_operand lib v = Inr r \<and> raw_ok r \<and> unmarshal_operand lib r = Inr v" if "set_option v \<subseteq> operands c" for v
    by (rule operand_round [OF assms(1,2)]) (use that assms(3,4) in \<open>auto simp: cond_read_def storable_def\<close>)
  obtain v mn mx where m: "marshal_operand lib (cond_Value c) = Inr v" "raw_ok v" "unmarshal_operand lib v = Inr (cond_Value c)"
      "marshal_operand lib (cond_Min c) = Inr mn" "raw_ok mn" "unmarshal_operand lib mn = Inr (cond_Min c)"
      "marshal_operand lib (cond_Max c) = Inr mx" "raw_ok mx" "unmarshal_operand lib mx = Inr (cond_Max c)"
    using op [of "cond_Value c"] op [of "cond_Min c"] op [of "cond_Max c"] by (auto simp: operands_def)
  have "\<forall>w\<in>set (cond_Values c). w = zero_value \<or> storable lib w" using assms(3,4) by (auto simp: cond_read_def storable_def)
  from members_round [OF assms(1,2) this] obtain js
    where js: "map_result (MarshalTyped lib) (cond_Values c) = Inr (map Raw js)"
      "map_result (UnmarshalTypedValue lib) (map Raw js) = Inr (cond_Values c)" by blast
  let ?k = "\<lparr>kj_Kind = cond_Kind c, kj_ContextKey = cond_ContextKey c, kj_ContextType = cond_ContextType c,
         kj_Value = v, kj_Values = map Raw js, kj_Min = mn, kj_Max = mx, kj_MinExclusive = cond_MinExclusive c,
         kj_MaxExclusive = cond_MaxExclusive c, kj_Pattern = cond_Pattern c, kj_PatternSubstring = cond_PatternSubstring c,
         kj_Dynamic = cond_Dynamic c, kj_Op = cond_Op c\<rparr>"
  have "Condition_MarshalJSON lib c = Inr (encode_kj ?k)" by (simp add: Condition_MarshalJSON_def m js)
  moreover have "kj_ok ?k" using assms(3) m by (auto simp: kj_ok_def cond_read_def)
  then have "Condition_UnmarshalJSON lib (Raw (encode_kj ?k)) = kj_to_condition lib ?k"
    by (simp only: Condition_UnmarshalJSON_def kj_round Let_def prod.case if_True)
  moreover have "kj_to_condition lib ?k = Inr c" by (simp add: kj_to_condition_def m js)
  ultimately show ?thesis by metis
qed

section \<open>Effects and their documents\<close>

definition cj_read :: "constraintJSON \<Rightarrow> bool" where
  "cj_read c \<longleftrightarrow> (\<forall>n. cj_N c = Some n \<longrightarrow> in_int64 n) \<and> (\<forall>n. cj_MaxSize c = Some n \<longrightarrow> in_int64 n) \<and>
     wf_raw (cj_Value c) \<and> (\<forall>r\<in>set (cj_Values c). wf_raw r)"

lemma cj_read_update [simp]:
  "cj_read (c\<lparr>cj_Kind := k\<rparr>) = cj_read c" "cj_read (c\<lparr>cj_Expr := e\<rparr>) = cj_read c" "cj_read (c\<lparr>cj_Substring := b\<rparr>) = cj_read c"
  "cj_read (c\<lparr>cj_MIME := m\<rparr>) = cj_read c"
  by (simp_all add: cj_read_def)

lemma cj_read_field:
  "wf_json j \<Longrightarrow> cj_read c \<Longrightarrow> cj_read (c\<lparr>cj_Value := Raw j\<rparr>)" "cj_read c \<Longrightarrow> cj_read (c\<lparr>cj_Values := []\<rparr>)"
  "wf_json (JArr xs) \<Longrightarrow> cj_read c \<Longrightarrow> cj_read (c\<lparr>cj_Values := map Raw xs\<rparr>)"
  "cj_read c \<Longrightarrow> (\<forall>i. n = Some i \<longrightarrow> in_int64 i) \<Longrightarrow> cj_read (c\<lparr>cj_N := n\<rparr>)"
  "cj_read c \<Longrightarrow> (\<forall>i. n = Some i \<longrightarrow> in_int64 i) \<Longrightarrow> cj_read (c\<lparr>cj_MaxSize := n\<rparr>)"
  by (auto simp: cj_read_def wf_raw_def list_all_iff)

lemma zero_int64: "in_int64 0"
  by (simp add: in_int64_def min_int64_def max_int64_def)

lemma int_ptr_read:
  "cj_read c \<Longrightarrow> cj_read (fst (into_int_ptr (\<lambda>n. c\<lparr>cj_N := n\<rparr>) c j))"
  "cj_read c \<Longrightarrow> cj_read (fst (into_int_ptr (\<lambda>n. c\<lparr>cj_MaxSize := n\<rparr>) c j))"
  by (cases j; auto simp: into_int_ptr_def zero_int64 parse_int64_range intro!: cj_read_field split: option.split)+

lemma cj_member_read: "wf_json j \<Longrightarrow> cj_read c \<Longrightarrow> cj_read (fst (cj_member k j c))"
  using cj_read_field(1) [of j c] int_ptr_read [of c j]
  by (cases j; simp add: cj_member_def into_string_def into_bool_def into_raws_def into_strings_def split_beta cj_read_field(2,3)
      del: wf_json.simps)

lemma cj_decoded:
  assumes "wf_json j" shows "cj_read (fst (decode_struct cj_member (Raw j) zero_cj))"
proof (cases j)
  case (JObj kvs)
  have zero: "cj_read zero_cj" by (simp add: cj_read_def zero_cj_def wf_raw_def)
  have "cj_read (fst (decode_members cj_member kvs zero_cj))"
    by (rule decode_members_inv_on [of wf_json cj_read, OF cj_member_read zero])
      (use assms in \<open>simp_all add: JObj wf_json_members del: wf_json.simps\<close>)
  then show ?thesis by (simp add: JObj decode_struct_def)
qed (simp_all add: decode_struct_def cj_read_def zero_cj_def wf_raw_def)

lemma cj_to_constraint_wf:
  assumes "float_parse_finite lib" "cj_read cj" "cj_to_constraint lib cj = Inr c" "constraint_Validate lib c dt = None" "dt \<noteq> NoType"
  shows "wf_constraint lib c \<and> precompile lib c = c"
proof -
  have one: "wf_value lib v" if "UnmarshalTypedValue lib (cj_Value cj) = Inr v" "dataType v = dt" for v
    using that typed_value_wf [OF assms(1), of "cj_Value cj" v] assms(2,5)
    by (cases "cj_Value cj = RawNil \<or> cj_Value cj = Raw JNull") (auto simp: cj_read_def UnmarshalTypedValue_def)
  have many: "list_all (wf_value lib) vs" if "map_result (UnmarshalTypedValue lib) (cj_Values cj) = Inr vs" "\<forall>v\<in>set vs. dataType v = dt" for vs
  proof -
    have "v = zero_value \<or> wf_value lib v" if "v \<in> set vs" for v
      using unmarshal_members_wf [OF assms(1) _ \<open>map_result _ _ = _\<close> that] assms(2) by (simp add: cj_read_def)
    then show ?thesis using that(2) assms(5) by (metis list_all_iff zero_value_simps(1))
  qed
  show ?thesis
    using assms(2-4) one many
    by (auto simp: cj_to_constraint_def cj_read_def zero_int64 split: ConstraintKind.splits option.splits sum.splits if_splits)
qed

definition effect_read :: "golib \<Rightarrow> Effect \<Rightarrow> bool" where
  "effect_read lib e \<longleftrightarrow> to_Enforcement (enforce_String (eff_Enforce e)) = eff_Enforce e \<and>
     (\<forall>v\<in>set (eff_AllowedValues e). v = zero_value \<or> wf_value lib v) \<and>
     (\<forall>dt. Constraints_Validate lib (eff_Constraints e) dt = None \<and> dt \<noteq> NoType \<longrightarrow>
        (\<forall>c\<in>set (eff_Constraints e). wf_constraint lib c \<and> precompile lib c = c))"

lemma Constraints_decoded:
  assumes "float_parse_finite lib" "wf_raw raw" "Constraints_UnmarshalJSON lib raw = Inr cs"
    "Constraints_Validate lib cs dt = None" "dt \<noteq> NoType"
  shows "\<forall>c\<in>set cs. wf_constraint lib c \<and> precompile lib c = c"
proof (cases "\<exists>xs. raw = Raw (JArr xs)")
  case True
  then obtain xs where xs: "raw = Raw (JArr xs)" by blast
  let ?cjs = "map (\<lambda>x. fst (decode_struct cj_member (Raw x) zero_cj)) xs"
  have "map_result (cj_to_constraint lib) ?cjs = Inr cs"
    using assms(3) by (simp add: xs Constraints_UnmarshalJSON_def Let_def comp_def split: if_splits)
  moreover have "\<forall>cj\<in>set ?cjs. cj_read cj" using assms(2) cj_decoded by (auto simp: xs wf_raw_def list_all_iff)
  moreover have "\<forall>c\<in>set cs. constraint_Validate lib c dt = None" using assms(4) by (simp add: Constraints_Validate_None)
  ultimately show ?thesis
  proof (induction ?cjs arbitrary: xs cs)
    case (Cons cj cjs)
    from Cons.hyps(2) obtain y ys where y: "xs = y # ys" "cjs = map (\<lambda>x. fst (decode_struct cj_member (Raw x) zero_cj)) ys"
        "cj = fst (decode_struct cj_member (Raw y) zero_cj)" by auto
    from Cons.prems(1) obtain c cs' where c: "cj_to_constraint lib cj = Inr c" "map_result (cj_to_constraint lib) cjs = Inr cs'" "cs = c # cs'"
      unfolding y by (auto split: sum.splits)
    have "wf_constraint lib c \<and> precompile lib c = c"
      by (rule cj_to_constraint_wf [OF assms(1) _ c(1) _ assms(5)]) (use Cons.prems(2,3) in \<open>simp_all add: y c\<close>)
    moreover have "\<forall>c\<in>set cs'. wf_constraint lib c \<and> precompile lib c = c"
      by (rule Cons.hyps(1) [of ys]) (use Cons.prems c y in auto)
    ultimately show ?case by (simp add: c)
  qed simp
next
  case False
  then have "cs = []" using assms(3) by (auto simp: Constraints_UnmarshalJSON_def split: rawmsg.splits json.splits)
  then show ?thesis by simp
qed

definition ej_read :: "golib \<Rightarrow> effectJSON \<Rightarrow> bool" where
  "ej_read lib e \<longleftrightarrow> to_Enforcement (enforce_String (ej_Enforce e)) = ej_Enforce e \<and> (\<forall>r\<in>set (ej_AllowedValues e). wf_raw r) \<and>
     (\<forall>dt. Constraints_Validate lib (ej_Constraints e) dt = None \<and> dt \<noteq> NoType \<longrightarrow>
        (\<forall>c\<in>set (ej_Constraints e). wf_constraint lib c \<and> precompile lib c = c))"

lemma ej_member_read:
  assumes "float_parse_finite lib" "wf_json j" "ej_read lib e"
  shows "ej_read lib (fst (ej_member lib k j e))"
proof -
  have names: "ej_read lib (e\<lparr>ej_Enforce := to_Enforcement s\<rparr>)" "ej_read lib (e\<lparr>ej_Required := b\<rparr>)" for s b
    using assms(3) by (simp_all add: ej_read_def)
  have vals: "ej_read lib (fst (into_raws (\<lambda>vs. e\<lparr>ej_AllowedValues := vs\<rparr>) e j))"
    using assms(2,3) by (cases j) (auto simp: into_raws_def ej_read_def wf_raw_def list_all_iff)
  have cs: "ej_read lib (e\<lparr>ej_Constraints := cs\<rparr>)" if "Constraints_UnmarshalJSON lib (Raw j) = Inr cs" for cs
  proof -
    have "\<forall>c\<in>set cs. wf_constraint lib c \<and> precompile lib c = c" if "Constraints_Validate lib cs dt = None" "dt \<noteq> NoType" for dt
      using Constraints_decoded [OF assms(1) _ \<open>Constraints_UnmarshalJSON _ _ = _\<close> that] assms(2) by (simp add: wf_raw_def)
    then show ?thesis using assms(3) by (auto simp: ej_read_def)
  qed
  show ?thesis
    using names vals cs assms(3)
    by (simp add: ej_member_def into_bool_ptr_def into_string_def split: json.split sum.split)
qed

lemma Effect_decoded:
  assumes "float_parse_finite lib" "wf_raw raw" "Effect_UnmarshalJSON lib raw = Inr e"
  shows "effect_read lib e"
proof -
  have zero: "ej_read lib zero_ej" by (simp add: ej_read_def zero_ej_def)
  let ?x = "fst (decode_struct (ej_member lib) raw zero_ej)"
  have x: "ej_read lib ?x"
  proof (cases "\<exists>kvs. raw = Raw (JObj kvs)")
    case True
    then obtain kvs where kvs: "raw = Raw (JObj kvs)" by blast
    have "ej_read lib (fst (decode_members (ej_member lib) kvs zero_ej))"
      by (rule decode_members_inv_on [of wf_json "ej_read lib", OF ej_member_read [OF assms(1)] zero])
        (use assms(2) in \<open>simp_all add: kvs wf_raw_def wf_json_members del: wf_json.simps\<close>)
    then show ?thesis by (simp add: kvs decode_struct_def)
  qed (use zero in \<open>auto simp: decode_struct_def split: rawmsg.split json.split\<close>)
  from assms(3) obtain vs where vs: "map_result (UnmarshalTypedValue lib) (ej_AllowedValues ?x) = Inr vs"
      "e = \<lparr>eff_AllowedValues = vs, eff_Constraints = ej_Constraints ?x, eff_Required = ej_Required ?x, eff_Enforce = ej_Enforce ?x\<rparr>"
    by (auto simp: Effect_UnmarshalJSON_def split_beta rbind_Inr split: if_splits)
  have "\<forall>v\<in>set vs. v = zero_value \<or> wf_value lib v"
    using unmarshal_members_wf [OF assms(1) _ vs(1)] x by (simp add: ej_read_def)
  with x show ?thesis unfolding vs(2) effect_read_def ej_read_def by simp
qed

lemma enforce_Nil: "to_Enforcement (enforce_String x) = x \<Longrightarrow> enforce_String x = [] \<Longrightarrow> x = EnforceUnset"
  by (cases x) auto

lemmas ej_decode = ej_member_def key_is_self into_raws_def into_bool_ptr_def into_string_def

lemma ej_segments:
  "ej_AllowedValues e = [] \<Longrightarrow>
     decode_members (ej_member lib) (optional (map Raw js \<noteq> []) ''allowed_values'' (JArr (map raw_json (map Raw js)))) e =
       (e\<lparr>ej_AllowedValues := map Raw js\<rparr>, True)"
  "Constraints_UnmarshalJSON lib (Raw j) = Inr cs \<Longrightarrow> ej_Constraints e = [] \<Longrightarrow>
     decode_members (ej_member lib) (optional (cs \<noteq> []) ''constraints'' j) e = (e\<lparr>ej_Constraints := cs\<rparr>, True)"
  "ej_Required e = None \<Longrightarrow>
     decode_members (ej_member lib) (case r of None \<Rightarrow> [] | Some b \<Rightarrow> [(''required'', JBool b)]) e = (e\<lparr>ej_Required := r\<rparr>, True)"
  "to_Enforcement (enforce_String x) = x \<Longrightarrow> ej_Enforce e = EnforceUnset \<Longrightarrow>
     decode_members (ej_member lib) (optional (enforce_String x \<noteq> []) ''enforce'' (JStr (enforce_String x))) e =
       (e\<lparr>ej_Enforce := x\<rparr>, True)"
  using enforce_Nil [of x] by (auto simp: ej_decode comp_def split: option.split)

lemma Effect_round:
  assumes "float_json_round lib" "time_round lib" "effect_read lib e"
    "Constraints_Validate lib (eff_Constraints e) dt = None" "dt \<noteq> NoType"
    "\<forall>v\<in>set (eff_AllowedValues e). in_years v" "\<forall>c\<in>set (eff_Constraints e). years_ok c"
  shows "\<exists>j. Effect_MarshalJSON lib e = Inr j \<and> Effect_UnmarshalJSON lib (Raw j) = Inr e"
proof -
  from assms(3-5) have cs: "\<forall>c\<in>set (eff_Constraints e). wf_constraint lib c \<and> precompile lib c = c"
    by (auto simp: effect_read_def)
  then have same: "map (precompile lib) (eff_Constraints e) = eff_Constraints e" by (simp add: map_idI)
  obtain jc where jc: "Constraints_MarshalJSON lib (eff_Constraints e) = Inr jc"
      "Constraints_UnmarshalJSON lib (Raw jc) = Inr (eff_Constraints e)"
    using Constraints_round [OF assms(1,2) _ _ assms(4)] cs assms(7) by (auto simp: same list_all_iff)
  have "\<forall>v\<in>set (eff_AllowedValues e). v = zero_value \<or> storable lib v" using assms(3,6) by (auto simp: effect_read_def storable_def)
  from members_round [OF assms(1,2) this] obtain js
    where js: "map_result (MarshalTyped lib) (eff_AllowedValues e) = Inr (map Raw js)"
      "map_result (UnmarshalTypedValue lib) (map Raw js) = Inr (eff_AllowedValues e)" by blast
  have x: "to_Enforcement (enforce_String (eff_Enforce e)) = eff_Enforce e" using assms(3) by (simp add: effect_read_def)
  let ?j = "JObj (optional (map Raw js \<noteq> []) ''allowed_values'' (JArr (map raw_json (map Raw js)))
          @ optional (eff_Constraints e \<noteq> []) ''constraints'' jc
          @ (case eff_Required e of None \<Rightarrow> [] | Some b \<Rightarrow> [(''required'', JBool b)])
          @ optional (enforce_String (eff_Enforce e) \<noteq> []) ''enforce'' (JStr (enforce_String (eff_Enforce e))))"
  have "Effect_MarshalJSON lib e = Inr ?j" unfolding Effect_MarshalJSON_def js jc by (simp only: rbind_simps)
  moreover have "decode_struct (ej_member lib) (Raw ?j) zero_ej =
      (\<lparr>ej_AllowedValues = map Raw js, ej_Constraints = eff_Constraints e, ej_Required = eff_Required e, ej_Enforce = eff_Enforce e\<rparr>, True)"
    unfolding decode_struct_def zero_ej_def
    by (simp only: decode_members_append ej_segments(1,3) ej_segments(2) [OF jc(2)] ej_segments(4) [OF x] prod.case json.case rawmsg.case
        effectJSON.simps simp_thms)
  then have "Effect_UnmarshalJSON lib (Raw ?j) = Inr e"
    unfolding Effect_UnmarshalJSON_def by (simp only: Let_def prod.case js(2) rbind_simps effectJSON.simps) simp
  ultimately show ?thesis by blast
qed

lemma Conditions_round:
  assumes "float_json_round lib" "time_round lib" "\<forall>c\<in>set cs. cond_read lib c"
    "\<forall>c\<in>set cs. \<forall>v\<in>operands c \<union> set (cond_Values c). in_years v"
  shows "\<exists>js. map_result (Condition_MarshalJSON lib) cs = Inr js \<and> map_result (\<lambda>x. Condition_UnmarshalJSON lib (Raw x)) js = Inr cs"
  using assms(3,4)
proof (induction cs)
  case (Cons c cs)
  then obtain js where js: "map_result (Condition_MarshalJSON lib) cs = Inr js"
      "map_result (\<lambda>x. Condition_UnmarshalJSON lib (Raw x)) js = Inr cs" by auto
  from Condition_round [OF assms(1,2), of c] Cons.prems obtain j
    where "Condition_MarshalJSON lib c = Inr j" "Condition_UnmarshalJSON lib (Raw j) = Inr c" by auto
  with js show ?case by (intro exI [of _ "j # js"]) simp
qed simp

lemma Conditions_decoded:
  assumes "float_parse_finite lib" "wf_raw raw" "Conditions_UnmarshalJSON lib raw = Inr cs"
  shows "\<forall>c\<in>set cs. cond_read lib c"
proof (cases "\<exists>xs. raw = Raw (JArr xs)")
  case True
  then obtain xs where xs: "raw = Raw (JArr xs)" by blast
  with assms(2,3) have "list_all wf_json xs" "map_result (\<lambda>x. Condition_UnmarshalJSON lib (Raw x)) xs = Inr cs"
    by (simp_all add: wf_raw_def Conditions_UnmarshalJSON_def list_all_iff)
  then show ?thesis
  proof (induction xs arbitrary: cs)
    case (Cons x xs)
    then obtain c cs' where c: "Condition_UnmarshalJSON lib (Raw x) = Inr c" "map_result (\<lambda>x. Condition_UnmarshalJSON lib (Raw x)) xs = Inr cs'"
        "cs = c # cs'" by (auto split: sum.splits)
    have "cond_read lib c" using Condition_decoded [OF assms(1) _ c(1)] Cons.prems(1) by (simp add: wf_raw_def)
    with Cons c show ?case by simp
  qed simp
qed (use assms(3) in \<open>auto simp: Conditions_UnmarshalJSON_def split: rawmsg.splits json.splits\<close>)

end
