(* ===== verification/Dep_Usecases.thy ===== *)
theory Dep_Usecases
  imports Attr_Usecases Dep_Codec
begin

text \<open>
  The dependency use cases (\<^verbatim>\<open>application/dependency/interactor.go\<close>, \<^verbatim>\<open>completeness.go\<close>) over the in-memory repositories
  (\<^verbatim>\<open>infrastructure/memory/instances.go\<close>): authoring, changing and archiving a rule, the lists, the effective schema of one
  attribute for one entity, and the completeness of an entity and of the entities of a type.

  The conventions are those of \<open>Attr_Usecases\<close>: only a successful call returns a new repository. The sweep of
  \<open>TypeCompleteness\<close> is not one unit of work; \<open>stores i\<close> is the value repository as it is while page \<open>i\<close> is read and scored.
\<close>

section \<open>The repository (memory/instances.go)\<close>

definition depRepo_Get :: "dep_store \<Rightarrow> DependencyID \<Rightarrow> Dependency result" where
  "depRepo_Get s i = (case find (\<lambda>d. dep_id d = i) s of None \<Rightarrow> Inl (NewNotFound dep_AggregateType) | Some d \<Rightarrow> Inr d)"

record DepFilter =
  df_TenantID :: TenantID
  df_SourceAttributeID :: AttributeDefinitionID
  df_TargetAttributeID :: AttributeDefinitionID
  df_IncludeArchived :: bool

definition dep_listed :: "DepFilter \<Rightarrow> Dependency \<Rightarrow> bool" where
  "dep_listed f d \<longleftrightarrow>
     dep_tenantID d = df_TenantID f \<and> (df_IncludeArchived f \<or> dep_archivedAt d = None) \<and>
     (id_IsZero (df_SourceAttributeID f) \<or> dep_sourceID d = df_SourceAttributeID f) \<and>
     (id_IsZero (df_TargetAttributeID f) \<or> dep_targetID d = df_TargetAttributeID f)"

definition depRepo_List :: "vctx \<Rightarrow> dep_store \<Rightarrow> DepFilter \<Rightarrow> Page \<Rightarrow> (Dependency list \<times> int) result" where
  "depRepo_List cx s f page =
     paginate (cx_klib cx) (sortByID (\<lambda>d. cx_idString cx (dep_id d)) (filter (dep_listed f) s)) page idKeyset
       (\<lambda>d. idKey (cx_idString cx (dep_id d)))"

fun depRepo_Save :: "dep_store \<Rightarrow> Dependency \<Rightarrow> dep_store" where
  "depRepo_Save [] x = [x]"
| "depRepo_Save (y # ys) x = (if dep_id y = dep_id x then x # ys else y # depRepo_Save ys x)"

section \<open>Decoding and quantity operands (interactor.go)\<close>

definition zero_effect :: Effect where
  "zero_effect = \<lparr>eff_AllowedValues = [], eff_Constraints = [], eff_Required = None, eff_Enforce = EnforceUnset\<rparr>"

definition decodeRule :: "golib \<Rightarrow> rawmsg \<Rightarrow> rawmsg \<Rightarrow> (Condition list \<times> Effect) result" where
  "decodeRule lib rawConditions rawEffect =
     (case (if given rawConditions then Conditions_UnmarshalJSON lib rawConditions else Inr []) of
        Inl _ \<Rightarrow> Inl (NewValidation ''invalid conditions'')
      | Inr conditions \<Rightarrow>
          (case (if given rawEffect then Effect_UnmarshalJSON lib rawEffect else Inr zero_effect) of
             Inl _ \<Rightarrow> Inl (NewValidation ''invalid effect'')
           | Inr effect \<Rightarrow> Inr (conditions, effect)))"

definition rebaseWith :: "vctx \<Rightarrow> AttributeDefinition \<Rightarrow> (gvalue \<Rightarrow> gvalue result) result" where
  "rebaseWith cx def =
     (if ad_dataType def \<noteq> DataTypeQuantity then Inr Inr
      else (case cx_units cx of None \<Rightarrow> Inl (NewValidation ''unit families are not configured in this deployment'')
        | Some units \<Rightarrow>
            if ad_unitFamilyID def = [] then Inl (NewValidation ''quantity attribute in a dependency requires a unit family'')
            else rbind (as_validation (cx_parseID cx (ad_unitFamilyID def))) (\<lambda>famID.
                 rbind (units (cx_tenant cx) famID) (\<lambda>family. Inr (rebase cx family)))))"

definition rebase_ptr :: "(gvalue \<Rightarrow> gvalue result) \<Rightarrow> gvalue option \<Rightarrow> gvalue option result" where
  "rebase_ptr f p = (case p of None \<Rightarrow> Inr None | Some v \<Rightarrow> map_sum id Some (f v))"

definition rebase_condition :: "(gvalue \<Rightarrow> gvalue result) \<Rightarrow> Condition \<Rightarrow> Condition result" where
  "rebase_condition f c =
     rbind (rebase_ptr f (cond_Value c)) (\<lambda>v.
     rbind (rebase_ptr f (cond_Min c)) (\<lambda>mn.
     rbind (rebase_ptr f (cond_Max c)) (\<lambda>mx.
     rbind (map_result f (cond_Values c)) (\<lambda>vs.
       Inr (c\<lparr>cond_Value := v, cond_Min := mn, cond_Max := mx, cond_Values := vs\<rparr>)))))"

fun rebase_rule_constraint :: "(gvalue \<Rightarrow> gvalue result) \<Rightarrow> Constraint \<Rightarrow> Constraint result" where
  "rebase_rule_constraint f (MinValue v) = map_sum id MinValue (f v)"
| "rebase_rule_constraint f (MaxValue v) = map_sum id MaxValue (f v)"
| "rebase_rule_constraint f (OneOf vs) = map_sum id OneOf (map_result f vs)"
| "rebase_rule_constraint f c = Inr c"

definition rebase_effect :: "(gvalue \<Rightarrow> gvalue result) \<Rightarrow> Effect \<Rightarrow> Effect result" where
  "rebase_effect f e =
     rbind (map_result f (eff_AllowedValues e)) (\<lambda>vs.
     rbind (map_result (rebase_rule_constraint f) (eff_Constraints e)) (\<lambda>cs.
       Inr (e\<lparr>eff_AllowedValues := vs, eff_Constraints := cs\<rparr>)))"

definition RebaseRuleOperands :: "Condition list \<Rightarrow> Effect option \<Rightarrow> (gvalue \<Rightarrow> gvalue result) \<Rightarrow> (gvalue \<Rightarrow> gvalue result) \<Rightarrow>
    (Condition list \<times> Effect option) result" where
  "RebaseRuleOperands conditions effect rebaseSource rebaseTarget =
     rbind (map_result (rebase_condition rebaseSource) conditions) (\<lambda>conditions.
       (case effect of None \<Rightarrow> Inr (conditions, None)
        | Some e \<Rightarrow> map_sum id (\<lambda>e. (conditions, Some e)) (rebase_effect rebaseTarget e)))"

definition normalizeQuantityOperands :: "vctx \<Rightarrow> AttributeDefinition \<Rightarrow> AttributeDefinition \<Rightarrow> Condition list \<Rightarrow> Effect option \<Rightarrow>
    (Condition list \<times> Effect option) result" where
  "normalizeQuantityOperands cx source target conditions effect =
     rbind (rebaseWith cx source) (\<lambda>rebaseSource.
       (case effect of None \<Rightarrow> RebaseRuleOperands conditions None rebaseSource Inr
        | Some _ \<Rightarrow> rbind (rebaseWith cx target) (\<lambda>rebaseTarget. RebaseRuleOperands conditions effect rebaseSource rebaseTarget)))"

section \<open>Guards\<close>

definition assertRuleAccess :: "Access \<Rightarrow> AttributeDefinition \<Rightarrow> AttributeDefinition \<Rightarrow> goerr option" where
  "assertRuleAccess access source target =
     (if \<not> CanRead access (ad_internalName source) then Some (NewNotFound attr_AggregateType)
      else if \<not> CanRead access (ad_internalName target) then Some (NewNotFound attr_AggregateType)
      else if \<not> CanWrite access (ad_internalName target)
        then Some (NewForbidden ''a dependency requires write permission on its target attribute'')
      else None)"

definition checkSameChain :: "vrepos \<Rightarrow> AttributeDefinition \<Rightarrow> AttributeDefinition \<Rightarrow> unit result" where
  "checkSameChain rp source target =
     (if ad_typeDefinitionID source = ad_typeDefinitionID target then Inr ()
      else rbind (types_get rp (ad_typeDefinitionID source)) (\<lambda>sourceType.
           rbind (IsAncestorOrSelf (types_get rp) sourceType (ad_typeDefinitionID target)) (\<lambda>ok.
           rbind (if ok then Inr True
                  else rbind (types_get rp (ad_typeDefinitionID target)) (\<lambda>targetType.
                       IsAncestorOrSelf (types_get rp) targetType (ad_typeDefinitionID source))) (\<lambda>ok.
             if \<not> ok then Inl (NewValidation ''source and target attributes must belong to the same type hierarchy'') else Inr ()))))"

section \<open>Create, update, archive\<close>

record DepCreateRequest =
  dc_SourceAttributeID :: string
  dc_TargetAttributeID :: string
  dc_Conditions :: rawmsg
  dc_Effect :: rawmsg
  dc_Description :: string

record DepUpdateRequest =
  dr_ID :: string
  dr_Conditions :: rawmsg
  dr_Effect :: rawmsg
  dr_Description :: string
  dr_Version :: "int option"

record dep_change =
  dh_Action :: schema_action
  dh_Before :: "Dependency option"
  dh_After :: Dependency

type_synonym dep_outcome = "(dep_store \<times> Dependency \<times> dep_event list \<times> dep_change) result"

definition save_dep :: "dep_store \<Rightarrow> schema_action \<Rightarrow> Dependency option \<Rightarrow> Dependency \<times> dep_event list \<Rightarrow> dep_outcome" where
  "save_dep s action before res =
     (let (d, evts) = res
      in Inr (depRepo_Save s d, d, evts, \<lparr>dh_Action = action, dh_Before = before, dh_After = d\<rparr>))"

definition own_attr :: "vctx \<Rightarrow> vrepos \<Rightarrow> AttributeDefinitionID \<Rightarrow> AttributeDefinition result" where
  "own_attr cx rp i =
     rbind (attrRepo_Get (rp_attrs rp) i) (\<lambda>a. rguard (EnsureTenant (cx_tenant cx) (ad_tenantID a) attr_AggregateType) (Inr a))"

definition DepCreate :: "vctx \<Rightarrow> vrepos \<Rightarrow> DepCreateRequest \<Rightarrow> DependencyID \<Rightarrow> int \<Rightarrow> dep_outcome" where
  "DepCreate cx rp inp newid now =
     rbind (as_validation (cx_parseID cx (dc_SourceAttributeID inp))) (\<lambda>sourceID.
     rbind (as_validation (cx_parseID cx (dc_TargetAttributeID inp))) (\<lambda>targetID.
     rbind (decodeRule (cx_lib cx) (dc_Conditions inp) (dc_Effect inp)) (\<lambda>(conditions, effect).
     rbind (own_attr cx rp sourceID) (\<lambda>source.
     rbind (own_attr cx rp targetID) (\<lambda>target.
     rguard (assertRuleAccess (cx_access cx) source target) (
     rbind (checkSameChain rp source target) (\<lambda>_.
     rbind (normalizeQuantityOperands cx source target conditions (Some effect)) (\<lambda>(conditions, effect).
     rbind (dep_New (cx_lib cx)
              \<lparr>dn_TenantID = ad_tenantID source, dn_Source = Some source, dn_Target = Some target,
               dn_Conditions = conditions, dn_Effect = the effect, dn_Description = dc_Description inp\<rparr> newid now)
       (save_dep (rp_deps rp) SchemaCreated None)))))))))"

definition load_dep :: "vctx \<Rightarrow> vrepos \<Rightarrow> string \<Rightarrow> Dependency result" where
  "load_dep cx rp raw =
     rbind (as_validation (cx_parseID cx raw)) (\<lambda>i.
     rbind (depRepo_Get (rp_deps rp) i) (\<lambda>d.
     rguard (EnsureTenant (cx_tenant cx) (dep_tenantID d) dep_AggregateType) (Inr d)))"

definition DepUpdate :: "vctx \<Rightarrow> vrepos \<Rightarrow> DepUpdateRequest \<Rightarrow> int \<Rightarrow> dep_outcome" where
  "DepUpdate cx rp inp now =
     rbind (as_validation (cx_parseID cx (dr_ID inp))) (\<lambda>_.
     rbind (decodeRule (cx_lib cx) (dr_Conditions inp) (dr_Effect inp)) (\<lambda>(conditions, effect).
     rbind (load_dep cx rp (dr_ID inp)) (\<lambda>d.
     if dr_Version inp \<noteq> None \<and> dr_Version inp \<noteq> Some (dep_version d)
     then Inl (NewConflict ''the dependency was modified by someone else; reload it and retry'')
     else
     rbind (attrRepo_Get (rp_attrs rp) (dep_sourceID d)) (\<lambda>source.
     rbind (attrRepo_Get (rp_attrs rp) (dep_targetID d)) (\<lambda>target.
     rguard (assertRuleAccess (cx_access cx) source target) (
     rbind (normalizeQuantityOperands cx source target conditions (Some effect)) (\<lambda>(conditions, effect).
     rbind (dep_Update (cx_lib cx) d
              (Some source, Some target,
               \<lparr>du_Conditions = conditions, du_Effect = the effect, du_Description = dr_Description inp\<rparr>) now)
       (save_dep (rp_deps rp) SchemaUpdated (Some d)))))))))"

definition DepArchive :: "vctx \<Rightarrow> vrepos \<Rightarrow> string \<Rightarrow> int \<Rightarrow> dep_outcome" where
  "DepArchive cx rp raw now =
     rbind (load_dep cx rp raw) (\<lambda>d.
     rbind (attrRepo_Get (rp_attrs rp) (dep_targetID d)) (\<lambda>target.
     if \<not> CanRead (cx_access cx) (ad_internalName target) then Inl (NewNotFound dep_AggregateType)
     else if \<not> CanWrite (cx_access cx) (ad_internalName target)
       then Inl (NewForbidden ''archiving a dependency requires write permission on its target attribute'')
     else rbind (dep_Archive d now) (save_dep (rp_deps rp) SchemaArchived (Some d))))"

section \<open>Reads\<close>

definition DepGet :: "vctx \<Rightarrow> vrepos \<Rightarrow> string \<Rightarrow> Dependency result" where
  "DepGet cx rp raw = load_dep cx rp raw"

record DepListInput =
  dl_SourceAttributeID :: string
  dl_TargetAttributeID :: string
  dl_IncludeArchived :: bool
  dl_Page :: PageArgs

definition DepList :: "vctx \<Rightarrow> vrepos \<Rightarrow> DepListInput \<Rightarrow> (Dependency list \<times> PageInfo) result" where
  "DepList cx rp inp =
     rbind (as_validation (page_Resolve (cx_klib cx) (dl_Page inp))) (\<lambda>page.
     rbind (if dl_SourceAttributeID inp = [] then Inr 0 else as_validation (cx_parseID cx (dl_SourceAttributeID inp))) (\<lambda>source.
     rbind (if dl_TargetAttributeID inp = [] then Inr 0 else as_validation (cx_parseID cx (dl_TargetAttributeID inp))) (\<lambda>target.
     rbind (depRepo_List cx (rp_deps rp) \<lparr>df_TenantID = cx_tenant cx, df_SourceAttributeID = source, df_TargetAttributeID = target,
              df_IncludeArchived = dl_IncludeArchived inp\<rparr> page) (\<lambda>(items, count).
       Inr (KeysetPage page items (KeysetTotal page count) (\<lambda>d. EncodeKeyset (cx_klib cx) [cx_idString cx (dep_id d)]))))))"

record EffectiveSchemaOutput =
  eo_AttributeDefinitionID :: string
  eo_EntityID :: string
  eo_Required :: bool
  eo_Restricted :: bool
  eo_AllowedValues :: "gvalue list"
  eo_RequiredEnforcement :: Enforcement

definition DepEffectiveSchema :: "vctx \<Rightarrow> vrepos \<Rightarrow> value_store \<Rightarrow> string \<Rightarrow> string \<Rightarrow> EffectiveSchemaOutput result" where
  "DepEffectiveSchema cx rp s rawAttrID rawEntityID =
     rbind (as_validation (cx_parseID cx rawAttrID)) (\<lambda>attrID.
     rbind (as_validation (ParseEntityID rawEntityID)) (\<lambda>entityID.
     rbind (own_attr cx rp attrID) (\<lambda>def.
     if \<not> CanRead (cx_access cx) (ad_internalName def) then Inl (NewNotFound attr_AggregateType)
     else let targeting = depRepo_ListByTarget (cx_idString cx) (rp_deps rp) attrID
     in rbind (if targeting = [] then Inr (\<lambda>_. [])
               else map_sum id filled_by
                 (readableOnly cx rp (ListByEntities (cx_idString cx) s (ad_tenantID def) [entityID]))) (\<lambda>sourceValues.
        rbind (ResolveEffectiveWithContext (cx_lib cx) def targeting sourceValues (cx_facts cx) (cx_localNow cx)) (\<lambda>schema.
          Inr \<lparr>eo_AttributeDefinitionID = cx_idString cx attrID, eo_EntityID = entityID, eo_Required = es_Required schema,
            eo_Restricted = es_Restricted schema, eo_AllowedValues = es_AllowedValues schema,
            eo_RequiredEnforcement = enforce_Or (es_RequiredEnforcement schema) DefaultEnforcement\<rparr>)))))"

section \<open>Completeness (completeness.go)\<close>

record MissingAttribute =
  ma_AttributeDefinitionID :: string
  ma_InternalName :: string
  ma_DisplayName :: string
  ma_Group :: string

record CompletenessOutput =
  cp_EntityID :: string
  cp_TypeDefinitionID :: string
  cp_Required :: nat
  cp_Filled :: nat
  cp_Score :: float64
  cp_Missing :: "MissingAttribute list"

definition entityFilled :: "vctx \<Rightarrow> vrepos \<Rightarrow> value_store \<Rightarrow> TenantID \<Rightarrow> TypeDefinitionID \<Rightarrow> EntityID \<Rightarrow>
    (AttributeDefinitionID \<Rightarrow> gvalue list) result" where
  "entityFilled cx rp s tenant typeID entityID =
     map_sum id filled_by (readableOnly cx rp (ListByEntity (cx_idString cx) s
       \<lparr>ek_TenantID = tenant, ek_TypeDefinitionID = typeID, ek_EntityID = entityID\<rparr>))"

definition attributeRequired :: "vctx \<Rightarrow> vrepos \<Rightarrow> AttributeDefinition \<Rightarrow> (AttributeDefinitionID \<Rightarrow> gvalue list) \<Rightarrow> bool result" where
  "attributeRequired cx rp a filled =
     (let deps = depRepo_ListByTarget (cx_idString cx) (rp_deps rp) (ad_id a)
      in if deps = [] then Inr (ad_required a)
         else map_sum id es_Required
           (ResolveEffectiveWithContext (cx_lib cx) a deps filled (cx_facts cx) (cx_localNow cx)))"

text \<open>The tally of \<^verbatim>\<open>scoreEntity\<close>: the identifiers seen, the counts and the attributes that miss a value.\<close>

record score_state =
  ss_seen :: "AttributeDefinitionID list"
  ss_Required :: nat
  ss_Filled :: nat
  ss_Missing :: "MissingAttribute list"

definition missing_of :: "vctx \<Rightarrow> AttributeDefinition \<Rightarrow> MissingAttribute" where
  "missing_of cx a = \<lparr>ma_AttributeDefinitionID = cx_idString cx (ad_id a), ma_InternalName = ad_internalName a,
     ma_DisplayName = ad_displayName a, ma_Group = ad_group a\<rparr>"

definition score_attr :: "vctx \<Rightarrow> vrepos \<Rightarrow> (AttributeDefinitionID \<Rightarrow> gvalue list) \<Rightarrow> AttributeDefinition \<Rightarrow> score_state \<Rightarrow>
    score_state result" where
  "score_attr cx rp filled a st =
     (if ad_id a \<in> set (ss_seen st) then Inr st
      else let st = st\<lparr>ss_seen := ad_id a # ss_seen st\<rparr>
      in if \<not> CanRead (cx_access cx) (ad_internalName a) then Inr st
         else rbind (attributeRequired cx rp a filled) (\<lambda>required.
           if \<not> required then Inr st
           else let st = st\<lparr>ss_Required := ss_Required st + 1\<rparr>
           in if filled (ad_id a) \<noteq> [] then Inr (st\<lparr>ss_Filled := ss_Filled st + 1\<rparr>)
              else Inr (st\<lparr>ss_Missing := ss_Missing st @ [missing_of cx a]\<rparr>)))"

fun score_attrs :: "vctx \<Rightarrow> vrepos \<Rightarrow> (AttributeDefinitionID \<Rightarrow> gvalue list) \<Rightarrow> AttributeDefinition list \<Rightarrow> score_state \<Rightarrow>
    score_state result" where
  "score_attrs cx rp filled [] st = Inr st"
| "score_attrs cx rp filled (a # as) st = rbind (score_attr cx rp filled a st) (score_attrs cx rp filled as)"

fun score_chain :: "vctx \<Rightarrow> vrepos \<Rightarrow> (AttributeDefinitionID \<Rightarrow> gvalue list) \<Rightarrow> TypeDefinition list \<Rightarrow> score_state \<Rightarrow>
    score_state result" where
  "score_chain cx rp filled [] st = Inr st"
| "score_chain cx rp filled (link # chain) st =
     rbind (list_all_for cx rp (td_id link)) (\<lambda>as. rbind (score_attrs cx rp filled as st) (score_chain cx rp filled chain))"

definition score_of :: "nat \<Rightarrow> nat \<Rightarrow> float64" where
  "score_of filled required =
     (if required > 0 then f_div (f_of_int (int filled)) (f_of_int (int required)) else FFin 1)"

definition scoreEntity :: "vctx \<Rightarrow> vrepos \<Rightarrow> TypeDefinition \<Rightarrow> EntityID \<Rightarrow> (AttributeDefinitionID \<Rightarrow> gvalue list) \<Rightarrow>
    CompletenessOutput result" where
  "scoreEntity cx rp t entityID filled =
     rbind (Chain (types_get rp) t) (\<lambda>chain.
     rbind (score_chain cx rp filled chain \<lparr>ss_seen = [], ss_Required = 0, ss_Filled = 0, ss_Missing = []\<rparr>) (\<lambda>st.
       Inr \<lparr>cp_EntityID = entityID, cp_TypeDefinitionID = cx_idString cx (td_id t), cp_Required = ss_Required st,
         cp_Filled = ss_Filled st, cp_Score = score_of (ss_Filled st) (ss_Required st),
         cp_Missing = sort_key (\<lambda>m. (ma_Group m, ma_InternalName m)) (ss_Missing st)\<rparr>))"

definition own_type :: "vctx \<Rightarrow> vrepos \<Rightarrow> TypeDefinitionID \<Rightarrow> TypeDefinition result" where
  "own_type cx rp i =
     rbind (types_get rp i) (\<lambda>t. rguard (EnsureTenant (cx_tenant cx) (td_tenantID t) ''type_definition'') (Inr t))"

definition Completeness :: "vctx \<Rightarrow> vrepos \<Rightarrow> value_store \<Rightarrow> string \<Rightarrow> string \<Rightarrow> CompletenessOutput result" where
  "Completeness cx rp s rawTypeID rawEntityID =
     rbind (as_validation (cx_parseID cx rawTypeID)) (\<lambda>typeID.
     rbind (as_validation (ParseEntityID rawEntityID)) (\<lambda>entityID.
     rbind (own_type cx rp typeID) (\<lambda>t.
     rbind (entityFilled cx rp s (td_tenantID t) typeID entityID) (scoreEntity cx rp t entityID))))"

record EntityScore =
  en_EntityID :: string
  en_Score :: float64
  en_Filled :: nat
  en_Required :: nat

record TypeCompletenessOutput =
  tc_TypeDefinitionID :: string
  tc_Count :: int
  tc_Scored :: nat
  tc_Truncated :: bool
  tc_AverageScore :: float64
  tc_Complete :: nat
  tc_Incomplete :: nat
  tc_Entities :: "EntityScore list"

definition maxCompletenessScan :: nat where "maxCompletenessScan = 1000"

text \<open>The state of the loop: the output so far, the cache of types and the running sum.\<close>

record scan_state =
  sn_out :: TypeCompletenessOutput
  sn_types :: "(TypeDefinitionID \<times> TypeDefinition) list"
  sn_sum :: float64

definition f_ge :: "float64 \<Rightarrow> float64 \<Rightarrow> bool" where
  "f_ge a b \<longleftrightarrow> f_lt b a \<or> f_eq a b"

definition scan_one :: "vctx \<Rightarrow> vrepos \<Rightarrow> value_store \<Rightarrow> TenantID \<Rightarrow> EntitySummary \<Rightarrow> scan_state \<Rightarrow> scan_state result" where
  "scan_one cx rp s tenant sm st =
     rbind (case map_of (sn_types st) (sm_TypeDefinitionID sm) of Some et \<Rightarrow> Inr et
            | None \<Rightarrow> types_get rp (sm_TypeDefinitionID sm)) (\<lambda>et.
     rbind (entityFilled cx rp s tenant (sm_TypeDefinitionID sm) (sm_EntityID sm)) (\<lambda>filled.
     rbind (scoreEntity cx rp et (sm_EntityID sm) filled) (\<lambda>score.
       let out = sn_out st;
           complete = f_ge (cp_Score score) (FFin 1)
       in Inr \<lparr>sn_out = out\<lparr>tc_Entities := tc_Entities out @ [\<lparr>en_EntityID = cp_EntityID score, en_Score = cp_Score score,
                     en_Filled = cp_Filled score, en_Required = cp_Required score\<rparr>],
                   tc_Complete := (if complete then tc_Complete out + 1 else tc_Complete out),
                   tc_Incomplete := (if complete then tc_Incomplete out else tc_Incomplete out + 1)\<rparr>,
               sn_types = (sm_TypeDefinitionID sm, et) # sn_types st,
               sn_sum = f_add (sn_sum st) (cp_Score score)\<rparr>)))"

fun scan_page :: "vctx \<Rightarrow> vrepos \<Rightarrow> value_store \<Rightarrow> TenantID \<Rightarrow> EntitySummary list \<Rightarrow> scan_state \<Rightarrow> scan_state result" where
  "scan_page cx rp s tenant [] st = Inr st"
| "scan_page cx rp s tenant (sm # sms) st = rbind (scan_one cx rp s tenant sm st) (scan_page cx rp s tenant sms)"

fun scan_loop :: "vctx \<Rightarrow> (int \<Rightarrow> string) \<Rightarrow> vrepos \<Rightarrow> (nat \<Rightarrow> value_store) \<Rightarrow> TenantID \<Rightarrow> TypeDefinitionID \<Rightarrow> nat \<Rightarrow> bool \<Rightarrow> Page \<Rightarrow>
    scan_state \<Rightarrow> scan_state result option" where
  "scan_loop cx timeKey rp stores tenant typeID 0 isFirst page st = None"
| "scan_loop cx timeKey rp stores tenant typeID (Suc n) isFirst page st =
     (case valueRepo_ListEntities (cx_klib cx) timeKey (stores 0) tenant [typeID] page of Inl e \<Rightarrow> Some (Inl e)
      | Inr (summaries, count) \<Rightarrow>
          let st = (if isFirst then st\<lparr>sn_out := (sn_out st)\<lparr>tc_Count := count\<rparr>\<rparr> else st);
              page = (if isFirst then page\<lparr>pg_WantTotal := False\<rparr> else page)
          in (case scan_page cx rp (stores 0) tenant summaries st of Inl e \<Rightarrow> Some (Inl e)
              | Inr st \<Rightarrow>
                  if length (tc_Entities (sn_out st)) \<ge> maxCompletenessScan
                  then Some (Inr (st\<lparr>sn_out := (sn_out st)\<lparr>tc_Truncated := True\<rparr>\<rparr>))
                  else if int (length summaries) \<le> pg_Limit page then Some (Inr st)
                  else scan_loop cx timeKey rp (\<lambda>i. stores (Suc i)) tenant typeID n False
                         (page\<lparr>pg_Cursor := EncodeKeyset (cx_klib cx) [sm_EntityID (last summaries)]\<rparr>) st))"

text \<open>A turn that goes on has scored at least 201 entities, so five turns reach the cap of 1000.\<close>

definition TypeCompleteness :: "vctx \<Rightarrow> (int \<Rightarrow> string) \<Rightarrow> vrepos \<Rightarrow> (nat \<Rightarrow> value_store) \<Rightarrow> string \<Rightarrow>
    TypeCompletenessOutput result option" where
  "TypeCompleteness cx timeKey rp stores rawTypeID =
     (case rbind (as_validation (cx_parseID cx rawTypeID)) (\<lambda>typeID. map_sum id (Pair typeID) (own_type cx rp typeID)) of
        Inl e \<Rightarrow> Some (Inl e)
      | Inr (typeID, t) \<Rightarrow>
          map_option (map_sum id (\<lambda>st.
              let out = (sn_out st)\<lparr>tc_Scored := length (tc_Entities (sn_out st))\<rparr>
              in if tc_Scored out > 0 then out\<lparr>tc_AverageScore := f_div (sn_sum st) (f_of_int (int (tc_Scored out)))\<rparr> else out))
            (scan_loop cx timeKey rp stores (td_tenantID t) typeID 5 True
               \<lparr>pg_Limit = 200, pg_Cursor = [], pg_WantTotal = True, pg_Stable = True\<rparr>
               \<lparr>sn_out = \<lparr>tc_TypeDefinitionID = cx_idString cx typeID, tc_Count = 0, tc_Scored = 0, tc_Truncated = False,
                   tc_AverageScore = FFin 0, tc_Complete = 0, tc_Incomplete = 0, tc_Entities = []\<rparr>,
                sn_types = [(typeID, t)], sn_sum = FFin 0\<rparr>))"

end
