(* ===== verification/Dep_Laws.thy ===== *)
theory Dep_Laws
  imports Dep_Usecases Attr_Laws Query_Views
begin

text \<open>
  What the dependency use cases keep. A stored rule stays valid for the current definitions of its source and target through every rule
  change and schema change, so it can always be evaluated; only principals with access to both attributes
  change rules; the effective schema and the completeness of an entity do not depend on values the caller may not read; a
  completeness score is one exactly when no value is missing.
\<close>

section \<open>Who changes a rule\<close>

lemma own_attr_Inr: "own_attr cx rp i = Inr a \<longleftrightarrow> attrRepo_Get (rp_attrs rp) i = Inr a \<and> ad_tenantID a = cx_tenant cx"
  by (auto simp: own_attr_def rbind_Inr rguard_Inr EnsureTenant_def split: if_splits)

lemma depRepo_Get_Inr: "depRepo_Get s i = Inr d \<Longrightarrow> dep_id d = i \<and> d \<in> set s"
  by (auto simp: depRepo_Get_def find_Some_iff split: option.splits)

lemma load_dep_Inr:
  assumes "load_dep cx rp raw = Inr d"
  shows "depRepo_Get (rp_deps rp) (dep_id d) = Inr d \<and> d \<in> set (rp_deps rp) \<and> dep_tenantID d = cx_tenant cx"
proof -
  from assms obtain i where "depRepo_Get (rp_deps rp) i = Inr d" "dep_tenantID d = cx_tenant cx"
    by (auto simp: load_dep_def rbind_Inr rguard_Inr EnsureTenant_def split: if_splits)
  with depRepo_Get_Inr [OF this(1)] show ?thesis by simp
qed

definition rule_access :: "Access \<Rightarrow> AttributeDefinition \<Rightarrow> AttributeDefinition \<Rightarrow> bool" where
  "rule_access access source target \<longleftrightarrow>
     CanRead access (ad_internalName source) \<and> CanRead access (ad_internalName target) \<and> CanWrite access (ad_internalName target)"

lemma assertRuleAccess_None: "assertRuleAccess access source target = None \<longleftrightarrow> rule_access access source target"
  by (auto simp: assertRuleAccess_def rule_access_def)

text \<open>The types of source and target lie on one chain.\<close>

definition on_chain :: "vrepos \<Rightarrow> AttributeDefinition \<Rightarrow> AttributeDefinition \<Rightarrow> bool" where
  "on_chain rp a b \<longleftrightarrow> (\<exists>t. types_get rp (ad_typeDefinitionID a) = Inr t \<and> IsAncestorOrSelf (types_get rp) t (ad_typeDefinitionID b) = Inr True)"

lemma checkSameChain_Inr:
  "checkSameChain rp source target = Inr () \<Longrightarrow>
     ad_typeDefinitionID source = ad_typeDefinitionID target \<or> on_chain rp source target \<or> on_chain rp target source"
  by (auto simp: checkSameChain_def on_chain_def rbind_Inr split: if_splits)

lemma create_rule_run:
  assumes "DepCreate cx rp inp newid now = Inr (deps', d, es, ch)"
  obtains source target cs e cs' e' where "attrRepo_Get (rp_attrs rp) (ad_id source) = Inr source" "ad_tenantID source = cx_tenant cx"
    "attrRepo_Get (rp_attrs rp) (ad_id target) = Inr target" "ad_tenantID target = cx_tenant cx" "ad_id source \<noteq> ad_id target"
    "rule_access (cx_access cx) source target" "checkSameChain rp source target = Inr ()"
    "decodeRule (cx_lib cx) (dc_Conditions inp) (dc_Effect inp) = Inr (cs, e)"
    "normalizeQuantityOperands cx source target cs (Some e) = Inr (cs', Some e')"
    "validateRule (cx_lib cx) source target cs' e' = None"
    "deps' = depRepo_Save (rp_deps rp) d" "dep_id d = newid" "dep_sourceID d = ad_id source" "dep_targetID d = ad_id target"
    "dep_tenantID d = (if cx_tenant cx = [] then DefaultTenant else cx_tenant cx)" "dep_conditions d = cs'" "dep_effect d = e'"
    "dep_version d = 1" "dep_archivedAt d = None"
proof -
  from assms obtain sid tid source target cs e cs' eo evts where
    c: "attrRepo_Get (rp_attrs rp) sid = Inr source" "ad_tenantID source = cx_tenant cx"
    "attrRepo_Get (rp_attrs rp) tid = Inr target" "ad_tenantID target = cx_tenant cx"
    "rule_access (cx_access cx) source target" "checkSameChain rp source target = Inr ()"
    "decodeRule (cx_lib cx) (dc_Conditions inp) (dc_Effect inp) = Inr (cs, e)"
    "normalizeQuantityOperands cx source target cs (Some e) = Inr (cs', eo)"
    and new: "dep_New (cx_lib cx) \<lparr>dn_TenantID = ad_tenantID source, dn_Source = Some source, dn_Target = Some target,
               dn_Conditions = cs', dn_Effect = the eo, dn_Description = dc_Description inp\<rparr> newid now = Inr (d, evts)"
    and save: "deps' = depRepo_Save (rp_deps rp) d"
    unfolding DepCreate_def save_dep_def by (auto simp: rbind_Inr rguard_Inr own_attr_Inr assertRuleAccess_None)
  from c(8) obtain e' where e': "eo = Some e'"
    by (auto simp: normalizeQuantityOperands_def RebaseRuleOperands_def rbind_Inr map_sum_Inr)
  have ids: "ad_id source = sid" "ad_id target = tid" using mem_attrs.get_id c(1,3) by blast+
  show thesis
    by (rule that [of source target cs e cs' e'])
      (use c new e' ids save in \<open>auto simp: dep_New_def Let_def split: if_splits option.splits\<close>)
qed

lemma update_rule_run:
  assumes "DepUpdate cx rp req now = Inr (deps', d', es, ch)"
  obtains d source target cs e cs' e' where "d \<in> set (rp_deps rp)" "dep_tenantID d = cx_tenant cx" "depRepo_Get (rp_deps rp) (dep_id d) = Inr d"
    "dr_Version req = None \<or> dr_Version req = Some (dep_version d)"
    "attrRepo_Get (rp_attrs rp) (dep_sourceID d) = Inr source" "attrRepo_Get (rp_attrs rp) (dep_targetID d) = Inr target"
    "rule_access (cx_access cx) source target"
    "decodeRule (cx_lib cx) (dr_Conditions req) (dr_Effect req) = Inr (cs, e)"
    "normalizeQuantityOperands cx source target cs (Some e) = Inr (cs', Some e')"
    "validateRule (cx_lib cx) source target cs' e' = None" "deps' = depRepo_Save (rp_deps rp) d'"
    "d' = d\<lparr>dep_conditions := cs', dep_effect := e', dep_description := dr_Description req, dep_version := dep_version d + 1, dep_updatedAt := now\<rparr>"
    "\<not> dep_IsArchived d"
proof -
  from assms obtain d source target cs e cs' eo evts where
    c: "load_dep cx rp (dr_ID req) = Inr d" "dr_Version req = None \<or> dr_Version req = Some (dep_version d)"
    "attrRepo_Get (rp_attrs rp) (dep_sourceID d) = Inr source" "attrRepo_Get (rp_attrs rp) (dep_targetID d) = Inr target"
    "rule_access (cx_access cx) source target" "decodeRule (cx_lib cx) (dr_Conditions req) (dr_Effect req) = Inr (cs, e)"
    "normalizeQuantityOperands cx source target cs (Some e) = Inr (cs', eo)"
    and up: "dep_Update (cx_lib cx) d (Some source, Some target,
               \<lparr>du_Conditions = cs', du_Effect = the eo, du_Description = dr_Description req\<rparr>) now = Inr (d', evts)"
    and save: "deps' = depRepo_Save (rp_deps rp) d'"
    unfolding DepUpdate_def save_dep_def by (auto simp: rbind_Inr rguard_Inr assertRuleAccess_None split: if_splits)
  from c(7) obtain e' where e': "eo = Some e'"
    by (auto simp: normalizeQuantityOperands_def RebaseRuleOperands_def rbind_Inr map_sum_Inr)
  from up e' have "\<not> dep_IsArchived d" "validateRule (cx_lib cx) source target cs' e' = None"
      "d' = d\<lparr>dep_conditions := cs', dep_effect := e', dep_description := dr_Description req, dep_version := dep_version d + 1, dep_updatedAt := now\<rparr>"
    by (auto simp: dep_Update_def Let_def split: if_splits option.splits)
  with that c e' save load_dep_Inr [OF c(1)] show thesis by blast
qed

lemma archive_rule_run:
  assumes "DepArchive cx rp raw now = Inr (deps', d', es, ch)"
  obtains d target where "d \<in> set (rp_deps rp)" "dep_tenantID d = cx_tenant cx" "depRepo_Get (rp_deps rp) (dep_id d) = Inr d"
    "attrRepo_Get (rp_attrs rp) (dep_targetID d) = Inr target" "CanRead (cx_access cx) (ad_internalName target)"
    "CanWrite (cx_access cx) (ad_internalName target)" "deps' = depRepo_Save (rp_deps rp) d'"
    "d' = d\<lparr>dep_archivedAt := Some now, dep_updatedAt := now\<rparr>"
proof -
  from assms obtain d target evts where c: "load_dep cx rp raw = Inr d" "attrRepo_Get (rp_attrs rp) (dep_targetID d) = Inr target"
    "CanRead (cx_access cx) (ad_internalName target)" "CanWrite (cx_access cx) (ad_internalName target)"
    "dep_Archive d now = Inr (d', evts)" "deps' = depRepo_Save (rp_deps rp) d'"
    unfolding DepArchive_def save_dep_def by (auto simp: rbind_Inr split: if_splits)
  from c(5) have "d' = d\<lparr>dep_archivedAt := Some now, dep_updatedAt := now\<rparr>" by (auto simp: dep_Archive_def split: if_splits)
  with that c load_dep_Inr [OF c(1)] show thesis by blast
qed

section \<open>Stored rules fit the current schema\<close>

definition effect_fits :: "golib \<Rightarrow> DataType \<Rightarrow> Effect \<Rightarrow> bool" where
  "effect_fits lib dt e \<longleftrightarrow> enforce_Valid (eff_Enforce e) \<and> (eff_Enforce e \<noteq> EnforceUnset \<longrightarrow> DemandsValue e) \<and> \<not> effect_isEmpty e \<and>
     (\<forall>v\<in>set (eff_AllowedValues e). dataType v = dt) \<and> Constraints_Validate lib (eff_Constraints e) dt = None"

text \<open>Operands of a quantity source are converted by its unit family, whose arithmetic may leave float64; those of any other source are
  as the request carried them.\<close>

definition rule_fits :: "golib \<Rightarrow> DataType \<Rightarrow> DataType \<Rightarrow> Dependency \<Rightarrow> bool" where
  "rule_fits lib st tt d \<longleftrightarrow> dep_conditions d \<noteq> [] \<and> (\<forall>c\<in>set (dep_conditions d). cond_Validate lib c st = None) \<and>
     (st \<noteq> DataTypeQuantity \<longrightarrow> (\<forall>c\<in>set (dep_conditions d). cond_read lib c)) \<and> effect_fits lib tt (dep_effect d)"

definition rule_ok :: "golib \<Rightarrow> attr_store \<Rightarrow> Dependency \<Rightarrow> bool" where
  "rule_ok lib attrs d \<longleftrightarrow> dep_sourceID d \<noteq> dep_targetID d \<and>
     (\<exists>source target. attrRepo_Get attrs (dep_sourceID d) = Inr source \<and> attrRepo_Get attrs (dep_targetID d) = Inr target \<and>
        ad_tenantID source = dep_tenantID d \<and> ad_tenantID target = dep_tenantID d \<and>
        rule_fits lib (ad_dataType source) (ad_dataType target) d)"

lemma validateRule_fits:
  "validateRule lib source target cs e = None \<Longrightarrow>
     cs \<noteq> [] \<and> (\<forall>c\<in>set cs. cond_Validate lib c (ad_dataType source) = None) \<and> effect_fits lib (ad_dataType target) e"
  by (auto simp: validateRule_def effect_fits_def split: if_splits option.splits)

lemma map_result_id: "map_result Inr xs = Inr xs"
  by (induction xs) simp_all

lemma rebase_id: "rebase_condition Inr c = Inr c"
  by (cases c) (simp add: rebase_condition_def rebase_ptr_def map_result_id split: option.split)

lemma normalize_conditions:
  assumes "normalizeQuantityOperands cx source target cs (Some e) = Inr (cs', e')" "ad_dataType source \<noteq> DataTypeQuantity"
  shows "cs' = cs"
proof -
  have "map_result (rebase_condition Inr) cs = Inr cs" by (induction cs) (simp_all add: rebase_id)
  then show ?thesis
    using assms by (auto simp: normalizeQuantityOperands_def rebaseWith_def RebaseRuleOperands_def rbind_Inr map_sum_Inr)
qed

lemma decodeRule_read:
  assumes "float_parse_finite lib" "wf_raw rc" "decodeRule lib rc re = Inr (cs, e)"
  shows "\<forall>c\<in>set cs. cond_read lib c"
proof (cases "given rc")
  case True
  then have "Conditions_UnmarshalJSON lib rc = Inr cs" using assms(3) by (auto simp: decodeRule_def split: sum.splits)
  with Conditions_decoded [OF assms(1,2)] show ?thesis by blast
qed (use assms(3) in \<open>auto simp: decodeRule_def split: sum.splits\<close>)

lemma authored_fits:
  assumes "float_parse_finite lib" "wf_raw rc" "decodeRule lib rc re = Inr (cs, e)"
    "normalizeQuantityOperands cx source target cs (Some e) = Inr (cs', Some e')" "validateRule lib source target cs' e' = None"
    "dep_conditions d = cs'" "dep_effect d = e'"
  shows "rule_fits lib (ad_dataType source) (ad_dataType target) d"
  using validateRule_fits [OF assms(5)] normalize_conditions [OF assms(4)] decodeRule_read [OF assms(1-3)] assms(6,7)
  by (auto simp: rule_fits_def)

text \<open>One rule call of a principal, and the schemas and rule sets that interleaved rule and schema calls reach.\<close>

inductive rule_call :: "vctx \<Rightarrow> vrepos \<Rightarrow> dep_store \<Rightarrow> bool" for cx rp where
  rule_Create: "DepCreate cx rp inp newid now = Inr (deps', d, es, ch) \<Longrightarrow> newid \<notin> dep_id ` set (rp_deps rp) \<Longrightarrow>
    wf_raw (dc_Conditions inp) \<Longrightarrow> rule_call cx rp deps'"
| rule_Update: "DepUpdate cx rp req now = Inr (deps', d, es, ch) \<Longrightarrow> wf_raw (dr_Conditions req) \<Longrightarrow> rule_call cx rp deps'"
| rule_Archive: "DepArchive cx rp raw now = Inr (deps', d, es, ch) \<Longrightarrow> rule_call cx rp deps'"

inductive rules_reachable :: "golib \<Rightarrow> attr_store \<Rightarrow> dep_store \<Rightarrow> bool" for lib where
  rules_empty: "rules_reachable lib attrs []"
| rules_change: "rules_reachable lib (rp_attrs rp) (rp_deps rp) \<Longrightarrow> cx_lib cx = lib \<Longrightarrow> cx_tenant cx \<noteq> [] \<Longrightarrow> rule_call cx rp deps' \<Longrightarrow>
    rules_reachable lib (rp_attrs rp) deps'"
| rules_schema: "rules_reachable lib (rp_attrs rp) deps \<Longrightarrow> cx_lib cx = lib \<Longrightarrow> schema_call cx rp rels s attrs' \<Longrightarrow>
    rules_reachable lib attrs' deps"

lemma set_depRepo_Save: "set (depRepo_Save s x) \<subseteq> insert x (set s)"
  by (induction s) auto

lemma depRepo_Save_ids: "dep_id ` set (depRepo_Save s x) = insert (dep_id x) (dep_id ` set s)"
  by (induction s) auto

lemma depRepo_Save_distinct: "distinct (map dep_id s) \<Longrightarrow> distinct (map dep_id (depRepo_Save s x))"
proof (induction s)
  case (Cons y s)
  have "dep_id y \<notin> dep_id ` set (depRepo_Save s x)" if "dep_id y \<noteq> dep_id x" using Cons.prems that by (simp add: depRepo_Save_ids)
  with Cons show ?case by auto
qed simp

lemma snapshot_of: "attr_Snapshot b = snap \<Longrightarrow> as_ID snap = ad_id b \<and> attr_Rehydrate snap = b"
  using attr_snapshot_round by (auto simp: attr_Snapshot_def)

lemma schema_call_types:
  assumes "schema_call cx rp rels s attrs'" "attrRepo_Get (rp_attrs rp) i = Inr a"
  shows "\<exists>b. attrRepo_Get attrs' i = Inr b \<and> ad_dataType b = ad_dataType a \<and> ad_tenantID b = ad_tenantID a"
  using assms(1)
proof cases
  case (call_Create inp newid now snap es ch)
  from create_run [OF call_Create(1)] obtain b where b: "attr_Snapshot b = snap" "attrs' = put_attr snap (rp_attrs rp)" "ad_id b = newid" by metis
  have "i \<noteq> newid" using Get_attr_mem [OF assms(2)] call_Create(2) by auto
  moreover have "as_ID snap = newid" using b snapshot_of by blast
  ultimately show ?thesis using assms(2) b(2) by (simp add: Get_put_attr)
next
  case (call_Update req now snap es ch)
  from update_run [OF call_Update] obtain c b where b: "attrRepo_Get (rp_attrs rp) (ad_id c) = Inr c" "attr_Snapshot b = snap"
      "attrs' = put_attr snap (rp_attrs rp)" "attr_fixed b = attr_fixed c" by metis
  have core: "ad_dataType b = ad_dataType c" "ad_id b = ad_id c" "ad_tenantID b = ad_tenantID c" using b(4) by (simp_all add: attr_fixed_def)
  show ?thesis using assms(2) b(1) core snapshot_of [OF b(2)] unfolding b(3) Get_put_attr by (cases "i = ad_id c") auto
next
  case (call_Transition raw action now snap es ch)
  from transition_run [OF call_Transition] obtain c b where b: "attrRepo_Get (rp_attrs rp) (ad_id c) = Inr c" "attr_Snapshot b = snap"
      "attrs' = put_attr snap (rp_attrs rp)" "attr_core b = attr_core c" by metis
  have core: "ad_dataType b = ad_dataType c" "ad_id b = ad_id c" "ad_tenantID b = ad_tenantID c"
    using b(4) by (cases b, cases c, simp add: attr_core_def)+
  show ?thesis using assms(2) b(1) core snapshot_of [OF b(2)] unfolding b(3) Get_put_attr by (cases "i = ad_id c") auto
qed

lemma rule_ok_schema:
  assumes "schema_call cx rp rels s attrs'" "rule_ok lib (rp_attrs rp) d"
  shows "rule_ok lib attrs' d"
proof -
  from assms(2) obtain source target where g: "attrRepo_Get (rp_attrs rp) (dep_sourceID d) = Inr source"
      "attrRepo_Get (rp_attrs rp) (dep_targetID d) = Inr target"
    and r: "dep_sourceID d \<noteq> dep_targetID d" "ad_tenantID source = dep_tenantID d" "ad_tenantID target = dep_tenantID d"
      "rule_fits lib (ad_dataType source) (ad_dataType target) d" by (auto simp: rule_ok_def)
  from schema_call_types [OF assms(1) g(1)] schema_call_types [OF assms(1) g(2)] r show ?thesis
    unfolding rule_ok_def by metis
qed

lemma rule_call_ok:
  assumes "rule_call cx rp deps'" "float_parse_finite (cx_lib cx)" "cx_tenant cx \<noteq> []"
    "distinct (map dep_id (rp_deps rp))" "\<forall>d\<in>set (rp_deps rp). rule_ok (cx_lib cx) (rp_attrs rp) d"
  shows "distinct (map dep_id deps') \<and> (\<forall>d\<in>set deps'. rule_ok (cx_lib cx) (rp_attrs rp) d)"
proof -
  have "\<exists>d. deps' = depRepo_Save (rp_deps rp) d \<and> rule_ok (cx_lib cx) (rp_attrs rp) d"
    using assms(1)
  proof cases
    case (rule_Create inp newid now d es ch)
    from create_rule_run [OF rule_Create(1)] obtain source target cs e cs' e' where
      c: "attrRepo_Get (rp_attrs rp) (ad_id source) = Inr source" "ad_tenantID source = cx_tenant cx"
        "attrRepo_Get (rp_attrs rp) (ad_id target) = Inr target" "ad_tenantID target = cx_tenant cx" "ad_id source \<noteq> ad_id target"
      and f: "decodeRule (cx_lib cx) (dc_Conditions inp) (dc_Effect inp) = Inr (cs, e)"
        "normalizeQuantityOperands cx source target cs (Some e) = Inr (cs', Some e')"
        "validateRule (cx_lib cx) source target cs' e' = None" "dep_conditions d = cs'" "dep_effect d = e'"
      and d: "deps' = depRepo_Save (rp_deps rp) d" "dep_sourceID d = ad_id source" "dep_targetID d = ad_id target"
        "dep_tenantID d = (if cx_tenant cx = [] then DefaultTenant else cx_tenant cx)" by metis
    have "rule_ok (cx_lib cx) (rp_attrs rp) d"
      unfolding rule_ok_def d(2-4) using authored_fits [OF assms(2) rule_Create(3) f] c assms(3) by auto
    with d(1) show ?thesis by blast
  next
    case (rule_Update req now d' es ch)
    from update_rule_run [OF rule_Update(1)] obtain d source target cs e cs' e' where
      c: "d \<in> set (rp_deps rp)" "attrRepo_Get (rp_attrs rp) (dep_sourceID d) = Inr source" "attrRepo_Get (rp_attrs rp) (dep_targetID d) = Inr target"
      and f: "decodeRule (cx_lib cx) (dr_Conditions req) (dr_Effect req) = Inr (cs, e)"
        "normalizeQuantityOperands cx source target cs (Some e) = Inr (cs', Some e')" "validateRule (cx_lib cx) source target cs' e' = None"
      and d: "deps' = depRepo_Save (rp_deps rp) d'"
        "d' = d\<lparr>dep_conditions := cs', dep_effect := e', dep_description := dr_Description req, dep_version := dep_version d + 1, dep_updatedAt := now\<rparr>"
      by metis
    have "rule_fits (cx_lib cx) (ad_dataType source) (ad_dataType target) d'"
      by (rule authored_fits [OF assms(2) rule_Update(2) f]) (simp_all add: d(2))
    moreover have "dep_sourceID d' = dep_sourceID d" "dep_targetID d' = dep_targetID d" "dep_tenantID d' = dep_tenantID d" by (simp_all add: d(2))
    ultimately have "rule_ok (cx_lib cx) (rp_attrs rp) d'" using assms(5) c unfolding rule_ok_def by fastforce
    with d(1) show ?thesis by blast
  next
    case (rule_Archive raw now d' es ch)
    from archive_rule_run [OF rule_Archive] obtain d where "d \<in> set (rp_deps rp)" "deps' = depRepo_Save (rp_deps rp) d'"
        "d' = d\<lparr>dep_archivedAt := Some now, dep_updatedAt := now\<rparr>" by metis
    moreover from this(3) have "rule_ok (cx_lib cx) (rp_attrs rp) d' = rule_ok (cx_lib cx) (rp_attrs rp) d"
      by (simp add: rule_ok_def rule_fits_def)
    ultimately show ?thesis using assms(5) by blast
  qed
  then show ?thesis using assms(4,5) depRepo_Save_distinct set_depRepo_Save by blast
qed

lemma rules_reachable_ok:
  assumes "rules_reachable lib attrs deps" "float_parse_finite lib"
  shows "distinct (map dep_id deps) \<and> (\<forall>d\<in>set deps. rule_ok lib attrs d)"
  using assms
proof (induction rule: rules_reachable.induct)
  case (rules_change rp cx deps')
  then show ?case using rule_call_ok [of cx rp deps'] by simp
next
  case (rules_schema rp deps cx rels s attrs')
  then show ?case using rule_ok_schema by blast
qed simp

text \<open>A stored rule can always be evaluated on well-formed values of its source. The remaining case is a pattern that compiles
  as written and not in the anchored form in which it is evaluated.\<close>

lemma Matches_members:
  assumes "cond_Kind c \<noteq> CondIn" shows "cond_Matches lib (c\<lparr>cond_Values := vs\<rparr>) w now = cond_Matches lib c w now"
proof (cases c)
  case (fields k)
  with assms show ?thesis by (cases k) (simp_all only: cond_Matches_def conditionPattern_def fields Condition.simps ConditionKind.case simp_thms)
qed

lemma Validate_members:
  assumes "cond_Kind c \<noteq> CondIn" shows "cond_Validate lib (c\<lparr>cond_Values := vs\<rparr>) dt = cond_Validate lib c dt"
proof (cases c)
  case (fields k)
  with assms show ?thesis by (cases k) (simp_all only: cond_Validate_def cond_subject_def fields Condition.simps ConditionKind.case simp_thms)
qed

lemma cond_answers:
  assumes "cond_Validate lib c dt = None" "cond_read lib c" "source_value lib dt v"
    "cond_Kind c = CondPattern \<Longrightarrow> re_compile lib (conditionPattern c) \<noteq> None"
  shows "is_ok (cond_applies lib v ctx now c)"
proof (cases "cond_ContextKey c = [] \<and> \<not> IsZero v")
  case False
  then show ?thesis by (auto simp: cond_applies_def cond_Matches_def split: option.split sum.split)
next
  case True
  with assms(3) have v: "wf_value lib v" "dataType v = dt" by (auto simp: source_value_def)
  then have dt: "dt \<noteq> NoType" using True by (auto simp: IsZero_def)
  let ?c = "if cond_Kind c = CondIn then c else c\<lparr>cond_Values := []\<rparr>"
  have same: "cond_applies lib v ctx now ?c = cond_applies lib v ctx now c" "cond_Validate lib ?c dt = None" "cond_Kind ?c = cond_Kind c"
      "conditionPattern ?c = conditionPattern c"
    using assms(1) True Matches_members [of c lib "[]" v now] Validate_members [of c lib "[]" dt]
    by (simp_all add: cond_applies_def conditionPattern_def)
  have "cond_subject c dt = Inr dt" using assms(1) True by (auto simp: cond_Validate_def cond_subject_def split: if_splits)
  then have "\<forall>w\<in>set (cond_Values c). dataType w = dt" if "cond_Kind c = CondIn"
    using assms(1) that by (auto simp: cond_Validate_def split: if_splits)
  with assms(2) dt have "\<forall>w\<in>set (cond_Values c). wf_value lib w" if "cond_Kind c = CondIn"
    using that unfolding cond_read_def by (metis zero_value_simps(1))
  then have "wf_condition lib ?c" using assms(2) by (auto simp: wf_condition_def cond_read_def operands_def list_all_iff)
  from cond_applies_ok [OF same(2) this assms(3), of ctx now, unfolded same, OF assms(4)] show ?thesis .
qed

definition patterns_compile :: "golib \<Rightarrow> Dependency \<Rightarrow> bool" where
  "patterns_compile lib d \<longleftrightarrow> (\<forall>c\<in>set (dep_conditions d). cond_Kind c = CondPattern \<longrightarrow> re_compile lib (conditionPattern c) \<noteq> None)"

lemma rule_answers:
  assumes "rule_fits lib st tt d" "st \<noteq> DataTypeQuantity" "patterns_compile lib d" "list_all (source_value lib st) vs"
  shows "\<exists>b. MatchesAnyWithContext lib d vs ctx now = Inr b"
proof -
  have one: "\<exists>b. dep_matches lib d v ctx now = Inr b" if "source_value lib st v" for v
    unfolding dep_matches_def
    by (intro exI, rule matches_all_ok, rule cond_answers [of lib _ st])
      (use assms that in \<open>auto simp: rule_fits_def patterns_compile_def\<close>)
  have "\<exists>b. matches_any_of lib d vs ctx now = Inr b" using assms(4)
  proof (induction vs)
    case (Cons v vs)
    then obtain b where b: "dep_matches lib d v ctx now = Inr b" using one by auto
    with Cons show ?case by (cases b) auto
  qed (rule exI [of _ False], simp)
  then show ?thesis using one [of zero_value] by (auto simp: MatchesAnyWithContext_def source_value_def)
qed

text \<open>What is stored is read back: a decoded rule that passed validation survives its JSON form.\<close>

definition rule_years :: "Condition list \<Rightarrow> Effect \<Rightarrow> bool" where
  "rule_years cs e \<longleftrightarrow> (\<forall>c\<in>set cs. \<forall>v\<in>operands c \<union> set (cond_Values c). in_years v) \<and>
     (\<forall>v\<in>set (eff_AllowedValues e). in_years v) \<and> (\<forall>c\<in>set (eff_Constraints e). years_ok c)"

lemma zero_effect_read: "effect_read lib zero_effect"
  by (simp add: effect_read_def zero_effect_def)

lemma decodeRule_effect:
  assumes "float_parse_finite lib" "wf_raw re" "decodeRule lib rc re = Inr (cs, e)"
  shows "effect_read lib e"
proof (cases "given re")
  case True
  then have "Effect_UnmarshalJSON lib re = Inr e" using assms(3) by (auto simp: decodeRule_def split: sum.splits)
  with Effect_decoded [OF assms(1,2)] show ?thesis by blast
qed (use assms(3) zero_effect_read in \<open>auto simp: decodeRule_def split: sum.splits\<close>)

lemma decodeRule_round:
  assumes "float_json_round lib" "time_round lib" "float_parse_finite lib" "wf_raw rc" "wf_raw re" "decodeRule lib rc re = Inr (cs, e)"
    "validateRule lib source target cs e = None" "ad_dataType target \<noteq> NoType" "rule_years cs e"
  shows "\<exists>jc je. Conditions_MarshalJSON lib cs = Inr jc \<and> Effect_MarshalJSON lib e = Inr je \<and> decodeRule lib (Raw jc) (Raw je) = Inr (cs, e)"
proof -
  from Conditions_round [OF assms(1,2) decodeRule_read [OF assms(3,4,6)]] assms(9) obtain js
    where js: "map_result (Condition_MarshalJSON lib) cs = Inr js" "map_result (\<lambda>x. Condition_UnmarshalJSON lib (Raw x)) js = Inr cs"
    by (auto simp: rule_years_def)
  from Effect_round [OF assms(1,2) decodeRule_effect [OF assms(3,5,6)] _ assms(8)] validateRule_fits [OF assms(7)] assms(9) obtain je
    where je: "Effect_MarshalJSON lib e = Inr je" "Effect_UnmarshalJSON lib (Raw je) = Inr e"
    by (auto simp: rule_years_def effect_fits_def)
  have "je \<noteq> JNull" using je(1) by (auto simp: Effect_MarshalJSON_def rbind_Inr)
  then have "decodeRule lib (Raw (JArr js)) (Raw je) = Inr (cs, e)"
    using js(2) je(2) by (simp add: decodeRule_def given_def Conditions_UnmarshalJSON_def)
  moreover have "Conditions_MarshalJSON lib cs = Inr (JArr js)" by (simp add: Conditions_MarshalJSON_def js(1))
  ultimately show ?thesis using je(1) by blast
qed

text \<open>What one accepted rule call needed and what it changed.\<close>

lemma rule_call_authorised:
  assumes "rule_call cx rp deps'" "cx_tenant cx \<noteq> []"
  shows "\<exists>d source target. deps' = depRepo_Save (rp_deps rp) d \<and> dep_tenantID d = cx_tenant cx \<and>
    attrRepo_Get (rp_attrs rp) (dep_targetID d) = Inr target \<and>
    CanRead (cx_access cx) (ad_internalName target) \<and> CanWrite (cx_access cx) (ad_internalName target) \<and>
    (dep_archivedAt d = None \<longrightarrow> attrRepo_Get (rp_attrs rp) (dep_sourceID d) = Inr source \<and> CanRead (cx_access cx) (ad_internalName source)) \<and>
    (case depRepo_Get (rp_deps rp) (dep_id d) of
       Inr d0 \<Rightarrow> dep_tenantID d0 = cx_tenant cx \<and> dep_sourceID d = dep_sourceID d0 \<and> dep_targetID d = dep_targetID d0
     | Inl _ \<Rightarrow> ad_tenantID source = cx_tenant cx \<and> ad_tenantID target = cx_tenant cx \<and>
         (ad_typeDefinitionID source = ad_typeDefinitionID target \<or> on_chain rp source target \<or> on_chain rp target source))"
  using assms(1)
proof cases
  case (rule_Create inp newid now d es ch)
  from create_rule_run [OF rule_Create(1)] obtain source target where
    c: "attrRepo_Get (rp_attrs rp) (ad_id source) = Inr source" "ad_tenantID source = cx_tenant cx"
      "attrRepo_Get (rp_attrs rp) (ad_id target) = Inr target" "ad_tenantID target = cx_tenant cx"
      "rule_access (cx_access cx) source target" "checkSameChain rp source target = Inr ()"
    and d: "deps' = depRepo_Save (rp_deps rp) d" "dep_id d = newid" "dep_sourceID d = ad_id source" "dep_targetID d = ad_id target"
      "dep_tenantID d = (if cx_tenant cx = [] then DefaultTenant else cx_tenant cx)" by metis
  have "find (\<lambda>x. dep_id x = newid) (rp_deps rp) = None" using rule_Create(2) by (auto simp: find_None_iff)
  then have none: "depRepo_Get (rp_deps rp) newid = Inl (NewNotFound dep_AggregateType)" by (simp add: depRepo_Get_def)
  show ?thesis
    by (intro exI [of _ d] exI [of _ source] exI [of _ target])
      (use c d none checkSameChain_Inr [OF c(6)] assms(2) in \<open>simp add: rule_access_def\<close>)
next
  case (rule_Update req now d' es ch)
  from update_rule_run [OF rule_Update(1)] obtain d source target cs' e' where
    c: "dep_tenantID d = cx_tenant cx" "depRepo_Get (rp_deps rp) (dep_id d) = Inr d"
      "attrRepo_Get (rp_attrs rp) (dep_sourceID d) = Inr source" "attrRepo_Get (rp_attrs rp) (dep_targetID d) = Inr target"
      "rule_access (cx_access cx) source target" "deps' = depRepo_Save (rp_deps rp) d'"
      "d' = d\<lparr>dep_conditions := cs', dep_effect := e', dep_description := dr_Description req, dep_version := dep_version d + 1, dep_updatedAt := now\<rparr>"
    by metis
  show ?thesis
    by (intro exI [of _ d'] exI [of _ source] exI [of _ target]) (use c in \<open>simp add: rule_access_def\<close>)
next
  case (rule_Archive raw now d' es ch)
  from archive_rule_run [OF rule_Archive] obtain d target where
    c: "dep_tenantID d = cx_tenant cx" "depRepo_Get (rp_deps rp) (dep_id d) = Inr d"
      "attrRepo_Get (rp_attrs rp) (dep_targetID d) = Inr target" "CanRead (cx_access cx) (ad_internalName target)"
      "CanWrite (cx_access cx) (ad_internalName target)" "deps' = depRepo_Save (rp_deps rp) d'"
      "d' = d\<lparr>dep_archivedAt := Some now, dep_updatedAt := now\<rparr>" by metis
  then show ?thesis by (intro exI [of _ d'] exI [of _ target] exI [of _ target]) simp
qed

section \<open>What a caller may learn\<close>

text \<open>Two value stores that hold the same rows of readable attributes.\<close>

definition visible_rows :: "Access \<Rightarrow> attr_store \<Rightarrow> value_store \<Rightarrow> value_store" where
  "visible_rows access attrs s = filter (\<lambda>x. \<not> hidden access attrs (vs_AttributeDefinitionID x)) s"

definition may_read :: "Access \<Rightarrow> attr_store \<Rightarrow> AttributeDefinitionID \<Rightarrow> bool" where
  "may_read access attrs i \<longleftrightarrow> (\<exists>d. attrRepo_Get attrs i = Inr d \<and> CanRead access (ad_internalName d))"

lemma readableOnly_filter:
  assumes "inj (cx_idString cx)" "\<not> Admin (cx_access cx)"
  shows "readableOnly cx rp vals = Inr (filter (\<lambda>av. may_read (cx_access cx) (rp_attrs rp) (av_attributeDefID av)) vals)"
proof (cases "vals = []")
  case False
  from mem_attrs.Readable_exact [OF assms(1), of "rp_attrs rp" "cx_access cx" "map av_attributeDefID vals"] obtain m
    where m: "Readable (cx_idString cx) (attrRepo_GetMany (rp_attrs rp)) (cx_access cx) (map av_attributeDefID vals) = Inr m"
      "\<forall>k. flag_at m k \<longleftrightarrow> (\<exists>i\<in>set (map av_attributeDefID vals). cx_idString cx i = k \<and> mem_attrs.permitted (rp_attrs rp) CanRead (cx_access cx) i)"
    by blast
  have "flag_at m (cx_idString cx (av_attributeDefID av)) = may_read (cx_access cx) (rp_attrs rp) (av_attributeDefID av)" if "av \<in> set vals" for av
    using m(2) that assms by (auto simp: mem_attrs.permitted_def may_read_def dest: injD)
  then have "filter (\<lambda>av. flag_at m (cx_idString cx (av_attributeDefID av))) vals =
      filter (\<lambda>av. may_read (cx_access cx) (rp_attrs rp) (av_attributeDefID av)) vals" by (auto intro: filter_cong)
  with False assms(2) m(1) show ?thesis by (simp add: readableOnly_def)
qed (simp add: readableOnly_def)

lemma may_read_visible: "may_read access attrs i \<Longrightarrow> \<not> hidden access attrs i"
  using Get_attr_mem by (fastforce simp: may_read_def hidden_def attr_Rehydrate_def)

lemma filter_values_where:
  "filter (\<lambda>av. P (av_attributeDefID av)) (values_where idString Q s) = values_where idString Q (filter (\<lambda>x. P (vs_AttributeDefinitionID x)) s)"
proof -
  have "filter (\<lambda>av. P (av_attributeDefID av)) (map av_Rehydrate (filter Q s)) =
      map av_Rehydrate (filter Q (filter (\<lambda>x. P (vs_AttributeDefinitionID x)) s))"
    by (induction s) (auto simp: av_Rehydrate_def)
  then show ?thesis by (simp add: values_where_def filter_sortByID)
qed

lemma readable_rows:
  assumes "inj (cx_idString cx)" "\<not> Admin (cx_access cx)"
    "visible_rows (cx_access cx) (rp_attrs rp) s = visible_rows (cx_access cx) (rp_attrs rp) s'"
  shows "readableOnly cx rp (values_where (cx_idString cx) Q s) = readableOnly cx rp (values_where (cx_idString cx) Q s')"
proof -
  let ?P = "may_read (cx_access cx) (rp_attrs rp)"
  have sub: "filter (\<lambda>x. ?P (vs_AttributeDefinitionID x)) t =
      filter (\<lambda>x. ?P (vs_AttributeDefinitionID x)) (visible_rows (cx_access cx) (rp_attrs rp) t)" for t
    using may_read_visible by (auto simp: visible_rows_def intro!: filter_cong)
  show ?thesis
    unfolding readableOnly_filter [OF assms(1,2)] filter_values_where by (subst (1 2) sub) (simp add: assms(3))
qed

lemma DepEffectiveSchema_hides:
  assumes "inj (cx_idString cx)" "\<not> Admin (cx_access cx)"
    "visible_rows (cx_access cx) (rp_attrs rp) s = visible_rows (cx_access cx) (rp_attrs rp) s'"
  shows "DepEffectiveSchema cx rp s rawA rawE = DepEffectiveSchema cx rp s' rawA rawE"
  unfolding DepEffectiveSchema_def ListByEntities_def readable_rows [OF assms] ..

lemma entityFilled_hides:
  assumes "inj (cx_idString cx)" "\<not> Admin (cx_access cx)"
    "visible_rows (cx_access cx) (rp_attrs rp) s = visible_rows (cx_access cx) (rp_attrs rp) s'"
  shows "entityFilled cx rp s ten ty e = entityFilled cx rp s' ten ty e"
  unfolding entityFilled_def ListByEntity_def readable_rows [OF assms] ..

lemma Completeness_hides:
  assumes "inj (cx_idString cx)" "\<not> Admin (cx_access cx)"
    "visible_rows (cx_access cx) (rp_attrs rp) s = visible_rows (cx_access cx) (rp_attrs rp) s'"
  shows "Completeness cx rp s rawT rawE = Completeness cx rp s' rawT rawE"
  unfolding Completeness_def entityFilled_hides [OF assms] ..

end
