(* ===== verification/Float_Exact.thy ===== *)
theory Float_Exact
  imports Float_Arith
begin

text \<open>
  Which results of double arithmetic are exact, and on which side of one a quotient lies: integers below \<open>2 ^ 53\<close> are
  represented exactly, and the quotient of two of them rounds to one or more only when it is at least one.
\<close>

lemma round_even_le: "x \<le> of_int m \<Longrightarrow> round_even x \<le> m"
proof -
  assume x: "x \<le> of_int m"
  then have f: "\<lfloor>x\<rfloor> \<le> m" by linarith
  show ?thesis
  proof (cases "\<lfloor>x\<rfloor> = m")
    case True
    with x have "x - of_int \<lfloor>x\<rfloor> = 0" using of_int_floor_le [of x] by linarith
    with True show ?thesis by (simp add: round_even_def Let_def)
  next
    case False
    with f show ?thesis by (auto simp: round_even_def Let_def)
  qed
qed

lemma round_even_int: "round_even (of_int m) = m"
  using round_even_le [of "of_int m" m] round_even_ge [of m "of_int m"] by simp

lemma pow2_1: "pow2 1 = 2" "pow2 0 = 1"
  by (simp_all add: pow2_def)

lemma pow2_neg: "pow2 (- int k) * 2 ^ k = 1"
  using pow2_shift(1) [of "- int k" "int k"] by (simp add: pow2_nat pow2_1)

text \<open>The last kept bit is below any power of two that exceeds the number by 53 places.\<close>

lemma ulp_exp_below:
  assumes "0 < r" "r < pow2 k" "-1021 \<le> k"
  shows "ulp_exp r \<le> k - 53"
proof -
  obtain n d where q: "quotient_of r = (n, d)" by (cases "quotient_of r")
  define e where "e = int (floorlog 2 (nat n)) - int (floorlog 2 (nat d)) - 53"
  note b = quotient_bounds [OF assms(1) q e_def]
  have p: "0 < pow2 e" by (rule pow2_shift(2))
  have lo: "2 ^ 52 \<le> r / pow2 e" using b(1) p by (simp add: pow2_shift(1) pow2_def [of 52] field_simps)
  have u: "ulp_exp r = max (if 2 ^ 53 \<le> r / pow2 e then e + 1 else e) (-1074)"
    using assms(1) lo by (simp add: ulp_exp_def q e_def [symmetric] Let_def not_less)
  have "pow2 (e + 52) < pow2 k" using b(1) assms(2) by (rule le_less_trans)
  then have e: "e + 52 < k" by (simp add: pow2_shift(3))
  have "e + 53 < k" if "2 ^ 53 \<le> r / pow2 e"
  proof -
    from that p have "pow2 (e + 53) \<le> r" by (simp add: pow2_shift(1) pow2_def [of 53] field_simps)
    with assms(2) have "pow2 (e + 53) < pow2 k" by simp
    then show ?thesis by (simp add: pow2_shift(3))
  qed
  with e assms(3) show ?thesis unfolding u by (auto simp: max_def)
qed

lemma f_round_exact:
  assumes "0 < r" "r < 2 ^ 1024" "r / pow2 (ulp_exp r) = of_int m"
  shows "f_round neg r = FFin r"
proof -
  have "of_int (round_even (r / pow2 (ulp_exp r))) * pow2 (ulp_exp r) = r"
    unfolding assms(3) round_even_int using pow2_shift(2) [of "ulp_exp r"] by (simp add: assms(3) [symmetric])
  with assms(1,2) show ?thesis unfolding f_round_def Let_def by (simp only: abs_of_pos less_imp_neq if_False) simp
qed

lemma f_of_int_exact:
  assumes "0 \<le> n" "n < 2 ^ 53"
  shows "f_of_int n = FFin (of_int n)"
proof (cases "n = 0")
  case False
  with assms(1) have pos: "0 < (of_int n :: rat)" by simp
  have lt: "(of_int n :: rat) < pow2 53" using assms(2) of_int_less_iff [of n "2 ^ 53", where 'a = rat] by (simp add: pow2_def)
  define k where "k = nat (- ulp_exp (of_int n :: rat))"
  have e: "ulp_exp (of_int n :: rat) = - int k" using ulp_exp_below [OF pos lt] by (simp add: k_def)
  have "pow2 (- int k) = 1 / 2 ^ k" using pow2_neg [of k] by (simp add: field_simps)
  then have "(of_int n :: rat) / pow2 (ulp_exp (of_int n :: rat)) = of_int (n * 2 ^ k)" by (simp add: e)
  moreover have "(of_int n :: rat) < 2 ^ 1024" using lt by (rule less_trans) (simp add: pow2_def)
  ultimately show ?thesis unfolding f_of_int_def using f_round_exact [OF pos] by blast
qed (simp add: f_of_int_def f_round_def f_zero_def)

lemma f_round_below_one:
  assumes "0 < r" "r \<le> 1 - 1 / 2 ^ 53"
  shows "\<exists>v<1. f_round False r = FFin v"
proof -
  have "r < pow2 0" using assms(2) by (simp add: pow2_1)
  then have e: "ulp_exp r \<le> -53" using ulp_exp_below [OF assms(1), of 0] by simp
  define k where "k = nat (- ulp_exp r - 53)"
  have ek: "ulp_exp r = - int (k + 53)" using e by (simp add: k_def)
  have p: "pow2 (ulp_exp r) = 1 / 2 ^ (k + 53)" using pow2_neg [of "k + 53"] unfolding ek by (simp add: field_simps)
  define m :: int where "m = 2 ^ (k + 53) - 2 ^ k"
  have m: "of_int m = (1 - 1 / 2 ^ 53) * (2 ^ (k + 53) :: rat)" by (simp add: m_def power_add field_simps)
  have "r / pow2 (ulp_exp r) \<le> of_int m" unfolding p m using assms(2) by (simp add: mult_right_mono)
  from round_even_le [OF this] have "of_int (round_even (r / pow2 (ulp_exp r))) * pow2 (ulp_exp r) \<le> of_int m * pow2 (ulp_exp r)"
    by (intro mult_right_mono) (auto intro: less_imp_le pow2_shift(2))
  also have "\<dots> = 1 - 1 / 2 ^ 53" unfolding p m by simp
  finally have v: "of_int (round_even (r / pow2 (ulp_exp r))) * pow2 (ulp_exp r) \<le> (1 - 1 / 2 ^ 53 :: rat)" .
  then have "of_int (round_even (r / pow2 (ulp_exp r))) * pow2 (ulp_exp r) < (2 ^ 1024 :: rat)" by (rule le_less_trans) simp
  moreover have "(1 - 1 / 2 ^ 53 :: rat) < 1" by simp
  ultimately show ?thesis
    using v assms(1) by (auto simp: f_round_def Let_def f_zero_def not_le dest: le_less_trans)
qed

text \<open>The quotient of two counts.\<close>

lemma ratio_reaches_one:
  assumes "f \<le> r" "0 < r" "r < 2 ^ 53"
  shows "\<exists>v. f_div (f_of_int (int f)) (f_of_int (int r)) = FFin v \<and> (1 \<le> v \<longleftrightarrow> f = r)"
proof -
  have fi: "f_of_int (int f) = FFin (of_nat f)" "f_of_int (int r) = FFin (of_nat r)"
    using f_of_int_exact [of "int f"] f_of_int_exact [of "int r"] assms by simp_all
  have nz: "\<not> f_is_zero (FFin (of_nat r))" using assms(2) by (simp add: f_is_zero_def f_eq_def)
  have d: "f_div (f_of_int (int f)) (f_of_int (int r)) = f_round False (of_nat f / of_nat r)"
    unfolding fi using nz by simp
  consider "f = 0" | "f = r" | "0 < f" "f < r" using assms(1) by linarith
  then show ?thesis
  proof cases
    case 1
    then have "f_round False (of_nat f / of_nat r) = FFin 0" by (simp add: f_round_def f_zero_def)
    with 1 assms(2) show ?thesis unfolding d by simp
  next
    case 2
    then have "of_nat f / of_nat r = (of_int 1 :: rat)" using assms(2) by simp
    with f_of_int_exact [of 1] have "f_round False (of_nat f / of_nat r) = FFin 1" unfolding f_of_int_def by simp
    with 2 show ?thesis unfolding d by simp
  next
    case 3
    have "(of_nat f :: rat) + 1 \<le> of_nat r" using 3(2) by (metis Suc_leI of_nat_Suc of_nat_le_iff add.commute)
    then have "(of_nat f :: rat) / of_nat r \<le> 1 - 1 / of_nat r" using assms(2) by (simp add: field_simps)
    also have "\<dots> \<le> 1 - 1 / 2 ^ 53"
    proof -
      have "(of_nat r :: rat) \<le> of_nat (2 ^ 53)" using assms(3) by (subst of_nat_le_iff) simp
      then have "1 / 2 ^ 53 \<le> (1 / of_nat r :: rat)" using assms(2) by (intro divide_left_mono) simp_all
      then show ?thesis by simp
    qed
    finally have "(of_nat f :: rat) / of_nat r \<le> 1 - 1 / 2 ^ 53" .
    from f_round_below_one [OF _ this] 3 show ?thesis by (auto simp: d)
  qed
qed

end
