(* ===== verification/Completeness_Laws.thy ===== *)
theory Completeness_Laws
  imports Dep_Laws Float_Exact
begin

text \<open>
  The completeness report (\<^verbatim>\<open>application/dependency/completeness.go\<close>): the tally of one entity as a function of its schema, the score as a
  quotient that is one exactly when nothing is missing, and the sweep over the entities of a type, which always ends,
  scores every entity that is present throughout exactly once, and does not depend on hidden values.
\<close>

section \<open>The tally of one entity\<close>

text \<open>The attributes a caller is told about: readable, and required for the entity as it is.\<close>

definition demanded :: "vctx \<Rightarrow> vrepos \<Rightarrow> (AttributeDefinitionID \<Rightarrow> gvalue list) \<Rightarrow> AttributeDefinition list \<Rightarrow> AttributeDefinition list" where
  "demanded cx rp filled as =
     filter (\<lambda>a. CanRead (cx_access cx) (ad_internalName a) \<and> attributeRequired cx rp a filled = Inr True) as"

definition tally :: "vctx \<Rightarrow> vrepos \<Rightarrow> (AttributeDefinitionID \<Rightarrow> gvalue list) \<Rightarrow> AttributeDefinition list \<Rightarrow> score_state \<Rightarrow> score_state \<Rightarrow> bool" where
  "tally cx rp filled as st st' \<longleftrightarrow> set (ss_seen st') = set (ss_seen st) \<union> ad_id ` set as \<and>
     ss_Required st' = ss_Required st + length (demanded cx rp filled as) \<and>
     ss_Filled st' = ss_Filled st + length (filter (\<lambda>a. filled (ad_id a) \<noteq> []) (demanded cx rp filled as)) \<and>
     ss_Missing st' = ss_Missing st @ map (missing_of cx) (filter (\<lambda>a. filled (ad_id a) = []) (demanded cx rp filled as))"

lemma tally_Nil [simp]: "tally cx rp filled [] st st"
  by (simp add: tally_def demanded_def)

lemma tally_append: "tally cx rp filled as st st1 \<Longrightarrow> tally cx rp filled bs st1 st2 \<Longrightarrow> tally cx rp filled (as @ bs) st st2"
  by (auto simp: tally_def demanded_def)

lemma score_attr_tally:
  assumes "score_attr cx rp filled a st = Inr st'"
  shows "tally cx rp filled (if ad_id a \<in> set (ss_seen st) then [] else [a]) st st'"
proof (cases "ad_id a \<notin> set (ss_seen st) \<and> CanRead (cx_access cx) (ad_internalName a)")
  case True
  with assms obtain required where r: "attributeRequired cx rp a filled = Inr required"
    by (auto simp: score_attr_def Let_def rbind_Inr)
  with assms True show ?thesis
    by (cases required; cases "filled (ad_id a) = []") (auto simp: score_attr_def tally_def demanded_def Let_def)
qed (use assms in \<open>auto simp: score_attr_def tally_def demanded_def Let_def split: if_splits\<close>)

lemma score_attrs_tally:
  "score_attrs cx rp filled as st = Inr st' \<Longrightarrow>
     tally cx rp filled (gate_new (set (ss_seen st)) as) st st' \<and> set (ss_seen st') = set (ss_seen st) \<union> ad_id ` set as"
proof (induction as arbitrary: st)
  case (Cons a as)
  then obtain st1 where s: "score_attr cx rp filled a st = Inr st1" "score_attrs cx rp filled as st1 = Inr st'" by (auto simp: rbind_Inr)
  note t = score_attr_tally [OF s(1)] and r = Cons.IH [OF s(2)]
  have seen: "set (ss_seen st1) = insert (ad_id a) (set (ss_seen st))"
    using t by (auto simp: tally_def split: if_splits)
  show ?case
  proof (cases "ad_id a \<in> set (ss_seen st)")
    case True
    with t r seen have "tally cx rp filled ([] @ gate_new (set (ss_seen st)) as) st st'"
      by (intro tally_append [of _ _ _ "[]" st st1]) (auto simp: insert_absorb)
    with True r seen show ?thesis by auto
  next
    case False
    with t r seen have "tally cx rp filled ([a] @ gate_new (insert (ad_id a) (set (ss_seen st))) as) st st'"
      by (intro tally_append [of _ _ _ "[a]" st st1]) auto
    with False r seen show ?thesis by auto
  qed
qed simp

lemma score_chain_tally:
  assumes "score_chain cx rp filled chain st = Inr st'"
  shows "\<exists>as. gate_chain (list_all_for cx rp) (set (ss_seen st)) chain = Inr as \<and> tally cx rp filled as st st'"
  using assms
proof (induction chain arbitrary: st)
  case (Cons link chain)
  then obtain as st1 where s: "list_all_for cx rp (td_id link) = Inr as" "score_attrs cx rp filled as st = Inr st1"
      "score_chain cx rp filled chain st1 = Inr st'" by (auto simp: rbind_Inr)
  note t = score_attrs_tally [OF s(2)]
  from Cons.IH [OF s(3)] t obtain bs where "gate_chain (list_all_for cx rp) (set (ss_seen st) \<union> ad_id ` set as) chain = Inr bs"
      "tally cx rp filled bs st1 st'" by auto
  with s(1) t tally_append [of cx rp filled "gate_new (set (ss_seen st)) as" st st1 bs st'] show ?case by simp
qed simp

text \<open>Every attribute is counted once, and there are fewer of them than a float64 counts exactly.\<close>

lemma gate_new_distinct: "distinct (map ad_id (gate_new seen as)) \<and> ad_id ` set (gate_new seen as) = ad_id ` set as - seen \<and>
    set (gate_new seen as) \<subseteq> set as \<and> length (gate_new seen as) \<le> length as"
  by (induction seen as rule: gate_new.induct) auto

lemma gate_chain_distinct:
  "gate_chain f seen chain = Inr as \<Longrightarrow> distinct (map ad_id as) \<and> ad_id ` set as \<inter> seen = {}"
proof (induction chain arbitrary: seen as)
  case (Cons link chain)
  then obtain xs ys where x: "f (td_id link) = Inr xs" "gate_chain f (seen \<union> ad_id ` set xs) chain = Inr ys" "as = gate_new seen xs @ ys"
    by (auto simp: rbind_Inr map_sum_Inr)
  from Cons.IH [OF x(2)] gate_new_distinct [of seen xs] show ?case unfolding x(3) by auto
qed simp

lemma list_all_for_length: "list_all_for cx rp i = Inr as \<Longrightarrow> length as \<le> MaxPerType"
  by (auto simp: ListAllForType_def split: sum.splits if_splits)

lemma gate_chain_length:
  "gate_chain (list_all_for cx rp) seen chain = Inr as \<Longrightarrow> length as \<le> MaxPerType * length chain"
proof (induction chain arbitrary: seen as)
  case (Cons link chain)
  then obtain xs ys where x: "list_all_for cx rp (td_id link) = Inr xs" "gate_chain (list_all_for cx rp) (seen \<union> ad_id ` set xs) chain = Inr ys"
      "as = gate_new seen xs @ ys" by (auto simp: rbind_Inr map_sum_Inr)
  from Cons.IH [OF x(2)] gate_new_distinct [of seen xs] list_all_for_length [OF x(1)] show ?case by (simp add: x(3))
qed simp

lemma Chain_length: "Chain get t = Inr chain \<Longrightarrow> length chain \<le> maxHierarchyDepth"
proof -
  have "ancestors_from get n seen t = Inr as \<Longrightarrow> Suc (length as) \<le> n" for n seen t as
    by (induction get n seen t arbitrary: as rule: ancestors_from.induct)
      (auto split: option.splits if_splits sum.splits simp: map_sum_Inr)
  then show "Chain get t = Inr chain \<Longrightarrow> length chain \<le> maxHierarchyDepth"
    by (auto simp: Chain_def Ancestors_def map_sum_Inr)
qed

section \<open>The report of one entity\<close>

definition report_of :: "vctx \<Rightarrow> vrepos \<Rightarrow> (AttributeDefinitionID \<Rightarrow> gvalue list) \<Rightarrow> AttributeDefinition list \<Rightarrow> CompletenessOutput \<Rightarrow> bool" where
  "report_of cx rp filled dem out \<longleftrightarrow> cp_Required out = length dem \<and>
     cp_Filled out = length (filter (\<lambda>a. filled (ad_id a) \<noteq> []) dem) \<and>
     cp_Missing out = sort_key (\<lambda>m. (ma_Group m, ma_InternalName m)) (map (missing_of cx) (filter (\<lambda>a. filled (ad_id a) = []) dem)) \<and>
     cp_Required out = cp_Filled out + length (cp_Missing out) \<and>
     (\<exists>v. cp_Score out = FFin v \<and> (1 \<le> v \<longleftrightarrow> cp_Missing out = []))"

lemma score_reports:
  assumes "f + m = r" "r < 2 ^ 53"
  shows "\<exists>v. score_of f r = FFin v \<and> (1 \<le> v \<longleftrightarrow> m = 0)"
proof (cases "r = 0")
  case False
  with ratio_reaches_one [of f r] assms show ?thesis by (auto simp: score_of_def)
qed (use assms in \<open>simp add: score_of_def\<close>)

lemma scoreEntity_report:
  assumes "scoreEntity cx rp t e filled = Inr out"
  obtains chain as where "Chain (types_get rp) t = Inr chain" "gate_chain (list_all_for cx rp) {} chain = Inr as"
    "distinct (map ad_id as)" "report_of cx rp filled (demanded cx rp filled as) out" "cp_EntityID out = e"
proof -
  from assms obtain chain st where c: "Chain (types_get rp) t = Inr chain"
    and s: "score_chain cx rp filled chain \<lparr>ss_seen = [], ss_Required = 0, ss_Filled = 0, ss_Missing = []\<rparr> = Inr st"
    and out: "out = \<lparr>cp_EntityID = e, cp_TypeDefinitionID = cx_idString cx (td_id t), cp_Required = ss_Required st,
         cp_Filled = ss_Filled st, cp_Score = score_of (ss_Filled st) (ss_Required st),
         cp_Missing = sort_key (\<lambda>m. (ma_Group m, ma_InternalName m)) (ss_Missing st)\<rparr>"
    by (auto simp: scoreEntity_def rbind_Inr)
  from score_chain_tally [OF s] obtain as where as: "gate_chain (list_all_for cx rp) {} chain = Inr as"
    and st: "ss_Required st = length (demanded cx rp filled as)"
      "ss_Filled st = length (filter (\<lambda>a. filled (ad_id a) \<noteq> []) (demanded cx rp filled as))"
      "ss_Missing st = map (missing_of cx) (filter (\<lambda>a. filled (ad_id a) = []) (demanded cx rp filled as))"
    by (auto simp: tally_def)
  have "length (demanded cx rp filled as) \<le> length as" by (simp add: demanded_def)
  also have "\<dots> \<le> MaxPerType * maxHierarchyDepth"
    using gate_chain_length [OF as] Chain_length [OF c] by (meson le_trans mult_le_mono2)
  finally have lt: "ss_Required st < 2 ^ 53" by (simp add: st MaxPerType_def maxHierarchyDepth_def)
  have sum: "ss_Filled st + length (ss_Missing st) = ss_Required st"
    using sum_length_filter_compl [of "\<lambda>a. filled (ad_id a) \<noteq> []" "demanded cx rp filled as"] by (simp add: st)
  have ne: "sort_key k (ss_Missing st) = [] \<longleftrightarrow> length (ss_Missing st) = 0" for k :: "MissingAttribute \<Rightarrow> string \<times> string"
    by (metis length_0_conv length_sort)
  from score_reports [OF sum lt] have "report_of cx rp filled (demanded cx rp filled as) out"
    using sum unfolding report_of_def out CompletenessOutput.simps ne by (simp add: st)
  with that c as gate_chain_distinct [OF as] show thesis by (simp add: out)
qed

section \<open>The sweep over a type\<close>

lemma scoreEntity_entity: "scoreEntity cx rp t e filled = Inr out \<Longrightarrow> cp_EntityID out = e"
  by (auto simp: scoreEntity_def rbind_Inr)

definition scanned :: "EntitySummary list \<Rightarrow> scan_state \<Rightarrow> scan_state \<Rightarrow> bool" where
  "scanned sms st st' \<longleftrightarrow>
     map en_EntityID (tc_Entities (sn_out st')) = map en_EntityID (tc_Entities (sn_out st)) @ map sm_EntityID sms \<and>
     tc_Complete (sn_out st') + tc_Incomplete (sn_out st') = tc_Complete (sn_out st) + tc_Incomplete (sn_out st) + length sms \<and>
     tc_Truncated (sn_out st') = tc_Truncated (sn_out st) \<and> tc_Count (sn_out st') = tc_Count (sn_out st)"

lemma scan_page_scanned: "scan_page cx rp s ten sms st = Inr st' \<Longrightarrow> scanned sms st st'"
proof (induction sms arbitrary: st)
  case (Cons sm sms)
  then obtain st1 where s: "scan_one cx rp s ten sm st = Inr st1" "scan_page cx rp s ten sms st1 = Inr st'" by (auto simp: rbind_Inr)
  have "scanned [sm] st st1"
    using s(1) scoreEntity_entity by (auto simp: scan_one_def rbind_Inr Let_def scanned_def)
  with Cons.IH [OF s(2)] show ?case by (auto simp: scanned_def)
qed (simp add: scanned_def)

lemma scanned_length: "scanned sms st st' \<Longrightarrow> length (tc_Entities (sn_out st')) = length (tc_Entities (sn_out st)) + length sms"
  by (metis length_append length_map scanned_def)

text \<open>A turn that goes on has scored a page of more than the limit.\<close>

lemma scan_loop_total:
  assumes "0 < pg_Limit page" "maxCompletenessScan \<le> length (tc_Entities (sn_out st)) + n * (nat (pg_Limit page) + 1)" "0 < n"
  shows "scan_loop cx timeKey rp stores ten ty n isFirst page st \<noteq> None"
  using assms
proof (induction n arbitrary: stores page st isFirst)
  case (Suc n)
  show ?case
  proof (cases "valueRepo_ListEntities (cx_klib cx) timeKey (stores 0) ten [ty] page")
    case (Inr r)
    obtain sms count where r: "r = (sms, count)" by (cases r)
    define st1 where "st1 = (if isFirst then st\<lparr>sn_out := (sn_out st)\<lparr>tc_Count := count\<rparr>\<rparr> else st)"
    have e1: "tc_Entities (sn_out st1) = tc_Entities (sn_out st)" by (simp add: st1_def)
    define page1 where "page1 = (if isFirst then page\<lparr>pg_WantTotal := False\<rparr> else page)"
    have p1: "pg_Limit page1 = pg_Limit page" by (simp add: page1_def)
    show ?thesis
    proof (cases "scan_page cx rp (stores 0) ten sms st1")
      case (Inr st2)
      note len = scanned_length [OF scan_page_scanned [OF Inr]]
      show ?thesis
      proof (cases "length (tc_Entities (sn_out st2)) \<ge> maxCompletenessScan \<or> int (length sms) \<le> pg_Limit page")
        case False
        then have "maxCompletenessScan \<le> length (tc_Entities (sn_out st2)) + n * (nat (pg_Limit page) + 1)" "0 < n"
          using Suc.prems len e1 by (auto, cases n) auto
        with Suc.IH [of "page1\<lparr>pg_Cursor := EncodeKeyset (cx_klib cx) [sm_EntityID (last sms)]\<rparr>" st2 "\<lambda>i. stores (Suc i)" False]
          Suc.prems(1) False Inr p1 \<open>valueRepo_ListEntities _ _ _ _ _ _ = Inr r\<close>
        show ?thesis by (simp add: r Let_def st1_def [symmetric] page1_def [symmetric])
      qed (use Inr p1 \<open>valueRepo_ListEntities _ _ _ _ _ _ = Inr r\<close> in \<open>auto simp: r Let_def st1_def [symmetric] page1_def [symmetric]\<close>)
    qed (use \<open>valueRepo_ListEntities _ _ _ _ _ _ = Inr r\<close> in \<open>simp add: r Let_def st1_def [symmetric]\<close>)
  qed simp
qed simp

text \<open>The entities it scores are those of the page sweep.\<close>

lemma paginate_want: "paginate lib items (page\<lparr>pg_WantTotal := b\<rparr>) cols keyOf = paginate lib items page cols keyOf"
  by (cases page) (simp only: paginate_def Page.simps)

lemma sweep_want: "sweep lib cols keyOf cap n views (page\<lparr>pg_WantTotal := b\<rparr>) acc = sweep lib cols keyOf cap n views page acc"
proof (induction n arbitrary: views page acc)
  case (Suc n)
  have "sweep lib cols keyOf cap n w (page\<lparr>pg_WantTotal := b, pg_Cursor := c\<rparr>) a = sweep lib cols keyOf cap n w (page\<lparr>pg_Cursor := c\<rparr>) a" for w c a
    using Suc [of w "page\<lparr>pg_Cursor := c\<rparr>" a] by (cases page) simp
  then show ?case by (simp add: paginate_want Let_def split: sum.split)
qed simp

definition entity_views :: "(nat \<Rightarrow> value_store) \<Rightarrow> TenantID \<Rightarrow> TypeDefinitionID \<Rightarrow> nat \<Rightarrow> EntitySummary list" where
  "entity_views stores ten ty i = sort_key sm_EntityID (entity_summaries (stores i) ten [ty])"

definition scan_ok :: "EntitySummary list \<Rightarrow> scan_state \<Rightarrow> bool" where
  "scan_ok acc st \<longleftrightarrow> map en_EntityID (tc_Entities (sn_out st)) = map sm_EntityID acc \<and>
     tc_Complete (sn_out st) + tc_Incomplete (sn_out st) = length acc"

lemma scan_loop_sweep:
  assumes "scan_loop cx timeKey rp stores ten ty n isFirst page st = Some (Inr st')" "pg_Stable page" "scan_ok acc st"
    "\<not> tc_Truncated (sn_out st)"
  shows "\<exists>out. sweep (cx_klib cx) entityIDKeyset (\<lambda>e. [sm_EntityID e]) maxCompletenessScan n (entity_views stores ten ty) page acc = Some (Inr out) \<and>
    scan_ok out st' \<and> (tc_Truncated (sn_out st') \<longleftrightarrow> maxCompletenessScan \<le> length out)"
  using assms
proof (induction n arbitrary: stores page st acc isFirst)
  case (Suc n)
  then obtain sms count where l: "valueRepo_ListEntities (cx_klib cx) timeKey (stores 0) ten [ty] page = Inr (sms, count)"
    by (auto split: sum.splits)
  then have p: "paginate (cx_klib cx) (entity_views stores ten ty 0) page entityIDKeyset (\<lambda>e. [sm_EntityID e]) = Inr (sms, count)"
    using Suc.prems(2) by (simp add: valueRepo_ListEntities_def entity_views_def Let_def)
  define st1 where "st1 = (if isFirst then st\<lparr>sn_out := (sn_out st)\<lparr>tc_Count := count\<rparr>\<rparr> else st)"
  define page1 where "page1 = (if isFirst then page\<lparr>pg_WantTotal := False\<rparr> else page)"
  have "page1 = page\<lparr>pg_WantTotal := pg_WantTotal page1\<rparr>" by (cases page) (simp add: page1_def)
  then obtain b where b: "page1 = page\<lparr>pg_WantTotal := b\<rparr>" by blast
  from Suc.prems(1) l obtain st2 where s2: "scan_page cx rp (stores 0) ten sms st1 = Inr st2"
    by (auto simp: Let_def st1_def [symmetric] split: sum.splits)
  note sc = scan_page_scanned [OF s2]
  have ok: "scan_ok (acc @ sms) st2" "\<not> tc_Truncated (sn_out st2)"
    using sc Suc.prems(3,4) by (auto simp: scanned_def scan_ok_def st1_def)
  have len: "length (tc_Entities (sn_out st2)) = length (acc @ sms)" using ok(1) by (metis length_map scan_ok_def)
  show ?case
  proof (cases "length (acc @ sms) \<ge> maxCompletenessScan \<or> int (length sms) \<le> pg_Limit page")
    case True
    then have "st' = (if length (acc @ sms) \<ge> maxCompletenessScan then st2\<lparr>sn_out := (sn_out st2)\<lparr>tc_Truncated := True\<rparr>\<rparr> else st2)"
      using Suc.prems(1) l s2 len b by (auto simp: Let_def st1_def [symmetric] page1_def [symmetric] split: if_splits)
    then have "scan_ok (acc @ sms) st'" "tc_Truncated (sn_out st') \<longleftrightarrow> maxCompletenessScan \<le> length (acc @ sms)"
      using ok by (auto simp: scan_ok_def)
    with True p show ?thesis by (intro exI [of _ "acc @ sms"]) (simp add: Let_def)
  next
    case False
    let ?next = "page\<lparr>pg_Cursor := EncodeKeyset (cx_klib cx) [sm_EntityID (last sms)]\<rparr>"
    have "scan_loop cx timeKey rp (\<lambda>i. stores (Suc i)) ten ty n False (page1\<lparr>pg_Cursor := EncodeKeyset (cx_klib cx) [sm_EntityID (last sms)]\<rparr>) st2 =
        Some (Inr st')"
      using Suc.prems(1) l s2 len b False by (auto simp: Let_def st1_def [symmetric] page1_def [symmetric])
    from Suc.IH [OF this _ ok] obtain out where
      "sweep (cx_klib cx) entityIDKeyset (\<lambda>e. [sm_EntityID e]) maxCompletenessScan n (entity_views (\<lambda>i. stores (Suc i)) ten ty)
         (page1\<lparr>pg_Cursor := EncodeKeyset (cx_klib cx) [sm_EntityID (last sms)]\<rparr>) (acc @ sms) = Some (Inr out)"
      "scan_ok out st'" "tc_Truncated (sn_out st') \<longleftrightarrow> maxCompletenessScan \<le> length out"
      using Suc.prems(2) by (auto simp: b)
    moreover have "page1\<lparr>pg_Cursor := EncodeKeyset (cx_klib cx) [sm_EntityID (last sms)]\<rparr> = ?next\<lparr>pg_WantTotal := b\<rparr>" by (simp add: b)
    moreover have "entity_views (\<lambda>i. stores (Suc i)) ten ty = (\<lambda>i. entity_views stores ten ty (Suc i))" by (simp add: entity_views_def fun_eq_iff)
    ultimately show ?thesis using p False by (auto simp: sweep_want Let_def)
  qed
qed simp

text \<open>The report on a type.\<close>

lemma TypeCompleteness_total: "TypeCompleteness cx timeKey rp stores rawT \<noteq> None"
proof -
  have "scan_loop cx timeKey rp stores ten ty 5 True \<lparr>pg_Limit = 200, pg_Cursor = [], pg_WantTotal = True, pg_Stable = True\<rparr> st \<noteq> None" for ten ty st
    by (rule scan_loop_total) (simp_all add: maxCompletenessScan_def)
  then show ?thesis by (auto simp: TypeCompleteness_def split: sum.split)
qed

lemma TypeCompleteness_report:
  assumes "TypeCompleteness cx timeKey rp stores rawT = Some (Inr out)"
  obtains ty t es where "cx_parseID cx rawT = Inr ty" "types_get rp ty = Inr t" "td_tenantID t = cx_tenant cx"
    "sweep (cx_klib cx) entityIDKeyset (\<lambda>e. [sm_EntityID e]) maxCompletenessScan 5 (entity_views stores (cx_tenant cx) ty)
       \<lparr>pg_Limit = 200, pg_Cursor = [], pg_WantTotal = True, pg_Stable = True\<rparr> [] = Some (Inr es)"
    "map en_EntityID (tc_Entities out) = map sm_EntityID es" "tc_Scored out = length es"
    "tc_Complete out + tc_Incomplete out = tc_Scored out" "tc_Truncated out \<longleftrightarrow> maxCompletenessScan \<le> tc_Scored out"
proof -
  let ?page = "\<lparr>pg_Limit = 200, pg_Cursor = [], pg_WantTotal = True, pg_Stable = True\<rparr>"
  from assms obtain ty t where t: "cx_parseID cx rawT = Inr ty" "types_get rp ty = Inr t" "td_tenantID t = cx_tenant cx"
    by (auto simp: TypeCompleteness_def own_type_def rbind_Inr rguard_Inr as_validation_Inr map_sum_Inr EnsureTenant_def split: sum.splits if_splits)
  define st0 where "st0 = \<lparr>sn_out = \<lparr>tc_TypeDefinitionID = cx_idString cx ty, tc_Count = 0, tc_Scored = 0, tc_Truncated = False,
                   tc_AverageScore = FFin 0, tc_Complete = 0, tc_Incomplete = 0, tc_Entities = []\<rparr>,
                sn_types = [(ty, t)], sn_sum = FFin 0\<rparr>"
  have own: "rbind (as_validation (cx_parseID cx rawT)) (\<lambda>typeID. map_sum id (Pair typeID) (own_type cx rp typeID)) = Inr (ty, t)"
    using t by (simp add: own_type_def EnsureTenant_def)
  from assms obtain st where st: "scan_loop cx timeKey rp stores (cx_tenant cx) ty 5 True ?page st0 = Some (Inr st)"
    and out: "out = (let out = (sn_out st)\<lparr>tc_Scored := length (tc_Entities (sn_out st))\<rparr>
              in if tc_Scored out > 0 then out\<lparr>tc_AverageScore := f_div (sn_sum st) (f_of_int (int (tc_Scored out)))\<rparr> else out)"
    unfolding TypeCompleteness_def own st0_def by (auto simp: map_sum_Inr t(3))
  have "scan_ok [] st0" "\<not> tc_Truncated (sn_out st0)" by (simp_all add: scan_ok_def st0_def)
  from scan_loop_sweep [OF st _ this] obtain es where es: "sweep (cx_klib cx) entityIDKeyset (\<lambda>e. [sm_EntityID e]) maxCompletenessScan 5
      (entity_views stores (cx_tenant cx) ty) ?page [] = Some (Inr es)" "scan_ok es st" "tc_Truncated (sn_out st) \<longleftrightarrow> maxCompletenessScan \<le> length es"
    by auto
  have len: "length (tc_Entities (sn_out st)) = length es" using es(2) by (metis length_map scan_ok_def)
  show thesis
    by (rule that [OF t es(1)]) (use es(2,3) len in \<open>simp_all add: out Let_def scan_ok_def\<close>)
qed

text \<open>An entity of the type that is there for the whole sweep is scored once, unless the report says it stopped at the cap.\<close>

lemma TypeCompleteness_once:
  assumes "TypeCompleteness cx timeKey rp stores rawT = Some (Inr out)" "\<not> tc_Truncated out" "\<And>e. cursor_exact (cx_klib cx) [e]"
    "cx_parseID cx rawT = Inr ty" "\<And>i. live_entity (stores i) (cx_tenant cx) ty e"
  shows "count_list (map en_EntityID (tc_Entities out)) e = 1"
proof -
  from TypeCompleteness_report [OF assms(1)] obtain ty' es where ty: "cx_parseID cx rawT = Inr ty'"
    and es: "sweep (cx_klib cx) entityIDKeyset (\<lambda>e. [sm_EntityID e]) maxCompletenessScan 5 (entity_views stores (cx_tenant cx) ty')
       \<lparr>pg_Limit = 200, pg_Cursor = [], pg_WantTotal = True, pg_Stable = True\<rparr> [] = Some (Inr es)"
      "map en_EntityID (tc_Entities out) = map sm_EntityID es" "tc_Scored out = length es" "tc_Truncated out \<longleftrightarrow> maxCompletenessScan \<le> tc_Scored out"
    by metis
  have "ty' = ty" using ty assms(4) by simp
  then have v: "entity_views stores (cx_tenant cx) ty' = (\<lambda>i. sort_key sm_EntityID (entity_summaries (stores i) (cx_tenant cx) [ty]))"
    by (simp add: entity_views_def fun_eq_iff)
  have "count_list (map sm_EntityID es) e = 1"
    by (rule entity_sweep_once [OF assms(3) es(1)[unfolded v] _ _ _ assms(5)]) (use es(3,4) assms(2) in simp_all)
  then show ?thesis using es(2) by simp
qed

text \<open>The report does not depend on values the caller may not read.\<close>

lemma visible_rewrite: "visible_rows access attrs (rewrite_hidden access attrs h s) = visible_rows access attrs s"
  by (induction s) (auto simp: visible_rows_def rewrite_hidden_def)

lemma TypeCompleteness_hides:
  assumes "inj (cx_idString cx)" "\<not> Admin (cx_access cx)"
  shows "TypeCompleteness cx timeKey rp (\<lambda>i. rewrite_hidden (cx_access cx) (rp_attrs rp) (h i) (stores i)) rawT =
    TypeCompleteness cx timeKey rp stores rawT"
proof -
  let ?r = "\<lambda>h s. rewrite_hidden (cx_access cx) (rp_attrs rp) h s"
  have filled: "entityFilled cx rp (?r g s) ten ty e = entityFilled cx rp s ten ty e" for g s ten ty e
    by (rule entityFilled_hides [OF assms]) (rule visible_rewrite)
  have page: "scan_page cx rp (?r g s) ten sms st = scan_page cx rp s ten sms st" for g s ten sms st
  proof (induction sms arbitrary: st)
    case (Cons sm sms)
    have "scan_page cx rp (?r g s) ten sms = scan_page cx rp s ten sms" using Cons by (rule ext)
    then show ?case by (simp add: scan_one_def filled)
  qed simp
  have list: "valueRepo_ListEntities klib timeKey (?r g s) ten tys p = valueRepo_ListEntities klib timeKey s ten tys p" for klib g s ten tys p
    by (simp add: valueRepo_ListEntities_def entity_summaries_view)
  have loop: "scan_loop cx timeKey rp (\<lambda>i. ?r (g i) (w i)) ten ty n b p st = scan_loop cx timeKey rp w ten ty n b p st" for g w ten ty n b p st
  proof (induction n arbitrary: g w b p st)
    case (Suc n)
    show ?case unfolding scan_loop.simps list page Suc ..
  qed simp
  show ?thesis unfolding TypeCompleteness_def loop ..
qed

end
