(* ===== verification/Reference_Schema.thy ===== *)
theory Reference_Schema
  imports Reference_Data Completeness_Laws
begin

text \<open>
  Concrete schemas: a tree of three types with attributes of one name, two formulas that read each other, and a
  principal that may not read one attribute.
\<close>

section \<open>Requests\<close>

definition ref_create :: "string \<Rightarrow> string \<Rightarrow> string \<Rightarrow> rawmsg \<Rightarrow> AttrCreateInput" where
  "ref_create ty name dt computed =
     \<lparr>ac_TypeDefinitionID = ty, ac_InternalName = name, ac_DisplayName = ''x'', ac_Description = [], ac_DataType = dt, ac_Required = False,
      ac_MultiValued = False, ac_Unique = False, ac_Localizable = False, ac_Scopable = False, ac_UnitFamilyID = [], ac_DisplayUnit = [],
      ac_Computed = computed, ac_Constraints = RawNil, ac_DefaultValue = RawNil, ac_Group = [], ac_SortOrder = 0, ac_HelpText = []\<rparr>"

definition ref_formula :: "string \<Rightarrow> rawmsg" where
  "ref_formula src = Raw (JObj [(''kind'', JStr ''formula''), (''formula'', JStr src)])"

definition ref_update :: "string \<Rightarrow> rawmsg \<Rightarrow> AttrUpdateRequest" where
  "ref_update i computed =
     \<lparr>ur_ID = i, ur_DisplayName = ''x'', ur_Description = [], ur_Required = False, ur_MultiValued = False, ur_Unique = False,
      ur_Localizable = False, ur_Scopable = False, ur_UnitFamilyID = [], ur_DisplayUnit = [], ur_Computed = computed,
      ur_Constraints = RawNil, ur_DefaultValue = RawNil, ur_Group = [], ur_SortOrder = 0, ur_HelpText = [], ur_Version = Some 1\<rparr>"

text \<open>The store after an accepted call.\<close>

definition store_of :: "attr_outcome \<Rightarrow> attr_store" where
  "store_of r = (case r of Inr (s, _) \<Rightarrow> s | Inl _ \<Rightarrow> [])"

lemma accepted_store: "is_ok r \<Longrightarrow> \<exists>snap es ch. r = Inr (store_of r, snap, es, ch)"
  by (cases r) (auto simp: is_ok_def store_of_def)

definition ref_node :: "ulid \<Rightarrow> string \<Rightarrow> ulid option \<Rightarrow> int \<Rightarrow> int option \<Rightarrow> TypeSnapshot" where
  "ref_node i name ext upd arch =
     \<lparr>ts_ID = i, ts_TenantID = ''acme'', ts_Kind = KindEntity, ts_InternalName = name, ts_DisplayName = ''x'',
      ts_Description = [], ts_ExtendsID = ext, ts_Version = 1, ts_CreatedAt = 0, ts_UpdatedAt = upd, ts_ArchivedAt = arch\<rparr>"

abbreviation ref_on :: "type_store \<Rightarrow> attr_store \<Rightarrow> vrepos" where
  "ref_on types attrs \<equiv> \<lparr>rp_types = types, rp_attrs = attrs, rp_deps = []\<rparr>"

section \<open>One name on two branches\<close>

definition ref_tree :: "int \<Rightarrow> int option \<Rightarrow> type_store" where
  "ref_tree upd arch = [ref_node 1 ''item'' None 0 None, ref_node 2 ''book'' (Some 1) 0 None, ref_node 3 ''disc'' (Some 1) upd arch]"

definition ref_sub :: "string \<Rightarrow> string \<Rightarrow> TypeCreateInput" where
  "ref_sub name ext = \<lparr>tc_InternalName = name, tc_DisplayName = ''x'', tc_Description = [], tc_ExtendsID = ext\<rparr>"

abbreviation ref_code :: "string \<Rightarrow> AttrCreateInput" where
  "ref_code ty \<equiv> ref_create ty ''code'' ''string'' RawNil"

definition ref_codes1 :: attr_store where
  "ref_codes1 = store_of (AttrCreate (ref_cx 0) (ref_on (ref_tree 0 None) []) None (ref_code ''3'') 50 0)"

definition ref_codes2 :: attr_store where
  "ref_codes2 = store_of (AttrCreate (ref_cx 0) (ref_on (ref_tree 1 (Some 1)) ref_codes1) None (ref_code ''2'') 51 0)"

lemma ref_tree_calls:
  "map_sum id fst (TypeCreate ref_parse [] ''acme'' (ref_sub ''item'' []) 1 0) = Inr [ref_node 1 ''item'' None 0 None]"
  "map_sum id fst (TypeCreate ref_parse [ref_node 1 ''item'' None 0 None] ''acme'' (ref_sub ''book'' ''1'') 2 0) =
     Inr [ref_node 1 ''item'' None 0 None, ref_node 2 ''book'' (Some 1) 0 None]"
  "map_sum id fst (TypeCreate ref_parse [ref_node 1 ''item'' None 0 None, ref_node 2 ''book'' (Some 1) 0 None] ''acme'' (ref_sub ''disc'' ''1'') 3 0) =
     Inr (ref_tree 0 None)"
  "map_sum id fst (TypeTransition ref_parse (ref_tree 0 None) ''acme'' ''3'' ActionArchived 1) = Inr (ref_tree 1 (Some 1))"
  "map_sum id fst (TypeTransition ref_parse (ref_tree 1 (Some 1)) ''acme'' ''3'' ActionRestored 2) = Inr (ref_tree 2 None)"
  "is_ok (AttrCreate (ref_cx 0) (ref_on (ref_tree 0 None) []) None (ref_code ''3'') 50 0)"
  "is_ok (AttrCreate (ref_cx 0) (ref_on (ref_tree 1 (Some 1)) ref_codes1) None (ref_code ''2'') 51 0)"
  "map as_ID ref_codes1 = [50]"
  "map (\<lambda>a. (as_ID a, as_TypeDefinitionID a, as_InternalName a, as_ArchivedAt a)) ref_codes2 = [(50, 3, ''code'', None), (51, 2, ''code'', None)]"
  "map_sum id (map td_id) (Descendants (typeDefRepo_ListChildren (ref_tree 2 None)) (type_Rehydrate (ref_node 1 ''item'' None 0 None))) = Inr [2, 3]"
  by code_simp+

lemma ref_codes:
  obtains a b where "ref_codes2 = [a, b]" "as_ID a = 50" "as_TypeDefinitionID a = 3" "as_InternalName a = ''code''" "as_ArchivedAt a = None"
    "as_ID b = 51" "as_TypeDefinitionID b = 2" "as_InternalName b = ''code''" "as_ArchivedAt b = None"
proof -
  from ref_tree_calls(9) obtain a b where c: "ref_codes2 = [a, b]" by (auto simp: map_eq_Cons_conv)
  from ref_tree_calls(9) [unfolded c] that [OF c] show thesis by simp
qed

lemma ref_tree_reachable: "schema_reachable ref_parse (ref_tree 1 (Some 1)) ref_codes2"
proof -
  from ref_tree_calls(1-5) have c: "\<exists>x. TypeCreate ref_parse [] ''acme'' (ref_sub ''item'' []) 1 0 = Inr ([ref_node 1 ''item'' None 0 None], x)"
    "\<exists>x. TypeCreate ref_parse [ref_node 1 ''item'' None 0 None] ''acme'' (ref_sub ''book'' ''1'') 2 0 =
       Inr ([ref_node 1 ''item'' None 0 None, ref_node 2 ''book'' (Some 1) 0 None], x)"
    "\<exists>x. TypeCreate ref_parse [ref_node 1 ''item'' None 0 None, ref_node 2 ''book'' (Some 1) 0 None] ''acme'' (ref_sub ''disc'' ''1'') 3 0 =
       Inr (ref_tree 0 None, x)"
    "\<exists>x. TypeTransition ref_parse (ref_tree 0 None) ''acme'' ''3'' ActionArchived 1 = Inr (ref_tree 1 (Some 1), x)"
    by (auto simp: map_sum_Inr)
  have "schema_reachable ref_parse [ref_node 1 ''item'' None 0 None] []"
    using c(1) schema_type_created [OF schema_empty, of 1] by auto
  then have "schema_reachable ref_parse [ref_node 1 ''item'' None 0 None, ref_node 2 ''book'' (Some 1) 0 None] []"
    using c(2) schema_type_created [of ref_parse _ _ 2] by (fastforce simp: ref_node_def)
  then have t: "schema_reachable ref_parse (ref_tree 0 None) []"
    using c(3) schema_type_created [of ref_parse _ _ 3] by (fastforce simp: ref_node_def)
  from accepted_store [OF ref_tree_calls(6)] have "schema_call (ref_cx 0) (ref_on (ref_tree 0 None) []) None [] ref_codes1"
    unfolding ref_codes1_def by (auto intro: call_Create)
  with schema_attributes [of ref_parse "ref_on (ref_tree 0 None) []"] t have "schema_reachable ref_parse (ref_tree 0 None) ref_codes1" by simp
  then have "schema_reachable ref_parse (ref_tree 1 (Some 1)) ref_codes1" using c(4) schema_type_archived by auto
  moreover have "51 \<notin> as_ID ` set ref_codes1" unfolding set_map [symmetric] ref_tree_calls(8) by simp
  with accepted_store [OF ref_tree_calls(7)] have "schema_call (ref_cx 0) (ref_on (ref_tree 1 (Some 1)) ref_codes1) None [] ref_codes2"
    unfolding ref_codes2_def by (auto intro: call_Create)
  ultimately show ?thesis using schema_attributes [of ref_parse "ref_on (ref_tree 1 (Some 1)) ref_codes1"] by simp
qed

section \<open>Formulas that read each other\<close>

abbreviation ref_item :: TypeSnapshot where
  "ref_item \<equiv> ref_node 1 ''item'' None 0 None"

abbreviation ref_items :: "attr_store \<Rightarrow> vrepos" where
  "ref_items \<equiv> ref_on [ref_item]"

definition ref_loop1 :: attr_store where
  "ref_loop1 = store_of (AttrCreate (ref_cx 0) (ref_items []) None (ref_create ''1'' ''bb'' ''float'' RawNil) 51 0)"

definition ref_loop2 :: attr_store where
  "ref_loop2 = store_of (AttrCreate (ref_cx 0) (ref_items ref_loop1) None (ref_create ''1'' ''aa'' ''float'' (ref_formula ''bb+1'')) 50 0)"

definition ref_loop3 :: attr_store where
  "ref_loop3 = store_of (attr_transition (ref_cx 0) (ref_items ref_loop2) ''50'' ActionArchived 1)"

definition ref_loop4 :: attr_store where
  "ref_loop4 = store_of (AttrUpdate (ref_cx 0) (ref_items ref_loop3) None [] (ref_update ''51'' (ref_formula ''aa+1'')) 2)"

definition ref_loop5 :: attr_store where
  "ref_loop5 = store_of (attr_transition (ref_cx 0) (ref_items ref_loop4) ''50'' ActionRestored 3)"

lemma ref_loop_calls:
  "is_ok (AttrCreate (ref_cx 0) (ref_items []) None (ref_create ''1'' ''bb'' ''float'' RawNil) 51 0)"
  "is_ok (AttrCreate (ref_cx 0) (ref_items ref_loop1) None (ref_create ''1'' ''aa'' ''float'' (ref_formula ''bb+1'')) 50 0)"
  "is_ok (attr_transition (ref_cx 0) (ref_items ref_loop2) ''50'' ActionArchived 1)"
  "is_ok (AttrUpdate (ref_cx 0) (ref_items ref_loop3) None [] (ref_update ''51'' (ref_formula ''aa+1'')) 2)"
  "is_ok (attr_transition (ref_cx 0) (ref_items ref_loop4) ''50'' ActionRestored 3)"
  "map as_ID ref_loop1 = [51]"
  "computedDeps ref_lib (list_all_for (ref_cx 0) (ref_items ref_loop4)) [type_Rehydrate ref_item] = Inr [(''bb'', [''aa''])]"
  "computedDeps ref_lib (list_all_for (ref_cx 0) (ref_items ref_loop5)) [type_Rehydrate ref_item] = Inr [(''aa'', [''bb'']), (''bb'', [''aa''])]"
  by code_simp+

lemma ref_item_reachable: "schema_reachable ref_parse [ref_item] []"
proof -
  from ref_tree_calls(1) have "\<exists>x. TypeCreate ref_parse [] ''acme'' (ref_sub ''item'' []) 1 0 = Inr ([ref_item], x)" by (auto simp: map_sum_Inr)
  then show ?thesis using schema_type_created [OF schema_empty, of 1] by auto
qed

lemma ref_loop_reachable: "schema_reachable ref_parse [ref_item] ref_loop4"
proof -
  have step: "schema_reachable ref_parse [ref_item] attrs'" if "schema_reachable ref_parse [ref_item] attrs" "schema_call (ref_cx 0) (ref_items attrs) None [] attrs'"
    for attrs attrs' using schema_attributes [of ref_parse "ref_items attrs"] that by simp
  have "schema_call (ref_cx 0) (ref_items []) None [] ref_loop1"
    using accepted_store [OF ref_loop_calls(1)] unfolding ref_loop1_def by (auto intro: call_Create)
  moreover have "50 \<notin> as_ID ` set ref_loop1" unfolding set_map [symmetric] ref_loop_calls(6) by simp
  with accepted_store [OF ref_loop_calls(2)] have "schema_call (ref_cx 0) (ref_items ref_loop1) None [] ref_loop2"
    unfolding ref_loop2_def by (auto intro: call_Create)
  moreover have "schema_call (ref_cx 0) (ref_items ref_loop2) None [] ref_loop3"
    using accepted_store [OF ref_loop_calls(3)] unfolding ref_loop3_def by (auto intro: call_Transition)
  moreover have "schema_call (ref_cx 0) (ref_items ref_loop3) None [] ref_loop4"
    using accepted_store [OF ref_loop_calls(4)] unfolding ref_loop4_def by (auto intro: call_Update)
  ultimately show ?thesis using ref_item_reachable step by blast
qed

lemma ref_loop_graphs: "acyclic (reads [(''bb'', [''aa''])])" "\<not> acyclic (reads [(''aa'', [''bb'']), (''bb'', [''aa''])])"
proof -
  have "reads [(''bb'', [''aa''])] = {(''bb'', ''aa'')}" by (auto simp: reads_def edges_def split: if_splits)
  then show "acyclic (reads [(''bb'', [''aa''])])" by (simp add: acyclic_def trancl_insert)
  have "(''aa'', ''bb'') \<in> reads [(''aa'', [''bb'']), (''bb'', [''aa''])]" "(''bb'', ''aa'') \<in> reads [(''aa'', [''bb'']), (''bb'', [''aa''])]"
    by (simp_all add: reads_def edges_def)
  then show "\<not> acyclic (reads [(''aa'', [''bb'']), (''bb'', [''aa''])])" by (meson acyclic_def r_into_trancl' trancl_trans)
qed

section \<open>A restricted principal\<close>

definition ref_secret :: AttrSnapshot where
  "ref_secret = attr_Snapshot (ref_owner\<lparr>ad_dataType := DataTypeFloat\<rparr>)"

definition ref_tags :: AttrSnapshot where
  "ref_tags = attr_Snapshot (ref_owner\<lparr>ad_id := 8, ad_internalName := ''tags'', ad_dataType := DataTypeFloat, ad_multiValued := True\<rparr>)"

definition ref_probe :: AttrCreateInput where
  "ref_probe = ref_create ''1'' ''zz'' ''float'' (ref_formula ''owner+tags'')"

lemma ref_probe_answers:
  "case AttrCreate ref_guest (ref_items [ref_secret, ref_tags]) None ref_probe 90 0 of Inl e \<Rightarrow> e = errUnknownFormulaSource | Inr _ \<Rightarrow> False"
  "case AttrCreate ref_guest (ref_items [ref_tags]) None ref_probe 90 0 of
     Inl e \<Rightarrow> e = NewValidation ''a formula cannot read a multi-valued attribute directly'' | Inr _ \<Rightarrow> False"
  "case AttrCreate ref_guest (ref_items [ref_tags]) None (ref_create ''1'' ''zz'' ''float'' (ref_formula ''sum(tags)*2'')) 90 0 of
     Inl e \<Rightarrow> False | Inr (_, snap, _) \<Rightarrow> map_option co_Formula (as_Computed snap) = Some ''sum(tags)*2''"
  "case AttrCreate (ref_cx 0) (ref_items []) None (ref_create ''1'' ''zz'' ''float'' (Raw (JObj [(''kind'', JStr ''rollup'')]))) 90 0 of
     Inl e \<Rightarrow> e = nil_dereference | Inr _ \<Rightarrow> False"
  by code_simp+

end
