(* ===== verification/Reference_Rules.thy ===== *)
theory Reference_Rules
  imports Reference_Schema
begin

text \<open>
  Concrete rules: attributes of a type and of its subtype, rules between them authored through the use cases, and the rule that
  becomes impossible to meet when its target is turned into a formula.
\<close>

section \<open>Rules between attributes of two types\<close>

definition ref_attrs1 :: attr_store where
  "ref_attrs1 = store_of (AttrCreate (ref_cx 0) (ref_on (ref_tree 0 None) []) None (ref_create ''1'' ''state'' ''string'' RawNil) 60 0)"

definition ref_attrs2 :: attr_store where
  "ref_attrs2 = store_of (AttrCreate (ref_cx 0) (ref_on (ref_tree 0 None) ref_attrs1) None (ref_create ''1'' ''price'' ''float'' RawNil) 61 0)"

definition ref_attrs3 :: attr_store where
  "ref_attrs3 = store_of (AttrCreate (ref_cx 0) (ref_on (ref_tree 0 None) ref_attrs2) None (ref_create ''2'' ''isbn'' ''string'' RawNil) 62 0)"

definition ref_when :: "string \<Rightarrow> rawmsg" where
  "ref_when v = Raw (JArr [JObj [(''kind'', JStr ''equals''), (''value'', JObj [(''type'', JStr ''string''), (''value'', JStr v)])]])"

definition ref_must :: rawmsg where
  "ref_must = Raw (JObj [(''required'', JBool True), (''enforce'', JStr ''on_write'')])"

definition ref_rule :: "string \<Rightarrow> string \<Rightarrow> DepCreateRequest" where
  "ref_rule source v = \<lparr>dc_SourceAttributeID = source, dc_TargetAttributeID = ''61'', dc_Conditions = ref_when v, dc_Effect = ref_must,
     dc_Description = []\<rparr>"

definition ref_shop :: "attr_store \<Rightarrow> dep_store \<Rightarrow> vrepos" where
  "ref_shop attrs deps = \<lparr>rp_types = ref_tree 0 None, rp_attrs = attrs, rp_deps = deps\<rparr>"

definition rules_of :: "dep_outcome \<Rightarrow> dep_store" where
  "rules_of r = (case r of Inr (s, _) \<Rightarrow> s | Inl _ \<Rightarrow> [])"

definition ref_rules :: dep_store where
  "ref_rules = rules_of (DepCreate (ref_cx 0) (ref_shop ref_attrs3 []) (ref_rule ''60'' ''sold'') 70 0)"

definition ref_attrs4 :: attr_store where
  "ref_attrs4 = store_of (AttrUpdate (ref_cx 0) (ref_shop ref_attrs3 ref_rules) None [] (ref_update ''61'' (ref_formula ''1+1'')) 2)"

definition ref_fill :: "string \<Rightarrow> string \<Rightarrow> json \<Rightarrow> SetInput" where
  "ref_fill attr ty v = \<lparr>si_AttributeDefinitionID = attr, si_EntityID = ''e1'', si_TypeDefinitionID = ty, si_Locale = [],
     si_Channel = [], si_Value = Raw v, si_Internal = False, si_fromUpload = False\<rparr>"

lemma ref_shop_calls:
  "is_ok (AttrCreate (ref_cx 0) (ref_on (ref_tree 0 None) []) None (ref_create ''1'' ''state'' ''string'' RawNil) 60 0)"
  "is_ok (AttrCreate (ref_cx 0) (ref_on (ref_tree 0 None) ref_attrs1) None (ref_create ''1'' ''price'' ''float'' RawNil) 61 0)"
  "is_ok (AttrCreate (ref_cx 0) (ref_on (ref_tree 0 None) ref_attrs2) None (ref_create ''2'' ''isbn'' ''string'' RawNil) 62 0)"
  "is_ok (DepCreate (ref_cx 0) (ref_shop ref_attrs3 []) (ref_rule ''60'' ''sold'') 70 0)"
  "is_ok (AttrUpdate (ref_cx 0) (ref_shop ref_attrs3 ref_rules) None [] (ref_update ''61'' (ref_formula ''1+1'')) 2)"
  by code_simp+

lemma ref_shop_simps [simp]: "rp_attrs (ref_shop attrs deps) = attrs" "rp_deps (ref_shop attrs deps) = deps"
  by (simp_all add: ref_shop_def)

lemma accepted_rule: "is_ok r \<Longrightarrow> \<exists>d es ch. r = Inr (rules_of r, d, es, ch)"
  by (cases r) (auto simp: is_ok_def rules_of_def)

lemma ref_wf [simp]: "wf_raw (ref_when ''sold'')" "wf_raw ref_must"
  by code_simp+

lemma ref_rule_call: "rule_call (ref_cx 0) (ref_shop ref_attrs3 []) ref_rules"
  using accepted_rule [OF ref_shop_calls(4)] unfolding ref_rules_def [symmetric]
  by (auto intro!: rule_Create simp: ref_rule_def ref_wf)

lemma ref_rules_reachable: "rules_reachable ref_lib ref_attrs3 ref_rules" "rules_reachable ref_lib ref_attrs4 ref_rules"
proof -
  from rules_change [of ref_lib "ref_shop ref_attrs3 []" "ref_cx 0", OF _ _ _ ref_rule_call] rules_empty
  show r: "rules_reachable ref_lib ref_attrs3 ref_rules" by simp
  have "schema_call (ref_cx 0) (ref_shop ref_attrs3 ref_rules) None [] ref_attrs4"
    using accepted_store [OF ref_shop_calls(5)] unfolding ref_attrs4_def by (auto intro: call_Update)
  from rules_schema [OF _ _ this] r show "rules_reachable ref_lib ref_attrs4 ref_rules" by simp
qed

text \<open>The rule as it is stored, and the answers of the writes it governs.\<close>

lemma ref_rules_are:
  "map (\<lambda>d. (dep_id d, dep_sourceID d, dep_targetID d)) ref_rules = [(70, 60, 61)]"
  "map (\<lambda>d. (DemandsValue (dep_effect d), eff_Enforce (dep_effect d))) ref_rules = [(True, EnforceOnWrite)]"
  "map dep_conditions ref_rules = [[ref_cond\<lparr>cond_Value := Some (NewStringValue ''sold'')\<rparr>]]"
  by code_simp+

definition set_error :: "vrepos \<Rightarrow> SetInput \<Rightarrow> goerr option" where
  "set_error rp inp = (case value_Set (ref_cx 100) rp [] inp of Inl e \<Rightarrow> Some e | Inr _ \<Rightarrow> None)"

definition rule_error :: "vrepos \<Rightarrow> DepCreateRequest \<Rightarrow> goerr option" where
  "rule_error rp inp = (case DepCreate (ref_cx 0) rp inp 71 0 of Inl e \<Rightarrow> Some e | Inr _ \<Rightarrow> None)"

lemma ref_subtype_source:
  "rule_error (ref_shop ref_attrs3 []) (ref_rule ''62'' ''x'') = None"
  "set_error (ref_shop ref_attrs3 []) (ref_fill ''61'' ''1'' (JNum ''5'')) = None"
  "set_error (ref_shop ref_attrs3 []) (ref_fill ''62'' ''1'' (JStr ''x'')) =
     Some (NewValidation ''the attribute is not part of the entity type's inherited schema'')"
  by code_simp+

lemma ref_computed_target:
  "rule_error (ref_shop ref_attrs4 []) (ref_rule ''60'' ''sold'') =
     Some (NewValidation ''a computed attribute cannot be required on write: its value is materialized after the write commits'')"
  "set_error (ref_shop ref_attrs4 ref_rules) (ref_fill ''60'' ''1'' (JStr ''sold'')) =
     Some (NewDependencyViolation ''an attribute dependency requires a value for %q'')"
  "set_error (ref_shop ref_attrs4 ref_rules) (ref_fill ''61'' ''1'' (JNum ''5'')) = Some (NewValidation ''attribute is computed (read-only)'')"
  by code_simp+

section \<open>Completeness\<close>

text \<open>An entity that holds neither of the two required attributes.\<close>

definition ref_bare :: value_store where "ref_bare = [ref_row 200 7 red]"

lemma ref_score:
  "case Completeness (ref_cx 0) ref_repos ref_bare ''1'' ''e1'' of Inl _ \<Rightarrow> False | Inr out \<Rightarrow> cp_Required out = 2 \<and> cp_Filled out = 0"
  by code_simp

lemma ref_report: "case TypeCompleteness (ref_cx 0) (\<lambda>_. []) ref_repos (\<lambda>_. ref_bare) ''1'' of Some (Inr out) \<Rightarrow> True | _ \<Rightarrow> False"
  by code_simp

lemma ref_swept:
  "case sweep ref_klib entityIDKeyset (\<lambda>e. [sm_EntityID e]) maxCompletenessScan 5 (entity_views (\<lambda>_. ref_bare) ''acme'' 1)
       \<lparr>pg_Limit = 200, pg_Cursor = [], pg_WantTotal = True, pg_Stable = True\<rparr> [] of
     Some (Inr es) \<Rightarrow> length es = 1 | _ \<Rightarrow> False"
  by code_simp

lemma ref_scored:
  assumes "TypeCompleteness (ref_cx 0) (\<lambda>_. []) ref_repos (\<lambda>_. ref_bare) ''1'' = Some (Inr out)"
  shows "tc_Scored out = 1"
proof -
  have p: "cx_parseID (ref_cx 0) ''1'' = Inr 1" by code_simp
  have c: "cx_klib (ref_cx 0) = ref_klib" by (simp add: ref_cx_def)
  from TypeCompleteness_report [OF assms, unfolded p c ref_cx_simps(2)] obtain ty es where "Inr 1 = (Inr ty :: ulid result)"
    "sweep ref_klib entityIDKeyset (\<lambda>e. [sm_EntityID e]) maxCompletenessScan 5 (entity_views (\<lambda>_. ref_bare) ''acme'' ty)
       \<lparr>pg_Limit = 200, pg_Cursor = [], pg_WantTotal = True, pg_Stable = True\<rparr> [] = Some (Inr es)" "tc_Scored out = length es"
    by blast
  with ref_swept show ?thesis by simp
qed

lemma ref_cursor [simp]: "cursor_exact ref_klib [e]"
  by (simp add: cursor_exact_def ref_klib_def)

lemma ref_guest_simps [simp]: "cx_idString ref_guest = ref_id" "\<not> Admin (cx_access ref_guest)"
  by (simp_all add: ref_guest_def ref_cx_def)

lemma ref_hidden_rows:
  "visible_rows (cx_access ref_guest) (rp_attrs ref_query_repos) (ref_rows ''ann'') = [ref_row 200 5 red]"
  "visible_rows (cx_access ref_guest) (rp_attrs ref_query_repos) [ref_row 200 5 red] = [ref_row 200 5 red]"
  by code_simp+

end
