(* ===== verification/Revisions.thy ===== *)
theory Revisions
  imports Value_Writes Query_Bind
begin

text \<open>
  Entity revisions: \<^verbatim>\<open>application/revision/revision.go\<close>, the in-memory store (\<^verbatim>\<open>infrastructure/memory/revision_store.go\<close>) and the write half of a
  restore (\<^verbatim>\<open>application/value/snapshot.go\<close>). A revision is an immutable copy of an entity's live values; a restore applies it
  through the value write path, archives what it does not hold, and captures the result.

  The store is a Go map; it is a list here, whose order stands for the order in which the map is iterated. \<open>jt\<close> is the JSON
  reader of the library: the document a text holds, if it is valid.
\<close>

section \<open>Data\<close>

record RevValue =
  rv_AttributeDefinitionID :: string
  rv_InternalName :: string
  rv_DisplayName :: string
  rv_DataType :: string
  rv_Locale :: string
  rv_Channel :: string
  rv_Value :: string
  rv_Typed :: rawmsg

record Revision =
  rvn_ID :: ulid
  rvn_TenantID :: TenantID
  rvn_TypeDefinitionID :: string
  rvn_EntityID :: string
  rvn_Seq :: int
  rvn_Label :: string
  rvn_CreatedAt :: int
  rvn_Values :: "RevValue list"

type_synonym rev_store = "Revision list"

section \<open>The store (memory/revision_store.go)\<close>

definition ErrRevision :: goerr where
  "ErrRevision = NewNotFound ''entity_revision''"

fun revisionStore_Create :: "Revision \<Rightarrow> rev_store \<Rightarrow> rev_store" where
  "revisionStore_Create r [] = [r]"
| "revisionStore_Create r (x # xs) = (if rvn_ID x = rvn_ID r then r # xs else x # revisionStore_Create r xs)"

definition revisionStore_Get :: "rev_store \<Rightarrow> TenantID \<Rightarrow> ulid \<Rightarrow> Revision result" where
  "revisionStore_Get s tenant i =
     (case find (\<lambda>r. rvn_ID r = i) s of None \<Rightarrow> Inl ErrRevision
      | Some r \<Rightarrow> if rvn_TenantID r \<noteq> tenant then Inl ErrRevision else Inr r)"

definition of_entity :: "TenantID \<Rightarrow> string \<Rightarrow> Revision \<Rightarrow> bool" where
  "of_entity tenant entityID r \<longleftrightarrow> rvn_TenantID r = tenant \<and> rvn_EntityID r = entityID"

definition forEntity :: "rev_store \<Rightarrow> TenantID \<Rightarrow> string \<Rightarrow> Revision list" where
  "forEntity s tenant entityID = sort_key (\<lambda>r. - rvn_Seq r) (filter (of_entity tenant entityID) s)"

definition revisionStore_AsOf :: "rev_store \<Rightarrow> TenantID \<Rightarrow> string \<Rightarrow> int \<Rightarrow> Revision result" where
  "revisionStore_AsOf s tenant entityID instant =
     (case find (\<lambda>r. rvn_CreatedAt r \<le> instant) (forEntity s tenant entityID) of None \<Rightarrow> Inl ErrRevision | Some r \<Rightarrow> Inr r)"

definition LastSeq :: "rev_store \<Rightarrow> TenantID \<Rightarrow> string \<Rightarrow> int" where
  "LastSeq s tenant entityID = (case forEntity s tenant entityID of [] \<Rightarrow> 0 | r # _ \<Rightarrow> rvn_Seq r)"

definition rev_PurgeEntity :: "rev_store \<Rightarrow> TenantID \<Rightarrow> string \<Rightarrow> rev_store \<times> Revision list" where
  "rev_PurgeEntity s tenant entityID = (filter (\<lambda>r. \<not> of_entity tenant entityID r) s, filter (of_entity tenant entityID) s)"

definition rev_PurgeTenant :: "rev_store \<Rightarrow> TenantID \<Rightarrow> rev_store \<times> Revision list" where
  "rev_PurgeTenant s tenant = (filter (\<lambda>r. rvn_TenantID r \<noteq> tenant) s, filter (\<lambda>r. rvn_TenantID r = tenant) s)"

text \<open>The rollback hook of a purge inside a transaction puts the removed revisions back.\<close>

definition restoreOnRollback :: "Revision list \<Rightarrow> rev_store \<Rightarrow> rev_store" where
  "restoreOnRollback removed s = fold revisionStore_Create removed s"

section \<open>Capture (revision.go)\<close>

definition resolveEntity :: "vctx \<Rightarrow> vrepos \<Rightarrow> string \<Rightarrow> string \<Rightarrow> (TypeDefinitionID \<times> TenantID) result" where
  "resolveEntity cx rp rawTypeID entityID =
     rbind (as_validation (cx_parseID cx rawTypeID)) (\<lambda>typeID.
     rbind (as_validation (ParseEntityID entityID)) (\<lambda>_.
     rbind (types_get rp typeID) (\<lambda>t.
     rguard (EnsureTenant (cx_tenant cx) (td_tenantID t) ''type_definition'') (Inr (typeID, td_tenantID t)))))"

definition capture_one :: "vctx \<Rightarrow> vrepos \<Rightarrow> AttributeValue \<Rightarrow> RevValue result" where
  "capture_one cx rp av =
     rbind (attrRepo_Get (rp_attrs rp) (av_attributeDefID av)) (\<lambda>def.
     rbind (MarshalTyped (cx_lib cx) (av_value av)) (\<lambda>typed.
       Inr \<lparr>rv_AttributeDefinitionID = cx_idString cx (av_attributeDefID av), rv_InternalName = ad_internalName def,
         rv_DisplayName = ad_displayName def, rv_DataType = dt_String (dataType (av_value av)), rv_Locale = Locale (av_scope av),
         rv_Channel = Channel (av_scope av), rv_Value = ValueString (cx_lib cx) (av_value av), rv_Typed = typed\<rparr>))"

definition snapshotValues :: "vctx \<Rightarrow> vrepos \<Rightarrow> value_store \<Rightarrow> TenantID \<Rightarrow> string \<Rightarrow> RevValue list result" where
  "snapshotValues cx rp s tenant rawEntityID =
     rbind (as_validation (ParseEntityID rawEntityID)) (\<lambda>entityID.
     rbind (map_result (capture_one cx rp) (ListByEntities (cx_idString cx) s tenant [entityID])) (\<lambda>out.
       Inr (sort_key (\<lambda>v. (rv_InternalName v, rv_Locale v, rv_Channel v)) out)))"

text \<open>Allocation of the sequence number, the first half of the unit of work of \<^verbatim>\<open>Create\<close>; the insert is the other half.\<close>

definition rev_allocate :: "rev_store \<Rightarrow> TenantID \<Rightarrow> string \<Rightarrow> string \<Rightarrow> string \<Rightarrow> RevValue list \<Rightarrow> ulid \<Rightarrow> int \<Rightarrow> Revision" where
  "rev_allocate revs tenant rawTypeID entityID label vals newid now =
     \<lparr>rvn_ID = newid, rvn_TenantID = tenant, rvn_TypeDefinitionID = rawTypeID, rvn_EntityID = entityID,
      rvn_Seq = LastSeq revs tenant entityID + 1, rvn_Label = label, rvn_CreatedAt = now, rvn_Values = vals\<rparr>"

definition RevCreate :: "vctx \<Rightarrow> vrepos \<Rightarrow> value_store \<Rightarrow> rev_store \<Rightarrow> string \<Rightarrow> string \<Rightarrow> string \<Rightarrow> ulid \<Rightarrow> int \<Rightarrow>
    (rev_store \<times> Revision) result" where
  "RevCreate cx rp s revs rawTypeID entityID label newid now =
     rbind (resolveEntity cx rp rawTypeID entityID) (\<lambda>(_, tenant).
     rbind (snapshotValues cx rp s tenant entityID) (\<lambda>vals.
       let r = rev_allocate revs tenant rawTypeID entityID label vals newid now
       in Inr (revisionStore_Create r revs, r)))"

section \<open>Reads\<close>

definition RevList :: "vctx \<Rightarrow> vrepos \<Rightarrow> rev_store \<Rightarrow> string \<Rightarrow> string \<Rightarrow> Revision list result" where
  "RevList cx rp revs rawTypeID entityID =
     rbind (resolveEntity cx rp rawTypeID entityID) (\<lambda>(_, tenant).
       Inr (map (\<lambda>r. r\<lparr>rvn_Values := []\<rparr>) (forEntity revs tenant entityID)))"

definition rev_get :: "vctx \<Rightarrow> rev_store \<Rightarrow> string \<Rightarrow> Revision result" where
  "rev_get cx revs raw = rbind (as_validation (cx_parseID cx raw)) (\<lambda>i. revisionStore_Get revs (cx_tenant cx) i)"

definition rev_redact :: "vctx \<Rightarrow> vrepos \<Rightarrow> Revision \<Rightarrow> Revision result" where
  "rev_redact cx rp r =
     (if Admin (cx_access cx) \<or> rvn_Values r = [] then Inr r
      else rbind (map_result (\<lambda>v. as_validation (cx_parseID cx (rv_AttributeDefinitionID v))) (rvn_Values r)) (\<lambda>ids.
           rbind (Readable (cx_idString cx) (attrRepo_GetMany (rp_attrs rp)) (cx_access cx) ids) (\<lambda>readable.
             Inr (r\<lparr>rvn_Values := filter (\<lambda>v. flag_at readable (rv_AttributeDefinitionID v)) (rvn_Values r)\<rparr>))))"

definition RevGet :: "vctx \<Rightarrow> vrepos \<Rightarrow> rev_store \<Rightarrow> string \<Rightarrow> Revision result" where
  "RevGet cx rp revs raw = rbind (rev_get cx revs raw) (rev_redact cx rp)"

definition RevAsOf :: "vctx \<Rightarrow> vrepos \<Rightarrow> rev_store \<Rightarrow> string \<Rightarrow> string \<Rightarrow> int \<Rightarrow> Revision result" where
  "RevAsOf cx rp revs rawTypeID entityID instant =
     rbind (resolveEntity cx rp rawTypeID entityID) (\<lambda>(_, tenant).
     rbind (revisionStore_AsOf revs tenant entityID instant) (rev_redact cx rp))"

section \<open>Differences\<close>

record RevChange =
  rh_AttributeDefinitionID :: string
  rh_InternalName :: string
  rh_Locale :: string
  rh_Channel :: string
  rh_Kind :: string
  rh_Before :: string
  rh_After :: string

record DiffOutput =
  dif_FromSeq :: int
  dif_ToSeq :: int
  dif_Changes :: "RevChange list"

definition scopeKey :: "RevValue \<Rightarrow> string" where
  "scopeKey v = rv_AttributeDefinitionID v @ [CHR 0x00] @ rv_Locale v @ [CHR 0x00] @ rv_Channel v"

text \<open>\<^verbatim>\<open>groupByScope\<close>: the group of a key, and the keys. \<open>order\<close> is the order in which the runtime iterates over the keys of a map.\<close>

definition groupByScope :: "RevValue list \<Rightarrow> string \<Rightarrow> RevValue list" where
  "groupByScope vs k = filter (\<lambda>v. scopeKey v = k) vs"

definition scope_keys :: "RevValue list \<Rightarrow> string list" where
  "scope_keys vs = remdups (map scopeKey vs)"

definition containsValue :: "RevValue list \<Rightarrow> string \<Rightarrow> bool" where
  "containsValue vs value \<longleftrightarrow> list_ex (\<lambda>v. rv_Value v = value) vs"

definition rev_change :: "RevValue \<Rightarrow> string \<Rightarrow> string \<Rightarrow> string \<Rightarrow> RevChange" where
  "rev_change v kind before after =
     \<lparr>rh_AttributeDefinitionID = rv_AttributeDefinitionID v, rh_InternalName = rv_InternalName v, rh_Locale = rv_Locale v,
      rh_Channel = rv_Channel v, rh_Kind = kind, rh_Before = before, rh_After = after\<rparr>"

definition changes_to :: "RevValue list \<Rightarrow> RevValue list \<Rightarrow> RevChange list" where
  "changes_to fvs tvs = concat (map (\<lambda>tv.
     if containsValue fvs (rv_Value tv) then []
     else if length tvs = 1 \<and> length fvs = 1 then [rev_change tv ''changed'' (rv_Value (hd fvs)) (rv_Value tv)]
     else [rev_change tv ''added'' [] (rv_Value tv)]) tvs)"

definition changes_from :: "RevValue list \<Rightarrow> RevValue list \<Rightarrow> RevChange list" where
  "changes_from fvs tvs = concat (map (\<lambda>fv.
     if containsValue tvs (rv_Value fv) then []
     else if length tvs = 1 \<and> length fvs = 1 then []
     else [rev_change fv ''removed'' (rv_Value fv) []]) fvs)"

definition change_key :: "RevChange \<Rightarrow> string \<times> string \<times> string \<times> string" where
  "change_key c = (rh_InternalName c, rh_Locale c, rh_Channel c, rh_AttributeDefinitionID c)"

definition diff_values :: "(string list \<Rightarrow> string list) \<Rightarrow> RevValue list \<Rightarrow> RevValue list \<Rightarrow> RevChange list" where
  "diff_values order from to =
     sort_key change_key
       (concat (map (\<lambda>k. changes_to (groupByScope from k) (groupByScope to k)) (order (scope_keys to))) @
        concat (map (\<lambda>k. changes_from (groupByScope from k) (groupByScope to k)) (order (scope_keys from))))"

definition RevDiff :: "(string list \<Rightarrow> string list) \<Rightarrow> vctx \<Rightarrow> vrepos \<Rightarrow> rev_store \<Rightarrow> string \<Rightarrow> string \<Rightarrow> DiffOutput result" where
  "RevDiff order cx rp revs rawFrom rawTo =
     rbind (RevGet cx rp revs rawFrom) (\<lambda>from.
     rbind (RevGet cx rp revs rawTo) (\<lambda>to.
       Inr \<lparr>dif_FromSeq = rvn_Seq from, dif_ToSeq = rvn_Seq to, dif_Changes = diff_values order (rvn_Values from) (rvn_Values to)\<rparr>))"

section \<open>Applying a snapshot (value/snapshot.go)\<close>

record SnapshotCell =
  sc_AttributeDefinitionID :: string
  sc_DataType :: string
  sc_Locale :: string
  sc_Channel :: string
  sc_Value :: string
  sc_Typed :: rawmsg

definition ParseBool :: "string \<Rightarrow> bool option" where
  "ParseBool s =
     (if s \<in> set [''1'', ''t'', ''T'', ''true'', ''TRUE'', ''True''] then Some True
      else if s \<in> set [''0'', ''f'', ''F'', ''false'', ''FALSE'', ''False''] then Some False else None)"

definition cellToRaw :: "golib \<Rightarrow> (string \<Rightarrow> json option) \<Rightarrow> DataType \<Rightarrow> string \<Rightarrow> rawmsg result" where
  "cellToRaw lib jt dt cell =
     (case dt of
        DataTypeBool \<Rightarrow> (case ParseBool cell of Some b \<Rightarrow> Inr (Raw (JBool b)) | None \<Rightarrow> Inl (NewValidation ''expected a boolean (true/false)''))
      | DataTypeInteger \<Rightarrow> (case ParseInt cell of Some n \<Rightarrow> Inr (Raw (JNum (itoa n))) | None \<Rightarrow> Inl (NewValidation ''expected an integer''))
      | DataTypeFloat \<Rightarrow> (case float_parse lib cell of Some f \<Rightarrow> map_sum id Raw (marshal_float lib f) | None \<Rightarrow> Inl (NewValidation ''expected a number''))
      | _ \<Rightarrow> if dt \<in> {DataTypeJSON, DataTypeMedia, DataTypeQuantity}
             then (case jt cell of Some j \<Rightarrow> Inr (Raw j) | None \<Rightarrow> Inl (NewValidation ''expected a JSON document''))
             else Inr (Raw (JStr cell)))"

definition cellValue :: "golib \<Rightarrow> (string \<Rightarrow> json option) \<Rightarrow> SnapshotCell \<Rightarrow> gvalue result" where
  "cellValue lib jt c =
     (if sc_Typed c \<noteq> RawNil then UnmarshalTypedValue lib (sc_Typed c)
      else rbind (cellToRaw lib jt (to_DataType (sc_DataType c)) (sc_Value c)) (ParseValue lib (to_DataType (sc_DataType c))))"

definition cellRaw :: "golib \<Rightarrow> (string \<Rightarrow> json option) \<Rightarrow> SnapshotCell \<Rightarrow> rawmsg result" where
  "cellRaw lib jt c =
     (if sc_Typed c = RawNil then cellToRaw lib jt (to_DataType (sc_DataType c)) (sc_Value c)
      else rbind (UnmarshalTypedValue lib (sc_Typed c)) (MarshalJSON lib))"

text \<open>\<^verbatim>\<open>valueKey\<close>: attribute, locale, channel and the equality key of the value.\<close>

type_synonym value_key = "AttributeDefinitionID \<times> string \<times> string \<times> string"

definition cell_key :: "vctx \<Rightarrow> (string \<Rightarrow> json option) \<Rightarrow> SnapshotCell \<Rightarrow> value_key result" where
  "cell_key cx jt c =
     rbind (as_validation (cx_parseID cx (sc_AttributeDefinitionID c))) (\<lambda>i.
     rbind (as_validation (cellValue (cx_lib cx) jt c)) (\<lambda>v. Inr (i, sc_Locale c, sc_Channel c, EqualityKey (cx_lib cx) v)))"

definition av_key :: "golib \<Rightarrow> AttributeValue \<Rightarrow> value_key" where
  "av_key lib av = (av_attributeDefID av, Locale (av_scope av), Channel (av_scope av), EqualityKey lib (av_value av))"

definition cell_input :: "string \<Rightarrow> string \<Rightarrow> SnapshotCell \<Rightarrow> rawmsg \<Rightarrow> SetInput" where
  "cell_input rawTypeDefID rawEntityID c raw =
     \<lparr>si_AttributeDefinitionID = sc_AttributeDefinitionID c, si_EntityID = rawEntityID, si_TypeDefinitionID = rawTypeDefID,
      si_Locale = sc_Locale c, si_Channel = sc_Channel c, si_Value = raw, si_Internal = False, si_fromUpload = False\<rparr>"

fun apply_cells :: "vctx \<Rightarrow> (string \<Rightarrow> json option) \<Rightarrow> vrepos \<Rightarrow> string \<Rightarrow> string \<Rightarrow> SnapshotCell list \<Rightarrow> vtx \<Rightarrow> vtx result" where
  "apply_cells cx jt rp rawT rawE [] t = Inr t"
| "apply_cells cx jt rp rawT rawE (c # cs) t =
     rbind (as_validation (cellRaw (cx_lib cx) jt c)) (\<lambda>raw.
     rbind (setWithin cx rp t (cell_input rawT rawE c raw)) (\<lambda>(t', _). apply_cells cx jt rp rawT rawE cs t'))"

definition ApplySnapshot :: "vctx \<Rightarrow> (string \<Rightarrow> json option) \<Rightarrow> vrepos \<Rightarrow> value_store \<Rightarrow> string \<Rightarrow> string \<Rightarrow> SnapshotCell list \<Rightarrow> vtx result" where
  "ApplySnapshot cx jt rp s rawTypeDefID rawEntityID cells =
     rbind (as_validation (cx_parseID cx rawTypeDefID)) (\<lambda>_.
     rbind (as_validation (ParseEntityID rawEntityID)) (\<lambda>entityID.
     rbind (map_result (cell_key cx jt) cells) (\<lambda>target.
     rbind (apply_cells cx jt rp rawTypeDefID rawEntityID cells (begin_vtx s)) (\<lambda>t.
     rbind (remove_all cx (filter (\<lambda>av. av_key (cx_lib cx) av \<notin> set target)
              (ListByEntities (cx_idString cx) (vt_values t) (cx_tenant cx) [entityID])) t) (\<lambda>t.
       map_sum id fst (finish_vtx cx rp (t, ())))))))"

section \<open>Restore (revision.go)\<close>

definition cell_of :: "RevValue \<Rightarrow> SnapshotCell" where
  "cell_of v = \<lparr>sc_AttributeDefinitionID = rv_AttributeDefinitionID v, sc_DataType = rv_DataType v, sc_Locale = rv_Locale v,
     sc_Channel = rv_Channel v, sc_Value = rv_Value v, sc_Typed = rv_Typed v\<rparr>"

definition currentAnchor :: "vctx \<Rightarrow> value_store \<Rightarrow> Revision \<Rightarrow> string result" where
  "currentAnchor cx s r =
     rbind (as_validation (ParseEntityID (rvn_EntityID r))) (\<lambda>entityID.
       (case ListByEntities (cx_idString cx) s (rvn_TenantID r) [entityID] of [] \<Rightarrow> Inr (rvn_TypeDefinitionID r)
        | av # _ \<Rightarrow> Inr (cx_idString cx (av_typeDefinitionID av))))"

text \<open>The values are committed before the follow-up revision is created: when that fails, the restored values stay.\<close>

definition RevRestore :: "vctx \<Rightarrow> (string \<Rightarrow> json option) \<Rightarrow> vrepos \<Rightarrow> value_store \<Rightarrow> rev_store \<Rightarrow> string \<Rightarrow> ulid \<Rightarrow> int \<Rightarrow>
    value_store \<times> rev_store \<times> Revision result" where
  "RevRestore cx jt rp s revs rawRevisionID newid now =
     (case rev_get cx revs rawRevisionID of Inl e \<Rightarrow> (s, revs, Inl e)
      | Inr r \<Rightarrow>
          (case ApplySnapshot cx jt rp s (rvn_TypeDefinitionID r) (rvn_EntityID r) (map cell_of (rvn_Values r)) of
             Inl e \<Rightarrow> (s, revs, Inl e)
           | Inr t \<Rightarrow>
               (case rbind (currentAnchor cx (vt_values t) r) (\<lambda>captureType.
                       RevCreate cx rp (vt_values t) revs captureType (rvn_EntityID r) (''restored from revision '' @ itoa (rvn_Seq r)) newid now) of
                  Inl e \<Rightarrow> (vt_values t, revs, Inl e)
                | Inr (revs', r') \<Rightarrow> (vt_values t, revs', Inr r'))))"

end
