(* ===== verification/Revision_Laws.thy ===== *)
theory Revision_Laws
  imports Revisions Dep_Laws "HOL-Library.Multiset"
begin

text \<open>
  What revisions promise. A restore brings back exactly the captured values: whatever happened to the entity since the capture, the live values after
  an accepted restore have the attributes, scopes and equality keys of the captured ones. A history numbers its revisions without gaps or
  repetition and answers point-in-time reads with the latest one, as long as captures do not interleave. Differences do not depend on the order
  in which maps are iterated. Reads show the readable values only.
\<close>

section \<open>Rows through one write\<close>

definition same_row :: "ValueSnapshot \<Rightarrow> ValueSnapshot \<Rightarrow> bool" where
  "same_row x y \<longleftrightarrow> vs_TenantID y = vs_TenantID x \<and> vs_AttributeDefinitionID y = vs_AttributeDefinitionID x \<and>
     vs_EntityID y = vs_EntityID x \<and> vs_Locale y = vs_Locale x \<and> vs_Channel y = vs_Channel x \<and> vs_Value y = vs_Value x \<and>
     vs_ArchivedAt y = vs_ArchivedAt x"

lemma same_row_refl [simp]: "same_row x x"
  by (simp add: same_row_def)

lemma same_row_ex: "x \<in> A \<Longrightarrow> \<exists>y\<in>A. same_row x y"
  using same_row_refl by blast

lemma same_row_trans: "same_row x y \<Longrightarrow> same_row y z \<Longrightarrow> same_row x z"
  by (simp add: same_row_def)

lemma resolve_rows:
  assumes "resolveEntityType cx rp s def e raw = Inr (s', ty)"
  shows "x \<in> set s \<Longrightarrow> \<exists>y\<in>set s'. same_row x y" "y \<in> set s' \<Longrightarrow> \<exists>x\<in>set s. same_row x y"
proof -
  have c: "s' = s \<or> s' = fst (ReanchorEntity s (cx_tenant cx) e ty)"
    using assms by (auto simp: resolveEntityType_def Let_def rbind_Inr split: if_splits option.splits)
  have m: "same_row x (moved (cx_tenant cx) e ty x)" for x by (simp add: same_row_def moved_def)
  show "\<exists>y\<in>set s'. same_row x y" if "x \<in> set s"
    using c that m [of x] same_row_refl [of x] unfolding set_reanchor by (elim disjE) (simp_all only: set_reanchor, blast+)
  show "\<exists>x\<in>set s. same_row x y" if "y \<in> set s'"
    using c that m same_row_refl [of y] by (elim disjE) (simp_all only: set_reanchor, blast+)
qed

text \<open>A write keeps every live row but the one of a single-valued attribute in its slot, and adds at most the row it reports.\<close>

lemma setWithin_rows:
  assumes ok: "tx_ok cx (rp_attrs rp) t" and run: "setWithin cx rp t inp = Inr (t', snap)"
  shows "x \<in> set (vt_values t) \<Longrightarrow> (\<exists>y\<in>set (vt_values t'). same_row x y) \<or>
      (\<exists>def e. attrRepo_Get (rp_attrs rp) (vs_AttributeDefinitionID x) = Inr def \<and> \<not> ad_multiValued def \<and> in_slot def e (write_scope inp) x \<and>
         cx_parseID cx (si_AttributeDefinitionID inp) = Inr (vs_AttributeDefinitionID x))"
    and "y \<in> set (vt_values t') \<Longrightarrow> y = snap \<or> (\<exists>x\<in>set (vt_values t). same_row x y)"
proof -
  from run obtain defID e def s ty v where w: "cx_parseID cx (si_AttributeDefinitionID inp) = Inr defID" "attrRepo_Get (rp_attrs rp) defID = Inr def"
    "resolveEntityType cx rp (vt_values t) def e (si_TypeDefinitionID inp) = Inr (s, ty)"
    "upsert cx def ty e (write_scope inp) v (noteWrite \<lparr>er_tenant = ad_tenantID def, er_typeID = ty, er_entity = e, er_fullView = False\<rparr>
       (si_Internal inp \<and> IsComputed def) (t\<lparr>vt_values := s\<rparr>)) = Inr (t', snap)" (is "upsert _ _ _ _ _ _ ?t = _")
    by (rule setWithin_run)
  have def: "attrRepo_Get (rp_attrs rp) (ad_id def) = Inr def" "ad_id def = defID" using w(2) mem_attrs.get_id [OF w(2)] by simp_all
  have ok1: "tx_ok cx (rp_attrs rp) ?t" using resolve_keeps(1) [OF w(3), of "rp_attrs rp"] ok by (simp add: tx_keeps_def tx_ok_def)
  then have s: "values_ok (cx_lib cx) (rp_attrs rp) s" by (simp add: tx_ok_def)
  have put: "set (vt_values t') = insert snap {z \<in> set s. vs_ID z \<noteq> vs_ID snap} \<or> set (vt_values t') = set s"
    using upsert_cases [OF w(4)] set_put_value_eq [OF values_okD(1) [OF s]] by (auto simp: row_kept_def put_row_def)
  { fix x assume "x \<in> set (vt_values t)"
    with resolve_rows(1) [OF w(3)] obtain z where z: "z \<in> set s" "same_row x z" by blast
    have "z \<in> set (vt_values t') \<or> \<not> ad_multiValued def \<and> in_slot def e (write_scope inp) z"
      using upsert_cases [OF w(4)]
    proof (elim disjE conjE bexE)
      assume "row_kept cx def e (write_scope inp) v ?t t' snap"
      then show ?thesis using z(1) by (simp add: row_kept_def)
    next
      fix old assume p: "put_row cx def e (write_scope inp) v ?t t' snap" "old \<in> set (vt_values ?t)" "replaces def e (write_scope inp) old snap"
      show ?thesis
      proof (cases "vs_ID z = vs_ID snap")
        case True
        then have "z = old" using values_okD(4) [OF s z(1), of old] p by (simp add: replaces_def)
        then show ?thesis using p(3) by (simp add: replaces_def)
      qed (use p(1) z(1) set_put_value_eq [OF values_okD(1) [OF s]] in \<open>simp add: put_row_def\<close>)
    next
      assume p: "put_row cx def e (write_scope inp) v ?t t' snap" "adds cx def ty e (write_scope inp) ?t snap"
      have "cx_newID cx (vt_tick t) \<notin> vs_ID ` set s" using ok1 by (simp add: tx_ok_def)
      then have "vs_ID z \<noteq> vs_ID snap" using p(2) imageI [OF z(1), of vs_ID] by (auto simp: adds_def)
      then show ?thesis using p(1) z(1) set_put_value_eq [OF values_okD(1) [OF s]] by (simp add: put_row_def)
    qed
    then show "(\<exists>y\<in>set (vt_values t'). same_row x y) \<or>
      (\<exists>def e. attrRepo_Get (rp_attrs rp) (vs_AttributeDefinitionID x) = Inr def \<and> \<not> ad_multiValued def \<and> in_slot def e (write_scope inp) x \<and>
         cx_parseID cx (si_AttributeDefinitionID inp) = Inr (vs_AttributeDefinitionID x))"
      using z(2) def w(1) by (fastforce simp: same_row_def in_slot_def) }
  show "y = snap \<or> (\<exists>x\<in>set (vt_values t). same_row x y)" if "y \<in> set (vt_values t')"
    using put that resolve_rows(2) [OF w(3), of y] by blast
qed

lemma setWithin_value:
  assumes "setWithin cx rp t inp = Inr (t', snap)"
  obtains defID def v u where "cx_parseID cx (si_AttributeDefinitionID inp) = Inr defID" "attrRepo_Get (rp_attrs rp) defID = Inr def"
    "decodeValue cx rp u def inp = Inr v"
    "vs_Value snap = v \<or> Equal (cx_lib cx) (vs_Value snap) v \<and> (\<exists>x\<in>set (vt_values t). same_row x snap)"
proof -
  from assms obtain defID e def s ty v where w: "cx_parseID cx (si_AttributeDefinitionID inp) = Inr defID" "attrRepo_Get (rp_attrs rp) defID = Inr def"
    "decodeValue cx rp s def inp = Inr v" "resolveEntityType cx rp (vt_values t) def e (si_TypeDefinitionID inp) = Inr (s, ty)"
    "upsert cx def ty e (write_scope inp) v (noteWrite \<lparr>er_tenant = ad_tenantID def, er_typeID = ty, er_entity = e, er_fullView = False\<rparr>
       (si_Internal inp \<and> IsComputed def) (t\<lparr>vt_values := s\<rparr>)) = Inr (t', snap)"
    by (rule setWithin_run)
  from upsert_cases [OF w(5)] resolve_rows(2) [OF w(4), of snap] show thesis
    by (intro that [OF w(1-3)]) (auto simp: row_kept_def put_row_def)
qed

section \<open>Applying captured cells\<close>

text \<open>A row whose value is a well-formed value of the attribute's type. Media and quantities are adopted and converted again when they are
  written, so they are left out.\<close>

definition row_fits :: "golib \<Rightarrow> attr_store \<Rightarrow> ValueSnapshot \<Rightarrow> bool" where
  "row_fits lib attrs x \<longleftrightarrow> wf_value lib (vs_Value x) \<and>
     (\<exists>def. attrRepo_Get attrs (vs_AttributeDefinitionID x) = Inr def \<and> dataType (vs_Value x) = ad_dataType def)"

definition plain :: "gvalue \<Rightarrow> bool" where
  "plain v \<longleftrightarrow> dataType v \<noteq> DataTypeMedia \<and> dataType v \<noteq> DataTypeQuantity \<and> in_years v"

lemma same_row_fits: "same_row x y \<Longrightarrow> row_fits lib attrs x \<Longrightarrow> row_fits lib attrs y"
  by (simp add: same_row_def row_fits_def)

text \<open>The cell of a row.\<close>

definition cell_for :: "vctx \<Rightarrow> ValueSnapshot \<Rightarrow> SnapshotCell \<Rightarrow> bool" where
  "cell_for cx x c \<longleftrightarrow> cx_parseID cx (sc_AttributeDefinitionID c) = Inr (vs_AttributeDefinitionID x) \<and>
     sc_Locale c = vs_Locale x \<and> sc_Channel c = vs_Channel x \<and> sc_Typed c \<noteq> RawNil \<and>
     UnmarshalTypedValue (cx_lib cx) (sc_Typed c) = Inr (vs_Value x)"

definition row_value_key :: "golib \<Rightarrow> ValueSnapshot \<Rightarrow> value_key" where
  "row_value_key lib x = (vs_AttributeDefinitionID x, vs_Locale x, vs_Channel x, EqualityKey lib (vs_Value x))"

lemma cell_key_for: "cell_for cx x c \<Longrightarrow> cell_key cx jt c = Inr (row_value_key (cx_lib cx) x)"
  by (simp add: cell_for_def cell_key_def cellValue_def row_value_key_def)

text \<open>Live rows of one entity.\<close>

definition entity_row :: "TenantID \<Rightarrow> EntityID \<Rightarrow> ValueSnapshot \<Rightarrow> bool" where
  "entity_row ten e x \<longleftrightarrow> vs_TenantID x = ten \<and> vs_EntityID x = e \<and> vs_ArchivedAt x = None"

definition live_keys :: "golib \<Rightarrow> TenantID \<Rightarrow> EntityID \<Rightarrow> value_store \<Rightarrow> value_key set" where
  "live_keys lib ten e s = row_value_key lib ` {x \<in> set s. entity_row ten e x}"

text \<open>What the codecs of values rely on.\<close>

definition codec_laws :: "golib \<Rightarrow> bool" where
  "codec_laws lib \<longleftrightarrow> json_bytes_exact lib \<and> float_parse_total lib \<and> float_x_exact lib \<and> rfc3339_exact lib \<and> float_json_round lib \<and> time_round lib"

lemma cell_raw:
  assumes "codec_laws lib" "cx_lib cx = lib" "cell_for cx x c" "wf_value lib (vs_Value x)" "in_years (vs_Value x)"
  shows "\<exists>j. cellRaw lib jt c = Inr (Raw j) \<and> ParseValue lib (dataType (vs_Value x)) (Raw j) = Inr (vs_Value x)"
  using marshal_parse [OF _ _ assms(4,5)] assms(1-3) by (auto simp: cellRaw_def cell_for_def codec_laws_def)

lemma key_of_equal:
  "codec_laws lib \<Longrightarrow> wf_value lib v \<Longrightarrow> wf_value lib w \<Longrightarrow> dataType v = dataType w \<Longrightarrow> Equal lib v w \<Longrightarrow>
    EqualityKey lib v = EqualityKey lib w"
  using EqualityKey_iff [of lib v w] by (simp add: codec_laws_def)

text \<open>Writing the cell of a captured row leaves a live row with its key.\<close>

lemma cell_written:
  assumes laws: "codec_laws lib" and cx: "cx_lib cx = lib" and ok: "tx_ok cx (rp_attrs rp) t" and fits: "\<forall>y\<in>set (vt_values t). row_fits lib (rp_attrs rp) y"
    and x: "cell_for cx x c" "row_fits lib (rp_attrs rp) x" "plain (vs_Value x)" and e: "ParseEntityID rawE = Inr e"
    and run: "cellRaw lib jt c = Inr raw" "setWithin cx rp t (cell_input rawT rawE c raw) = Inr (t', snap)"
  shows "entity_row (cx_tenant cx) e snap" "row_value_key lib snap = row_value_key lib x" "snap \<in> set (vt_values t')"
    "\<forall>y\<in>set (vt_values t'). row_fits lib (rp_attrs rp) y"
proof -
  let ?inp = "cell_input rawT rawE c raw"
  have wf: "wf_value lib (vs_Value x)" "in_years (vs_Value x)" using x(2,3) by (auto simp: row_fits_def plain_def)
  obtain j where j: "raw = Raw j" "ParseValue lib (dataType (vs_Value x)) (Raw j) = Inr (vs_Value x)"
    using cell_raw [OF laws cx x(1) wf, of jt] run(1) by auto
  from setWithin_effect [OF ok run(2)] obtain defID e' def where
    w: "cx_parseID cx (si_AttributeDefinitionID ?inp) = Inr defID" "ParseEntityID (si_EntityID ?inp) = Inr e'" "attrRepo_Get (rp_attrs rp) defID = Inr def"
      "snap \<in> set (vt_values t')" "in_slot def e' (write_scope ?inp) snap" "vs_TenantID snap = cx_tenant cx" by metis
  have id: "defID = vs_AttributeDefinitionID x" "e' = e" using w(1,2) x(1) e by (auto simp: cell_for_def cell_input_def)
  have adef: "ad_id def = vs_AttributeDefinitionID x" using mem_attrs.get_id [OF w(3)] id by simp
  have dt: "dataType (vs_Value x) = ad_dataType def" using x(2) w(3) id by (auto simp: row_fits_def)
  from setWithin_value [OF run(2)] obtain v u where v: "decodeValue cx rp u def ?inp = Inr v"
      "vs_Value snap = v \<or> Equal lib (vs_Value snap) v \<and> (\<exists>y\<in>set (vt_values t). same_row y snap)"
    using w(1,3) cx by (metis Inr_inject)
  have vx: "v = vs_Value x" using v(1) x(3) j cx dt by (auto simp: decodeValue_def plain_def cell_input_def as_validation_Inr)
  have slot: "vs_AttributeDefinitionID snap = vs_AttributeDefinitionID x" "vs_Locale snap = vs_Locale x" "vs_Channel snap = vs_Channel x"
    using w(5) adef x(1) by (auto simp: in_slot_def write_scope_def cell_input_def cell_for_def)
  have fit: "row_fits lib (rp_attrs rp) snap \<and> EqualityKey lib (vs_Value snap) = EqualityKey lib (vs_Value x)"
  proof (cases "vs_Value snap = v")
    case True
    then show ?thesis using x(2) slot(1) vx by (simp add: row_fits_def)
  next
    case False
    with v(2) fits same_row_fits have r: "row_fits lib (rp_attrs rp) snap" "Equal lib (vs_Value snap) (vs_Value x)" unfolding vx by blast+
    from r(1) slot(1) w(3) id dt have "wf_value lib (vs_Value snap)" "dataType (vs_Value snap) = dataType (vs_Value x)" by (auto simp: row_fits_def)
    with key_of_equal [OF laws _ wf(1) _ r(2)] r(1) show ?thesis by blast
  qed
  show "entity_row (cx_tenant cx) e snap" using w(5,6) id by (simp add: entity_row_def in_slot_def)
  show "snap \<in> set (vt_values t')" by (rule w(4))
  show "row_value_key lib snap = row_value_key lib x" using slot fit by (simp add: row_value_key_def)
  show "\<forall>y\<in>set (vt_values t'). row_fits lib (rp_attrs rp) y"
    using setWithin_rows(2) [OF ok run(2)] fit fits same_row_fits by blast
qed

text \<open>Rows through a whole snapshot: a live row stays unless a cell of a single-valued attribute has its slot.\<close>

definition single_slot :: "attr_store \<Rightarrow> ValueSnapshot \<Rightarrow> ValueSnapshot \<Rightarrow> bool" where
  "single_slot attrs x y \<longleftrightarrow> same_slot x y \<and> (\<exists>def. attrRepo_Get attrs (vs_AttributeDefinitionID x) = Inr def \<and> \<not> ad_multiValued def)"

lemma apply_cells_keeps:
  "apply_cells cx jt rp rawT rawE cs t = Inr t' \<Longrightarrow> rp_attrs rp = attrs \<Longrightarrow> tx_keeps cx attrs t t'"
  by (induction cs arbitrary: t) (auto simp: rbind_Inr dest!: setWithin_keeps intro: tx_keeps_trans)

lemma apply_cells_rows:
  assumes "list_all2 (cell_for cx) xs cs" "apply_cells cx jt rp rawT rawE cs t = Inr t'" "tx_ok cx (rp_attrs rp) t"
    "y \<in> set (vt_values t)" "\<forall>x\<in>set xs. \<not> single_slot (rp_attrs rp) x y"
  shows "\<exists>z\<in>set (vt_values t'). same_row y z"
  using assms
proof (induction xs cs arbitrary: t y rule: list_all2_induct)
  case (Cons x xs c cs)
  then obtain raw u snap where r: "setWithin cx rp t (cell_input rawT rawE c raw) = Inr (u, snap)" "apply_cells cx jt rp rawT rawE cs u = Inr t'"
    by (auto simp: rbind_Inr)
  have ok: "tx_ok cx (rp_attrs rp) u" using setWithin_keeps [OF r(1) refl] Cons.prems(2) by (simp add: tx_keeps_def)
  from setWithin_rows(1) [OF Cons.prems(2) r(1) Cons.prems(3)] Cons.prems(4) Cons.hyps(1) obtain z where z: "z \<in> set (vt_values u)" "same_row y z"
    by (auto simp: single_slot_def same_slot_def in_slot_def write_scope_def cell_input_def cell_for_def)
  have "\<forall>x\<in>set xs. \<not> single_slot (rp_attrs rp) x z" using Cons.prems(4) z(2) by (simp add: single_slot_def same_slot_def same_row_def)
  from Cons.IH [OF r(2) ok z(1) this] z(2) same_row_trans show ?case by blast
qed (auto intro: same_row_ex)

lemma apply_cells_all:
  assumes "codec_laws lib" "cx_lib cx = lib" "ParseEntityID rawE = Inr e"
    and "list_all2 (cell_for cx) xs cs" "apply_cells cx jt rp rawT rawE cs t = Inr t'" "tx_ok cx (rp_attrs rp) t"
    and "\<forall>y\<in>set (vt_values t). row_fits lib (rp_attrs rp) y" "\<forall>x\<in>set xs. row_fits lib (rp_attrs rp) x \<and> plain (vs_Value x)"
    and "sorted_wrt (\<lambda>x y. \<not> single_slot (rp_attrs rp) y x) xs"
  shows "\<forall>x\<in>set xs. \<exists>z\<in>set (vt_values t'). entity_row (cx_tenant cx) e z \<and> row_value_key lib z = row_value_key lib x"
  using assms(4-)
proof (induction xs cs arbitrary: t rule: list_all2_induct)
  case (Cons x xs c cs)
  then obtain raw u snap where r: "cellRaw lib jt c = Inr raw" "setWithin cx rp t (cell_input rawT rawE c raw) = Inr (u, snap)"
      "apply_cells cx jt rp rawT rawE cs u = Inr t'"
    using assms(2) by (auto simp: rbind_Inr as_validation_Inr)
  note w = cell_written [OF assms(1,2) Cons.prems(2,3) Cons.hyps(1) _ _ assms(3) r(1,2)]
  have snap: "entity_row (cx_tenant cx) e snap" "row_value_key lib snap = row_value_key lib x" "snap \<in> set (vt_values u)"
    and fits: "\<forall>y\<in>set (vt_values u). row_fits lib (rp_attrs rp) y"
    using w Cons.prems(4) by auto
  have ok: "tx_ok cx (rp_attrs rp) u" using setWithin_keeps [OF r(2) refl] Cons.prems(2) by (simp add: tx_keeps_def)
  have "\<forall>y\<in>set xs. \<not> single_slot (rp_attrs rp) y snap"
    using Cons.prems(5) snap(2) by (auto simp: single_slot_def same_slot_def row_value_key_def)
  from apply_cells_rows [OF Cons.hyps(2) r(3) ok snap(3) this] obtain z where "z \<in> set (vt_values t')" "same_row snap z" by blast
  then have "entity_row (cx_tenant cx) e z \<and> row_value_key lib z = row_value_key lib x"
    using snap(1,2) by (simp add: entity_row_def row_value_key_def same_row_def)
  with \<open>z \<in> set (vt_values t')\<close> Cons.IH [OF r(3) ok fits] Cons.prems(4,5) show ?case by auto
qed simp

section \<open>The archive pass\<close>

lemma remove_all_live:
  assumes "remove_all cx vals t = Inr t'" "removable cx vals t" "tx_ok cx attrs t"
  shows "{x \<in> set (vt_values t'). vs_ArchivedAt x = None} =
    {x \<in> set (vt_values t). vs_ArchivedAt x = None \<and> vs_ID x \<notin> av_id ` set vals}"
  using assms
proof (induction vals arbitrary: t)
  case (Cons av vals)
  then obtain u snap where u: "remove_value cx av t = Inr (u, snap)" "remove_all cx vals u = Inr t'" by (auto simp: rbind_Inr)
  have d: "distinct (map vs_ID (vt_values t))" using Cons.prems(3) by (simp add: tx_ok_def values_ok_def)
  from remove_value_keeps [OF u(1), of attrs] Cons.prems(2) have k: "tx_keeps cx attrs t u" "vt_values u = put_value snap (vt_values t)"
      "vs_ID snap = av_id av" "vs_ArchivedAt snap \<noteq> None" by (auto simp: removable_def)
  have set: "set (vt_values u) = insert snap {x \<in> set (vt_values t). vs_ID x \<noteq> av_id av}" using set_put_value_eq [OF d] k(2,3) by simp
  have "av_id av' \<noteq> av_id av" if "av' \<in> set vals" for av'
    using Cons.prems(2) imageI [OF that, of av_id] by (auto simp: removable_def)
  then have "removable cx vals u" using Cons.prems(2) set by (auto simp: removable_def)
  moreover have "tx_ok cx attrs u" using k(1) Cons.prems(3) by (simp add: tx_keeps_def)
  ultimately show ?case using Cons.IH [OF u(2)] set k(4) by auto
qed simp

lemma rehydrated [simp]: "av_key lib (av_Rehydrate x) = row_value_key lib x" "av_id (av_Rehydrate x) = vs_ID x"
  by (simp_all add: row_value_key_def av_key_def av_Rehydrate_def)

lemma dropped_ids:
  "av_id ` set (filter (\<lambda>av. av_key lib av \<notin> K) (ListByEntities idString s ten [e])) =
     vs_ID ` {x \<in> set s. entity_row ten e x \<and> row_value_key lib x \<notin> K}"
proof -
  have "set (filter (\<lambda>av. av_key lib av \<notin> K) (ListByEntities idString s ten [e])) = av_Rehydrate ` {x \<in> set s. entity_row ten e x \<and> row_value_key lib x \<notin> K}"
    by (auto simp: ListByEntities_def set_values_where entity_row_def)
  then show ?thesis by (simp add: image_image)
qed

lemma ApplySnapshot_run:
  assumes "ApplySnapshot cx jt rp s rawT rawE cells = Inr t" "ParseEntityID rawE = Inr e"
  obtains target u where "map_result (cell_key cx jt) cells = Inr target"
    "apply_cells cx jt rp rawT rawE cells (begin_vtx s) = Inr u"
    "remove_all cx (filter (\<lambda>av. av_key (cx_lib cx) av \<notin> set target) (ListByEntities (cx_idString cx) (vt_values u) (cx_tenant cx) [e])) u = Inr t"
  using assms that by (auto simp: ApplySnapshot_def rbind_Inr as_validation_Inr map_sum_Inr finish_Inr)

text \<open>Whatever a snapshot holds: after it is applied, the entity has the live rows of the write pass whose keys are in the snapshot, and no others.\<close>

lemma ApplySnapshot_live:
  assumes run: "ApplySnapshot cx jt rp s rawT rawE cells = Inr t" and e: "ParseEntityID rawE = Inr e"
    and ok: "values_ok (cx_lib cx) (rp_attrs rp) s" "ids_fresh cx s"
  obtains target u where "map_result (cell_key cx jt) cells = Inr target" "apply_cells cx jt rp rawT rawE cells (begin_vtx s) = Inr u"
    "tx_ok cx (rp_attrs rp) t" "others (cx_tenant cx) (vt_values t) = others (cx_tenant cx) s"
    "{x \<in> set (vt_values t). entity_row (cx_tenant cx) e x} =
       {x \<in> set (vt_values u). entity_row (cx_tenant cx) e x \<and> row_value_key (cx_lib cx) x \<in> set target}"
proof -
  from run e obtain target u where r: "map_result (cell_key cx jt) cells = Inr target"
    "apply_cells cx jt rp rawT rawE cells (begin_vtx s) = Inr u"
    "remove_all cx (filter (\<lambda>av. av_key (cx_lib cx) av \<notin> set target) (ListByEntities (cx_idString cx) (vt_values u) (cx_tenant cx) [e])) u = Inr t"
    (is "remove_all cx ?vals u = _") by (rule ApplySnapshot_run)
  have k: "tx_ok cx (rp_attrs rp) u" "others (cx_tenant cx) (vt_values u) = others (cx_tenant cx) s"
    using apply_cells_keeps [OF r(2) refl] begin_ok [OF ok] by (simp_all add: tx_keeps_def)
  have rem: "removable cx ?vals u"
    unfolding ListByEntities_def by (rule removable_filter, rule query_removable [OF k(1)]) simp
  have kt: "tx_ok cx (rp_attrs rp) t" "others (cx_tenant cx) (vt_values t) = others (cx_tenant cx) (vt_values u)"
    using remove_all_keeps [OF r(3) rem] k(1) by (simp_all add: tx_keeps_def)
  have d: "x = y" if "x \<in> set (vt_values u)" "y \<in> set (vt_values u)" "vs_ID x = vs_ID y" for x y
    using values_okD(4) that k(1) by (auto simp: tx_ok_def)
  have ids: "vs_ID x \<in> av_id ` set ?vals \<longleftrightarrow> row_value_key (cx_lib cx) x \<notin> set target"
    if "x \<in> set (vt_values u)" "entity_row (cx_tenant cx) e x" for x
  proof -
    have "vs_ID x \<in> av_id ` set ?vals \<longleftrightarrow> (\<exists>y\<in>set (vt_values u). entity_row (cx_tenant cx) e y \<and> vs_ID y = vs_ID x \<and> row_value_key (cx_lib cx) y \<notin> set target)"
      unfolding dropped_ids image_iff mem_Collect_eq by (simp only: Bex_def mem_Collect_eq conj_assoc eq_commute [of "vs_ID x"]) blast
    then show ?thesis using d that by blast
  qed
  have live: "{x \<in> set (vt_values t). vs_ArchivedAt x = None} = {x \<in> set (vt_values u). vs_ArchivedAt x = None \<and> vs_ID x \<notin> av_id ` set ?vals}"
    by (rule remove_all_live [OF r(3) rem k(1)])
  have "{x \<in> set (vt_values t). entity_row (cx_tenant cx) e x} = {x \<in> {x \<in> set (vt_values t). vs_ArchivedAt x = None}. entity_row (cx_tenant cx) e x}"
    by (auto simp: entity_row_def)
  also have "\<dots> = {x \<in> set (vt_values u). entity_row (cx_tenant cx) e x \<and> row_value_key (cx_lib cx) x \<in> set target}"
    unfolding live using ids by (auto simp: entity_row_def)
  finally show thesis using that r(1,2) kt k(2) by simp
qed

section \<open>A captured entity comes back\<close>

lemma capture_cell:
  assumes "codec_laws lib" "cx_lib cx = lib" "\<And>i. cx_parseID cx (cx_idString cx i) = Inr i"
    "capture_one cx rp av = Inr v" "wf_value lib (av_value av)" "in_years (av_value av)"
  shows "cell_for cx (av_Snapshot av) (cell_of v)"
proof -
  from assms(4) obtain raw where r: "MarshalTyped lib (av_value av) = Inr raw"
    and v: "rv_AttributeDefinitionID v = cx_idString cx (av_attributeDefID av)" "rv_Locale v = Locale (av_scope av)"
      "rv_Channel v = Channel (av_scope av)" "rv_Typed v = raw"
    using assms(2) by (auto simp: capture_one_def rbind_Inr)
  have "UnmarshalTypedValue lib raw = Inr (av_value av)"
    using typed_round [OF _ _ assms(5,6)] assms(1) r by (auto simp: codec_laws_def)
  moreover have "raw \<noteq> RawNil" using r wf_not_zero [OF assms(5)] by (auto simp: MarshalTyped_def map_sum_Inr)
  ultimately show ?thesis using assms(2,3) by (simp add: cell_for_def cell_of_def v av_Snapshot_def)
qed

lemma sorted_wrt_distinct:
  "distinct xs \<Longrightarrow> (\<And>x y. x \<in> set xs \<Longrightarrow> y \<in> set xs \<Longrightarrow> x \<noteq> y \<Longrightarrow> P x y) \<Longrightarrow> sorted_wrt P xs"
  by (induction xs) auto

lemma capture_cells:
  assumes laws: "codec_laws lib" "cx_lib cx = lib" "\<And>i. cx_parseID cx (cx_idString cx i) = Inr i"
    and cap: "snapshotValues cx rp s ten rawE = Inr vals" "ParseEntityID rawE = Inr e"
    and ok: "distinct (map vs_ID s)" "\<forall>x\<in>set s. entity_row ten e x \<longrightarrow> wf_value lib (vs_Value x) \<and> in_years (vs_Value x)"
  obtains xs where "list_all2 (cell_for cx) xs (map cell_of vals)" "set xs = {x \<in> set s. entity_row ten e x}" "distinct xs"
proof -
  let ?L = "ListByEntities (cx_idString cx) s ten [e]"
  from cap obtain out where out: "map_result (capture_one cx rp) ?L = Inr out" "vals = sort_key (\<lambda>v. (rv_InternalName v, rv_Locale v, rv_Channel v)) out"
    by (auto simp: snapshotValues_def rbind_Inr)
  have set: "set ?L = av_Rehydrate ` {x \<in> set s. entity_row ten e x}" by (auto simp: ListByEntities_def set_values_where entity_row_def)
  then have wf: "wf_value lib (av_value av) \<and> in_years (av_value av)" if "av \<in> set ?L" for av
    using ok(2) that by (auto simp: av_Rehydrate_def)
  have rows: "set (map av_Snapshot ?L) = {x \<in> set s. entity_row ten e x}" by (simp add: set image_image av_snapshot_round)
  have "distinct (map av_id (map av_Rehydrate (filter P s)))" for P using ok(1) by (simp add: comp_def distinct_map_filter)
  then have "distinct (map av_id ?L)" unfolding ListByEntities_def values_where_def sortByID_def distinct_map_sort .
  moreover have "map vs_ID (map av_Snapshot ?L) = map av_id ?L" by simp
  ultimately have d: "distinct (map av_Snapshot ?L)" by (metis distinct_map)
  have "list_all2 (\<lambda>v x. cell_for cx x (cell_of v)) out (map av_Snapshot ?L)"
    using out(1)[unfolded map_result_Inr] wf capture_cell [OF laws]
    by (auto simp: list_all2_conv_all_nth)
  moreover have "mset vals = mset out" by (simp add: out(2))
  ultimately obtain xs where xs: "list_all2 (\<lambda>v x. cell_for cx x (cell_of v)) vals xs" "mset xs = mset (map av_Snapshot ?L)"
    using list_all2_reorder_left_invariance by blast
  show thesis
  proof (rule that)
    show "list_all2 (cell_for cx) xs (map cell_of vals)" using xs(1) by (simp add: list_all2_conv_all_nth)
    show "set xs = {x \<in> set s. entity_row ten e x}" using rows xs(2) by (metis set_mset_mset)
    show "distinct xs" using d xs(2) by (metis mset_eq_imp_distinct_iff)
  qed
qed

lemma target_keys:
  assumes "list_all2 (cell_for cx) xs cs" "map_result (cell_key cx jt) cs = Inr target"
  shows "target = map (row_value_key (cx_lib cx)) xs"
  using assms by (induction xs cs arbitrary: target rule: list_all2_induct) (auto simp: cell_key_for split: sum.splits)

lemma restore_keys:
  assumes laws: "codec_laws lib" "cx_lib cx = lib" "\<And>i. cx_parseID cx (cx_idString cx i) = Inr i"
    and cap: "snapshotValues cx rp s0 (cx_tenant cx) rawE = Inr vals" "ParseEntityID rawE = Inr e" "values_ok lib (rp_attrs rp) s0"
      "\<forall>x\<in>set s0. entity_row (cx_tenant cx) e x \<longrightarrow> row_fits lib (rp_attrs rp) x \<and> plain (vs_Value x)"
    and res: "ApplySnapshot cx jt rp s rawT rawE (map cell_of vals) = Inr t" "values_ok lib (rp_attrs rp) s" "ids_fresh cx s"
      "\<forall>x\<in>set s. row_fits lib (rp_attrs rp) x"
  shows "live_keys lib (cx_tenant cx) e (vt_values t) = live_keys lib (cx_tenant cx) e s0"
proof -
  obtain xs where xs: "list_all2 (cell_for cx) xs (map cell_of vals)" "set xs = {x \<in> set s0. entity_row (cx_tenant cx) e x}" "distinct xs"
    by (rule capture_cells [OF laws cap(1,2) values_okD(1) [OF cap(3)]]) (use cap(4) in \<open>auto simp: row_fits_def plain_def\<close>)
  from ApplySnapshot_live [OF res(1) cap(2), unfolded laws(2), OF res(2,3)]
  obtain target u where u: "map_result (cell_key cx jt) (map cell_of vals) = Inr target"
      "apply_cells cx jt rp rawT rawE (map cell_of vals) (begin_vtx s) = Inr u"
      "{x \<in> set (vt_values t). entity_row (cx_tenant cx) e x} =
         {x \<in> set (vt_values u). entity_row (cx_tenant cx) e x \<and> row_value_key lib x \<in> set target}"
    by blast
  have target: "set target = live_keys lib (cx_tenant cx) e s0"
    using target_keys [OF xs(1) u(1)] xs(2) laws(2) by (simp add: live_keys_def)
  have single: "\<not> single_slot (rp_attrs rp) y x" if "x \<in> set xs" "y \<in> set xs" "x \<noteq> y" for x y
  proof -
    have m: "x \<in> set s0" "y \<in> set s0" "entity_row (cx_tenant cx) e x" "entity_row (cx_tenant cx) e y" using that xs(2) by auto
    have "pair_ok lib (rp_attrs rp) y x" using values_okD(3,4) [OF cap(3) m(2,1)] that(3) by blast
    then show ?thesis using m(3,4) by (auto simp: pair_ok_def single_slot_def entity_row_def)
  qed
  have ok: "tx_ok cx (rp_attrs rp) (begin_vtx s)" using begin_ok [of cx "rp_attrs rp" s] res(2,3) laws(2) by simp
  have again: "\<exists>z\<in>set (vt_values u). entity_row (cx_tenant cx) e z \<and> row_value_key lib z = row_value_key lib x" if "x \<in> set xs" for x
    using apply_cells_all [OF laws(1,2) cap(2) xs(1) u(2) ok _ _ sorted_wrt_distinct [OF xs(3) single]] res(4) cap(4) xs(2) that by auto
  show ?thesis
  proof
    show "live_keys lib (cx_tenant cx) e (vt_values t) \<subseteq> live_keys lib (cx_tenant cx) e s0"
      unfolding live_keys_def [of _ _ _ "vt_values t"] u(3) target by auto
    show "live_keys lib (cx_tenant cx) e s0 \<subseteq> live_keys lib (cx_tenant cx) e (vt_values t)"
    proof
      fix k assume k: "k \<in> live_keys lib (cx_tenant cx) e s0"
      then obtain x where "x \<in> set xs" "k = row_value_key lib x" using xs(2) by (auto simp: live_keys_def)
      with again obtain z where z: "z \<in> set (vt_values u)" "entity_row (cx_tenant cx) e z" "row_value_key lib z = k" by blast
      then have "z \<in> {x \<in> set (vt_values t). entity_row (cx_tenant cx) e x}" unfolding u(3) using k target by simp
      with z(3) show "k \<in> live_keys lib (cx_tenant cx) e (vt_values t)" unfolding live_keys_def by blast
    qed
  qed
qed

text \<open>The use cases: a capture and a later restore of it, by any principals of the tenant.\<close>

lemma snapshotValues_context:
  assumes "cx_lib cx' = cx_lib cx" "cx_idString cx' = cx_idString cx" "rp_attrs rp' = rp_attrs rp"
  shows "snapshotValues cx' rp' s ten e = snapshotValues cx rp s ten e"
proof -
  have "capture_one cx' rp' = capture_one cx rp" by (rule ext) (simp add: capture_one_def assms)
  then show ?thesis by (simp add: snapshotValues_def assms)
qed

lemma RevCreate_captured:
  assumes "RevCreate cx rp s revs rawT rawE label newid now = Inr (revs', r)"
  shows "snapshotValues cx rp s (rvn_TenantID r) rawE = Inr (rvn_Values r)" "rvn_EntityID r = rawE"
  using assms by (auto simp: RevCreate_def rbind_Inr Let_def rev_allocate_def)

lemma RevRestore_steps:
  assumes "RevRestore cx jt rp s revs raw newid now = (s', revs', Inr r')" "rev_get cx revs raw = Inr r"
  obtains t ty where "ApplySnapshot cx jt rp s (rvn_TypeDefinitionID r) (rvn_EntityID r) (map cell_of (rvn_Values r)) = Inr t" "s' = vt_values t"
    "RevCreate cx rp s' revs ty (rvn_EntityID r) (''restored from revision '' @ itoa (rvn_Seq r)) newid now = Inr (revs', r')"
  using assms by (auto simp: RevRestore_def rbind_Inr split: sum.splits)

lemma rev_get_tenant: "rev_get cx revs raw = Inr r \<Longrightarrow> rvn_TenantID r = cx_tenant cx"
  by (auto simp: rev_get_def rbind_Inr revisionStore_Get_def split: option.splits if_splits)

lemma restore_round:
  assumes laws: "codec_laws lib" "cx_lib cx0 = lib" "cx_lib cx = lib" "cx_idString cx0 = cx_idString cx" "rp_attrs rp0 = rp_attrs rp"
      "\<And>i. cx_parseID cx (cx_idString cx i) = Inr i"
    and cap: "RevCreate cx0 rp0 s0 revs0 rawT rawE label id0 now0 = Inr (revs1, r)" "ParseEntityID rawE = Inr e" "values_ok lib (rp_attrs rp) s0"
      "\<forall>x\<in>set s0. entity_row (cx_tenant cx) e x \<longrightarrow> row_fits lib (rp_attrs rp) x \<and> plain (vs_Value x)"
    and get: "rev_get cx revs raw = Inr r"
    and res: "RevRestore cx jt rp s revs raw newid now = (s', revs', Inr r')" "values_ok lib (rp_attrs rp) s" "ids_fresh cx s"
      "\<forall>x\<in>set s. row_fits lib (rp_attrs rp) x"
  shows "live_keys lib (cx_tenant cx) e s' = live_keys lib (cx_tenant cx) e s0"
proof -
  have c: "snapshotValues cx rp s0 (cx_tenant cx) rawE = Inr (rvn_Values r)" "rvn_EntityID r = rawE"
    using RevCreate_captured [OF cap(1)] rev_get_tenant [OF get] snapshotValues_context [of cx0 cx rp0 rp s0] laws(2-5) by simp_all
  obtain t ty where t: "ApplySnapshot cx jt rp s (rvn_TypeDefinitionID r) (rvn_EntityID r) (map cell_of (rvn_Values r)) = Inr t" "s' = vt_values t"
    by (rule RevRestore_steps [OF res(1) get])
  show ?thesis using restore_keys [OF laws(1,3,6) c(1) cap(2-4) t(1) [unfolded c(2)] res(2-4)] t(2) by simp
qed

text \<open>A restore of a computed attribute is refused: the write path takes computed values from the materializer only.\<close>

lemma computed_cell_refused:
  assumes "c \<in> set cells" "cx_parseID cx (sc_AttributeDefinitionID c) = Inr i" "attrRepo_Get (rp_attrs rp) i = Inr def" "IsComputed def"
  shows "\<exists>err. ApplySnapshot cx jt rp s rawT rawE cells = Inl err"
proof -
  have "apply_cells cx jt rp rawT rawE cells t \<noteq> Inr u" for t u
    using assms(1)
  proof (induction cells arbitrary: t)
    case (Cons d cells)
    show ?case
    proof
      assume "apply_cells cx jt rp rawT rawE (d # cells) t = Inr u"
      then obtain raw w snap where r: "setWithin cx rp t (cell_input rawT rawE d raw) = Inr (w, snap)" "apply_cells cx jt rp rawT rawE cells w = Inr u"
        by (auto simp: rbind_Inr)
      with Cons have "c = d" by auto
      from r(1) show False
        by (rule setWithin_run) (use assms(2-4) \<open>c = d\<close> in \<open>auto simp: cell_input_def writeGuard_def\<close>)
    qed
  qed simp
  then have "ApplySnapshot cx jt rp s rawT rawE cells \<noteq> Inr u" for u
    by (auto simp: ApplySnapshot_def rbind_Inr)
  then show ?thesis by (cases "ApplySnapshot cx jt rp s rawT rawE cells") auto
qed

lemma computed_restore_refused:
  assumes "rev_get cx revs raw = Inr r" "v \<in> set (rvn_Values r)" "cx_parseID cx (rv_AttributeDefinitionID v) = Inr i"
    "attrRepo_Get (rp_attrs rp) i = Inr def" "IsComputed def"
  shows "\<exists>err. RevRestore cx jt rp s revs raw newid now = (s, revs, Inl err)"
proof -
  have "cell_of v \<in> set (map cell_of (rvn_Values r))" using assms(2) by simp
  from computed_cell_refused [OF this _ assms(4,5), of cx jt s "rvn_TypeDefinitionID r" "rvn_EntityID r"] assms(3)
  show ?thesis by (auto simp: RevRestore_def assms(1) cell_of_def)
qed

section \<open>The history of an entity\<close>

text \<open>Histories of captures, restores and purges that run one after another.\<close>

inductive rev_history :: "rev_store \<Rightarrow> bool" where
  history_empty: "rev_history []"
| history_capture: "rev_history revs \<Longrightarrow> newid \<notin> rvn_ID ` set revs \<Longrightarrow>
    RevCreate cx rp s revs rawT rawE label newid now = Inr (revs', r) \<Longrightarrow> rev_history revs'"
| history_restore: "rev_history revs \<Longrightarrow> newid \<notin> rvn_ID ` set revs \<Longrightarrow>
    RevRestore cx jt rp s revs raw newid now = (s', revs', res) \<Longrightarrow> rev_history revs'"
| history_purge_entity: "rev_history revs \<Longrightarrow> rev_history (fst (rev_PurgeEntity revs ten e))"
| history_purge_tenant: "rev_history revs \<Longrightarrow> rev_history (fst (rev_PurgeTenant revs ten))"

definition seqs :: "rev_store \<Rightarrow> TenantID \<Rightarrow> string \<Rightarrow> int list" where
  "seqs revs ten e = map rvn_Seq (filter (of_entity ten e) revs)"

definition numbered :: "rev_store \<Rightarrow> TenantID \<Rightarrow> string \<Rightarrow> bool" where
  "numbered revs ten e \<longleftrightarrow> set (seqs revs ten e) = {1..int (length (seqs revs ten e))}"

lemma Create_fresh: "rvn_ID r \<notin> rvn_ID ` set revs \<Longrightarrow> revisionStore_Create r revs = revs @ [r]"
  by (induction revs) auto

lemma find_sorted:
  "sorted (map f ys) \<Longrightarrow> find P ys = Some r \<Longrightarrow> r \<in> set ys \<and> P r \<and> (\<forall>x\<in>set ys. P x \<longrightarrow> f r \<le> f x)"
  by (induction ys) (auto split: if_splits)

lemma forEntity_set: "set (forEntity s ten e) = {r \<in> set s. of_entity ten e r}" "sorted (map (\<lambda>r. - rvn_Seq r) (forEntity s ten e))"
  by (auto simp: forEntity_def)

lemma LastSeq_numbered: "numbered revs ten e \<Longrightarrow> LastSeq revs ten e = int (length (seqs revs ten e))"
proof (cases "forEntity revs ten e")
  case Nil
  then have "filter (of_entity ten e) revs = []" using forEntity_set(1) [of revs ten e] by (auto simp: filter_empty_conv)
  then show ?thesis by (simp add: LastSeq_def Nil seqs_def)
next
  case (Cons r rs)
  assume n: "numbered revs ten e"
  let ?n = "int (length (seqs revs ten e))"
  have img: "rvn_Seq ` set (r # rs) = {1..?n}" using n forEntity_set(1) [of revs ten e] by (simp add: Cons numbered_def seqs_def)
  have "\<forall>x\<in>set (r # rs). rvn_Seq x \<le> rvn_Seq r" using forEntity_set(2) [of revs ten e] by (auto simp: Cons)
  moreover have "rvn_Seq r \<in> {1..?n}" using img by (metis imageI list.set_intros(1))
  moreover from this have "?n \<in> rvn_Seq ` set (r # rs)" unfolding img by simp
  ultimately have "rvn_Seq r = ?n" by (metis antisym atLeastAtMost_iff image_iff)
  then show ?thesis by (simp add: LastSeq_def Cons)
qed

lemma numbered_append:
  assumes "\<forall>ten e. numbered revs ten e" "rvn_Seq r = LastSeq revs (rvn_TenantID r) (rvn_EntityID r) + 1"
  shows "numbered (revs @ [r]) ten e"
proof (cases "of_entity ten e r")
  case True
  then have r: "rvn_Seq r = int (length (seqs revs ten e)) + 1" using assms LastSeq_numbered by (simp add: of_entity_def)
  have "set (seqs revs ten e) = {1..int (length (seqs revs ten e))}" using assms(1) by (simp add: numbered_def)
  then show ?thesis using True r by (auto simp: numbered_def seqs_def)
qed (use assms(1) in \<open>simp add: numbered_def seqs_def\<close>)

lemma RevCreate_run:
  assumes "RevCreate cx rp s revs rawT rawE label newid now = Inr (revs', r)" "newid \<notin> rvn_ID ` set revs"
  shows "revs' = revs @ [r] \<and> rvn_ID r = newid \<and> rvn_Seq r = LastSeq revs (rvn_TenantID r) (rvn_EntityID r) + 1"
  using assms Create_fresh [of r revs] by (auto simp: RevCreate_def rbind_Inr Let_def rev_allocate_def)

lemma RevRestore_run:
  assumes "RevRestore cx jt rp s revs raw newid now = (s', revs', res)" "newid \<notin> rvn_ID ` set revs"
  shows "revs' = revs \<or> (\<exists>r. res = Inr r \<and> revs' = revs @ [r] \<and> rvn_ID r = newid \<and> rvn_Seq r = LastSeq revs (rvn_TenantID r) (rvn_EntityID r) + 1)"
  using assms RevCreate_run
  by (auto simp: RevRestore_def rbind_Inr split: sum.splits)

lemma purge_seqs:
  "seqs (fst (rev_PurgeEntity revs ten e)) ten' e' = (if ten' = ten \<and> e' = e then [] else seqs revs ten' e')"
  "seqs (fst (rev_PurgeTenant revs ten)) ten' e' = (if ten' = ten then [] else seqs revs ten' e')"
  by (auto simp: seqs_def rev_PurgeEntity_def rev_PurgeTenant_def of_entity_def filter_empty_conv intro!: arg_cong [where f = "map rvn_Seq"] filter_cong)

lemma history_numbered: "rev_history revs \<Longrightarrow> distinct (map rvn_ID revs) \<and> (\<forall>ten e. numbered revs ten e)"
proof (induction rule: rev_history.induct)
  case history_empty
  then show ?case by (simp add: numbered_def seqs_def)
next
  case (history_capture revs newid cx rp s rawT rawE label now revs' r)
  then show ?case using RevCreate_run [OF history_capture(3,2)] numbered_append by auto
next
  case (history_restore revs newid cx jt rp s raw now s' revs' res)
  then show ?case using RevRestore_run [OF history_restore(3,2)] numbered_append by auto
next
  case (history_purge_entity revs ten e)
  then show ?case unfolding numbered_def purge_seqs by (auto simp: rev_PurgeEntity_def distinct_map_filter)
next
  case (history_purge_tenant revs ten)
  then show ?case unfolding numbered_def purge_seqs by (auto simp: rev_PurgeTenant_def distinct_map_filter)
qed

lemma AsOf_latest:
  "revisionStore_AsOf s ten e instant = Inr r \<Longrightarrow>
    r \<in> set s \<and> of_entity ten e r \<and> rvn_CreatedAt r \<le> instant \<and> (\<forall>x\<in>set s. of_entity ten e x \<and> rvn_CreatedAt x \<le> instant \<longrightarrow> rvn_Seq x \<le> rvn_Seq r)"
  "revisionStore_AsOf s ten e instant = Inl err \<Longrightarrow> \<forall>x\<in>set s. of_entity ten e x \<longrightarrow> instant < rvn_CreatedAt x"
  using find_sorted [OF forEntity_set(2), of "\<lambda>r. rvn_CreatedAt r \<le> instant" s ten e r] forEntity_set(1) [of s ten e]
  by (auto simp: revisionStore_AsOf_def find_None_iff split: option.splits)

text \<open>The numbers determine the list of an entity, whatever the order of the map.\<close>

lemma seqs_distinct:
  assumes "numbered revs ten e"
  shows "distinct (seqs revs ten e)"
proof (rule card_distinct)
  show "card (set (seqs revs ten e)) = length (seqs revs ten e)" using assms by (simp add: numbered_def)
qed

lemma seq_inj:
  assumes "numbered revs ten e" "x \<in> set revs" "y \<in> set revs" "of_entity ten e x" "of_entity ten e y" "rvn_Seq x = rvn_Seq y"
  shows "x = y"
  using seqs_distinct [OF assms(1)] assms(2-6) by (auto simp: seqs_def distinct_map inj_on_def)

lemma forEntity_seqs:
  assumes "numbered revs ten e"
  shows "rev (map rvn_Seq (forEntity revs ten e)) = [1..int (length (forEntity revs ten e))]"
proof (rule sorted_distinct_set_unique)
  have m: "mset (forEntity revs ten e) = mset (filter (of_entity ten e) revs)" by (simp add: forEntity_def)
  have l: "length (forEntity revs ten e) = length (seqs revs ten e)" by (simp add: forEntity_def seqs_def)
  have "mset (map rvn_Seq (forEntity revs ten e)) = mset (seqs revs ten e)" using m by (simp add: seqs_def del: mset_filter)
  then have d: "distinct (map rvn_Seq (forEntity revs ten e))" "set (map rvn_Seq (forEntity revs ten e)) = set (seqs revs ten e)"
    using seqs_distinct [OF assms] by (metis mset_eq_imp_distinct_iff, metis set_mset_mset)
  show "distinct (rev (map rvn_Seq (forEntity revs ten e)))" using d(1) by simp
  show "set (rev (map rvn_Seq (forEntity revs ten e))) = set [1..int (length (forEntity revs ten e))]"
    using d(2) assms by (simp add: l numbered_def)
  have "sorted_wrt (\<lambda>x y. rvn_Seq y \<le> rvn_Seq x) (forEntity revs ten e)" using forEntity_set(2) [of revs ten e] by (simp add: sorted_map)
  then show "sorted (rev (map rvn_Seq (forEntity revs ten e)))" by (simp add: sorted_wrt_rev sorted_wrt_map)
qed simp_all

lemma AsOf_iff:
  assumes "numbered revs ten e"
  shows "revisionStore_AsOf revs ten e instant = Inr r \<longleftrightarrow> r \<in> set revs \<and> of_entity ten e r \<and> rvn_CreatedAt r \<le> instant \<and>
    (\<forall>x\<in>set revs. of_entity ten e x \<and> rvn_CreatedAt x \<le> instant \<longrightarrow> rvn_Seq x \<le> rvn_Seq r)" (is "?l \<longleftrightarrow> ?r r")
proof
  show "?r r" if ?l using AsOf_latest(1) [OF that] .
  show ?l if r: "?r r"
  proof (cases "revisionStore_AsOf revs ten e instant")
    case (Inl err)
    with AsOf_latest(2) [OF this] r show ?thesis by force
  next
    case (Inr q)
    from AsOf_latest(1) [OF this] r have "rvn_Seq q = rvn_Seq r" by (auto intro: antisym)
    with seq_inj [OF assms] AsOf_latest(1) [OF Inr] r have "q = r" by blast
    with Inr show ?thesis by simp
  qed
qed

lemma forEntity_order:
  assumes "numbered revs ten e" "mset revs' = mset revs"
  shows "forEntity revs' ten e = forEntity revs ten e"
  unfolding forEntity_def
proof (rule sort_key_inj_key_eq)
  show "mset (filter (of_entity ten e) revs') = mset (sort_key (\<lambda>r. - rvn_Seq r) (filter (of_entity ten e) revs))" using assms(2) by (simp add: mset_filter)
  have "set revs' = set revs" using assms(2) by (metis set_mset_mset)
  then show "inj_on (\<lambda>r. - rvn_Seq r) (set (filter (of_entity ten e) revs'))"
    using seq_inj [OF assms(1)] by (auto simp: inj_on_def)
  show "sorted (map (\<lambda>r. - rvn_Seq r) (sort_key (\<lambda>r. - rvn_Seq r) (filter (of_entity ten e) revs)))" by simp
qed

text \<open>Two captures that allocate before either inserts get one number; a point-in-time read then answers by the order of the map.\<close>

lemma first_of_ties:
  assumes "\<forall>x\<in>set xs. f r \<le> f x"
  shows "sort_key f (r # xs) = r # sort_key f xs"
  using assms by (simp add: insort_is_Cons)

lemma AsOf_first:
  assumes "of_entity ten e r" "rvn_CreatedAt r \<le> instant" "\<forall>x\<in>set revs. of_entity ten e x \<longrightarrow> rvn_Seq x \<le> rvn_Seq r"
  shows "revisionStore_AsOf (r # revs) ten e instant = Inr r"
proof -
  have "forEntity (r # revs) ten e = r # forEntity revs ten e"
    using assms(1,3) first_of_ties [of "filter (of_entity ten e) revs" "\<lambda>r. - rvn_Seq r" r] by (simp add: forEntity_def del: sort_key_simps)
  then show ?thesis using assms(2) by (simp add: revisionStore_AsOf_def)
qed

lemma captures_collide:
  assumes "rev_history revs" "r1 = rev_allocate revs ten ty1 e l1 vs1 i1 n1" "r2 = rev_allocate revs ten ty2 e l2 vs2 i2 n2" "n1 \<le> instant" "n2 \<le> instant"
  shows "rvn_Seq r1 = rvn_Seq r2" "revisionStore_AsOf (r1 # r2 # revs) ten e instant = Inr r1"
    "revisionStore_AsOf (r2 # r1 # revs) ten e instant = Inr r2"
proof -
  have n: "numbered revs ten e" using history_numbered [OF assms(1)] by blast
  have q: "rvn_Seq r1 = LastSeq revs ten e + 1" "rvn_Seq r2 = LastSeq revs ten e + 1" by (simp_all add: assms(2,3) rev_allocate_def)
  have "rvn_Seq x \<le> LastSeq revs ten e" if "x \<in> set revs" "of_entity ten e x" for x
  proof -
    have "rvn_Seq x \<in> set (seqs revs ten e)" using that by (simp add: seqs_def)
    then show ?thesis using n LastSeq_numbered [OF n] by (simp add: numbered_def)
  qed
  then have le: "\<forall>x\<in>set revs. of_entity ten e x \<longrightarrow> rvn_Seq x \<le> LastSeq revs ten e + 1" by force
  show "rvn_Seq r1 = rvn_Seq r2" using q by simp
  show "revisionStore_AsOf (r1 # r2 # revs) ten e instant = Inr r1" "revisionStore_AsOf (r2 # r1 # revs) ten e instant = Inr r2"
    by (rule AsOf_first; use q le assms(2-5) in \<open>simp add: of_entity_def rev_allocate_def\<close>)+
qed

section \<open>Differences\<close>

lemma sort_key_cong:
  assumes "mset xs = mset ys" "\<And>k. filter (\<lambda>x. f x = k) xs = filter (\<lambda>x. f x = k) ys"
  shows "sort_key f xs = sort_key f ys"
proof (rule properties_for_sort_key)
  show "mset (sort_key f ys) = mset xs" using assms(1) by simp
  show "filter (\<lambda>x. f k = f x) (sort_key f ys) = filter (\<lambda>x. f k = f x) xs" for k
    using assms(2) [of "f k"] sort_key_stable [of f "f k" ys] by (simp add: eq_commute)
qed simp

definition change_scope :: "RevChange \<Rightarrow> string" where
  "change_scope c = rh_AttributeDefinitionID c @ [CHR 0x00] @ rh_Locale c @ [CHR 0x00] @ rh_Channel c"

lemma change_of [simp]: "change_scope (rev_change v kind before after) = scopeKey v"
  by (simp add: change_scope_def rev_change_def scopeKey_def)

lemma changes_scope:
  "c \<in> set (changes_to (groupByScope from k) (groupByScope to k)) \<Longrightarrow> change_scope c = k"
  "c \<in> set (changes_from (groupByScope from k) (groupByScope to k)) \<Longrightarrow> change_scope c = k"
  by (auto simp: changes_to_def changes_from_def groupByScope_def split: if_splits)

lemma filter_by_scope:
  assumes "\<And>k c. c \<in> set (g k) \<Longrightarrow> change_scope c = k" "distinct ks" "\<And>c. P c \<Longrightarrow> change_scope c = k0"
  shows "filter P (concat (map g ks)) = (if k0 \<in> set ks then filter P (g k0) else [])"
proof -
  have other: "filter P (g k) = []" if "k \<noteq> k0" for k using assms(1,3) that by (auto simp: filter_empty_conv)
  show ?thesis using assms(2)
  proof (induction ks)
    case (Cons a ks)
    then show ?case by (cases "a = k0") (auto simp: other)
  qed simp
qed

lemma diff_order:
  assumes "\<And>ks. mset (order ks) = mset ks"
  shows "diff_values order from to = diff_values (\<lambda>ks. ks) from to"
proof -
  let ?t = "\<lambda>k. changes_to (groupByScope from k) (groupByScope to k)" and ?f = "\<lambda>k. changes_from (groupByScope from k) (groupByScope to k)"
  have part: "filter (\<lambda>c. change_key c = q) (concat (map g (order (scope_keys vs)))) = filter (\<lambda>c. change_key c = q) (concat (map g (scope_keys vs)))"
    if g: "\<And>k c. c \<in> set (g k) \<Longrightarrow> change_scope c = k" for g vs q
  proof -
    obtain n l h a where q: "q = (n, l, h, a)" by (cases q)
    have sc: "change_key c = q \<Longrightarrow> change_scope c = a @ [CHR 0x00] @ l @ [CHR 0x00] @ h" for c by (simp add: change_key_def change_scope_def q)
    have "distinct (scope_keys vs)" by (simp add: scope_keys_def)
    moreover have "distinct (order (scope_keys vs))" using calculation assms [of "scope_keys vs"] by (metis mset_eq_imp_distinct_iff)
    moreover have "set (order (scope_keys vs)) = set (scope_keys vs)" using assms [of "scope_keys vs"] by (metis set_mset_mset)
    ultimately show ?thesis using filter_by_scope [of g, OF g _ sc] by simp
  qed
  have "mset (concat (map g ks)) = sum_mset (image_mset (\<lambda>k. mset (g k)) (mset ks))" for g :: "string \<Rightarrow> RevChange list" and ks
    by (induction ks) auto
  then have "mset (concat (map g (order ks))) = mset (concat (map g ks))" for g :: "string \<Rightarrow> RevChange list" and ks
    using assms [of ks] by simp
  then show ?thesis unfolding diff_values_def
    by (intro sort_key_cong) (simp_all add: part [of ?t, OF changes_scope(1)] part [of ?f, OF changes_scope(2)])
qed

lemma groups_empty: "groupByScope vs k = [] \<longleftrightarrow> k \<notin> set (scope_keys vs)"
  by (auto simp: groupByScope_def scope_keys_def filter_empty_conv)

lemma containsValue_iff: "containsValue vs x \<longleftrightarrow> x \<in> rv_Value ` set vs"
  by (auto simp: containsValue_def list_ex_iff)

lemma concat_map_empty: "concat (map g xs) = [] \<longleftrightarrow> (\<forall>x\<in>set xs. g x = [])"
  by simp

lemma changes_to_empty: "changes_to fvs tvs = [] \<longleftrightarrow> rv_Value ` set tvs \<subseteq> rv_Value ` set fvs"
  unfolding changes_to_def containsValue_iff concat_map_empty image_subset_iff by (intro ball_cong) auto

lemma changes_from_empty:
  "changes_from fvs tvs = [] \<longleftrightarrow> rv_Value ` set fvs \<subseteq> rv_Value ` set tvs \<or> length tvs = 1 \<and> length fvs = 1"
  unfolding changes_from_def containsValue_iff concat_map_empty image_subset_iff
  by (cases "length tvs = 1 \<and> length fvs = 1") (simp_all only: if_True if_False simp_thms list.distinct, auto)

lemma no_changes: "changes_to fvs tvs = [] \<and> changes_from fvs tvs = [] \<longleftrightarrow> rv_Value ` set fvs = rv_Value ` set tvs"
proof -
  have "rv_Value ` set fvs \<subseteq> rv_Value ` set tvs"
    if "rv_Value ` set tvs \<subseteq> rv_Value ` set fvs" "length tvs = 1" "length fvs = 1"
  proof -
    from that(2,3) obtain a b where "tvs = [a]" "fvs = [b]" by (auto simp: length_Suc_conv)
    with that(1) show ?thesis by simp
  qed
  then show ?thesis unfolding changes_to_empty changes_from_empty by blast
qed

lemma no_group [simp]: "changes_to fvs [] = []" "changes_from [] tvs = []"
  by (simp_all add: changes_to_def changes_from_def)

lemma diff_empty:
  assumes "\<And>ks. mset (order ks) = mset ks"
  shows "diff_values order from to = [] \<longleftrightarrow> (\<forall>k. rv_Value ` set (groupByScope from k) = rv_Value ` set (groupByScope to k))"
proof -
  let ?t = "\<lambda>k. changes_to (groupByScope from k) (groupByScope to k) = []" and ?f = "\<lambda>k. changes_from (groupByScope from k) (groupByScope to k) = []"
  have "sort_key change_key xs = [] \<longleftrightarrow> xs = []" for xs using length_sort [of change_key xs] by (cases xs) auto
  moreover have "set (order ks) = set ks" for ks using assms [of ks] by (metis set_mset_mset)
  ultimately have "diff_values order from to = [] \<longleftrightarrow> (\<forall>k\<in>set (scope_keys to). ?t k) \<and> (\<forall>k\<in>set (scope_keys from). ?f k)"
    unfolding diff_values_def by (simp only: append_is_Nil_conv concat_map_empty)
  moreover have "?t k" if "k \<notin> set (scope_keys to)" for k using that groups_empty [of to k] by simp
  moreover have "?f k" if "k \<notin> set (scope_keys from)" for k using that groups_empty [of "from" k] by simp
  ultimately have "diff_values order from to = [] \<longleftrightarrow> (\<forall>k. ?t k \<and> ?f k)" by blast
  then show ?thesis unfolding no_changes .
qed

section \<open>What a read shows\<close>

lemma redacted_values:
  assumes "inj (cx_idString cx)" "\<And>i. cx_parseID cx (cx_idString cx i) = Inr i" "\<not> Admin (cx_access cx)" "rev_redact cx rp r = Inr r'"
  shows "r' = r\<lparr>rvn_Values := filter (\<lambda>v. \<exists>i. rv_AttributeDefinitionID v = cx_idString cx i \<and> may_read (cx_access cx) (rp_attrs rp) i) (rvn_Values r)\<rparr>"
proof (cases "rvn_Values r = []")
  case True
  then have "r' = r" using assms(4) by (simp add: rev_redact_def)
  then show ?thesis using True by (cases r) simp
next
  case False
  with assms(3,4) obtain ids m where ids: "map_result (\<lambda>v. as_validation (cx_parseID cx (rv_AttributeDefinitionID v))) (rvn_Values r) = Inr ids"
    and m: "Readable (cx_idString cx) (attrRepo_GetMany (rp_attrs rp)) (cx_access cx) ids = Inr m"
    and r': "r' = r\<lparr>rvn_Values := filter (\<lambda>v. flag_at m (rv_AttributeDefinitionID v)) (rvn_Values r)\<rparr>"
    by (auto simp: rev_redact_def rbind_Inr)
  from mem_attrs.Readable_exact [OF assms(1), of "rp_attrs rp" "cx_access cx" ids] m
  have flag: "flag_at m k \<longleftrightarrow> (\<exists>i\<in>set ids. cx_idString cx i = k \<and> mem_attrs.permitted (rp_attrs rp) CanRead (cx_access cx) i)" for k by auto
  have mem: "i \<in> set ids" if v: "v \<in> set (rvn_Values r)" "rv_AttributeDefinitionID v = cx_idString cx i" for v i
  proof -
    from v(1) obtain n where n: "n < length (rvn_Values r)" "rvn_Values r ! n = v" by (auto simp: in_set_conv_nth)
    from ids have a: "list_all2 (\<lambda>v i. as_validation (cx_parseID cx (rv_AttributeDefinitionID v)) = Inr i) (rvn_Values r) ids"
      by (simp add: map_result_Inr)
    then have "as_validation (cx_parseID cx (rv_AttributeDefinitionID v)) = Inr (ids ! n)" using list_all2_nthD [OF a n(1)] n(2) by simp
    then have "ids ! n = i" by (simp add: v(2) assms(2) as_validation_Inr)
    moreover have "n < length ids" using list_all2_lengthD [OF a] n(1) by simp
    ultimately show ?thesis using nth_mem by blast
  qed
  have eq: "flag_at m (rv_AttributeDefinitionID v) \<longleftrightarrow> (\<exists>i. rv_AttributeDefinitionID v = cx_idString cx i \<and> may_read (cx_access cx) (rp_attrs rp) i)"
    if v: "v \<in> set (rvn_Values r)" for v
  proof
    assume "flag_at m (rv_AttributeDefinitionID v)"
    then obtain i where "cx_idString cx i = rv_AttributeDefinitionID v" "mem_attrs.permitted (rp_attrs rp) CanRead (cx_access cx) i" unfolding flag by blast
    then show "\<exists>i. rv_AttributeDefinitionID v = cx_idString cx i \<and> may_read (cx_access cx) (rp_attrs rp) i"
      using assms(3) unfolding mem_attrs.permitted_def may_read_def by (intro exI [of _ i]) auto
  next
    assume "\<exists>i. rv_AttributeDefinitionID v = cx_idString cx i \<and> may_read (cx_access cx) (rp_attrs rp) i"
    then obtain i where i: "rv_AttributeDefinitionID v = cx_idString cx i" "may_read (cx_access cx) (rp_attrs rp) i" by blast
    have "mem_attrs.permitted (rp_attrs rp) CanRead (cx_access cx) i" using i(2) assms(3) unfolding mem_attrs.permitted_def may_read_def by auto
    with mem [OF v i(1)] i(1) show "flag_at m (rv_AttributeDefinitionID v)" unfolding flag by auto
  qed
  have "filter (\<lambda>v. flag_at m (rv_AttributeDefinitionID v)) (rvn_Values r) =
      filter (\<lambda>v. \<exists>i. rv_AttributeDefinitionID v = cx_idString cx i \<and> may_read (cx_access cx) (rp_attrs rp) i) (rvn_Values r)"
    by (rule filter_cong [OF refl eq])
  then show ?thesis unfolding r' by (simp only:)
qed

end
