(* ===== verification/Reference_Revisions.thy ===== *)
theory Reference_Revisions
  imports Reference_Rules Revision_Laws
begin

text \<open>
  Concrete revisions: a capture and its restore on a changed entity, a history of two captures, a revision of a value that has become
  computed, and a restore by a principal that may not write one attribute.
\<close>

definition ref_json :: "string \<Rightarrow> json option" where
  "ref_json s = None"

lemma ref_codec_laws [simp]: "codec_laws ref_lib"
  by (simp add: codec_laws_def)

lemma ref_cx_codec [simp]: "cx_idString (ref_cx n) = ref_id" "cx_parseID (ref_cx n) = ref_parse"
  by (simp_all add: ref_cx_def)

section \<open>A capture and its restore\<close>

definition ref_both :: value_store where
  "ref_both = [ref_row 100 6 blue, ref_row 200 5 red]"

definition ref_revision :: Revision where
  "ref_revision = \<lparr>rvn_ID = 80, rvn_TenantID = ''acme'', rvn_TypeDefinitionID = ''1'', rvn_EntityID = ''e1'', rvn_Seq = 1, rvn_Label = ''v1'',
     rvn_CreatedAt = 10, rvn_Values = (case snapshotValues (ref_cx 0) ref_repos ref_both ''acme'' ''e1'' of Inr vs \<Rightarrow> vs | Inl _ \<Rightarrow> [])\<rparr>"

lemma ref_capture: "RevCreate (ref_cx 0) ref_repos ref_both [] ''1'' ''e1'' ''v1'' 80 10 = Inr ([ref_revision], ref_revision)"
  by code_simp

lemma ref_revision_read: "rev_get (ref_cx 300) [ref_revision] ''80'' = Inr ref_revision"
  by code_simp

lemma ref_restore:
  "case RevRestore (ref_cx 300) ref_json ref_repos [ref_row 100 6 blue] [ref_revision] ''80'' 81 20 of
     (s', revs', Inl _) \<Rightarrow> False | (s', revs', Inr r') \<Rightarrow> rvn_Seq r' = 2"
  by code_simp

lemma ref_rows_fit:
  "\<forall>x\<in>set ref_both. row_fits ref_lib (rp_attrs ref_repos) x \<and> plain (vs_Value x)"
proof -
  have "attrRepo_Get (rp_attrs ref_repos) 5 = Inr ref_attr" "attrRepo_Get (rp_attrs ref_repos) 6 = Inr ref_target"
    by (simp_all add: ref_repos_def attrRepo_Get_def attr_Snapshot_def attr_Rehydrate_def ref_attr_def ref_target_def)
  moreover have "in_years red" "in_years blue" "ad_dataType ref_attr = DataTypeEnum" "ad_dataType ref_target = DataTypeEnum" by code_simp+
  ultimately show ?thesis by (simp add: ref_both_def row_fits_def plain_def ref_row_def)
qed

lemma ref_history: "rev_history [ref_revision]"
  using history_capture [OF history_empty _ ref_capture] by simp

section \<open>A value that has become computed\<close>

definition ref_now_computed :: vrepos where
  "ref_now_computed = ref_repos\<lparr>rp_attrs := [attr_Snapshot ref_total, attr_Snapshot ref_target]\<rparr>"

lemma ref_now_total: "attrRepo_Get (rp_attrs ref_now_computed) 5 = Inr ref_total"
  by (simp add: ref_now_computed_def attrRepo_Get_def attr_Snapshot_def attr_Rehydrate_def ref_attr_def ref_total_def)

lemma ref_computed_value:
  "IsComputed ref_total"
  "list_ex (\<lambda>v. rv_AttributeDefinitionID v = ''5'') (rvn_Values ref_revision)" "ref_parse ''5'' = Inr 5"
  by code_simp+

section \<open>A restore without permission\<close>

text \<open>The guest may not write the owner; the revision was taken before the entity had one.\<close>

definition ref_plain_revision :: Revision where
  "ref_plain_revision = ref_revision\<lparr>rvn_Values :=
     (case snapshotValues (ref_cx 0) ref_query_repos [ref_row 200 5 red] ''acme'' ''e1'' of Inr vs \<Rightarrow> vs | Inl _ \<Rightarrow> [])\<rparr>"

lemma ref_guest_removes:
  "CanWrite (cx_access ref_guest) ''owner'' = False"
  "case value_Remove ref_guest ref_query_repos (ref_rows ''ann'') ''201'' of Inl e \<Rightarrow> CodeOf e = Some CodeForbidden | Inr _ \<Rightarrow> False"
  "RevCreate (ref_cx 0) ref_query_repos [ref_row 200 5 red] [] ''1'' ''e1'' ''v1'' 80 10 = Inr ([ref_plain_revision], ref_plain_revision)"
  "case RevRestore ref_guest ref_json ref_query_repos (ref_rows ''ann'') [ref_plain_revision] ''80'' 81 20 of
     (s', _, Inr _) \<Rightarrow> map (\<lambda>x. (vs_ID x, vs_AttributeDefinitionID x, vs_ArchivedAt x \<noteq> None)) s' = [(200, 5, False), (201, 7, True)]
   | _ \<Rightarrow> False"
  by code_simp+

end
