(* ===== verification/Spec2Isabelle.thy ===== *)
theory Spec2Isabelle
  imports Reference_Revisions
begin

text \<open>
  \<^bold>\<open>FlexiType: a verification development of its core.\<close>

  FlexiType is a Go service for user-defined schemas. A tenant declares types, arranged in a
  hierarchy, and attributes on them, each with a data type, constraints, a default or a
  formula. Entities then carry values for these attributes and links to other entities.
  Dependencies change what an attribute accepts when the values of another attribute
  match a condition. Change-sets collect value mutations, pass a review and are published
  later. Roles restrict which attributes a request may read or write.

  The theories follow the layers of the repository. Data are records and datatypes with the
  names of the Go declarations (a prefix tells fields of different structs apart), every
  function is a HOL function of the same name (a prefix is added where Go has the method on a
  receiver or HOL has the name already), errors are the left values of \<open>result\<close>, machine
  integers are \<open>int\<close> with the int64 wrap-around written out where the code can overflow, and
  repositories are lists of snapshots passed in and returned.

  \<^bold>\<open>Shared ground.\<close>
  \<^item> \<open>Prelude\<close>: error codes (\<^verbatim>\<open>domain/errors\<close>), the result type, text and list lemmas.
  \<^item> \<open>Go_Runtime\<close>: what the code uses of the language and its standard library: JSON values
    and the struct decoder, int64, float64, and the record \<open>golib\<close> whose fields stand for
    library functions that are not written out (regular expressions, number formats, times).
    What the code relies on of them are the named hypotheses of \<open>Value_Laws\<close> and \<open>Float_Arith\<close>.
  \<^item> \<open>Reference_Lib\<close> gives a concrete \<open>golib\<close> and proves that it has all of these laws at once;
    \<open>Reference_Data\<close>, \<open>Reference_Schema\<close> and \<open>Reference_Rules\<close> hold the concrete schemas, dependencies, links, change-sets and
    schema changes on which the witnesses of this theory evaluate.

  \<^bold>\<open>Values\<close> (\<^verbatim>\<open>domain/valueobjects\<close>).
  \<^item> \<open>Values\<close>: \<^verbatim>\<open>datatype.go\<close> and \<^verbatim>\<open>value.go\<close>. \<open>Value_Laws\<close>: parsing gives well-formed values, the
    stored form round-trips, \<open>Equal\<close> and \<open>Compare\<close> meet the locales \<open>equality_on\<close> and \<open>compare_on\<close>, and the
    grouping key decides equality.
  \<^item> \<open>Dynamic\<close>: \<^verbatim>\<open>dynamic.go\<close>, dynamic values and defaults, their validation, resolution and JSON form.
  \<^item> \<open>Lifecycle\<close>: \<^verbatim>\<open>ids.go\<close> and \<^verbatim>\<open>scope.go\<close>, and the locale \<open>lifecycle\<close> for what every aggregate promises
    of archiving, restoring and editing; it is interpreted on types, attributes, values,
    relationship definitions, links and dependencies.

  \<^bold>\<open>Schema.\<close>
  \<^item> \<open>Formula\<close> and \<open>Float_Arith\<close>: \<^verbatim>\<open>pkg/formula\<close>, lexer, parser and both evaluators. The parser recursion
    takes fuel; \<open>parse_fuel\<close> is a linear function of the input's length, and \<open>formula_parser_total\<close>
    shows that this much is always enough.
  \<^item> \<open>Constraints\<close>, \<open>Attribute\<close>: \<^verbatim>\<open>domain/attribute\<close>, the rules, their codec, the aggregate with all its
    operations, the value gate and defaults.
  \<^item> \<open>Access\<close>: the permission part of \<^verbatim>\<open>application/uow/context.go\<close>.
  \<^item> \<open>Typedefs\<close>: \<^verbatim>\<open>domain/typedef\<close>, \<^verbatim>\<open>application/typedef\<close> and the type part of
    \<^verbatim>\<open>infrastructure/memory/definitions.go\<close>. The ancestor walk has the bound of the source
    (\<^verbatim>\<open>maxHierarchyDepth\<close>) as its fuel. The reachable repositories are an inductive predicate over
    the use cases, and the invariants are proved by rule induction.

  \<^bold>\<open>Instances.\<close>
  \<^item> \<open>Attr_Value\<close>: \<^verbatim>\<open>domain/value\<close>. \<open>Dependency\<close>: \<^verbatim>\<open>domain/dependency\<close>, conditions, effects and the
    resolver, which is shown to refine a set-based specification that does not mention
    order. \<open>Relationship\<close>: \<^verbatim>\<open>domain/relationship\<close>, \<^verbatim>\<open>application/relationship\<close> and the link part of
    \<^verbatim>\<open>infrastructure/memory/instances.go\<close>.
  \<^item> \<open>Field_ACL\<close>: \<^verbatim>\<open>application/fieldacl\<close>, over the locale \<open>attr_lookup\<close> for the batched attribute lookup.
  \<^item> \<open>Changeset\<close>: \<^verbatim>\<open>application/changeset\<close> and \<^verbatim>\<open>infrastructure/memory/changeset_store.go\<close>. Requests interleave: a
    step reads a record, another replaces the stored one by compare-and-swap, publishing
    claims, applies and finishes in separate steps, and an erasure may come between. The safety
    properties quantify over every such interleaving. The store keeps values here; a second,
    smaller model of Go slices with a shared backing array shows what sharing adds.

  \<^bold>\<open>Stored values and transactions.\<close>
  \<^item> \<open>Mem_Store\<close>: \<^verbatim>\<open>infrastructure/memory/store.go\<close> and \<^verbatim>\<open>transactor.go\<close>, the undo journal, media-key locks and
    transactions with their hooks, and \<^verbatim>\<open>application/uow/uow.go\<close>, the unit of work. Transactions interleave operation by operation;
    a rolled-back one leaves no trace in the rows of an interleaving over other rows, by simulation with the run without it.
  \<^item> \<open>Paging\<close>: \<^verbatim>\<open>pkg/db/pagination.go\<close> and \<^verbatim>\<open>paginate\<close> of the in-memory store, with Go's binary search, the type page,
    and the sweep over pages that are read at different times. The sweep's fuel is the number of pages its cap allows.
  \<^item> \<open>Value_Repo\<close>: the value and dependency repositories of \<^verbatim>\<open>infrastructure/memory/instances.go\<close> and the export sweep of
    \<^verbatim>\<open>application/value/importexport.go\<close>.
  \<^item> \<open>Value_Usecases\<close>: \<^verbatim>\<open>application/value\<close> without import, one definition for every guard of a write in the order of the code, batches
    and mutations in canonical order, removals, the gate for demanded values, reads.
    \<open>Value_Writes\<close> proves what they keep: the invariant \<open>values_ok\<close>, the isolation of tenants and the effect of a write.

  \<^bold>\<open>Schema changes.\<close>
  \<^item> \<open>Attr_Usecases\<close>: \<^verbatim>\<open>application/attribute/interactor.go\<close> and the attribute repository of \<^verbatim>\<open>memory/definitions.go\<close>: create and
    update with every check in the order of the code, the formula and its dependency search, rollups, tag inheritance,
    archive and restore. The search \<open>visit\<close> has no fuel: it ends because the nodes that are not yet seen decrease.
  \<^item> \<open>Attr_Laws\<close>: schema changes and value writes, interleaved in any order, keep every stored row consistent with the current
    definition; the cycle search answers exactly reachability; a derived attribute reads only what its author may read.
  \<^item> \<open>Attr_Tree\<close>: the walk over descendants finds the whole tree, and the names in one tree stay distinct.

  \<^bold>\<open>Rules and completeness.\<close>
  \<^item> \<open>Dep_Codec\<close>: the JSON form of conditions and effects (\<^verbatim>\<open>condition.go\<close>, \<^verbatim>\<open>aggregate.go\<close> of \<^verbatim>\<open>domain/dependency\<close>), both directions, and the
    round trip of every rule that passes validation.
  \<^item> \<open>Dep_Usecases\<close>: \<^verbatim>\<open>application/dependency\<close> and the dependency repository of \<^verbatim>\<open>memory/instances.go\<close>: create, update and archive of a rule,
    the lists, the effective schema of an attribute, the completeness of an entity and the sweep over a type, whose fuel of five pages is
    shown to be enough for every input.
  \<^item> \<open>Dep_Laws\<close>: stored rules stay valid for the current schema and can be evaluated (\<open>rules_reachable\<close> interleaves rule and schema changes), who may
    change a rule, and what the views of a restricted principal depend on. \<open>Completeness_Laws\<close>: the answers as a declarative report,
    totality and exactness of the sweep. \<open>Float_Exact\<close>: the rounding facts behind a score that is one only when nothing is missing.

  \<^bold>\<open>Queries.\<close>
  \<^item> \<open>Fql\<close>: \<^verbatim>\<open>pkg/fql\<close>, lexer, syntax tree and parser. The recursion is open, with fuel one above the nesting
    bound of the source; \<open>fql_parser_total_and_bounded\<close> shows that it never runs out.
  \<^item> \<open>Query_Bind\<close>: \<^verbatim>\<open>application/query\<close>, the scopes of a query, literals and bound trees. \<open>Query_Eval\<close>: \<^verbatim>\<open>memory/query.go\<close>, three-valued
    evaluation, \<^verbatim>\<open>application/search\<close>, the documents of full-text search, and \<^verbatim>\<open>Execute\<close>.
  \<^item> \<open>Query_Laws\<close>: bound trees are typed, readable and at most five relationships deep, and evaluation refines a meaning over sets of
    rows. \<open>Query_Views\<close>: values the principal may not read do not influence any answer.

  \<^bold>\<open>Parameters.\<close> Code outside the repository is an argument: \<open>golib\<close> (above), \<open>parseID\<close> and \<open>idString\<close> (the ULID
  text codec), new identifiers and the clock,
  \<open>keyset_lib\<close> (the cursor text), \<open>textlib\<close> (the Unicode tables), and the unit-family and object stores of a deployment.

  \<^bold>\<open>Findings.\<close> Relative dynamic values wrap beyond int64 (\<open>relative_offset_exact_or_wraps\<close>); a type can be created that the hierarchy
  walk then rejects for ever (\<open>create_accepts_too_deep_types\<close>); a condition's pattern is validated in another form than it is
  evaluated in (\<open>pattern_gap\<close>); the eraser of change-sets does not move the version, so erased values return
  (\<open>erasure_undone_by_older_copy\<close>); the in-memory store shares slices (\<open>refused_add_overwrites\<close>, \<open>redacted_read_writes\<close>); relationship names of 54
  to 63 characters are refused by the attribute set they need (\<open>long_name_refused\<close>); a rollback
  takes committed work of another transaction with it (\<open>rollback_drops_committed_work\<close>); the archived-type guard has no exemption
  for the materializer (\<open>materializer_not_exempt\<close>); queries know at most 501 types (\<open>query_type_names_truncated\<close>); a quantity beyond float64 is
  stored and can then not be read (\<open>quantity_overflow_unreadable\<close>); restoring a type brings back names that were given away
  (\<open>type_restore_breaks_namespace\<close>); restoring an attribute closes a cycle of formulas (\<open>attribute_restore_reopens_cycle\<close>); the check of a
  formula tells hidden names from missing ones (\<open>formula_check_reveals_names\<close>); a rollup without its specification reaches a nil
  pointer (\<open>rollup_without_spec_crashes\<close>); an attribute that a rule demands on write can be made computed, after which the rule cannot
  be met (\<open>demand_outlives_formula\<close>); a rule is accepted whose source lives on a subtype of the target's type (\<open>rule_source_on_subtype\<close>); a type with
  1000 to 1005 entities is reported as truncated although all were scored (\<open>type_completeness_total\<close> gives the exact condition of the flag).

  \<^bold>\<open>Not modelled.\<close> The PostgreSQL and Pub/Sub adapters, HTTP and GraphQL, delivery of events and webhooks, media storage, metrics and the
  clients are protocol, SQL or I/O code. Import, materialisation of computed attributes, schema transfer, revisions and the rate
  limiter are orchestration over the operations modelled here and are left out.
  Locks of database rows have no counterpart here: the in-memory operations are atomic, and what a unit of work reads it
  reads from one store.
\<close>

lemmas int64_bounds = in_int64_def min_int64_def max_int64_def

section \<open>Typed values\<close>



text \<open>C26. What \<^verbatim>\<open>ParseValue\<close> accepts has the requested data type and is well formed: integers are in
  the int64 range, floats are finite, decimals, URLs and e-mail addresses are within their length
  limits and syntax, enum text is not empty.\<close>

theorem parsed_value_well_formed:
  assumes "float_parse_finite lib" "wf_raw raw" "ParseValue lib dt raw = Inr v"
  shows "dataType v = dt \<and> wf_value lib v"
  using assms by (rule ParseValue_wf)

theorem parsed_value_well_formed_witness:
  "dataType (NewBoolValue True) = DataTypeBool \<and> wf_value ref_lib (NewBoolValue True)"
  by (rule parsed_value_well_formed [of ref_lib "Raw (JBool True)"]) (simp_all add: ParseValue_def wf_raw_def)

text \<open>C27. \<^verbatim>\<open>Compare\<close> is a total order on the well-formed values of an ordered data type: it never fails,
  reversing the arguments flips the sign, it is transitive, and it answers 0 exactly on \<^verbatim>\<open>Equal\<close>
  values and a negative number exactly when the first value is the smaller one.\<close>

theorem compare_total_order:
  assumes "ordered_dom lib dt x" "ordered_dom lib dt y" "ordered_dom lib dt z"
  shows "\<exists>a b c. Compare lib x y = Inr a \<and> Compare lib y x = Inr (- a) \<and> Compare lib y z = Inr b \<and>
    Compare lib x z = Inr c \<and> (a \<le> 0 \<and> b \<le> 0 \<longrightarrow> c \<le> 0 \<and> (c = 0 \<longrightarrow> a = 0 \<and> b = 0)) \<and>
    (Equal lib x y \<longleftrightarrow> a = 0) \<and> (a < 0 \<longleftrightarrow> value_less dt x y)"
proof -
  from vo.cmp_total [OF assms(1,2)] vo.cmp_total [OF assms(2,3)] obtain a b
    where ab: "Compare lib x y = Inr a" "Compare lib y z = Inr b" by auto
  from vo.cmp_total [OF assms(1,3)] obtain c where c: "Compare lib x z = Inr c" by auto
  from vo.cmp_trans [OF assms ab] c have "a \<le> 0 \<and> b \<le> 0 \<longrightarrow> c \<le> 0 \<and> (c = 0 \<longrightarrow> a = 0 \<and> b = 0)" by auto
  with ab c vo.cmp_flip [OF assms(1,2) ab(1)] Equal_iff_Compare [OF assms(1,2)]
    Compare_negative_iff [OF assms(1,2) ab(1)] show ?thesis by auto
qed

theorem compare_total_order_witness:
  "\<exists>a b c. Compare ref_lib (NewIntegerValue 1) (NewIntegerValue 2) = Inr a \<and>
    Compare ref_lib (NewIntegerValue 2) (NewIntegerValue 1) = Inr (- a) \<and>
    Compare ref_lib (NewIntegerValue 2) (NewIntegerValue 3) = Inr b \<and>
    Compare ref_lib (NewIntegerValue 1) (NewIntegerValue 3) = Inr c \<and>
    (a \<le> 0 \<and> b \<le> 0 \<longrightarrow> c \<le> 0 \<and> (c = 0 \<longrightarrow> a = 0 \<and> b = 0)) \<and>
    (Equal ref_lib (NewIntegerValue 1) (NewIntegerValue 2) \<longleftrightarrow> a = 0) \<and>
    (a < 0 \<longleftrightarrow> value_less DataTypeInteger (NewIntegerValue 1) (NewIntegerValue 2))"
  by (rule compare_total_order [of ref_lib DataTypeInteger])
     (simp_all add: ordered_dom_def int64_bounds)

text \<open>C28. \<^verbatim>\<open>Equal\<close> is an equivalence on well-formed values, and two values of one data type have the
  same \<^verbatim>\<open>EqualityKey\<close>, the string that uniqueness checks group by, exactly when they are equal.\<close>

theorem equality_key_exact:
  assumes "json_bytes_exact lib" "float_parse_total lib" "float_x_exact lib" "rfc3339_exact lib"
    and "wf_value lib x" "wf_value lib y" "wf_value lib z"
  shows "Equal lib x x \<and> (Equal lib x y \<longrightarrow> Equal lib y x) \<and> (Equal lib x y \<and> Equal lib y z \<longrightarrow> Equal lib x z) \<and>
    (dataType x = dataType y \<longrightarrow> (EqualityKey lib x = EqualityKey lib y \<longleftrightarrow> Equal lib x y))"
  using EqualityKey_iff [OF assms(1-6)] ve.eq_refl [OF assms(5)] ve.eq_sym [OF assms(5,6)] ve.eq_trans [OF assms(5-7)]
  by blast

theorem equality_key_exact_witness:
  "Equal ref_lib (NewStringValue ''a'') (NewStringValue ''a'') \<and>
   (EqualityKey ref_lib (NewStringValue ''a'') = EqualityKey ref_lib (NewStringValue ''b'') \<longleftrightarrow>
      Equal ref_lib (NewStringValue ''a'') (NewStringValue ''b''))"
  using equality_key_exact [of ref_lib "NewStringValue ''a''" "NewStringValue ''b''" "NewStringValue ''a''"] by simp

section \<open>Constraints and defaults\<close>

text \<open>The rules of a validated set decide what they document: the set accepts a well-formed value of
  the attribute's type exactly when every rule admits it (rune counts for lengths, the order of the
  type for bounds, a match of the whole text for patterns, equality for allowed values, MIME type
  and size for media).\<close>

theorem constraints_decide:
  assumes "Constraints_Validate lib cs dt = None" "list_all (wf_constraint lib) cs" "wf_value lib v" "dataType v = dt"
  shows "Constraints_Check lib cs v = None \<longleftrightarrow> (\<forall>c\<in>set cs. admits lib c v)"
  using assms by (rule Constraints_Check_admits)

theorem constraints_decide_witness:
  "Constraints_Check ref_lib [MinLength 2, Pattern word_expr False None] (NewStringValue ''abc'') = None"
  using constraints_decide [of ref_lib "[MinLength 2, Pattern word_expr False None]" DataTypeString "NewStringValue ''abc''"]
  by (simp add: Constraints_Validate_None ref_lib_def ref_regexp_def pattern_def anchored_def word_expr_def
      int64_bounds NewStringValue_def rune_count_def wf_value_def re_matches_def is_lower_def)

text \<open>Equal values pass the same rules: no rule of a validated set can tell them apart, whatever
  their representation (0.10 and 0.1, two spellings of one JSON document).\<close>

theorem equal_values_pass_equally:
  assumes "Constraints_Validate lib cs (dataType v) = None" "list_all (wf_constraint lib) cs"
    and "wf_value lib v" "wf_value lib w" "Equal lib v w"
  shows "Constraints_Check lib cs v = None \<longleftrightarrow> Constraints_Check lib cs w = None"
proof -
  have "admits lib c v = admits lib c w" if "c \<in> set cs" for c
    using admits_cong [of lib c v w] that assms by (auto simp: Constraints_Validate_None list_all_iff)
  then show ?thesis
    using Constraints_Check_admits [of lib cs "dataType v"] Equal_dataType [OF assms(5)] assms(1-4) by simp
qed

theorem equal_values_pass_equally_witness:
  "Constraints_Check ref_lib [MinLength 2] (NewStringValue ''ab'') = None \<longleftrightarrow>
   Constraints_Check ref_lib [MinLength 2] (NewStringValue ''ab'') = None"
  by (rule equal_values_pass_equally)
     (simp_all add: Constraints_Validate_None int64_bounds Equal_def)

text \<open>A validated rule set survives its JSON form: it encodes, decodes to the same rules with the
  patterns compiled, and the decoded set is valid for the same type.\<close>

theorem constraints_json_round_trip:
  assumes "float_json_round lib" "time_round lib" "list_all (wf_constraint lib) cs" "list_all years_ok cs"
    and "Constraints_Validate lib cs dt = None"
  shows "\<exists>j. Constraints_MarshalJSON lib cs = Inr j \<and>
    Constraints_UnmarshalJSON lib (Raw j) = Inr (map (precompile lib) cs)"
  using assms by (rule Constraints_round)

theorem constraints_json_round_trip_witness:
  "\<exists>j. Constraints_MarshalJSON ref_lib [MinLength 2, MaxLength 5] = Inr j \<and>
     Constraints_UnmarshalJSON ref_lib (Raw j) = Inr (map (precompile ref_lib) [MinLength 2, MaxLength 5])"
  by (rule constraints_json_round_trip [of _ _ DataTypeString])
     (simp_all add: Constraints_Validate_None years_ok_def int64_bounds)

text \<open>A validated default survives its JSON form.\<close>

theorem default_json_round_trip:
  assumes "float_json_round lib" "time_round lib" "def_Validate d dt = None"
    and "\<And>v. Static d = Some v \<Longrightarrow> wf_value lib v \<and> in_years v"
    and "\<And>x. def_Dynamic d = Some x \<Longrightarrow> in_int64 (dyn_Amount x)"
  shows "\<exists>j. Default_MarshalJSON lib d = Inr j \<and> Default_UnmarshalJSON lib (Raw j) = Inr d"
  using assms by (rule default_round)

theorem default_json_round_trip_witness:
  "let d = \<lparr>Static = None, def_Dynamic = Some \<lparr>dyn_Kind = DynamicRelative, dyn_Period = PeriodDays, dyn_Amount = 3\<rparr>\<rparr>
   in \<exists>j. Default_MarshalJSON ref_lib d = Inr j \<and> Default_UnmarshalJSON ref_lib (Raw j) = Inr d"
  unfolding Let_def
  by (rule default_json_round_trip [of _ _ DataTypeDateTime])
     (simp_all add: def_Validate_def dyn_Validate_def int64_bounds)

text \<open>C29. A relative dynamic value is exact while amount times period fits int64, and beyond that it
  is not bounded by validation: 20000 weeks after now validates and resolves to an instant before
  now, because the product of the two durations wraps.\<close>

theorem relative_offset_exact_or_wraps:
  "(\<forall>d dur now. dyn_Kind d = DynamicRelative \<and> periodDurations (dyn_Period d) = Some dur \<and> in_int64 (dyn_Amount d * dur) \<longrightarrow>
      dyn_Resolve d DataTypeDateTime now = Inr (NewDateTimeValue (time_add now (dyn_Amount d * dur)))) \<and>
   (\<forall>now. let d = \<lparr>dyn_Kind = DynamicRelative, dyn_Period = PeriodWeeks, dyn_Amount = 20000\<rparr> in
      dyn_Validate d DataTypeDateTime = None \<and>
      (\<exists>v. dyn_Resolve d DataTypeDateTime now = Inr v \<and> timeVal v < ns now))"
proof (intro conjI allI impI)
  fix now :: gotime
  let ?d = "\<lparr>dyn_Kind = DynamicRelative, dyn_Period = PeriodWeeks, dyn_Amount = 20000\<rparr>"
  have "wrap64 (20000 * (7 * 24 * 3600 * 1000000000)) < 0"
    by (simp add: wrap64_eq)
  then show "let d = ?d in dyn_Validate d DataTypeDateTime = None \<and>
      (\<exists>v. dyn_Resolve d DataTypeDateTime now = Inr v \<and> timeVal v < ns now)"
    by (simp add: dyn_Validate_def dyn_Resolve_def NewDateTimeValue_def time_add_def)
qed (simp add: dyn_relative_exact)

theorem relative_offset_exact_or_wraps_witness:
  "dyn_Resolve \<lparr>dyn_Kind = DynamicRelative, dyn_Period = PeriodDays, dyn_Amount = 3\<rparr> DataTypeDateTime (at_utc 0) =
     Inr (NewDateTimeValue (time_add (at_utc 0) 259200000000000))"
  using relative_offset_exact_or_wraps [THEN conjunct1, rule_format,
      of "\<lparr>dyn_Kind = DynamicRelative, dyn_Period = PeriodDays, dyn_Amount = 3\<rparr>" 86400000000000 "at_utc 0"]
  by (simp add: int64_bounds)

section \<open>Attributes\<close>

text \<open>Every attribute definition that any sequence of create, update, archive and restore yields is
  well formed: a named attribute of a known type with valid, pairwise different rules, enums with
  declared values, a default the rules accept, a computed rule that parses, and no combination of
  multi-valued with unique or computed.\<close>

theorem attributes_stay_well_formed:
  assumes "attr_reachable lib a"
  shows "wf_attribute lib a"
  using assms by (rule attr_reachable_wf)

theorem attributes_stay_well_formed_witness: "wf_attribute ref_lib ref_attr"
  using ref_attr_reachable by (rule attributes_stay_well_formed)

text \<open>The value gate of a reachable attribute: a well-formed value passes exactly when the attribute
  is live, the type matches and every rule admits the value.\<close>

theorem value_gate_exact:
  assumes "attr_reachable lib a" "list_all (wf_constraint lib) (ad_constraints a)" "wf_value lib v"
  shows "ValidateValue lib a v = None \<longleftrightarrow>
    \<not> attr_IsArchived a \<and> dataType v = ad_dataType a \<and> (\<forall>c\<in>set (ad_constraints a). admits lib c v)"
  using attr_reachable_wf [OF assms(1)] assms(2,3) by (rule ValidateValue_iff)

theorem value_gate_exact_witness: "ValidateValue ref_lib ref_attr red = None"
  using value_gate_exact [OF ref_attr_reachable, of red]
  by (simp add: ref_attr_def attr_IsArchived_def)

text \<open>A value that passes the gate of an enum attribute is one of its declared values.\<close>

theorem enum_values_declared:
  assumes "attr_reachable lib a" "ad_dataType a = DataTypeEnum" "\<not> IsZero v" "ValidateValue lib a v = None"
  shows "\<exists>vs. OneOf vs \<in> set (ad_constraints a) \<and> textVal v \<in> textVal ` set vs"
  using attr_reachable_wf [OF assms(1)] assms(2-4) by (rule enum_value_declared)

theorem enum_values_declared_witness:
  "\<exists>vs. OneOf vs \<in> set (ad_constraints ref_attr) \<and> textVal red \<in> textVal ` set vs"
  by (rule enum_values_declared [OF ref_attr_reachable])
     (simp_all add: ref_attr_def ValidateValue_def attr_IsArchived_def Constraints_Check_def)

text \<open>The default of a live reachable attribute resolves: to no value when none is declared, and otherwise to
  a value of the attribute's type; a static default passes the attribute's own gate.\<close>

theorem defaults_resolve:
  assumes "attr_reachable lib a" "\<not> attr_IsArchived a"
    and "\<And>d v. ad_defaultValue a = Some d \<Longrightarrow> Static d = Some v \<Longrightarrow> wf_value lib v"
  shows "\<exists>v. DefaultFor a now = Inr v \<and>
    (if ad_defaultValue a = None then IsZero v else dataType v = ad_dataType a \<and> wf_value lib v) \<and>
    (\<forall>d. ad_defaultValue a = Some d \<and> Static d \<noteq> None \<longrightarrow> ValidateValue lib a v = None)"
proof -
  have "\<exists>v. DefaultFor a now = Inr v \<and>
      (if ad_defaultValue a = None then IsZero v else dataType v = ad_dataType a \<and> wf_value lib v)"
    using attr_reachable_wf [OF assms(1)] by (rule DefaultFor_ok) (rule assms(3))
  then obtain v where
    v: "DefaultFor a now = Inr v" "if ad_defaultValue a = None then IsZero v else dataType v = ad_dataType a \<and> wf_value lib v"
    by blast
  moreover have "ValidateValue lib a v = None" if "ad_defaultValue a = Some d" "Static d = Some w" for d w
    using static_default_admitted [OF attr_reachable_wf [OF assms(1)] assms(2) that, of now] v(1) by simp
  ultimately show ?thesis by blast
qed

theorem defaults_resolve_witness:
  "\<exists>v. DefaultFor ref_attr (at_utc 0) = Inr v \<and>
    (if ad_defaultValue ref_attr = None then IsZero v else dataType v = ad_dataType ref_attr \<and> wf_value ref_lib v) \<and>
    (\<forall>d. ad_defaultValue ref_attr = Some d \<and> Static d \<noteq> None \<longrightarrow> ValidateValue ref_lib ref_attr v = None)"
  by (rule defaults_resolve [OF ref_attr_reachable]) (auto simp: ref_attr_def attr_IsArchived_def)

text \<open>A run of accepted updates moves the version of an attribute by exactly the number of events it
  published, and never changes its identity, tenant, type, name, data type or creation time.\<close>

theorem attribute_update_runs:
  assumes "attr_ver.update_run lib a n b"
  shows "ad_version b = ad_version a + int n \<and> attr_fixed b = attr_fixed a"
  using assms by (rule attr_ver.update_run_version)

theorem attribute_update_runs_witness:
  "\<exists>b. ad_version b = ad_version ref_attr + 1 \<and> attr_fixed b = attr_fixed ref_attr"
proof -
  let ?i = "\<lparr>au_DisplayName = ''C'', au_Description = [], au_Required = True, au_MultiValued = False,
    au_Unique = False, au_Localizable = False, au_Scopable = False, au_UnitFamilyID = [], au_DisplayUnit = [],
    au_Computed = None, au_Constraints = [OneOf [red, blue]], au_DefaultValue = None, au_Group = [],
    au_SortOrder = 0, au_HelpText = []\<rparr>"
  have "Constraints_Validate ref_lib [OneOf [red, blue]] DataTypeEnum = None" by (simp add: Constraints_Validate_None)
  then obtain b es where b: "attr_Update ref_lib ref_attr ?i 1 = Inr (b, es)"
    by (simp add: attr_Update_def ref_attr_def attr_IsArchived_def validateRules_def hasOneOf_def computed_err_def Let_def)
  then have "length es = 1" by (rule attr_Update_cases(6))
  with attr_ver.run_step [OF b attr_ver.run_done] have "attr_ver.update_run ref_lib ref_attr 1 b" by simp
  from attribute_update_runs [OF this] show ?thesis by auto
qed

section \<open>Formulas\<close>

text \<open>The formula parser terminates on every input: it returns an expression or an error.\<close>

theorem formula_parser_total: "\<exists>r. formula_Parse lib s = Some r"
  by (rule formula_Parse_total)

text \<open>C30. The references that a parsed formula reports are exactly the names that occur in it, each once,
  and evaluation reads nothing else: inputs that agree on the reported references give the same
  result, in floating point and in exact arithmetic, with or without aggregate members.\<close>

theorem formula_references_exact:
  assumes "formula_Parse lib s = Some (Inr e)"
  shows "distinct (refs e) \<and> set (refs e) = node_refs (root e) \<and> set (scalarRefs e) = node_scalars (root e) \<and>
    set (numericRefs e) = node_numerics (root e) \<and>
    (\<forall>vars vars' ms. (\<forall>r\<in>set (refs e). vars r = vars' r) \<longrightarrow> EvalWithMembers e vars ms = EvalWithMembers e vars' ms) \<and>
    (\<forall>vars vars' ms. (\<forall>r\<in>set (refs e). vars r = vars' r) \<longrightarrow> EvalRatWithMembers lib e vars ms = EvalRatWithMembers lib e vars' ms)"
  using formula_Parse_carries [OF assms] feval_cong [of "root e"] evalRat_cong [of "root e"]
  by (simp add: EvalWithMembers_def EvalRatWithMembers_def)

theorem formula_references_exact_witness:
  "\<exists>e. formula_Parse ref_lib ''aa+sum(bb)'' = Some (Inr e) \<and> set (refs e) = node_refs (root e)"
proof -
  have "case formula_Parse ref_lib ''aa+sum(bb)'' of Some (Inr e) \<Rightarrow> True | _ \<Rightarrow> False" by code_simp
  then obtain e where "formula_Parse ref_lib ''aa+sum(bb)'' = Some (Inr e)" by (auto split: option.splits sum.splits)
  with formula_references_exact [OF this] show ?thesis by blast
qed

section \<open>Types and their hierarchy\<close>

text \<open>C31. In every repository that the use cases can build, the ancestor walk of a stored type never meets a
  missing parent or a cycle: it returns the whole lineage, or the type has exactly ten ancestors and the
  walk reports the depth limit.\<close>

theorem hierarchy_walk_total:
  assumes "types_reachable parseID s" "x \<in> set s"
  shows "(\<exists>as. Ancestors (typeDefRepo_Get s) (type_Rehydrate x) = Inr as \<and>
      linked (typeDefRepo_Get s) (type_Rehydrate x) as \<and> length as < maxHierarchyDepth) \<or>
    lineage s (ts_ID x) maxHierarchyDepth \<and>
      Ancestors (typeDefRepo_Get s) (type_Rehydrate x) = Inl (NewValidation ''type hierarchy exceeds the supported depth'')"
  by (rule Ancestors_reachable [OF types_reachable_wf [OF assms(1)] assms(2)]) blast+

theorem hierarchy_walk_total_witness:
  "\<exists>s x. types_reachable ref_parse s \<and> x \<in> set s \<and>
    ((\<exists>as. Ancestors (typeDefRepo_Get s) (type_Rehydrate x) = Inr as \<and>
        linked (typeDefRepo_Get s) (type_Rehydrate x) as \<and> length as < maxHierarchyDepth) \<or>
      lineage s (ts_ID x) maxHierarchyDepth \<and>
        Ancestors (typeDefRepo_Get s) (type_Rehydrate x) = Inl (NewValidation ''type hierarchy exceeds the supported depth''))"
proof -
  from deep_chain obtain s x where sx: "type_chain 11 = Inr s" "x \<in> set s" by blast
  with type_chain_reachable [of 11 s] have r: "types_reachable ref_parse s" by simp
  from hierarchy_walk_total [OF r sx(2)] r sx(2) show ?thesis by blast
qed

text \<open>The depth check of \<^verbatim>\<open>Create\<close> looks at the parent's ancestors and not at the new type's: the use cases
  accept an eleventh type below ten others, and from then on the ancestor walk of that type always
  fails, and with it every operation that resolves its schema.\<close>

theorem create_accepts_too_deep_types:
  "\<exists>s x. types_reachable ref_parse s \<and> x \<in> set s \<and>
    Ancestors (typeDefRepo_Get s) (type_Rehydrate x) = Inl (NewValidation ''type hierarchy exceeds the supported depth'')"
proof -
  from deep_chain obtain s x where sx: "type_chain 11 = Inr s" "x \<in> set s"
      "Ancestors (typeDefRepo_Get s) (type_Rehydrate x) = Inl (NewValidation ''type hierarchy exceeds the supported depth'')"
    by blast
  from type_chain_reachable [OF sx(1)] have "types_reachable ref_parse s" ..
  with sx(2,3) show ?thesis by (intro exI conjI)
qed

text \<open>The repository invariant of every sequence of use cases: identifiers are distinct, two live types of a tenant
  never share an internal name, and every parent is a stored entity type of the same tenant.\<close>

theorem type_repository_invariant:
  assumes "types_reachable parseID s"
  shows "distinct (map ts_ID s) \<and> live_unique s \<and> parents_ok s"
  using types_reachable_wf [OF assms] by (simp add: wf_store_def)

theorem type_repository_invariant_witness: "\<exists>s. s \<noteq> [] \<and> live_unique s \<and> parents_ok s"
proof -
  from deep_chain obtain s x where sx: "type_chain 11 = Inr s" "x \<in> set s" by blast
  have "s \<noteq> []" using sx(2) by auto
  with type_repository_invariant [OF conjunct1 [OF type_chain_reachable [OF sx(1)]]] show ?thesis by blast
qed

text \<open>A type and all of its ancestors have the same root, the root extends nothing and is its own root, and
  \<^verbatim>\<open>IsAncestorOrSelf\<close> answers membership in the lineage.\<close>

theorem roots_agree:
  assumes "Ancestors (typeDefRepo_Get s) t = Inr as" "a \<in> set (t # as)"
  shows "Root (typeDefRepo_Get s) a = Root (typeDefRepo_Get s) t \<and>
    (\<forall>r. Root (typeDefRepo_Get s) t = Inr r \<longrightarrow> td_extendsID r = None \<and> Root (typeDefRepo_Get s) r = Inr r) \<and>
    IsAncestorOrSelf (typeDefRepo_Get s) t c = Inr (c \<in> td_id ` set (t # as))"
  using mem_types.Root_lineage [OF assms] mem_types.Root_extends_nothing [of s t] mem_types.IsAncestorOrSelf_iff [OF assms(1)]
  by blast

theorem roots_agree_witness:
  "\<exists>s t as. Ancestors (typeDefRepo_Get s) t = Inr as \<and> as \<noteq> [] \<and> Root (typeDefRepo_Get s) (hd as) = Root (typeDefRepo_Get s) t"
proof -
  have "case type_chain 3 of Inl _ \<Rightarrow> False | Inr s \<Rightarrow>
      (case Ancestors (typeDefRepo_Get s) (type_Rehydrate (last s)) of Inl _ \<Rightarrow> False | Inr as \<Rightarrow> as \<noteq> [])"
    by code_simp
  then obtain s as where s: "Ancestors (typeDefRepo_Get s) (type_Rehydrate (last s)) = Inr as" "as \<noteq> []"
    by (auto split: sum.splits)
  then have "hd as \<in> set (type_Rehydrate (last s) # as)" by simp
  from roots_agree [OF s(1) this] have "Root (typeDefRepo_Get s) (hd as) = Root (typeDefRepo_Get s) (type_Rehydrate (last s))" ..
  with s show ?thesis by (intro exI conjI)
qed

text \<open>\<^verbatim>\<open>EffectiveAttributes\<close> returns, ordered by group and sort order, exactly the attributes that the type
  and its ancestors declare and that the caller may read, each with the type that declares it.\<close>

theorem effective_attributes_exact:
  assumes "EffectiveAttributes parseID s attrs tenant access raw = Inr out"
  shows "\<exists>t chain. load_own parseID s tenant raw = Inr t \<and> Chain (typeDefRepo_Get s) t = Inr chain \<and>
    sorted (map (\<lambda>(a, _). (as_Group a, as_SortOrder a)) out) \<and>
    set out = {(attr_Snapshot a, type_Snapshot link) | a link as. link \<in> set chain \<and> attrs (td_id link) = Inr as \<and>
      a \<in> set as \<and> CanRead access (ad_internalName a)}"
  using assms by (rule EffectiveAttributes_exact)

theorem effective_attributes_exact_witness:
  "\<exists>s out. EffectiveAttributes ref_parse s (\<lambda>_. Inr [ref_attr]) ''acme'' SystemAccess ''2'' = Inr out \<and>
     sorted (map (\<lambda>(a, _). (as_Group a, as_SortOrder a)) out)"
proof -
  have "case type_chain 2 of Inl _ \<Rightarrow> False | Inr s \<Rightarrow>
      is_ok (EffectiveAttributes ref_parse s (\<lambda>_. Inr [ref_attr]) ''acme'' SystemAccess ''2'')"
    by code_simp
  then obtain s out where "EffectiveAttributes ref_parse s (\<lambda>_. Inr [ref_attr]) ''acme'' SystemAccess ''2'' = Inr out"
    by (auto split: sum.splits elim: is_okE)
  with effective_attributes_exact [OF this] show ?thesis by blast
qed

section \<open>Access policy\<close>

text \<open>\<^verbatim>\<open>ReadsEverything\<close>, which surfaces that cannot filter single attributes rely on, is exact: it holds of a
  policy with known levels exactly when the policy grants reading every attribute name there is. And a
  principal with an unresolved role is denied every attribute, whatever else it was granted.\<close>

theorem reads_everything_is_exact:
  assumes "known_levels a"
  shows "(ReadsEverything a \<longleftrightarrow> (\<forall>name. CanRead a name)) \<and>
    (\<forall>admin roles fps name. roles > 0 \<longrightarrow> \<not> CanRead (AccessFromPermissions admin roles fps) name \<and>
       \<not> CanWrite (AccessFromPermissions admin roles fps) name)"
  using reads_everything_exact [OF assms] unresolved_denies write_implies_read by blast

theorem reads_everything_is_exact_witness:
  "\<exists>name. \<not> CanRead \<lparr>Admin = False, Attr = [(''salary'', PermNone)], DefaultPerm = PermUnset\<rparr> name"
  using reads_everything_is_exact [of "\<lparr>Admin = False, Attr = [(''salary'', PermNone)], DefaultPerm = PermUnset\<rparr>"]
  by (simp add: known_levels_def ReadsEverything_def)

section \<open>Schema changes\<close>

text \<open>C12. One name means one attribute: on every schema that the use cases of types and attributes reach, as long as no
  archived type is restored, two live attributes that a root type or one of its live descendants declare never share an internal name.\<close>

theorem hierarchy_names_unique:
  assumes "schema_reachable parseID types attrs" "typeDefRepo_Get types i = Inr r" "td_extendsID r = None"
    and "Descendants (typeDefRepo_ListChildren types) r = Inr ds" "a \<in> set attrs" "b \<in> set attrs"
    and "as_ArchivedAt a = None" "as_ArchivedAt b = None" "as_InternalName a = as_InternalName b"
    and "as_TypeDefinitionID a \<in> td_id ` set (r # ds)" "as_TypeDefinitionID b \<in> td_id ` set (r # ds)"
  shows "a = b"
  using root_names_distinct [OF assms(1-8,10,11,9)] .

theorem hierarchy_names_unique_witness:
  "\<exists>a\<in>set ref_codes2. as_TypeDefinitionID a = 2 \<and>
     (\<forall>b\<in>set ref_codes2. as_TypeDefinitionID b \<in> {1, 2} \<and> as_InternalName b = as_InternalName a \<longrightarrow> b = a)"
proof -
  have r: "typeDefRepo_Get (ref_tree 1 (Some 1)) 1 = Inr (type_Rehydrate (ref_node 1 ''item'' None 0 None))"
      "td_extendsID (type_Rehydrate (ref_node 1 ''item'' None 0 None)) = None"
    by (simp_all add: ref_tree_def typeDefRepo_Get_def) (simp_all add: ref_node_def)
  have "map_sum id (map td_id) (Descendants (typeDefRepo_ListChildren (ref_tree 1 (Some 1))) (type_Rehydrate (ref_node 1 ''item'' None 0 None))) = Inr [2]"
    by code_simp
  then obtain ds where ds: "Descendants (typeDefRepo_ListChildren (ref_tree 1 (Some 1))) (type_Rehydrate (ref_node 1 ''item'' None 0 None)) = Inr ds"
      "map td_id ds = [2]" by (auto simp: map_sum_Inr)
  have ids: "td_id ` set (type_Rehydrate (ref_node 1 ''item'' None 0 None) # ds) = {1, 2}"
    using arg_cong [OF ds(2), of set] by (simp add: ref_node_def)
  obtain a b where ab: "ref_codes2 = [b, a]" "as_ArchivedAt b = None" "as_TypeDefinitionID a = 2" "as_ArchivedAt a = None" by (rule ref_codes)
  note uni = hierarchy_names_unique [OF ref_tree_reachable r ds(1), unfolded ids ab(1)]
  have "c = a" if "c \<in> {b, a}" "as_TypeDefinitionID c \<in> {1, 2}" "as_InternalName c = as_InternalName a" for c
    using uni [of c a] that ab(2-4) by auto
  with ab(3) show ?thesis unfolding ab(1) by auto
qed

text \<open>C20. Restoring a type is not guarded: a schema that the use cases reach, from which the restore of an archived type succeeds
  and leaves two live attributes of one name in one tree.\<close>

theorem type_restore_breaks_namespace:
  "\<exists>parseID types attrs tenant raw now types' out i r ds a b.
     schema_reachable parseID types attrs \<and> TypeTransition parseID types tenant raw ActionRestored now = Inr (types', out) \<and>
     typeDefRepo_Get types' i = Inr r \<and> td_extendsID r = None \<and> Descendants (typeDefRepo_ListChildren types') r = Inr ds \<and>
     a \<in> set attrs \<and> b \<in> set attrs \<and> a \<noteq> b \<and> as_ArchivedAt a = None \<and> as_ArchivedAt b = None \<and>
     as_InternalName a = as_InternalName b \<and> {as_TypeDefinitionID a, as_TypeDefinitionID b} \<subseteq> td_id ` set (r # ds)"
proof -
  let ?r = "type_Rehydrate (ref_node 1 ''item'' None 0 None)"
  from ref_tree_calls(5) obtain out where t: "TypeTransition ref_parse (ref_tree 1 (Some 1)) ''acme'' ''3'' ActionRestored 2 = Inr (ref_tree 2 None, out)"
    by (auto simp: map_sum_Inr)
  from ref_tree_calls(10) obtain ds where ds: "Descendants (typeDefRepo_ListChildren (ref_tree 2 None)) ?r = Inr ds" "map td_id ds = [2, 3]"
    by (auto simp: map_sum_Inr)
  have r: "typeDefRepo_Get (ref_tree 2 None) 1 = Inr ?r" "td_extendsID ?r = None"
    by (simp_all add: ref_tree_def typeDefRepo_Get_def) (simp_all add: ref_node_def)
  obtain a b where ab: "ref_codes2 = [a, b]" "as_ID a = 50" "as_TypeDefinitionID a = 3" "as_InternalName a = ''code''" "as_ArchivedAt a = None"
    "as_ID b = 51" "as_TypeDefinitionID b = 2" "as_InternalName b = ''code''" "as_ArchivedAt b = None" by (rule ref_codes)
  have "set (map td_id ds) = {2, 3}" unfolding ds(2) by simp
  then have types: "{as_TypeDefinitionID a, as_TypeDefinitionID b} \<subseteq> td_id ` set (?r # ds)" using ab(3,7) by auto
  have "a \<noteq> b" using ab(2,6) by auto
  moreover have "a \<in> set ref_codes2" "b \<in> set ref_codes2" unfolding ab(1) by simp_all
  moreover have "as_InternalName a = as_InternalName b" using ab(4,8) by simp
  ultimately show ?thesis using ref_tree_reachable t r ds(1) ab(5,9) types by blast
qed

text \<open>C13. The search for formula cycles terminates and is exact: a formula is refused if and only if, with it, the attribute
  would reach itself through the references of formulas; and a set of formulas without a cycle stays without one exactly
  when the formula is accepted.\<close>

theorem formula_cycle_check_exact:
  "(checkFormulaCycle name rs deps = None \<longleftrightarrow> (name, name) \<notin> (reads (AList.update name rs deps))\<^sup>+) \<and>
   (acyclic (reads deps) \<longrightarrow> (checkFormulaCycle name rs deps = None \<longleftrightarrow> acyclic (reads (AList.update name rs deps))))"
  using checkFormulaCycle_iff [of name rs deps] acyclic_update [of deps name rs] by simp

theorem formula_cycle_check_exact_witness:
  "checkFormulaCycle ''aa'' [''cc''] [(''bb'', [''aa''])] = None \<and> acyclic (reads (AList.update ''aa'' [''cc''] [(''bb'', [''aa''])]))"
proof -
  have none: "checkFormulaCycle ''aa'' [''cc''] [(''bb'', [''aa''])] = None" by code_simp
  with formula_cycle_check_exact [of "''aa''" "[''cc'']" "[(''bb'', [''aa''])]"] ref_loop_graphs(1) show ?thesis by simp
qed

text \<open>C21. Restoring an attribute is not guarded against cycles: a schema without a formula cycle that the use cases reach,
  from which the restore of an archived formula succeeds and leaves a cycle.\<close>

theorem attribute_restore_reopens_cycle:
  "\<exists>parseID cx rp raw now attrs' out td deps deps'.
     schema_reachable parseID (rp_types rp) (rp_attrs rp) \<and> types_get rp (td_id td) = Inr td \<and>
     computedDeps (cx_lib cx) (list_all_for cx rp) [td] = Inr deps \<and> acyclic (reads deps) \<and>
     attr_transition cx rp raw ActionRestored now = Inr (attrs', out) \<and>
     computedDeps (cx_lib cx) (list_all_for cx (rp\<lparr>rp_attrs := attrs'\<rparr>)) [td] = Inr deps' \<and> \<not> acyclic (reads deps')"
proof -
  let ?td = "type_Rehydrate ref_item" and ?rp = "ref_items ref_loop4"
  from accepted_store [OF ref_loop_calls(5)] obtain out where
    t: "attr_transition (ref_cx 0) ?rp ''50'' ActionRestored 3 = Inr (ref_loop5, out)" unfolding ref_loop5_def by auto
  have td: "types_get ?rp (td_id ?td) = Inr ?td" by (simp add: typeDefRepo_Get_def)
  have "schema_reachable ref_parse (rp_types ?rp) (rp_attrs ?rp)" using ref_loop_reachable by simp
  moreover have "computedDeps (cx_lib (ref_cx 0)) (list_all_for (ref_cx 0) ?rp) [?td] = Inr [(''bb'', [''aa''])]"
      "computedDeps (cx_lib (ref_cx 0)) (list_all_for (ref_cx 0) (?rp\<lparr>rp_attrs := ref_loop5\<rparr>)) [?td] = Inr [(''aa'', [''bb'']), (''bb'', [''aa''])]"
    using ref_loop_calls(7,8) by simp_all
  ultimately show ?thesis using t td ref_loop_graphs by blast
qed

text \<open>C7. A principal with field restrictions cannot republish what it may not read: an attribute it creates or updates as computed
  is a formula whose every reference, and so everything its evaluation reads, names a live attribute it may read, of a
  shape the formula can use; or a rollup that only counts or whose target it may read.\<close>

theorem derived_from_readable:
  assumes "\<not> Admin (cx_access cx)" "as_Computed snap = Some c"
    and "AttrCreate cx rp rels inp newid now = Inr (attrs', snap, es, ch) \<or> AttrUpdate cx rp rels s req now = Inr (attrs', snap, es, ch)"
  shows "case co_Kind c of
      ComputedFormula \<Rightarrow> \<exists>expr. Parse_formula (cx_lib cx) (co_Formula c) = Inr expr \<and>
        (\<forall>r\<in>node_refs (root expr). CanRead (cx_access cx) r \<and>
          (\<exists>x\<in>set (rp_attrs rp). as_InternalName x = r \<and> source_ok (cx_access cx) expr x))
    | ComputedRollup \<Rightarrow> \<exists>spec. co_Rollup c = Some spec \<and> (ro_Aggregate spec = RollupCount \<or> CanRead (cx_access cx) (ro_Target spec))
    | ComputedKindOther _ \<Rightarrow> False"
proof -
  have d: "derives_from_readable (cx_lib cx) (cx_access cx) (rp_attrs rp) c"
    using assms(3) created_derives [OF _ assms(1,2)] updated_derives [OF _ assms(1,2)] by blast
  show ?thesis
  proof (cases "co_Kind c")
    case ComputedFormula
    with d obtain expr where e: "Parse_formula (cx_lib cx) (co_Formula c) = Inr expr"
        "\<forall>r\<in>set (refs expr). \<exists>x\<in>set (rp_attrs rp). as_InternalName x = r \<and> source_ok (cx_access cx) expr x"
      by (auto simp: derives_from_readable_def)
    have "set (refs expr) = node_refs (root expr)"
      using formula_Parse_carries(2) [of "cx_lib cx" "co_Formula c" expr] Parse_formula_eq [of "cx_lib cx" "co_Formula c"] e(1) by simp
    with e ComputedFormula show ?thesis by (auto simp: source_ok_def)
  qed (use d in \<open>simp_all add: derives_from_readable_def\<close>)
qed

theorem derived_from_readable_witness: "CanRead (cx_access ref_guest) ''tags'' \<and> \<not> CanRead (cx_access ref_guest) ''owner''"
proof
  from ref_probe_answers(3) obtain attrs' snap es ch c where
    w: "AttrCreate ref_guest (ref_items [ref_tags]) None (ref_create ''1'' ''zz'' ''float'' (ref_formula ''sum(tags)*2'')) 90 0 = Inr (attrs', snap, es, ch)"
      "as_Computed snap = Some c" "co_Formula c = ''sum(tags)*2''" by (auto split: sum.splits prod.splits)
  have "\<not> Admin (cx_access ref_guest)" by (simp add: ref_guest_def)
  from derived_from_readable [OF this w(2) disjI1 [OF w(1)]]
  have "\<exists>expr. Parse_formula ref_lib ''sum(tags)*2'' = Inr expr \<and> (\<forall>r\<in>node_refs (root expr). CanRead (cx_access ref_guest) r) \<or> co_Kind c = ComputedRollup"
    using w(3) by (auto simp: ref_guest_def split: ComputedKind.splits)
  then show "CanRead (cx_access ref_guest) ''tags''" by (simp add: ref_guest_def CanRead_def access_level_def)
  show "\<not> CanRead (cx_access ref_guest) ''owner''" by code_simp
qed

text \<open>The answer to a formula is an oracle on names: a restricted principal, a schema with an attribute it may not
  read, and a request that is refused with different errors with and without that attribute.\<close>

theorem formula_check_reveals_names:
  "\<exists>cx rp before hidden after inp newid now e e'. \<not> Admin (cx_access cx) \<and> rp_attrs rp = before @ hidden # after \<and>
     \<not> CanRead (cx_access cx) (as_InternalName hidden) \<and>
     AttrCreate cx rp None inp newid now = Inl e \<and>
     AttrCreate cx (rp\<lparr>rp_attrs := before @ after\<rparr>) None inp newid now = Inl e' \<and> e \<noteq> e'"
proof -
  let ?rp = "ref_items [ref_secret, ref_tags]"
  from ref_probe_answers(1,2) have "AttrCreate ref_guest ?rp None ref_probe 90 0 = Inl errUnknownFormulaSource"
      "AttrCreate ref_guest (ref_items [ref_tags]) None ref_probe 90 0 = Inl (NewValidation ''a formula cannot read a multi-valued attribute directly'')"
    by (simp_all split: sum.splits)
  moreover have "errUnknownFormulaSource \<noteq> NewValidation ''a formula cannot read a multi-valued attribute directly''" by code_simp
  moreover have "\<not> Admin (cx_access ref_guest)" "\<not> CanRead (cx_access ref_guest) (as_InternalName ref_secret)" by code_simp+
  moreover have "rp_attrs ?rp = [] @ ref_secret # [ref_tags]" "?rp\<lparr>rp_attrs := [] @ [ref_tags]\<rparr> = ref_items [ref_tags]" by simp_all
  ultimately show ?thesis by metis
qed

text \<open>A computed attribute of kind rollup without its spec is not refused: the create request dereferences a nil pointer, whatever
  the schema and the principal, once the type is found.\<close>

theorem rollup_without_spec_crashes:
  assumes "decodeComputed (ac_Computed inp) = Inr (Some c)" "co_Kind c = ComputedRollup" "co_Rollup c = None"
    and "cx_parseID cx (ac_TypeDefinitionID inp) = Inr i" "ParseDataType (ac_DataType inp) = Inr dt"
    and "decodeRules (cx_lib cx) (ac_Constraints inp) (ac_DefaultValue inp) = Inr rules"
    and "is_ok (normalizeQuantityConstraints cx dt (ac_UnitFamilyID inp) rules)"
    and "types_get rp i = Inr td" "td_tenantID td = cx_tenant cx" "\<not> type_IsArchived td" "is_ok (Ancestors (types_get rp) td)"
  shows "AttrCreate cx rp rels inp newid now = Inl nil_dereference"
proof -
  from assms(11) obtain as where as: "Ancestors (types_get rp) td = Inr as" by (auto simp: is_ok_def split: sum.splits)
  define r where "r = (if as = [] then td else last as)"
  have root: "Root (types_get rp) td = Inr r" using as by (simp add: Root_def r_def)
  have chain: "Chain (types_get rp) td = Inr (td # as)" using as by (simp add: Chain_def)
  have locked: "\<exists>x. (if td_id r \<noteq> td_id td then types_get rp (td_id r) else Inr r) = Inr x"
    using mem_types.linked_member [of "rp_types rp" td as r] as by (auto simp: r_def mem_types.Ancestors_iff)
  obtain ds where "Descendants (children_of rp) r = Inr ds" by (rule Descendants_tree)
  with chain have tree: "whole_hierarchy rp td r = Inr (appendUnseenTypes (td # as) ds)" by (simp add: whole_hierarchy_def)
  have guard: "create_computed_guard cx rp rels td h (ac_InternalName inp) (Some c) = Inl nil_dereference" for h
    using assms(2,3) by (simp add: create_computed_guard_def assertRollupResolves_def)
  from assms(7) obtain cs def where norm: "normalizeQuantityConstraints cx dt (ac_UnitFamilyID inp) rules = Inr (cs, def)"
    by (auto simp: is_ok_def split: sum.splits)
  from locked obtain x where x: "(if td_id r \<noteq> td_id td then types_get rp (td_id r) else Inr r) = Inr x" by blast
  show ?thesis using assms(1,4-6,8-10) norm root x tree guard by (simp add: AttrCreate_def EnsureTenant_def)
qed

theorem rollup_without_spec_crashes_witness:
  "AttrCreate (ref_cx 0) (ref_items []) None (ref_create ''1'' ''zz'' ''float'' (Raw (JObj [(''kind'', JStr ''rollup'')]))) 90 0 = Inl nil_dereference"
proof (rule rollup_without_spec_crashes)
  show "decodeComputed (ac_Computed (ref_create ''1'' ''zz'' ''float'' (Raw (JObj [(''kind'', JStr ''rollup'')])))) =
      Inr (Some (zero_computed\<lparr>co_Kind := ComputedRollup\<rparr>))"
    "ParseDataType (ac_DataType (ref_create ''1'' ''zz'' ''float'' (Raw (JObj [(''kind'', JStr ''rollup'')])))) = Inr DataTypeFloat"
    "cx_parseID (ref_cx 0) (ac_TypeDefinitionID (ref_create ''1'' ''zz'' ''float'' (Raw (JObj [(''kind'', JStr ''rollup'')])))) = Inr 1"
    "is_ok (Ancestors (types_get (ref_items [])) (type_Rehydrate ref_item))"
    "\<not> type_IsArchived (type_Rehydrate ref_item)"
    by code_simp+
  show "decodeRules (cx_lib (ref_cx 0)) (ac_Constraints (ref_create ''1'' ''zz'' ''float'' (Raw (JObj [(''kind'', JStr ''rollup'')]))))
      (ac_DefaultValue (ref_create ''1'' ''zz'' ''float'' (Raw (JObj [(''kind'', JStr ''rollup'')])))) = Inr ([], None)"
    by (simp add: decodeRules_def given_def ref_create_def)
  show "types_get (ref_items []) 1 = Inr (type_Rehydrate ref_item)" by (simp add: typeDefRepo_Get_def) (simp add: ref_node_def)
qed (simp_all add: zero_computed_def normalizeQuantityConstraints_def is_ok_def, simp_all add: ref_node_def)

section \<open>Stored values\<close>

text \<open>A stored value conforms to the definition it pins after any history of creation, replacement and removal:
  it is a value of the attribute's type that every rule of the pinned version accepts.\<close>

theorem stored_values_conform:
  assumes "value_reachable lib def av"
  shows "av_attributeDefID av = ad_id def \<and> av_definitionVersion av = ad_version def \<and>
    \<not> IsZero (av_value av) \<and> dataType (av_value av) = ad_dataType def \<and>
    (\<forall>c\<in>set (ad_constraints def). constraint_Check lib c (av_value av) = None)"
  using value_reachable_conforms [OF assms] by (simp add: conforms_def)

theorem stored_values_conform_witness:
  "\<exists>av. value_reachable ref_lib ref_attr av \<and> dataType (av_value av) = ad_dataType ref_attr"
proof -
  have "ValidateValue ref_lib ref_attr red = None"
    by (simp add: ValidateValue_def ref_attr_def attr_IsArchived_def Constraints_Check_def)
  then obtain av es where "av_New ref_lib ref_attr 1 ''e1'' \<lparr>Locale = [], Channel = []\<rparr> red 50 0 = Inr (av, es)"
    by (simp add: av_New_def ref_attr_def attr_IsArchived_def id_IsZero_def scope_IsZero_def Let_def)
  then have "value_reachable ref_lib ref_attr av" by (rule value_created)
  with stored_values_conform [OF this] show ?thesis by blast
qed

section \<open>Dependencies\<close>

text \<open>A validated condition decides what it documents on every well-formed value of its subject type: equality,
  membership, inclusive or exclusive bounds, a pattern match, or a comparison with a date computed at
  evaluation time. The pattern must compile in the form that matching uses; validation
  compiles another form, see the lemma \<open>pattern_gap\<close>.\<close>

theorem conditions_decide:
  assumes "cond_Validate lib c source = None" "cond_subject c source = Inr dt"
    and "wf_condition lib c" "wf_value lib v" "dataType v = dt"
    and "cond_Kind c = CondPattern \<Longrightarrow> re_compile lib (conditionPattern c) \<noteq> None"
  shows "cond_Matches lib c v now = Inr (cond_holds lib c v now)"
  using assms by (rule cond_Matches_spec)

theorem conditions_decide_witness: "cond_Matches ref_lib ref_cond red (at_utc 0) = Inr (cond_holds ref_lib ref_cond red (at_utc 0))"
  by (rule conditions_decide [of _ _ DataTypeEnum DataTypeEnum]) simp_all

text \<open>C32. The resolver refines its specification: whenever every dependency can be evaluated, it returns the schema that
  the set of matched effects determines. Required follows the matched overrides, allowed values are the
  intersection of all matched lists, constraints add up, the strictest enforcement wins, and the
  resulting check accepts exactly the values that pass every matched restriction.\<close>

theorem resolver_refines_specification:
  assumes "\<forall>d\<in>set deps. is_ok (dep_applies lib target sv ctx now d)" "\<forall>d\<in>set deps. wf_effect lib (dep_effect d)"
  shows "\<exists>s. ResolveEffectiveWithContext lib target deps sv ctx now = Inr s \<and>
    schema_spec lib target {dep_effect d | d. d \<in> set deps \<and> dep_applies lib target sv ctx now d = Inr True} s"
  using assms by (rule resolve_refines_spec)

theorem resolver_refines_specification_witness:
  "\<exists>s. ResolveEffectiveWithContext ref_lib ref_target [ref_dep] (\<lambda>_. [red]) [] (at_utc 0) = Inr s \<and>
    schema_spec ref_lib ref_target {dep_effect d | d. d \<in> set [ref_dep] \<and>
      dep_applies ref_lib ref_target (\<lambda>_. [red]) [] (at_utc 0) d = Inr True} s"
  by (rule resolver_refines_specification) (simp_all add: ref_dep_applies)

text \<open>The order in which dependencies are stored does not matter: two lists with the same dependencies resolve to
  schemas that agree on required, its enforcement and the restriction, and accept the same values.\<close>

theorem resolution_order_irrelevant:
  assumes "set deps = set deps'" "\<forall>d\<in>set deps. is_ok (dep_applies lib target sv ctx now d)"
    and "\<forall>d\<in>set deps. wf_effect lib (dep_effect d)"
  shows "\<exists>s s'. ResolveEffectiveWithContext lib target deps sv ctx now = Inr s \<and>
    ResolveEffectiveWithContext lib target deps' sv ctx now = Inr s' \<and> es_Required s = es_Required s' \<and>
    es_RequiredEnforcement s = es_RequiredEnforcement s' \<and> es_Restricted s = es_Restricted s' \<and>
    (\<forall>v. wf_value lib v \<longrightarrow> (effective_Check lib s v = None \<longleftrightarrow> effective_Check lib s' v = None))"
proof -
  let ?E = "{dep_effect d | d. d \<in> set deps \<and> dep_applies lib target sv ctx now d = Inr True}"
  from resolve_refines_spec [OF assms(2,3)] obtain s where
    s: "ResolveEffectiveWithContext lib target deps sv ctx now = Inr s" "schema_spec lib target ?E s" by blast
  from resolve_refines_spec [OF assms(2,3) [unfolded assms(1)]] obtain s' where
    s': "ResolveEffectiveWithContext lib target deps' sv ctx now = Inr s'" "schema_spec lib target ?E s'"
    unfolding assms(1) by blast
  from schema_spec_agree [OF s(2) s'(2)] s(1) s'(1) show ?thesis by (intro exI conjI allI impI) assumption+
qed

theorem resolution_order_irrelevant_witness:
  "\<exists>s s'. ResolveEffectiveWithContext ref_lib ref_target [ref_dep] (\<lambda>_. [red]) [] (at_utc 0) = Inr s \<and>
    ResolveEffectiveWithContext ref_lib ref_target [ref_dep, ref_dep] (\<lambda>_. [red]) [] (at_utc 0) = Inr s' \<and>
    es_Required s = es_Required s' \<and> es_RequiredEnforcement s = es_RequiredEnforcement s' \<and>
    es_Restricted s = es_Restricted s' \<and>
    (\<forall>v. wf_value ref_lib v \<longrightarrow> (effective_Check ref_lib s v = None \<longleftrightarrow> effective_Check ref_lib s' v = None))"
  by (rule resolution_order_irrelevant) (simp_all add: ref_dep_applies)

text \<open>Matching of a multi-valued source is monotone: a rule that matches on some of an entity's source values matches on
  all larger sets of values, and the empty set counts as an absent value.\<close>

theorem matching_monotone:
  assumes "sound_rule lib dt d" "list_all (source_value lib dt) vs" "list_all (source_value lib dt) ws"
    and "set vs \<subseteq> set ws" "MatchesAnyWithContext lib d vs ctx now = Inr True"
  shows "MatchesAnyWithContext lib d ws ctx now = Inr True"
  using assms by (rule matches_any_mono)

theorem matching_monotone_witness: "MatchesAnyWithContext ref_lib ref_dep [blue, red] [] (at_utc 0) = Inr True"
proof -
  have "MatchesAnyWithContext ref_lib ref_dep [red] [] (at_utc 0) = Inr True"
    by (simp add: MatchesAnyWithContext_def dep_matches_def cond_applies_def cond_Matches_def ref_cond_def ref_dep_def)
  from matching_monotone [OF ref_dep_sound(1) _ _ _ this, of "[blue, red]"] show ?thesis
    by (simp add: source_value_def)
qed

section \<open>Rules and completeness\<close>



text \<open>C9. Who changes a rule. An accepted call stores one rule and touches no other; the rule belongs to the caller's tenant, the caller
  may read and write its target, and may read its source unless the call archives the rule. A call on a stored rule never moves it to another
  tenant, source or target; a new rule joins attributes of the caller's tenant whose types are equal or one an ancestor of the other.\<close>

theorem rule_change_authorised:
  assumes "rule_call cx rp deps'" "cx_tenant cx \<noteq> []"
  shows "\<exists>d source target. deps' = depRepo_Save (rp_deps rp) d \<and> dep_tenantID d = cx_tenant cx \<and>
    attrRepo_Get (rp_attrs rp) (dep_targetID d) = Inr target \<and>
    CanRead (cx_access cx) (ad_internalName target) \<and> CanWrite (cx_access cx) (ad_internalName target) \<and>
    (dep_archivedAt d = None \<longrightarrow> attrRepo_Get (rp_attrs rp) (dep_sourceID d) = Inr source \<and> CanRead (cx_access cx) (ad_internalName source)) \<and>
    (case depRepo_Get (rp_deps rp) (dep_id d) of
       Inr d0 \<Rightarrow> dep_tenantID d0 = cx_tenant cx \<and> dep_sourceID d = dep_sourceID d0 \<and> dep_targetID d = dep_targetID d0
     | Inl _ \<Rightarrow> ad_tenantID source = cx_tenant cx \<and> ad_tenantID target = cx_tenant cx \<and>
         (ad_typeDefinitionID source = ad_typeDefinitionID target \<or> on_chain rp source target \<or> on_chain rp target source))"
  using assms by (rule rule_call_authorised)

theorem rule_change_authorised_witness:
  "\<exists>d. ref_rules = depRepo_Save [] d \<and> dep_tenantID d = ''acme'' \<and> attrRepo_Get ref_attrs3 (dep_targetID d) \<noteq> Inl (NewNotFound attr_AggregateType)"
  using rule_change_authorised [OF ref_rule_call] by fastforce

text \<open>C10. The derived views reveal nothing hidden: the effective schema of an attribute, the completeness of an entity and the completeness
  report of a type are functions of the rows the caller may read. Adding, removing or changing values of unreadable attributes leaves the first two as they
  are; changing such values, differently on every page of the sweep, leaves the report as it is, identifiers, counts, flags and the
  average included.\<close>

theorem rule_views_hide_unreadable:
  assumes "inj (cx_idString cx)" "\<not> Admin (cx_access cx)"
    and "visible_rows (cx_access cx) (rp_attrs rp) s = visible_rows (cx_access cx) (rp_attrs rp) s'"
  shows "DepEffectiveSchema cx rp s rawA rawE = DepEffectiveSchema cx rp s' rawA rawE \<and>
    Completeness cx rp s rawT rawE = Completeness cx rp s' rawT rawE \<and>
    TypeCompleteness cx timeKey rp (\<lambda>i. rewrite_hidden (cx_access cx) (rp_attrs rp) (h i) (stores i)) rawT =
      TypeCompleteness cx timeKey rp stores rawT"
  using DepEffectiveSchema_hides [OF assms] Completeness_hides [OF assms] TypeCompleteness_hides [OF assms(1,2)] by auto

theorem rule_views_hide_unreadable_witness:
  "Completeness ref_guest ref_query_repos (ref_rows ''ann'') ''1'' ''e1'' = Completeness ref_guest ref_query_repos [ref_row 200 5 red] ''1'' ''e1''"
  using rule_views_hide_unreadable [of ref_guest ref_query_repos "ref_rows ''ann''" "[ref_row 200 5 red]"] by (simp add: ref_hidden_rows)

text \<open>C11. A completeness answer is exact. It counts the attributes of the schema that the write gate also walks, each once, that the caller
  may read and that are required for the entity as the caller sees it; it counts those that hold a value, and lists every other one, in the order of
  group and name. The counts add up, and the score, a float64 quotient, is at least one exactly when nothing is missing: rounding never makes an
  incomplete entity complete.\<close>

theorem completeness_exact:
  assumes "Completeness cx rp s rawT rawE = Inr out"
  shows "\<exists>ty filled as. cx_parseID cx rawT = Inr ty \<and> entityFilled cx rp s (cx_tenant cx) ty (cp_EntityID out) = Inr filled \<and>
    gateSchema cx rp ty = Inr as \<and> distinct (map ad_id as) \<and> report_of cx rp filled (demanded cx rp filled as) out"
proof -
  from assms obtain ty e t filled where c: "cx_parseID cx rawT = Inr ty" "own_type cx rp ty = Inr t"
      "entityFilled cx rp s (td_tenantID t) ty e = Inr filled" "scoreEntity cx rp t e filled = Inr out"
    by (auto simp: Completeness_def rbind_Inr as_validation_Inr)
  then have t: "types_get rp ty = Inr t" "td_tenantID t = cx_tenant cx"
    by (auto simp: own_type_def rbind_Inr rguard_Inr EnsureTenant_def split: if_splits)
  from scoreEntity_report [OF c(4)] obtain chain as where "Chain (types_get rp) t = Inr chain" "gate_chain (list_all_for cx rp) {} chain = Inr as"
    "distinct (map ad_id as)" "report_of cx rp filled (demanded cx rp filled as) out" "cp_EntityID out = e" by metis
  then show ?thesis using c t by (auto simp: gateSchema_def)
qed

theorem completeness_exact_witness:
  "\<exists>out v. Completeness (ref_cx 0) ref_repos ref_bare ''1'' ''e1'' = Inr out \<and> length (cp_Missing out) = 2 \<and> cp_Score out = FFin v \<and> v < 1"
proof -
  from ref_score obtain out where out: "Completeness (ref_cx 0) ref_repos ref_bare ''1'' ''e1'' = Inr out" "cp_Required out = 2" "cp_Filled out = 0"
    by (auto split: sum.splits)
  with completeness_exact [OF out(1)] show ?thesis by (auto simp: report_of_def)
qed







section \<open>Relationships\<close>



section \<open>Change-sets\<close>

text \<open>C34. Separation of duties under every interleaving of requests: a stored change-set that requires approval and is
  approved, publishing or published has an identified approver who is not its author.\<close>

theorem approval_by_another:
  assumes "cs_reaches parseID idString getMany applier (cs_init w) x" "cs_find (sys_store x) k = Some c"
    and "cs_RequireApproval c" "cs_State c \<in> {StateApproved, StatePublishing, StatePublished}"
  shows "cs_Approver c \<noteq> [] \<and> cs_Approver c \<noteq> cs_Author c"
  using reachable_inv [OF assms(1)] assms(2-4) by (auto simp: sys_inv_def stored_ok_def approved_ok_def)

theorem approval_by_another_witness: "cs_Approver ref_published \<noteq> [] \<and> cs_Approver ref_published \<noteq> cs_Author ref_published"
proof -
  from ref_published_run obtain x where x: "ref_reaches (cs_init []) x" "sys_store x = [ref_published]" by blast
  show ?thesis
    by (rule approval_by_another [OF x(1), of 40])
       (simp_all add: x(2) cs_find_def ref_published_def ref_claimed_def ref_approved_def ref_review_def ref_filled_def ref_draft_def)
qed

text \<open>What was reviewed is what publishes: along any run, a set that requires approval and has left draft never returns to
  draft and keeps its mutations (up to erased values); a published set never changes again; a rejected set
  stays rejected; versions never decrease and author, tenant and the approval rule are fixed.\<close>

theorem review_is_final:
  assumes "cs_reaches parseID idString getMany applier (cs_init w) x" "cs_reaches parseID idString getMany applier x y"
    and "cs_find (sys_store x) k = Some c"
  shows "\<exists>d. cs_find (sys_store y) k = Some d \<and> cs_Version c \<le> cs_Version d \<and> cs_Author d = cs_Author c \<and>
    cs_TenantID d = cs_TenantID c \<and> cs_RequireApproval d = cs_RequireApproval c \<and>
    (cs_RequireApproval c \<and> cs_State c \<noteq> StateDraft \<longrightarrow>
       cs_State d \<noteq> StateDraft \<and> map mu_skeleton (cs_Mutations d) = map mu_skeleton (cs_Mutations c)) \<and>
    (cs_State c = StatePublished \<longrightarrow> skel d = skel c) \<and> (cs_State c = StateRejected \<longrightarrow> cs_State d = StateRejected)"
  using reaches_moves [OF assms] by (auto simp: moves_to_def)

theorem review_is_final_witness:
  "\<exists>x d. ref_reaches (cs_init []) x \<and> cs_find (sys_store x) 40 = Some d \<and> cs_Version ref_published \<le> cs_Version d"
proof -
  from ref_published_run obtain x where x: "ref_reaches (cs_init []) x" "sys_store x = [ref_published]" by blast
  have "cs_find (sys_store x) 40 = Some ref_published" unfolding x(2) by code_simp
  from review_is_final [OF x(1) rtranclp.rtrancl_refl this] x(1) show ?thesis by blast
qed



text \<open>C36. A live publish claim is exclusive: while a stored set is publishing, every edit from any copy that a request holds
  is refused, and so is every further claim until the claim is fifteen minutes old.\<close>

theorem live_claim_is_exclusive:
  assumes "cs_reaches parseID idString getMany applier (cs_init w) x" "c \<in> sys_reads x"
    and "cs_find (sys_store x) (cs_ID c) = Some st" "cs_State st = StatePublishing"
  shows "(\<forall>e now. \<exists>err. write_edit (sys_store x) c (edit_fn parseID idString getMany e) now = Inl err) \<and>
    (\<forall>t0 t1. t0 - cs_UpdatedAt st < PublishClaimTTL \<longrightarrow> (\<exists>err. publish_claim (sys_store x) c t0 t1 = Inl err))"
  using live_claim_excludes [OF assms] by blast

theorem live_claim_is_exclusive_witness: "\<exists>err. publish_claim [ref_claimed] ref_approved 6 7 = Inl err"
proof -
  from ref_claimed_run obtain x where x: "ref_reaches (cs_init []) x" "sys_store x = [ref_claimed]" "ref_approved \<in> sys_reads x"
    by blast
  have "cs_find (sys_store x) (cs_ID ref_approved) = Some ref_claimed" "cs_State ref_claimed = StatePublishing"
      "6 - cs_UpdatedAt ref_claimed < PublishClaimTTL"
    unfolding x(2) by code_simp+
  with live_claim_is_exclusive [OF x(1,3)] x(2) show ?thesis by metis
qed

text \<open>C37. No lost update: an edit that the store accepts was computed from the record it replaces (up to erased values), and
  once a write from some version has landed, no write from that version or an older one is accepted ever
  again, whatever is written in between.\<close>

theorem no_lost_update:
  assumes "cs_reaches parseID idString getMany applier (cs_init w) x" "c \<in> sys_reads x"
    and "write_edit (sys_store x) c (edit_fn parseID idString getMany e) now = Inr (s', d)"
    and "mem_cas.writes s' s''" "cs_ID c' = cs_ID c" "cs_Version c' \<le> cs_Version c"
  shows "(\<exists>st. cs_find (sys_store x) (cs_ID c) = Some st \<and> skel st = skel c) \<and>
    (\<exists>err. changesetStore_Update s'' c' = Inl err)"
proof -
  from assms(3) obtain n where n: "edit_fn parseID idString getMany e c = Inr n"
      and u: "changesetStore_Update (sys_store x) (n\<lparr>cs_UpdatedAt := now\<rparr>) = Inr s'"
    by (auto simp: write_edit_def Let_def split: sum.splits)
  from mem_cas.stale_refused [OF u assms(4), of c'] edit_fn_moves(3,4) [OF n] assms(5,6)
    edit_from_current [OF assms(1-3)] show ?thesis by simp
qed

theorem no_lost_update_witness: "\<exists>err. changesetStore_Update [ref_filled] ref_draft = Inl err"
proof -
  from ref_read_run obtain x where x: "ref_reaches (cs_init []) x" "sys_store x = [ref_draft]" "ref_draft \<in> sys_reads x" by blast
  have "write_edit (sys_store x) ref_draft
      (edit_fn ref_parse ref_id (attrRepo_GetMany ref_attrs) (EditAdd SystemAccess ref_mutation)) 1 = Inr ([ref_filled], ref_filled)"
    unfolding x(2) by code_simp
  from no_lost_update [OF x(1,3) this mem_cas.writes_done, of ref_draft] show ?thesis by simp
qed

text \<open>C38. A publish that nothing interrupts, from a current copy that passes the gate: if the mutations apply, the live data
  is the applied data and the set ends published; if they do not, the live data is as before, the error is
  returned and the set goes back to where it was (approved, if the publish took over a stale claim). The version
  moves by two in both cases.\<close>

theorem publish_applies_or_hands_back:
  assumes "cs_find s (cs_ID cs) = Some cs" "publish_gate cs t0 = None"
  shows "publish applier s w cs (t0, t1, t2) =
    (case applier (cs_TenantID cs) (cs_Mutations cs) w of
       Inr w' \<Rightarrow> (let d = cs\<lparr>cs_State := StatePublished, cs_PublishedAt := Some t2, cs_UpdatedAt := t2,
           cs_Version := cs_Version cs + 2\<rparr> in (cs_put d s, w', d, None))
     | Inl e \<Rightarrow> (let d = cs\<lparr>cs_State := (if cs_State cs = StatePublishing then StateApproved else cs_State cs),
           cs_UpdatedAt := t2, cs_Version := cs_Version cs + 2\<rparr> in (cs_put d s, w, d, Some e)))"
  using assms by (rule publish_uninterrupted)

theorem publish_applies_or_hands_back_witness:
  "fst (snd (publish ref_apply [ref_approved] [] ref_approved (4, 5, 6))) = [ref_mutation]"
proof -
  have "cs_find [ref_approved] (cs_ID ref_approved) = Some ref_approved" "publish_gate ref_approved 4 = None"
    by code_simp+
  from publish_applies_or_hands_back [OF this, of ref_apply "[]" 5 6] show ?thesis
    by (simp add: ref_apply_def Let_def ref_approved_def ref_review_def ref_filled_def)
qed

text \<open>C39. Reading a change-set under the field policy of the in-memory repository: every mutation stays in its place, and its value
  is shown exactly when its attribute identifier is the canonical form of an identifier in the set whose
  definition exists and that the caller may read (or the caller is an administrator).\<close>

theorem redaction_exact:
  assumes "inj idString"
  shows "\<exists>d. redact parseID idString (attrRepo_GetMany attrs) access cs = Inr d \<and>
    length (cs_Mutations d) = length (cs_Mutations cs) \<and>
    (\<forall>j < length (cs_Mutations cs). let m = cs_Mutations cs ! j in
       cs_Mutations d ! j =
         (if \<exists>m'\<in>set (cs_Mutations cs). \<exists>i. parseID (mu_AttributeDefinitionID m') = Inr i \<and>
               idString i = mu_AttributeDefinitionID m \<and>
               (Admin access \<or> (\<exists>a. attrRepo_Get attrs i = Inr a \<and> CanRead access (ad_internalName a)))
          then m else m\<lparr>mu_Value := RawNil, mu_Redacted := True\<rparr>))"
  using mem_attrs.redact_exact [OF assms, of parseID attrs access cs] unfolding mem_attrs.permitted_def by blast

theorem redaction_exact_witness:
  "\<exists>d. redact ref_parse ref_id (attrRepo_GetMany ref_attrs) DenyAll ref_published = Inr d \<and> length (cs_Mutations d) = 1"
  using redaction_exact [OF ref_id_laws(1), of ref_parse ref_attrs DenyAll ref_published]
  by (auto simp: ref_published_def ref_claimed_def ref_approved_def ref_review_def ref_filled_def)

text \<open>C40. An erasure is undone by a request that read before it: the eraser blanks the mutations of a set but leaves the version,
  so the write of an older copy is accepted and stores the erased values again.\<close>

theorem erasure_undone_by_older_copy:
  assumes "cs_find s (cs_ID c) = Some c" "cs_State c \<notin> {StatePublished, StatePublishing}"
  shows "\<exists>s2 d. write_edit (fst (RedactEntity s tenant entity)) c reject_fn now = Inr (s2, d) \<and>
    cs_find s2 (cs_ID c) = Some d \<and> cs_Mutations d = cs_Mutations c"
  using assms by (rule erased_values_return)

theorem erasure_undone_by_older_copy_witness:
  "map mu_Value (cs_Mutations (hd (fst (RedactEntity [ref_filled] ''acme'' ''e1'')))) = [RawNil] \<and>
   (\<exists>s2 d. write_edit (fst (RedactEntity [ref_filled] ''acme'' ''e1'')) ref_filled reject_fn 9 = Inr (s2, d) \<and>
      cs_Mutations d = [ref_mutation])"
proof
  show "map mu_Value (cs_Mutations (hd (fst (RedactEntity [ref_filled] ''acme'' ''e1'')))) = [RawNil]" by code_simp
  have "cs_find [ref_filled] (cs_ID ref_filled) = Some ref_filled" "cs_State ref_filled \<notin> {StatePublished, StatePublishing}"
    by code_simp+
  from erasure_undone_by_older_copy [OF this, of "''acme''" "''e1''" 9]
  show "\<exists>s2 d. write_edit (fst (RedactEntity [ref_filled] ''acme'' ''e1'')) ref_filled reject_fn 9 = Inr (s2, d) \<and>
      cs_Mutations d = [ref_mutation]"
    by (auto simp: ref_filled_def)
qed

section \<open>Stored values\<close>

text \<open>C1. The invariant of stored data under a changing schema, on every state that value calls (write, batch, mutations, removal,
  purge) and schema calls (create, update, archive and restore an attribute) of any principals and tenants reach in any
  order from any schema without values: row identifiers are distinct; an entity of a tenant has one type across all its rows; every
  row has a stored definition of its own tenant, pins no later version than the current one and satisfies it when it
  pins that; a live row has a locale or channel only where the definition allows one; two live rows of one
  entity in one slot (attribute, locale, channel) need a multi-valued attribute and differ; two live rows of different
  entities in one slot of a unique attribute differ.\<close>

theorem stored_rows_consistent:
  assumes "store_reachable lib attrs s"
  shows "distinct (map vs_ID s) \<and>
    (\<forall>x\<in>set s. \<forall>y\<in>set s. vs_TenantID x = vs_TenantID y \<and> vs_EntityID x = vs_EntityID y \<longrightarrow>
       vs_TypeDefinitionID x = vs_TypeDefinitionID y) \<and>
    (\<forall>x\<in>set s. \<exists>def. attrRepo_Get attrs (vs_AttributeDefinitionID x) = Inr def \<and>
       vs_TenantID x = ad_tenantID def \<and> vs_DefinitionVersion x \<le> ad_version def \<and>
       (vs_DefinitionVersion x = ad_version def \<longrightarrow> conforms lib def (av_Rehydrate x)) \<and>
       (vs_ArchivedAt x = None \<longrightarrow> (vs_Locale x = [] \<or> ad_localizable def) \<and> (vs_Channel x = [] \<or> ad_scopable def)) \<and>
       (\<forall>y\<in>set s. x \<noteq> y \<and> same_slot x y \<and> vs_ArchivedAt x = None \<and> vs_ArchivedAt y = None \<longrightarrow>
          (if vs_EntityID x = vs_EntityID y then ad_multiValued def \<and> \<not> Equal lib (vs_Value x) (vs_Value y)
           else ad_unique def \<longrightarrow> \<not> Equal lib (vs_Value x) (vs_Value y))))"
proof -
  note ok = store_reachable_ok [OF assms]
  show ?thesis
  proof (intro conjI ballI impI)
    fix x assume x: "x \<in> set s"
    from values_okD(2) [OF ok x] obtain def where def: "attrRepo_Get attrs (vs_AttributeDefinitionID x) = Inr def"
      "vs_TenantID x = ad_tenantID def" "vs_DefinitionVersion x \<le> ad_version def"
      "vs_DefinitionVersion x = ad_version def \<longrightarrow> conforms lib def (av_Rehydrate x)" "vs_ArchivedAt x = None \<longrightarrow> scope_fits def x"
      by (auto simp: row_ok_def)
    have "pair_ok lib attrs x y" if "y \<in> set s" "x \<noteq> y" for y using values_okD(3,4) [OF ok x that(1)] that(2) by blast
    with def show "\<exists>def. attrRepo_Get attrs (vs_AttributeDefinitionID x) = Inr def \<and>
       vs_TenantID x = ad_tenantID def \<and> vs_DefinitionVersion x \<le> ad_version def \<and>
       (vs_DefinitionVersion x = ad_version def \<longrightarrow> conforms lib def (av_Rehydrate x)) \<and>
       (vs_ArchivedAt x = None \<longrightarrow> (vs_Locale x = [] \<or> ad_localizable def) \<and> (vs_Channel x = [] \<or> ad_scopable def)) \<and>
       (\<forall>y\<in>set s. x \<noteq> y \<and> same_slot x y \<and> vs_ArchivedAt x = None \<and> vs_ArchivedAt y = None \<longrightarrow>
          (if vs_EntityID x = vs_EntityID y then ad_multiValued def \<and> \<not> Equal lib (vs_Value x) (vs_Value y)
           else ad_unique def \<longrightarrow> \<not> Equal lib (vs_Value x) (vs_Value y)))"
      unfolding scope_fits_def pair_ok_def by (intro exI [of _ def]) blast
  qed (use values_okD(1) [OF ok] one_anchor [OF ok] in blast)+
qed

theorem stored_rows_consistent_witness:
  "conforms ref_lib ref_attr (av_Rehydrate (ref_row 200 5 red)) \<and>
   distinct (map vs_ID [ref_row 100 6 blue, ref_row 200 5 red])"
proof -
  have get: "attrRepo_Get (rp_attrs ref_repos) (vs_AttributeDefinitionID (ref_row 200 5 red)) = Inr ref_attr"
    by (simp add: ref_repos_def ref_row_def attrRepo_Get_def attr_Snapshot_def attr_Rehydrate_def ref_attr_def ref_target_def)
  have version: "vs_DefinitionVersion (ref_row 200 5 red) = ad_version ref_attr" by (simp add: ref_row_def ref_attr_def)
  have "ref_row 200 5 red \<in> set [ref_row 100 6 blue, ref_row 200 5 red]" by simp
  with stored_rows_consistent [OF ref_stores(2)] get version show ?thesis by (metis sum.inject(2))
qed

text \<open>C3. Tenants are isolated: whatever a call of one tenant writes, batches, removes or purges on a reachable store, the rows of every
  other tenant are the same rows in the same order.\<close>

theorem tenants_isolated:
  assumes "store_reachable (cx_lib cx) (rp_attrs rp) s" "ids_fresh cx s" "value_call cx rp s s'"
  shows "filter (\<lambda>x. vs_TenantID x \<noteq> cx_tenant cx) s' = filter (\<lambda>x. vs_TenantID x \<noteq> cx_tenant cx) s"
  using value_call_keeps [OF assms(3) store_reachable_ok [OF assms(1)] assms(2)] by (simp add: others_def)

theorem tenants_isolated_witness:
  "filter (\<lambda>x. vs_TenantID x \<noteq> ''acme'') (fst (valueRepo_PurgeTenant [ref_row 100 6 blue, ref_row 200 5 red] ''acme'')) = []"
proof -
  have "ids_fresh (ref_cx 300) [ref_row 100 6 blue, ref_row 200 5 red]" by simp
  from tenants_isolated [of "ref_cx 300" ref_repos, simplified, OF ref_stores(2) _ call_PurgeTenant] this
  show ?thesis by (simp add: ref_row_def)
qed

text \<open>C2. An accepted write: the attribute exists in the caller's tenant; the caller may write it, or it is computed and the
  write is the service's own; no type of the entity's chain is archived and the attribute is part of that chain; the row the
  call reports is stored, live, in the slot of the write, and holds the decoded value or one equal to it; a
  single-valued attribute has no other live row in that slot.\<close>

theorem accepted_write:
  assumes "store_reachable (cx_lib cx) (rp_attrs rp) s" "ids_fresh cx s" "value_Set cx rp s inp = Inr (t, snap)"
  shows "\<exists>def e v. attrRepo_Get (rp_attrs rp) (vs_AttributeDefinitionID snap) = Inr def \<and> ParseEntityID (si_EntityID inp) = Inr e \<and>
    ad_tenantID def = cx_tenant cx \<and> vs_TenantID snap = cx_tenant cx \<and>
    (if IsComputed def then si_Internal inp else CanWrite (cx_access cx) (ad_internalName def)) \<and>
    checkTypeLive rp (vs_TypeDefinitionID snap) = Inr () \<and> checkInherited rp def (vs_TypeDefinitionID snap) = Inr () \<and>
    (\<exists>u. decodeValue cx rp u def inp = Inr v) \<and> (vs_Value snap = v \<or> Equal (cx_lib cx) (vs_Value snap) v) \<and>
    snap \<in> set (vt_values t) \<and> in_slot def e (write_scope inp) snap \<and>
    (ad_multiValued def \<or> (\<forall>y\<in>set (vt_values t). in_slot def e (write_scope inp) y \<longrightarrow> y = snap))"
proof -
  from assms(3) have "setWithin cx rp (begin_vtx s) inp = Inr (t, snap)" by (auto simp: value_Set_def rbind_Inr finish_Inr)
  then obtain defID e def v where w: "ParseEntityID (si_EntityID inp) = Inr e" "attrRepo_Get (rp_attrs rp) defID = Inr def" "ad_tenantID def = cx_tenant cx"
    "writeGuard cx def (si_Internal inp \<and> IsComputed def) = None" "checkTypeLive rp (vs_TypeDefinitionID snap) = Inr ()"
    "checkInherited rp def (vs_TypeDefinitionID snap) = Inr ()"
    "snap \<in> set (vt_values t)" "in_slot def e (write_scope inp) snap" "vs_TenantID snap = cx_tenant cx"
    "ad_multiValued def \<or> (\<forall>y\<in>set (vt_values t). in_slot def e (write_scope inp) y \<longrightarrow> y = snap)"
    "vs_Value snap = v \<or> Equal (cx_lib cx) (vs_Value snap) v" "\<exists>u. decodeValue cx rp u def inp = Inr v"
    by (rule setWithin_effect [OF begin_ok [OF store_reachable_ok [OF assms(1)] assms(2)]])
  have "attrRepo_Get (rp_attrs rp) (vs_AttributeDefinitionID snap) = Inr def"
    using w(2,8) mem_attrs.get_id [OF w(2)] by (simp add: in_slot_def)
  moreover have "if IsComputed def then si_Internal inp else CanWrite (cx_access cx) (ad_internalName def)"
    using w(4) by (auto simp: writeGuard_def split: if_splits)
  ultimately show ?thesis using w by blast
qed

theorem accepted_write_witness:
  "\<exists>t. value_Set (ref_cx 200) ref_repos [ref_row 100 6 blue] (ref_set ''5'' ''red'') = Inr (t, ref_row 200 5 red) \<and>
     ref_row 200 5 red \<in> set (vt_values t)"
proof -
  from ref_writes(2) obtain t where "value_Set (ref_cx 200) ref_repos [ref_row 100 6 blue] (ref_set ''5'' ''red'') = Inr (t, ref_row 200 5 red)"
    by (auto split: sum.splits)
  moreover from accepted_write [of "ref_cx 200" ref_repos, OF _ _ this] ref_stores(1) have "ref_row 200 5 red \<in> set (vt_values t)" by auto
  ultimately show ?thesis by blast
qed



text \<open>The guard against archived types has no exemption: a write of a computed attribute by the materializer (\<^verbatim>\<open>Internal\<close>) on
  an entity whose type chain has an archived type is refused like any other, although the comment above the
  guard says the materializer is exempt so that derived values of a type being wound down can still be rewritten.\<close>

theorem materializer_not_exempt:
  assumes "cx_parseID cx (si_AttributeDefinitionID inp) = Inr defID" "ParseEntityID (si_EntityID inp) = Inr e"
    and "si_Value inp \<noteq> RawNil" "si_Value inp \<noteq> Raw JNull" "si_Internal inp"
    and "attrRepo_Get (rp_attrs rp) defID = Inr def" "ad_tenantID def = cx_tenant cx" "IsComputed def"
    and "resolveEntityType cx rp (vt_values t) def e (si_TypeDefinitionID inp) = Inr (s, ty)"
    and "checkInherited rp def ty = Inr ()" "types_get rp ty = Inr td" "Chain (types_get rp) td = Inr chain"
    and "link \<in> set chain" "type_IsArchived link"
  shows "setWithin cx rp t inp = Inl (NewArchived type_AggregateType)"
  using assms by (intro archived_refused)

theorem materializer_not_exempt_witness:
  "setWithin (ref_cx 200) ref_retired (begin_vtx []) ((ref_set ''5'' ''red'')\<lparr>si_Internal := True\<rparr>) = Inl (NewArchived type_AggregateType)"
proof (rule materializer_not_exempt)
  show "cx_parseID (ref_cx 200) (si_AttributeDefinitionID ((ref_set ''5'' ''red'')\<lparr>si_Internal := True\<rparr>)) = Inr 5"
    "ParseEntityID (si_EntityID ((ref_set ''5'' ''red'')\<lparr>si_Internal := True\<rparr>)) = Inr ''e1''" by code_simp+
  show "attrRepo_Get (rp_attrs ref_retired) 5 = Inr ref_total" "IsComputed ref_total"
    by (simp_all add: ref_retired_def attrRepo_Get_def attr_snapshot_round IsComputed_def ref_total_def) (simp add: attr_Snapshot_def ref_attr_def)
  show "resolveEntityType (ref_cx 200) ref_retired (vt_values (begin_vtx [])) ref_total ''e1''
      (si_TypeDefinitionID ((ref_set ''5'' ''red'')\<lparr>si_Internal := True\<rparr>)) = Inr ([], 1)" by code_simp
  show "types_get ref_retired 1 = Inr ref_old_type" "Chain (types_get ref_retired) ref_old_type = Inr [ref_old_type]" "type_IsArchived ref_old_type" by code_simp+
qed (simp_all add: ref_set_def ref_total_def ref_attr_def checkInherited_def)

section \<open>Revisions\<close>

text \<open>C99. A restore brings the captured values back. A revision is captured by one principal; whatever is written, removed or purged before
  another principal of the tenant restores it, after an accepted restore the live values of the entity are those of the capture: the same
  attributes in the same locales and channels with values of the same equality key, none missing and none left over. The stores are reachable ones whose values fit their
  attributes; media and quantities, which are adopted and converted anew when they are written, are left out. The restore itself is recorded as the next revision.\<close>

theorem restore_brings_back:
  assumes "codec_laws lib" "cx_lib cx0 = lib" "cx_lib cx = lib" "cx_idString cx0 = cx_idString cx" "rp_attrs rp0 = rp_attrs rp"
    and "\<And>i. cx_parseID cx (cx_idString cx i) = Inr i" "ParseEntityID rawE = Inr e"
    and "store_reachable lib (rp_attrs rp) s0" "store_reachable lib (rp_attrs rp) s" "ids_fresh cx s"
    and "\<forall>x\<in>set s0. entity_row (cx_tenant cx) e x \<longrightarrow> row_fits lib (rp_attrs rp) x \<and> plain (vs_Value x)"
    and "\<forall>x\<in>set s. row_fits lib (rp_attrs rp) x"
    and "RevCreate cx0 rp0 s0 revs0 rawT rawE label id0 now0 = Inr (revs1, r)" "rev_get cx revs raw = Inr r"
    and "RevRestore cx jt rp s revs raw newid now = (s', revs', Inr r')" "newid \<notin> rvn_ID ` set revs"
  shows "live_keys lib (cx_tenant cx) e s' = live_keys lib (cx_tenant cx) e s0 \<and> revs' = revs @ [r'] \<and>
    snapshotValues cx rp s' (rvn_TenantID r') rawE = Inr (rvn_Values r')"
proof (intro conjI)
  show "live_keys lib (cx_tenant cx) e s' = live_keys lib (cx_tenant cx) e s0"
    by (rule restore_round [OF assms(1-6) assms(13,7) store_reachable_ok [OF assms(8)] assms(11,14,15) store_reachable_ok [OF assms(9)] assms(10,12)])
  obtain t ty where t: "RevCreate cx rp s' revs ty (rvn_EntityID r) (''restored from revision '' @ itoa (rvn_Seq r)) newid now = Inr (revs', r')"
    by (rule RevRestore_steps [OF assms(15,14)])
  show "revs' = revs @ [r']" using RevCreate_run [OF t assms(16)] by blast
  show "snapshotValues cx rp s' (rvn_TenantID r') rawE = Inr (rvn_Values r')"
    using RevCreate_captured [OF t] RevCreate_captured(2) [OF assms(13)] by simp
qed

theorem restore_brings_back_witness:
  "case RevRestore (ref_cx 300) ref_json ref_repos [ref_row 100 6 blue] [ref_revision] ''80'' 81 20 of
     (s', revs', Inl _) \<Rightarrow> False
   | (s', revs', Inr r') \<Rightarrow> live_keys ref_lib ''acme'' ''e1'' s' = live_keys ref_lib ''acme'' ''e1'' ref_both \<and> revs' = [ref_revision, r']"
proof -
  from ref_restore obtain s' revs' r' where run:
    "RevRestore (ref_cx 300) ref_json ref_repos [ref_row 100 6 blue] [ref_revision] ''80'' 81 20 = (s', revs', Inr r')"
    by (auto split: prod.splits sum.splits)
  have "ParseEntityID ''e1'' = Inr ''e1''" "81 \<notin> rvn_ID ` set [ref_revision]" by code_simp+
  moreover have "\<forall>x\<in>set [ref_row 100 6 blue]. row_fits ref_lib (rp_attrs ref_repos) x" using ref_rows_fit by (simp add: ref_both_def)
  ultimately have "live_keys ref_lib (cx_tenant (ref_cx 300)) ''e1'' s' = live_keys ref_lib (cx_tenant (ref_cx 300)) ''e1'' ref_both \<and> revs' = [ref_revision] @ [r'] \<and>
      snapshotValues (ref_cx 300) ref_repos s' (rvn_TenantID r') ''e1'' = Inr (rvn_Values r')"
    by (intro restore_brings_back [OF _ _ _ _ _ _ _ _ _ _ _ _ ref_capture ref_revision_read run])
      (use ref_rows_fit ref_stores in \<open>simp_all add: ref_both_def\<close>)
  then show ?thesis by (simp add: run)
qed

text \<open>C99. The history of an entity, after any sequence of captures, restores and purges that run one after another: identifiers are distinct; the list of an
  entity, newest first, is numbered from the count of its revisions down to one, and does not depend on the order in which the map of the
  store is iterated; a point-in-time read answers with exactly the revision of the highest number among those taken by then; a capture appends
  one revision and changes none.\<close>

theorem revision_history_sound:
  assumes "rev_history revs"
  shows "distinct (map rvn_ID revs) \<and>
    rev (map rvn_Seq (forEntity revs ten e)) = [1..int (length (forEntity revs ten e))] \<and>
    (\<forall>revs'. mset revs' = mset revs \<longrightarrow> forEntity revs' ten e = forEntity revs ten e) \<and>
    (\<forall>instant r. revisionStore_AsOf revs ten e instant = Inr r \<longleftrightarrow> r \<in> set revs \<and> of_entity ten e r \<and> rvn_CreatedAt r \<le> instant \<and>
       (\<forall>x\<in>set revs. of_entity ten e x \<and> rvn_CreatedAt x \<le> instant \<longrightarrow> rvn_Seq x \<le> rvn_Seq r)) \<and>
    (\<forall>cx rp s rawT rawE label newid now revs' r. newid \<notin> rvn_ID ` set revs \<and> RevCreate cx rp s revs rawT rawE label newid now = Inr (revs', r) \<longrightarrow>
       revs' = revs @ [r] \<and> snapshotValues cx rp s (rvn_TenantID r) rawE = Inr (rvn_Values r))"
proof -
  have n: "distinct (map rvn_ID revs)" "numbered revs ten e" using history_numbered [OF assms] by blast+
  show ?thesis
  proof (intro conjI allI impI)
    fix cx rp s rawT rawE label newid now revs' r
    assume a: "newid \<notin> rvn_ID ` set revs \<and> RevCreate cx rp s revs rawT rawE label newid now = Inr (revs', r)"
    then show "revs' = revs @ [r]" using RevCreate_run [of cx rp s revs rawT rawE label newid now revs' r] by simp
    from a show "snapshotValues cx rp s (rvn_TenantID r) rawE = Inr (rvn_Values r)" using RevCreate_captured(1) by blast
  next
    fix revs' assume "mset revs' = mset revs"
    with forEntity_order [OF n(2)] show "forEntity revs' ten e = forEntity revs ten e" .
  next
    fix instant r
    show "revisionStore_AsOf revs ten e instant = Inr r \<longleftrightarrow> r \<in> set revs \<and> of_entity ten e r \<and> rvn_CreatedAt r \<le> instant \<and>
       (\<forall>x\<in>set revs. of_entity ten e x \<and> rvn_CreatedAt x \<le> instant \<longrightarrow> rvn_Seq x \<le> rvn_Seq r)" by (rule AsOf_iff [OF n(2)])
  qed (fact n(1), fact forEntity_seqs [OF n(2)])
qed

theorem revision_history_sound_witness:
  "rev (map rvn_Seq (forEntity [ref_revision] ''acme'' ''e1'')) = [1..int (length (forEntity [ref_revision] ''acme'' ''e1''))] \<and>
   revisionStore_AsOf [ref_revision] ''acme'' ''e1'' 12 = Inr ref_revision"
proof -
  have "of_entity ''acme'' ''e1'' ref_revision" "rvn_CreatedAt ref_revision \<le> 12" by code_simp+
  with revision_history_sound [OF ref_history, of "''acme''" "''e1''"] show ?thesis by simp
qed

text \<open>C99. Captures of one entity that run at the same time collide in the in-memory store. \<^verbatim>\<open>LockEntitySeq\<close> does nothing there; its comment says that one mutex keeps
  the allocation and the insert of two writers apart, but the store releases the mutex in between. Two captures that allocate before either
  inserts get the same number, and a point-in-time read then answers with one or the other, by the order in which the map is iterated.\<close>

theorem concurrent_captures_collide:
  assumes "rev_history revs" "id1 \<notin> rvn_ID ` set revs" "id2 \<notin> rvn_ID ` set revs" "id1 \<noteq> id2" "n1 \<le> instant" "n2 \<le> instant"
    and "r1 = rev_allocate revs ten ty1 e l1 vs1 id1 n1" "r2 = rev_allocate revs ten ty2 e l2 vs2 id2 n2"
  shows "rvn_Seq r1 = rvn_Seq r2 \<and>
    (\<exists>s1 s2. mset s1 = mset (revisionStore_Create r2 (revisionStore_Create r1 revs)) \<and> mset s2 = mset s1 \<and>
       revisionStore_AsOf s1 ten e instant = Inr r1 \<and> revisionStore_AsOf s2 ten e instant = Inr r2)"
proof -
  have "rvn_ID r1 = id1" "rvn_ID r2 = id2" by (simp_all add: assms(7,8) rev_allocate_def)
  then have "revisionStore_Create r2 (revisionStore_Create r1 revs) = revs @ [r1, r2]"
    using Create_fresh [of r1 revs] Create_fresh [of r2 "revs @ [r1]"] assms(2-4) by auto
  then have "mset (r1 # r2 # revs) = mset (revisionStore_Create r2 (revisionStore_Create r1 revs))" by simp
  moreover have "mset (r2 # r1 # revs) = mset (r1 # r2 # revs)" by simp
  ultimately show ?thesis using captures_collide [OF assms(1,7,8,5,6)] by blast
qed

theorem concurrent_captures_collide_witness:
  "rvn_Seq (rev_allocate [ref_revision] ''acme'' ''1'' ''e1'' ''a'' [] 81 20) = rvn_Seq (rev_allocate [ref_revision] ''acme'' ''1'' ''e1'' ''b'' [] 82 21)"
proof -
  have "81 \<notin> rvn_ID ` set [ref_revision]" "82 \<notin> rvn_ID ` set [ref_revision]" by code_simp+
  from concurrent_captures_collide [OF ref_history this _ _ _ refl refl, of 20 30 21] show ?thesis by simp
qed

text \<open>C99. A restore archives values that its principal may not write. The comment on \<^verbatim>\<open>get\<close> says that a restore enforces write permission per attribute, and the values it
  sets are checked; the values it archives are not. A principal without write access to an attribute is refused when it removes the value, and
  removes it by restoring a revision that was taken before the value existed.\<close>

theorem restore_archives_unwritable:
  "\<not> CanWrite (cx_access ref_guest) ''owner'' \<and>
   (case value_Remove ref_guest ref_query_repos (ref_rows ''ann'') ''201'' of Inl e \<Rightarrow> CodeOf e = Some CodeForbidden | Inr _ \<Rightarrow> False) \<and>
   RevCreate (ref_cx 0) ref_query_repos [ref_row 200 5 red] [] ''1'' ''e1'' ''v1'' 80 10 = Inr ([ref_plain_revision], ref_plain_revision) \<and>
   (case RevRestore ref_guest ref_json ref_query_repos (ref_rows ''ann'') [ref_plain_revision] ''80'' 81 20 of
      (s', _, Inr _) \<Rightarrow> map (\<lambda>x. (vs_ID x, vs_AttributeDefinitionID x, vs_ArchivedAt x \<noteq> None)) s' = [(200, 5, False), (201, 7, True)]
    | _ \<Rightarrow> False)"
  using ref_guest_removes by blast

text \<open>C99. The difference of two revisions does not depend on the order in which maps are iterated, although its two loops run over maps: every order gives the same list.
  It is empty exactly when both revisions, as the principal may read them, show the same set of values for every attribute, locale and channel.\<close>

theorem diff_exact:
  assumes "\<And>ks. mset (order ks) = mset ks"
  shows "RevDiff order cx rp revs rawFrom rawTo = RevDiff (\<lambda>ks. ks) cx rp revs rawFrom rawTo \<and>
    (\<forall>from to. RevGet cx rp revs rawFrom = Inr from \<and> RevGet cx rp revs rawTo = Inr to \<longrightarrow>
       (\<exists>out. RevDiff order cx rp revs rawFrom rawTo = Inr out \<and> dif_FromSeq out = rvn_Seq from \<and> dif_ToSeq out = rvn_Seq to \<and>
          (dif_Changes out = [] \<longleftrightarrow>
             (\<forall>k. rv_Value ` set (groupByScope (rvn_Values from) k) = rv_Value ` set (groupByScope (rvn_Values to) k)))))"
proof -
  have "RevDiff order cx rp revs rawFrom rawTo = RevDiff (\<lambda>ks. ks) cx rp revs rawFrom rawTo"
    unfolding RevDiff_def diff_order [OF assms] by (rule refl)
  moreover have "\<exists>out. RevDiff order cx rp revs rawFrom rawTo = Inr out \<and> dif_FromSeq out = rvn_Seq from \<and> dif_ToSeq out = rvn_Seq to \<and>
      (dif_Changes out = [] \<longleftrightarrow> (\<forall>k. rv_Value ` set (groupByScope (rvn_Values from) k) = rv_Value ` set (groupByScope (rvn_Values to) k)))"
    if "RevGet cx rp revs rawFrom = Inr from" "RevGet cx rp revs rawTo = Inr to" for "from" to
    by (simp add: RevDiff_def that diff_empty [OF assms])
  ultimately show ?thesis by blast
qed

theorem diff_exact_witness:
  "\<exists>out. RevDiff rev (ref_cx 300) ref_repos [ref_revision] ''80'' ''80'' = Inr out \<and> dif_Changes out = []"
proof -
  have "RevGet (ref_cx 300) ref_repos [ref_revision] ''80'' = Inr ref_revision" by code_simp
  with diff_exact [of rev "ref_cx 300" ref_repos "[ref_revision]" "''80''" "''80''", OF mset_rev] show ?thesis by blast
qed

text \<open>A revision that holds a value of an attribute that is computed, or has become so, can never be restored: the write path takes computed values from the
  materializer only, and the restore as a whole is refused.\<close>

theorem restore_refuses_computed:
  assumes "rev_get cx revs raw = Inr r" "v \<in> set (rvn_Values r)" "cx_parseID cx (rv_AttributeDefinitionID v) = Inr i"
    and "attrRepo_Get (rp_attrs rp) i = Inr def" "IsComputed def"
  shows "\<exists>err. RevRestore cx jt rp s revs raw newid now = (s, revs, Inl err)"
  by (rule computed_restore_refused [OF assms])

theorem restore_refuses_computed_witness:
  "\<exists>err. RevRestore (ref_cx 300) ref_json ref_now_computed ref_both [ref_revision] ''80'' 81 20 = (ref_both, [ref_revision], Inl err)"
proof -
  from ref_computed_value(2) obtain v where v: "v \<in> set (rvn_Values ref_revision)" "rv_AttributeDefinitionID v = ''5''" by (auto simp: list_ex_iff)
  have "cx_parseID (ref_cx 300) (rv_AttributeDefinitionID v) = Inr 5" using v(2) ref_computed_value(3) by simp
  from restore_refuses_computed [OF ref_revision_read v(1) this ref_now_total ref_computed_value(1)] show ?thesis .
qed

section \<open>Transactions\<close>

text \<open>C14. A rolled-back transaction leaves nothing behind, whatever runs beside it: in every interleaving of the operations of open
  transactions on the in-memory store in which the transactions beside it touch other rows than it does, a
  transaction that ended without a commit can be deleted from the run without a trace in the rows or the media-key locks.\<close>

theorem rolled_back_leaves_no_rows:
  assumes "mem_run as (idle s) = Some (s', js')" "js' t = None"
    and "\<forall>a\<in>set as. if tx_of a = t then act_keys a \<subseteq> K \<and> a \<noteq> TxCommit t else act_keys a \<inter> K = {}"
  shows "\<exists>s2 js2. mem_run (filter (\<lambda>a. tx_of a \<noteq> t) as) (idle s) = Some (s2, js2) \<and>
      rows s' = rows s2 \<and> mediaKeyHeld s' = mediaKeyHeld s2"
  using assms by (rule rollback_leaves_no_rows)

theorem rolled_back_leaves_no_rows_witness:
  "\<exists>s' js'. mem_run [TxBegin 1, TxWrite 1 collValues ''a'' (Some red), TxBegin 2, TxWrite 2 collValues ''b'' (Some blue), TxCommit 2,
      TxRollback 1] (idle \<lparr>rows = (\<lambda>_ _. None), activities = ([] :: nat list), mediaKeyHeld = {}\<rparr>) = Some (s', js') \<and>
    rows s' collValues ''a'' = None \<and> rows s' collValues ''b'' = Some blue"
proof -
  let ?as = "[TxBegin 1, TxWrite 1 collValues ''a'' (Some red), TxBegin 2, TxWrite 2 collValues ''b'' (Some blue), TxCommit 2, TxRollback 1]"
  let ?s = "\<lparr>rows = (\<lambda>_ _. None), activities = ([] :: nat list), mediaKeyHeld = {}\<rparr>"
  obtain s' js' where r: "mem_run ?as (idle ?s) = Some (s', js')" "js' 1 = None"
    by (simp add: idle_def repo_write_def captureMap_def newUndoJournal_def Let_def)
  have "\<forall>a\<in>set ?as. if tx_of a = 1 then act_keys a \<subseteq> {(collValues, ''a'')} \<and> a \<noteq> TxCommit 1 else act_keys a \<inter> {(collValues, ''a'')} = {}"
    by simp
  from rolled_back_leaves_no_rows [OF r this] r(1) show ?thesis
    by (auto simp: idle_def repo_write_def captureMap_def newUndoJournal_def releaseMediaKeys_def row_put_def Let_def)
qed

text \<open>C18. Where two transactions meet, a rollback takes committed work with it: the undo of the log is the whole
  log as the transaction first found it, and the undo of a row is the row as it first found it. Entries and rows that
  another transaction has committed since are gone, while the package comment says that a rollback leaves the committed
  writes of an interleaved transaction intact.\<close>

theorem rollback_drops_committed_work:
  "\<exists>s1 s2 js1 js2.
     mem_run [TxBegin 1, TxLog 1 es, TxBegin 2, TxLog 2 es', TxCommit 2, TxRollback 1] (idle s) = Some (s1, js1) \<and>
     activities s1 = activities s \<and>
     mem_run [TxBegin 1, TxWrite 1 collValues i v, TxBegin 2, TxWrite 2 collValues i v', TxCommit 2, TxRollback 1] (idle s) = Some (s2, js2) \<and>
     rows s2 collValues i = rows s collValues i"
  by (simp add: idle_def activityLog_Write_def captureActivities_def repo_write_def captureMap_def newUndoJournal_def Let_def
      releaseMediaKeys_def store_rollback_def row_put_def)



section \<open>Sweeps\<close>



section \<open>Queries\<close>

text \<open>C19. Parsing a query always answers, whatever bytes it is given: the recursion never runs out of fuel, an error points into
  the text, and a tree comes from a text within the length limit, has its positions inside the text and is at most
  three levels high for every level of nesting the parser allows.\<close>

theorem fql_parser_total_and_bounded:
  "\<exists>r. fql_Parse s = Some r \<and>
     (case r of Inl e \<Rightarrow> err_Pos e \<le> length s
      | Inr node \<Rightarrow> node_wf (length s) node \<and> height node \<le> 3 * maxParseDepth \<and> length s \<le> maxQueryLen)"
  using fql_Parse_ok [of s] by (auto split: option.splits)

text \<open>C5. Field-level access holds in queries: run two databases side by side that differ only in the values of attributes the
  principal may not read, with the search index rebuilt from each. Every query of the principal, full-text search,
  negation, aggregates and traversals included, then gets the same answer, page and cursor from both.\<close>

theorem query_hides_unreadable:
  assumes "float_parse_finite (cx_lib cx)" "known_levels (cx_access cx)"
    and "twins (cx_lib cx) (cx_idString cx) (cx_access cx) (rp_attrs rp) d e"
  shows "query_Execute cx ul timeKey rp defs searchIndex e inp = query_Execute cx ul timeKey rp defs searchIndex d inp"
  using twins_view [OF assms(2,3)] assms(1) by (rule Execute_view)

theorem query_hides_unreadable_witness:
  "query_Execute ref_guest ref_text (\<lambda>_. []) ref_query_repos [] True (ref_db ''bob'') (ref_query ''colour = red and matches('red')'') =
     Inr ([\<lparr>rr_EntityID = ''e1'', rr_TypeDefinitionID = ''1'', rr_ValueCount = 2, rr_LastUpdatedAt = 0\<rparr>],
       \<lparr>HasNextPage = False, HasPreviousPage = False, NextCursor = None, TotalCount = None\<rparr>) \<and>
   ref_db ''bob'' \<noteq> ref_db ''ann''"
proof -
  have g: "cx_lib ref_guest = ref_lib" "cx_idString ref_guest = ref_id" by (simp_all add: ref_guest_def ref_cx_def)
  have "known_levels (cx_access ref_guest)" by (simp add: ref_guest_def known_levels_def)
  from query_hides_unreadable [OF _ this, of ref_query_repos "ref_db ''ann''" "ref_db ''bob''" ref_text "\<lambda>_. []" "[]" True
      "ref_query ''colour = red and matches('red')''"]
  have "query_Execute ref_guest ref_text (\<lambda>_. []) ref_query_repos [] True (ref_db ''bob'') (ref_query ''colour = red and matches('red')'') =
      query_Execute ref_guest ref_text (\<lambda>_. []) ref_query_repos [] True (ref_db ''ann'') (ref_query ''colour = red and matches('red')'')"
    using ref_twins by (simp add: g)
  moreover have "db_values (ref_db ''bob'') \<noteq> db_values (ref_db ''ann'')"
    by (simp add: ref_db_def ref_rows_def ref_row_def NewStringValue_def zero_value_def)
  ultimately show ?thesis using ref_found [of "''ann''"] by auto
qed

text \<open>C6. On a database that keeps the invariant of the value store and the types of its attributes, an accepted query crosses at
  most five relationships and never fails at run time. The evaluator computes the declarative meaning of the
  query over sets of rows (three-valued connectives, existence of rows and counterparts, aggregates), the search lists
  exactly the entities on which it is true, and the order of the stored rows and links does not matter.\<close>

theorem query_selects_by_meaning:
  assumes "float_parse_finite (cx_lib cx)" "db_ok (cx_lib cx) (rp_attrs rp) db" "prepare cx rp defs searchIndex ty q = Inr (ids, node)"
  shows "crossings node \<le> maxTraversalDepth \<and>
    (\<forall>s. eval (query_env cx ul) db node s = Inr (meaning (query_env cx ul) db node s)) \<and>
    matching (\<lambda>e. eval (query_env cx ul) db node (row_scope (cx_tenant cx) sc e)) (entity_summaries (db_values db) (cx_tenant cx) ids) =
      Inr (filter (\<lambda>e. meaning (query_env cx ul) db node (row_scope (cx_tenant cx) sc e) = triTrue)
        (entity_summaries (db_values db) (cx_tenant cx) ids)) \<and>
    (\<forall>db' s. reordered db db' \<longrightarrow> eval (query_env cx ul) db' node s = eval (query_env cx ul) db node s)"
proof -
  note t = prepare_ok [OF assms(1,3)]
  have lib: "qe_lib (query_env cx ul) = cx_lib cx" by (simp add: query_env_def)
  note m = eval_meaning [of "query_env cx ul", unfolded lib, OF assms(2) t(1)]
  from m t(2) eval_reordered [of "query_env cx ul", unfolded lib, OF assms(2) t(1)] matching_filter show ?thesis by simp
qed

theorem query_selects_by_meaning_witness:
  "\<exists>ids node. prepare ref_guest ref_query_repos [] True ''car'' ''colour = red'' = Inr (ids, node) \<and>
     meaning (query_env ref_guest ref_text) (ref_db ''ann'') node
       \<lparr>ev_tenant = ''acme'', ev_entity = ''e1'', ev_typeID = 1, ev_link = [], ev_query = \<lparr>Locale = [], Channel = []\<rparr>\<rparr> = triTrue"
proof -
  let ?s = "\<lparr>ev_tenant = ''acme'', ev_entity = ''e1'', ev_typeID = 1, ev_link = [], ev_query = \<lparr>Locale = [], Channel = []\<rparr>\<rparr>"
  have "case prepare ref_guest ref_query_repos [] True ''car'' ''colour = red'' of Inl _ \<Rightarrow> False
      | Inr (ids, node) \<Rightarrow> eval (query_env ref_guest ref_text) (ref_db ''ann'') node ?s = Inr triTrue" by code_simp
  then obtain ids node where p: "prepare ref_guest ref_query_repos [] True ''car'' ''colour = red'' = Inr (ids, node)"
      "eval (query_env ref_guest ref_text) (ref_db ''ann'') node ?s = Inr triTrue" by (auto split: sum.splits)
  have g: "cx_lib ref_guest = ref_lib" by (simp add: ref_guest_def)
  from query_selects_by_meaning [of ref_guest, unfolded g, OF ref_lib_laws(1) ref_db_ok p(1)] p
  show ?thesis by auto
qed

text \<open>The type field of the query language knows at most 501 types: a tenant with more live entity types has one that every
  query refuses as unknown.\<close>

theorem query_type_names_truncated:
  assumes "typesByName cx rp = Inr m"
    and "501 < card (ts_InternalName ` {t \<in> set (rp_types rp). ts_TenantID t = cx_tenant cx \<and> ts_ArchivedAt t = None \<and> ts_Kind t = KindEntity})"
  shows "\<exists>t\<in>set (rp_types rp). ts_TenantID t = cx_tenant cx \<and> ts_ArchivedAt t = None \<and> ts_Kind t = KindEntity \<and>
    (\<forall>b lit. bi_typesByName b = m \<and> li_Text lit = ts_InternalName t \<longrightarrow> lookupType b lit = Inl (NewValidation ''unknown type %q''))"
proof -
  let ?N = "ts_InternalName ` {t \<in> set (rp_types rp). ts_TenantID t = cx_tenant cx \<and> ts_ArchivedAt t = None \<and> ts_Kind t = KindEntity}"
  have "\<not> ?N \<subseteq> fst ` set m" using typesByName_length [OF assms(1)] assms(2) card_mono [of "fst ` set m" ?N] by auto
  then obtain t where "t \<in> set (rp_types rp)" "ts_TenantID t = cx_tenant cx" "ts_ArchivedAt t = None" "ts_Kind t = KindEntity"
    "map_of m (ts_InternalName t) = None" by (auto simp: map_of_eq_None_iff)
  then show ?thesis by (auto simp: lookupType_def)
qed

theorem query_type_names_truncated_witness:
  "\<exists>m. typesByName (ref_cx 0) ref_many_types = Inr m \<and> (\<exists>t\<in>set (rp_types ref_many_types). map_of m (ts_InternalName t) = None)"
proof -
  obtain m where m: "typesByName (ref_cx 0) ref_many_types = Inr m" using typesByName_total by blast
  have "\<exists>t\<in>set (rp_types ref_many_types). ts_TenantID t = ''acme'' \<and> ts_ArchivedAt t = None \<and> ts_Kind t = KindEntity \<and>
      (\<forall>b lit. bi_typesByName b = m \<and> li_Text lit = ts_InternalName t \<longrightarrow> lookupType b lit = Inl (NewValidation ''unknown type %q''))"
    using query_type_names_truncated [OF m] ref_many_names by simp
  then obtain t where t: "t \<in> set (rp_types ref_many_types)"
    "\<And>b lit. bi_typesByName b = m \<Longrightarrow> li_Text lit = ts_InternalName t \<Longrightarrow> lookupType b lit = Inl (NewValidation ''unknown type %q'')" by auto
  from t(2) [of "\<lparr>bi_cx = ref_cx 0, bi_rp = ref_many_types, bi_defs = [], bi_searchIndex = False, bi_typesByName = m\<rparr>"
      "\<lparr>li_Kind = LitIdent, li_Text = ts_InternalName t, li_Unit = [], li_Pos = 0\<rparr>"]
  have "map_of m (ts_InternalName t) = None" by (simp add: lookupType_def split: option.splits)
  with m t(1) show ?thesis by blast
qed

text \<open>A quantity whose magnitude in the base unit exceeds the range of float64 is accepted with an infinite base, and the stored
  value can then not be written as JSON, so every read that returns it fails.\<close>

theorem quantity_overflow_unreadable:
  assumes "cx_units cx = Some units" "ad_unitFamilyID def \<noteq> []" "cx_parseID cx (ad_unitFamilyID def) = Inr i"
    and "units (cx_tenant cx) i = Inr fam" "Factor fam unit = Some factor" "unit \<noteq> []"
    and "rat_set_string (cx_lib cx) (cx_formatF cx factor) = Some fr" "1 \<le> fr"
    and "rat_set_string (cx_lib cx) magnitude = Some m" "2 ^ 1024 \<le> m" "magnitude \<noteq> []"
    and "ad_dataType def = DataTypeQuantity" "ad_constraints def = []" "ad_archivedAt def = None"
  shows "\<exists>v e. quantityValue cx def (Raw (quantity_payload magnitude unit)) = Inr v \<and> ValidateValue (cx_lib cx) def v = None \<and>
    MarshalJSON (cx_lib cx) v = Inl e"
proof -
  have "2 ^ 1024 * 1 \<le> m * fr" using assms(8,10) by (intro mult_mono) (auto intro: order_trans [OF _ assms(10)])
  then have "f_round False (m * fr) = FInf False" by (intro f_round_overflow) simp
  then have base: "ToBase (cx_lib cx) (cx_formatF cx) fam magnitude unit = Inr (FInf False)" using assms by (simp add: ToBase_def)
  have dec: "decode_struct quantity_in_member (Raw (quantity_payload magnitude unit)) \<lparr>qi_Magnitude = [], qi_Unit = []\<rparr> =
      (\<lparr>qi_Magnitude = magnitude, qi_Unit = unit\<rparr>, True)"
    by (simp add: quantity_payload_def decode_struct_def quantity_in_member_def into_string_def key_is_def)
  let ?v = "zero_value\<lparr>dataType := DataTypeQuantity, floatVal := FInf False, jsonVal := Raw (quantity_payload magnitude unit)\<rparr>"
  have "quantityValue cx def (Raw (quantity_payload magnitude unit)) = Inr ?v"
    using assms by (simp add: quantityValue_def dec base NewQuantityValue_def)
  moreover have "ValidateValue (cx_lib cx) def ?v = None"
    using assms by (simp add: ValidateValue_def attr_IsArchived_def IsZero_def Constraints_Check_def)
  moreover have "MarshalJSON (cx_lib cx) ?v = Inl (PlainErr ''json: unsupported value'')"
    by (simp add: MarshalJSON_def value_Quantity_def marshal_float_def f_finite_def Let_def)
  ultimately show ?thesis by blast
qed

theorem quantity_overflow_unreadable_witness:
  "\<exists>v e. quantityValue ref_scale ref_weight (Raw (quantity_payload (CHR ''1'' # replicate 400 (CHR ''0'')) ''g'')) = Inr v \<and>
     ValidateValue ref_lib ref_weight v = None \<and> MarshalJSON ref_lib v = Inl e"
proof -
  have lib: "cx_lib ref_scale = ref_lib" by (simp add: ref_scale_def)
  have "\<exists>v e. quantityValue ref_scale ref_weight (Raw (quantity_payload (CHR ''1'' # replicate 400 (CHR ''0'')) ''g'')) = Inr v \<and>
      ValidateValue (cx_lib ref_scale) ref_weight v = None \<and> MarshalJSON (cx_lib ref_scale) v = Inl e"
  proof (rule quantity_overflow_unreadable)
    show "cx_units ref_scale = Some (\<lambda>_ _. Inr ref_grams)" by (simp add: ref_scale_def)
    show "ad_unitFamilyID ref_weight \<noteq> []" "ad_dataType ref_weight = DataTypeQuantity" "ad_constraints ref_weight = []"
      "ad_archivedAt ref_weight = None" by (simp_all add: ref_weight_def ref_attr_def)
    show "cx_parseID ref_scale (ad_unitFamilyID ref_weight) = Inr 9" by code_simp
    show "(\<lambda>_ _. Inr ref_grams) (cx_tenant ref_scale) 9 = Inr ref_grams" by simp
    show "Factor ref_grams ''g'' = Some (FFin 1)" by (simp add: Factor_def ref_grams_def)
    show "rat_set_string (cx_lib ref_scale) (cx_formatF ref_scale (FFin 1)) = Some 1" by code_simp
    show "rat_set_string (cx_lib ref_scale) (CHR ''1'' # replicate 400 (CHR ''0'')) = Some (10 ^ 400)" by (rule ref_heavy)
    show "(2 :: rat) ^ 1024 \<le> 10 ^ 400"
    proof -
      have "(2 :: rat) ^ 1024 = (2 ^ 10) ^ 102 * 2 ^ 4" by (simp add: power_mult [symmetric] power_add [symmetric])
      also have "\<dots> \<le> (10 ^ 4) ^ 100" by simp
      finally show ?thesis by (simp add: power_mult [symmetric])
    qed
  qed simp_all
  then show ?thesis by (simp add: lib)
qed

end
